(* ===== verification/Prelude.thy ===== *)
theory Prelude
  imports Main "HOL-Library.Word"
begin

section \<open>Shared vocabulary of the development\<close>

text \<open>
  The collections every other theory adds to, and the generic facts on options,
  lists and partial maps that several components use.

  \<^item> \<open>json_simps\<close>: reading a field of an object that the model has just built;
  \<^item> \<open>goal_edges\<close>: the edges of the goal state machine;
  \<^item> \<open>view_simps\<close>: what the controller's view of a record keeps;
  \<^item> \<open>audit_simps\<close>: the events a committed write implies.
\<close>

named_theorems json_simps
named_theorems goal_edges
named_theorems view_simps
named_theorems audit_simps

subsection \<open>Options: JavaScript's \<open>??\<close> and \<open>undefined\<close>\<close>

text \<open>\<open>a ?? b\<close> on a value that is absent or present.\<close>

definition orElse :: "'a option \<Rightarrow> 'a option \<Rightarrow> 'a option" where
  "orElse a b = (case a of None \<Rightarrow> b | Some x \<Rightarrow> Some x)"

lemma orElse_simps [simp]:
  "orElse None b = b"
  "orElse (Some x) b = Some x"
  by (simp_all add: orElse_def)

lemma orElse_None_right [simp]: "orElse a None = a"
  by (cases a) simp_all

definition withDefault :: "'a \<Rightarrow> 'a option \<Rightarrow> 'a" where
  "withDefault d a = (case a of None \<Rightarrow> d | Some x \<Rightarrow> x)"

lemma withDefault_simps [simp]:
  "withDefault d None = d"
  "withDefault d (Some x) = x"
  by (simp_all add: withDefault_def)

subsection \<open>Lists: \<open>at(-1)\<close>, bounded reads, sequencing of fallible maps\<close>

text \<open>\<open>xs.at(-1)\<close> and \<open>xs[i]\<close> answer \<open>undefined\<close> out of range.\<close>

definition lastOf :: "'a list \<Rightarrow> 'a option" where
  "lastOf xs = (if xs = [] then None else Some (last xs))"

definition elementAt :: "'a list \<Rightarrow> nat \<Rightarrow> 'a option" where
  "elementAt xs i = (if i < length xs then Some (xs ! i) else None)"

lemma lastOf_simps [simp]:
  "lastOf [] = None"
  "lastOf (xs @ [x]) = Some x"
  "lastOf [x] = Some x"
  by (simp_all add: lastOf_def)

lemma lastOf_None_iff [simp]: "lastOf xs = None \<longleftrightarrow> xs = []"
  by (simp add: lastOf_def)

lemma lastOf_SomeD: "lastOf xs = Some x \<Longrightarrow> xs = butlast xs @ [x]"
  by (auto simp: lastOf_def split: if_splits)

lemma lastOf_Some_in: "lastOf xs = Some x \<Longrightarrow> x \<in> set xs"
  by (auto simp: lastOf_def split: if_splits)

lemma elementAt_simps [simp]:
  "i < length xs \<Longrightarrow> elementAt xs i = Some (xs ! i)"
  "length xs \<le> i \<Longrightarrow> elementAt xs i = None"
  by (simp_all add: elementAt_def)

lemma elementAt_append_last [simp]: "elementAt (xs @ [x]) (length xs) = Some x"
  by (simp add: elementAt_def)

lemma elementAt_in: "elementAt xs i = Some x \<Longrightarrow> x \<in> set xs"
  by (auto simp: elementAt_def split: if_splits)

text \<open>Every element fails or all of them produce a value, from left to right.\<close>

fun sequence :: "'a option list \<Rightarrow> 'a list option" where
  "sequence [] = Some []"
| "sequence (x # xs) =
     (case x of None \<Rightarrow> None
      | Some y \<Rightarrow> (case sequence xs of None \<Rightarrow> None | Some ys \<Rightarrow> Some (y # ys)))"

lemma sequence_all_Some [simp]: "sequence (map (\<lambda>x. Some (f x)) xs) = Some (map f xs)"
  by (induction xs) simp_all

lemma sequence_Some_iff: "sequence xs = Some ys \<longleftrightarrow> xs = map Some ys"
  by (induction xs arbitrary: ys) (auto split: option.splits)

lemma sequence_memberD: "sequence xs = Some ys \<Longrightarrow> y \<in> set ys \<Longrightarrow> Some y \<in> set xs"
  by (auto simp: sequence_Some_iff)

subsection \<open>Prefixes of an append-only log\<close>

definition extends :: "'a list \<Rightarrow> 'a list \<Rightarrow> bool" where
  "extends old new \<longleftrightarrow> take (length old) new = old"

lemma extends_refl [simp]: "extends xs xs"
  by (simp add: extends_def)

lemma extends_append [simp]: "extends xs (xs @ ys)"
  by (simp add: extends_def)

lemma extends_iff: "extends xs ys \<longleftrightarrow> (\<exists>zs. ys = xs @ zs)"
  by (metis append_eq_conv_conj extends_def extends_append)

lemma extends_trans: "extends xs ys \<Longrightarrow> extends ys zs \<Longrightarrow> extends xs zs"
  by (auto simp: extends_iff)

end
