(* ===== verification/JsText.thy ===== *)
theory JsText
  imports Prelude
begin

section \<open>JavaScript text: UTF-16 code units\<close>

text \<open>
  A JavaScript string is a list of 16-bit code units, and its \<open>length\<close> counts them. The
  source also measures the UTF-8 size of a string (\<open>TextEncoder\<close>), asks whether it is
  well formed (no lone surrogate) and prints integers in decimal. Literals are written
  \<open>lit ''abc''\<close>.
\<close>

type_synonym jstr = "16 word list"

definition ch :: "char \<Rightarrow> 16 word" where
  "ch c = of_nat (of_char c)"

definition lit :: "string \<Rightarrow> jstr" where
  "lit s = map ch s"

lemma unat_ch: "unat (ch c) = of_char c"
proof -
  have "of_char c < (256::nat)" by (rule nat_of_char_less_256)
  then have "of_char c mod (65536::nat) = of_char c" by (intro mod_less) linarith
  then show ?thesis by (simp add: ch_def unat_of_nat)
qed

lemma ch_eq_iff [simp]: "ch c = ch d \<longleftrightarrow> c = d"
proof
  assume "ch c = ch d"
  then have "unat (ch c) = unat (ch d)" by simp
  then have "(of_char c :: nat) = of_char d" by (simp only: unat_ch)
  then show "c = d" by simp
qed simp

lemma lit_simps: "lit [] = []" "lit (c # s) = ch c # lit s" "lit (s @ t) = lit s @ lit t"
  by (simp_all add: lit_def)

lemma lit_eq_iff [simp]: "lit s = lit t \<longleftrightarrow> s = t"
proof -
  have "inj ch" by (rule injI) simp
  then show ?thesis by (simp add: lit_def inj_map_eq_map)
qed

lemma lit_Nil_iff [simp]: "lit s = [] \<longleftrightarrow> s = []" "[] = lit s \<longleftrightarrow> s = []"
  by (auto simp: lit_def)

lemma length_lit [simp]: "length (lit s) = length s"
  by (simp add: lit_def)

subsection \<open>Well-formedness and UTF-8 size\<close>

definition isHighSurrogate :: "16 word \<Rightarrow> bool" where
  "isHighSurrogate c \<longleftrightarrow> 0xD800 \<le> c \<and> c \<le> 0xDBFF"

definition isLowSurrogate :: "16 word \<Rightarrow> bool" where
  "isLowSurrogate c \<longleftrightarrow> 0xDC00 \<le> c \<and> c \<le> 0xDFFF"

fun isWellFormed :: "jstr \<Rightarrow> bool" where
  "isWellFormed [] = True"
| "isWellFormed (c # cs) =
     (if isHighSurrogate c then
        (case cs of [] \<Rightarrow> False | d # ds \<Rightarrow> isLowSurrogate d \<and> isWellFormed ds)
      else \<not> isLowSurrogate c \<and> isWellFormed cs)"

text \<open>\<open>TextEncoder\<close> writes a lone surrogate as the three bytes of U+FFFD.\<close>

fun utf8ByteLength :: "jstr \<Rightarrow> nat" where
  "utf8ByteLength [] = 0"
| "utf8ByteLength (c # cs) =
     (if c < 0x80 then 1 + utf8ByteLength cs
      else if c < 0x800 then 2 + utf8ByteLength cs
      else if isHighSurrogate c then
        (case cs of [] \<Rightarrow> 3
         | d # ds \<Rightarrow> if isLowSurrogate d then 4 + utf8ByteLength ds else 3 + utf8ByteLength cs)
      else 3 + utf8ByteLength cs)"

lemma utf8ByteLength_single: "utf8ByteLength [c] = (if c < 0x80 then 1 else if c < 0x800 then 2 else 3)"
  by simp

lemma utf8ByteLength_ascii_Cons [simp]: "c < 0x80 \<Longrightarrow> utf8ByteLength (c # s) = Suc (utf8ByteLength s)"
  by simp

declare utf8ByteLength.simps(2) [simp del]

lemma utf8ByteLength_pair:
  "utf8ByteLength (c # d # s) =
     (if c < 0x80 then 1 + utf8ByteLength (d # s)
      else if c < 0x800 then 2 + utf8ByteLength (d # s)
      else if isHighSurrogate c \<and> isLowSurrogate d then 4 + utf8ByteLength s
      else 3 + utf8ByteLength (d # s))"
  by (subst utf8ByteLength.simps(2)) auto

declare utf8ByteLength_single [simp] utf8ByteLength_pair [simp]

lemma utf8ByteLength_bounds: "length s \<le> utf8ByteLength s \<and> utf8ByteLength s \<le> 3 * length s"
proof (induction s rule: length_induct)
  case (1 s)
  show ?case
  proof (cases s)
    case (Cons c cs)
    show ?thesis
    proof (cases cs)
      case Nil
      with Cons show ?thesis by simp
    next
      case (Cons d ds)
      have "length (d # ds) \<le> utf8ByteLength (d # ds) \<and> utf8ByteLength (d # ds) \<le> 3 * length (d # ds)"
        and "length ds \<le> utf8ByteLength ds \<and> utf8ByteLength ds \<le> 3 * length ds"
        using 1 [rule_format, of "d # ds"] 1 [rule_format, of ds] \<open>s = c # cs\<close> Cons by simp_all
      with Cons \<open>s = c # cs\<close> show ?thesis by auto
    qed
  qed simp
qed

text \<open>A code unit below the surrogates starts no pair, so sizes add up behind it.\<close>

definition isAscii :: "jstr \<Rightarrow> bool" where
  "isAscii s \<longleftrightarrow> (\<forall>c \<in> set s. c < 0x80)"

lemma isAscii_simps [simp]:
  "isAscii []"
  "isAscii (c # s) \<longleftrightarrow> c < 0x80 \<and> isAscii s"
  "isAscii (s @ t) \<longleftrightarrow> isAscii s \<and> isAscii t"
  by (auto simp: isAscii_def)

lemma utf8ByteLength_ascii_append:
  "isAscii s \<Longrightarrow> utf8ByteLength (s @ t) = length s + utf8ByteLength t"
  by (induction s) auto

lemma utf8ByteLength_ascii: "isAscii s \<Longrightarrow> utf8ByteLength s = length s"
  using utf8ByteLength_ascii_append [of s "[]"] by simp

lemma ascii_not_low: "c < 0x80 \<Longrightarrow> \<not> isLowSurrogate c"
  by (auto simp: isLowSurrogate_def word_le_nat_alt word_less_nat_alt)

lemma utf8ByteLength_append_ascii:
  "isAscii t \<Longrightarrow> utf8ByteLength (s @ t) = utf8ByteLength s + length t"
proof (induction s rule: length_induct)
  case (1 s)
  show ?case
  proof (cases s)
    case Nil
    with 1 show ?thesis by (simp add: utf8ByteLength_ascii)
  next
    case (Cons c cs)
    show ?thesis
    proof (cases cs)
      case Nil
      with 1 Cons show ?thesis
        by (cases t) (auto simp: utf8ByteLength_ascii ascii_not_low)
    next
      case (Cons d ds)
      have "utf8ByteLength ((d # ds) @ t) = utf8ByteLength (d # ds) + length t"
        and "utf8ByteLength (ds @ t) = utf8ByteLength ds + length t"
        using 1(1) [rule_format, of "d # ds"] 1(1) [rule_format, of ds] 1(2) \<open>s = c # cs\<close> Cons
        by simp_all
      with Cons \<open>s = c # cs\<close> show ?thesis by auto
    qed
  qed
qed

lemma isAscii_lit [simp]: "isAscii (lit s) \<longleftrightarrow> list_all (\<lambda>c. of_char c < (128::nat)) s"
proof -
  have "(ch c < 0x80) \<longleftrightarrow> of_char c < (128::nat)" for c
    by (simp add: word_less_nat_alt unat_ch)
  then show ?thesis by (auto simp: isAscii_def lit_def list_all_iff)
qed

subsection \<open>Decimal digits\<close>

definition digitUnit :: "nat \<Rightarrow> 16 word" where
  "digitUnit d = of_nat (48 + d)"

fun decimal :: "nat \<Rightarrow> jstr" where
  "decimal n = (if n < 10 then [digitUnit n] else decimal (n div 10) @ [digitUnit (n mod 10)])"

declare decimal.simps [simp del]

lemma decimal_small: "n < 10 \<Longrightarrow> decimal n = [digitUnit n]"
  by (subst decimal.simps) simp

lemma decimal_step: "10 \<le> n \<Longrightarrow> decimal n = decimal (n div 10) @ [digitUnit (n mod 10)]"
  by (subst decimal.simps) simp

lemma decimal_nonempty [simp]: "decimal n \<noteq> []"
  by (subst decimal.simps) simp

definition isDigit :: "16 word \<Rightarrow> bool" where
  "isDigit c \<longleftrightarrow> 48 \<le> c \<and> c \<le> 57"

definition digitValue :: "16 word \<Rightarrow> nat" where
  "digitValue c = unat c - 48"

lemma digitUnit_props [simp]:
  assumes "d < 10"
  shows "isDigit (digitUnit d)" "digitValue (digitUnit d) = d"
  using assms
  by (simp_all add: isDigit_def digitUnit_def digitValue_def word_le_nat_alt unat_of_nat
      del: of_nat_add)

text \<open>Reading digits back, most significant first.\<close>

definition readDecimal :: "jstr \<Rightarrow> nat" where
  "readDecimal s = foldl (\<lambda>n c. 10 * n + digitValue c) 0 s"

lemma readDecimal_snoc: "readDecimal (s @ [c]) = 10 * readDecimal s + digitValue c"
  by (simp add: readDecimal_def)

lemma readDecimal_decimal [simp]: "readDecimal (decimal n) = n"
proof (induction n rule: decimal.induct)
  case (1 n)
  show ?case
  proof (cases "n < 10")
    case True
    then show ?thesis by (simp add: decimal_small readDecimal_def)
  next
    case False
    with 1 have "readDecimal (decimal (n div 10)) = n div 10" by simp
    with False show ?thesis by (simp add: decimal_step readDecimal_snoc)
  qed
qed

lemma decimal_inject [simp]: "decimal m = decimal n \<longleftrightarrow> m = n"
  by (metis readDecimal_decimal)

lemma decimal_digits: "\<forall>c \<in> set (decimal n). isDigit c"
proof (induction n rule: decimal.induct)
  case (1 n)
  then show ?case
    by (cases "n < 10") (auto simp: decimal_small decimal_step)
qed

lemma isAscii_decimal [simp]: "isAscii (decimal n)"
proof -
  have "isDigit c \<Longrightarrow> c < 0x80" for c
    by (auto simp: isDigit_def word_le_nat_alt word_less_nat_alt)
  with decimal_digits [of n] show ?thesis by (auto simp: isAscii_def)
qed

lemma digitUnit_neq_ch:
  assumes "d < 10" "of_char c < (48::nat) \<or> 57 < (of_char c :: nat)"
  shows "digitUnit d \<noteq> ch c"
proof
  assume "digitUnit d = ch c"
  then have "isDigit (ch c)" using assms(1) by (metis digitUnit_props(1))
  then show False
    using assms(2) by (auto simp: isDigit_def word_le_nat_alt unat_ch)
qed

text \<open>\<open>String(n).padStart(width, '0')\<close>.\<close>

definition padded :: "nat \<Rightarrow> nat \<Rightarrow> jstr" where
  "padded w n = replicate (w - length (decimal n)) (digitUnit 0) @ decimal n"

end
