(* ===== verification/JsNumber.thy ===== *)
theory JsNumber
  imports Complex_Main Prelude
begin

section \<open>JavaScript numbers: IEEE binary64\<close>

text \<open>
  A number is \<open>NaN\<close>, an infinity, or a finite value, kept as the rational it denotes
  (the two zeros, which \<open>===\<close> does not tell apart, are one). Arithmetic computes the exact
  rational and rounds it to the nearest representable value, ties to even, as the language
  defines: 53 significant bits, exponents down to \<open>-1074\<close>, and an infinity past the
  largest. \<open>js_double\<close> says a value is representable.
\<close>

datatype jnum = NaN | PosInf | NegInf | Fin rat

subsection \<open>The binary exponent of a positive rational\<close>

function ilog2 :: "rat \<Rightarrow> int" where
  "ilog2 x =
     (if x \<le> 0 then 0
      else if x < 1 then ilog2 (2 * x) - 1
      else if x < 2 then 0
      else ilog2 (x / 2) + 1)"
  by pat_completeness auto
termination
proof (relation "measure (\<lambda>x. if x < 1 then nat \<lceil>1 / x\<rceil> else nat \<lfloor>x\<rfloor>)")
  fix x :: rat
  assume x: "\<not> x \<le> 0" "x < 1"
  show "(2 * x, x) \<in> measure (\<lambda>x. if x < 1 then nat \<lceil>1 / x\<rceil> else nat \<lfloor>x\<rfloor>)"
  proof (cases "2 * x < 1")
    case True
    with x have "2 < 1 / x" by (simp add: field_simps)
    then have "1 / (2 * x) + 1 < 1 / x" by (simp add: field_simps)
    then have "\<lceil>1 / (2 * x)\<rceil> < \<lceil>1 / x\<rceil>" by linarith
    moreover have "0 < 1 / (2 * x)" using x by simp
    ultimately show ?thesis using x True by auto
  next
    case False
    have "1 < 1 / x" using x by (simp add: field_simps)
    then have "1 < \<lceil>1 / x\<rceil>" by linarith
    moreover have "\<lfloor>2 * x\<rfloor> \<le> 1" using x by linarith
    ultimately have "\<lfloor>2 * x\<rfloor> < \<lceil>1 / x\<rceil>" and "0 < \<lceil>1 / x\<rceil>" by linarith+
    then show ?thesis using x False by auto
  qed
next
  fix x :: rat
  assume x: "\<not> x \<le> 0" "\<not> x < 1" "\<not> x < 2"
  then have "x / 2 + 1 \<le> x" and "1 \<le> x / 2" by simp_all
  then have "\<lfloor>x / 2\<rfloor> < \<lfloor>x\<rfloor>" and "0 \<le> \<lfloor>x / 2\<rfloor>" by linarith+
  with x \<open>1 \<le> x / 2\<close>
  show "(x / 2, x) \<in> measure (\<lambda>x. if x < 1 then nat \<lceil>1 / x\<rceil> else nat \<lfloor>x\<rfloor>)"
    by auto
qed simp

declare ilog2.simps [simp del]

lemma ilog2_bounds:
  assumes "0 < x"
  shows "2 powi ilog2 x \<le> x \<and> x < 2 * 2 powi ilog2 x"
  using assms
proof (induction x rule: ilog2.induct)
  case (1 x)
  consider "x < 1" | "1 \<le> x" "x < 2" | "2 \<le> x" by linarith
  then show ?case
  proof cases
    case 1
    with "1.IH"(1) "1.prems" have IH: "2 powi ilog2 (2 * x) \<le> 2 * x \<and> 2 * x < 2 * 2 powi ilog2 (2 * x)"
      by simp
    have "(2::rat) powi (ilog2 (2 * x) - 1) * 2 = 2 powi ilog2 (2 * x)"
      by (simp add: power_int_diff)
    with IH 1 "1.prems" show ?thesis by (simp add: ilog2.simps [of x])
  next
    case 2
    then show ?thesis by (simp add: ilog2.simps [of x])
  next
    case 3
    with "1.IH"(2) "1.prems" have IH: "2 powi ilog2 (x / 2) \<le> x / 2 \<and> x / 2 < 2 * 2 powi ilog2 (x / 2)"
      by simp
    have "(2::rat) powi (ilog2 (x / 2) + 1) = 2 * 2 powi ilog2 (x / 2)"
      by (simp add: power_int_add)
    with IH 3 show ?thesis by (simp add: ilog2.simps [of x])
  qed
qed

lemma powi_le_iff: "(2::rat) powi a \<le> 2 powi b \<longleftrightarrow> a \<le> b"
proof
  assume "(2::rat) powi a \<le> 2 powi b"
  then show "a \<le> b"
    using power_int_strict_increasing [of b a "2::rat"] by (meson leD not_le one_less_numeral_iff semiring_norm(76))
next
  assume "a \<le> b"
  then show "(2::rat) powi a \<le> 2 powi b" by (intro power_int_increasing) auto
qed

lemma ilog2_unique:
  assumes "2 powi e \<le> x" "x < 2 * 2 powi e"
  shows "ilog2 x = e"
proof -
  have "(0::rat) < 2 powi e" by simp
  with assms have "0 < x" by linarith
  from ilog2_bounds [OF this] have b: "2 powi ilog2 x \<le> x" "x < 2 * 2 powi ilog2 x" by auto
  have "(2::rat) powi e < 2 powi (ilog2 x + 1)" and "(2::rat) powi ilog2 x < 2 powi (e + 1)"
    using assms b by (simp_all add: power_int_add)
  then have "\<not> ilog2 x + 1 \<le> e" and "\<not> e + 1 \<le> ilog2 x"
    using powi_le_iff by (meson not_le)+
  then show ?thesis by simp
qed

subsection \<open>Rounding to nearest, ties to even\<close>

definition roundHalfEven :: "rat \<Rightarrow> int" where
  "roundHalfEven x =
     (let f = \<lfloor>x\<rfloor>; d = x - of_int f
      in if d < 1 / 2 then f else if 1 / 2 < d then f + 1 else if even f then f else f + 1)"

definition ulpExponent :: "rat \<Rightarrow> int" where
  "ulpExponent x = max (ilog2 x - 52) (- 1074)"

definition roundPositive :: "rat \<Rightarrow> rat" where
  "roundPositive x =
     of_int (roundHalfEven (x / 2 powi ulpExponent x)) * 2 powi ulpExponent x"

definition toDouble :: "rat \<Rightarrow> jnum" where
  "toDouble r =
     (if r = 0 then Fin 0
      else let v = roundPositive \<bar>r\<bar>
           in if 2 ^ 1024 \<le> v then (if 0 < r then PosInf else NegInf)
              else Fin (if 0 < r then v else - v))"

definition js_double :: "rat \<Rightarrow> bool" where
  "js_double r \<longleftrightarrow> toDouble r = Fin r"

lemma roundHalfEven_int [simp]: "roundHalfEven (of_int n) = n"
  by (simp add: roundHalfEven_def)

lemma roundHalfEven_le: "x \<le> of_int n \<Longrightarrow> roundHalfEven x \<le> n"
proof -
  assume x: "x \<le> of_int n"
  show ?thesis
  proof (cases "x = of_int n")
    case False
    with x have "\<lfloor>x\<rfloor> < n" by linarith
    then show ?thesis by (simp add: roundHalfEven_def Let_def)
  qed simp
qed

lemma roundHalfEven_ge: "of_int n \<le> x \<Longrightarrow> n \<le> roundHalfEven x"
proof -
  assume "of_int n \<le> x"
  then have "n \<le> \<lfloor>x\<rfloor>" by linarith
  then show ?thesis by (simp add: roundHalfEven_def Let_def)
qed

text \<open>A value with at most 53 significant bits and an exponent in range is kept.\<close>

lemma roundPositive_representable:
  assumes m: "0 < m" "m \<le> 2 ^ 53" and k: "- 1074 \<le> k"
  shows "roundPositive (of_int m * 2 powi k) = of_int m * 2 powi k"
proof -
  define x :: rat where "x = of_int m * 2 powi k"
  have pos: "0 < x" using m by (simp add: x_def)
  have le: "x \<le> 2 powi (k + 53)"
  proof -
    have "(of_int m :: rat) \<le> of_int (2 ^ 53)" using m(2) by (simp only: of_int_le_iff)
    then show ?thesis by (simp add: x_def power_int_add)
  qed
  have e: "ilog2 x \<le> k + 53"
  proof -
    have "(2::rat) powi ilog2 x \<le> 2 powi (k + 53)"
      using ilog2_bounds [OF pos] le by linarith
    then show ?thesis by (simp add: powi_le_iff)
  qed
  show ?thesis
  proof (cases "ilog2 x = k + 53")
    case True
    then have "x = 2 powi (k + 53)" using ilog2_bounds [OF pos] le by simp
    moreover have "ulpExponent x = k + 1" using True k by (simp add: ulpExponent_def)
    ultimately have "x / 2 powi ulpExponent x = of_int (2 ^ 52)"
      by (simp add: power_int_add)
    then have "x / 2 powi ulpExponent x = of_int (2 ^ 52)" "roundHalfEven (x / 2 powi ulpExponent x) = 2 ^ 52"
      by (simp_all only: roundHalfEven_int)
    then show ?thesis by (simp add: roundPositive_def x_def [symmetric] field_simps)
  next
    case False
    then have d: "0 \<le> k - ulpExponent x" using e k by (simp add: ulpExponent_def)
    have "x / 2 powi ulpExponent x = of_int (m * 2 ^ nat (k - ulpExponent x))"
    proof -
      have "(2::rat) powi k = 2 powi (k - ulpExponent x) * 2 powi ulpExponent x"
        by (simp add: power_int_diff)
      moreover have "(2::rat) powi (k - ulpExponent x) = 2 ^ nat (k - ulpExponent x)"
        using d by (simp add: power_int_def)
      moreover define u where "u = ulpExponent x"
      ultimately have "x = of_int m * 2 ^ nat (k - u) * 2 powi u"
        by (simp add: x_def)
      then have "x / 2 powi u = of_int m * 2 ^ nat (k - u)" by (simp only:) simp
      then show ?thesis by (simp add: u_def)
    qed
    then have "of_int (roundHalfEven (x / 2 powi ulpExponent x)) = x / 2 powi ulpExponent x"
      by (simp only: roundHalfEven_int)
    then show ?thesis by (simp add: roundPositive_def x_def [symmetric])
  qed
qed

lemma roundPositive_form:
  assumes "0 < x"
  obtains m k where "roundPositive x = of_int m * 2 powi k" "0 \<le> m" "m \<le> 2 ^ 53" "- 1074 \<le> k"
proof
  let ?u = "ulpExponent x"
  show "roundPositive x = of_int (roundHalfEven (x / 2 powi ?u)) * 2 powi ?u"
    by (simp add: roundPositive_def)
  show "- 1074 \<le> ?u" by (simp add: ulpExponent_def)
  show "0 \<le> roundHalfEven (x / 2 powi ?u)"
    by (rule roundHalfEven_ge) (use assms in simp)
  have "x < 2 * 2 powi ilog2 x" using ilog2_bounds [OF assms] by simp
  also have "2 * 2 powi ilog2 x = (2::rat) powi (ilog2 x + 1)" by (simp add: power_int_add)
  also have "(2::rat) powi (ilog2 x + 1) \<le> 2 powi (53 + ?u)"
    by (simp add: powi_le_iff ulpExponent_def)
  finally have "x / 2 powi ?u \<le> of_int (2 ^ 53)"
    by (simp add: power_int_add field_simps)
  then show "roundHalfEven (x / 2 powi ?u) \<le> 2 ^ 53" by (rule roundHalfEven_le)
qed

lemma roundPositive_nonneg: "0 < x \<Longrightarrow> 0 \<le> roundPositive x"
  by (rule roundPositive_form [of x]) auto

lemma toDouble_0 [simp]: "toDouble 0 = Fin 0"
  by (simp add: toDouble_def)

lemma toDouble_nonneg: "toDouble r = Fin v \<Longrightarrow> 0 \<le> r \<Longrightarrow> 0 \<le> v"
  using roundPositive_nonneg [of r]
  by (cases "r = 0") (auto simp: toDouble_def Let_def split: if_splits)

theorem toDouble_idem: "toDouble r = Fin v \<Longrightarrow> toDouble v = Fin v"
proof -
  assume r: "toDouble r = Fin v"
  show ?thesis
  proof (cases "r = 0 \<or> v = 0")
    case True
    with r show ?thesis by auto
  next
    case False
    then have "0 < \<bar>r\<bar>" by simp
    then obtain m k where f: "roundPositive \<bar>r\<bar> = of_int m * 2 powi k"
      and b: "0 \<le> m" "m \<le> 2 ^ 53" "- 1074 \<le> k"
      by (rule roundPositive_form)
    from r False have v: "\<bar>v\<bar> = roundPositive \<bar>r\<bar>" "roundPositive \<bar>r\<bar> < 2 ^ 1024"
      using roundPositive_nonneg [of "\<bar>r\<bar>"]
      by (auto simp: toDouble_def Let_def split: if_splits)
    with False f b(1) have "0 < m" by (cases "m = 0") auto
    from this b(2,3) have "roundPositive \<bar>v\<bar> = \<bar>v\<bar>"
      unfolding v f by (rule roundPositive_representable)
    moreover have "\<bar>v\<bar> < 2 ^ 1024" using v by (simp only:)
    ultimately have "toDouble v = Fin (if 0 < v then \<bar>v\<bar> else - \<bar>v\<bar>)"
      using False by (simp add: toDouble_def Let_def)
    then show ?thesis by simp
  qed
qed

corollary js_double_toDouble: "toDouble r = Fin v \<Longrightarrow> js_double v"
  unfolding js_double_def by (rule toDouble_idem)

lemma toDouble_int: "\<bar>n\<bar> \<le> 2 ^ 53 \<Longrightarrow> toDouble (of_int n) = Fin (of_int n)"
proof (cases "n = 0")
  case False
  assume n: "\<bar>n\<bar> \<le> 2 ^ 53"
  have "roundPositive (of_int \<bar>n\<bar> * 2 powi 0) = of_int \<bar>n\<bar> * 2 powi 0"
    by (rule roundPositive_representable) (use False n in auto)
  then have r: "roundPositive \<bar>of_int n\<bar> = \<bar>of_int n\<bar>" by simp
  have "\<bar>of_int n :: rat\<bar> \<le> of_int (2 ^ 53)" using n by (simp only: of_int_abs [symmetric] of_int_le_iff)
  also have "\<dots> < (2::rat) ^ 1024" by simp
  finally show ?thesis using False by (simp add: toDouble_def r Let_def)
qed simp

subsection \<open>Arithmetic and comparison\<close>

fun jneg :: "jnum \<Rightarrow> jnum" where
  "jneg NaN = NaN"
| "jneg PosInf = NegInf"
| "jneg NegInf = PosInf"
| "jneg (Fin a) = Fin (- a)"

fun jadd :: "jnum \<Rightarrow> jnum \<Rightarrow> jnum" where
  "jadd (Fin a) (Fin b) = toDouble (a + b)"
| "jadd NaN _ = NaN"
| "jadd _ NaN = NaN"
| "jadd PosInf NegInf = NaN"
| "jadd NegInf PosInf = NaN"
| "jadd PosInf _ = PosInf"
| "jadd _ PosInf = PosInf"
| "jadd NegInf _ = NegInf"
| "jadd _ NegInf = NegInf"

definition jsub :: "jnum \<Rightarrow> jnum \<Rightarrow> jnum" where
  "jsub a b = jadd a (jneg b)"

text \<open>\<open>a <= b\<close>: false as soon as one side is \<open>NaN\<close>.\<close>

fun jle :: "jnum \<Rightarrow> jnum \<Rightarrow> bool" where
  "jle NaN _ = False"
| "jle _ NaN = False"
| "jle NegInf _ = True"
| "jle _ PosInf = True"
| "jle (Fin a) (Fin b) = (a \<le> b)"
| "jle _ _ = False"

definition jlt :: "jnum \<Rightarrow> jnum \<Rightarrow> bool" where
  "jlt a b \<longleftrightarrow> jle a b \<and> a \<noteq> b"

text \<open>\<open>a === b\<close> on numbers: \<open>NaN\<close> equals nothing.\<close>

definition jeq :: "jnum \<Rightarrow> jnum \<Rightarrow> bool" where
  "jeq a b \<longleftrightarrow> a \<noteq> NaN \<and> a = b"

definition jmax :: "jnum \<Rightarrow> jnum \<Rightarrow> jnum" where
  "jmax a b = (if a = NaN \<or> b = NaN then NaN else if jle a b then b else a)"

definition jmin :: "jnum \<Rightarrow> jnum \<Rightarrow> jnum" where
  "jmin a b = (if a = NaN \<or> b = NaN then NaN else if jle a b then a else b)"

fun jceil :: "jnum \<Rightarrow> jnum" where
  "jceil (Fin a) = Fin (of_int \<lceil>a\<rceil>)"
| "jceil x = x"

fun jisFinite :: "jnum \<Rightarrow> bool" where
  "jisFinite (Fin _) = True"
| "jisFinite _ = False"

fun jisInteger :: "jnum \<Rightarrow> bool" where
  "jisInteger (Fin a) = (a = of_int \<lfloor>a\<rfloor>)"
| "jisInteger _ = False"

definition jnat :: "nat \<Rightarrow> jnum" where
  "jnat n = Fin (of_nat n)"

text \<open>Every finite number of the value is representable: what any JavaScript number is.\<close>

fun isJsNumber :: "jnum \<Rightarrow> bool" where
  "isJsNumber (Fin a) = js_double a"
| "isJsNumber _ = True"

lemma jle_Fin [simp]: "jle (Fin a) (Fin b) \<longleftrightarrow> a \<le> b"
  by simp

lemma jlt_Fin [simp]: "jlt (Fin a) (Fin b) \<longleftrightarrow> a < b"
  by (auto simp: jlt_def)

lemma jeq_Fin [simp]: "jeq (Fin a) b \<longleftrightarrow> b = Fin a"
  by (auto simp: jeq_def)

lemma jeq_NaN [simp]: "\<not> jeq NaN b" "\<not> jeq a NaN"
  by (auto simp: jeq_def)

lemma jmax_Fin [simp]: "jmax (Fin a) (Fin b) = Fin (max a b)"
  by (simp add: jmax_def max_def)

lemma jmin_Fin [simp]: "jmin (Fin a) (Fin b) = Fin (min a b)"
  by (simp add: jmin_def min_def)

lemma jsub_Fin [simp]: "jsub (Fin a) (Fin b) = toDouble (a - b)"
  by (simp add: jsub_def)

lemma jnat_simps [simp]:
  "jisFinite (jnat n)" "jisInteger (jnat n)" "jle (jnat m) (jnat n) \<longleftrightarrow> m \<le> n"
  "jnat m = jnat n \<longleftrightarrow> m = n" "jlt (jnat m) (jnat n) \<longleftrightarrow> m < n"
  by (simp_all add: jnat_def)

lemma jisFinite_iff: "jisFinite n \<longleftrightarrow> (\<exists>r. n = Fin r)"
  by (cases n) simp_all

text \<open>Not less is greater or equal, once neither side is \<open>NaN\<close>.\<close>

lemma jle_total: "a \<noteq> NaN \<Longrightarrow> b \<noteq> NaN \<Longrightarrow> jle a b \<or> jle b a"
  by (cases a; cases b) auto

lemma jle_antisym: "jle a b \<Longrightarrow> jle b a \<Longrightarrow> a = b"
  by (cases a; cases b) auto

lemma jle_trans: "jle a b \<Longrightarrow> jle b c \<Longrightarrow> jle a c"
  by (cases a; cases b; cases c) auto

lemma jle_refl_iff [simp]: "jle a a \<longleftrightarrow> a \<noteq> NaN"
  by (cases a) auto

text \<open>
  Adding zero to a sum changes nothing: the sum was already rounded. This is what lets an
  attempt that has reported no usage yet sit in the aggregate.
\<close>

lemma jadd_0_sum: "jadd (jadd a b) (Fin 0) = jadd a b"
proof (cases "jadd a b")
  case (Fin v)
  then obtain r where "toDouble r = Fin v"
    by (cases a; cases b) auto
  with Fin show ?thesis by (simp add: toDouble_idem)
qed auto

lemma jadd_nonneg: "jle (Fin 0) a \<Longrightarrow> jle (Fin 0) b \<Longrightarrow> jle (Fin 0) (jadd a b)"
proof (cases "\<exists>x y. a = Fin x \<and> b = Fin y")
  case True
  moreover assume "jle (Fin 0) a" "jle (Fin 0) b"
  ultimately obtain x y where "a = Fin x" "b = Fin y" "0 \<le> x + y" by auto
  moreover have "toDouble (x + y) \<noteq> NaN" "0 \<le> x + y \<Longrightarrow> toDouble (x + y) \<noteq> NegInf"
    by (auto simp: toDouble_def Let_def)
  ultimately show ?thesis
    by (cases "toDouble (x + y)") (auto dest: toDouble_nonneg)
qed (cases a; cases b; auto)

text \<open>
  Two distinct representable values have a representable gap: their difference never
  rounds to zero. Deadlines rest on it.
\<close>

lemma js_double_multiple:
  assumes "js_double r"
  obtains m where "r = of_int m * 2 powi (- 1074)"
proof (cases "r = 0")
  case True
  then show ?thesis using that [of 0] by simp
next
  case False
  then have "0 < \<bar>r\<bar>" by simp
  then obtain m k where f: "roundPositive \<bar>r\<bar> = of_int m * 2 powi k" and k: "- 1074 \<le> k"
    by (rule roundPositive_form)
  have "r = roundPositive \<bar>r\<bar> \<or> r = - roundPositive \<bar>r\<bar>"
    using assms False by (auto simp: js_double_def toDouble_def Let_def split: if_splits)
  moreover have "(2::rat) powi k = of_int (2 ^ nat (k + 1074)) * 2 powi (- 1074)"
  proof -
    have "(2::rat) powi k = 2 powi (k + 1074) * 2 powi (- 1074)"
      by (subst power_int_add [symmetric]) simp_all
    moreover have "(2::rat) powi (k + 1074) = 2 ^ nat (k + 1074)"
      using k by (simp add: power_int_def)
    ultimately show ?thesis by simp
  qed
  ultimately have "r = of_int (m * 2 ^ nat (k + 1074)) * 2 powi (- 1074)
      \<or> r = of_int (- (m * 2 ^ nat (k + 1074))) * 2 powi (- 1074)"
    unfolding f by auto
  then show ?thesis using that by blast
qed

lemma toDouble_gap:
  assumes "js_double a" "js_double b" "a < b"
  shows "\<not> jle (toDouble (b - a)) (Fin 0)"
proof -
  obtain m n where "a = of_int m * 2 powi (- 1074)" "b = of_int n * 2 powi (- 1074)"
    using assms(1,2) by (metis js_double_multiple)
  then have d: "b - a = of_int (n - m) * 2 powi (- 1074)" by (simp add: algebra_simps)
  with \<open>a < b\<close> have "0 < (of_int (n - m) :: rat) * 2 powi (- 1074)" by simp
  then have "0 < n - m" by (simp add: zero_less_mult_iff)
  let ?x = "b - a"
  have pos: "0 < ?x" using \<open>a < b\<close> by simp
  have "(2::rat) powi (- 1074) * 1 \<le> 2 powi (- 1074) * of_int (n - m)"
    by (rule mult_left_mono) (use \<open>0 < n - m\<close> in auto)
  then have small: "2 powi (- 1074) \<le> ?x" using d by (simp add: mult.commute)
  have "2 powi ulpExponent ?x \<le> ?x"
  proof (cases "ilog2 ?x - 52 \<le> - 1074")
    case True
    then show ?thesis using small by (simp add: ulpExponent_def)
  next
    case False
    have "(2::rat) powi (ilog2 ?x - 52) \<le> 2 powi ilog2 ?x" by (simp add: powi_le_iff)
    also have "\<dots> \<le> ?x" using ilog2_bounds [OF pos] by simp
    finally show ?thesis using False by (simp add: ulpExponent_def)
  qed
  then have "of_int 1 \<le> ?x / 2 powi ulpExponent ?x" by simp
  then have "1 \<le> roundHalfEven (?x / 2 powi ulpExponent ?x)" by (rule roundHalfEven_ge)
  then have "0 < roundPositive ?x" by (simp add: roundPositive_def)
  with pos show ?thesis by (simp add: toDouble_def Let_def)
qed

end
