(* ===== verification/JsDate.thy ===== *)
theory JsDate
  imports JsText JsNumber
begin

section \<open>Dates: \<open>Date.parse\<close>, \<open>toISOString\<close> and the timestamp check\<close>

text \<open>
  The records keep ISO-8601 timestamps. This theory models the calendar arithmetic of the
  language's \<open>Date\<close> (the proleptic Gregorian calendar, days from 1970-01-01), the format the
  record decoder accepts (\<open>isIsoTimestamp\<close>), \<open>Date.parse\<close> on that format, and
  \<open>new Date(ms).toISOString()\<close>. \<open>Date.parse\<close> of text in another format is left to the engine by
  the language and is read as \<open>NaN\<close> here: the decoder refuses a record that holds one.
\<close>

subsection \<open>The calendar\<close>

definition dayFromYear :: "int \<Rightarrow> int" where
  "dayFromYear y =
     365 * (y - 1970) + (y - 1969) div 4 - (y - 1901) div 100 + (y - 1601) div 400"

definition isLeapYear :: "int \<Rightarrow> bool" where
  "isLeapYear y \<longleftrightarrow> y mod 4 = 0 \<and> (y mod 100 \<noteq> 0 \<or> y mod 400 = 0)"

definition daysInMonth :: "int \<Rightarrow> nat \<Rightarrow> int" where
  "daysInMonth y m =
     (if m = 2 then (if isLeapYear y then 29 else 28)
      else if m = 4 \<or> m = 6 \<or> m = 9 \<or> m = 11 then 30 else 31)"

text \<open>Days of the year before month \<open>m\<close> (counted from 1).\<close>

definition monthStart :: "int \<Rightarrow> nat \<Rightarrow> int" where
  "monthStart y m = sum_list (map (daysInMonth y) [1..<m])"

text \<open>\<open>MakeDay\<close>: a month outside 1 to 12 moves the year.\<close>

definition makeDay :: "int \<Rightarrow> int \<Rightarrow> int \<Rightarrow> int" where
  "makeDay y m d =
     (let y' = y + (m - 1) div 12; m' = nat ((m - 1) mod 12) + 1
      in dayFromYear y' + monthStart y' m' + d - 1)"

definition yearFromDay :: "int \<Rightarrow> int" where
  "yearFromDay n =
     (let y = 1970 + (400 * n) div 146097
      in if dayFromYear (y + 1) \<le> n then y + 1 else if dayFromYear y \<le> n then y else y - 1)"

function monthOfDay :: "int \<Rightarrow> nat \<Rightarrow> int \<Rightarrow> nat \<times> int" where
  "monthOfDay y m k =
     (if 12 \<le> m \<or> k < daysInMonth y m then (m, k + 1)
      else monthOfDay y (Suc m) (k - daysInMonth y m))"
  by pat_completeness auto
termination
  by (relation "measure (\<lambda>(y, m, k). 12 - m)") auto

declare monthOfDay.simps [simp del]

definition civilOfDay :: "int \<Rightarrow> int \<times> nat \<times> int" where
  "civilOfDay n = (let y = yearFromDay n in (y, monthOfDay y 1 (n - dayFromYear y)))"

lemma div_bounds: "0 < k \<Longrightarrow> k * (a div k) \<le> a \<and> a < k * (a div k) + k" for a k :: int
  using pos_mod_bound [of k a] pos_mod_sign [of k a] mult_div_mod_eq [of k a] by linarith

lemma dayFromYear_bounds:
  "146097 * (y - 1970) - 506 \<le> 400 * dayFromYear y
    \<and> 400 * dayFromYear y \<le> 146097 * (y - 1970) + 589"
  using div_bounds [of 4 "y - 1969"] div_bounds [of 100 "y - 1901"] div_bounds [of 400 "y - 1601"]
  by (simp add: dayFromYear_def)

lemma yearFromDay_bounds: "dayFromYear (yearFromDay n) \<le> n \<and> n < dayFromYear (yearFromDay n + 1)"
proof -
  define y where "y = 1970 + (400 * n) div 146097"
  have b: "146097 * (y - 1970) \<le> 400 * n" "400 * n < 146097 * (y - 1970) + 146097"
    using div_bounds [of 146097 "400 * n"] by (simp_all add: y_def)
  have "dayFromYear (y - 1) \<le> n"
    using dayFromYear_bounds [of "y - 1"] b by (simp add: algebra_simps)
  moreover have "n < dayFromYear (y + 2)"
    using dayFromYear_bounds [of "y + 2"] b by (simp add: algebra_simps)
  moreover have "y + 1 + 1 = 2 + y" "y - 1 + 1 = y" "y + 2 = 2 + y" by simp_all
  ultimately show ?thesis
    unfolding yearFromDay_def y_def [symmetric] Let_def by auto
qed

lemma div_step: "0 < k \<Longrightarrow> (a + 1) div k - a div k = (if (a + 1) mod k = 0 then 1 else 0)" for a k :: int
proof -
  assume k: "0 < k"
  have a: "a = k * (a div k) + a mod k" and r: "0 \<le> a mod k" "a mod k < k" using k by simp_all
  show ?thesis
  proof (cases "a mod k + 1 = k")
    case True
    have e: "a + 1 = k * (a div k + 1) + 0" using True a by (simp only: distrib_left mult_1_right add_0_right)
    show ?thesis using int_div_pos_eq [OF e] int_mod_pos_eq [OF e] k by simp
  next
    case False
    have e: "a + 1 = k * (a div k) + (a mod k + 1)" using a by linarith
    show ?thesis using int_div_pos_eq [OF e] int_mod_pos_eq [OF e] r False by simp
  qed
qed

lemma leap_cases:
  "(p \<Longrightarrow> q) \<Longrightarrow> (q \<Longrightarrow> r) \<Longrightarrow>
   365 + (if r then 1 else 0) - (if q then 1 else 0) + (if p then 1 else 0)
     = (if r \<and> (\<not> q \<or> p) then 366 else 365 :: int)"
  by (cases p; cases q; cases r) simp_all

lemma year_difference:
  "p' - p = a \<Longrightarrow> q' - q = b \<Longrightarrow> r' - r = c \<Longrightarrow>
   365 * (y + 1 - 1970) + p' - q' + r' - (365 * (y - 1970) + p - q + r) = 365 + a - b + (c :: int)"
  by simp

lemma daysInYear:
  "dayFromYear (y + 1) - dayFromYear y = (if isLeapYear y then 366 else 365)"
proof -
  define a b c where "a = (if y mod 4 = 0 then 1 else 0 :: int)"
    and "b = (if y mod 100 = 0 then 1 else 0 :: int)" and "c = (if y mod 400 = 0 then 1 else 0 :: int)"
  have e: "y - 1969 + 1 = y - 1968" "y - 1901 + 1 = y - 1900" "y - 1601 + 1 = y - 1600"
    by simp_all
  have e': "y + 1 - 1969 = y - 1968" "y + 1 - 1901 = y - 1900" "y + 1 - 1601 = y - 1600"
    by simp_all
  have "y - 1968 = y + 4 * - 492" "y - 1900 = y + 100 * - 19" "y - 1600 = y + 400 * - 4" by simp_all
  then have m: "(y - 1968) mod 4 = y mod 4" "(y - 1900) mod 100 = y mod 100"
    "(y - 1600) mod 400 = y mod 400"
    by (simp_all only: mod_mult_self2)
  have "(y - 1968) div 4 - (y - 1969) div 4 = a"
    by (rule div_step [of 4 "y - 1969", unfolded e m, folded a_def, OF zero_less_numeral])
  moreover have "(y - 1900) div 100 - (y - 1901) div 100 = b"
    by (rule div_step [of 100 "y - 1901", unfolded e m, folded b_def, OF zero_less_numeral])
  moreover have "(y - 1600) div 400 - (y - 1601) div 400 = c"
    by (rule div_step [of 400 "y - 1601", unfolded e m, folded c_def, OF zero_less_numeral])
  ultimately have "dayFromYear (y + 1) - dayFromYear y = 365 + a - b + c"
    unfolding dayFromYear_def e' by (rule year_difference)
  moreover have "y mod 400 mod 100 = y mod 100" "y mod 100 mod 4 = y mod 4"
    by (rule mod_mod_cancel; simp)+
  then have "y mod 400 = 0 \<Longrightarrow> y mod 100 = 0" "y mod 100 = 0 \<Longrightarrow> y mod 4 = 0" by simp_all
  then have "365 + a - b + c = (if isLeapYear y then 366 else 365)"
    unfolding a_def b_def c_def isLeapYear_def by (rule leap_cases)
  ultimately show ?thesis by simp
qed

lemma daysInMonth_pos: "0 < daysInMonth y m"
  by (simp add: daysInMonth_def)

lemma monthStart_Suc: "1 \<le> m \<Longrightarrow> monthStart y (Suc m) = monthStart y m + daysInMonth y m"
  by (simp add: monthStart_def)

lemma monthStart_1 [simp]: "monthStart y (Suc 0) = 0"
  by (simp add: monthStart_def)

lemma monthStart_total:
  "monthStart y 12 + daysInMonth y 12 = (if isLeapYear y then 366 else 365)"
  by (simp add: monthStart_def daysInMonth_def upt_rec)

lemma monthOfDay_props:
  assumes "1 \<le> m" "m \<le> 12" "0 \<le> k"
    and "monthStart y m + k < monthStart y 12 + daysInMonth y 12"
    and "monthOfDay y m k = (m', d)"
  shows "1 \<le> m' \<and> m' \<le> 12 \<and> 1 \<le> d \<and> d \<le> daysInMonth y m'
    \<and> monthStart y m' + d - 1 = monthStart y m + k"
  using assms
proof (induction y m k arbitrary: m' d rule: monthOfDay.induct)
  case (1 y m k)
  show ?case
  proof (cases "12 \<le> m \<or> k < daysInMonth y m")
    case True
    with 1(6) have "m' = m" "d = k + 1" by (simp_all add: monthOfDay.simps [of y m])
    moreover have "k < daysInMonth y m"
      using True 1(3,5) by (cases "12 \<le> m") (auto dest: le_antisym)
    ultimately show ?thesis using 1(2-4) by simp
  next
    case False
    with 1(6) have "monthOfDay y (Suc m) (k - daysInMonth y m) = (m', d)"
      by (simp add: monthOfDay.simps [of y m])
    with False 1(1) [OF False, of m' d] 1(2-5) show ?thesis
      by (simp add: monthStart_Suc)
  qed
qed

theorem civilOfDay_makeDay:
  assumes "civilOfDay n = (y, m, d)"
  shows "1 \<le> m \<and> m \<le> 12 \<and> 1 \<le> d \<and> d \<le> daysInMonth y m \<and> makeDay y (int m) d = n"
proof -
  have y: "y = yearFromDay n" and md: "monthOfDay y 1 (n - dayFromYear y) = (m, d)"
    using assms by (auto simp: civilOfDay_def Let_def)
  have "0 \<le> n - dayFromYear y" "n - dayFromYear y < (if isLeapYear y then 366 else 365)"
    using yearFromDay_bounds [of n] daysInYear [of y] unfolding y by linarith+
  then have "1 \<le> m \<and> m \<le> 12 \<and> 1 \<le> d \<and> d \<le> daysInMonth y m
      \<and> monthStart y m + d - 1 = monthStart y 1 + (n - dayFromYear y)"
    using md monthStart_total [of y] monthOfDay_props [of 1 "n - dayFromYear y" y m d] by simp
  moreover from this have "nat ((int m - 1) mod 12) + 1 = m" "(int m - 1) div 12 = 0"
    by auto
  ultimately show ?thesis
    by (simp add: makeDay_def Let_def)
qed

subsection \<open>ISO-8601 instants\<close>

text \<open>The fields the timestamp pattern captures, and the zone offset it allows.\<close>

record iso_fields =
  iso_year :: nat
  iso_month :: nat
  iso_day :: nat
  iso_hour :: nat
  iso_minute :: nat
  iso_second :: nat
  iso_fraction :: jstr
  iso_zone_negative :: bool
  iso_zone_hour :: nat
  iso_zone_minute :: nat

definition allDigits :: "jstr \<Rightarrow> bool" where
  "allDigits s \<longleftrightarrow> list_all isDigit s"

definition substr :: "nat \<Rightarrow> nat \<Rightarrow> jstr \<Rightarrow> jstr" where
  "substr i j s = take (j - i) (drop i s)"

text \<open>The optional fraction: at least one digit after a point.\<close>

definition splitFraction :: "jstr \<Rightarrow> (jstr \<times> jstr) option" where
  "splitFraction s =
     (case s of [] \<Rightarrow> Some ([], [])
      | c # cs \<Rightarrow>
          if c = ch (CHR ''.'')
          then (let ds = takeWhile isDigit cs in if ds = [] then None else Some (ds, drop (length ds) cs))
          else Some ([], s))"

text \<open>The zone: \<open>Z\<close>, or a signed \<open>hh:mm\<close>.\<close>

definition matchZone :: "jstr \<Rightarrow> (bool \<times> nat \<times> nat) option" where
  "matchZone s =
     (if s = lit ''Z'' then Some (False, 0, 0)
      else if length s = 6 \<and> (hd s = ch (CHR ''+'') \<or> hd s = ch (CHR ''-''))
        \<and> allDigits (substr 1 3 s) \<and> substr 3 4 s = lit '':'' \<and> allDigits (substr 4 6 s)
      then Some (hd s = ch (CHR ''-''), readDecimal (substr 1 3 s), readDecimal (substr 4 6 s))
      else None)"

definition matchIso :: "jstr \<Rightarrow> iso_fields option" where
  "matchIso s =
     (if 20 \<le> length s
        \<and> allDigits (substr 0 4 s) \<and> substr 4 5 s = lit ''-''
        \<and> allDigits (substr 5 7 s) \<and> substr 7 8 s = lit ''-''
        \<and> allDigits (substr 8 10 s) \<and> substr 10 11 s = lit ''T''
        \<and> allDigits (substr 11 13 s) \<and> substr 13 14 s = lit '':''
        \<and> allDigits (substr 14 16 s) \<and> substr 16 17 s = lit '':''
        \<and> allDigits (substr 17 19 s)
      then (case splitFraction (drop 19 s) of None \<Rightarrow> None
            | Some (fr, zone) \<Rightarrow>
                (case matchZone zone of None \<Rightarrow> None
                 | Some (neg, zh, zm) \<Rightarrow>
                     Some \<lparr>iso_year = readDecimal (substr 0 4 s), iso_month = readDecimal (substr 5 7 s),
                       iso_day = readDecimal (substr 8 10 s), iso_hour = readDecimal (substr 11 13 s),
                       iso_minute = readDecimal (substr 14 16 s),
                       iso_second = readDecimal (substr 17 19 s), iso_fraction = fr,
                       iso_zone_negative = neg, iso_zone_hour = zh, iso_zone_minute = zm\<rparr>))
      else None)"

text \<open>Milliseconds of a fraction: its first three digits.\<close>

definition fractionMs :: "jstr \<Rightarrow> nat" where
  "fractionMs f = readDecimal (take 3 (f @ replicate 3 (digitUnit 0)))"

definition isoMs :: "iso_fields \<Rightarrow> int" where
  "isoMs f =
     ((makeDay (int (iso_year f)) (int (iso_month f)) (int (iso_day f)) * 24
        + int (iso_hour f)) * 60 + int (iso_minute f)) * 60000
     + int (iso_second f) * 1000 + int (fractionMs (iso_fraction f))
     - (if iso_zone_negative f then - 1 else 1)
       * ((int (iso_zone_hour f) * 60 + int (iso_zone_minute f)) * 60000)"

definition isoClockValid :: "iso_fields \<Rightarrow> bool" where
  "isoClockValid f \<longleftrightarrow> iso_hour f \<le> 23 \<and> iso_minute f \<le> 59 \<and> iso_second f \<le> 59"

definition isoZoneValid :: "iso_fields \<Rightarrow> bool" where
  "isoZoneValid f \<longleftrightarrow> iso_zone_hour f \<le> 23 \<and> iso_zone_minute f \<le> 59"

text \<open>
  \<open>date.setUTCFullYear(year, month - 1, day)\<close> followed by the three getters: the day number
  rolls over, so the fields come back unchanged exactly for a date of the calendar.
\<close>

definition isoDateKept :: "iso_fields \<Rightarrow> bool" where
  "isoDateKept f \<longleftrightarrow>
     civilOfDay (makeDay (int (iso_year f)) (int (iso_month f)) (int (iso_day f)))
       = (int (iso_year f), iso_month f, int (iso_day f))"

definition dateParse :: "jstr \<Rightarrow> jnum" where
  "dateParse s =
     (case matchIso s of None \<Rightarrow> NaN
      | Some f \<Rightarrow>
          if isoDateKept f \<and> isoClockValid f \<and> isoZoneValid f then Fin (of_int (isoMs f)) else NaN)"

definition isIsoTimestamp :: "jstr \<Rightarrow> bool" where
  "isIsoTimestamp s =
     (case matchIso s of None \<Rightarrow> False
      | Some f \<Rightarrow> isoDateKept f \<and> isoClockValid f \<and> jisFinite (dateParse s))"

text \<open>\<open>new Date(ms)\<close> clips to the date range; outside it \<open>toISOString\<close> throws.\<close>

definition timeClip :: "jnum \<Rightarrow> int option" where
  "timeClip n =
     (case n of Fin r \<Rightarrow>
        (let t = (if 0 \<le> r then \<lfloor>r\<rfloor> else \<lceil>r\<rceil>)
         in if \<bar>r\<bar> \<le> 8640000000000000 then Some t else None)
      | _ \<Rightarrow> None)"

definition isoYearText :: "int \<Rightarrow> jstr" where
  "isoYearText y =
     (if 0 \<le> y \<and> y \<le> 9999 then padded 4 (nat y)
      else (if y < 0 then lit ''-'' else lit ''+'') @ padded 6 (nat \<bar>y\<bar>))"

definition isoText :: "int \<Rightarrow> jstr" where
  "isoText t =
     (case civilOfDay (t div 86400000) of (y, m, d) \<Rightarrow>
        (let ms = nat (t mod 86400000)
         in isoYearText y @ lit ''-'' @ padded 2 m @ lit ''-'' @ padded 2 (nat d) @ lit ''T''
            @ padded 2 (ms div 3600000) @ lit '':'' @ padded 2 (ms div 60000 mod 60) @ lit '':''
            @ padded 2 (ms div 1000 mod 60) @ lit ''.'' @ padded 3 (ms mod 1000) @ lit ''Z''))"

definition toIso :: "jnum \<Rightarrow> jstr option" where
  "toIso n = map_option isoText (timeClip n)"

subsection \<open>The round trip\<close>

lemma length_decimal: "n < 10 ^ w \<Longrightarrow> 0 < w \<Longrightarrow> length (decimal n) \<le> w"
proof (induction w arbitrary: n)
  case (Suc w)
  show ?case
  proof (cases "n < 10")
    case True
    then show ?thesis by (simp add: decimal_small)
  next
    case False
    then have "0 < w" using Suc.prems by (cases w) auto
    moreover have "n div 10 < 10 ^ w" using Suc.prems by (simp add: less_mult_imp_div_less)
    ultimately have "length (decimal (n div 10)) \<le> w" by (simp add: Suc.IH)
    with False show ?thesis by (simp add: decimal_step)
  qed
qed simp

lemma length_padded: "n < 10 ^ w \<Longrightarrow> 0 < w \<Longrightarrow> length (padded w n) = w"
  using length_decimal [of n w] by (simp add: padded_def)

lemma readDecimal_zeros: "readDecimal (replicate k (digitUnit 0) @ s) = readDecimal s"
proof -
  have "foldl (\<lambda>n c. 10 * n + digitValue c) 0 (replicate k (digitUnit 0)) = (0::nat)"
    by (induction k) simp_all
  then show ?thesis by (simp add: readDecimal_def)
qed

lemma readDecimal_padded [simp]: "readDecimal (padded w n) = n"
  by (simp add: padded_def readDecimal_zeros)

lemma padded_digit: "c \<in> set (padded w n) \<Longrightarrow> isDigit c"
  using decimal_digits [of n] by (auto simp: padded_def)

lemma allDigits_padded [simp]: "allDigits (padded w n)"
  by (auto simp: allDigits_def list_all_iff padded_digit)

lemma substr_append:
  "length xs \<le> i \<Longrightarrow> substr i j (xs @ ys) = substr (i - length xs) (j - length xs) ys"
  "j \<le> length xs \<Longrightarrow> substr i j (xs @ ys) = substr i j xs"
  by (simp_all add: substr_def)

lemma substr_all: "j = length xs \<Longrightarrow> substr 0 j xs = xs"
  by (simp add: substr_def)

lemma splitFraction_padded:
  "splitFraction (lit ''.'' @ padded 3 n @ lit ''Z'') = Some (padded 3 n, lit ''Z'')"
proof -
  have "takeWhile isDigit (padded 3 n @ lit ''Z'') = padded 3 n"
  proof -
    have "\<not> isDigit (ch (CHR ''Z''))" by (simp add: isDigit_def word_le_nat_alt unat_ch)
    then show ?thesis by (simp add: lit_simps takeWhile_append padded_digit)
  qed
  moreover have "padded 3 n \<noteq> []" by (simp add: padded_def)
  ultimately show ?thesis by (simp add: splitFraction_def lit_simps Let_def)
qed

lemma matchIso_text:
  assumes "y < 10000" "m < 100" "d < 100" "h < 100" "mi < 100" "se < 100" "f < 1000"
  shows "matchIso (padded 4 y @ lit ''-'' @ padded 2 m @ lit ''-'' @ padded 2 d @ lit ''T''
      @ padded 2 h @ lit '':'' @ padded 2 mi @ lit '':'' @ padded 2 se @ lit ''.''
      @ padded 3 f @ lit ''Z'')
    = Some \<lparr>iso_year = y, iso_month = m, iso_day = d, iso_hour = h, iso_minute = mi,
        iso_second = se, iso_fraction = padded 3 f, iso_zone_negative = False,
        iso_zone_hour = 0, iso_zone_minute = 0\<rparr>"
proof -
  have l: "length (padded 4 y) = 4" "length (padded 2 m) = 2" "length (padded 2 d) = 2"
    "length (padded 2 h) = 2" "length (padded 2 mi) = 2" "length (padded 2 se) = 2"
    "length (padded 3 f) = 3"
    using assms by (simp_all add: length_padded)
  have d: "drop 19 (padded 4 y @ lit ''-'' @ padded 2 m @ lit ''-'' @ padded 2 d @ lit ''T''
      @ padded 2 h @ lit '':'' @ padded 2 mi @ lit '':'' @ padded 2 se @ lit ''.''
      @ padded 3 f @ lit ''Z'') = lit ''.'' @ padded 3 f @ lit ''Z''"
    by (simp add: l)
  show ?thesis
    unfolding matchIso_def d splitFraction_padded
    by (simp add: l substr_append substr_all matchZone_def)
qed

lemma fractionMs_padded: "f < 1000 \<Longrightarrow> fractionMs (padded 3 f) = f"
  by (simp add: fractionMs_def length_padded)

text \<open>
  For every instant of the years 0 to 9999, the text \<open>toISOString\<close> writes is accepted by the
  decoder's timestamp check and read back by \<open>Date.parse\<close> as the same millisecond.
\<close>

definition inIsoYears :: "int \<Rightarrow> bool" where
  "inIsoYears t \<longleftrightarrow> 0 \<le> yearFromDay (t div 86400000) \<and> yearFromDay (t div 86400000) \<le> 9999"

lemma timestamp_of_match:
  assumes "matchIso s = Some f" "isoDateKept f" "isoClockValid f" "isoZoneValid f"
  shows "isIsoTimestamp s \<and> dateParse s = Fin (of_int (isoMs f))"
  using assms by (simp add: isIsoTimestamp_def dateParse_def)

lemma clock_sum:
  "(h * 60 + mi) * 60000 + se * 1000 + f = r \<Longrightarrow> dy * 86400000 + r = t \<Longrightarrow>
   ((dy * 24 + h) * 60 + mi) * 60000 + se * 1000 + f = (t :: int)"
  by (simp add: algebra_simps)

theorem isoText_roundtrip:
  assumes "inIsoYears t"
  shows "isIsoTimestamp (isoText t) \<and> dateParse (isoText t) = Fin (of_int t)"
proof -
  obtain y m d where c: "civilOfDay (t div 86400000) = (y, m, d)" by (metis prod_cases3)
  have y: "0 \<le> y" "y \<le> 9999" using assms c by (auto simp: inIsoYears_def civilOfDay_def Let_def)
  from civilOfDay_makeDay [OF c]
  have md: "1 \<le> m" "m \<le> 12" "1 \<le> d" "d \<le> daysInMonth y m"
    and mk: "makeDay y (int m) d = t div 86400000" by auto
  have d31: "d \<le> 31" using md(4) by (auto simp: daysInMonth_def split: if_splits)
  define ms where "ms = nat (t mod 86400000)"
  have ms: "int ms = t mod 86400000" "ms < 86400000" by (simp_all add: ms_def nat_less_iff)
  let ?f = "\<lparr>iso_year = nat y, iso_month = m, iso_day = nat d, iso_hour = ms div 3600000,
    iso_minute = ms div 60000 mod 60, iso_second = ms div 1000 mod 60,
    iso_fraction = padded 3 (ms mod 1000), iso_zone_negative = False, iso_zone_hour = 0,
    iso_zone_minute = 0\<rparr>"
  have "ms div 3600000 \<le> 23" using ms(2) by simp
  have "matchIso (isoText t) = Some ?f"
    unfolding isoText_def c prod.case ms_def [symmetric] Let_def
    using y md d31 \<open>ms div 3600000 \<le> 23\<close>
    by (simp add: isoYearText_def matchIso_text)
  moreover have "isoDateKept ?f" using y md(3) c mk by (simp add: isoDateKept_def)
  moreover have "a mod 60 \<le> 59" for a :: nat by simp
  then have "isoClockValid ?f" using \<open>ms div 3600000 \<le> 23\<close> by (simp add: isoClockValid_def)
  moreover have "isoMs ?f = t"
  proof -
    have q: "ms div 60000 = ms div 1000 div 60" "ms div 3600000 = ms div 1000 div 60 div 60"
      by (simp_all add: div_mult2_eq [symmetric])
    define h mi se f where "h = ms div 3600000" and "mi = ms div 60000 mod 60"
      and "se = ms div 1000 mod 60" and "f = ms mod 1000"
    define a b where "a = ms div 1000" and "b = a div 60"
    have "h * 60 + mi = b" "b * 60 + se = a" "a * 1000 + f = ms"
      unfolding h_def mi_def se_def f_def q a_def b_def by (rule div_mult_mod_eq)+
    moreover have "(h * 60 + mi) * 60000 + se * 1000 + f = ((h * 60 + mi) * 60 + se) * 1000 + f"
      by (simp only: distrib_right mult.assoc)
    ultimately have "(h * 60 + mi) * 60000 + se * 1000 + f = ms" by (simp only:)
    then have "int ((h * 60 + mi) * 60000 + se * 1000 + f) = t mod 86400000"
      by (simp only: ms(1))
    then have "(int h * 60 + int mi) * 60000 + int se * 1000 + int f = t mod 86400000"
      by (simp only: of_nat_add of_nat_mult of_nat_numeral)
    moreover define dy where "dy = t div 86400000"
    have "dy * 86400000 + t mod 86400000 = t" unfolding dy_def by (rule div_mult_mod_eq)
    ultimately have sum: "((dy * 24 + int h) * 60 + int mi) * 60000 + int se * 1000 + int f = t"
      by (rule clock_sum)
    have "isoMs \<lparr>iso_year = nat y, iso_month = m, iso_day = nat d, iso_hour = h,
        iso_minute = mi, iso_second = se, iso_fraction = padded 3 f, iso_zone_negative = False,
        iso_zone_hour = 0, iso_zone_minute = 0\<rparr>
      = t"
    proof -
      have "fractionMs (padded 3 f) = f" by (rule fractionMs_padded) (simp add: f_def)
      moreover have "makeDay (int (nat y)) (int m) (int (nat d)) = dy"
        using y md(3) mk by (simp add: dy_def)
      ultimately show ?thesis using sum by (simp add: isoMs_def)
    qed
    then show ?thesis by (simp only: h_def mi_def se_def f_def)
  qed
  moreover have "isoZoneValid ?f" by (simp add: isoZoneValid_def)
  ultimately show ?thesis using timestamp_of_match [of "isoText t" ?f] by (simp only: simp_thms)
qed

end
