(* ===== verification/JsValue.thy ===== *)
theory JsValue
  imports JsDate
begin

section \<open>Untyped JavaScript values\<close>

text \<open>
  Validators and decoders of the program take values the type system does not vouch for
  (\<open>unknown\<close>: a parsed JSON text, an option object of an untyped caller). \<open>jsval\<close> is such a
  value: the primitives, arrays, plain objects (own properties in insertion order) and
  functions. Reading a property that is not there, or from a value that has none, is
  \<open>undefined\<close>.
\<close>

datatype jsval =
    JUndef
  | JNull
  | JBool bool
  | JNum jnum
  | JStr jstr
  | JArr "jsval list"
  | JObj "(jstr \<times> jsval) list"
  | JFun nat

definition jget :: "jsval \<Rightarrow> string \<Rightarrow> jsval" where
  "jget v k =
     (case v of JObj fs \<Rightarrow> (case map_of fs (lit k) of None \<Rightarrow> JUndef | Some x \<Rightarrow> x)
      | _ \<Rightarrow> JUndef)"

text \<open>\<open>Object.keys\<close> and \<open>Object.hasOwn\<close>.\<close>

fun ownKeys :: "jsval \<Rightarrow> jstr list" where
  "ownKeys (JObj fs) = map fst fs"
| "ownKeys _ = []"

definition hasOwn :: "jsval \<Rightarrow> string \<Rightarrow> bool" where
  "hasOwn v k \<longleftrightarrow> lit k \<in> set (ownKeys v)"

fun isString :: "jsval \<Rightarrow> bool" where
  "isString (JStr _) = True"
| "isString _ = False"

fun isBoolean :: "jsval \<Rightarrow> bool" where
  "isBoolean (JBool _) = True"
| "isBoolean _ = False"

fun isFunction :: "jsval \<Rightarrow> bool" where
  "isFunction (JFun _) = True"
| "isFunction _ = False"

fun isArray :: "jsval \<Rightarrow> bool" where
  "isArray (JArr _) = True"
| "isArray _ = False"

text \<open>\<open>typeof value === 'object' && value !== null\<close>: an array counts.\<close>

fun isRecord :: "jsval \<Rightarrow> bool" where
  "isRecord (JObj _) = True"
| "isRecord (JArr _) = True"
| "isRecord _ = False"

text \<open>Reading a value at the type a check has established.\<close>

fun asString :: "jsval \<Rightarrow> jstr" where
  "asString (JStr s) = s"
| "asString _ = []"

fun asNumber :: "jsval \<Rightarrow> jnum" where
  "asNumber (JNum n) = n"
| "asNumber _ = NaN"

fun asBoolean :: "jsval \<Rightarrow> bool" where
  "asBoolean (JBool b) = b"
| "asBoolean _ = False"

fun asArray :: "jsval \<Rightarrow> jsval list" where
  "asArray (JArr vs) = vs"
| "asArray _ = []"

fun asNat :: "jsval \<Rightarrow> nat" where
  "asNat (JNum (Fin r)) = nat \<lfloor>r\<rfloor>"
| "asNat _ = 0"

definition asOption :: "(jsval \<Rightarrow> 'a) \<Rightarrow> jsval \<Rightarrow> 'a option" where
  "asOption f v = (if v = JUndef then None else Some (f v))"

subsection \<open>Objects the program builds\<close>

text \<open>
  An object literal with optional members, as \<open>{ a, ...(b === undefined ? {} : { b }) }\<close> builds
  it and as \<open>JSON.stringify\<close> keeps it: an absent member is no own property.
\<close>

definition obj :: "(string \<times> jsval option) list \<Rightarrow> jsval" where
  "obj fs = JObj (List.map_filter (\<lambda>(k, v). map_option (Pair (lit k)) v) fs)"

lemma obj_fields:
  "List.map_filter (\<lambda>(k, v). map_option (Pair (lit k)) v) ((k, v) # fs) =
     (case v of None \<Rightarrow> [] | Some x \<Rightarrow> [(lit k, x)])
       @ List.map_filter (\<lambda>(k, v). map_option (Pair (lit k)) v) fs"
  by (simp add: List.map_filter_def split: option.splits)

fun field :: "(string \<times> jsval option) list \<Rightarrow> string \<Rightarrow> jsval option" where
  "field [] k = None"
| "field ((k', v) # fs) k = (if k' = k then orElse v (field fs k) else field fs k)"

lemma jget_obj [json_simps]: "jget (obj fs) k = withDefault JUndef (field fs k)"
proof -
  have "map_of (List.map_filter (\<lambda>(k, v). map_option (Pair (lit k)) v) fs) (lit k) = field fs k"
  proof (induction fs)
    case Nil
    then show ?case by (simp add: List.map_filter_def)
  next
    case (Cons f fs)
    then show ?case by (cases f) (simp add: obj_fields split: option.splits)
  qed
  then show ?thesis by (simp add: jget_def obj_def withDefault_def)
qed

lemma ownKeys_obj:
  "set (ownKeys (obj fs)) = {lit k |k. \<exists>v. (k, Some v) \<in> set fs}"
proof (induction fs)
  case Nil
  then show ?case by (simp add: obj_def List.map_filter_def)
next
  case (Cons f fs)
  then show ?case
    by (cases f) (auto simp: obj_def obj_fields split: option.splits)
qed

lemma hasOwn_obj [json_simps]: "hasOwn (obj fs) k \<longleftrightarrow> field fs k \<noteq> None"
proof -
  have "(\<exists>v. (k, Some v) \<in> set fs) \<longleftrightarrow> field fs k \<noteq> None"
  proof (induction fs)
    case (Cons f fs)
    then show ?case by (cases f; cases "snd f") auto
  qed simp
  then show ?thesis by (auto simp: hasOwn_def ownKeys_obj)
qed

text \<open>\<open>Object.keys(value).every((key) => allowed.includes(key))\<close>.\<close>

definition hasExactKeys :: "jsval \<Rightarrow> string list \<Rightarrow> bool" where
  "hasExactKeys v allowed \<longleftrightarrow> list_all (\<lambda>k. k \<in> set (map lit allowed)) (ownKeys v)"

definition hasAllKeys :: "jsval \<Rightarrow> string list \<Rightarrow> bool" where
  "hasAllKeys v required \<longleftrightarrow> list_all (hasOwn v) required"

lemma hasExactKeys_obj [json_simps]:
  "hasExactKeys (obj fs) allowed \<longleftrightarrow>
     list_all (\<lambda>(k, v). v \<noteq> None \<longrightarrow> k \<in> set allowed) fs"
proof -
  have "inj lit" by (rule injI) simp
  then have "lit k \<in> lit ` A \<longleftrightarrow> k \<in> A" for k A by (simp add: inj_image_mem_iff)
  then show ?thesis
    by (fastforce simp: hasExactKeys_def list_all_iff ownKeys_obj)
qed

lemma isRecord_obj [simp, json_simps]: "isRecord (obj fs)"
  by (simp add: obj_def)

lemma obj_neq [simp, json_simps]:
  "obj fs \<noteq> JUndef" "obj fs \<noteq> JNull" "JUndef \<noteq> obj fs" "JNull \<noteq> obj fs"
  "obj fs \<noteq> JArr vs" "obj fs \<noteq> JStr s" "obj fs \<noteq> JNum n" "obj fs \<noteq> JBool b"
  by (simp_all add: obj_def)

subsection \<open>Optional members\<close>

lemma asOption_simps [simp]:
  "asOption f JUndef = None"
  "v \<noteq> JUndef \<Longrightarrow> asOption f v = Some (f v)"
  by (simp_all add: asOption_def)

definition optional :: "('a \<Rightarrow> jsval) \<Rightarrow> 'a option \<Rightarrow> jsval" where
  "optional enc x = (case x of None \<Rightarrow> JUndef | Some y \<Rightarrow> enc y)"

lemma optional_simps [simp]: "optional enc None = JUndef" "optional enc (Some y) = enc y"
  by (simp_all add: optional_def)

lemma optional_member [json_simps]: "withDefault JUndef (map_option enc x) = optional enc x"
  by (cases x) simp_all

subsection \<open>JSON values\<close>

text \<open>
  \<open>JSONValue\<close>: what a stored record may hold untyped. It has no \<open>undefined\<close> and no function,
  so reading it back as an untyped value loses nothing.
\<close>

datatype json =
    JsonNull
  | JsonBool bool
  | JsonNum jnum
  | JsonStr jstr
  | JsonArr "json list"
  | JsonObj "(jstr \<times> json) list"

primrec ofJson :: "json \<Rightarrow> jsval" where
  "ofJson JsonNull = JNull"
| "ofJson (JsonBool b) = JBool b"
| "ofJson (JsonNum n) = JNum n"
| "ofJson (JsonStr s) = JStr s"
| "ofJson (JsonArr js) = JArr (map ofJson js)"
| "ofJson (JsonObj fs) = JObj (map (map_prod id ofJson) fs)"

primrec asJson :: "jsval \<Rightarrow> json" where
  "asJson JUndef = JsonNull"
| "asJson JNull = JsonNull"
| "asJson (JBool b) = JsonBool b"
| "asJson (JNum n) = JsonNum n"
| "asJson (JStr s) = JsonStr s"
| "asJson (JArr vs) = JsonArr (map asJson vs)"
| "asJson (JObj fs) = JsonObj (map (map_prod id asJson) fs)"
| "asJson (JFun _) = JsonNull"

lemma asJson_ofJson [simp]: "asJson (ofJson j) = j"
proof (induction j)
  case (JsonArr js)
  then show ?case by (simp add: map_idI)
next
  case (JsonObj fs)
  then have "map_prod id asJson (map_prod id ofJson f) = f" if "f \<in> set fs" for f
    using that by (cases f) force
  then show ?case by (simp add: map_idI)
qed simp_all

lemma ofJson_inject [simp]: "ofJson i = ofJson j \<longleftrightarrow> i = j"
  by (metis asJson_ofJson)

lemma ofJson_defined [simp]: "ofJson j \<noteq> JUndef" "JUndef \<noteq> ofJson j"
  by (cases j; simp)+

text \<open>An object of JSON members, and reading one.\<close>

definition jsonObj :: "(string \<times> json option) list \<Rightarrow> json" where
  "jsonObj fs = JsonObj (List.map_filter (\<lambda>(k, v). map_option (Pair (lit k)) v) fs)"

lemma ofJson_jsonObj [json_simps]:
  "ofJson (jsonObj fs) = obj (map (\<lambda>(k, v). (k, map_option ofJson v)) fs)"
proof -
  have "map (map_prod id ofJson) (List.map_filter (\<lambda>(k, v). map_option (Pair (lit k)) v) fs)
      = List.map_filter (\<lambda>(k, v). map_option (Pair (lit k)) v)
          (map (\<lambda>(k, v). (k, map_option ofJson v)) fs)"
  proof (induction fs)
    case Nil
    then show ?case by (simp add: List.map_filter_def)
  next
    case (Cons f fs)
    then show ?case by (cases f; cases "snd f") (simp_all add: obj_fields)
  qed
  then show ?thesis by (simp add: jsonObj_def obj_def)
qed

end
