(* ===== verification/GoalDecision.thy ===== *)
theory GoalDecision
  imports JsValue
begin

section \<open>The decision core of a goal run\<close>

text \<open>
  \<open>packages/operative/src/goal-decision.ts\<close>: the status machine, the terminal reasons, the
  configuration checks and the retry / exhaust / fail decision for one attempt, as pure
  functions. The durable controller (theory \<open>GoalController\<close>) takes every decision here.
  A validator outcome is polymorphic in what it carries as evidence detail and error cause:
  untyped in memory, projected JSON in a durable record.
\<close>

subsection \<open>Statuses, reasons and the transition table\<close>

datatype goal_run_status =
  Pending | Running | Evaluating | Retrying | Succeeded | Exhausted | Failed | Canceled

datatype terminal_reason =
    ValidatorPassed
  | AttemptLimitReached
  | AggregateBudgetExceeded
  | ValidatorFailNonRetryable
  | ValidatorInfrastructureError
  | UnsupportedValidation
  | AttemptRunFailed
  | GoalCanceled

datatype finish_reason =
  StopCondition | MaximumSteps | Aborted | RunError | ElicitationDenied | BudgetExceeded | Tripwire

datatype retryable_reason = RetryFail | RetryUnavailable | RetryCanceled

fun statusText :: "goal_run_status \<Rightarrow> string" where
  "statusText Pending = ''pending''"
| "statusText Running = ''running''"
| "statusText Evaluating = ''evaluating''"
| "statusText Retrying = ''retrying''"
| "statusText Succeeded = ''succeeded''"
| "statusText Exhausted = ''exhausted''"
| "statusText Failed = ''failed''"
| "statusText Canceled = ''canceled''"

fun reasonText :: "terminal_reason \<Rightarrow> string" where
  "reasonText ValidatorPassed = ''validator-passed''"
| "reasonText AttemptLimitReached = ''attempt-limit-reached''"
| "reasonText AggregateBudgetExceeded = ''aggregate-budget-exceeded''"
| "reasonText ValidatorFailNonRetryable = ''validator-fail-non-retryable''"
| "reasonText ValidatorInfrastructureError = ''validator-infrastructure-error''"
| "reasonText UnsupportedValidation = ''unsupported-validation''"
| "reasonText AttemptRunFailed = ''attempt-run-failed''"
| "reasonText GoalCanceled = ''goal-canceled''"

fun finishReasonText :: "finish_reason \<Rightarrow> string" where
  "finishReasonText StopCondition = ''stop-condition''"
| "finishReasonText MaximumSteps = ''maximum-steps''"
| "finishReasonText Aborted = ''aborted''"
| "finishReasonText RunError = ''error''"
| "finishReasonText ElicitationDenied = ''elicitation-denied''"
| "finishReasonText BudgetExceeded = ''budget-exceeded''"
| "finishReasonText Tripwire = ''tripwire''"

fun retryableText :: "retryable_reason \<Rightarrow> string" where
  "retryableText RetryFail = ''validator-fail-retryable''"
| "retryableText RetryUnavailable = ''validator-unavailable''"
| "retryableText RetryCanceled = ''validator-canceled''"

definition GOAL_RETRYABLE_REASONS :: "retryable_reason list" where
  "GOAL_RETRYABLE_REASONS = [RetryFail, RetryUnavailable, RetryCanceled]"

definition TERMINAL_STATUSES :: "goal_run_status list" where
  "TERMINAL_STATUSES = [Succeeded, Exhausted, Failed, Canceled]"

fun GOAL_RUN_TRANSITIONS :: "goal_run_status \<Rightarrow> goal_run_status list" where
  "GOAL_RUN_TRANSITIONS Pending = [Running, Exhausted, Failed, Canceled]"
| "GOAL_RUN_TRANSITIONS Running = [Evaluating, Retrying, Exhausted, Failed, Canceled]"
| "GOAL_RUN_TRANSITIONS Evaluating = [Succeeded, Retrying, Exhausted, Failed, Canceled]"
| "GOAL_RUN_TRANSITIONS Retrying = [Running, Exhausted, Failed, Canceled]"
| "GOAL_RUN_TRANSITIONS Succeeded = []"
| "GOAL_RUN_TRANSITIONS Exhausted = []"
| "GOAL_RUN_TRANSITIONS Failed = []"
| "GOAL_RUN_TRANSITIONS Canceled = []"

definition canTransitionGoalRun :: "goal_run_status \<Rightarrow> goal_run_status \<Rightarrow> bool" where
  "canTransitionGoalRun s t \<longleftrightarrow> t \<in> set (GOAL_RUN_TRANSITIONS s)"

fun TERMINAL_STATUS_BY_REASON :: "terminal_reason \<Rightarrow> goal_run_status" where
  "TERMINAL_STATUS_BY_REASON ValidatorPassed = Succeeded"
| "TERMINAL_STATUS_BY_REASON AttemptLimitReached = Exhausted"
| "TERMINAL_STATUS_BY_REASON AggregateBudgetExceeded = Exhausted"
| "TERMINAL_STATUS_BY_REASON ValidatorFailNonRetryable = Failed"
| "TERMINAL_STATUS_BY_REASON ValidatorInfrastructureError = Failed"
| "TERMINAL_STATUS_BY_REASON UnsupportedValidation = Failed"
| "TERMINAL_STATUS_BY_REASON AttemptRunFailed = Failed"
| "TERMINAL_STATUS_BY_REASON GoalCanceled = Canceled"

definition isFailedReason :: "terminal_reason \<Rightarrow> bool" where
  "isFailedReason r \<longleftrightarrow> TERMINAL_STATUS_BY_REASON r = Failed"

definition isTerminalStatus :: "goal_run_status \<Rightarrow> bool" where
  "isTerminalStatus s \<longleftrightarrow> s \<in> set TERMINAL_STATUSES"

lemma isTerminalStatus_simps [simp, goal_edges]:
  "isTerminalStatus Pending = False" "isTerminalStatus Running = False"
  "isTerminalStatus Evaluating = False" "isTerminalStatus Retrying = False"
  "isTerminalStatus Succeeded" "isTerminalStatus Exhausted"
  "isTerminalStatus Failed" "isTerminalStatus Canceled"
  by (simp_all add: isTerminalStatus_def TERMINAL_STATUSES_def)

lemma isTerminalStatus_iff: "isTerminalStatus s \<longleftrightarrow> GOAL_RUN_TRANSITIONS s = []"
  by (cases s) simp_all

lemma TERMINAL_STATUS_BY_REASON_terminal [simp]: "isTerminalStatus (TERMINAL_STATUS_BY_REASON r)"
  by (cases r) simp_all

subsection \<open>The budget, the retry policy and the conversation policy\<close>

record goal_budget =
  b_maximumAttempts :: jnum
  b_maximumTotalDurationMs :: "jnum option"
  b_maximumTotalSteps :: "jnum option"
  b_maximumTotalTokens :: "jnum option"
  b_maximumTotalCostUsd :: "jnum option"

record goal_usage =
  u_attempts :: nat
  u_steps :: jnum
  u_tokens :: jnum
  u_costUsd :: "jnum option"
  u_durationMs :: jnum

record goal_identity =
  id_name :: jstr
  id_version :: jstr

datatype goal_conversation_policy =
    Continue
  | ForkFromBaseline jnum
  | FreshFromArtifact json

datatype configuration_code =
    InvalidMaximumAttempts
  | InvalidAggregateBound string
  | MissingAggregateBound
  | InvalidRetryPolicy
  | InvalidBaseline
  | MissingInstructions
  | InvalidConversationPolicy
  | MissingValidator

text \<open>\<open>undefined?.key\<close> and \<open>null?.key\<close> are \<open>undefined\<close>, which is what \<open>jget\<close> answers.\<close>

definition AGGREGATE_BOUND_KEYS :: "string list" where
  "AGGREGATE_BOUND_KEYS =
     [''maximumTotalDurationMs'', ''maximumTotalSteps'', ''maximumTotalTokens'',
      ''maximumTotalCostUsd'']"

definition isPositiveInteger :: "jsval \<Rightarrow> bool" where
  "isPositiveInteger v = (case v of JNum n \<Rightarrow> jisInteger n \<and> \<not> jle n (Fin 0) | _ \<Rightarrow> False)"

definition isPositiveFinite :: "jsval \<Rightarrow> bool" where
  "isPositiveFinite v = (case v of JNum n \<Rightarrow> jisFinite n \<and> \<not> jle n (Fin 0) | _ \<Rightarrow> False)"

text \<open>The loop over the aggregate keys, counting the configured ones.\<close>

fun checkBounds :: "jsval \<Rightarrow> string list \<Rightarrow> nat \<Rightarrow> configuration_code + nat" where
  "checkBounds budget [] configured = Inr configured"
| "checkBounds budget (key # keys) configured =
     (let value = jget budget key
      in if value = JUndef then checkBounds budget keys configured
         else if \<not> isPositiveFinite value then Inl (InvalidAggregateBound key)
         else checkBounds budget keys (configured + 1))"

definition validateBudget :: "jsval \<Rightarrow> configuration_code + unit" where
  "validateBudget budget =
     (if \<not> isPositiveInteger (jget budget ''maximumAttempts'') then Inl InvalidMaximumAttempts
      else (case checkBounds budget AGGREGATE_BOUND_KEYS 0 of
          Inl e \<Rightarrow> Inl e
        | Inr configured \<Rightarrow> if configured = 0 then Inl MissingAggregateBound else Inr ()))"

definition isRetryableReason :: "jsval \<Rightarrow> bool" where
  "isRetryableReason v \<longleftrightarrow>
     v \<in> set (map (\<lambda>r. JStr (lit (retryableText r))) GOAL_RETRYABLE_REASONS)"

definition validateRetryPolicy :: "jsval \<Rightarrow> configuration_code + unit" where
  "validateRetryPolicy policy =
     (if policy = JUndef then Inr ()
      else (case jget policy ''retryOn'' of
          JArr retryOn \<Rightarrow>
            if retryOn = [] \<or> \<not> list_all isRetryableReason retryOn then Inl InvalidRetryPolicy
            else Inr ()
        | _ \<Rightarrow> Inl InvalidRetryPolicy))"

definition isNonNegativeIntegerValue :: "jsval \<Rightarrow> bool" where
  "isNonNegativeIntegerValue v =
     (case v of JNum n \<Rightarrow> jisInteger n \<and> jle (Fin 0) n | _ \<Rightarrow> False)"

definition validateConversationPolicy :: "jsval \<Rightarrow> jsval \<Rightarrow> configuration_code + unit" where
  "validateConversationPolicy policy instructions =
     (let kind = jget policy ''kind''
      in if kind = JStr (lit ''continue'') then Inr ()
         else if kind = JStr (lit ''fork-from-baseline'') then
           (if \<not> isNonNegativeIntegerValue (jget policy ''throughRun'') then Inl InvalidBaseline
            else Inr ())
         else if kind = JStr (lit ''fresh-from-artifact'') then
           (if \<not> isString instructions \<or> asString instructions = [] then Inl MissingInstructions
            else Inr ())
         else Inl InvalidConversationPolicy)"

fun policyKind :: "goal_conversation_policy \<Rightarrow> string" where
  "policyKind Continue = ''continue''"
| "policyKind (ForkFromBaseline _) = ''fork-from-baseline''"
| "policyKind (FreshFromArtifact _) = ''fresh-from-artifact''"

definition goalAttemptInput :: "string \<Rightarrow> jstr \<Rightarrow> nat \<Rightarrow> jstr option \<Rightarrow> jstr" where
  "goalAttemptInput kind prompt attemptIndex feedback =
     (if attemptIndex = 0 then prompt
      else if kind = ''continue'' then withDefault prompt feedback
      else if kind = ''fork-from-baseline'' \<and> feedback \<noteq> None
        then prompt @ replicate 2 (ch (char_of (10 :: nat))) @ the feedback
      else prompt)"

text \<open>The option object of \<open>startGoal\<close>; its validator's members are untyped.\<close>

record goal_configuration =
  gc_validator :: jsval
  gc_budget :: jsval
  gc_retryPolicy :: jsval
  gc_conversationPolicy :: jsval
  gc_instructions :: jsval

definition validateGoalConfiguration :: "goal_configuration \<Rightarrow> configuration_code + unit" where
  "validateGoalConfiguration input =
     (let validator = gc_validator input; identity = jget validator ''identity''
      in if validator = JUndef \<or> validator = JNull
           \<or> \<not> isFunction (jget validator ''validate'')
           \<or> \<not> isString (jget identity ''name'')
           \<or> \<not> isString (jget identity ''version'')
         then Inl MissingValidator
         else (case validateBudget (gc_budget input) of Inl e \<Rightarrow> Inl e
           | Inr _ \<Rightarrow> (case validateRetryPolicy (gc_retryPolicy input) of Inl e \<Rightarrow> Inl e
             | Inr _ \<Rightarrow>
                 validateConversationPolicy (gc_conversationPolicy input)
                   (gc_instructions input))))"

subsection \<open>Validator outcomes\<close>

datatype validator_error_kind = KLoad | KContract | KExecute | KTimeout | KOutput

fun errorKindText :: "validator_error_kind \<Rightarrow> string" where
  "errorKindText KLoad = ''load''"
| "errorKindText KContract = ''contract''"
| "errorKindText KExecute = ''execute''"
| "errorKindText KTimeout = ''timeout''"
| "errorKindText KOutput = ''output''"

definition VALIDATOR_ERROR_KINDS :: "validator_error_kind list" where
  "VALIDATOR_ERROR_KINDS = [KLoad, KContract, KExecute, KTimeout, KOutput]"

record 'd validator_error =
  e_kind :: validator_error_kind
  e_code :: jstr
  e_message :: jstr
  e_cause :: "'d option"

record 'd evidence =
  ev_source :: jstr
  ev_detail :: 'd

datatype 'd outcome =
    Pass "'d evidence list"
  | FailVerdict jstr "'d evidence list" bool
  | ErrorOutcome "'d validator_error"
  | Unavailable "'d validator_error" jstr
  | CanceledOutcome
  | Indeterminate jstr

fun outcomeKind :: "'d outcome \<Rightarrow> string" where
  "outcomeKind (Pass _) = ''pass''"
| "outcomeKind (FailVerdict _ _ _) = ''fail''"
| "outcomeKind (ErrorOutcome _) = ''error''"
| "outcomeKind (Unavailable _ _) = ''unavailable''"
| "outcomeKind CanceledOutcome = ''canceled''"
| "outcomeKind (Indeterminate _) = ''indeterminate''"

subsection \<open>Decisions\<close>

datatype 'd goal_decision =
    Succeed
  | Retry "jstr option"
  | Exhaust terminal_reason "jstr option"
  | Fail terminal_reason "'d validator_error option" "jstr option"
  | Cancel

record goal_decision_context =
  dc_budget :: goal_budget
  dc_retryOn :: "retryable_reason list"
  dc_usage :: goal_usage

definition OPERATOR_ABORT_DETAIL :: jstr where
  "OPERATOR_ABORT_DETAIL =
     lit ''The attempt was aborted with abortAttempt(), so it was not validated and no further attempt could start.''"

definition conversationPolicyDetail :: "jstr \<Rightarrow> jstr" where
  "conversationPolicyDetail message = lit ''Applying the conversation policy failed: '' @ message"

definition runStartDetail :: "jstr \<Rightarrow> jstr" where
  "runStartDetail message = lit ''Starting the inner run failed: '' @ message"

definition runRejectedDetail :: "jstr \<Rightarrow> jstr" where
  "runRejectedDetail message = lit ''The inner run rejected: '' @ message"

definition runFinishDetail :: "finish_reason \<Rightarrow> jstr" where
  "runFinishDetail r = lit ''The inner run finished with '' @ lit (finishReasonText r) @ lit ''.''"

definition costUnaccountedDetail :: jstr where
  "costUnaccountedDetail =
     lit ''maximumTotalCostUsd is set but the attempt reported no costEstimate, so its cost cannot be accounted.''"

definition controllerDetail :: "jstr \<Rightarrow> jstr" where
  "controllerDetail message = lit ''The goal controller failed unexpectedly: '' @ message"

definition START_FAILURE_PREFIXES :: "jstr list" where
  "START_FAILURE_PREFIXES = [conversationPolicyDetail [], runStartDetail []]"

definition startsWith :: "jstr \<Rightarrow> jstr \<Rightarrow> bool" where
  "startsWith s prefix \<longleftrightarrow> take (length prefix) s = prefix"

definition isAttemptStartFailureDetail :: "jstr option \<Rightarrow> bool" where
  "isAttemptStartFailureDetail detail =
     (case detail of None \<Rightarrow> False
      | Some d \<Rightarrow> list_ex (startsWith d) START_FAILURE_PREFIXES)"

definition UNSUPPORTED_VALIDATION_DETAIL :: jstr where
  "UNSUPPORTED_VALIDATION_DETAIL =
     lit ''The validator cannot supply the deterministic evidence this goal requires.''"

definition VALIDATOR_CANCELED_DETAIL :: jstr where
  "VALIDATOR_CANCELED_DETAIL = lit ''The validator was canceled.''"

text \<open>A bound is reached when it is set and the spending is at least it.\<close>

definition boundReached :: "jnum option \<Rightarrow> jnum \<Rightarrow> bool" where
  "boundReached bound spent = (case bound of None \<Rightarrow> False | Some b \<Rightarrow> jle b spent)"

definition isBudgetExceeded :: "goal_budget \<Rightarrow> goal_usage \<Rightarrow> bool" where
  "isBudgetExceeded budget usage \<longleftrightarrow>
     boundReached (b_maximumTotalDurationMs budget) (u_durationMs usage)
     \<or> boundReached (b_maximumTotalSteps budget) (u_steps usage)
     \<or> boundReached (b_maximumTotalTokens budget) (u_tokens usage)
     \<or> (case u_costUsd usage of None \<Rightarrow> False
        | Some cost \<Rightarrow> boundReached (b_maximumTotalCostUsd budget) cost)"

definition decideRetryOrExhaust ::
    "goal_decision_context \<Rightarrow> jstr option \<Rightarrow> jstr option \<Rightarrow> 'd goal_decision" where
  "decideRetryOrExhaust context feedback failureDetail =
     (if isBudgetExceeded (dc_budget context) (dc_usage context)
        then Exhaust AggregateBudgetExceeded failureDetail
      else if jle (b_maximumAttempts (dc_budget context)) (jnat (u_attempts (dc_usage context)))
        then Exhaust AttemptLimitReached failureDetail
      else Retry feedback)"

definition infrastructureFailure ::
    "'d validator_error option \<Rightarrow> jstr option \<Rightarrow> 'd goal_decision" where
  "infrastructureFailure e detail = Fail ValidatorInfrastructureError e detail"

fun decideOutcome ::
    "goal_decision_context \<Rightarrow> 'd outcome \<Rightarrow> jstr option \<Rightarrow> bool \<Rightarrow> 'd goal_decision" where
  "decideOutcome context (Pass _) inputFeedback operatorAborted = Succeed"
| "decideOutcome context (FailVerdict feedback _ retryable) inputFeedback operatorAborted =
     (if retryable \<and> RetryFail \<in> set (dc_retryOn context)
      then decideRetryOrExhaust context (Some feedback) None
      else Fail ValidatorFailNonRetryable None None)"
| "decideOutcome context (ErrorOutcome e) inputFeedback operatorAborted =
     infrastructureFailure (Some e) None"
| "decideOutcome context (Unavailable e reason) inputFeedback operatorAborted =
     (if RetryUnavailable \<in> set (dc_retryOn context)
      then decideRetryOrExhaust context inputFeedback None
      else infrastructureFailure (Some e) (Some reason))"
| "decideOutcome context CanceledOutcome inputFeedback operatorAborted =
     (if operatorAborted then decideRetryOrExhaust context inputFeedback (Some OPERATOR_ABORT_DETAIL)
      else if RetryCanceled \<in> set (dc_retryOn context)
        then decideRetryOrExhaust context inputFeedback None
      else infrastructureFailure None (Some VALIDATOR_CANCELED_DETAIL))"
| "decideOutcome context (Indeterminate reason) inputFeedback operatorAborted =
     infrastructureFailure None (Some reason)"

datatype run_attempt_status = AttemptFailed | AttemptAborted

datatype 'd run_finish_decision = Validate | Decision "'d goal_decision" run_attempt_status

definition decideAttemptRunFailure :: "jstr \<Rightarrow> 'd goal_decision" where
  "decideAttemptRunFailure failureDetail = Fail AttemptRunFailed None (Some failureDetail)"

definition decideRunFinish ::
    "goal_decision_context \<Rightarrow> finish_reason \<Rightarrow> bool \<Rightarrow> bool \<Rightarrow> jstr option \<Rightarrow> 'd run_finish_decision"
where
  "decideRunFinish context finishReason operatorAborted costEstimateReported feedback =
     (if finishReason \<noteq> StopCondition then
        (let aborted = (finishReason = Aborted)
         in if aborted \<and> operatorAborted
            then Decision (decideRetryOrExhaust context feedback (Some OPERATOR_ABORT_DETAIL))
                   AttemptAborted
            else Decision (decideAttemptRunFailure (runFinishDetail finishReason))
                   (if aborted then AttemptAborted else AttemptFailed))
      else if b_maximumTotalCostUsd (dc_budget context) \<noteq> None \<and> \<not> costEstimateReported
          \<and> \<not> operatorAborted
        then Decision (decideAttemptRunFailure costUnaccountedDetail) AttemptFailed
      else Validate)"

datatype determinism = Deterministic | Stochastic

definition decideDeterminismRequirement ::
    "bool option \<Rightarrow> determinism option \<Rightarrow> 'd goal_decision option" where
  "decideDeterminismRequirement required d =
     (if required \<noteq> Some True \<or> d = Some Deterministic then None
      else Some (Fail UnsupportedValidation None (Some UNSUPPORTED_VALIDATION_DETAIL)))"

definition isDurationBoundElapsed :: "goal_budget \<Rightarrow> jnum \<Rightarrow> bool" where
  "isDurationBoundElapsed budget durationMs =
     boundReached (b_maximumTotalDurationMs budget) durationMs"

definition decideDurationElapsed :: "'d goal_decision" where
  "decideDurationElapsed = Exhaust AggregateBudgetExceeded None"

definition decideCancellation :: "'d goal_decision" where
  "decideCancellation = Cancel"

subsection \<open>What the configuration checks accept\<close>

lemma isPositiveFinite_iff: "isPositiveFinite v \<longleftrightarrow> (\<exists>r. v = JNum (Fin r) \<and> 0 < r)"
  by (auto simp: isPositiveFinite_def jisFinite_iff split: jsval.splits)

lemma isPositiveInteger_iff: "isPositiveInteger v \<longleftrightarrow> (\<exists>n. v = JNum (jnat n) \<and> 0 < n)"
proof
  assume "isPositiveInteger v"
  then obtain r where v: "v = JNum (Fin r)" "r = of_int \<lfloor>r\<rfloor>" "0 < r"
    by (cases v; cases "asNumber v") (auto simp: isPositiveInteger_def)
  then have "r = of_nat (nat \<lfloor>r\<rfloor>)" "0 < nat \<lfloor>r\<rfloor>" by (metis floor_less_zero floor_of_int less_le_not_le linorder_not_less nat_0_le of_int_of_nat_eq zero_le_floor, metis of_int_0_less_iff zero_less_nat_eq)
  with v(1) show "\<exists>n. v = JNum (jnat n) \<and> 0 < n" unfolding jnat_def by metis
next
  assume "\<exists>n. v = JNum (jnat n) \<and> 0 < n"
  then show "isPositiveInteger v" by (auto simp: isPositiveInteger_def jnat_def)
qed

lemma isNonNegativeIntegerValue_iff:
  "isNonNegativeIntegerValue v \<longleftrightarrow> (\<exists>n. v = JNum (jnat n))"
proof
  assume "isNonNegativeIntegerValue v"
  then obtain r where v: "v = JNum (Fin r)" "r = of_int \<lfloor>r\<rfloor>" "0 \<le> r"
    by (cases v; cases "asNumber v") (auto simp: isNonNegativeIntegerValue_def)
  then have "r = of_nat (nat \<lfloor>r\<rfloor>)" by (metis nat_0_le of_int_of_nat_eq zero_le_floor)
  with v(1) show "\<exists>n. v = JNum (jnat n)" unfolding jnat_def by metis
next
  assume "\<exists>n. v = JNum (jnat n)"
  then show "isNonNegativeIntegerValue v" by (auto simp: isNonNegativeIntegerValue_def jnat_def)
qed

lemma checkBounds_Inr_iff:
  "(\<exists>n. checkBounds budget keys c = Inr n) \<longleftrightarrow>
     (\<forall>k \<in> set keys. jget budget k = JUndef \<or> isPositiveFinite (jget budget k))"
  by (induction keys arbitrary: c) (auto simp: Let_def)

lemma checkBounds_count:
  "checkBounds budget keys c = Inr n \<Longrightarrow>
     n = c + length (filter (\<lambda>k. jget budget k \<noteq> JUndef) keys)"
proof (induction keys arbitrary: c)
  case (Cons k ks)
  from Cons.prems consider "jget budget k = JUndef" "checkBounds budget ks c = Inr n"
    | "jget budget k \<noteq> JUndef" "checkBounds budget ks (Suc c) = Inr n"
    by (auto simp: Let_def split: if_split_asm)
  then show ?case by cases (use Cons.IH in fastforce)+
qed simp

definition aggregateBoundsOk :: "jsval \<Rightarrow> bool" where
  "aggregateBoundsOk budget \<longleftrightarrow>
     (\<forall>k \<in> set AGGREGATE_BOUND_KEYS.
        jget budget k = JUndef \<or> (\<exists>r. jget budget k = JNum (Fin r) \<and> 0 < r))
     \<and> (\<exists>k \<in> set AGGREGATE_BOUND_KEYS. jget budget k \<noteq> JUndef)"

lemma validateBudget_iff:
  "validateBudget budget = Inr () \<longleftrightarrow>
     (\<exists>n. jget budget ''maximumAttempts'' = JNum (jnat n) \<and> 0 < n) \<and> aggregateBoundsOk budget"
proof -
  have "(case checkBounds budget AGGREGATE_BOUND_KEYS 0 of
          Inl e \<Rightarrow> Inl e | Inr configured \<Rightarrow> if configured = 0 then Inl MissingAggregateBound else Inr ())
        = Inr () \<longleftrightarrow> aggregateBoundsOk budget"
  proof (cases "checkBounds budget AGGREGATE_BOUND_KEYS 0")
    case (Inl e)
    then show ?thesis
      using checkBounds_Inr_iff [of budget AGGREGATE_BOUND_KEYS 0]
      by (auto simp: aggregateBoundsOk_def isPositiveFinite_iff)
  next
    case (Inr n)
    then have "\<forall>k \<in> set AGGREGATE_BOUND_KEYS. jget budget k = JUndef \<or> isPositiveFinite (jget budget k)"
      using checkBounds_Inr_iff by blast
    moreover have "n = 0 \<longleftrightarrow> (\<forall>k \<in> set AGGREGATE_BOUND_KEYS. jget budget k = JUndef)"
      using checkBounds_count [OF Inr] by (auto simp: filter_empty_conv)
    ultimately show ?thesis using Inr by (auto simp: aggregateBoundsOk_def isPositiveFinite_iff)
  qed
  then show ?thesis by (auto simp: validateBudget_def isPositiveInteger_iff)
qed

lemma validateRetryPolicy_iff:
  "validateRetryPolicy policy = Inr () \<longleftrightarrow>
     policy = JUndef \<or> (\<exists>rs. rs \<noteq> [] \<and>
       jget policy ''retryOn'' = JArr (map (\<lambda>r. JStr (lit (retryableText r))) rs))"
proof -
  have ex: "list_all isRetryableReason vs \<Longrightarrow>
      \<exists>rs. vs = map (\<lambda>r. JStr (lit (retryableText r))) rs" for vs
  proof (induction vs)
    case (Cons v vs)
    then obtain rs r where "vs = map (\<lambda>r. JStr (lit (retryableText r))) rs"
      "v = JStr (lit (retryableText r))" by (auto simp: isRetryableReason_def)
    then show ?case by (metis list.simps(9))
  qed simp
  have all: "list_all isRetryableReason (map (\<lambda>r. JStr (lit (retryableText r))) rs)" for rs
  proof -
    have "isRetryableReason (JStr (lit (retryableText r)))" for r
      by (cases r) (simp_all add: isRetryableReason_def GOAL_RETRYABLE_REASONS_def)
    then show ?thesis by (simp add: list_all_iff)
  qed
  show ?thesis
    using all by (auto simp: validateRetryPolicy_def split: jsval.splits dest!: ex)
qed

definition conversationPolicyOk :: "jsval \<Rightarrow> jsval \<Rightarrow> bool" where
  "conversationPolicyOk policy instructions \<longleftrightarrow>
     jget policy ''kind'' = JStr (lit ''continue'')
     \<or> jget policy ''kind'' = JStr (lit ''fork-from-baseline'')
       \<and> (\<exists>n. jget policy ''throughRun'' = JNum (jnat n))
     \<or> jget policy ''kind'' = JStr (lit ''fresh-from-artifact'')
       \<and> (\<exists>s. instructions = JStr s \<and> s \<noteq> [])"

lemma validateConversationPolicy_iff:
  "validateConversationPolicy policy instructions = Inr () \<longleftrightarrow> conversationPolicyOk policy instructions"
proof -
  have "isString instructions \<and> asString instructions \<noteq> [] \<longleftrightarrow> (\<exists>s. instructions = JStr s \<and> s \<noteq> [])"
    by (cases instructions) auto
  then show ?thesis
    by (auto simp: validateConversationPolicy_def conversationPolicyOk_def Let_def
        isNonNegativeIntegerValue_iff)
qed

text \<open>
  \<open>validateGoalConfiguration\<close> returns without throwing exactly for the configurations
  COR-638 allows: a validator with a named, versioned identity and a \<open>validate\<close> function; a
  positive integer number of attempts; at least one aggregate bound, every one given being
  positive and finite; no retry policy or a non-empty list of the three retryable reasons; and
  one of the three conversation policies with what it needs.
\<close>

theorem validateGoalConfiguration_accepts:
  "validateGoalConfiguration input = Inr () \<longleftrightarrow>
     isFunction (jget (gc_validator input) ''validate'')
     \<and> (\<exists>n. jget (jget (gc_validator input) ''identity'') ''name'' = JStr n)
     \<and> (\<exists>v. jget (jget (gc_validator input) ''identity'') ''version'' = JStr v)
     \<and> (\<exists>n. jget (gc_budget input) ''maximumAttempts'' = JNum (jnat n) \<and> 0 < n)
     \<and> aggregateBoundsOk (gc_budget input)
     \<and> (gc_retryPolicy input = JUndef \<or> (\<exists>rs. rs \<noteq> [] \<and>
          jget (gc_retryPolicy input) ''retryOn''
            = JArr (map (\<lambda>r. JStr (lit (retryableText r))) rs)))
     \<and> conversationPolicyOk (gc_conversationPolicy input) (gc_instructions input)"
proof -
  have s: "isString v \<longleftrightarrow> (\<exists>s. v = JStr s)" for v by (cases v) auto
  have n: "isFunction (jget v k) \<Longrightarrow> v \<noteq> JUndef \<and> v \<noteq> JNull" for v k
    by (auto simp: jget_def)
  have seq: "(case x of Inl e \<Rightarrow> Inl e | Inr u \<Rightarrow> y) = Inr () \<longleftrightarrow> x = Inr () \<and> y = Inr ()"
    for x y :: "configuration_code + unit" by (cases x) auto
  show ?thesis
    by (auto simp: validateGoalConfiguration_def Let_def seq s validateBudget_iff
        validateRetryPolicy_iff validateConversationPolicy_iff dest: n)
qed

subsection \<open>What the decisions guarantee\<close>

lemma decideRetryOrExhaust_retry_iff:
  "decideRetryOrExhaust context feedback detail = Retry f \<longleftrightarrow>
     \<not> isBudgetExceeded (dc_budget context) (dc_usage context)
     \<and> \<not> jle (b_maximumAttempts (dc_budget context)) (jnat (u_attempts (dc_usage context)))
     \<and> f = feedback"
  by (auto simp: decideRetryOrExhaust_def)

lemma decideRetryOrExhaust_cases:
  obtains f where "decideRetryOrExhaust context feedback detail = Retry f"
  | r where "decideRetryOrExhaust context feedback detail = Exhaust r detail"
      "r = AggregateBudgetExceeded \<or> r = AttemptLimitReached"
  by (metis decideRetryOrExhaust_def)

text \<open>The reasons a policy (or an operator) gives for another attempt after an outcome.\<close>

fun retryAllowed :: "goal_decision_context \<Rightarrow> 'd outcome \<Rightarrow> bool \<Rightarrow> bool" where
  "retryAllowed context (FailVerdict _ _ retryable) _ =
     (retryable \<and> RetryFail \<in> set (dc_retryOn context))"
| "retryAllowed context (Unavailable _ _) _ = (RetryUnavailable \<in> set (dc_retryOn context))"
| "retryAllowed context CanceledOutcome operatorAborted =
     (operatorAborted \<or> RetryCanceled \<in> set (dc_retryOn context))"
| "retryAllowed context _ _ = False"

fun nextFeedback :: "'d outcome \<Rightarrow> jstr option \<Rightarrow> jstr option" where
  "nextFeedback (FailVerdict feedback _ _) inputFeedback = Some feedback"
| "nextFeedback _ inputFeedback = inputFeedback"

text \<open>
  \<open>decideOutcome\<close> asks for another attempt exactly when the outcome is one the retry
  policy names (or the operator aborted the attempt), no aggregate bound is spent, and fewer
  attempts than the maximum were made; the next attempt then receives the verdict's own
  feedback, or the input the evaluated attempt had when it produced no verdict.
\<close>

theorem decideOutcome_retry_iff:
  "decideOutcome context outcome inputFeedback operatorAborted = Retry f \<longleftrightarrow>
     retryAllowed context outcome operatorAborted
     \<and> \<not> isBudgetExceeded (dc_budget context) (dc_usage context)
     \<and> \<not> jle (b_maximumAttempts (dc_budget context)) (jnat (u_attempts (dc_usage context)))
     \<and> f = nextFeedback outcome inputFeedback"
  by (cases outcome) (auto simp: decideRetryOrExhaust_retry_iff infrastructureFailure_def)

text \<open>Success is a passing verdict and nothing else; only a verdict fails a goal as one.\<close>

lemma decideOutcome_succeed_iff:
  "decideOutcome context outcome fb ab = Succeed \<longleftrightarrow> (\<exists>ev. outcome = Pass ev)"
  by (cases outcome)
    (auto simp: decideRetryOrExhaust_def infrastructureFailure_def)

lemma decideOutcome_not_cancel [simp]: "decideOutcome context outcome fb ab \<noteq> Cancel"
  by (cases outcome) (auto simp: decideRetryOrExhaust_def infrastructureFailure_def)

lemma decideOutcome_Fail:
  "decideOutcome context outcome fb ab = Fail r e d \<Longrightarrow>
     r = ValidatorFailNonRetryable \<and> outcomeKind outcome = ''fail''
     \<or> r = ValidatorInfrastructureError \<and> outcomeKind outcome \<noteq> ''pass''
       \<and> outcomeKind outcome \<noteq> ''fail''"
  by (cases outcome)
    (auto simp: decideRetryOrExhaust_def infrastructureFailure_def split: if_splits)

lemma decideOutcome_Exhaust:
  "decideOutcome context outcome fb ab = Exhaust r d \<Longrightarrow>
     outcomeKind outcome \<noteq> ''pass''
     \<and> (r = AggregateBudgetExceeded \<and> isBudgetExceeded (dc_budget context) (dc_usage context)
        \<or> r = AttemptLimitReached
          \<and> jle (b_maximumAttempts (dc_budget context)) (jnat (u_attempts (dc_usage context))))"
  by (cases outcome)
    (auto simp: decideRetryOrExhaust_def infrastructureFailure_def split: if_splits)

lemma decideRunFinish_not_aborted:
  "decideRunFinish context reason False reported fb = Decision d st \<Longrightarrow>
     (\<exists>detail. d = Fail AttemptRunFailed None (Some detail))"
  by (auto simp: decideRunFinish_def decideAttemptRunFailure_def Let_def split: if_splits)

text \<open>
  A finished run is handed to the validator exactly when it reached its stop condition
  and its cost can be accounted (or the operator aborted it after it finished); every other
  finish, without an operator abort, fails the goal as \<open>attempt-run-failed\<close> with a detail that
  the recovery does not mistake for a start that failed.
\<close>

theorem decideRunFinish_spec:
  "(decideRunFinish context reason operatorAborted reported feedback = Validate \<longleftrightarrow>
     reason = StopCondition
     \<and> (b_maximumTotalCostUsd (dc_budget context) = None \<or> reported \<or> operatorAborted))
   \<and> (\<not> operatorAborted \<and> decideRunFinish context reason operatorAborted reported feedback \<noteq> Validate
      \<longrightarrow> (\<exists>detail. decideRunFinish context reason operatorAborted reported feedback
               = Decision (Fail AttemptRunFailed None (Some detail))
                   (if reason = Aborted then AttemptAborted else AttemptFailed)
             \<and> \<not> isAttemptStartFailureDetail (Some detail)))"
proof -
  have "\<not> isAttemptStartFailureDetail (Some (runFinishDetail r))" for r
    by (simp add: isAttemptStartFailureDetail_def START_FAILURE_PREFIXES_def startsWith_def
        runFinishDetail_def conversationPolicyDetail_def runStartDetail_def lit_simps)
  moreover have "\<not> isAttemptStartFailureDetail (Some costUnaccountedDetail)"
    by (simp add: isAttemptStartFailureDetail_def START_FAILURE_PREFIXES_def startsWith_def
        costUnaccountedDetail_def conversationPolicyDetail_def runStartDetail_def lit_simps)
  ultimately show ?thesis
    by (auto simp: decideRunFinish_def decideAttemptRunFailure_def Let_def)
qed

end
