(* ===== verification/GoalRecord.thy ===== *)
theory GoalRecord
  imports GoalDecision
begin

section \<open>The durable record of one goal run\<close>

text \<open>
  The data of \<open>packages/bureau/src/goal-state.ts\<close> and of the plain-data contract
  \<open>packages/operative/src/durable/goal-workflow-ports.ts\<close>: the identifiers a goal's workflow,
  attempts, sessions, transitions and signals are named by, the record shapes, the caps, and
  the trimmed view the controller reads. Counters are naturals (a valid record keeps
  \<open>transitionSeq\<close> below the audit-log cap), measured quantities are JavaScript numbers, and
  what stays untyped in a stored record (evidence detail, error causes, event payloads, the
  hand-off artifact) stays a \<open>json\<close>.
\<close>

subsection \<open>Caps and identifiers\<close>

definition GOAL_STATE_SCHEMA_VERSION :: nat where
  "GOAL_STATE_SCHEMA_VERSION = 2"

definition GOAL_MAXIMUM_ATTEMPTS :: nat where
  "GOAL_MAXIMUM_ATTEMPTS = 256"

definition GOAL_AUDIT_LOG_MAXIMUM_ENTRIES :: nat where
  "GOAL_AUDIT_LOG_MAXIMUM_ENTRIES = 4 * GOAL_MAXIMUM_ATTEMPTS + 8"

definition GOAL_OBJECTIVE_MAXIMUM_BYTES :: nat where
  "GOAL_OBJECTIVE_MAXIMUM_BYTES = 65536"

definition GOAL_VALIDATION_MAXIMUM_BYTES :: nat where
  "GOAL_VALIDATION_MAXIMUM_BYTES = 65536"

definition GOAL_WORKFLOW_ID_PREFIX :: jstr where
  "GOAL_WORKFLOW_ID_PREFIX = lit ''goal:''"

definition GOAL_RUN_AND_SESSION_ID_PREFIX :: jstr where
  "GOAL_RUN_AND_SESSION_ID_PREFIX = lit ''goal-''"

definition cancelSignalId :: "jstr \<Rightarrow> jstr" where
  "cancelSignalId goalRunId = lit ''cancel:'' @ goalRunId"

definition attemptSignalId :: "jstr \<Rightarrow> nat \<Rightarrow> jstr" where
  "attemptSignalId goalRunId attemptIndex =
     lit ''attempt-terminal:'' @ goalRunId @ lit '':'' @ decimal attemptIndex"

definition goalWorkflowId :: "jstr \<Rightarrow> jstr" where
  "goalWorkflowId goalRunId = GOAL_WORKFLOW_ID_PREFIX @ goalRunId"

definition goalTransitionId :: "jstr \<Rightarrow> nat \<Rightarrow> jstr" where
  "goalTransitionId goalRunId seq = goalRunId @ lit '':t'' @ decimal seq"

definition goalRestartId :: "jstr \<Rightarrow> nat \<Rightarrow> jstr" where
  "goalRestartId goalRunId count = goalRunId @ lit '':restart-'' @ decimal count"

definition goalAttemptId :: "jstr \<Rightarrow> nat \<Rightarrow> jstr" where
  "goalAttemptId goalRunId attemptIndex = goalRunId @ lit '':a'' @ decimal attemptIndex"

definition goalAttemptRunId :: "jstr \<Rightarrow> nat \<Rightarrow> jstr" where
  "goalAttemptRunId goalRunId attemptIndex =
     GOAL_RUN_AND_SESSION_ID_PREFIX @ goalRunId @ lit ''-a'' @ decimal attemptIndex"

definition goalSessionId :: "jstr \<Rightarrow> nat \<Rightarrow> jstr" where
  "goalSessionId goalRunId attemptIndex =
     GOAL_RUN_AND_SESSION_ID_PREFIX @ goalRunId @ lit ''-s'' @ decimal attemptIndex"

definition attemptSessionId :: "jstr \<Rightarrow> string \<Rightarrow> nat \<Rightarrow> jstr" where
  "attemptSessionId goalRunId kind attemptIndex =
     goalSessionId goalRunId
       (if kind = ''continue'' \<or> attemptIndex = 0 then 0 else attemptIndex)"

definition goalDecisionId :: "jstr \<Rightarrow> jstr" where
  "goalDecisionId attemptId = attemptId @ lit '':decision''"

definition goalAttemptTerminalSignalName :: "nat \<Rightarrow> jstr" where
  "goalAttemptTerminalSignalName attemptIndex = lit ''attempt-terminal:'' @ decimal attemptIndex"

subsection \<open>Record shapes\<close>

datatype attempt_status = ARunning | AEvaluating | APassed | AFailed | AAborted

fun attemptStatusText :: "attempt_status \<Rightarrow> string" where
  "attemptStatusText ARunning = ''running''"
| "attemptStatusText AEvaluating = ''evaluating''"
| "attemptStatusText APassed = ''passed''"
| "attemptStatusText AFailed = ''failed''"
| "attemptStatusText AAborted = ''aborted''"

record attempt_usage =
  au_steps :: jnum
  au_tokens :: jnum
  au_costUsd :: "jnum option"

record validation =
  vl_identity :: goal_identity
  vl_startedAt :: jstr
  vl_completedAt :: jstr
  vl_outcome :: "json outcome"
  vl_decisionId :: jstr

text \<open>An attempt as a decision reads it, and as the record stores it.\<close>

record view_attempt =
  a_attemptId :: jstr
  a_attemptIndex :: nat
  a_runId :: jstr
  a_sessionId :: jstr
  a_startedAt :: jstr
  a_completedAt :: "jstr option"
  a_finishReason :: "finish_reason option"
  a_feedback :: "jstr option"
  a_usage :: attempt_usage
  a_status :: attempt_status

record goal_attempt = view_attempt +
  a_validation :: "validation option"

datatype active_work =
    AttemptWork jstr jstr jstr
  | ValidationWork jstr goal_identity jstr

record audit_event =
  ae_kind :: jstr
  ae_payload :: json
  ae_dedupeKey :: jstr
  ae_at :: jstr

record audit_entry =
  en_seq :: nat
  en_transitionId :: jstr
  en_events :: "audit_event list"

record transition_record =
  tr_seq :: nat
  tr_transitionId :: jstr
  tr_from :: goal_run_status
  tr_to :: goal_run_status
  tr_at :: jstr
  tr_cause :: jstr

record cancellation_marker =
  cm_requestedAt :: jstr
  cm_principal :: "jstr option"
  cm_reason :: "jstr option"

record objective =
  ob_agentName :: jstr
  ob_prompt :: jstr
  ob_instructions :: "jstr option"

record goal_state =
  s_goalRunId :: jstr
  s_workflowId :: jstr
  s_revision :: nat
  s_transitionSeq :: nat
  s_identity :: goal_identity
  s_objective :: objective
  s_validator :: goal_identity
  s_requireDeterministicValidation :: bool
  s_validatorTimeoutMs :: "jnum option"
  s_conversationPolicy :: goal_conversation_policy
  s_retryPolicy :: "retryable_reason list option"
  s_bounds :: goal_budget
  s_principal :: "jstr option"
  s_status :: goal_run_status
  s_terminalReason :: "terminal_reason option"
  s_failureDetail :: "jstr option"
  s_currentTransition :: transition_record
  s_attempts :: "goal_attempt list"
  s_usage :: goal_usage
  s_active :: "active_work option"
  s_cancellation :: "cancellation_marker option"
  s_controllerRestarts :: nat
  s_auditLog :: "audit_entry list"
  s_closedAt :: "jstr option"
  s_cleanedUpAt :: "jstr option"
  s_createdAt :: jstr
  s_updatedAt :: jstr

text \<open>The view (\<open>GoalWorkflowView\<close>): the record without validations and what no decision reads.\<close>

record goal_view =
  w_goalRunId :: jstr
  w_status :: goal_run_status
  w_transitionSeq :: nat
  w_validator :: goal_identity
  w_validatorTimeoutMs :: "jnum option"
  w_bounds :: goal_budget
  w_retryPolicy :: "retryable_reason list option"
  w_attempts :: "view_attempt list"
  w_usage :: goal_usage
  w_active :: "active_work option"
  w_cancellation :: "jstr option"
  w_terminalReason :: "terminal_reason option"
  w_failureDetail :: "jstr option"
  w_createdAt :: jstr

text \<open>\<open>active\<close> of a request: \<open>null\<close> clears the work in flight, leaving it out keeps it.\<close>

datatype active_patch = KeepActive | ClearActive | SetActive active_work

record transition_request =
  rq_goalRunId :: jstr
  rq_seq :: nat
  rq_transitionId :: jstr
  rq_to :: goal_run_status
  rq_at :: jstr
  rq_cause :: jstr
  rq_terminalReason :: "terminal_reason option"
  rq_failureDetail :: "jstr option"
  rq_attempt :: "goal_attempt option"
  rq_usage :: "goal_usage option"
  rq_active :: active_patch

datatype rejection =
    RTerminal
  | RIllegalTransition
  | RCancellationRequested
  | RInvalidTerminalReason
  | RInvalidAttempt
  | RDecisionAlreadyRecorded
  | ROversized
  | RInvalidRecord

text \<open>What the platform supplies: the digest of \<open>@lostgradient/cryptography\<close> and the artifact schema.\<close>

record platform =
  sha256HexSync :: "jstr \<Rightarrow> jstr"
  artifactOk :: "jsval \<Rightarrow> bool"

subsection \<open>The identifiers name one thing each\<close>

lemma digits_split:
  assumes "xs @ [c] @ ds = ys @ [d] @ es" "\<forall>x \<in> set ds. P x" "\<forall>x \<in> set es. P x" "\<not> P c" "\<not> P d"
  shows "xs = ys \<and> c = d \<and> ds = es"
proof -
  have t: "takeWhile P (rev (us @ [u] @ ws)) = rev ws \<and> dropWhile P (rev (us @ [u] @ ws)) = u # rev us"
    if "\<forall>x \<in> set ws. P x" "\<not> P u" for us ws :: "'a list" and u
  proof -
    have "rev (us @ [u] @ ws) = rev ws @ u # rev us" by simp
    moreover have "takeWhile P (rev ws @ u # rev us) = rev ws"
      using that by (subst takeWhile_append2) auto
    moreover have "dropWhile P (rev ws @ u # rev us) = u # rev us"
      using that by (subst dropWhile_append2) auto
    ultimately show ?thesis by simp
  qed
  have e: "rev (xs @ [c] @ ds) = rev (ys @ [d] @ es)" using assms(1) by (rule arg_cong)
  have "rev ds = rev es" using t [OF assms(2,4), of xs] t [OF assms(3,5), of ys] e by argo
  moreover have "c # rev xs = d # rev ys"
    using t [OF assms(2,4), of xs] t [OF assms(3,5), of ys] e by argo
  ultimately show ?thesis by simp
qed

text \<open>A decimal number behind a letter or a hyphen is read back from the right.\<close>

lemma ch_not_digit: "of_char c < (48 :: nat) \<or> 57 < (of_char c :: nat) \<Longrightarrow> \<not> isDigit (ch c)"
  by (auto simp: isDigit_def word_le_nat_alt unat_ch)

lemma numbered_inject:
  assumes "g @ lit (p @ [c]) @ decimal m = h @ lit (q @ [d]) @ decimal n"
    "of_char c < (48 :: nat) \<or> 57 < (of_char c :: nat)" "of_char d < (48 :: nat) \<or> 57 < (of_char d :: nat)"
  shows "g @ lit p = h @ lit q \<and> c = d \<and> m = n"
proof -
  have "(g @ lit p) @ [ch c] @ decimal m = (h @ lit q) @ [ch d] @ decimal n"
    using assms(1) by (simp add: lit_simps)
  from digits_split [OF this, of isDigit] decimal_digits ch_not_digit assms(2,3) show ?thesis
    by (metis ch_eq_iff decimal_inject)
qed

lemma goalTransitionId_inject [simp]:
  "goalTransitionId g m = goalTransitionId h n \<longleftrightarrow> g = h \<and> m = n"
  using numbered_inject [of g "'':''" "CHR ''t''" m h "'':''" "CHR ''t''" n]
  by (auto simp: goalTransitionId_def)

lemma goalAttemptId_inject [simp]:
  "goalAttemptId g m = goalAttemptId h n \<longleftrightarrow> g = h \<and> m = n"
  using numbered_inject [of g "'':''" "CHR ''a''" m h "'':''" "CHR ''a''" n]
  by (auto simp: goalAttemptId_def)

lemma goalAttemptRunId_inject [simp]:
  "goalAttemptRunId g m = goalAttemptRunId h n \<longleftrightarrow> g = h \<and> m = n"
  using numbered_inject [of g "''-''" "CHR ''a''" m h "''-''" "CHR ''a''" n]
  by (auto simp: goalAttemptRunId_def)

lemma goalSessionId_inject [simp]:
  "goalSessionId g m = goalSessionId h n \<longleftrightarrow> g = h \<and> m = n"
  using numbered_inject [of g "''-''" "CHR ''s''" m h "''-''" "CHR ''s''" n]
  by (auto simp: goalSessionId_def)

lemma goalRestartId_inject [simp]:
  "goalRestartId g m = goalRestartId h n \<longleftrightarrow> g = h \<and> m = n"
  using numbered_inject [of g "'':restart''" "CHR ''-''" m h "'':restart''" "CHR ''-''" n]
  by (auto simp: goalRestartId_def)

lemma goalDecisionId_inject [simp]: "goalDecisionId a = goalDecisionId b \<longleftrightarrow> a = b"
  by (simp add: goalDecisionId_def)

lemma goalRestartId_neq_transition [simp]:
  "goalRestartId g m \<noteq> goalTransitionId h n" "goalTransitionId h n \<noteq> goalRestartId g m"
proof -
  show "goalRestartId g m \<noteq> goalTransitionId h n"
    using numbered_inject [of g "'':restart''" "CHR ''-''" m h "'':''" "CHR ''t''" n]
    by (auto simp: goalRestartId_def goalTransitionId_def)
  then show "goalTransitionId h n \<noteq> goalRestartId g m" by metis
qed

lemma goalAttemptRunId_neq_session [simp]: "goalAttemptRunId g m \<noteq> goalSessionId h n"
  using numbered_inject [of g "''-''" "CHR ''a''" m h "''-''" "CHR ''s''" n]
  by (auto simp: goalAttemptRunId_def goalSessionId_def)

text \<open>
  The deterministic names never collide: a transition, attempt, run, session, restart or
  decision id determines both the goal and the number it was built from (whatever text the goal
  id is), a run is never named like a session, and a restart's log entry never like a
  transition's. The sessions of one goal are told apart exactly when its policy opens new ones.
\<close>

theorem identifiers_injective:
  "(goalTransitionId g m = goalTransitionId h n \<longleftrightarrow> g = h \<and> m = n)
   \<and> (goalAttemptId g m = goalAttemptId h n \<longleftrightarrow> g = h \<and> m = n)
   \<and> (goalAttemptRunId g m = goalAttemptRunId h n \<longleftrightarrow> g = h \<and> m = n)
   \<and> (goalSessionId g m = goalSessionId h n \<longleftrightarrow> g = h \<and> m = n)
   \<and> (goalRestartId g m = goalRestartId h n \<longleftrightarrow> g = h \<and> m = n)
   \<and> (goalDecisionId (goalAttemptId g m) = goalDecisionId (goalAttemptId h n) \<longleftrightarrow> g = h \<and> m = n)
   \<and> goalAttemptRunId g m \<noteq> goalSessionId h n \<and> goalRestartId g m \<noteq> goalTransitionId h n
   \<and> (attemptSessionId g kind m = attemptSessionId g kind n \<longleftrightarrow> kind = ''continue'' \<or> m = n)"
  by (auto simp: attemptSessionId_def)

subsection \<open>The identifiers as an interface\<close>

text \<open>
  \<open>GoalWorkflowIdentifiers\<close> is all the controller knows of the names: the laws say that a name
  identifies what it was built for, which is what makes a replayed commit a duplicate and a
  second decision of one attempt a conflict.
\<close>

locale naming =
  fixes transitionId :: "jstr \<Rightarrow> nat \<Rightarrow> jstr"
    and attemptId :: "jstr \<Rightarrow> nat \<Rightarrow> jstr"
    and attemptRunId :: "jstr \<Rightarrow> nat \<Rightarrow> jstr"
    and decisionId :: "jstr \<Rightarrow> jstr"
  assumes transitionId_inj: "transitionId g m = transitionId h n \<longleftrightarrow> g = h \<and> m = n"
    and attemptId_inj: "attemptId g m = attemptId h n \<longleftrightarrow> g = h \<and> m = n"
    and attemptRunId_inj: "attemptRunId g m = attemptRunId h n \<longleftrightarrow> g = h \<and> m = n"
    and decisionId_inj: "decisionId a = decisionId b \<longleftrightarrow> a = b"
begin

lemma next_transition_is_new: "transitionId g (Suc n) \<noteq> transitionId g n"
  by (simp add: transitionId_inj)

lemma decision_names_attempt:
  "decisionId (attemptId g m) = decisionId (attemptId h n) \<longleftrightarrow> g = h \<and> m = n"
  by (simp add: decisionId_inj attemptId_inj)

end

interpretation bureau: naming goalTransitionId goalAttemptId goalAttemptRunId goalDecisionId
  by unfold_locales simp_all

end
