(* ===== verification/GoalTransitions.thy ===== *)
theory GoalTransitions
  imports GoalRecord
begin

section \<open>Building the transitions a controller commits\<close>

text \<open>
  \<open>packages/operative/src/durable/goal-workflow-transitions.ts\<close> and the view of
  \<open>goal-workflow-activities.ts\<close>: pure functions of a record view, a clock reading and the
  deterministic identifiers. \<open>toIsoString\<close> throws for a reading that is no date, so a builder
  answers \<open>None\<close> there. The aggregate deadline is measured here and nowhere else.
\<close>

subsection \<open>The view of a record\<close>

definition toView :: "goal_attempt \<Rightarrow> view_attempt" where
  "toView attempt =
     \<lparr>a_attemptId = a_attemptId attempt, a_attemptIndex = a_attemptIndex attempt,
      a_runId = a_runId attempt, a_sessionId = a_sessionId attempt,
      a_startedAt = a_startedAt attempt, a_completedAt = a_completedAt attempt,
      a_finishReason = a_finishReason attempt, a_feedback = a_feedback attempt,
      a_usage = a_usage attempt, a_status = a_status attempt\<rparr>"

definition toGoalWorkflowView :: "goal_state \<Rightarrow> goal_view" where
  "toGoalWorkflowView record =
     \<lparr>w_goalRunId = s_goalRunId record, w_status = s_status record,
      w_transitionSeq = s_transitionSeq record, w_validator = s_validator record,
      w_validatorTimeoutMs = s_validatorTimeoutMs record, w_bounds = s_bounds record,
      w_retryPolicy = s_retryPolicy record, w_attempts = map toView (s_attempts record),
      w_usage = s_usage record, w_active = s_active record,
      w_cancellation = map_option cm_requestedAt (s_cancellation record),
      w_terminalReason = s_terminalReason record, w_failureDetail = s_failureDetail record,
      w_createdAt = s_createdAt record\<rparr>"

subsection \<open>What crosses the ports\<close>

record goal_identifiers =
  gi_transitionId :: "jstr \<Rightarrow> nat \<Rightarrow> jstr"
  gi_attemptId :: "jstr \<Rightarrow> nat \<Rightarrow> jstr"
  gi_attemptRunId :: "jstr \<Rightarrow> nat \<Rightarrow> jstr"
  gi_decisionId :: "jstr \<Rightarrow> jstr"

record terminal_signal =
  ts_finishReason :: finish_reason
  ts_steps :: jnum
  ts_tokens :: jnum
  ts_costUsd :: "jnum option"

record validator_result =
  vr_identity :: goal_identity
  vr_startedAt :: jstr
  vr_completedAt :: jstr
  vr_outcome :: "json outcome"

record abort_request =
  ab_goalRunId :: jstr
  ab_attemptIndex :: nat
  ab_attemptId :: jstr
  ab_runId :: jstr

subsection \<open>The aggregate duration\<close>

definition creationMilliseconds :: "goal_view \<Rightarrow> jnum \<Rightarrow> jnum option" where
  "creationMilliseconds view nowMs =
     (let createdAt = dateParse (w_createdAt view)
      in if jisFinite createdAt \<and> jle createdAt nowMs then Some createdAt else None)"

definition elapsedMilliseconds :: "goal_view \<Rightarrow> jnum \<Rightarrow> jnum" where
  "elapsedMilliseconds view nowMs =
     (case creationMilliseconds view nowMs of
        None \<Rightarrow> withDefault (Fin 0) (b_maximumTotalDurationMs (w_bounds view))
      | Some createdAt \<Rightarrow> jsub nowMs createdAt)"

definition remainingMilliseconds :: "goal_view \<Rightarrow> jnum \<Rightarrow> jnum option" where
  "remainingMilliseconds view nowMs =
     (case b_maximumTotalDurationMs (w_bounds view) of
        None \<Rightarrow> None
      | Some bound \<Rightarrow> Some (jmax (Fin 0) (jsub bound (elapsedMilliseconds view nowMs))))"

definition isDeadlineElapsed :: "goal_view \<Rightarrow> jnum \<Rightarrow> bool" where
  "isDeadlineElapsed view nowMs \<longleftrightarrow> remainingMilliseconds view nowMs = Some (Fin 0)"

definition recordedDurationMs :: "goal_view \<Rightarrow> jnum \<Rightarrow> jnum" where
  "recordedDurationMs view nowMs =
     jmax (u_durationMs (w_usage view)) (elapsedMilliseconds view nowMs)"

subsection \<open>What a decision reads\<close>

definition goalUsage :: "goal_view \<Rightarrow> jnum \<Rightarrow> goal_usage" where
  "goalUsage view nowMs =
     \<lparr>u_attempts = u_attempts (w_usage view), u_steps = u_steps (w_usage view),
      u_tokens = u_tokens (w_usage view), u_costUsd = u_costUsd (w_usage view),
      u_durationMs = recordedDurationMs view nowMs\<rparr>"

definition decisionContextFor :: "goal_view \<Rightarrow> jnum \<Rightarrow> goal_decision_context" where
  "decisionContextFor view nowMs =
     \<lparr>dc_budget = w_bounds view, dc_retryOn = withDefault [] (w_retryPolicy view),
      dc_usage = goalUsage view nowMs\<rparr>"

definition goalInputFeedbackFor :: "view_attempt list \<Rightarrow> nat \<Rightarrow> jstr option" where
  "goalInputFeedbackFor attempts attemptIndex =
     foldl (\<lambda>feedback attempt. orElse (a_feedback attempt) feedback) None (take attemptIndex attempts)"

definition currentAttemptOf :: "goal_view \<Rightarrow> view_attempt option" where
  "currentAttemptOf view = lastOf (w_attempts view)"

definition isAttemptInFlight :: "view_attempt option \<Rightarrow> bool" where
  "isAttemptInFlight attempt =
     (case attempt of None \<Rightarrow> False | Some a \<Rightarrow> a_status a = ARunning \<or> a_status a = AEvaluating)"

definition abortRequestFor :: "goal_view \<Rightarrow> goal_identifiers \<Rightarrow> abort_request" where
  "abortRequestFor view ids =
     (let current = currentAttemptOf view;
          attemptIndex = (case current of
              Some a \<Rightarrow> if isAttemptInFlight current then a_attemptIndex a else length (w_attempts view)
            | None \<Rightarrow> length (w_attempts view))
      in \<lparr>ab_goalRunId = w_goalRunId view, ab_attemptIndex = attemptIndex,
          ab_attemptId = gi_attemptId ids (w_goalRunId view) attemptIndex,
          ab_runId = gi_attemptRunId ids (w_goalRunId view) attemptIndex\<rparr>)"

subsection \<open>The parts of a request\<close>

text \<open>\<open>usageFor\<close> with the changes it merges; a change that is absent keeps the recorded value.\<close>

record usage_changes =
  uc_attempts :: "nat option"
  uc_steps :: "jnum option"
  uc_tokens :: "jnum option"
  uc_costUsd :: "jnum option"

definition noChanges :: usage_changes where
  "noChanges = \<lparr>uc_attempts = None, uc_steps = None, uc_tokens = None, uc_costUsd = None\<rparr>"

definition usageFor :: "goal_view \<Rightarrow> jnum \<Rightarrow> usage_changes \<Rightarrow> goal_usage" where
  "usageFor view nowMs changes =
     (let usage = w_usage view
      in \<lparr>u_attempts = withDefault (u_attempts usage) (uc_attempts changes),
          u_steps = withDefault (u_steps usage) (uc_steps changes),
          u_tokens = withDefault (u_tokens usage) (uc_tokens changes),
          u_costUsd = orElse (uc_costUsd changes) (u_costUsd usage),
          u_durationMs = recordedDurationMs view nowMs\<rparr>)"

definition baseTransition ::
    "goal_view \<Rightarrow> goal_identifiers \<Rightarrow> jnum \<Rightarrow> goal_run_status \<Rightarrow> jstr \<Rightarrow> transition_request option" where
  "baseTransition view ids nowMs target cause =
     (case toIso nowMs of
        None \<Rightarrow> None
      | Some stamp \<Rightarrow>
          (let seq = w_transitionSeq view + 1
           in Some \<lparr>rq_goalRunId = w_goalRunId view, rq_seq = seq,
                    rq_transitionId = gi_transitionId ids (w_goalRunId view) seq,
                    rq_to = target, rq_at = stamp, rq_cause = cause, rq_terminalReason = None,
                    rq_failureDetail = None, rq_attempt = None, rq_usage = None,
                    rq_active = KeepActive\<rparr>))"

record attempt_changes =
  ac_status :: attempt_status
  ac_completedAt :: "jstr option"
  ac_finishReason :: "finish_reason option"
  ac_usage :: "attempt_usage option"
  ac_feedback :: "jstr option"
  ac_validation :: "validation option"

definition withStatus :: "attempt_status \<Rightarrow> attempt_changes" where
  "withStatus st =
     \<lparr>ac_status = st, ac_completedAt = None, ac_finishReason = None, ac_usage = None,
      ac_feedback = None, ac_validation = None\<rparr>"

definition withAttempt :: "view_attempt \<Rightarrow> attempt_changes \<Rightarrow> goal_attempt" where
  "withAttempt attempt changes =
     \<lparr>a_attemptId = a_attemptId attempt, a_attemptIndex = a_attemptIndex attempt,
      a_runId = a_runId attempt, a_sessionId = a_sessionId attempt,
      a_startedAt = a_startedAt attempt,
      a_completedAt = orElse (ac_completedAt changes) (a_completedAt attempt),
      a_finishReason = orElse (ac_finishReason changes) (a_finishReason attempt),
      a_feedback = ac_feedback changes, a_usage = withDefault (a_usage attempt) (ac_usage changes),
      a_status = ac_status changes, a_validation = ac_validation changes\<rparr>"

definition accountAttemptUsage :: "goal_view \<Rightarrow> jnum \<Rightarrow> terminal_signal \<Rightarrow> goal_usage" where
  "accountAttemptUsage view nowMs finished =
     usageFor view nowMs
       \<lparr>uc_attempts = None,
        uc_steps = Some (jadd (u_steps (w_usage view)) (ts_steps finished)),
        uc_tokens = Some (jadd (u_tokens (w_usage view)) (ts_tokens finished)),
        uc_costUsd =
          (case ts_costUsd finished of
             None \<Rightarrow> None
           | Some cost \<Rightarrow> Some (jadd (withDefault (Fin 0) (u_costUsd (w_usage view))) cost))\<rparr>"

definition reportedUsage :: "terminal_signal \<Rightarrow> attempt_usage" where
  "reportedUsage finished =
     \<lparr>au_steps = ts_steps finished, au_tokens = ts_tokens finished,
      au_costUsd = ts_costUsd finished\<rparr>"

subsection \<open>The builders\<close>

definition buildOpenAttempt ::
    "goal_view \<Rightarrow> goal_identifiers \<Rightarrow> jnum \<Rightarrow> nat \<Rightarrow> jstr \<Rightarrow> transition_request option" where
  "buildOpenAttempt view ids nowMs attemptIndex sessionId =
     (let attemptId = gi_attemptId ids (w_goalRunId view) attemptIndex;
          runId = gi_attemptRunId ids (w_goalRunId view) attemptIndex
      in case toIso nowMs of
          None \<Rightarrow> None
        | Some startedAt \<Rightarrow>
            map_option
              (\<lambda>base. base
                \<lparr>rq_attempt := Some
                   \<lparr>a_attemptId = attemptId, a_attemptIndex = attemptIndex, a_runId = runId,
                    a_sessionId = sessionId, a_startedAt = startedAt, a_completedAt = None,
                    a_finishReason = None, a_feedback = None,
                    a_usage = \<lparr>au_steps = Fin 0, au_tokens = Fin 0, au_costUsd = None\<rparr>,
                    a_status = ARunning, a_validation = None\<rparr>,
                 rq_usage := Some (usageFor view nowMs (noChanges\<lparr>uc_attempts := Some (attemptIndex + 1)\<rparr>)),
                 rq_active := SetActive (AttemptWork attemptId runId startedAt)\<rparr>)
              (baseTransition view ids nowMs Running
                (lit ''attempt '' @ decimal attemptIndex @ lit '' started'')))"

definition buildEvaluationStarted ::
    "goal_view \<Rightarrow> goal_identifiers \<Rightarrow> jnum \<Rightarrow> view_attempt \<Rightarrow> terminal_signal \<Rightarrow> transition_request option"
where
  "buildEvaluationStarted view ids nowMs attempt finished =
     (case toIso nowMs of
        None \<Rightarrow> None
      | Some stamp \<Rightarrow>
          map_option
            (\<lambda>base. base
              \<lparr>rq_attempt := Some (withAttempt attempt
                 ((withStatus AEvaluating)
                   \<lparr>ac_finishReason := Some (ts_finishReason finished),
                    ac_usage := Some (reportedUsage finished)\<rparr>)),
               rq_usage := Some (accountAttemptUsage view nowMs finished),
               rq_active := SetActive
                 (ValidationWork (a_attemptId attempt) (w_validator view) stamp)\<rparr>)
            (baseTransition view ids nowMs Evaluating
              (lit ''attempt '' @ decimal (a_attemptIndex attempt) @ lit '' reached ''
                @ lit (finishReasonText (ts_finishReason finished)))))"

text \<open>The target status, reason and detail a decision commits, and the cause it is recorded with.\<close>

fun decisionFields :: "'d goal_decision \<Rightarrow> goal_run_status \<times> terminal_reason option \<times> jstr option" where
  "decisionFields (Retry _) = (Retrying, None, None)"
| "decisionFields Succeed =
     (TERMINAL_STATUS_BY_REASON ValidatorPassed, Some ValidatorPassed, None)"
| "decisionFields Cancel = (TERMINAL_STATUS_BY_REASON GoalCanceled, Some GoalCanceled, None)"
| "decisionFields (Exhaust reason detail) = (Exhausted, Some reason, detail)"
| "decisionFields (Fail reason _ detail) = (Failed, Some reason, detail)"

fun decisionKind :: "'d goal_decision \<Rightarrow> string" where
  "decisionKind Succeed = ''succeed''"
| "decisionKind (Retry _) = ''retry''"
| "decisionKind (Exhaust _ _) = ''exhaust''"
| "decisionKind (Fail _ _ _) = ''fail''"
| "decisionKind Cancel = ''cancel''"

definition causeFor :: "'d goal_decision \<Rightarrow> jstr" where
  "causeFor decision =
     (case fst (snd (decisionFields decision)) of
        None \<Rightarrow> lit ''retrying after a non-passing attempt''
      | Some reason \<Rightarrow> lit (decisionKind decision) @ lit '': '' @ lit (reasonText reason))"

definition decidedTransition ::
    "goal_view \<Rightarrow> goal_identifiers \<Rightarrow> jnum \<Rightarrow> 'd goal_decision \<Rightarrow> transition_request option" where
  "decidedTransition view ids nowMs decision =
     (case decisionFields decision of
        (target, reason, detail) \<Rightarrow>
          map_option
            (\<lambda>base. base\<lparr>rq_terminalReason := reason, rq_failureDetail := detail\<rparr>)
            (baseTransition view ids nowMs target (causeFor decision)))"

definition buildRunFinishDecision ::
    "goal_view \<Rightarrow> goal_identifiers \<Rightarrow> jnum \<Rightarrow> view_attempt \<Rightarrow> terminal_signal \<Rightarrow> 'd goal_decision
       \<Rightarrow> run_attempt_status \<Rightarrow> transition_request option" where
  "buildRunFinishDecision view ids nowMs attempt finished decision attemptStatus =
     map_option
       (\<lambda>base. base
         \<lparr>rq_attempt := Some (withAttempt attempt
            ((withStatus (case attemptStatus of AttemptFailed \<Rightarrow> AFailed | AttemptAborted \<Rightarrow> AAborted))
              \<lparr>ac_finishReason := Some (ts_finishReason finished),
               ac_usage := Some (reportedUsage finished), ac_completedAt := Some (rq_at base)\<rparr>)),
          rq_usage := Some (accountAttemptUsage view nowMs finished),
          rq_active := ClearActive\<rparr>)
       (decidedTransition view ids nowMs decision)"

fun attemptStatusFor :: "'d outcome \<Rightarrow> attempt_status" where
  "attemptStatusFor (Pass _) = APassed"
| "attemptStatusFor CanceledOutcome = AAborted"
| "attemptStatusFor _ = AFailed"

fun outcomeFeedback :: "'d outcome \<Rightarrow> jstr option" where
  "outcomeFeedback (FailVerdict feedback _ _) = Some feedback"
| "outcomeFeedback _ = None"

definition buildValidationDecision ::
    "goal_view \<Rightarrow> goal_identifiers \<Rightarrow> jnum \<Rightarrow> view_attempt \<Rightarrow> validator_result \<Rightarrow> 'd goal_decision
       \<Rightarrow> transition_request option" where
  "buildValidationDecision view ids nowMs attempt result decision =
     map_option
       (\<lambda>base. base
         \<lparr>rq_attempt := Some (withAttempt attempt
            ((withStatus (attemptStatusFor (vr_outcome result)))
              \<lparr>ac_completedAt := Some (vr_completedAt result),
               ac_feedback := outcomeFeedback (vr_outcome result),
               ac_validation := Some
                 \<lparr>vl_identity = vr_identity result, vl_startedAt = vr_startedAt result,
                  vl_completedAt = vr_completedAt result, vl_outcome = vr_outcome result,
                  vl_decisionId = gi_decisionId ids (a_attemptId attempt)\<rparr>\<rparr>)),
          rq_usage := Some (usageFor view nowMs noChanges),
          rq_active := ClearActive\<rparr>)
       (decidedTransition view ids nowMs decision)"

definition buildGoalForcedFinish ::
    "goal_view \<Rightarrow> goal_identifiers \<Rightarrow> jnum \<Rightarrow> 'd goal_decision \<Rightarrow> transition_request option" where
  "buildGoalForcedFinish view ids nowMs decision =
     map_option
       (\<lambda>base. base
         \<lparr>rq_attempt :=
            (case currentAttemptOf view of
               Some attempt \<Rightarrow>
                 if isAttemptInFlight (Some attempt)
                 then Some (withAttempt attempt
                   ((withStatus AAborted)\<lparr>ac_completedAt := Some (rq_at base)\<rparr>))
                 else None
             | None \<Rightarrow> None),
          rq_usage := Some (usageFor view nowMs noChanges),
          rq_active := ClearActive\<rparr>)
       (decidedTransition view ids nowMs decision)"

definition buildStartFailure ::
    "goal_view \<Rightarrow> goal_identifiers \<Rightarrow> jnum \<Rightarrow> 'd goal_decision \<Rightarrow> transition_request option" where
  "buildStartFailure view ids nowMs decision =
     (case decisionFields decision of
        (target, reason, detail) \<Rightarrow>
          map_option
            (\<lambda>base. base
              \<lparr>rq_to := target, rq_terminalReason := reason, rq_failureDetail := detail,
               rq_usage := Some (usageFor view nowMs noChanges), rq_active := ClearActive\<rparr>)
            (baseTransition view ids nowMs Failed (causeFor decision)))"

end
