(* ===== verification/GoalShape.thy ===== *)
theory GoalShape
  imports GoalRecord
begin

section \<open>The shape of a stored record\<close>

text \<open>
  The hand-written, fail-closed decoder of \<open>packages/bureau/src/goal-state.ts\<close>, part one: what
  a parsed JSON value must look like (\<open>isShape\<close> and the checks it calls, in the order of the
  source), the typed record such a value is read as, and the JSON value a record is written as.
  Each type of the record is a codec: a record value is written to a value the check accepts
  exactly when its texts and numbers are in range, and it is read back unchanged.
\<close>

subsection \<open>Primitive checks\<close>

fun isPlainRecord :: "jsval \<Rightarrow> bool" where
  "isPlainRecord (JObj _) = True"
| "isPlainRecord _ = False"

definition isNonEmptyString :: "jsval \<Rightarrow> bool" where
  "isNonEmptyString v \<longleftrightarrow> isString v \<and> asString v \<noteq> []"

definition isOptionalString :: "jsval \<Rightarrow> bool" where
  "isOptionalString v \<longleftrightarrow> v = JUndef \<or> isString v"

definition isTimestamp :: "jsval \<Rightarrow> bool" where
  "isTimestamp v \<longleftrightarrow> isString v \<and> isIsoTimestamp (asString v)"

definition isOptionalTimestamp :: "jsval \<Rightarrow> bool" where
  "isOptionalTimestamp v \<longleftrightarrow> v = JUndef \<or> isTimestamp v"

definition isNonNegativeInteger :: "jsval \<Rightarrow> bool" where
  "isNonNegativeInteger v = (case v of JNum n \<Rightarrow> jisInteger n \<and> jle (Fin 0) n | _ \<Rightarrow> False)"

definition isNonNegativeNumber :: "jsval \<Rightarrow> bool" where
  "isNonNegativeNumber v = (case v of JNum n \<Rightarrow> jisFinite n \<and> jle (Fin 0) n | _ \<Rightarrow> False)"

definition isOptionalNonNegativeNumber :: "jsval \<Rightarrow> bool" where
  "isOptionalNonNegativeNumber v \<longleftrightarrow> v = JUndef \<or> isNonNegativeNumber v"

definition MAXIMUM_JSON_DEPTH :: nat where
  "MAXIMUM_JSON_DEPTH = 64"

function (sequential) isJsonValue :: "jsval \<Rightarrow> nat \<Rightarrow> bool" where
  "isJsonValue v depth =
     (if depth > MAXIMUM_JSON_DEPTH then False
      else (case v of
          JNull \<Rightarrow> True
        | JStr _ \<Rightarrow> True
        | JBool _ \<Rightarrow> True
        | JNum n \<Rightarrow> jisFinite n
        | JArr items \<Rightarrow> list_all (\<lambda>item. isJsonValue item (depth + 1)) items
        | JObj fs \<Rightarrow> list_all (\<lambda>item. isJsonValue item (depth + 1)) (map snd fs)
        | _ \<Rightarrow> False))"
  by pat_completeness auto
termination
  by (relation "measure (\<lambda>(v, depth). 65 - depth)") (auto simp: MAXIMUM_JSON_DEPTH_def)

declare isJsonValue.simps [simp del]

text \<open>A table keyed by text: \<open>Object.hasOwn(table, key)\<close> and the entry it names.\<close>

definition hasKey :: "('a \<Rightarrow> string) \<Rightarrow> 'a list \<Rightarrow> jsval \<Rightarrow> bool" where
  "hasKey text all v \<longleftrightarrow> list_ex (\<lambda>x. v = JStr (lit (text x))) all"

definition entryOf :: "('a \<Rightarrow> string) \<Rightarrow> 'a list \<Rightarrow> jsval \<Rightarrow> 'a" where
  "entryOf text all v =
     (case find (\<lambda>x. v = JStr (lit (text x))) all of None \<Rightarrow> hd all | Some x \<Rightarrow> x)"

definition entryText :: "('a \<Rightarrow> string) \<Rightarrow> 'a \<Rightarrow> jsval" where
  "entryText text x = JStr (lit (text x))"

definition GOAL_STATUSES :: "goal_run_status list" where
  "GOAL_STATUSES =
     [Pending, Running, Evaluating, Retrying, Succeeded, Exhausted, Failed, Canceled]"

definition TERMINAL_REASONS :: "terminal_reason list" where
  "TERMINAL_REASONS =
     [ValidatorPassed, AttemptLimitReached, AggregateBudgetExceeded, ValidatorFailNonRetryable,
      ValidatorInfrastructureError, UnsupportedValidation, AttemptRunFailed, GoalCanceled]"

definition FINISH_REASONS :: "finish_reason list" where
  "FINISH_REASONS =
     [StopCondition, MaximumSteps, Aborted, RunError, ElicitationDenied, BudgetExceeded, Tripwire]"

definition ATTEMPT_STATUSES :: "attempt_status list" where
  "ATTEMPT_STATUSES = [ARunning, AEvaluating, APassed, AFailed, AAborted]"

definition isGoalRunStatus :: "jsval \<Rightarrow> bool" where
  "isGoalRunStatus v \<longleftrightarrow> hasKey statusText GOAL_STATUSES v"

definition isGoalRunTerminalReason :: "jsval \<Rightarrow> bool" where
  "isGoalRunTerminalReason v \<longleftrightarrow> hasKey reasonText TERMINAL_REASONS v"

subsection \<open>Validator outcomes and validations\<close>

definition isValidatorIdentity :: "jsval \<Rightarrow> bool" where
  "isValidatorIdentity v \<longleftrightarrow>
     isPlainRecord v \<and> hasExactKeys v [''name'', ''version'']
     \<and> isNonEmptyString (jget v ''name'') \<and> isNonEmptyString (jget v ''version'')"

definition isProjectedError :: "jsval \<Rightarrow> bool" where
  "isProjectedError v \<longleftrightarrow>
     (if \<not> isPlainRecord v \<or> \<not> hasExactKeys v [''kind'', ''code'', ''message'', ''cause''] then False
      else list_ex (\<lambda>kind. JStr (lit (errorKindText kind)) = jget v ''kind'') VALIDATOR_ERROR_KINDS
        \<and> isString (jget v ''code'') \<and> isString (jget v ''message'')
        \<and> (jget v ''cause'' = JUndef \<or> isJsonValue (jget v ''cause'') 0))"

definition isProjectedEvidence :: "jsval \<Rightarrow> bool" where
  "isProjectedEvidence v \<longleftrightarrow>
     isPlainRecord v \<and> hasExactKeys v [''source'', ''detail'']
     \<and> isString (jget v ''source'') \<and> isJsonValue (jget v ''detail'') 0"

definition isEvidenceList :: "jsval \<Rightarrow> bool" where
  "isEvidenceList v \<longleftrightarrow> isArray v \<and> list_all isProjectedEvidence (asArray v)"

definition isProjectedValidatorOutcome :: "jsval \<Rightarrow> bool" where
  "isProjectedValidatorOutcome v \<longleftrightarrow>
     (if \<not> isPlainRecord v then False
      else let kind = jget v ''kind''
        in if kind = JStr (lit ''pass'') then
             hasExactKeys v [''kind'', ''evidence''] \<and> isEvidenceList (jget v ''evidence'')
           else if kind = JStr (lit ''fail'') then
             hasExactKeys v [''kind'', ''feedback'', ''evidence'', ''retryable'']
             \<and> isString (jget v ''feedback'') \<and> isEvidenceList (jget v ''evidence'')
             \<and> isBoolean (jget v ''retryable'')
           else if kind = JStr (lit ''error'') then
             hasExactKeys v [''kind'', ''error''] \<and> isProjectedError (jget v ''error'')
           else if kind = JStr (lit ''unavailable'') then
             hasExactKeys v [''kind'', ''error'', ''reason'']
             \<and> isProjectedError (jget v ''error'') \<and> isString (jget v ''reason'')
           else if kind = JStr (lit ''canceled'') then hasExactKeys v [''kind'']
           else if kind = JStr (lit ''indeterminate'') then
             hasExactKeys v [''kind'', ''reason''] \<and> isString (jget v ''reason'')
           else False)"

definition isValidation :: "jsval \<Rightarrow> bool" where
  "isValidation v \<longleftrightarrow>
     isPlainRecord v
     \<and> hasExactKeys v [''identity'', ''startedAt'', ''completedAt'', ''outcome'', ''decisionId'']
     \<and> isValidatorIdentity (jget v ''identity'')
     \<and> isTimestamp (jget v ''startedAt'') \<and> isTimestamp (jget v ''completedAt'')
     \<and> isProjectedValidatorOutcome (jget v ''outcome'')
     \<and> isNonEmptyString (jget v ''decisionId'')"

definition isAttemptUsage :: "jsval \<Rightarrow> bool" where
  "isAttemptUsage v \<longleftrightarrow>
     isPlainRecord v \<and> hasExactKeys v [''steps'', ''tokens'', ''costUsd'']
     \<and> isNonNegativeNumber (jget v ''steps'') \<and> isNonNegativeNumber (jget v ''tokens'')
     \<and> isOptionalNonNegativeNumber (jget v ''costUsd'')"

definition ATTEMPT_KEYS :: "string list" where
  "ATTEMPT_KEYS =
     [''attemptId'', ''attemptIndex'', ''runId'', ''sessionId'', ''startedAt'', ''completedAt'',
      ''finishReason'', ''validation'', ''feedback'', ''usage'', ''status'']"

definition isDurableGoalAttempt :: "jsval \<Rightarrow> bool" where
  "isDurableGoalAttempt v \<longleftrightarrow>
     (if \<not> isPlainRecord v \<or> \<not> hasExactKeys v ATTEMPT_KEYS then False
      else isNonEmptyString (jget v ''attemptId'')
        \<and> isNonNegativeInteger (jget v ''attemptIndex'')
        \<and> isNonEmptyString (jget v ''runId'')
        \<and> isNonEmptyString (jget v ''sessionId'')
        \<and> isTimestamp (jget v ''startedAt'')
        \<and> isOptionalTimestamp (jget v ''completedAt'')
        \<and> (jget v ''finishReason'' = JUndef
           \<or> hasKey finishReasonText FINISH_REASONS (jget v ''finishReason''))
        \<and> (jget v ''validation'' = JUndef \<or> isValidation (jget v ''validation''))
        \<and> isOptionalString (jget v ''feedback'')
        \<and> isAttemptUsage (jget v ''usage'')
        \<and> hasKey attemptStatusText ATTEMPT_STATUSES (jget v ''status''))"

definition isActiveWork :: "jsval \<Rightarrow> bool" where
  "isActiveWork v \<longleftrightarrow>
     (if \<not> isPlainRecord v then False
      else if jget v ''kind'' = JStr (lit ''attempt'') then
        hasExactKeys v [''kind'', ''attemptId'', ''runId'', ''startedAt'']
        \<and> isNonEmptyString (jget v ''attemptId'') \<and> isNonEmptyString (jget v ''runId'')
        \<and> isTimestamp (jget v ''startedAt'')
      else jget v ''kind'' = JStr (lit ''validation'')
        \<and> hasExactKeys v [''kind'', ''attemptId'', ''validator'', ''startedAt'']
        \<and> isNonEmptyString (jget v ''attemptId'') \<and> isValidatorIdentity (jget v ''validator'')
        \<and> isTimestamp (jget v ''startedAt''))"

definition isTransitionRecord :: "jsval \<Rightarrow> bool" where
  "isTransitionRecord v \<longleftrightarrow>
     isPlainRecord v
     \<and> hasExactKeys v [''seq'', ''transitionId'', ''from'', ''to'', ''at'', ''cause'']
     \<and> isNonNegativeInteger (jget v ''seq'')
     \<and> isNonEmptyString (jget v ''transitionId'')
     \<and> isGoalRunStatus (jget v ''from'') \<and> isGoalRunStatus (jget v ''to'')
     \<and> isTimestamp (jget v ''at'') \<and> isString (jget v ''cause'')"

definition isAuditEvent :: "jsval \<Rightarrow> bool" where
  "isAuditEvent v \<longleftrightarrow>
     isPlainRecord v \<and> hasExactKeys v [''kind'', ''payload'', ''dedupeKey'', ''at'']
     \<and> isNonEmptyString (jget v ''kind'')
     \<and> isPlainRecord (jget v ''payload'') \<and> isJsonValue (jget v ''payload'') 0
     \<and> isNonEmptyString (jget v ''dedupeKey'') \<and> isTimestamp (jget v ''at'')"

definition isAuditEntry :: "jsval \<Rightarrow> bool" where
  "isAuditEntry v \<longleftrightarrow>
     isPlainRecord v \<and> hasExactKeys v [''seq'', ''transitionId'', ''events'']
     \<and> isNonNegativeInteger (jget v ''seq'')
     \<and> isNonEmptyString (jget v ''transitionId'')
     \<and> isArray (jget v ''events'') \<and> list_all isAuditEvent (asArray (jget v ''events''))"

definition isCancellationMarker :: "jsval \<Rightarrow> bool" where
  "isCancellationMarker v \<longleftrightarrow>
     isPlainRecord v \<and> hasExactKeys v [''requestedAt'', ''principal'', ''reason'']
     \<and> isTimestamp (jget v ''requestedAt'')
     \<and> isOptionalString (jget v ''principal'') \<and> isOptionalString (jget v ''reason'')"

definition isIdentity :: "jsval \<Rightarrow> bool" where
  "isIdentity v \<longleftrightarrow>
     isPlainRecord v \<and> hasExactKeys v [''name'', ''version'']
     \<and> isNonEmptyString (jget v ''name'') \<and> isNonEmptyString (jget v ''version'')"

definition objectiveByteLength :: "jstr \<Rightarrow> jstr option \<Rightarrow> nat" where
  "objectiveByteLength prompt instructions =
     utf8ByteLength prompt + utf8ByteLength (withDefault [] instructions)"

definition isObjective :: "jsval \<Rightarrow> bool" where
  "isObjective v \<longleftrightarrow>
     isPlainRecord v \<and> hasExactKeys v [''agentName'', ''prompt'', ''instructions'']
     \<and> isNonEmptyString (jget v ''agentName'') \<and> isString (jget v ''prompt'')
     \<and> isOptionalString (jget v ''instructions'')
     \<and> objectiveByteLength (asString (jget v ''prompt'')) (asOption asString (jget v ''instructions''))
         \<le> GOAL_OBJECTIVE_MAXIMUM_BYTES"

definition isUsage :: "jsval \<Rightarrow> bool" where
  "isUsage v \<longleftrightarrow>
     isPlainRecord v
     \<and> hasExactKeys v [''attempts'', ''steps'', ''tokens'', ''costUsd'', ''durationMs'']
     \<and> isNonNegativeInteger (jget v ''attempts'')
     \<and> isNonNegativeNumber (jget v ''steps'') \<and> isNonNegativeNumber (jget v ''tokens'')
     \<and> isOptionalNonNegativeNumber (jget v ''costUsd'')
     \<and> isNonNegativeNumber (jget v ''durationMs'')"

definition passes :: "configuration_code + unit \<Rightarrow> bool" where
  "passes r = (case r of Inl _ \<Rightarrow> False | Inr _ \<Rightarrow> True)"

definition BOUNDS_KEYS :: "string list" where
  "BOUNDS_KEYS =
     [''maximumAttempts'', ''maximumTotalDurationMs'', ''maximumTotalSteps'',
      ''maximumTotalTokens'', ''maximumTotalCostUsd'']"

definition isBounds :: "jsval \<Rightarrow> bool" where
  "isBounds v \<longleftrightarrow>
     (if \<not> isPlainRecord v then False
      else hasExactKeys v BOUNDS_KEYS \<and> passes (validateBudget v)
        \<and> jle (asNumber (jget v ''maximumAttempts'')) (jnat GOAL_MAXIMUM_ATTEMPTS))"

definition isRetryPolicy :: "jsval \<Rightarrow> bool" where
  "isRetryPolicy v \<longleftrightarrow>
     isPlainRecord v \<and> hasExactKeys v [''retryOn''] \<and> passes (validateRetryPolicy v)"

definition isConversationPolicy :: "platform \<Rightarrow> jsval \<Rightarrow> jsval \<Rightarrow> bool" where
  "isConversationPolicy p v instructions \<longleftrightarrow>
     (if \<not> isPlainRecord v then False
      else if jget v ''kind'' = JStr (lit ''continue'') then hasExactKeys v [''kind'']
      else if jget v ''kind'' = JStr (lit ''fork-from-baseline'') then
        hasExactKeys v [''kind'', ''throughRun'']
        \<and> passes (validateConversationPolicy v instructions)
      else jget v ''kind'' = JStr (lit ''fresh-from-artifact'')
        \<and> hasExactKeys v [''kind'', ''artifact''] \<and> artifactOk p (jget v ''artifact'')
        \<and> passes (validateConversationPolicy v instructions))"

definition TOP_LEVEL_KEYS :: "string list" where
  "TOP_LEVEL_KEYS =
     [''schemaVersion'', ''goalRunId'', ''workflowId'', ''revision'', ''transitionSeq'',
      ''identity'', ''objective'', ''validator'', ''requireDeterministicValidation'',
      ''validatorTimeoutMs'', ''conversationPolicy'', ''retryPolicy'', ''bounds'', ''principal'',
      ''status'', ''terminalReason'', ''failureDetail'', ''currentTransition'', ''attempts'',
      ''usage'', ''active'', ''cancellation'', ''controllerRestarts'', ''auditLog'', ''closedAt'',
      ''cleanedUpAt'', ''createdAt'', ''updatedAt'']"

definition isRevision :: "jsval \<Rightarrow> bool" where
  "isRevision v = (case v of JNum n \<Rightarrow> jisInteger n \<and> jle (Fin 1) n | _ \<Rightarrow> False)"

definition isValidatorTimeout :: "jsval \<Rightarrow> bool" where
  "isValidatorTimeout v \<longleftrightarrow> isNonNegativeNumber v \<and> \<not> jle (asNumber v) (Fin 0)"

definition isShape :: "platform \<Rightarrow> jsval \<Rightarrow> bool" where
  "isShape p v \<longleftrightarrow>
     jget v ''schemaVersion'' = JNum (jnat GOAL_STATE_SCHEMA_VERSION)
     \<and> isNonEmptyString (jget v ''goalRunId'')
     \<and> isWellFormed (asString (jget v ''goalRunId''))
     \<and> isNonEmptyString (jget v ''workflowId'')
     \<and> isRevision (jget v ''revision'')
     \<and> isNonNegativeInteger (jget v ''transitionSeq'')
     \<and> isIdentity (jget v ''identity'')
     \<and> isObjective (jget v ''objective'')
     \<and> isValidatorIdentity (jget v ''validator'')
     \<and> isBoolean (jget v ''requireDeterministicValidation'')
     \<and> (jget v ''validatorTimeoutMs'' = JUndef \<or> isValidatorTimeout (jget v ''validatorTimeoutMs''))
     \<and> isConversationPolicy p (jget v ''conversationPolicy'')
         (jget (jget v ''objective'') ''instructions'')
     \<and> (jget v ''retryPolicy'' = JUndef \<or> isRetryPolicy (jget v ''retryPolicy''))
     \<and> isBounds (jget v ''bounds'')
     \<and> isOptionalString (jget v ''principal'')
     \<and> isGoalRunStatus (jget v ''status'')
     \<and> (jget v ''terminalReason'' = JUndef \<or> isGoalRunTerminalReason (jget v ''terminalReason''))
     \<and> isOptionalString (jget v ''failureDetail'')
     \<and> isTransitionRecord (jget v ''currentTransition'')
     \<and> isArray (jget v ''attempts'')
     \<and> list_all isDurableGoalAttempt (asArray (jget v ''attempts''))
     \<and> isUsage (jget v ''usage'')
     \<and> (jget v ''active'' = JUndef \<or> isActiveWork (jget v ''active''))
     \<and> (jget v ''cancellation'' = JUndef \<or> isCancellationMarker (jget v ''cancellation''))
     \<and> isNonNegativeInteger (jget v ''controllerRestarts'')
     \<and> isArray (jget v ''auditLog'')
     \<and> list_all isAuditEntry (asArray (jget v ''auditLog''))
     \<and> isOptionalTimestamp (jget v ''closedAt'')
     \<and> isOptionalTimestamp (jget v ''cleanedUpAt'')
     \<and> isTimestamp (jget v ''createdAt'')
     \<and> isTimestamp (jget v ''updatedAt'')"

end
