(* ===== verification/GoalCodec.thy ===== *)
theory GoalCodec
  imports GoalShape
begin

section \<open>Writing and reading a record\<close>

text \<open>
  \<open>JSON.stringify\<close> of a record of \<open>packages/bureau/src/goal-state.ts\<close> (\<open>enc_\<dots>\<close>; an absent member
  is no own property) and the record a checked value is read as (\<open>as_\<dots>\<close>, the casts of the
  decoder). One locale states what the pair owes to the decoder's check; every type of the
  record is an instance, and the instances compose to the whole record.
\<close>

subsection \<open>The contract of a codec\<close>

locale codec =
  fixes enc :: "'a \<Rightarrow> jsval"
    and dec :: "jsval \<Rightarrow> 'a"
    and check :: "jsval \<Rightarrow> bool"
    and ok :: "'a \<Rightarrow> bool"
  assumes dec_enc [simp]: "dec (enc x) = x"
    and check_enc [simp]: "check (enc x) \<longleftrightarrow> ok x"
    and enc_defined [simp]: "enc x \<noteq> JUndef"
begin

lemma dec_optional [simp]: "asOption dec (optional enc x) = x"
  by (cases x) simp_all

lemma optional_undefined [simp]: "optional enc x = JUndef \<longleftrightarrow> x = None"
  by (cases x) simp_all

lemma check_optional [simp]: "(x = None \<or> check (optional enc x)) \<longleftrightarrow> pred_option ok x"
  by (cases x) simp_all

lemma dec_list [simp]: "map (dec \<circ> enc) xs = xs"
  by (simp add: map_idI)

lemma check_list [simp]: "list_all (check \<circ> enc) xs \<longleftrightarrow> list_all ok xs"
  by (simp add: list_all_iff)

lemma enc_inject: "enc x = enc y \<longleftrightarrow> x = y"
  by (metis dec_enc)

end

text \<open>A codec whose check also establishes what was read.\<close>

locale decoder = codec +
  assumes reads [simp]: "check v \<Longrightarrow> ok (dec v)"
begin

lemma reads_optional [simp]: "v = JUndef \<or> check v \<Longrightarrow> pred_option ok (asOption dec v)"
  by (cases "v = JUndef") (simp_all add: reads)

lemma reads_list [simp]: "list_all check vs \<Longrightarrow> list_all (ok \<circ> dec) vs"
  by (simp add: list_all_iff reads)

end

lemma isPlainRecord_obj [simp]: "isPlainRecord (obj fs)"
  by (simp add: obj_def)

subsection \<open>Texts, numbers and keyed texts\<close>

definition nonNegative :: "jnum \<Rightarrow> bool" where
  "nonNegative n \<longleftrightarrow> jisFinite n \<and> jle (Fin 0) n"

definition positive :: "jnum \<Rightarrow> bool" where
  "positive n \<longleftrightarrow> jisFinite n \<and> \<not> jle n (Fin 0)"

definition nonEmpty :: "jstr \<Rightarrow> bool" where
  "nonEmpty s \<longleftrightarrow> s \<noteq> []"

definition enc_nat :: "nat \<Rightarrow> jsval" where
  "enc_nat n = JNum (jnat n)"

definition anyText :: "jstr \<Rightarrow> bool" where
  "anyText s \<longleftrightarrow> True"

definition anyEntry :: "'a \<Rightarrow> bool" where
  "anyEntry x \<longleftrightarrow> True"

lemma any_simps [simp]: "anyText s" "anyEntry x"
  by (simp_all add: anyText_def anyEntry_def)

interpretation plainText: decoder JStr asString isString anyText
  by unfold_locales simp_all

interpretation name: decoder JStr asString isNonEmptyString nonEmpty
  by unfold_locales (simp_all add: isNonEmptyString_def nonEmpty_def)

interpretation instant: decoder JStr asString isTimestamp isIsoTimestamp
  by unfold_locales (simp_all add: isTimestamp_def)

interpretation amount: decoder JNum asNumber isNonNegativeNumber nonNegative
  by unfold_locales (auto simp: isNonNegativeNumber_def nonNegative_def split: jsval.splits)

interpretation counter: decoder enc_nat asNat isNonNegativeInteger anyEntry
  by unfold_locales
    (simp_all add: enc_nat_def isNonNegativeInteger_def jnat_def)

interpretation timeout: decoder JNum asNumber isValidatorTimeout positive
  by unfold_locales
    (auto simp: isValidatorTimeout_def isNonNegativeNumber_def positive_def jisFinite_iff
      split: jsval.splits)

lemma keyed_text_codec:
  assumes "inj text" "\<And>x. x \<in> set all"
  shows "decoder (entryText text) (entryOf text all) (hasKey text all) anyEntry"
proof
  fix x
  have eq: "JStr (lit (text x)) = JStr (lit (text y)) \<longleftrightarrow> x = y" for y
    using assms(1) by (auto dest: injD)
  have "find (\<lambda>y. JStr (lit (text x)) = JStr (lit (text y))) all = Some x"
    unfolding eq using assms(2) [of x] by (induction all) auto
  then show "entryOf text all (entryText text x) = x"
    by (simp add: entryOf_def entryText_def)
  show "hasKey text all (entryText text x) = anyEntry x"
    using assms(2) [of x] by (auto simp: hasKey_def entryText_def list_ex_iff)
  show "entryText text x \<noteq> JUndef" by (simp add: entryText_def)
qed simp

lemma inj_texts: "inj statusText" "inj reasonText" "inj finishReasonText" "inj attemptStatusText"
  "inj retryableText" "inj errorKindText"
proof -
  show "inj statusText" by (rule injI) (rename_tac x y, case_tac x; case_tac y; simp)
  show "inj reasonText" by (rule injI) (rename_tac x y, case_tac x; case_tac y; simp)
  show "inj finishReasonText" by (rule injI) (rename_tac x y, case_tac x; case_tac y; simp)
  show "inj attemptStatusText" by (rule injI) (rename_tac x y, case_tac x; case_tac y; simp)
  show "inj retryableText" by (rule injI) (rename_tac x y, case_tac x; case_tac y; simp)
  show "inj errorKindText" by (rule injI) (rename_tac x y, case_tac x; case_tac y; simp)
qed

lemma all_entries: "x \<in> set GOAL_STATUSES" "r \<in> set TERMINAL_REASONS" "f \<in> set FINISH_REASONS"
  "a \<in> set ATTEMPT_STATUSES" "t \<in> set GOAL_RETRYABLE_REASONS" "k \<in> set VALIDATOR_ERROR_KINDS"
proof -
  show "x \<in> set GOAL_STATUSES" by (cases x) (simp_all add: GOAL_STATUSES_def)
  show "r \<in> set TERMINAL_REASONS" by (cases r) (simp_all add: TERMINAL_REASONS_def)
  show "f \<in> set FINISH_REASONS" by (cases f) (simp_all add: FINISH_REASONS_def)
  show "a \<in> set ATTEMPT_STATUSES" by (cases a) (simp_all add: ATTEMPT_STATUSES_def)
  show "t \<in> set GOAL_RETRYABLE_REASONS" by (cases t) (simp_all add: GOAL_RETRYABLE_REASONS_def)
  show "k \<in> set VALIDATOR_ERROR_KINDS" by (cases k) (simp_all add: VALIDATOR_ERROR_KINDS_def)
qed

interpretation status: decoder "entryText statusText" "entryOf statusText GOAL_STATUSES"
    isGoalRunStatus anyEntry
  using keyed_text_codec [OF inj_texts(1) all_entries(1)]
  by (simp add: isGoalRunStatus_def [abs_def])

interpretation reason: decoder "entryText reasonText" "entryOf reasonText TERMINAL_REASONS"
    isGoalRunTerminalReason anyEntry
  using keyed_text_codec [OF inj_texts(2) all_entries(2)]
  by (simp add: isGoalRunTerminalReason_def [abs_def])

interpretation finish: decoder "entryText finishReasonText" "entryOf finishReasonText FINISH_REASONS"
    "hasKey finishReasonText FINISH_REASONS" anyEntry
  by (rule keyed_text_codec [OF inj_texts(3) all_entries(3)])

interpretation attemptStatus: decoder "entryText attemptStatusText"
    "entryOf attemptStatusText ATTEMPT_STATUSES" "hasKey attemptStatusText ATTEMPT_STATUSES" anyEntry
  by (rule keyed_text_codec [OF inj_texts(4) all_entries(4)])

interpretation retryable: decoder "entryText retryableText"
    "entryOf retryableText GOAL_RETRYABLE_REASONS" "hasKey retryableText GOAL_RETRYABLE_REASONS"
    anyEntry
  by (rule keyed_text_codec [OF inj_texts(5) all_entries(5)])

interpretation errorKind: decoder "entryText errorKindText"
    "entryOf errorKindText VALIDATOR_ERROR_KINDS" "hasKey errorKindText VALIDATOR_ERROR_KINDS"
    anyEntry
  by (rule keyed_text_codec [OF inj_texts(6) all_entries(6)])

definition jsonOk :: "json \<Rightarrow> bool" where
  "jsonOk j \<longleftrightarrow> isJsonValue (ofJson j) 0"

lemma ofJson_asJson: "isJsonValue v d \<Longrightarrow> ofJson (asJson v) = v"
proof (induction v arbitrary: d)
  case (JArr vs)
  then show ?case
    by (subst (asm) isJsonValue.simps) (auto simp: list_all_iff intro!: map_idI split: if_split_asm)
next
  case (JObj fs)
  have inner: "list_all (\<lambda>item. isJsonValue item (d + 1)) (map snd fs)"
    using JObj.prems by (subst (asm) isJsonValue.simps) (simp split: if_split_asm)
  have "map_prod id ofJson (map_prod id asJson f) = f" if f: "f \<in> set fs" for f
  proof -
    have "isJsonValue (snd f) (d + 1)" using inner f by (auto simp: list_all_iff)
    then have "ofJson (asJson (snd f)) = snd f" using JObj.IH [OF f] by (cases f) auto
    then show ?thesis by (cases f) simp
  qed
  then show ?case by (simp add: map_idI)
qed (subst (asm) isJsonValue.simps, simp split: if_split_asm)+

interpretation json: decoder ofJson asJson "\<lambda>v. isJsonValue v 0" jsonOk
  by unfold_locales (simp_all add: jsonOk_def ofJson_asJson)

subsection \<open>Identities, objectives, usage and markers\<close>

definition enc_identity :: "goal_identity \<Rightarrow> jsval" where
  "enc_identity i = obj [(''name'', Some (JStr (id_name i))), (''version'', Some (JStr (id_version i)))]"

definition as_identity :: "jsval \<Rightarrow> goal_identity" where
  "as_identity v =
     \<lparr>id_name = asString (jget v ''name''), id_version = asString (jget v ''version'')\<rparr>"

definition ok_identity :: "goal_identity \<Rightarrow> bool" where
  "ok_identity i \<longleftrightarrow> nonEmpty (id_name i) \<and> nonEmpty (id_version i)"

interpretation identity: decoder enc_identity as_identity isValidatorIdentity ok_identity
  by unfold_locales
    (simp_all add: enc_identity_def as_identity_def isValidatorIdentity_def ok_identity_def json_simps)

lemma isIdentity_eq: "isIdentity = isValidatorIdentity"
  by (simp add: fun_eq_iff isIdentity_def isValidatorIdentity_def)

definition enc_objective :: "objective \<Rightarrow> jsval" where
  "enc_objective ob =
     obj [(''agentName'', Some (JStr (ob_agentName ob))), (''prompt'', Some (JStr (ob_prompt ob))),
          (''instructions'', map_option JStr (ob_instructions ob))]"

definition as_objective :: "jsval \<Rightarrow> objective" where
  "as_objective v =
     \<lparr>ob_agentName = asString (jget v ''agentName''), ob_prompt = asString (jget v ''prompt''),
      ob_instructions = asOption asString (jget v ''instructions'')\<rparr>"

definition ok_objective :: "objective \<Rightarrow> bool" where
  "ok_objective ob \<longleftrightarrow>
     nonEmpty (ob_agentName ob)
     \<and> objectiveByteLength (ob_prompt ob) (ob_instructions ob) \<le> GOAL_OBJECTIVE_MAXIMUM_BYTES"

interpretation objective: decoder enc_objective as_objective isObjective ok_objective
proof unfold_locales
  show "isObjective (enc_objective x) = ok_objective x" for x
    by (cases "ob_instructions x")
      (simp_all add: enc_objective_def isObjective_def ok_objective_def json_simps isOptionalString_def)
  show "ok_objective (as_objective v)" if "isObjective v" for v
    using that by (simp add: isObjective_def ok_objective_def as_objective_def)
qed (simp_all add: enc_objective_def as_objective_def json_simps)

definition enc_attempt_usage :: "attempt_usage \<Rightarrow> jsval" where
  "enc_attempt_usage u =
     obj [(''steps'', Some (JNum (au_steps u))), (''tokens'', Some (JNum (au_tokens u))),
          (''costUsd'', map_option JNum (au_costUsd u))]"

definition as_attempt_usage :: "jsval \<Rightarrow> attempt_usage" where
  "as_attempt_usage v =
     \<lparr>au_steps = asNumber (jget v ''steps''), au_tokens = asNumber (jget v ''tokens''),
      au_costUsd = asOption asNumber (jget v ''costUsd'')\<rparr>"

definition ok_attempt_usage :: "attempt_usage \<Rightarrow> bool" where
  "ok_attempt_usage u \<longleftrightarrow>
     nonNegative (au_steps u) \<and> nonNegative (au_tokens u) \<and> pred_option nonNegative (au_costUsd u)"

interpretation attemptUsage: decoder enc_attempt_usage as_attempt_usage isAttemptUsage ok_attempt_usage
  by unfold_locales
    (simp_all add: enc_attempt_usage_def as_attempt_usage_def isAttemptUsage_def ok_attempt_usage_def
      isOptionalNonNegativeNumber_def json_simps)

definition enc_usage :: "goal_usage \<Rightarrow> jsval" where
  "enc_usage u =
     obj [(''attempts'', Some (enc_nat (u_attempts u))), (''steps'', Some (JNum (u_steps u))),
          (''tokens'', Some (JNum (u_tokens u))), (''costUsd'', map_option JNum (u_costUsd u)),
          (''durationMs'', Some (JNum (u_durationMs u)))]"

definition as_usage :: "jsval \<Rightarrow> goal_usage" where
  "as_usage v =
     \<lparr>u_attempts = asNat (jget v ''attempts''), u_steps = asNumber (jget v ''steps''),
      u_tokens = asNumber (jget v ''tokens''), u_costUsd = asOption asNumber (jget v ''costUsd''),
      u_durationMs = asNumber (jget v ''durationMs'')\<rparr>"

definition ok_usage :: "goal_usage \<Rightarrow> bool" where
  "ok_usage u \<longleftrightarrow>
     nonNegative (u_steps u) \<and> nonNegative (u_tokens u) \<and> pred_option nonNegative (u_costUsd u)
     \<and> nonNegative (u_durationMs u)"

interpretation usage: decoder enc_usage as_usage isUsage ok_usage
  by unfold_locales
    (simp_all add: enc_usage_def as_usage_def isUsage_def ok_usage_def
      isOptionalNonNegativeNumber_def json_simps)

definition enc_marker :: "cancellation_marker \<Rightarrow> jsval" where
  "enc_marker m =
     obj [(''requestedAt'', Some (JStr (cm_requestedAt m))),
          (''principal'', map_option JStr (cm_principal m)), (''reason'', map_option JStr (cm_reason m))]"

definition as_marker :: "jsval \<Rightarrow> cancellation_marker" where
  "as_marker v =
     \<lparr>cm_requestedAt = asString (jget v ''requestedAt''),
      cm_principal = asOption asString (jget v ''principal''),
      cm_reason = asOption asString (jget v ''reason'')\<rparr>"

definition ok_marker :: "cancellation_marker \<Rightarrow> bool" where
  "ok_marker m \<longleftrightarrow> isIsoTimestamp (cm_requestedAt m)"

lemma pred_option_any [simp]: "pred_option anyText x" "pred_option anyEntry y"
proof -
  show "pred_option anyText x" by (cases x) simp_all
  show "pred_option anyEntry y" by (cases y) simp_all
qed

interpretation marker: decoder enc_marker as_marker isCancellationMarker ok_marker
  by unfold_locales
    (simp_all add: enc_marker_def as_marker_def isCancellationMarker_def ok_marker_def
      isOptionalString_def json_simps)

subsection \<open>Validator outcomes\<close>

definition enc_error :: "json validator_error \<Rightarrow> jsval" where
  "enc_error e =
     obj [(''kind'', Some (entryText errorKindText (e_kind e))), (''code'', Some (JStr (e_code e))),
          (''message'', Some (JStr (e_message e))), (''cause'', map_option ofJson (e_cause e))]"

definition as_error :: "jsval \<Rightarrow> json validator_error" where
  "as_error v =
     \<lparr>e_kind = entryOf errorKindText VALIDATOR_ERROR_KINDS (jget v ''kind''),
      e_code = asString (jget v ''code''), e_message = asString (jget v ''message''),
      e_cause = asOption asJson (jget v ''cause'')\<rparr>"

definition ok_error :: "json validator_error \<Rightarrow> bool" where
  "ok_error e \<longleftrightarrow> pred_option jsonOk (e_cause e)"

lemma isErrorKind_eq:
  "list_ex (\<lambda>kind. JStr (lit (errorKindText kind)) = v) VALIDATOR_ERROR_KINDS
     = hasKey errorKindText VALIDATOR_ERROR_KINDS v"
  by (auto simp: hasKey_def list_ex_iff)

interpretation validatorError: decoder enc_error as_error isProjectedError ok_error
  by unfold_locales
    (simp_all add: enc_error_def as_error_def isProjectedError_def ok_error_def json_simps
      isErrorKind_eq split: if_split_asm)

definition enc_evidence :: "json evidence \<Rightarrow> jsval" where
  "enc_evidence ev =
     obj [(''source'', Some (JStr (ev_source ev))), (''detail'', Some (ofJson (ev_detail ev)))]"

definition as_evidence :: "jsval \<Rightarrow> json evidence" where
  "as_evidence v =
     \<lparr>ev_source = asString (jget v ''source''), ev_detail = asJson (jget v ''detail'')\<rparr>"

definition ok_evidence :: "json evidence \<Rightarrow> bool" where
  "ok_evidence ev \<longleftrightarrow> jsonOk (ev_detail ev)"

interpretation evidence: decoder enc_evidence as_evidence isProjectedEvidence ok_evidence
  by unfold_locales
    (simp_all add: enc_evidence_def as_evidence_def isProjectedEvidence_def ok_evidence_def json_simps)

definition enc_evidences :: "json evidence list \<Rightarrow> jsval" where
  "enc_evidences evs = JArr (map enc_evidence evs)"

definition as_evidences :: "jsval \<Rightarrow> json evidence list" where
  "as_evidences v = map as_evidence (asArray v)"

interpretation evidences: decoder enc_evidences as_evidences isEvidenceList "list_all ok_evidence"
  by unfold_locales
    (simp_all add: enc_evidences_def as_evidences_def isEvidenceList_def list.pred_map)

fun enc_outcome :: "json outcome \<Rightarrow> jsval" where
  "enc_outcome (Pass evs) =
     obj [(''kind'', Some (JStr (lit ''pass''))), (''evidence'', Some (enc_evidences evs))]"
| "enc_outcome (FailVerdict feedback evs retryable) =
     obj [(''kind'', Some (JStr (lit ''fail''))), (''feedback'', Some (JStr feedback)),
          (''evidence'', Some (enc_evidences evs)), (''retryable'', Some (JBool retryable))]"
| "enc_outcome (ErrorOutcome e) =
     obj [(''kind'', Some (JStr (lit ''error''))), (''error'', Some (enc_error e))]"
| "enc_outcome (Unavailable e reason) =
     obj [(''kind'', Some (JStr (lit ''unavailable''))), (''error'', Some (enc_error e)),
          (''reason'', Some (JStr reason))]"
| "enc_outcome CanceledOutcome = obj [(''kind'', Some (JStr (lit ''canceled'')))]"
| "enc_outcome (Indeterminate reason) =
     obj [(''kind'', Some (JStr (lit ''indeterminate''))), (''reason'', Some (JStr reason))]"

definition as_outcome :: "jsval \<Rightarrow> json outcome" where
  "as_outcome v =
     (let kind = jget v ''kind''
      in if kind = JStr (lit ''pass'') then Pass (as_evidences (jget v ''evidence''))
         else if kind = JStr (lit ''fail'') then
           FailVerdict (asString (jget v ''feedback'')) (as_evidences (jget v ''evidence''))
             (asBoolean (jget v ''retryable''))
         else if kind = JStr (lit ''error'') then ErrorOutcome (as_error (jget v ''error''))
         else if kind = JStr (lit ''unavailable'') then
           Unavailable (as_error (jget v ''error'')) (asString (jget v ''reason''))
         else if kind = JStr (lit ''canceled'') then CanceledOutcome
         else Indeterminate (asString (jget v ''reason'')))"

fun ok_outcome :: "json outcome \<Rightarrow> bool" where
  "ok_outcome (Pass evs) = list_all ok_evidence evs"
| "ok_outcome (FailVerdict _ evs _) = list_all ok_evidence evs"
| "ok_outcome (ErrorOutcome e) = ok_error e"
| "ok_outcome (Unavailable e _) = ok_error e"
| "ok_outcome CanceledOutcome = True"
| "ok_outcome (Indeterminate _) = True"

interpretation outcome: decoder enc_outcome as_outcome isProjectedValidatorOutcome ok_outcome
proof unfold_locales
  show "as_outcome (enc_outcome x) = x" for x
    by (cases x) (simp_all add: as_outcome_def json_simps)
  show "isProjectedValidatorOutcome (enc_outcome x) = ok_outcome x" for x
    by (cases x) (simp_all add: isProjectedValidatorOutcome_def json_simps)
  show "enc_outcome x \<noteq> JUndef" for x by (cases x) simp_all
  show "ok_outcome (as_outcome v)" if "isProjectedValidatorOutcome v" for v
    using that evidences.reads
    by (auto simp: isProjectedValidatorOutcome_def as_outcome_def Let_def split: if_split_asm)
qed

definition enc_validation :: "validation \<Rightarrow> jsval" where
  "enc_validation vl =
     obj [(''identity'', Some (enc_identity (vl_identity vl))),
          (''startedAt'', Some (JStr (vl_startedAt vl))),
          (''completedAt'', Some (JStr (vl_completedAt vl))),
          (''outcome'', Some (enc_outcome (vl_outcome vl))),
          (''decisionId'', Some (JStr (vl_decisionId vl)))]"

definition as_validation :: "jsval \<Rightarrow> validation" where
  "as_validation v =
     \<lparr>vl_identity = as_identity (jget v ''identity''), vl_startedAt = asString (jget v ''startedAt''),
      vl_completedAt = asString (jget v ''completedAt''),
      vl_outcome = as_outcome (jget v ''outcome''),
      vl_decisionId = asString (jget v ''decisionId'')\<rparr>"

definition ok_validation :: "validation \<Rightarrow> bool" where
  "ok_validation vl \<longleftrightarrow>
     ok_identity (vl_identity vl) \<and> isIsoTimestamp (vl_startedAt vl)
     \<and> isIsoTimestamp (vl_completedAt vl) \<and> ok_outcome (vl_outcome vl)
     \<and> nonEmpty (vl_decisionId vl)"

interpretation validation: decoder enc_validation as_validation isValidation ok_validation
  by unfold_locales
    (simp_all add: enc_validation_def as_validation_def isValidation_def ok_validation_def json_simps)

subsection \<open>Attempts and the work in flight\<close>

definition enc_attempt :: "goal_attempt \<Rightarrow> jsval" where
  "enc_attempt a =
     obj [(''attemptId'', Some (JStr (a_attemptId a))),
          (''attemptIndex'', Some (enc_nat (a_attemptIndex a))),
          (''runId'', Some (JStr (a_runId a))), (''sessionId'', Some (JStr (a_sessionId a))),
          (''startedAt'', Some (JStr (a_startedAt a))),
          (''completedAt'', map_option JStr (a_completedAt a)),
          (''finishReason'', map_option (entryText finishReasonText) (a_finishReason a)),
          (''validation'', map_option enc_validation (a_validation a)),
          (''feedback'', map_option JStr (a_feedback a)),
          (''usage'', Some (enc_attempt_usage (a_usage a))),
          (''status'', Some (entryText attemptStatusText (a_status a)))]"

definition as_attempt :: "jsval \<Rightarrow> goal_attempt" where
  "as_attempt v =
     \<lparr>a_attemptId = asString (jget v ''attemptId''),
      a_attemptIndex = asNat (jget v ''attemptIndex''), a_runId = asString (jget v ''runId''),
      a_sessionId = asString (jget v ''sessionId''), a_startedAt = asString (jget v ''startedAt''),
      a_completedAt = asOption asString (jget v ''completedAt''),
      a_finishReason =
        asOption (entryOf finishReasonText FINISH_REASONS) (jget v ''finishReason''),
      a_feedback = asOption asString (jget v ''feedback''),
      a_usage = as_attempt_usage (jget v ''usage''),
      a_status = entryOf attemptStatusText ATTEMPT_STATUSES (jget v ''status''),
      a_validation = asOption as_validation (jget v ''validation'')\<rparr>"

definition ok_attempt :: "goal_attempt \<Rightarrow> bool" where
  "ok_attempt a \<longleftrightarrow>
     nonEmpty (a_attemptId a) \<and> nonEmpty (a_runId a) \<and> nonEmpty (a_sessionId a)
     \<and> isIsoTimestamp (a_startedAt a) \<and> pred_option isIsoTimestamp (a_completedAt a)
     \<and> pred_option ok_validation (a_validation a) \<and> ok_attempt_usage (a_usage a)"

interpretation attempt: decoder enc_attempt as_attempt isDurableGoalAttempt ok_attempt
  by unfold_locales
    (simp_all add: enc_attempt_def as_attempt_def isDurableGoalAttempt_def ok_attempt_def
      ATTEMPT_KEYS_def isOptionalTimestamp_def isOptionalString_def json_simps split: if_split_asm)

fun enc_active :: "active_work \<Rightarrow> jsval" where
  "enc_active (AttemptWork attemptId runId startedAt) =
     obj [(''kind'', Some (JStr (lit ''attempt''))), (''attemptId'', Some (JStr attemptId)),
          (''runId'', Some (JStr runId)), (''startedAt'', Some (JStr startedAt))]"
| "enc_active (ValidationWork attemptId validator startedAt) =
     obj [(''kind'', Some (JStr (lit ''validation''))), (''attemptId'', Some (JStr attemptId)),
          (''validator'', Some (enc_identity validator)), (''startedAt'', Some (JStr startedAt))]"

definition as_active :: "jsval \<Rightarrow> active_work" where
  "as_active v =
     (if jget v ''kind'' = JStr (lit ''attempt'') then
        AttemptWork (asString (jget v ''attemptId'')) (asString (jget v ''runId''))
          (asString (jget v ''startedAt''))
      else
        ValidationWork (asString (jget v ''attemptId'')) (as_identity (jget v ''validator''))
          (asString (jget v ''startedAt'')))"

fun ok_active :: "active_work \<Rightarrow> bool" where
  "ok_active (AttemptWork attemptId runId startedAt) =
     (nonEmpty attemptId \<and> nonEmpty runId \<and> isIsoTimestamp startedAt)"
| "ok_active (ValidationWork attemptId validator startedAt) =
     (nonEmpty attemptId \<and> ok_identity validator \<and> isIsoTimestamp startedAt)"

interpretation active: decoder enc_active as_active isActiveWork ok_active
proof unfold_locales
  show "as_active (enc_active x) = x" for x
    by (cases x) (simp_all add: as_active_def json_simps)
  show "isActiveWork (enc_active x) = ok_active x" for x
    by (cases x) (simp_all add: isActiveWork_def json_simps)
  show "enc_active x \<noteq> JUndef" for x by (cases x) simp_all
  show "ok_active (as_active v)" if "isActiveWork v" for v
    using that by (simp add: isActiveWork_def as_active_def split: if_split_asm)
qed

subsection \<open>Transitions and the audit log\<close>

definition enc_transition :: "transition_record \<Rightarrow> jsval" where
  "enc_transition t =
     obj [(''seq'', Some (enc_nat (tr_seq t))), (''transitionId'', Some (JStr (tr_transitionId t))),
          (''from'', Some (entryText statusText (tr_from t))),
          (''to'', Some (entryText statusText (tr_to t))), (''at'', Some (JStr (tr_at t))),
          (''cause'', Some (JStr (tr_cause t)))]"

definition as_transition :: "jsval \<Rightarrow> transition_record" where
  "as_transition v =
     \<lparr>tr_seq = asNat (jget v ''seq''), tr_transitionId = asString (jget v ''transitionId''),
      tr_from = entryOf statusText GOAL_STATUSES (jget v ''from''),
      tr_to = entryOf statusText GOAL_STATUSES (jget v ''to''),
      tr_at = asString (jget v ''at''), tr_cause = asString (jget v ''cause'')\<rparr>"

definition ok_transition :: "transition_record \<Rightarrow> bool" where
  "ok_transition t \<longleftrightarrow> nonEmpty (tr_transitionId t) \<and> isIsoTimestamp (tr_at t)"

interpretation transition: decoder enc_transition as_transition isTransitionRecord ok_transition
  by unfold_locales
    (simp_all add: enc_transition_def as_transition_def isTransitionRecord_def ok_transition_def
      json_simps)

definition enc_event :: "audit_event \<Rightarrow> jsval" where
  "enc_event e =
     obj [(''kind'', Some (JStr (ae_kind e))), (''payload'', Some (ofJson (ae_payload e))),
          (''dedupeKey'', Some (JStr (ae_dedupeKey e))), (''at'', Some (JStr (ae_at e)))]"

definition as_event :: "jsval \<Rightarrow> audit_event" where
  "as_event v =
     \<lparr>ae_kind = asString (jget v ''kind''), ae_payload = asJson (jget v ''payload''),
      ae_dedupeKey = asString (jget v ''dedupeKey''), ae_at = asString (jget v ''at'')\<rparr>"

definition ok_event :: "audit_event \<Rightarrow> bool" where
  "ok_event e \<longleftrightarrow>
     nonEmpty (ae_kind e) \<and> isPlainRecord (ofJson (ae_payload e)) \<and> jsonOk (ae_payload e)
     \<and> nonEmpty (ae_dedupeKey e) \<and> isIsoTimestamp (ae_at e)"

interpretation event: decoder enc_event as_event isAuditEvent ok_event
  by unfold_locales
    (simp_all add: enc_event_def as_event_def isAuditEvent_def ok_event_def json_simps
      ofJson_asJson [where d = 0])

definition enc_entry :: "audit_entry \<Rightarrow> jsval" where
  "enc_entry en =
     obj [(''seq'', Some (enc_nat (en_seq en))), (''transitionId'', Some (JStr (en_transitionId en))),
          (''events'', Some (JArr (map enc_event (en_events en))))]"

definition as_entry :: "jsval \<Rightarrow> audit_entry" where
  "as_entry v =
     \<lparr>en_seq = asNat (jget v ''seq''), en_transitionId = asString (jget v ''transitionId''),
      en_events = map as_event (asArray (jget v ''events''))\<rparr>"

definition ok_entry :: "audit_entry \<Rightarrow> bool" where
  "ok_entry en \<longleftrightarrow> nonEmpty (en_transitionId en) \<and> list_all ok_event (en_events en)"

interpretation entry: decoder enc_entry as_entry isAuditEntry ok_entry
  by unfold_locales
    (simp_all add: enc_entry_def as_entry_def isAuditEntry_def ok_entry_def json_simps list.pred_map)

subsection \<open>The budget and the policies\<close>

definition enc_budget :: "goal_budget \<Rightarrow> jsval" where
  "enc_budget b =
     obj [(''maximumAttempts'', Some (JNum (b_maximumAttempts b))),
          (''maximumTotalDurationMs'', map_option JNum (b_maximumTotalDurationMs b)),
          (''maximumTotalSteps'', map_option JNum (b_maximumTotalSteps b)),
          (''maximumTotalTokens'', map_option JNum (b_maximumTotalTokens b)),
          (''maximumTotalCostUsd'', map_option JNum (b_maximumTotalCostUsd b))]"

definition as_budget :: "jsval \<Rightarrow> goal_budget" where
  "as_budget v =
     \<lparr>b_maximumAttempts = asNumber (jget v ''maximumAttempts''),
      b_maximumTotalDurationMs = asOption asNumber (jget v ''maximumTotalDurationMs''),
      b_maximumTotalSteps = asOption asNumber (jget v ''maximumTotalSteps''),
      b_maximumTotalTokens = asOption asNumber (jget v ''maximumTotalTokens''),
      b_maximumTotalCostUsd = asOption asNumber (jget v ''maximumTotalCostUsd'')\<rparr>"

definition ok_budget :: "goal_budget \<Rightarrow> bool" where
  "ok_budget b \<longleftrightarrow>
     jisInteger (b_maximumAttempts b) \<and> \<not> jle (b_maximumAttempts b) (Fin 0)
     \<and> jle (b_maximumAttempts b) (jnat GOAL_MAXIMUM_ATTEMPTS)
     \<and> pred_option positive (b_maximumTotalDurationMs b)
     \<and> pred_option positive (b_maximumTotalSteps b)
     \<and> pred_option positive (b_maximumTotalTokens b)
     \<and> pred_option positive (b_maximumTotalCostUsd b)
     \<and> \<not> (b_maximumTotalDurationMs b = None \<and> b_maximumTotalSteps b = None
        \<and> b_maximumTotalTokens b = None \<and> b_maximumTotalCostUsd b = None)"

lemma positive_bound:
  "x = None \<or> (\<exists>r. optional JNum x = JNum (Fin r) \<and> 0 < r) \<longleftrightarrow> pred_option positive x"
  by (cases x) (auto simp: positive_def jisFinite_iff)

lemma passes_iff: "passes r \<longleftrightarrow> r = Inr ()"
  by (simp add: passes_def split: sum.split)

interpretation budget: decoder enc_budget as_budget isBounds ok_budget
proof unfold_locales
  fix b
  show "as_budget (enc_budget b) = b"
    by (simp add: as_budget_def enc_budget_def json_simps)
  show "enc_budget b \<noteq> JUndef" by (simp add: enc_budget_def)
  have k: "jget (enc_budget b) ''maximumAttempts'' = JNum (b_maximumAttempts b)"
    "jget (enc_budget b) ''maximumTotalDurationMs'' = optional JNum (b_maximumTotalDurationMs b)"
    "jget (enc_budget b) ''maximumTotalSteps'' = optional JNum (b_maximumTotalSteps b)"
    "jget (enc_budget b) ''maximumTotalTokens'' = optional JNum (b_maximumTotalTokens b)"
    "jget (enc_budget b) ''maximumTotalCostUsd'' = optional JNum (b_maximumTotalCostUsd b)"
    by (simp_all add: enc_budget_def json_simps)
  have bounds: "aggregateBoundsOk (enc_budget b) \<longleftrightarrow>
      pred_option positive (b_maximumTotalDurationMs b) \<and> pred_option positive (b_maximumTotalSteps b)
     \<and> pred_option positive (b_maximumTotalTokens b) \<and> pred_option positive (b_maximumTotalCostUsd b)
     \<and> \<not> (b_maximumTotalDurationMs b = None \<and> b_maximumTotalSteps b = None
        \<and> b_maximumTotalTokens b = None \<and> b_maximumTotalCostUsd b = None)"
    unfolding aggregateBoundsOk_def AGGREGATE_BOUND_KEYS_def
    by (simp add: k positive_bound)
  have attempts: "(\<exists>n. JNum m = JNum (jnat n) \<and> 0 < n) \<longleftrightarrow> jisInteger m \<and> \<not> jle m (Fin 0)" for m
    using isPositiveInteger_iff [of "JNum m"] by (simp add: isPositiveInteger_def)
  have "isPlainRecord (enc_budget b)" "hasExactKeys (enc_budget b) BOUNDS_KEYS"
    by (simp_all add: enc_budget_def BOUNDS_KEYS_def json_simps)
  then show "isBounds (enc_budget b) = ok_budget b"
    by (auto simp: isBounds_def ok_budget_def passes_iff validateBudget_iff k bounds attempts
        simp del: jsval.inject)
next
  fix v
  assume "isBounds v"
  then obtain n where n: "jget v ''maximumAttempts'' = JNum (jnat n)" "0 < n" "n \<le> GOAL_MAXIMUM_ATTEMPTS"
    and b: "aggregateBoundsOk v"
    by (auto simp: isBounds_def passes_iff validateBudget_iff split: if_split_asm)
  have "jget v k = JUndef \<or> (\<exists>r. jget v k = JNum (Fin r) \<and> 0 < r) \<Longrightarrow>
      pred_option positive (asOption asNumber (jget v k))" for k
    by (auto simp: positive_def)
  with b n show "ok_budget (as_budget v)"
    by (auto simp: aggregateBoundsOk_def AGGREGATE_BOUND_KEYS_def ok_budget_def as_budget_def jnat_def
        asOption_def split: if_split_asm)
qed

definition enc_retryPolicy :: "retryable_reason list \<Rightarrow> jsval" where
  "enc_retryPolicy rs = obj [(''retryOn'', Some (JArr (map (entryText retryableText) rs)))]"

definition as_retryPolicy :: "jsval \<Rightarrow> retryable_reason list" where
  "as_retryPolicy v =
     map (entryOf retryableText GOAL_RETRYABLE_REASONS) (asArray (jget v ''retryOn''))"

definition ok_retryPolicy :: "retryable_reason list \<Rightarrow> bool" where
  "ok_retryPolicy rs \<longleftrightarrow> rs \<noteq> []"

interpretation retryPolicy: decoder enc_retryPolicy as_retryPolicy isRetryPolicy ok_retryPolicy
proof unfold_locales
  fix rs
  show "as_retryPolicy (enc_retryPolicy rs) = rs"
    by (simp add: as_retryPolicy_def enc_retryPolicy_def json_simps)
  show "enc_retryPolicy rs \<noteq> JUndef" by (simp add: enc_retryPolicy_def)
  have "jget (enc_retryPolicy rs) ''retryOn'' = JArr (map (entryText retryableText) rs)"
    by (simp add: enc_retryPolicy_def json_simps)
  then show "isRetryPolicy (enc_retryPolicy rs) = ok_retryPolicy rs"
    by (auto simp: isRetryPolicy_def ok_retryPolicy_def passes_iff validateRetryPolicy_iff
        entryText_def [abs_def] enc_retryPolicy_def json_simps)
next
  fix v
  assume "isRetryPolicy v"
  then show "ok_retryPolicy (as_retryPolicy v)"
    by (auto simp: isRetryPolicy_def passes_iff validateRetryPolicy_iff ok_retryPolicy_def as_retryPolicy_def)
qed

fun enc_policy :: "goal_conversation_policy \<Rightarrow> jsval" where
  "enc_policy Continue = obj [(''kind'', Some (JStr (lit ''continue'')))]"
| "enc_policy (ForkFromBaseline throughRun) =
     obj [(''kind'', Some (JStr (lit ''fork-from-baseline''))), (''throughRun'', Some (JNum throughRun))]"
| "enc_policy (FreshFromArtifact artifact) =
     obj [(''kind'', Some (JStr (lit ''fresh-from-artifact''))), (''artifact'', Some (ofJson artifact))]"

definition as_policy :: "jsval \<Rightarrow> goal_conversation_policy" where
  "as_policy v =
     (if jget v ''kind'' = JStr (lit ''continue'') then Continue
      else if jget v ''kind'' = JStr (lit ''fork-from-baseline'') then
        ForkFromBaseline (asNumber (jget v ''throughRun''))
      else FreshFromArtifact (asJson (jget v ''artifact'')))"

fun ok_policy :: "platform \<Rightarrow> jstr option \<Rightarrow> goal_conversation_policy \<Rightarrow> bool" where
  "ok_policy p instructions Continue = True"
| "ok_policy p instructions (ForkFromBaseline throughRun) =
     (jisInteger throughRun \<and> jle (Fin 0) throughRun)"
| "ok_policy p instructions (FreshFromArtifact artifact) =
     (artifactOk p (ofJson artifact) \<and> withDefault [] instructions \<noteq> [])"

interpretation policy: codec enc_policy as_policy
    "\<lambda>v. isConversationPolicy p v (optional JStr instructions)" "ok_policy p instructions"
  for p instructions
proof unfold_locales
  fix c
  show "as_policy (enc_policy c) = c" by (cases c) (simp_all add: as_policy_def json_simps)
  show "enc_policy c \<noteq> JUndef" by (cases c) simp_all
  have n: "(\<exists>k. m = jnat k) \<longleftrightarrow> jisInteger m \<and> jle (Fin 0) m" for m
    using isNonNegativeIntegerValue_iff [of "JNum m"] by (simp add: isNonNegativeIntegerValue_def)
  show "isConversationPolicy p (enc_policy c) (optional JStr instructions) = ok_policy p instructions c"
    by (cases c; cases instructions)
      (simp_all add: isConversationPolicy_def passes_iff validateConversationPolicy_iff
        conversationPolicyOk_def json_simps n)
qed

subsection \<open>The whole record\<close>

definition state_members :: "goal_state \<Rightarrow> (string \<times> jsval option) list" where
  "state_members s =
     [(''schemaVersion'', Some (enc_nat GOAL_STATE_SCHEMA_VERSION)),
          (''goalRunId'', Some (JStr (s_goalRunId s))),
          (''workflowId'', Some (JStr (s_workflowId s))),
          (''revision'', Some (enc_nat (s_revision s))),
          (''transitionSeq'', Some (enc_nat (s_transitionSeq s))),
          (''identity'', Some (enc_identity (s_identity s))),
          (''objective'', Some (enc_objective (s_objective s))),
          (''validator'', Some (enc_identity (s_validator s))),
          (''requireDeterministicValidation'', Some (JBool (s_requireDeterministicValidation s))),
          (''validatorTimeoutMs'', map_option JNum (s_validatorTimeoutMs s)),
          (''conversationPolicy'', Some (enc_policy (s_conversationPolicy s))),
          (''retryPolicy'', map_option enc_retryPolicy (s_retryPolicy s)),
          (''bounds'', Some (enc_budget (s_bounds s))),
          (''principal'', map_option JStr (s_principal s)),
          (''status'', Some (entryText statusText (s_status s))),
          (''terminalReason'', map_option (entryText reasonText) (s_terminalReason s)),
          (''failureDetail'', map_option JStr (s_failureDetail s)),
          (''currentTransition'', Some (enc_transition (s_currentTransition s))),
          (''attempts'', Some (JArr (map enc_attempt (s_attempts s)))),
          (''usage'', Some (enc_usage (s_usage s))),
          (''active'', map_option enc_active (s_active s)),
          (''cancellation'', map_option enc_marker (s_cancellation s)),
          (''controllerRestarts'', Some (enc_nat (s_controllerRestarts s))),
          (''auditLog'', Some (JArr (map enc_entry (s_auditLog s)))),
          (''closedAt'', map_option JStr (s_closedAt s)),
          (''cleanedUpAt'', map_option JStr (s_cleanedUpAt s)),
          (''createdAt'', Some (JStr (s_createdAt s))), (''updatedAt'', Some (JStr (s_updatedAt s)))]"

definition enc_state :: "goal_state \<Rightarrow> jsval" where
  "enc_state s = obj (state_members s)"

lemma jget_enc_state [json_simps]:
  "jget (enc_state s) ''schemaVersion'' = enc_nat GOAL_STATE_SCHEMA_VERSION"
  "jget (enc_state s) ''goalRunId'' = JStr (s_goalRunId s)"
  "jget (enc_state s) ''workflowId'' = JStr (s_workflowId s)"
  "jget (enc_state s) ''revision'' = enc_nat (s_revision s)"
  "jget (enc_state s) ''transitionSeq'' = enc_nat (s_transitionSeq s)"
  "jget (enc_state s) ''identity'' = enc_identity (s_identity s)"
  "jget (enc_state s) ''objective'' = enc_objective (s_objective s)"
  "jget (enc_state s) ''validator'' = enc_identity (s_validator s)"
  "jget (enc_state s) ''requireDeterministicValidation'' = JBool (s_requireDeterministicValidation s)"
  "jget (enc_state s) ''validatorTimeoutMs'' = optional JNum (s_validatorTimeoutMs s)"
  "jget (enc_state s) ''conversationPolicy'' = enc_policy (s_conversationPolicy s)"
  "jget (enc_state s) ''retryPolicy'' = optional enc_retryPolicy (s_retryPolicy s)"
  "jget (enc_state s) ''bounds'' = enc_budget (s_bounds s)"
  "jget (enc_state s) ''principal'' = optional JStr (s_principal s)"
  "jget (enc_state s) ''status'' = entryText statusText (s_status s)"
  "jget (enc_state s) ''terminalReason'' = optional (entryText reasonText) (s_terminalReason s)"
  "jget (enc_state s) ''failureDetail'' = optional JStr (s_failureDetail s)"
  "jget (enc_state s) ''currentTransition'' = enc_transition (s_currentTransition s)"
  "jget (enc_state s) ''attempts'' = JArr (map enc_attempt (s_attempts s))"
  "jget (enc_state s) ''usage'' = enc_usage (s_usage s)"
  "jget (enc_state s) ''active'' = optional enc_active (s_active s)"
  "jget (enc_state s) ''cancellation'' = optional enc_marker (s_cancellation s)"
  "jget (enc_state s) ''controllerRestarts'' = enc_nat (s_controllerRestarts s)"
  "jget (enc_state s) ''auditLog'' = JArr (map enc_entry (s_auditLog s))"
  "jget (enc_state s) ''closedAt'' = optional JStr (s_closedAt s)"
  "jget (enc_state s) ''cleanedUpAt'' = optional JStr (s_cleanedUpAt s)"
  "jget (enc_state s) ''createdAt'' = JStr (s_createdAt s)"
  "jget (enc_state s) ''updatedAt'' = JStr (s_updatedAt s)"
  unfolding enc_state_def jget_obj by (simp_all add: state_members_def json_simps)

definition as_state :: "jsval \<Rightarrow> goal_state" where
  "as_state v =
     \<lparr>s_goalRunId = asString (jget v ''goalRunId''),
      s_workflowId = asString (jget v ''workflowId''), s_revision = asNat (jget v ''revision''),
      s_transitionSeq = asNat (jget v ''transitionSeq''),
      s_identity = as_identity (jget v ''identity''),
      s_objective = as_objective (jget v ''objective''),
      s_validator = as_identity (jget v ''validator''),
      s_requireDeterministicValidation = asBoolean (jget v ''requireDeterministicValidation''),
      s_validatorTimeoutMs = asOption asNumber (jget v ''validatorTimeoutMs''),
      s_conversationPolicy = as_policy (jget v ''conversationPolicy''),
      s_retryPolicy = asOption as_retryPolicy (jget v ''retryPolicy''),
      s_bounds = as_budget (jget v ''bounds''),
      s_principal = asOption asString (jget v ''principal''),
      s_status = entryOf statusText GOAL_STATUSES (jget v ''status''),
      s_terminalReason = asOption (entryOf reasonText TERMINAL_REASONS) (jget v ''terminalReason''),
      s_failureDetail = asOption asString (jget v ''failureDetail''),
      s_currentTransition = as_transition (jget v ''currentTransition''),
      s_attempts = map as_attempt (asArray (jget v ''attempts'')),
      s_usage = as_usage (jget v ''usage''),
      s_active = asOption as_active (jget v ''active''),
      s_cancellation = asOption as_marker (jget v ''cancellation''),
      s_controllerRestarts = asNat (jget v ''controllerRestarts''),
      s_auditLog = map as_entry (asArray (jget v ''auditLog'')),
      s_closedAt = asOption asString (jget v ''closedAt''),
      s_cleanedUpAt = asOption asString (jget v ''cleanedUpAt''),
      s_createdAt = asString (jget v ''createdAt''),
      s_updatedAt = asString (jget v ''updatedAt'')\<rparr>"

definition ok_state :: "platform \<Rightarrow> goal_state \<Rightarrow> bool" where
  "ok_state p s \<longleftrightarrow>
     nonEmpty (s_goalRunId s) \<and> isWellFormed (s_goalRunId s) \<and> nonEmpty (s_workflowId s)
     \<and> 1 \<le> s_revision s
     \<and> ok_identity (s_identity s) \<and> ok_objective (s_objective s) \<and> ok_identity (s_validator s)
     \<and> pred_option positive (s_validatorTimeoutMs s)
     \<and> ok_policy p (ob_instructions (s_objective s)) (s_conversationPolicy s)
     \<and> pred_option ok_retryPolicy (s_retryPolicy s) \<and> ok_budget (s_bounds s)
     \<and> ok_transition (s_currentTransition s)
     \<and> list_all ok_attempt (s_attempts s) \<and> ok_usage (s_usage s)
     \<and> pred_option ok_active (s_active s) \<and> pred_option ok_marker (s_cancellation s)
     \<and> list_all ok_entry (s_auditLog s)
     \<and> pred_option isIsoTimestamp (s_closedAt s) \<and> pred_option isIsoTimestamp (s_cleanedUpAt s)
     \<and> isIsoTimestamp (s_createdAt s) \<and> isIsoTimestamp (s_updatedAt s)"

lemma isRevision_enc [simp]: "isRevision (enc_nat n) \<longleftrightarrow> 1 \<le> n"
  by (auto simp: isRevision_def enc_nat_def jnat_def)

lemma isRecord_enc_state: "isPlainRecord (enc_state s)" "hasExactKeys (enc_state s) TOP_LEVEL_KEYS"
  unfolding enc_state_def hasExactKeys_obj by (simp_all add: state_members_def TOP_LEVEL_KEYS_def)

lemma as_state_enc [simp]: "as_state (enc_state s) = s"
  unfolding as_state_def jget_enc_state by simp

lemma isShape_enc [simp]: "isShape p (enc_state s) = ok_state p s"
proof -
  have "jget (enc_objective ob) ''instructions'' = optional JStr (ob_instructions ob)" for ob
    by (simp add: enc_objective_def json_simps)
  moreover have "enc_nat GOAL_STATE_SCHEMA_VERSION = JNum (jnat GOAL_STATE_SCHEMA_VERSION)"
    by (simp add: enc_nat_def)
  ultimately show ?thesis
    unfolding isShape_def jget_enc_state
    by (simp add: ok_state_def isOptionalString_def isOptionalTimestamp_def
        isIdentity_eq list.pred_map)
qed

subsection \<open>Reading parsed text\<close>

text \<open>What \<open>JSON.parse\<close> makes of a text has no \<open>undefined\<close> and no function anywhere.\<close>

primrec plainJson :: "jsval \<Rightarrow> bool" where
  "plainJson JUndef = False"
| "plainJson JNull = True"
| "plainJson (JBool _) = True"
| "plainJson (JNum _) = True"
| "plainJson (JStr _) = True"
| "plainJson (JArr vs) = list_all id (map plainJson vs)"
| "plainJson (JObj fs) = list_all snd (map (map_prod id plainJson) fs)"
| "plainJson (JFun _) = False"

lemma plainJson_read: "plainJson v \<Longrightarrow> ofJson (asJson v) = v"
proof (induction v)
  case (JArr vs)
  then show ?case by (simp add: list_all_iff map_idI)
next
  case (JObj fs)
  then have "map_prod id ofJson (map_prod id asJson f) = f" if "f \<in> set fs" for f
    using that by (cases f) (force simp: list_all_iff)
  then show ?case by (simp add: map_idI)
qed simp_all

lemma plainJson_member: "plainJson v \<Longrightarrow> jget v k = JUndef \<or> plainJson (jget v k)"
  by (cases v) (auto simp: jget_def list_all_iff dest!: map_of_SomeD split: option.split)

lemma plainJson_ofJson: "plainJson (ofJson j)"
  by (induction j) (auto simp: list_all_iff)

lemma policy_reads:
  assumes "isConversationPolicy p v (optional JStr i)" "plainJson v" "\<not> artifactOk p JUndef"
  shows "ok_policy p i (as_policy v)"
proof -
  have "ofJson (asJson (jget v ''artifact'')) = jget v ''artifact''"
    if "artifactOk p (jget v ''artifact'')"
    using that plainJson_member [OF assms(2), of "''artifact''"] assms(3) by (auto simp: plainJson_read)
  moreover have "withDefault [] i \<noteq> []" if "optional JStr i = JStr t" "t \<noteq> []" for t
    using that by (cases i) simp_all
  ultimately show ?thesis
    using assms(1)
    by (auto simp: isConversationPolicy_def as_policy_def passes_iff validateConversationPolicy_iff
        conversationPolicyOk_def jnat_def split: if_split_asm)
qed

lemma isShape_reads:
  assumes s: "isShape p v" and j: "plainJson v" and a: "\<not> artifactOk p JUndef"
  shows "ok_state p (as_state v)"
proof -
  let ?i = "jget (jget v ''objective'') ''instructions''"
  have "isOptionalString ?i" using s by (simp add: isShape_def isObjective_def)
  then have i: "optional JStr (asOption asString ?i) = ?i"
    by (cases ?i) (auto simp: isOptionalString_def)
  have "isConversationPolicy p (jget v ''conversationPolicy'') ?i" using s by (simp add: isShape_def)
  moreover from this have "plainJson (jget v ''conversationPolicy'')"
    using plainJson_member [OF j, of "''conversationPolicy''"] by (auto simp: isConversationPolicy_def)
  ultimately have pol: "ok_policy p (ob_instructions (as_objective (jget v ''objective'')))
      (as_policy (jget v ''conversationPolicy''))"
    using policy_reads [OF _ _ a] i by (metis as_objective_def objective.select_convs(3))
  have rev: "isRevision w \<Longrightarrow> 1 \<le> asNat w" for w
    by (auto simp: isRevision_def split: jsval.splits) (case_tac x4; simp; linarith)
  show ?thesis
    using s pol rev by (simp add: isShape_def ok_state_def as_state_def
        isIdentity_eq isOptionalTimestamp_def list.pred_map)
qed

end
