(* ===== verification/GoalConsistency.thy ===== *)
theory GoalConsistency
  imports GoalCodec
begin

section \<open>The internal consistency of a record\<close>

text \<open>
  The decoder of \<open>packages/bureau/src/goal-state.ts\<close>, part two: what the members of one record
  must agree on (\<open>isConsistent\<close> and the checks it calls, in the order of the source), and
  \<open>isGoalState\<close> / \<open>decodeGoalState\<close>. The source reads the members of an already shaped value
  through casts; here they are read from the typed record \<open>as_state\<close> those casts produce.
\<close>

subsection \<open>Audit events\<close>

fun TERMINAL_EVENT_KIND :: "goal_run_status \<Rightarrow> string option" where
  "TERMINAL_EVENT_KIND Succeeded = Some ''goal.succeeded''"
| "TERMINAL_EVENT_KIND Exhausted = Some ''goal.exhausted''"
| "TERMINAL_EVENT_KIND Failed = Some ''goal.failed''"
| "TERMINAL_EVENT_KIND Canceled = Some ''goal.canceled''"
| "TERMINAL_EVENT_KIND _ = None"

definition TRANSITION_EVENT_RANK :: "(string \<times> int) list" where
  "TRANSITION_EVENT_RANK =
     [(''goal.attempt.started'', 0), (''goal.attempt.validated'', 1), (''goal.succeeded'', 2),
      (''goal.exhausted'', 2), (''goal.failed'', 2), (''goal.canceled'', 2)]"

definition eventRank :: "jstr \<Rightarrow> int option" where
  "eventRank kind = map_of (map (\<lambda>(k, r). (lit k, r)) TRANSITION_EVENT_RANK) kind"

definition VALIDATOR_OUTCOME_KINDS :: "string list" where
  "VALIDATOR_OUTCOME_KINDS =
     [''pass'', ''fail'', ''error'', ''unavailable'', ''canceled'', ''indeterminate'']"

definition lastValidation :: "goal_state \<Rightarrow> validation option" where
  "lastValidation s = Option.bind (lastOf (s_attempts s)) a_validation"

fun outcomeError :: "'d outcome \<Rightarrow> 'd validator_error option" where
  "outcomeError (ErrorOutcome e) = Some e"
| "outcomeError (Unavailable e _) = Some e"
| "outcomeError _ = None"

definition expectedValidatorError :: "goal_state \<Rightarrow> json validator_error option" where
  "expectedValidatorError s =
     (if s_terminalReason s \<noteq> Some ValidatorInfrastructureError then None
      else Option.bind (lastValidation s) (\<lambda>v. outcomeError (vl_outcome v)))"

definition isAttemptStartedPayload :: "goal_state \<Rightarrow> jsval \<Rightarrow> bool" where
  "isAttemptStartedPayload s payload =
     (let keys = [''goalRunId'', ''attemptId'', ''attemptIndex'', ''runId'']
      in if \<not> hasAllKeys payload keys \<or> \<not> hasExactKeys payload keys then False
         else case (if isNonNegativeInteger (jget payload ''attemptIndex'')
                    then elementAt (s_attempts s) (asNat (jget payload ''attemptIndex'')) else None) of
             None \<Rightarrow> False
           | Some attempt \<Rightarrow>
               JStr (a_attemptId attempt) = jget payload ''attemptId''
               \<and> JStr (a_runId attempt) = jget payload ''runId'')"

definition isSha256Hex :: "jstr \<Rightarrow> bool" where
  "isSha256Hex digest \<longleftrightarrow>
     length digest = 64 \<and> list_all (\<lambda>c. c \<in> set (lit ''0123456789abcdef'')) digest"

definition isAttemptValidatedPayload :: "platform \<Rightarrow> goal_state \<Rightarrow> jsval \<Rightarrow> bool" where
  "isAttemptValidatedPayload p s payload =
     (let keys = [''goalRunId'', ''attemptId'', ''validatorIdentity'', ''outcomeKind'', ''feedbackDigest''];
          outcomeKind = jget payload ''outcomeKind'';
          identity = jget payload ''validatorIdentity'';
          digest = jget payload ''feedbackDigest''
      in if \<not> hasAllKeys payload (take 4 keys) \<or> \<not> hasExactKeys payload keys then False
         else case find (\<lambda>a. JStr (a_attemptId a) = jget payload ''attemptId'') (s_attempts s) of
             None \<Rightarrow> False
           | Some attempt \<Rightarrow>
               if outcomeKind \<notin> set (map (\<lambda>k. JStr (lit k)) VALIDATOR_OUTCOME_KINDS) then False
               else if \<not> isValidatorIdentity identity then False
               else (case a_validation attempt of
                   None \<Rightarrow> False
                 | Some recorded \<Rightarrow>
                     if JStr (lit (GoalDecision.outcomeKind (vl_outcome recorded))) \<noteq> outcomeKind
                       \<or> JStr (id_name (vl_identity recorded)) \<noteq> jget identity ''name''
                       \<or> JStr (id_version (vl_identity recorded)) \<noteq> jget identity ''version''
                     then False
                     else (case vl_outcome recorded of
                         FailVerdict feedback _ _ \<Rightarrow>
                           isString digest \<and> isSha256Hex (asString digest)
                           \<and> sha256HexSync p feedback = asString digest
                       | _ \<Rightarrow> digest = JUndef)))"

definition isTerminalPayload :: "goal_state \<Rightarrow> jstr \<Rightarrow> jsval \<Rightarrow> bool" where
  "isTerminalPayload s kind payload =
     (if \<not> hasAllKeys payload [''goalRunId'', ''terminalReason'']
        \<or> \<not> hasExactKeys payload [''goalRunId'', ''terminalReason'', ''validatorError'']
        \<or> jget payload ''terminalReason'' \<noteq> optional (entryText reasonText) (s_terminalReason s)
      then False
      else let expected = (if kind = lit ''goal.failed'' then expectedValidatorError s else None);
               named = jget payload ''validatorError''
        in case expected of
            None \<Rightarrow> named = JUndef
          | Some e \<Rightarrow>
              isPlainRecord named \<and> hasExactKeys named [''kind'', ''code'', ''message'']
              \<and> jget named ''kind'' = entryText errorKindText (e_kind e)
              \<and> jget named ''code'' = JStr (e_code e)
              \<and> jget named ''message'' = JStr (e_message e))"

definition isEventPayloadGenuine :: "platform \<Rightarrow> goal_state \<Rightarrow> audit_event \<Rightarrow> bool" where
  "isEventPayloadGenuine p s event =
     (let payload = ofJson (ae_payload event)
      in if jget payload ''goalRunId'' \<noteq> JStr (s_goalRunId s) then False
         else if ae_kind event = lit ''goal.attempt.started'' then isAttemptStartedPayload s payload
         else if ae_kind event = lit ''goal.attempt.validated'' then
           isAttemptValidatedPayload p s payload
         else isTerminalPayload s (ae_kind event) payload)"

text \<open>The loop over a transition entry's events; the kinds must rise in rank.\<close>

fun eventsGenuine :: "platform \<Rightarrow> goal_state \<Rightarrow> nat \<Rightarrow> bool \<Rightarrow> int \<Rightarrow> audit_event list \<Rightarrow> bool" where
  "eventsGenuine p s seq isLatest previousRank [] = True"
| "eventsGenuine p s seq isLatest previousRank (event # events) =
     (case eventRank (ae_kind event) of
        None \<Rightarrow> False
      | Some rank \<Rightarrow>
          if rank \<le> previousRank then False
          else if ae_dedupeKey event \<noteq> s_goalRunId s @ lit '':'' @ decimal seq then False
          else if rank = 2
              \<and> (\<not> isLatest \<or> Some (ae_kind event) \<noteq> map_option lit (TERMINAL_EVENT_KIND (s_status s)))
            then False
          else if \<not> isEventPayloadGenuine p s event then False
          else eventsGenuine p s seq isLatest rank events)"

definition expectedKinds :: "goal_state \<Rightarrow> string list" where
  "expectedKinds s =
     (if tr_to (s_currentTransition s) = Running \<and> s_attempts s \<noteq> [] then [''goal.attempt.started''] else [])
     @ (if tr_from (s_currentTransition s) = Evaluating \<and> lastValidation s \<noteq> None
        then [''goal.attempt.validated''] else [])
     @ (if s_terminalReason s \<noteq> None
        then (case TERMINAL_EVENT_KIND (s_status s) of None \<Rightarrow> [] | Some k \<Rightarrow> [k]) else [])"

definition isTransitionEntryGenuine :: "platform \<Rightarrow> goal_state \<Rightarrow> audit_entry \<Rightarrow> bool" where
  "isTransitionEntryGenuine p s entry =
     (let isLatest = (en_seq entry = s_transitionSeq s)
      in if \<not> eventsGenuine p s (en_seq entry) isLatest (- 1) (en_events entry) then False
         else if \<not> isLatest then True
         else map lit (expectedKinds s) = map ae_kind (en_events entry))"

definition isRestartEntryGenuine :: "goal_state \<Rightarrow> audit_entry \<Rightarrow> nat \<Rightarrow> bool" where
  "isRestartEntryGenuine s entry ordinal =
     (case en_events entry of
        [event] \<Rightarrow>
          (let payload = ofJson (ae_payload event);
               keys = [''goalRunId'', ''controllerRestarts'', ''status'', ''transitionSeq'']
           in if ae_kind event \<noteq> lit ''goal.recovered'' then False
              else if ae_dedupeKey event
                  \<noteq> s_goalRunId s @ lit '':'' @ decimal (en_seq entry) @ lit '':restart-'' @ decimal ordinal
                then False
              else hasAllKeys payload keys \<and> hasExactKeys payload keys
                \<and> jget payload ''goalRunId'' = JStr (s_goalRunId s)
                \<and> jget payload ''controllerRestarts'' = enc_nat ordinal
                \<and> jget payload ''transitionSeq'' = enc_nat (en_seq entry)
                \<and> isGoalRunStatus (jget payload ''status'')
                \<and> (en_seq entry \<noteq> s_transitionSeq s
                   \<or> jget payload ''status'' = entryText statusText (s_status s)))
      | _ \<Rightarrow> False)"

text \<open>
  The loop over the log, with its three counters (transitions, restarts, last sequence number);
  \<open>None\<close> is its early \<open>return false\<close>.
\<close>

definition auditStep ::
    "platform \<Rightarrow> goal_state \<Rightarrow> audit_entry \<Rightarrow> nat \<times> nat \<times> nat \<Rightarrow> (nat \<times> nat \<times> nat) option" where
  "auditStep p s entry counters =
     (case counters of (transitions, restarts, lastSeq) \<Rightarrow>
        if en_seq entry < lastSeq then None
        else if en_transitionId entry = goalRestartId (s_goalRunId s) (restarts + 1) then
          (if en_seq entry \<noteq> transitions then None
           else if \<not> isRestartEntryGenuine s entry (restarts + 1) then None
           else Some (transitions, restarts + 1, en_seq entry))
        else if en_transitionId entry = goalTransitionId (s_goalRunId s) (transitions + 1) then
          (if en_seq entry \<noteq> transitions + 1 then None
           else if \<not> isTransitionEntryGenuine p s entry then None
           else Some (transitions + 1, restarts, en_seq entry))
        else None)"

fun auditLoop ::
    "platform \<Rightarrow> goal_state \<Rightarrow> audit_entry list \<Rightarrow> nat \<times> nat \<times> nat \<Rightarrow> (nat \<times> nat \<times> nat) option" where
  "auditLoop p s [] counters = Some counters"
| "auditLoop p s (entry # entries) counters =
     (case auditStep p s entry counters of None \<Rightarrow> None | Some c \<Rightarrow> auditLoop p s entries c)"

definition isAuditLogConsistent :: "platform \<Rightarrow> goal_state \<Rightarrow> bool" where
  "isAuditLogConsistent p s =
     (if length (s_auditLog s) > GOAL_AUDIT_LOG_MAXIMUM_ENTRIES then False
      else case auditLoop p s (s_auditLog s) (0, 0, 0) of
          None \<Rightarrow> False
        | Some (transitions, restarts, _) \<Rightarrow>
            transitions = s_transitionSeq s \<and> restarts = s_controllerRestarts s)"

subsection \<open>Status, attempts, usage and outcomes\<close>

definition isInFlight :: "goal_attempt option \<Rightarrow> bool" where
  "isInFlight a =
     (case a of None \<Rightarrow> False | Some a \<Rightarrow> a_status a = ARunning \<or> a_status a = AEvaluating)"

definition isStatusRelationConsistent :: "goal_state \<Rightarrow> bool" where
  "isStatusRelationConsistent s =
     (if list_ex (\<lambda>a. isInFlight (Some a)) (butlast (s_attempts s)) then False
      else let final = lastOf (s_attempts s) in
        case s_status s of
          Pending \<Rightarrow> s_attempts s = [] \<and> s_active s = None
        | Running \<Rightarrow>
            (case (final, s_active s) of
               (Some a, Some (AttemptWork attemptId runId startedAt)) \<Rightarrow>
                 a_status a = ARunning \<and> attemptId = a_attemptId a \<and> runId = a_runId a
                 \<and> startedAt = a_startedAt a
             | _ \<Rightarrow> False)
        | Evaluating \<Rightarrow>
            (case (final, s_active s) of
               (Some a, Some (ValidationWork attemptId _ _)) \<Rightarrow>
                 a_status a = AEvaluating \<and> attemptId = a_attemptId a
             | _ \<Rightarrow> False)
        | Retrying \<Rightarrow>
            (case final of
               None \<Rightarrow> False
             | Some a \<Rightarrow> (a_status a = AFailed \<or> a_status a = AAborted) \<and> s_active s = None
                 \<and> jlt (jnat (length (s_attempts s))) (b_maximumAttempts (s_bounds s)))
        | _ \<Rightarrow> s_active s = None \<and> \<not> isInFlight final)"

definition hasOwnDerivedIds :: "goal_state \<Rightarrow> bool" where
  "hasOwnDerivedIds s \<longleftrightarrow>
     list_all
       (\<lambda>(index, a).
          a_attemptId a = goalAttemptId (s_goalRunId s) index
          \<and> a_runId a = goalAttemptRunId (s_goalRunId s) index
          \<and> a_sessionId a
             = attemptSessionId (s_goalRunId s) (policyKind (s_conversationPolicy s)) index
          \<and> (case a_validation a of None \<Rightarrow> True
             | Some v \<Rightarrow> vl_decisionId v = goalDecisionId (a_attemptId a)))
       (zip [0..<length (s_attempts s)] (s_attempts s))"

definition addCost :: "jnum option \<Rightarrow> jnum option \<Rightarrow> jnum option" where
  "addCost costUsd cost =
     (case cost of None \<Rightarrow> costUsd | Some c \<Rightarrow> Some (jadd (withDefault (Fin 0) costUsd) c))"

definition isUsageConsistent :: "goal_state \<Rightarrow> bool" where
  "isUsageConsistent s =
     (let steps = foldl (\<lambda>n a. jadd n (au_steps (a_usage a))) (Fin 0) (s_attempts s);
          tokens = foldl (\<lambda>n a. jadd n (au_tokens (a_usage a))) (Fin 0) (s_attempts s);
          costUsd = foldl (\<lambda>c a. addCost c (au_costUsd (a_usage a))) None (s_attempts s)
      in u_attempts (s_usage s) = length (s_attempts s)
         \<and> jeq (u_steps (s_usage s)) steps \<and> jeq (u_tokens (s_usage s)) tokens
         \<and> (case (u_costUsd (s_usage s), costUsd) of
              (None, None) \<Rightarrow> True
            | (Some a, Some b) \<Rightarrow> jeq a b
            | _ \<Rightarrow> False))"

fun attemptStatusForOutcome :: "'d outcome \<Rightarrow> attempt_status" where
  "attemptStatusForOutcome (Pass _) = APassed"
| "attemptStatusForOutcome CanceledOutcome = AAborted"
| "attemptStatusForOutcome _ = AFailed"

definition areAttemptOutcomesConsistent :: "goal_state \<Rightarrow> bool" where
  "areAttemptOutcomesConsistent s \<longleftrightarrow>
     list_all
       (\<lambda>a. case a_validation a of
           None \<Rightarrow> a_status a \<noteq> APassed
         | Some v \<Rightarrow> a_status a = attemptStatusForOutcome (vl_outcome v))
       (s_attempts s)"

definition isTerminalOutcomeConsistent :: "goal_state \<Rightarrow> bool" where
  "isTerminalOutcomeConsistent s =
     (if \<not> isTerminalStatus (s_status s) then True
      else let verdict = map_option (\<lambda>v. outcomeKind (vl_outcome v)) (lastValidation s)
        in if s_status s = Succeeded then
             map_option a_status (lastOf (s_attempts s)) = Some APassed \<and> verdict = Some ''pass''
           else if list_ex (\<lambda>a. a_status a = APassed) (s_attempts s) then False
           else case s_terminalReason s of
               Some ValidatorFailNonRetryable \<Rightarrow> verdict = Some ''fail''
             | Some ValidatorInfrastructureError \<Rightarrow>
                 verdict \<noteq> None \<and> verdict \<noteq> Some ''pass'' \<and> verdict \<noteq> Some ''fail''
             | Some AttemptLimitReached \<Rightarrow>
                 jle (b_maximumAttempts (s_bounds s)) (jnat (length (s_attempts s)))
             | _ \<Rightarrow> True)"

definition isCancellationConsistent :: "goal_state \<Rightarrow> bool" where
  "isCancellationConsistent s =
     (if \<not> isTerminalStatus (s_status s) then True
      else (s_status s = Canceled) = (s_cancellation s \<noteq> None))"

definition isTerminalPairing :: "goal_state \<Rightarrow> bool" where
  "isTerminalPairing s =
     (if \<not> isTerminalStatus (s_status s) then
        s_terminalReason s = None \<and> s_closedAt s = None \<and> s_cleanedUpAt s = None
      else if s_cleanedUpAt s \<noteq> None \<and> s_closedAt s = None then False
      else map_option TERMINAL_STATUS_BY_REASON (s_terminalReason s) = Some (s_status s))"

definition isConsistent :: "platform \<Rightarrow> goal_state \<Rightarrow> bool" where
  "isConsistent p s \<longleftrightarrow>
     isAuditLogConsistent p s
     \<and> s_workflowId s = goalWorkflowId (s_goalRunId s)
     \<and> tr_seq (s_currentTransition s) = s_transitionSeq s
     \<and> tr_to (s_currentTransition s) = s_status s
     \<and> tr_transitionId (s_currentTransition s)
        = goalTransitionId (s_goalRunId s) (tr_seq (s_currentTransition s))
     \<and> map a_attemptIndex (s_attempts s) = [0..<length (s_attempts s)]
     \<and> hasOwnDerivedIds s \<and> isUsageConsistent s \<and> isStatusRelationConsistent s
     \<and> isTerminalPairing s \<and> areAttemptOutcomesConsistent s \<and> isTerminalOutcomeConsistent s
     \<and> isCancellationConsistent s"

subsection \<open>The decoder\<close>

definition isGoalState :: "platform \<Rightarrow> jsval \<Rightarrow> bool" where
  "isGoalState p v \<longleftrightarrow>
     isPlainRecord v \<and> hasExactKeys v TOP_LEVEL_KEYS \<and> isShape p v \<and> isConsistent p (as_state v)"

text \<open>Stored text, up to what \<open>JSON.parse\<close> makes of it; \<open>JSON.stringify\<close> writes the first kind.\<close>

datatype stored_text = JsonText jsval | OtherText jstr

fun decodeGoalState :: "platform \<Rightarrow> stored_text \<Rightarrow> goal_state option" where
  "decodeGoalState p (JsonText v) = (if isGoalState p v then Some (as_state v) else None)"
| "decodeGoalState p (OtherText _) = None"

definition stringifyState :: "goal_state \<Rightarrow> stored_text" where
  "stringifyState s = JsonText (enc_state s)"

definition validState :: "platform \<Rightarrow> goal_state \<Rightarrow> bool" where
  "validState p s \<longleftrightarrow> isGoalState p (enc_state s)"

lemma validState_iff: "validState p s \<longleftrightarrow> ok_state p s \<and> isConsistent p s"
  by (simp add: validState_def isGoalState_def isRecord_enc_state)

lemma decode_stringify: "decodeGoalState p (stringifyState s) = (if validState p s then Some s else None)"
  by (simp add: stringifyState_def validState_def)

text \<open>What was read from parsed text is a record the store may write again.\<close>

lemma isGoalState_reads:
  assumes "isGoalState p v" "plainJson v" "\<not> artifactOk p JUndef"
  shows "validState p (as_state v)"
  using assms isShape_reads by (simp add: isGoalState_def validState_iff)


end
