(* ===== verification/GoalEvents.thy ===== *)
theory GoalEvents
  imports GoalConsistency
begin

section \<open>The audit projection of a goal\<close>

text \<open>
  \<open>packages/bureau/src/goal-event-projection.ts\<close>: the audit events a committed record implies
  (stored in its append-only log in the same write), the drafts an observation or a replay at
  boot projects from that log, and the recorder, whose failures are swallowed. The durable
  event history is a parameter: a function that may fail (\<open>None\<close>).
\<close>

subsection \<open>Deriving events\<close>

record event_draft =
  ed_kind :: jstr
  ed_payload :: json
  ed_dedupeKey :: jstr
  ed_emittedAtMs :: "jnum option"

definition timestampOf :: "jstr \<Rightarrow> jnum option" where
  "timestampOf stamp = (let parsed = dateParse stamp in if parsed = NaN then None else Some parsed)"

definition errorJson :: "json validator_error \<Rightarrow> json" where
  "errorJson e =
     jsonObj [(''kind'', Some (JsonStr (lit (errorKindText (e_kind e))))),
              (''code'', Some (JsonStr (e_code e))), (''message'', Some (JsonStr (e_message e)))]"

definition validatorErrorOf :: "json outcome option \<Rightarrow> json option" where
  "validatorErrorOf outcome =
     (case outcome of None \<Rightarrow> None
      | Some out \<Rightarrow> map_option errorJson (outcomeError out))"

definition keyFor :: "goal_state \<Rightarrow> jstr" where
  "keyFor record = s_goalRunId record @ lit '':'' @ decimal (s_transitionSeq record)"

definition toDraft :: "audit_event \<Rightarrow> event_draft" where
  "toDraft event =
     \<lparr>ed_kind = ae_kind event, ed_payload = ae_payload event, ed_dedupeKey = ae_dedupeKey event,
      ed_emittedAtMs = timestampOf (ae_at event)\<rparr>"

definition startedEvent :: "goal_state \<Rightarrow> event_draft" where
  "startedEvent record =
     toDraft
       \<lparr>ae_kind = lit ''goal.started'',
        ae_payload =
          jsonObj [(''goalRunId'', Some (JsonStr (s_goalRunId record))),
                   (''goalIdentity'',
                    Some (jsonObj [(''name'', Some (JsonStr (id_name (s_identity record)))),
                                   (''version'', Some (JsonStr (id_version (s_identity record))))]))],
        ae_dedupeKey = s_goalRunId record @ lit '':0'', ae_at = s_createdAt record\<rparr>"

definition attemptStartedEvent :: "goal_state \<Rightarrow> audit_event list" where
  "attemptStartedEvent record =
     (case lastOf (s_attempts record) of
        None \<Rightarrow> []
      | Some attempt \<Rightarrow>
          [\<lparr>ae_kind = lit ''goal.attempt.started'',
            ae_payload =
              jsonObj [(''goalRunId'', Some (JsonStr (s_goalRunId record))),
                       (''attemptId'', Some (JsonStr (a_attemptId attempt))),
                       (''attemptIndex'', Some (JsonNum (jnat (a_attemptIndex attempt)))),
                       (''runId'', Some (JsonStr (a_runId attempt)))],
            ae_dedupeKey = keyFor record, ae_at = tr_at (s_currentTransition record)\<rparr>])"

definition attemptValidatedEvent :: "platform \<Rightarrow> goal_state \<Rightarrow> audit_event list" where
  "attemptValidatedEvent p record =
     (case lastOf (s_attempts record) of
        None \<Rightarrow> []
      | Some attempt \<Rightarrow>
          (case a_validation attempt of
             None \<Rightarrow> []
           | Some validation \<Rightarrow>
               (let outcome = vl_outcome validation
                in [\<lparr>ae_kind = lit ''goal.attempt.validated'',
                     ae_payload =
                       jsonObj
                         [(''goalRunId'', Some (JsonStr (s_goalRunId record))),
                          (''attemptId'', Some (JsonStr (a_attemptId attempt))),
                          (''validatorIdentity'',
                           Some (jsonObj
                             [(''name'', Some (JsonStr (id_name (vl_identity validation)))),
                              (''version'', Some (JsonStr (id_version (vl_identity validation))))])),
                          (''outcomeKind'', Some (JsonStr (lit (outcomeKind outcome)))),
                          (''feedbackDigest'',
                           case outcome of
                             FailVerdict feedback _ _ \<Rightarrow> Some (JsonStr (sha256HexSync p feedback))
                           | _ \<Rightarrow> None)],
                     ae_dedupeKey = keyFor record, ae_at = vl_completedAt validation\<rparr>])))"

definition terminalEvent :: "goal_state \<Rightarrow> audit_event list" where
  "terminalEvent record =
     (case s_terminalReason record of
        None \<Rightarrow> []
      | Some reason \<Rightarrow>
          (let base = [(''goalRunId'', Some (JsonStr (s_goalRunId record))),
                       (''terminalReason'', Some (JsonStr (lit (reasonText reason))))];
               draft = (\<lambda>kind payload.
                 [\<lparr>ae_kind = lit kind, ae_payload = jsonObj payload, ae_dedupeKey = keyFor record,
                   ae_at = tr_at (s_currentTransition record)\<rparr>])
           in case s_status record of
                Succeeded \<Rightarrow> draft ''goal.succeeded'' base
              | Exhausted \<Rightarrow> draft ''goal.exhausted'' base
              | Canceled \<Rightarrow> draft ''goal.canceled'' base
              | Failed \<Rightarrow>
                  (let validatorError = validatorErrorOf (map_option vl_outcome (lastValidation record))
                   in draft ''goal.failed''
                        (base @ [(''validatorError'',
                           if reason \<noteq> ValidatorInfrastructureError then None else validatorError)]))
              | _ \<Rightarrow> []))"

definition auditEventsForTransition :: "platform \<Rightarrow> goal_state \<Rightarrow> audit_event list" where
  "auditEventsForTransition p record =
     (if tr_to (s_currentTransition record) = Running then attemptStartedEvent record else [])
     @ (if tr_from (s_currentTransition record) = Evaluating then attemptValidatedEvent p record else [])
     @ terminalEvent record"

definition auditEventForRestart :: "goal_state \<Rightarrow> audit_event" where
  "auditEventForRestart record =
     \<lparr>ae_kind = lit ''goal.recovered'',
      ae_payload =
        jsonObj [(''goalRunId'', Some (JsonStr (s_goalRunId record))),
                 (''controllerRestarts'', Some (JsonNum (jnat (s_controllerRestarts record)))),
                 (''status'', Some (JsonStr (lit (statusText (s_status record))))),
                 (''transitionSeq'', Some (JsonNum (jnat (s_transitionSeq record))))],
      ae_dedupeKey = keyFor record @ lit '':restart-'' @ decimal (s_controllerRestarts record),
      ae_at = s_updatedAt record\<rparr>"

definition restartEntryId :: "goal_state \<Rightarrow> jstr" where
  "restartEntryId record = goalRestartId (s_goalRunId record) (s_controllerRestarts record)"

subsection \<open>Projecting observations\<close>

datatype goal_observation =
    Created goal_state
  | Transitioned goal_state
  | ControllerRestarted goal_state
  | Replayed goal_state

definition entryEvents :: "goal_state \<Rightarrow> jstr \<Rightarrow> event_draft list" where
  "entryEvents record transitionId =
     (case find (\<lambda>candidate. en_transitionId candidate = transitionId) (s_auditLog record) of
        None \<Rightarrow> [] | Some entry \<Rightarrow> map toDraft (en_events entry))"

fun projectGoalObservation :: "goal_observation \<Rightarrow> event_draft list" where
  "projectGoalObservation (Created record) = [startedEvent record]"
| "projectGoalObservation (Transitioned record) =
     entryEvents record
       (goalTransitionId (s_goalRunId record) (tr_seq (s_currentTransition record)))"
| "projectGoalObservation (ControllerRestarted record) = entryEvents record (restartEntryId record)"
| "projectGoalObservation (Replayed record) =
     concat (map (\<lambda>entry. map toDraft (en_events entry)) (s_auditLog record))"

fun observedRecord :: "goal_observation \<Rightarrow> goal_state" where
  "observedRecord (Created record) = record"
| "observedRecord (Transitioned record) = record"
| "observedRecord (ControllerRestarted record) = record"
| "observedRecord (Replayed record) = record"

text \<open>The recorder: a draft whose write fails is diagnosed and skipped, and the next one is tried.\<close>

fun recordDrafts ::
    "('h \<Rightarrow> jstr \<Rightarrow> event_draft \<Rightarrow> 'h option) \<Rightarrow> jstr \<Rightarrow> event_draft list \<Rightarrow> 'h \<Rightarrow> 'h" where
  "recordDrafts write owner [] h = h"
| "recordDrafts write owner (draft # drafts) h =
     recordDrafts write owner drafts (case write h owner draft of None \<Rightarrow> h | Some h' \<Rightarrow> h')"

definition createGoalEventRecorder ::
    "('h \<Rightarrow> jstr \<Rightarrow> event_draft \<Rightarrow> 'h option) \<Rightarrow> goal_observation \<Rightarrow> 'h \<Rightarrow> 'h" where
  "createGoalEventRecorder write observation h =
     recordDrafts write (s_goalRunId (observedRecord observation))
       (projectGoalObservation observation) h"

fun projectGoalHistory :: "(goal_observation \<Rightarrow> 'h \<Rightarrow> 'h) \<Rightarrow> goal_state list \<Rightarrow> 'h \<Rightarrow> 'h" where
  "projectGoalHistory record [] h = h"
| "projectGoalHistory record (goal # goals) h =
     projectGoalHistory record goals (record (Replayed goal) (record (Created goal) h))"

end
