(* ===== verification/JsJson.thy ===== *)
theory JsJson
  imports JsValue
begin

section \<open>JSON text\<close>

text \<open>
  \<open>JSON.stringify\<close> without indentation: well-formed output (a lone surrogate is escaped),
  \<open>null\<close> for a number that is not finite, and the shortest decimal that reads back as the
  number (\<open>Number::toString\<close>) otherwise. The source measures the UTF-8 size of such texts.
\<close>

subsection \<open>Numbers\<close>

text \<open>The position of the leading digit, among those a double can have.\<close>

definition pointPosition :: "rat \<Rightarrow> int" where
  "pointPosition x =
     (case find (\<lambda>e. 10 powi (e - 1) \<le> x \<and> x < 10 powi e) [- 325..310] of None \<Rightarrow> 0 | Some e \<Rightarrow> e)"

text \<open>The closest of the two \<open>k\<close>-digit decimals around \<open>x\<close> that read back as \<open>x\<close>.\<close>

definition digitsOfLength :: "rat \<Rightarrow> int \<Rightarrow> nat \<Rightarrow> nat option" where
  "digitsOfLength x n k =
     (let u = 10 powi (n - int k); f = \<lfloor>x / u\<rfloor>;
          good = filter (\<lambda>s. toDouble (of_int s * u) = Fin x \<and> 10 ^ (k - 1) \<le> s \<and> s < 10 ^ k) [f, f + 1]
      in case good of
           [] \<Rightarrow> None
         | [s] \<Rightarrow> Some (nat s)
         | s # t # _ \<Rightarrow> Some (nat (if x - of_int s * u \<le> of_int t * u - x then s else t)))"

definition shortestDigits :: "rat \<Rightarrow> int \<Rightarrow> jstr" where
  "shortestDigits x n =
     (case List.map_filter (digitsOfLength x n) [1..<18] of [] \<Rightarrow> [] | s # _ \<Rightarrow> decimal s)"

definition positiveText :: "rat \<Rightarrow> jstr" where
  "positiveText x =
     (let n = pointPosition x; digits = shortestDigits x n; k = int (length digits);
          exponent = (if 1 \<le> n then lit ''+'' else lit ''-'') @ decimal (nat \<bar>n - 1\<bar>)
      in if k \<le> n \<and> n \<le> 21 then digits @ replicate (nat (n - k)) (digitUnit 0)
         else if 0 < n \<and> n \<le> 21 then take (nat n) digits @ lit ''.'' @ drop (nat n) digits
         else if - 6 < n \<and> n \<le> 0 then lit ''0.'' @ replicate (nat (- n)) (digitUnit 0) @ digits
         else if k = 1 then digits @ lit ''e'' @ exponent
         else take 1 digits @ lit ''.'' @ drop 1 digits @ lit ''e'' @ exponent)"

text \<open>An integer below \<open>2 ^ 53\<close> prints as its decimal digits, which the general rule also gives.\<close>

fun numberText :: "jnum \<Rightarrow> jstr" where
  "numberText (Fin r) =
     (if r = of_int \<lfloor>r\<rfloor> \<and> \<bar>r\<bar> < 2 ^ 53
        then (if r < 0 then lit ''-'' else []) @ decimal (nat \<bar>\<lfloor>r\<rfloor>\<bar>)
      else if r < 0 then lit ''-'' @ positiveText (- r)
      else positiveText r)"
| "numberText _ = lit ''null''"

subsection \<open>Strings\<close>

definition lowerHex :: "nat \<Rightarrow> 16 word" where
  "lowerHex d = (if d < 10 then of_nat (48 + d) else of_nat (87 + d))"

definition unicodeEscape :: "16 word \<Rightarrow> jstr" where
  "unicodeEscape c =
     (let n = unat c
      in [ch (CHR 0x5C), ch (CHR ''u''), lowerHex (n div 4096), lowerHex (n div 256 mod 16),
          lowerHex (n div 16 mod 16), lowerHex (n mod 16)])"

definition escapeUnit :: "16 word \<Rightarrow> jstr" where
  "escapeUnit c =
     (let n = unat c
      in if n = 8 then [ch (CHR 0x5C), ch (CHR ''b'')]
         else if n = 9 then [ch (CHR 0x5C), ch (CHR ''t'')]
         else if n = 10 then [ch (CHR 0x5C), ch (CHR ''n'')]
         else if n = 12 then [ch (CHR 0x5C), ch (CHR ''f'')]
         else if n = 13 then [ch (CHR 0x5C), ch (CHR ''r'')]
         else if n = 34 then [ch (CHR 0x5C), ch (CHR 0x22)]
         else if n = 92 then [ch (CHR 0x5C), ch (CHR 0x5C)]
         else if n < 32 then unicodeEscape c
         else [c])"

fun escapeText :: "jstr \<Rightarrow> jstr" where
  "escapeText [] = []"
| "escapeText (c # cs) =
     (if isHighSurrogate c then
        (case cs of [] \<Rightarrow> unicodeEscape c
         | d # ds \<Rightarrow>
             if isLowSurrogate d then c # d # escapeText ds else unicodeEscape c @ escapeText cs)
      else if isLowSurrogate c then unicodeEscape c @ escapeText cs
      else escapeUnit c @ escapeText cs)"

definition quoted :: "jstr \<Rightarrow> jstr" where
  "quoted s = [ch (CHR 0x22)] @ escapeText s @ [ch (CHR 0x22)]"

subsection \<open>Values\<close>

fun joined :: "jstr list \<Rightarrow> jstr" where
  "joined [] = []"
| "joined [x] = x"
| "joined (x # y # xs) = x @ lit '','' @ joined (y # xs)"

primrec stringify :: "jsval \<Rightarrow> jstr" where
  "stringify JUndef = lit ''null''"
| "stringify JNull = lit ''null''"
| "stringify (JBool b) = (if b then lit ''true'' else lit ''false'')"
| "stringify (JNum n) = numberText n"
| "stringify (JStr s) = quoted s"
| "stringify (JArr vs) = lit ''['' @ joined (map stringify vs) @ lit '']''"
| "stringify (JObj fs) =
     lit ''{''
     @ joined
         (map (\<lambda>(_, k, t). quoted k @ lit '':'' @ t)
           (filter fst
             (zip (map (\<lambda>(k, v). v \<noteq> JUndef \<and> \<not> isFunction v) fs)
               (map (map_prod id stringify) fs))))
     @ lit ''}''"
| "stringify (JFun _) = lit ''null''"

definition jsonByteLength :: "jsval \<Rightarrow> nat" where
  "jsonByteLength v = utf8ByteLength (stringify v)"

end
