(* ===== verification/GoalBounding.thy ===== *)
theory GoalBounding
  imports GoalCodec JsJson
begin

section \<open>Bringing a validator outcome under the inline cap\<close>

text \<open>
  The size helpers of \<open>packages/bureau/src/goal-state.ts\<close>: an outcome over the cap first loses
  its evidence details and causes, then its texts are cut and as many evidence entries are kept
  as fit (a binary search), and as a last resort it is replaced by an infrastructure error.
\<close>

subsection \<open>Cutting texts\<close>

definition validationByteLength :: "validation \<Rightarrow> nat" where
  "validationByteLength v = jsonByteLength (enc_outcome (vl_outcome v))"

definition TEXT_MAXIMUM_CHARACTERS :: nat where
  "TEXT_MAXIMUM_CHARACTERS = 4096"

definition ellipsis :: jstr where
  "ellipsis = [0x2026]"

definition truncateText :: "jstr \<Rightarrow> jstr" where
  "truncateText s =
     (if length s \<le> TEXT_MAXIMUM_CHARACTERS then s else take TEXT_MAXIMUM_CHARACTERS s @ ellipsis)"

definition truncationMarker :: "json \<Rightarrow> json" where
  "truncationMarker value =
     jsonObj [(''truncated'', Some (JsonBool True)),
              (''originalByteLength'', Some (JsonNum (jnat (jsonByteLength (ofJson value)))))]"

definition boundError :: "json validator_error \<Rightarrow> json validator_error" where
  "boundError e =
     e\<lparr>e_message := truncateText (e_message e), e_cause := map_option truncationMarker (e_cause e)\<rparr>"

definition COMPACT_TEXT_CHARACTERS :: nat where
  "COMPACT_TEXT_CHARACTERS = 256"

definition COMPACT_SOURCE_CHARACTERS :: nat where
  "COMPACT_SOURCE_CHARACTERS = 128"

definition COMPACT_CODE_CHARACTERS :: nat where
  "COMPACT_CODE_CHARACTERS = 64"

definition MAXIMUM_BOUNDED_EVIDENCE_ENTRIES :: nat where
  "MAXIMUM_BOUNDED_EVIDENCE_ENTRIES = 512"

definition VALIDATION_OUTCOME_TOO_LARGE :: jstr where
  "VALIDATION_OUTCOME_TOO_LARGE = lit ''OUTCOME_TOO_LARGE''"

definition cut :: "jstr \<Rightarrow> nat \<Rightarrow> jstr" where
  "cut s maximum =
     (if length s \<le> maximum then s
      else let stop = (if isHighSurrogate (s ! (maximum - 1)) then maximum - 1 else maximum)
        in take stop s @ ellipsis)"

definition fitsWithin :: "json outcome \<Rightarrow> nat \<Rightarrow> bool" where
  "fitsWithin outcome maximumBytes \<longleftrightarrow> jsonByteLength (enc_outcome outcome) \<le> maximumBytes"

subsection \<open>The tiers\<close>

definition markedEvidence :: "json evidence list \<Rightarrow> json evidence list" where
  "markedEvidence items =
     map (\<lambda>item. \<lparr>ev_source = ev_source item, ev_detail = truncationMarker (ev_detail item)\<rparr>) items"

fun boundFirstTier :: "json outcome \<Rightarrow> json outcome" where
  "boundFirstTier (Pass evidence) = Pass (markedEvidence evidence)"
| "boundFirstTier (FailVerdict feedback evidence retryable) =
     FailVerdict (truncateText feedback) (markedEvidence evidence) retryable"
| "boundFirstTier (ErrorOutcome e) = ErrorOutcome (boundError e)"
| "boundFirstTier (Unavailable e reason) = Unavailable (boundError e) (truncateText reason)"
| "boundFirstTier CanceledOutcome = CanceledOutcome"
| "boundFirstTier (Indeterminate reason) = Indeterminate (truncateText reason)"

definition compactError :: "json validator_error \<Rightarrow> json validator_error" where
  "compactError e =
     e\<lparr>e_code := cut (e_code e) COMPACT_CODE_CHARACTERS,
       e_message := cut (e_message e) COMPACT_TEXT_CHARACTERS,
       e_cause := map_option truncationMarker (e_cause e)\<rparr>"

definition considered :: "json evidence list \<Rightarrow> json evidence list" where
  "considered items =
     map (\<lambda>item. \<lparr>ev_source = cut (ev_source item) COMPACT_SOURCE_CHARACTERS,
                  ev_detail = truncationMarker (ev_detail item)\<rparr>)
       (take MAXIMUM_BOUNDED_EVIDENCE_ENTRIES items)"

definition keptEvidence :: "json evidence list \<Rightarrow> nat \<Rightarrow> json evidence list" where
  "keptEvidence items keep =
     (if keep = length items then take keep (considered items)
      else take keep (considered items)
        @ [\<lparr>ev_source = lit ''omitted'',
            ev_detail = jsonObj [(''omittedEntries'', Some (JsonNum (jnat (length items - keep))))]\<rparr>])"

text \<open>The most that fit, by bisection: \<open>low\<close> fits, everything above \<open>high\<close> does not.\<close>

function searchMost :: "(nat \<Rightarrow> bool) \<Rightarrow> nat \<Rightarrow> nat \<Rightarrow> nat" where
  "searchMost fits low high =
     (if low < high then
        (let middle = (low + high + 1) div 2
         in if fits middle then searchMost fits middle high else searchMost fits low (middle - 1))
      else low)"
  by pat_completeness auto
termination by (relation "measure (\<lambda>(fits, low, high). high - low)") auto

declare searchMost.simps [simp del]

definition withEvidence ::
    "nat \<Rightarrow> json evidence list \<Rightarrow> (json evidence list \<Rightarrow> json outcome) \<Rightarrow> json outcome option" where
  "withEvidence maximumBytes items build =
     (let candidate = (\<lambda>keep. build (keptEvidence items keep))
      in if \<not> fitsWithin (candidate 0) maximumBytes then None
         else Some (candidate
           (searchMost (\<lambda>keep. fitsWithin (candidate keep) maximumBytes) 0 (length (considered items)))))"

fun boundSecondTier :: "json outcome \<Rightarrow> nat \<Rightarrow> json outcome option" where
  "boundSecondTier (Pass evidence) maximumBytes = withEvidence maximumBytes evidence Pass"
| "boundSecondTier (FailVerdict feedback evidence retryable) maximumBytes =
     withEvidence maximumBytes evidence
       (\<lambda>kept. FailVerdict (cut feedback COMPACT_TEXT_CHARACTERS) kept retryable)"
| "boundSecondTier (ErrorOutcome e) maximumBytes = Some (ErrorOutcome (compactError e))"
| "boundSecondTier (Unavailable e reason) maximumBytes =
     Some (Unavailable (compactError e) (cut reason COMPACT_TEXT_CHARACTERS))"
| "boundSecondTier (Indeterminate reason) maximumBytes =
     Some (Indeterminate (cut reason COMPACT_TEXT_CHARACTERS))"
| "boundSecondTier CanceledOutcome maximumBytes = Some CanceledOutcome"

definition tooLargeOutcome :: "json outcome" where
  "tooLargeOutcome =
     ErrorOutcome \<lparr>e_kind = KOutput, e_code = VALIDATION_OUTCOME_TOO_LARGE,
                   e_message = lit ''Outcome too large.'', e_cause = None\<rparr>"

definition boundValidationOutcome :: "json outcome \<Rightarrow> nat \<Rightarrow> json outcome" where
  "boundValidationOutcome outcome maximumBytes =
     (if fitsWithin outcome maximumBytes \<or> outcome = CanceledOutcome then outcome
      else let first = boundFirstTier outcome
        in if fitsWithin first maximumBytes then first
           else case boundSecondTier outcome maximumBytes of
               Some second \<Rightarrow> if fitsWithin second maximumBytes then second else tooLargeOutcome
             | None \<Rightarrow> tooLargeOutcome)"

subsection \<open>What bounding guarantees\<close>

lemma searchMost_step:
  "low < high \<Longrightarrow> searchMost fits low high =
     (if fits ((low + high + 1) div 2) then searchMost fits ((low + high + 1) div 2) high
      else searchMost fits low ((low + high + 1) div 2 - 1))"
  "\<not> low < high \<Longrightarrow> searchMost fits low high = low"
  by (subst searchMost.simps, simp add: Let_def)+

lemma searchMost_between: "low \<le> high \<Longrightarrow> low \<le> searchMost fits low high \<and> searchMost fits low high \<le> high"
proof (induction "high - low" arbitrary: low high rule: less_induct)
  case less
  define middle where "middle = (low + high + 1) div 2"
  show ?case
  proof (cases "low < high")
    case True
    then have m: "low < middle" "middle \<le> high" by (auto simp: middle_def)
    have s: "searchMost fits low high =
        (if fits middle then searchMost fits middle high else searchMost fits low (middle - 1))"
      using searchMost_step(1) [OF True] by (simp add: middle_def)
    have "middle \<le> searchMost fits middle high \<and> searchMost fits middle high \<le> high"
      by (rule less.hyps) (use m in linarith)+
    moreover have "low \<le> searchMost fits low (middle - 1) \<and> searchMost fits low (middle - 1) \<le> middle - 1"
      by (rule less.hyps) (use m in linarith)+
    moreover have "middle - 1 \<le> high" using m by linarith
    ultimately show ?thesis unfolding s using m by (auto intro: le_trans less_imp_le)
  next
    case False
    with less.prems show ?thesis by (simp add: searchMost_step(2))
  qed
qed

lemma searchMost_fits: "fits low \<Longrightarrow> fits (searchMost fits low high)"
proof (induction fits low high rule: searchMost.induct)
  case (1 fits low high)
  then show ?case by (subst searchMost.simps) (auto simp: Let_def)
qed

text \<open>If fitting is monotonic, the search finds the largest number that fits.\<close>

lemma searchMost_most:
  assumes mono: "\<And>i j. i \<le> j \<Longrightarrow> j \<le> n \<Longrightarrow> fits j \<Longrightarrow> fits i"
  shows "low \<le> high \<Longrightarrow> high \<le> n \<Longrightarrow> \<forall>k. high < k \<and> k \<le> n \<longrightarrow> \<not> fits k \<Longrightarrow>
    \<forall>k. searchMost fits low high < k \<and> k \<le> n \<longrightarrow> \<not> fits k"
proof (induction "high - low" arbitrary: low high rule: less_induct)
  case less
  show ?case
  proof (cases "low < high")
    case True
    define middle where "middle = (low + high + 1) div 2"
    have m: "low < middle" "middle \<le> high" using True by (auto simp: middle_def)
    have s: "searchMost fits low high =
        (if fits middle then searchMost fits middle high else searchMost fits low (middle - 1))"
      using searchMost_step(1) [OF True] by (simp add: middle_def)
    show ?thesis
    proof (cases "fits middle")
      case True
      then show ?thesis using less.hyps [of high middle] less.prems m s by auto
    next
      case False
      then have "\<not> fits k" if "middle - 1 < k" "k \<le> n" for k
        using mono [of middle k] that m(1) by fastforce
      then show ?thesis
        using less.hyps [of "middle - 1" low] less.prems m s False by auto
    qed
  next
    case False
    then have "searchMost fits low high = low" by (simp add: searchMost_step(2))
    then show ?thesis using False less.prems by auto
  qed
qed

lemma jsonOk_marker: "jsonOk (truncationMarker v)"
  by (simp add: jsonOk_def truncationMarker_def json_simps obj_def List.map_filter_def
      isJsonValue.simps MAXIMUM_JSON_DEPTH_def)

lemma ok_error_bounded: "ok_error (boundError e)" "ok_error (compactError e)"
proof -
  have "pred_option jsonOk (map_option truncationMarker c)" for c
    by (cases c) (simp_all add: jsonOk_marker)
  then show "ok_error (boundError e)" "ok_error (compactError e)"
    by (simp_all add: ok_error_def boundError_def compactError_def)
qed

lemma ok_markedEvidence: "list_all ok_evidence (markedEvidence items)"
  by (simp add: markedEvidence_def list_all_iff ok_evidence_def jsonOk_marker)

lemma ok_keptEvidence: "list_all ok_evidence (keptEvidence items keep)"
proof -
  have "list_all ok_evidence (considered items)"
    by (simp add: considered_def list_all_iff ok_evidence_def jsonOk_marker)
  moreover have "jsonOk (jsonObj [(''omittedEntries'', Some (JsonNum (jnat n)))])" for n
    by (simp add: jsonOk_def json_simps obj_def List.map_filter_def isJsonValue.simps
        MAXIMUM_JSON_DEPTH_def)
  ultimately show ?thesis
    by (auto simp: keptEvidence_def list_all_iff ok_evidence_def dest: in_set_takeD)
qed

lemma withEvidence_Some:
  assumes "withEvidence maximumBytes items build = Some outcome"
  obtains keep where "outcome = build (keptEvidence items keep)" "keep \<le> length (considered items)"
    "fitsWithin outcome maximumBytes"
proof -
  let ?fits = "\<lambda>keep. fitsWithin (build (keptEvidence items keep)) maximumBytes"
  let ?k = "searchMost ?fits 0 (length (considered items))"
  have "?fits 0" "outcome = build (keptEvidence items ?k)"
    using assms by (auto simp: withEvidence_def Let_def split: if_splits)
  with searchMost_fits [of ?fits 0] searchMost_between [of 0 "length (considered items)" ?fits] that [of ?k]
  show thesis by simp
qed

fun retryableFlag :: "'d outcome \<Rightarrow> bool option" where
  "retryableFlag (FailVerdict _ _ retryable) = Some retryable"
| "retryableFlag _ = None"

definition sameVerdict :: "'d outcome \<Rightarrow> 'd outcome \<Rightarrow> bool" where
  "sameVerdict a b \<longleftrightarrow> outcomeKind a = outcomeKind b \<and> retryableFlag a = retryableFlag b"

lemma boundFirstTier_verdict: "sameVerdict (boundFirstTier outcome) outcome"
  by (cases outcome) (simp_all add: sameVerdict_def)

lemma boundSecondTier_verdict:
  "boundSecondTier outcome maximumBytes = Some second \<Longrightarrow> sameVerdict second outcome"
  by (cases outcome) (auto simp: sameVerdict_def elim!: withEvidence_Some)

lemma boundFirstTier_ok: "ok_outcome (boundFirstTier outcome)"
  by (cases outcome) (simp_all add: ok_markedEvidence ok_error_bounded)

lemma boundSecondTier_ok:
  "boundSecondTier outcome maximumBytes = Some second \<Longrightarrow> ok_outcome second"
  by (cases outcome) (auto simp: ok_keptEvidence ok_error_bounded elim!: withEvidence_Some)

lemma tooLarge_size: "jsonByteLength (enc_outcome tooLargeOutcome) = 100"
  by code_simp

lemma canceled_size: "jsonByteLength (enc_outcome CanceledOutcome) = 19"
  by code_simp

lemma bounded_outcome:
  assumes "100 \<le> maximumBytes" "ok_outcome outcome"
  shows "fitsWithin (boundValidationOutcome outcome maximumBytes) maximumBytes
    \<and> ok_outcome (boundValidationOutcome outcome maximumBytes)
    \<and> (fitsWithin outcome maximumBytes \<longrightarrow> boundValidationOutcome outcome maximumBytes = outcome)
    \<and> (sameVerdict (boundValidationOutcome outcome maximumBytes) outcome
       \<or> boundValidationOutcome outcome maximumBytes = tooLargeOutcome)"
proof -
  have large: "fitsWithin tooLargeOutcome maximumBytes" "ok_outcome tooLargeOutcome"
    using assms(1) by (simp_all add: fitsWithin_def tooLarge_size) (simp add: tooLargeOutcome_def ok_error_def)
  have canceled: "fitsWithin CanceledOutcome maximumBytes"
    unfolding fitsWithin_def canceled_size using assms(1) by simp
  have "sameVerdict outcome outcome" by (simp add: sameVerdict_def)
  then show ?thesis
    using assms(2) large canceled boundFirstTier_verdict [of outcome] boundFirstTier_ok [of outcome]
      boundSecondTier_verdict [of outcome maximumBytes] boundSecondTier_ok [of outcome maximumBytes]
    by (auto simp: boundValidationOutcome_def Let_def split: option.split)
qed

text \<open>
  \<^bold>\<open>C37\<close>: whatever a validator answers, the bounded outcome fits the cap (any cap of at least 100
  bytes, the size of the replacement), it is one the record decoder accepts, an outcome that
  fitted is untouched, and its verdict (the kind, and whether a failure may be retried) is the
  validator's own unless it was replaced by the \<open>OUTCOME_TOO_LARGE\<close> infrastructure error.
\<close>

theorem boundValidationOutcome_fits:
  assumes "100 \<le> maximumBytes" "ok_outcome outcome"
  shows "fitsWithin (boundValidationOutcome outcome maximumBytes) maximumBytes
    \<and> ok_outcome (boundValidationOutcome outcome maximumBytes)
    \<and> (fitsWithin outcome maximumBytes \<longrightarrow> boundValidationOutcome outcome maximumBytes = outcome)
    \<and> (sameVerdict (boundValidationOutcome outcome maximumBytes) outcome
       \<or> boundValidationOutcome outcome maximumBytes = tooLargeOutcome)"
  by (rule bounded_outcome [OF assms])

end
