(* ===== verification/JsUri.thy ===== *)
theory JsUri
  imports JsText
begin

section \<open>Percent encoding of identifiers\<close>

text \<open>
  \<open>encodeURIComponent\<close> and \<open>decodeURIComponent\<close>, which name the record of a goal in the
  key-value store: code points are written in UTF-8, every byte outside the unreserved ASCII
  characters as \<open>%XX\<close>. A lone surrogate makes the encoder throw, an ill-formed escape the
  decoder; both are \<open>None\<close> here. What is encoded is decoded unchanged, so keys are injective.
\<close>

subsection \<open>Code points\<close>

definition pairValue :: "16 word \<Rightarrow> 16 word \<Rightarrow> nat" where
  "pairValue h l = 65536 + (unat h - 55296) * 1024 + (unat l - 56320)"

fun codePoints :: "jstr \<Rightarrow> nat list option" where
  "codePoints [] = Some []"
| "codePoints (c # cs) =
     (if isHighSurrogate c then
        (case cs of [] \<Rightarrow> None
         | d # ds \<Rightarrow>
             if isLowSurrogate d then map_option ((#) (pairValue c d)) (codePoints ds) else None)
      else if isLowSurrogate c then None
      else map_option ((#) (unat c)) (codePoints cs))"

definition pointUnits :: "nat \<Rightarrow> jstr" where
  "pointUnits n =
     (if n < 65536 then [of_nat n]
      else [of_nat (55296 + (n - 65536) div 1024), of_nat (56320 + (n - 65536) mod 1024)])"

definition isPoint :: "nat \<Rightarrow> bool" where
  "isPoint n \<longleftrightarrow> n < 55296 \<or> 57343 < n \<and> n < 1114112"

lemma surrogate_nat:
  "isHighSurrogate c \<longleftrightarrow> 55296 \<le> unat c \<and> unat c \<le> 56319"
  "isLowSurrogate c \<longleftrightarrow> 56320 \<le> unat c \<and> unat c \<le> 57343"
  by (simp_all add: isHighSurrogate_def isLowSurrogate_def word_le_nat_alt)

lemma unat_unit: "unat (c :: 16 word) < 65536"
  using unsigned_less [of c] by simp

lemma codePoints_Some_iff: "codePoints s \<noteq> None \<longleftrightarrow> isWellFormed s"
  by (induction s rule: codePoints.induct) (auto split: list.splits)

lemma pairValue_units:
  assumes "isHighSurrogate h" "isLowSurrogate l"
  shows "pointUnits (pairValue h l) = [h, l]" "isPoint (pairValue h l)"
proof -
  define a b where "a = unat h - 55296" and "b = unat l - 56320"
  have a: "a < 1024" "unat h = 55296 + a" and b: "b < 1024" "unat l = 56320 + b"
    using assms unfolding surrogate_nat a_def b_def by linarith+
  have v: "pairValue h l = 65536 + (a * 1024 + b)"
    by (simp add: pairValue_def a_def b_def)
  have d: "(a * 1024 + b) div 1024 = a" "(a * 1024 + b) mod 1024 = b"
    using b(1) by simp_all
  have "of_nat (55296 + a) = h" "of_nat (56320 + b) = l"
    unfolding a(2) [symmetric] b(2) [symmetric] by simp_all
  then show "pointUnits (pairValue h l) = [h, l]"
    unfolding v pointUnits_def using b(1) by (simp add: d)
  have "a * 1024 + b < 1048576" using a(1) b(1) by linarith
  then show "isPoint (pairValue h l)" unfolding v isPoint_def by linarith
qed

lemma codePoints_units:
  "codePoints s = Some cps \<Longrightarrow> concat (map pointUnits cps) = s \<and> list_all isPoint cps"
proof (induction s arbitrary: cps rule: codePoints.induct)
  case (2 c cs)
  show ?case
  proof (cases "isHighSurrogate c")
    case True
    with 2(3) obtain d ds where cs: "cs = d # ds" "isLowSurrogate d"
      by (auto split: list.splits if_splits)
    with 2(3) True obtain rest where "codePoints ds = Some rest" "cps = pairValue c d # rest"
      by auto
    with 2(1) [OF True] cs True pairValue_units show ?thesis by fastforce
  next
    case False
    with 2(3) obtain rest where rest: "codePoints cs = Some rest" "cps = unat c # rest"
        "\<not> isLowSurrogate c"
      by (auto split: if_splits)
    have "pointUnits (unat c) = [c]" by (simp add: pointUnits_def unat_unit)
    moreover have "isPoint (unat c)"
      using False rest(3) unat_unit [of c] unfolding isPoint_def surrogate_nat by linarith
    ultimately show ?thesis using 2(2) [OF False rest(3) rest(1)] rest(2) by simp
  qed
qed simp

subsection \<open>UTF-8 and percent escapes\<close>

definition utf8OfPoint :: "nat \<Rightarrow> nat list" where
  "utf8OfPoint n =
     (if n < 128 then [n]
      else if n < 2048 then [192 + n div 64, 128 + n mod 64]
      else if n < 65536 then [224 + n div 64 div 64, 128 + n div 64 mod 64, 128 + n mod 64]
      else [240 + n div 64 div 64 div 64, 128 + n div 64 div 64 mod 64,
            128 + n div 64 mod 64, 128 + n mod 64])"

definition hexUnit :: "nat \<Rightarrow> 16 word" where
  "hexUnit d = (if d < 10 then of_nat (48 + d) else of_nat (55 + d))"

definition hexValue :: "16 word \<Rightarrow> nat option" where
  "hexValue c =
     (let n = unat c
      in if 48 \<le> n \<and> n \<le> 57 then Some (n - 48)
         else if 65 \<le> n \<and> n \<le> 70 then Some (n - 55)
         else if 97 \<le> n \<and> n \<le> 102 then Some (n - 87)
         else None)"

definition percent :: "16 word" where
  "percent = ch (CHR 0x25)"

definition percentByte :: "nat \<Rightarrow> jstr" where
  "percentByte b = [percent, hexUnit (b div 16), hexUnit (b mod 16)]"

definition isUnreserved :: "nat \<Rightarrow> bool" where
  "isUnreserved n \<longleftrightarrow>
     97 \<le> n \<and> n \<le> 122 \<or> 65 \<le> n \<and> n \<le> 90 \<or> 48 \<le> n \<and> n \<le> 57
     \<or> n \<in> set [45, 95, 46, 33, 126, 42, 39, 40, 41]"

definition encodePoint :: "nat \<Rightarrow> jstr" where
  "encodePoint n =
     (if isUnreserved n then [of_nat n] else concat (map percentByte (utf8OfPoint n)))"

definition encodeURIComponent :: "jstr \<Rightarrow> jstr option" where
  "encodeURIComponent s = map_option (\<lambda>cps. concat (map encodePoint cps)) (codePoints s)"

text \<open>Reading one escape, the continuation bytes of a sequence, and the whole text.\<close>

fun readByte :: "jstr \<Rightarrow> (nat \<times> jstr) option" where
  "readByte (p # a # b # rest) =
     (if p \<noteq> percent then None
      else case (hexValue a, hexValue b) of
          (Some x, Some y) \<Rightarrow> Some (16 * x + y, rest)
        | _ \<Rightarrow> None)"
| "readByte _ = None"

fun readContinuations :: "nat \<Rightarrow> nat \<Rightarrow> jstr \<Rightarrow> (nat \<times> jstr) option" where
  "readContinuations 0 acc s = Some (acc, s)"
| "readContinuations (Suc k) acc s =
     (case readByte s of
        Some (b, rest) \<Rightarrow>
          if 128 \<le> b \<and> b \<le> 191 then readContinuations k (64 * acc + (b - 128)) rest else None
      | None \<Rightarrow> None)"

lemma readByte_shorter: "readByte s = Some (b, rest) \<Longrightarrow> length rest < length s"
  by (induction s rule: readByte.induct) (auto split: if_splits option.splits)

lemma readContinuations_shorter:
  "readContinuations k acc s = Some (n, rest) \<Longrightarrow> length rest \<le> length s"
proof (induction k arbitrary: acc s)
  case (Suc k)
  then obtain b r where "readByte s = Some (b, r)"
    "readContinuations k (64 * acc + (b - 128)) r = Some (n, rest)"
    by (auto split: option.splits if_splits)
  with Suc.IH readByte_shorter show ?case by (meson le_trans less_imp_le)
qed simp

declare readContinuations.simps(2) [simp del]

definition decodeSequence :: "nat \<Rightarrow> jstr \<Rightarrow> (nat \<times> jstr) option" where
  "decodeSequence b rest =
     (if b < 128 then Some (b, rest)
      else if 192 \<le> b \<and> b \<le> 223 then
        (case readContinuations 1 (b - 192) rest of
           Some (n, r) \<Rightarrow> if 128 \<le> n then Some (n, r) else None | None \<Rightarrow> None)
      else if 224 \<le> b \<and> b \<le> 239 then
        (case readContinuations 2 (b - 224) rest of
           Some (n, r) \<Rightarrow> if 2048 \<le> n \<and> isPoint n then Some (n, r) else None | None \<Rightarrow> None)
      else if 240 \<le> b \<and> b \<le> 247 then
        (case readContinuations 3 (b - 240) rest of
           Some (n, r) \<Rightarrow> if 65536 \<le> n \<and> isPoint n then Some (n, r) else None | None \<Rightarrow> None)
      else None)"

lemma decodeSequence_shorter: "decodeSequence b s = Some (n, rest) \<Longrightarrow> length rest \<le> length s"
  by (auto simp: decodeSequence_def split: if_splits option.splits dest: readContinuations_shorter)

function (sequential) decodeURIComponent :: "jstr \<Rightarrow> jstr option" where
  "decodeURIComponent [] = Some []"
| "decodeURIComponent (c # cs) =
     (if c \<noteq> percent then map_option ((#) c) (decodeURIComponent cs)
      else case readByte (c # cs) of
          None \<Rightarrow> None
        | Some (b, rest) \<Rightarrow>
            (case decodeSequence b rest of
               None \<Rightarrow> None
             | Some (n, r) \<Rightarrow> map_option ((@) (pointUnits n)) (decodeURIComponent r)))"
  by pat_completeness auto
termination
proof (relation "measure length")
  fix c cs b rest n r and x :: "nat \<times> jstr" and y :: "nat \<times> jstr"
  assume "readByte (c # cs) = Some x" "(b, rest) = x" "decodeSequence b rest = Some y" "(n, r) = y"
  with readByte_shorter [of "c # cs" b rest] decodeSequence_shorter [of b rest n r]
  show "(r, c # cs) \<in> measure length" by auto
qed auto

subsection \<open>What is encoded is decoded\<close>

lemma hexValue_hexUnit: "d < 16 \<Longrightarrow> hexValue (hexUnit d) = Some d"
  by (auto simp: hexValue_def hexUnit_def unat_of_nat Let_def simp del: of_nat_add)

lemma readByte_percentByte: "b < 256 \<Longrightarrow> readByte (percentByte b @ rest) = Some (b, rest)"
proof -
  assume "b < 256"
  then have "b div 16 < 16" "b mod 16 < 16" by (simp_all add: less_mult_imp_div_less)
  then show ?thesis by (simp add: percentByte_def hexValue_hexUnit)
qed

lemma readContinuations_step:
  "m < 64 \<Longrightarrow> readContinuations (Suc k) acc (percentByte (128 + m) @ rest)
     = readContinuations k (64 * acc + m) rest"
  by (simp add: readByte_percentByte readContinuations.simps(2))

lemma decodeSequence_utf8:
  assumes "isPoint n"
  shows "\<exists>b bs. utf8OfPoint n = b # bs \<and> b < 256
    \<and> decodeSequence b (concat (map percentByte bs) @ rest) = Some (n, rest)"
proof -
  define a b c d where "a = n mod 64" and "b = n div 64 mod 64" and "c = n div 64 div 64 mod 64"
    and "d = n div 64 div 64 div 64"
  have m: "a < 64" "b < 64" "c < 64" by (simp_all add: a_def b_def c_def)
  have s: "n = 64 * (n div 64) + a" "n div 64 = 64 * (n div 64 div 64) + b"
    "n div 64 div 64 = 64 * d + c"
    by (simp_all add: a_def b_def c_def d_def)
  consider "n < 128" | "128 \<le> n" "n < 2048" | "2048 \<le> n" "n < 65536" | "65536 \<le> n" by linarith
  then show ?thesis
  proof cases
    case 1
    then show ?thesis by (simp add: utf8OfPoint_def decodeSequence_def)
  next
    case 2
    have "n div 64 < 32" using 2 s m by linarith
    moreover have "utf8OfPoint n = [192 + n div 64, 128 + a]" using 2 by (simp add: utf8OfPoint_def a_def)
    ultimately show ?thesis
      using 2 m s(1)
      by (simp add: decodeSequence_def readContinuations_step numeral_eq_Suc [of "num.One"])
  next
    case 3
    have "n div 64 div 64 < 16" using 3 s m by linarith
    moreover have "utf8OfPoint n = [224 + n div 64 div 64, 128 + b, 128 + a]"
      using 3 by (simp add: utf8OfPoint_def a_def b_def)
    moreover have "64 * (64 * (n div 64 div 64) + b) + a = n"
      by (simp only: s(1,2) [symmetric])
    ultimately show ?thesis
      using 3 m assms by (simp add: decodeSequence_def readContinuations_step numeral_2_eq_2)
  next
    case 4
    then have "n < 1114112" using assms by (auto simp: isPoint_def)
    then have "d < 8" using s m by linarith
    moreover have "utf8OfPoint n = [240 + d, 128 + c, 128 + b, 128 + a]"
      using 4 by (simp add: utf8OfPoint_def a_def b_def c_def d_def)
    moreover have "64 * (64 * (64 * d + c) + b) + a = n"
      by (simp only: s [symmetric])
    ultimately show ?thesis
      using 4 m assms by (simp add: decodeSequence_def readContinuations_step numeral_3_eq_3)
  qed
qed

lemma percent_nat: "unat percent = 37"
  by (simp add: percent_def unat_ch)

lemma decode_encodePoint:
  assumes "isPoint n"
  shows "decodeURIComponent (encodePoint n @ rest)
    = map_option ((@) (pointUnits n)) (decodeURIComponent rest)"
proof (cases "isUnreserved n")
  case True
  then have n: "n < 128" "n \<noteq> 37" by (auto simp: isUnreserved_def)
  then have "unat (of_nat n :: 16 word) = n" by (simp add: unat_of_nat)
  with n have "(of_nat n :: 16 word) \<noteq> percent" by (metis percent_nat)
  moreover have "(@) (pointUnits n) = (#) (of_nat n)" using n by (auto simp: pointUnits_def)
  ultimately show ?thesis using True by (simp add: encodePoint_def)
next
  case False
  from decodeSequence_utf8 [OF assms, of rest] obtain b bs where b: "utf8OfPoint n = b # bs"
    "b < 256" "decodeSequence b (concat (map percentByte bs) @ rest) = Some (n, rest)"
    by auto
  have "encodePoint n @ rest = percentByte b @ (concat (map percentByte bs) @ rest)"
    using False b(1) by (simp add: encodePoint_def)
  moreover have "decodeURIComponent (percentByte b @ r)
      = (case decodeSequence b r of None \<Rightarrow> None
         | Some (n, r) \<Rightarrow> map_option ((@) (pointUnits n)) (decodeURIComponent r))" for r
    using readByte_percentByte [OF b(2), of r] by (simp add: percentByte_def)
  ultimately show ?thesis using b(3) by simp
qed

theorem decode_encodeURIComponent:
  "encodeURIComponent s = Some e \<Longrightarrow> decodeURIComponent e = Some s"
proof -
  assume "encodeURIComponent s = Some e"
  then obtain cps where cps: "codePoints s = Some cps" "e = concat (map encodePoint cps)"
    by (auto simp: encodeURIComponent_def)
  have "list_all isPoint ns \<Longrightarrow>
      decodeURIComponent (concat (map encodePoint ns)) = Some (concat (map pointUnits ns))" for ns
    by (induction ns) (simp_all add: decode_encodePoint)
  with codePoints_units [OF cps(1)] cps(2) show ?thesis by simp
qed

lemma encodeURIComponent_defined_iff: "encodeURIComponent s \<noteq> None \<longleftrightarrow> isWellFormed s"
  using codePoints_Some_iff [of s] by (simp add: encodeURIComponent_def)

lemma encodeURIComponent_inject:
  "encodeURIComponent s = Some e \<Longrightarrow> encodeURIComponent t = Some e \<Longrightarrow> s = t"
  by (metis decode_encodeURIComponent option.inject)

end
