(* ===== verification/GoalStore.thy ===== *)
theory GoalStore
  imports GoalEvents GoalBounding JsUri
begin

section \<open>The durable store of goal records\<close>

text \<open>
  \<open>packages/bureau/src/goal-store.ts\<close>: every write is a compare-and-swap of the exact stored
  text under the goal's key. A controller commits transitions, the control plane writes the
  cancellation marker, the restart count and the closing stamps. The conditional key-value
  store is a parameter (\<open>text_store\<close>) with its documented contract as a hypothesis
  (\<open>compareAndSwap\<close>), and other writers are explicit: \<open>interfere\<close> is what they do to the store
  before each read and between each read and the write that follows it.
\<close>

subsection \<open>Keys and reads\<close>

definition GOAL_RECORD_KEY_PREFIX :: jstr where
  "GOAL_RECORD_KEY_PREFIX = lit ''bureau-goal:record:''"

text \<open>\<open>None\<close> is the \<open>URIError\<close> of an id that is not well-formed text.\<close>

definition goalRecordKey :: "jstr \<Rightarrow> jstr option" where
  "goalRecordKey goalRunId =
     map_option ((@) GOAL_RECORD_KEY_PREFIX) (encodeURIComponent goalRunId)"

definition decodeGoalRunIdFromKey :: "jstr \<Rightarrow> jstr" where
  "decodeGoalRunIdFromKey key =
     (let encoded = drop (length GOAL_RECORD_KEY_PREFIX) key
      in withDefault encoded (decodeURIComponent encoded))"

record 'kv text_store =
  kv_get :: "'kv \<Rightarrow> jstr \<Rightarrow> stored_text option"
  kv_conditionalSet :: "'kv \<Rightarrow> jstr \<Rightarrow> stored_text option \<Rightarrow> stored_text \<Rightarrow> bool \<times> 'kv"
  kv_list :: "'kv \<Rightarrow> jstr \<Rightarrow> jstr list"

text \<open>
  The contract of \<open>conditionalBatch([{ key, expectedValue }], [{ type: 'set', key, value }])\<close>: it
  commits exactly when the key holds the expected value, then changes that key alone, and a
  batch that does not commit changes nothing.
\<close>

definition compareAndSwap :: "'kv text_store \<Rightarrow> bool" where
  "compareAndSwap kv \<longleftrightarrow>
     (\<forall>h key expected text.
        (if kv_get kv h key = expected
         then fst (kv_conditionalSet kv h key expected text)
           \<and> kv_get kv (snd (kv_conditionalSet kv h key expected text))
             = (kv_get kv h)(key := Some text)
         else kv_conditionalSet kv h key expected text = (False, h)))"

datatype stored = Found stored_text goal_state | MissingRecord | CorruptRecord

definition isKeyableGoalRunId :: "jsval \<Rightarrow> bool" where
  "isKeyableGoalRunId v \<longleftrightarrow> isString v \<and> isWellFormed (asString v)"

definition readKey :: "platform \<Rightarrow> 'kv text_store \<Rightarrow> 'kv \<Rightarrow> jstr \<Rightarrow> stored" where
  "readKey p kv h key =
     (case kv_get kv h key of
        None \<Rightarrow> MissingRecord
      | Some raw \<Rightarrow>
          (case decodeGoalState p raw of
             None \<Rightarrow> CorruptRecord
           | Some record \<Rightarrow>
               if goalRecordKey (s_goalRunId record) \<noteq> Some key then CorruptRecord
               else Found raw record))"

definition keyOf :: "jsval \<Rightarrow> jstr option" where
  "keyOf goalRunId =
     (if isKeyableGoalRunId goalRunId then goalRecordKey (asString goalRunId) else None)"

definition getRecord :: "platform \<Rightarrow> 'kv text_store \<Rightarrow> 'kv \<Rightarrow> jsval \<Rightarrow> goal_state option" where
  "getRecord p kv h goalRunId =
     (case keyOf goalRunId of
        None \<Rightarrow> None
      | Some key \<Rightarrow> (case readKey p kv h key of Found _ record \<Rightarrow> Some record | _ \<Rightarrow> None))"

definition isUnreadable :: "platform \<Rightarrow> 'kv text_store \<Rightarrow> 'kv \<Rightarrow> jsval \<Rightarrow> bool" where
  "isUnreadable p kv h goalRunId =
     (case keyOf goalRunId of
        None \<Rightarrow> False | Some key \<Rightarrow> readKey p kv h key = CorruptRecord)"

record goal_scan =
  sc_records :: "goal_state list"
  sc_unreadable :: "jstr list"

definition scan :: "platform \<Rightarrow> 'kv text_store \<Rightarrow> 'kv \<Rightarrow> goal_scan" where
  "scan p kv h =
     (let stored = map (\<lambda>key. (key, readKey p kv h key)) (kv_list kv h GOAL_RECORD_KEY_PREFIX)
      in \<lparr>sc_records =
            List.map_filter (\<lambda>(_, entry). case entry of Found _ record \<Rightarrow> Some record | _ \<Rightarrow> None) stored,
          sc_unreadable =
            List.map_filter
              (\<lambda>(key, entry). if entry = CorruptRecord then Some (decodeGoalRunIdFromKey key) else None)
              stored\<rparr>)"

subsection \<open>Evaluating a transition\<close>

definition hasValidTerminalReason :: "transition_request \<Rightarrow> bool" where
  "hasValidTerminalReason request =
     (if \<not> isTerminalStatus (rq_to request) then rq_terminalReason request = None
      else (case rq_terminalReason request of
          None \<Rightarrow> False
        | Some reason \<Rightarrow> TERMINAL_STATUS_BY_REASON reason = rq_to request))"

definition applyAttempt ::
    "goal_state \<Rightarrow> transition_request \<Rightarrow> rejection + goal_attempt list" where
  "applyAttempt current request =
     (case rq_attempt request of
        None \<Rightarrow> Inr (s_attempts current)
      | Some patch \<Rightarrow>
          (let index = a_attemptIndex patch
           in if index > length (s_attempts current)
                \<or> a_attemptId patch \<noteq> goalAttemptId (s_goalRunId current) index
              then Inl RInvalidAttempt
              else if (case a_validation patch of None \<Rightarrow> False
                  | Some v \<Rightarrow> validationByteLength v > GOAL_VALIDATION_MAXIMUM_BYTES)
                then Inl ROversized
              else
                (let recorded = Option.bind (elementAt (s_attempts current) index) a_validation
                 in if recorded \<noteq> None
                      \<and> map_option vl_decisionId recorded
                        \<noteq> map_option vl_decisionId (a_validation patch)
                    then Inl RDecisionAlreadyRecorded
                    else Inr (if index < length (s_attempts current)
                              then (s_attempts current)[index := patch]
                              else s_attempts current @ [patch]))))"

definition buildNext ::
    "platform \<Rightarrow> goal_state \<Rightarrow> transition_request \<Rightarrow> goal_attempt list \<Rightarrow> goal_state" where
  "buildNext p current request attempts =
     (let active = (case rq_active request of
            KeepActive \<Rightarrow> s_active current | ClearActive \<Rightarrow> None | SetActive w \<Rightarrow> Some w);
          next = current
            \<lparr>s_transitionSeq := rq_seq request,
             s_status := rq_to request,
             s_currentTransition :=
               \<lparr>tr_seq = rq_seq request, tr_transitionId = rq_transitionId request,
                tr_from = s_status current, tr_to = rq_to request, tr_at = rq_at request,
                tr_cause = rq_cause request\<rparr>,
             s_attempts := attempts,
             s_usage := withDefault (s_usage current) (rq_usage request),
             s_updatedAt := rq_at request,
             s_terminalReason := rq_terminalReason request,
             s_failureDetail := rq_failureDetail request,
             s_active := active\<rparr>;
          entry = \<lparr>en_seq = rq_seq request, en_transitionId = rq_transitionId request,
                   en_events = auditEventsForTransition p next\<rparr>
      in next\<lparr>s_auditLog := s_auditLog current @ [entry]\<rparr>)"

datatype 'r evaluation = Write goal_state | Done 'r

datatype transition_result =
    Applied goal_state
  | Duplicate goal_state
  | Stale goal_state
  | Rejected rejection goal_state

definition evaluateTransition ::
    "platform \<Rightarrow> transition_request \<Rightarrow> goal_state \<Rightarrow> transition_result evaluation" where
  "evaluateTransition p request current =
     (if tr_transitionId (s_currentTransition current) = rq_transitionId request then
        (if tr_to (s_currentTransition current) = rq_to request
           \<and> tr_seq (s_currentTransition current) = rq_seq request
         then Done (Duplicate current) else Done (Stale current))
      else if s_transitionSeq current + 1 \<noteq> rq_seq request then Done (Stale current)
      else if isTerminalStatus (s_status current) then Done (Rejected RTerminal current)
      else if length (s_auditLog current) \<ge> GOAL_AUDIT_LOG_MAXIMUM_ENTRIES
        then Done (Rejected ROversized current)
      else if s_cancellation current \<noteq> None \<and> rq_to request \<noteq> Canceled
        then Done (Rejected RCancellationRequested current)
      else if \<not> canTransitionGoalRun (s_status current) (rq_to request)
        then Done (Rejected RIllegalTransition current)
      else if \<not> hasValidTerminalReason request then Done (Rejected RInvalidTerminalReason current)
      else (case applyAttempt current request of
          Inl reason \<Rightarrow> Done (Rejected reason current)
        | Inr attempts \<Rightarrow>
            (let next = buildNext p current request attempts
             in if validState p next then Write next else Done (Rejected RInvalidRecord current))))"

subsection \<open>The control plane\<close>

datatype control_rejection =
    CTerminal
  | CNotTerminal
  | CNotClosed
  | CAuditLogFull
  | CCancellationRequested

datatype control_result =
    Updated goal_state
  | Unchanged goal_state
  | Refused control_rejection goal_state
  | ControlStale goal_state

definition evaluateCancellation ::
    "cancellation_marker \<Rightarrow> jstr \<Rightarrow> goal_state \<Rightarrow> control_result evaluation" where
  "evaluateCancellation marker now current =
     (if s_cancellation current \<noteq> None then Done (Unchanged current)
      else if isTerminalStatus (s_status current) then Done (Refused CTerminal current)
      else Write (current\<lparr>s_cancellation := Some marker, s_updatedAt := now\<rparr>))"

definition withRestart :: "goal_state \<Rightarrow> jstr \<Rightarrow> goal_state" where
  "withRestart current now =
     (let counted = current
            \<lparr>s_controllerRestarts := s_controllerRestarts current + 1, s_updatedAt := now\<rparr>;
          entry = \<lparr>en_seq = s_transitionSeq counted, en_transitionId = restartEntryId counted,
                   en_events = [auditEventForRestart counted]\<rparr>
      in counted\<lparr>s_auditLog := s_auditLog current @ [entry]\<rparr>)"

definition evaluateRestart ::
    "jstr \<Rightarrow> nat option \<Rightarrow> goal_state \<Rightarrow> control_result evaluation" where
  "evaluateRestart now expectedCount current =
     (if isTerminalStatus (s_status current) then Done (Refused CTerminal current)
      else if s_cancellation current \<noteq> None then Done (Refused CCancellationRequested current)
      else if expectedCount \<noteq> None \<and> Some (s_controllerRestarts current) \<noteq> expectedCount
        then Done (ControlStale current)
      else if length (s_auditLog current) \<ge> GOAL_AUDIT_LOG_MAXIMUM_ENTRIES
        then Done (Refused CAuditLogFull current)
      else Write (withRestart current now))"

definition evaluateClose :: "jstr \<Rightarrow> goal_state \<Rightarrow> control_result evaluation" where
  "evaluateClose stamp current =
     (if \<not> isTerminalStatus (s_status current) then Done (Refused CNotTerminal current)
      else if s_closedAt current \<noteq> None then Done (Unchanged current)
      else Write (current\<lparr>s_closedAt := Some stamp, s_updatedAt := stamp\<rparr>))"

definition evaluateCleanedUp :: "jstr \<Rightarrow> goal_state \<Rightarrow> control_result evaluation" where
  "evaluateCleanedUp stamp current =
     (if s_closedAt current = None then Done (Refused CNotClosed current)
      else if s_cleanedUpAt current \<noteq> None then Done (Unchanged current)
      else Write (current\<lparr>s_cleanedUpAt := Some stamp, s_updatedAt := stamp\<rparr>))"

subsection \<open>Read, evaluate, compare and swap\<close>

definition MAXIMUM_CAS_ATTEMPTS :: nat where
  "MAXIMUM_CAS_ATTEMPTS = 16"

text \<open>\<open>Thrown\<close> is the \<open>InvalidGoalStateError\<close> of a write that would not decode.\<close>

datatype 'r mutation = Answer 'r | Missing | Corrupt | Thrown

text \<open>
  The loop, from the attempt that leaves \<open>remaining\<close> more. \<open>interfere\<close> is applied before the read
  (odd index) and before the write (even index).
\<close>

fun casLoop ::
    "platform \<Rightarrow> 'kv text_store \<Rightarrow> (nat \<Rightarrow> 'kv \<Rightarrow> 'kv) \<Rightarrow> jstr \<Rightarrow> (goal_state \<Rightarrow> 'r evaluation)
       \<Rightarrow> (goal_state \<Rightarrow> 'r) \<Rightarrow> (goal_state \<Rightarrow> 'r) \<Rightarrow> nat \<Rightarrow> 'kv \<Rightarrow> 'r mutation \<times> 'kv" where
  "casLoop p kv interfere key evaluate stale written remaining h =
     (let h = interfere (2 * remaining + 1) h
      in case readKey p kv h key of
          MissingRecord \<Rightarrow> (Missing, h)
        | CorruptRecord \<Rightarrow> (Corrupt, h)
        | Found raw current \<Rightarrow>
            (case evaluate current of
               Done result \<Rightarrow> (Answer result, h)
             | Write next \<Rightarrow>
                 (let record = next\<lparr>s_revision := s_revision current + 1\<rparr>
                  in if \<not> validState p record then (Thrown, h)
                     else case kv_conditionalSet kv (interfere (2 * remaining) h) key (Some raw)
                            (stringifyState record) of
                         (committed, h') \<Rightarrow>
                           if committed then (Answer (written record), h')
                           else (case remaining of
                               0 \<Rightarrow> (Answer (stale current), h')
                             | Suc r \<Rightarrow>
                                 casLoop p kv interfere key evaluate stale written r h'))))"

declare casLoop.simps [simp del]

definition mutate ::
    "platform \<Rightarrow> 'kv text_store \<Rightarrow> (nat \<Rightarrow> 'kv \<Rightarrow> 'kv) \<Rightarrow> jsval \<Rightarrow> (goal_state \<Rightarrow> 'r evaluation)
       \<Rightarrow> (goal_state \<Rightarrow> 'r) \<Rightarrow> (goal_state \<Rightarrow> 'r) \<Rightarrow> 'kv \<Rightarrow> 'r mutation \<times> 'kv" where
  "mutate p kv interfere goalRunId evaluate stale written h =
     (case keyOf goalRunId of
        None \<Rightarrow> (Missing, h)
      | Some key \<Rightarrow>
          casLoop p kv interfere key evaluate stale written (MAXIMUM_CAS_ATTEMPTS - 1) h)"

definition control ::
    "platform \<Rightarrow> 'kv text_store \<Rightarrow> (nat \<Rightarrow> 'kv \<Rightarrow> 'kv) \<Rightarrow> jsval
       \<Rightarrow> (goal_state \<Rightarrow> control_result evaluation) \<Rightarrow> 'kv \<Rightarrow> control_result mutation \<times> 'kv" where
  "control p kv interfere goalRunId evaluate h =
     mutate p kv interfere goalRunId evaluate ControlStale Updated h"

text \<open>\<open>applyTransition\<close> with what its observer is told.\<close>

definition applyTransition ::
    "platform \<Rightarrow> 'kv text_store \<Rightarrow> (nat \<Rightarrow> 'kv \<Rightarrow> 'kv) \<Rightarrow> transition_request \<Rightarrow> 'kv
       \<Rightarrow> (transition_result mutation \<times> goal_observation list) \<times> 'kv" where
  "applyTransition p kv interfere request h =
     (case mutate p kv interfere (JStr (rq_goalRunId request)) (evaluateTransition p request)
         Stale Applied h of
        (result, h') \<Rightarrow>
          ((result,
            case result of
              Answer (Applied record) \<Rightarrow> [Transitioned record]
            | Answer (Duplicate record) \<Rightarrow> [Transitioned record]
            | _ \<Rightarrow> []), h'))"

definition requestCancellation ::
    "platform \<Rightarrow> 'kv text_store \<Rightarrow> (nat \<Rightarrow> 'kv \<Rightarrow> 'kv) \<Rightarrow> jsval \<Rightarrow> cancellation_marker \<Rightarrow> jstr
       \<Rightarrow> 'kv \<Rightarrow> control_result mutation \<times> 'kv" where
  "requestCancellation p kv interfere goalRunId marker now h =
     control p kv interfere goalRunId (evaluateCancellation marker now) h"

definition recordControllerRestart ::
    "platform \<Rightarrow> 'kv text_store \<Rightarrow> (nat \<Rightarrow> 'kv \<Rightarrow> 'kv) \<Rightarrow> jsval \<Rightarrow> jstr \<Rightarrow> nat option \<Rightarrow> 'kv
       \<Rightarrow> (control_result mutation \<times> goal_observation list) \<times> 'kv" where
  "recordControllerRestart p kv interfere goalRunId now expectedCount h =
     (case control p kv interfere goalRunId (evaluateRestart now expectedCount) h of
        (result, h') \<Rightarrow>
          ((result,
            case result of Answer (Updated record) \<Rightarrow> [ControllerRestarted record] | _ \<Rightarrow> []), h'))"

definition closeGoal ::
    "platform \<Rightarrow> 'kv text_store \<Rightarrow> (nat \<Rightarrow> 'kv \<Rightarrow> 'kv) \<Rightarrow> jsval \<Rightarrow> jstr \<Rightarrow> 'kv
       \<Rightarrow> control_result mutation \<times> 'kv" where
  "closeGoal p kv interfere goalRunId stamp h =
     control p kv interfere goalRunId (evaluateClose stamp) h"

definition markCleanedUp ::
    "platform \<Rightarrow> 'kv text_store \<Rightarrow> (nat \<Rightarrow> 'kv \<Rightarrow> 'kv) \<Rightarrow> jsval \<Rightarrow> jstr \<Rightarrow> 'kv
       \<Rightarrow> control_result mutation \<times> 'kv" where
  "markCleanedUp p kv interfere goalRunId stamp h =
     control p kv interfere goalRunId (evaluateCleanedUp stamp) h"

datatype creation =
    CreatedRecord goal_state
  | DuplicateRecord "goal_state option"
  | CreationThrew

definition createRecord ::
    "platform \<Rightarrow> 'kv text_store \<Rightarrow> goal_state \<Rightarrow> 'kv \<Rightarrow> (creation \<times> goal_observation list) \<times> 'kv" where
  "createRecord p kv state h =
     (if \<not> validState p state then ((CreationThrew, []), h)
      else if s_revision state \<noteq> 1 \<or> s_transitionSeq state \<noteq> 0 \<or> s_status state \<noteq> Pending
        then ((CreationThrew, []), h)
      else case goalRecordKey (s_goalRunId state) of
          None \<Rightarrow> ((CreationThrew, []), h)
        | Some key \<Rightarrow>
            (case kv_conditionalSet kv h key None (stringifyState state) of
               (committed, h') \<Rightarrow>
                 if committed then ((CreatedRecord state, [Created state]), h')
                 else ((DuplicateRecord (getRecord p kv h' (JStr (s_goalRunId state))), []), h')))"

end
