(* ===== verification/GoalController.thy ===== *)
theory GoalController
  imports GoalTransitions GoalStore
begin

section \<open>The goal controller\<close>

text \<open>
  The durable workflow \<open>packages/operative/src/durable/goal-workflow.ts\<close>. A workflow body is a
  sequence of recorded operations (slots) with a continuation for what each answers, so its
  segments are values of \<open>proc\<close>: every \<open>yield*\<close> of the source is one constructor, in the
  order the source issues them, and replaying a history is following the same continuations.
  An activity that throws, and \<open>toIsoString\<close> of a reading that is no date, end in \<open>Throw\<close>.
\<close>

subsection \<open>Recorded operations\<close>

datatype commit_answer =
    CApplied | CDuplicate | CStale | CRejected rejection | CMissing | CCorrupt

record start_request =
  sr_goalRunId :: jstr
  sr_attemptIndex :: nat
  sr_attemptId :: jstr
  sr_runId :: jstr
  sr_feedback :: "jstr option"

record start_options =
  so_timeout :: jnum
  so_maxAttempts :: nat
  so_scheduleToCloseTimeout :: "jnum option"

datatype start_answer = Started jstr | StartFailed jstr | StoodDown

record validator_request =
  vq_goalRunId :: jstr
  vq_attemptId :: jstr
  vq_attemptIndex :: nat
  vq_validator :: goal_identity
  vq_validatorTimeoutMs :: "jnum option"

text \<open>
  \<open>AwaitAttempt\<close> is \<open>raceKeyed\<close> over the attempt's signal, the cancel signal and, with a
  duration bound, the deadline; only the attempt's win carries a value. \<open>Validate\<close> is the
  validator's activity, raced against the deadline when there is one: no value, no verdict.
\<close>

datatype 'a proc =
    Return 'a
  | Throw
  | Load jstr "goal_view option \<Rightarrow> jnum \<Rightarrow> 'a proc"
  | Commit transition_request "commit_answer \<Rightarrow> 'a proc"
  | StartAttempt start_request start_options "start_answer \<Rightarrow> 'a proc"
  | Validate validator_request "jnum option" "validator_result option \<Rightarrow> 'a proc"
  | AbortAttempt abort_request "'a proc"
  | AwaitAttempt jstr "jnum option" "terminal_signal option \<Rightarrow> 'a proc"
  | StageFinalizer abort_request "'a proc"

primrec bindProc :: "'a proc \<Rightarrow> ('a \<Rightarrow> 'b proc) \<Rightarrow> 'b proc" where
  "bindProc (Return x) f = f x"
| "bindProc Throw f = Throw"
| "bindProc (Load g k) f = Load g (\<lambda>view now. bindProc (k view now) f)"
| "bindProc (Commit rq k) f = Commit rq (\<lambda>c. bindProc (k c) f)"
| "bindProc (StartAttempt rq opts k) f = StartAttempt rq opts (\<lambda>a. bindProc (k a) f)"
| "bindProc (Validate rq deadline k) f = Validate rq deadline (\<lambda>r. bindProc (k r) f)"
| "bindProc (AbortAttempt rq k) f = AbortAttempt rq (bindProc k f)"
| "bindProc (AwaitAttempt name deadline k) f = AwaitAttempt name deadline (\<lambda>s. bindProc (k s) f)"
| "bindProc (StageFinalizer rq k) f = StageFinalizer rq (bindProc k f)"

subsection \<open>Constants\<close>

definition MAXIMUM_CONSECUTIVE_REFUSALS :: nat where
  "MAXIMUM_CONSECUTIVE_REFUSALS = 5"

definition MAXIMUM_CONSECUTIVE_IDLE_WAKES :: nat where
  "MAXIMUM_CONSECUTIVE_IDLE_WAKES = 25"

definition ADOPTABLE_REJECTIONS :: "rejection list" where
  "ADOPTABLE_REJECTIONS = [RTerminal, RCancellationRequested, RDecisionAlreadyRecorded]"

definition START_ATTEMPT_TIMEOUT_MS :: jnum where
  "START_ATTEMPT_TIMEOUT_MS = Fin 60000"

definition START_ATTEMPT_MAXIMUM_TRIES :: nat where
  "START_ATTEMPT_MAXIMUM_TRIES = 2"

definition START_ATTEMPT_MAXIMUM_BACKOFF_MS :: jnum where
  "START_ATTEMPT_MAXIMUM_BACKOFF_MS = Fin 0"

definition startAttemptOptions :: "jnum option \<Rightarrow> jnum option \<Rightarrow> start_options" where
  "startAttemptOptions remainingMs timeoutMs =
     (let timeout = withDefault START_ATTEMPT_TIMEOUT_MS timeoutMs
      in \<lparr>so_timeout = timeout, so_maxAttempts = START_ATTEMPT_MAXIMUM_TRIES,
          so_scheduleToCloseTimeout =
            map_option
              (\<lambda>remaining. jadd (jadd (jceil remaining) timeout) START_ATTEMPT_MAXIMUM_BACKOFF_MS)
              remainingMs\<rparr>)"

subsection \<open>Results\<close>

datatype workflow_result =
    TerminalResult jstr goal_run_status terminal_reason "jstr option" nat
  | RecordUnavailable jstr

definition terminalResult :: "goal_view \<Rightarrow> workflow_result option" where
  "terminalResult view =
     map_option
       (\<lambda>reason. TerminalResult (w_goalRunId view) (w_status view) reason (w_failureDetail view)
          (w_transitionSeq view))
       (w_terminalReason view)"

fun isRefusal :: "commit_answer \<Rightarrow> bool" where
  "isRefusal CStale = True"
| "isRefusal (CRejected reason) = (reason \<in> set ADOPTABLE_REJECTIONS)"
| "isRefusal _ = False"

subsection \<open>Segments\<close>

text \<open>What one iteration did: the answer to its commit, or nothing when it only waited.\<close>

type_synonym segment = "commit_answer option proc"

definition commit :: "transition_request option \<Rightarrow> segment" where
  "commit request =
     (case request of None \<Rightarrow> Throw | Some rq \<Rightarrow> Commit rq (\<lambda>answer. Return (Some answer)))"

definition finishForced ::
    "goal_identifiers \<Rightarrow> goal_view \<Rightarrow> jnum \<Rightarrow> json goal_decision \<Rightarrow> segment" where
  "finishForced ids view nowMs decision =
     AbortAttempt (abortRequestFor view ids) (commit (buildGoalForcedFinish view ids nowMs decision))"

definition openAttempt ::
    "goal_identifiers \<Rightarrow> jnum option \<Rightarrow> goal_view \<Rightarrow> jnum \<Rightarrow> segment" where
  "openAttempt ids startTimeout view nowMs =
     (let attemptIndex = length (w_attempts view)
      in if jle (b_maximumAttempts (w_bounds view)) (jnat attemptIndex) then
           finishForced ids view nowMs (Exhaust AttemptLimitReached None)
         else
           StartAttempt
             \<lparr>sr_goalRunId = w_goalRunId view, sr_attemptIndex = attemptIndex,
              sr_attemptId = gi_attemptId ids (w_goalRunId view) attemptIndex,
              sr_runId = gi_attemptRunId ids (w_goalRunId view) attemptIndex,
              sr_feedback = goalInputFeedbackFor (w_attempts view) attemptIndex\<rparr>
             (startAttemptOptions (remainingMilliseconds view nowMs) startTimeout)
             (\<lambda>started. case started of
                StoodDown \<Rightarrow> Return None
              | StartFailed detail \<Rightarrow>
                  Load (w_goalRunId view) (\<lambda>reread now.
                    case reread of
                      None \<Rightarrow> Return None
                    | Some fresh \<Rightarrow>
                        if w_cancellation fresh \<noteq> None \<or> w_status fresh \<noteq> w_status view
                          \<or> w_transitionSeq fresh \<noteq> w_transitionSeq view
                        then Return None
                        else if isDeadlineElapsed fresh now
                          then finishForced ids fresh now decideDurationElapsed
                        else commit (buildStartFailure fresh ids now
                          (decideAttemptRunFailure detail :: json goal_decision)))
              | Started sessionId \<Rightarrow>
                  commit (buildOpenAttempt view ids nowMs attemptIndex sessionId)))"

definition awaitAttempt :: "goal_identifiers \<Rightarrow> goal_view \<Rightarrow> jnum \<Rightarrow> segment" where
  "awaitAttempt ids view nowMs =
     (case currentAttemptOf view of
        None \<Rightarrow> Throw
      | Some attempt \<Rightarrow>
          if a_status attempt \<noteq> ARunning then Throw
          else AwaitAttempt (goalAttemptTerminalSignalName (a_attemptIndex attempt))
            (map_option jceil (remainingMilliseconds view nowMs))
            (\<lambda>winner. case winner of
               None \<Rightarrow> Return None
             | Some finished \<Rightarrow>
                 Load (w_goalRunId view) (\<lambda>reread now.
                   case reread of
                     None \<Rightarrow> Return None
                   | Some fresh \<Rightarrow>
                       if w_cancellation fresh \<noteq> None \<or> w_status fresh \<noteq> Running
                         \<or> w_transitionSeq fresh \<noteq> w_transitionSeq view
                         \<or> isDeadlineElapsed fresh now
                       then Return None
                       else
                         (case decideRunFinish (decisionContextFor fresh now)
                             (ts_finishReason finished) False (ts_costUsd finished \<noteq> None)
                             (goalInputFeedbackFor (w_attempts fresh) (a_attemptIndex attempt)) of
                            Decision decision attemptStatus \<Rightarrow>
                              commit (buildRunFinishDecision fresh ids now attempt finished
                                (decision :: json goal_decision) attemptStatus)
                          | GoalDecision.Validate \<Rightarrow>
                              commit (buildEvaluationStarted fresh ids now attempt finished)))))"

definition validate :: "goal_identifiers \<Rightarrow> goal_view \<Rightarrow> jnum \<Rightarrow> segment" where
  "validate ids view nowMs =
     (case currentAttemptOf view of
        None \<Rightarrow> Throw
      | Some attempt \<Rightarrow>
          if a_status attempt \<noteq> AEvaluating then Throw
          else
            (let remaining = remainingMilliseconds view nowMs;
                 timeoutMs = (case remaining of
                     None \<Rightarrow> w_validatorTimeoutMs view
                   | Some r \<Rightarrow> Some (jmin (withDefault PosInf (w_validatorTimeoutMs view)) (jceil r)))
             in GoalController.Validate
                  \<lparr>vq_goalRunId = w_goalRunId view, vq_attemptId = a_attemptId attempt,
                   vq_attemptIndex = a_attemptIndex attempt, vq_validator = w_validator view,
                   vq_validatorTimeoutMs = timeoutMs\<rparr>
                  (map_option jceil remaining)
                  (\<lambda>validation. case validation of
                     None \<Rightarrow> Return None
                   | Some result \<Rightarrow>
                       Load (w_goalRunId view) (\<lambda>reread now.
                         case reread of
                           None \<Rightarrow> Return None
                         | Some fresh \<Rightarrow>
                             if w_cancellation fresh \<noteq> None \<or> w_status fresh \<noteq> Evaluating
                               \<or> w_transitionSeq fresh \<noteq> w_transitionSeq view
                             then Return None
                             else if isDeadlineElapsed fresh now
                               then finishForced ids fresh now decideDurationElapsed
                             else commit (buildValidationDecision fresh ids now attempt result
                               (decideOutcome (decisionContextFor fresh now) (vr_outcome result)
                                 (goalInputFeedbackFor (w_attempts fresh) (a_attemptIndex attempt))
                                 False))))))"

definition advance :: "goal_identifiers \<Rightarrow> jnum option \<Rightarrow> goal_view \<Rightarrow> jnum \<Rightarrow> segment" where
  "advance ids startTimeout view nowMs =
     (if w_cancellation view \<noteq> None then finishForced ids view nowMs decideCancellation
      else if isDeadlineElapsed view nowMs then finishForced ids view nowMs decideDurationElapsed
      else if w_status view = Running then awaitAttempt ids view nowMs
      else if w_status view = Evaluating then validate ids view nowMs
      else openAttempt ids startTimeout view nowMs)"

subsection \<open>The loop\<close>

text \<open>
  One iteration, with the two counters; it ends the workflow or asks for another one, begun with
  the counters it names.
\<close>

datatype iteration = Finished workflow_result | Again nat nat

definition afterSegment :: "jstr \<Rightarrow> nat \<Rightarrow> nat \<Rightarrow> commit_answer option \<Rightarrow> iteration proc" where
  "afterSegment goalRunId refusals idleWakes committed =
     (case committed of
        None \<Rightarrow>
          if idleWakes + 1 \<ge> MAXIMUM_CONSECUTIVE_IDLE_WAKES then Throw
          else Return (Again refusals (idleWakes + 1))
      | Some answer \<Rightarrow>
          if answer = CMissing \<or> answer = CCorrupt
            then Return (Finished (RecordUnavailable goalRunId))
          else if (case answer of CRejected reason \<Rightarrow> reason \<notin> set ADOPTABLE_REJECTIONS
              | _ \<Rightarrow> False)
            then Throw
          else
            (let refused = (if isRefusal answer then refusals + 1 else 0)
             in if refused \<ge> MAXIMUM_CONSECUTIVE_REFUSALS then Throw
                else Return (Again refused 0)))"

definition iterate ::
    "goal_identifiers \<Rightarrow> jnum option \<Rightarrow> jstr \<Rightarrow> nat \<Rightarrow> nat \<Rightarrow> iteration proc" where
  "iterate ids startTimeout goalRunId refusals idleWakes =
     Load goalRunId (\<lambda>loaded nowMs.
       case loaded of
         None \<Rightarrow> Return (Finished (RecordUnavailable goalRunId))
       | Some view \<Rightarrow>
           if isTerminalStatus (w_status view) then
             (case terminalResult view of None \<Rightarrow> Throw | Some r \<Rightarrow> Return (Finished r))
           else
             StageFinalizer (abortRequestFor view ids)
               (bindProc (advance ids startTimeout view nowMs)
                 (afterSegment goalRunId refusals idleWakes)))"

subsection \<open>The finalizer\<close>

text \<open>The staged run is stopped, and the one the record names now, if it is another one.\<close>

definition finalizeGoal :: "goal_identifiers \<Rightarrow> abort_request \<Rightarrow> unit proc" where
  "finalizeGoal ids staged =
     AbortAttempt staged
       (Load (ab_goalRunId staged) (\<lambda>view now.
          case view of
            None \<Rightarrow> Return ()
          | Some live \<Rightarrow>
              (let target = abortRequestFor live ids
               in if ab_runId target \<noteq> ab_runId staged then AbortAttempt target (Return ())
                  else Return ())))"

end
