(* ===== verification/AuditLaws.thy ===== *)
theory AuditLaws
  imports GoalEvents
begin

section \<open>The audit log of a valid record\<close>

text \<open>
  Facts on the log of \<open>packages/bureau/src/goal-state.ts\<close> and its entries of
  \<open>packages/bureau/src/goal-event-projection.ts\<close>: how many entries a consistent log has, that a
  later record still accepts the entries of an earlier one, that the entry a write derives is
  genuine, and that no two events of a log share a kind and a dedupe key.
\<close>

subsection \<open>Counting the entries\<close>

lemma auditLoop_append:
  "auditLoop p s (es @ fs) c = Option.bind (auditLoop p s es c) (auditLoop p s fs)"
  by (induction es arbitrary: c) (simp_all split: option.split)

lemma auditLoop_snoc:
  "auditLoop p s (es @ [e]) c = Option.bind (auditLoop p s es c) (auditStep p s e)"
proof -
  have "auditLoop p s [e] = auditStep p s e" by (rule ext) (simp split: option.split)
  then show ?thesis by (simp add: auditLoop_append)
qed

lemma auditStep_cases:
  assumes "auditStep p s e (t, r, l) = Some c"
  obtains (restart) "en_transitionId e = goalRestartId (s_goalRunId s) (Suc r)" "en_seq e = t"
      "isRestartEntryGenuine s e (Suc r)" "c = (t, Suc r, t)" "l \<le> en_seq e"
  | (transition) "en_transitionId e = goalTransitionId (s_goalRunId s) (Suc t)" "en_seq e = Suc t"
      "isTransitionEntryGenuine p s e" "c = (Suc t, r, Suc t)" "l \<le> en_seq e"
  using assms by (auto simp: auditStep_def split: if_split_asm)

lemma auditLoop_counts:
  assumes "auditLoop p s es (t, r, l) = Some (t', r', l')"
  shows "t \<le> t' \<and> r \<le> r' \<and> length es = (t' - t) + (r' - r)
    \<and> (\<forall>e \<in> set es. en_seq e \<le> t') \<and> (l \<le> t \<longrightarrow> l' \<le> t')"
  using assms
proof (induction es arbitrary: t r l)
  case (Cons e es)
  from Cons.prems obtain c where c: "auditStep p s e (t, r, l) = Some c"
      "auditLoop p s es c = Some (t', r', l')"
    by (auto split: option.splits)
  from c(1) show ?case
  proof (cases rule: auditStep_cases)
    case restart
    then show ?thesis using Cons.IH [of t "Suc r" t] c(2) by auto
  next
    case transition
    then show ?thesis using Cons.IH [of "Suc t" r "Suc t"] c(2) by auto
  qed
qed simp

lemma auditLog_counted:
  assumes "isAuditLogConsistent p s"
  obtains l where "auditLoop p s (s_auditLog s) (0, 0, 0) = Some (s_transitionSeq s, s_controllerRestarts s, l)"
    "l \<le> s_transitionSeq s" "length (s_auditLog s) = s_transitionSeq s + s_controllerRestarts s"
    "length (s_auditLog s) \<le> GOAL_AUDIT_LOG_MAXIMUM_ENTRIES"
    "\<forall>e \<in> set (s_auditLog s). en_seq e \<le> s_transitionSeq s"
proof -
  from assms obtain l where l: "auditLoop p s (s_auditLog s) (0, 0, 0)
      = Some (s_transitionSeq s, s_controllerRestarts s, l)"
    and cap: "length (s_auditLog s) \<le> GOAL_AUDIT_LOG_MAXIMUM_ENTRIES"
    by (auto simp: isAuditLogConsistent_def split: if_split_asm option.split_asm)
  from auditLoop_counts [OF l] that [OF l] cap show thesis by simp
qed

subsection \<open>The entries a log is held to\<close>

text \<open>What of a record its log is checked against.\<close>

definition sameAudit :: "goal_state \<Rightarrow> goal_state \<Rightarrow> bool" where
  "sameAudit s t \<longleftrightarrow>
     s_goalRunId t = s_goalRunId s \<and> s_transitionSeq t = s_transitionSeq s \<and> s_status t = s_status s
     \<and> s_terminalReason t = s_terminalReason s \<and> s_attempts t = s_attempts s
     \<and> s_currentTransition t = s_currentTransition s"

lemma auditLoop_cong:
  assumes "sameAudit s t"
  shows "auditLoop p t es c = auditLoop p s es c"
proof -
  note eqs = assms [unfolded sameAudit_def]
  have v: "lastValidation t = lastValidation s" by (simp only: lastValidation_def eqs)
  have e: "isEventPayloadGenuine p t = isEventPayloadGenuine p s"
    by (simp only: fun_eq_iff isEventPayloadGenuine_def isAttemptStartedPayload_def
        isAttemptValidatedPayload_def isTerminalPayload_def expectedValidatorError_def v eqs simp_thms)
  have g: "eventsGenuine p t q l r evs = eventsGenuine p s q l r evs" for q l r evs
    by (induction evs arbitrary: r) (simp_all only: eventsGenuine.simps e eqs)
  have k: "expectedKinds t = expectedKinds s" by (simp only: expectedKinds_def v eqs)
  have st: "auditStep p t en c = auditStep p s en c" for en c
    by (simp only: auditStep_def isTransitionEntryGenuine_def isRestartEntryGenuine_def g k eqs)
  show ?thesis by (induction es arbitrary: c) (simp_all add: st split: option.split)
qed

text \<open>A later record: the attempts keep their identity, and a recorded validation is kept as it is.\<close>

definition attemptsContinue :: "goal_attempt list \<Rightarrow> goal_attempt list \<Rightarrow> bool" where
  "attemptsContinue xs ys \<longleftrightarrow>
     length xs \<le> length ys
     \<and> (\<forall>i < length xs. a_attemptId (ys ! i) = a_attemptId (xs ! i) \<and> a_runId (ys ! i) = a_runId (xs ! i)
          \<and> (a_validation (xs ! i) \<noteq> None \<longrightarrow> a_validation (ys ! i) = a_validation (xs ! i)))"

lemma hasOwnDerivedIds_iff:
  "hasOwnDerivedIds s \<longleftrightarrow>
     (\<forall>i < length (s_attempts s).
        a_attemptId (s_attempts s ! i) = goalAttemptId (s_goalRunId s) i
        \<and> a_runId (s_attempts s ! i) = goalAttemptRunId (s_goalRunId s) i
        \<and> a_sessionId (s_attempts s ! i)
           = attemptSessionId (s_goalRunId s) (policyKind (s_conversationPolicy s)) i
        \<and> (case a_validation (s_attempts s ! i) of None \<Rightarrow> True
           | Some v \<Rightarrow> vl_decisionId v = goalDecisionId (a_attemptId (s_attempts s ! i))))"
  by (auto simp: hasOwnDerivedIds_def list_all_length)

text \<open>An attempt is found by its id.\<close>

lemma find_attempt:
  assumes ids: "\<forall>i < length as. a_attemptId (as ! i) = goalAttemptId g i"
  shows "find (\<lambda>a. JStr (a_attemptId a) = v) as = Some a \<longleftrightarrow>
    (\<exists>i < length as. a = as ! i \<and> v = JStr (goalAttemptId g i))"
proof
  assume "find (\<lambda>a. JStr (a_attemptId a) = v) as = Some a"
  then obtain i where "i < length as" "JStr (a_attemptId (as ! i)) = v" "a = as ! i"
    by (auto simp: find_Some_iff)
  with ids show "\<exists>i < length as. a = as ! i \<and> v = JStr (goalAttemptId g i)" by auto
next
  assume "\<exists>i < length as. a = as ! i \<and> v = JStr (goalAttemptId g i)"
  then obtain i where i: "i < length as" "a = as ! i" "v = JStr (goalAttemptId g i)" by blast
  moreover have "JStr (a_attemptId (as ! j)) \<noteq> v" if "j < i" for j
    using ids i that by simp
  ultimately show "find (\<lambda>a. JStr (a_attemptId a) = v) as = Some a"
    using ids by (auto simp: find_Some_iff intro!: exI [of _ i])
qed

lemma elementAt_Some: "elementAt xs i = Some x \<longleftrightarrow> i < length xs \<and> x = xs ! i"
  by (auto simp: elementAt_def)

lemma started_later:
  assumes "isAttemptStartedPayload s v" "attemptsContinue (s_attempts s) (s_attempts t)"
  shows "isAttemptStartedPayload t v"
proof -
  let ?keys = "[''goalRunId'', ''attemptId'', ''attemptIndex'', ''runId'']"
  let ?i = "asNat (jget v ''attemptIndex'')"
  have s: "hasAllKeys v ?keys" "hasExactKeys v ?keys" "isNonNegativeInteger (jget v ''attemptIndex'')"
      "?i < length (s_attempts s)" "JStr (a_attemptId (s_attempts s ! ?i)) = jget v ''attemptId''"
      "JStr (a_runId (s_attempts s ! ?i)) = jget v ''runId''"
    using assms(1) unfolding isAttemptStartedPayload_def Let_def elementAt_def
    by (auto simp only: if_split_asm option.simps split: if_split_asm)
  then have "elementAt (s_attempts t) ?i = Some (s_attempts t ! ?i)"
      "JStr (a_attemptId (s_attempts t ! ?i)) = jget v ''attemptId''"
      "JStr (a_runId (s_attempts t ! ?i)) = jget v ''runId''"
    using assms(2) by (simp_all add: attemptsContinue_def elementAt_def)
  with s show ?thesis by (simp only: isAttemptStartedPayload_def Let_def if_True simp_thms if_False option.simps)
qed

lemma validated_later:
  assumes v: "isAttemptValidatedPayload p s v"
    and c: "attemptsContinue (s_attempts s) (s_attempts t)"
    and ids: "\<forall>i < length (s_attempts s). a_attemptId (s_attempts s ! i) = goalAttemptId g i"
      "\<forall>i < length (s_attempts t). a_attemptId (s_attempts t ! i) = goalAttemptId g i"
  shows "isAttemptValidatedPayload p t v"
proof -
  let ?find = "\<lambda>as. find (\<lambda>a. JStr (a_attemptId a) = jget v ''attemptId'') as"
  obtain a r where a: "?find (s_attempts s) = Some a" "a_validation a = Some r"
    using v unfolding isAttemptValidatedPayload_def Let_def
    by (auto split: if_split_asm option.split_asm)
  then obtain i where i: "i < length (s_attempts s)" "a = s_attempts s ! i"
      "jget v ''attemptId'' = JStr (goalAttemptId g i)"
    by (auto simp: find_attempt [OF ids(1)])
  with c a(2) have j: "i < length (s_attempts t)" "a_validation (s_attempts t ! i) = Some r"
    by (auto simp: attemptsContinue_def)
  then have "?find (s_attempts t) = Some (s_attempts t ! i)"
    unfolding find_attempt [OF ids(2)] using i(3) by blast
  with a j v show ?thesis unfolding isAttemptValidatedPayload_def Let_def
    by (simp only: option.case)
qed

lemma eventRank_simps [audit_simps]:
  "eventRank (lit ''goal.attempt.started'') = Some 0"
  "eventRank (lit ''goal.attempt.validated'') = Some 1"
  "eventRank (lit ''goal.succeeded'') = Some 2" "eventRank (lit ''goal.exhausted'') = Some 2"
  "eventRank (lit ''goal.failed'') = Some 2" "eventRank (lit ''goal.canceled'') = Some 2"
  "eventRank (lit ''goal.recovered'') = None"
  by (simp_all add: eventRank_def TRANSITION_EVENT_RANK_def)

lemma eventRank_kind:
  "eventRank k = Some r \<Longrightarrow> r = 0 \<and> k = lit ''goal.attempt.started'' \<or> r = 1 \<and> k = lit ''goal.attempt.validated''
     \<or> r = 2"
  by (auto simp: eventRank_def TRANSITION_EVENT_RANK_def split: if_split_asm)

text \<open>The entries of a goal that has not ended are accepted by every later record.\<close>

lemma eventsGenuine_later:
  assumes "\<not> isTerminalStatus (s_status s)"
    and c: "attemptsContinue (s_attempts s) (s_attempts t)" and g: "s_goalRunId t = s_goalRunId s"
    and ids: "hasOwnDerivedIds s" "hasOwnDerivedIds t"
  shows "eventsGenuine p s q l r evs \<Longrightarrow> eventsGenuine p t q l' r evs"
proof (induction evs arbitrary: r)
  case (Cons e evs)
  let ?i = "\<lambda>s. \<forall>i < length (s_attempts s). a_attemptId (s_attempts s ! i) = goalAttemptId (s_goalRunId s) i"
  have id: "?i s" "?i t" using ids by (simp_all add: hasOwnDerivedIds_iff)
  from Cons.prems obtain k where k: "eventRank (ae_kind e) = Some k" "r < k"
      "ae_dedupeKey e = s_goalRunId s @ lit '':'' @ decimal q"
      "isEventPayloadGenuine p s e" "eventsGenuine p s q l k evs"
      and l: "k = 2 \<longrightarrow> Some (ae_kind e) = map_option lit (TERMINAL_EVENT_KIND (s_status s))"
    by (auto split: option.splits if_split_asm)
  have "k \<noteq> 2" using l assms(1) by (cases "s_status s") auto
  with eventRank_kind [OF k(1)] consider "ae_kind e = lit ''goal.attempt.started''"
    | "ae_kind e = lit ''goal.attempt.validated''" by blast
  then have "isEventPayloadGenuine p t e"
  proof cases
    case 1
    with k(4) started_later [OF _ c] g show ?thesis
      by (simp add: isEventPayloadGenuine_def Let_def split: if_split_asm)
  next
    case 2
    with k(4) validated_later [OF _ c id(1) id(2) [unfolded g]] g show ?thesis
      by (simp add: isEventPayloadGenuine_def Let_def split: if_split_asm)
  qed
  with k \<open>k \<noteq> 2\<close> Cons.IH [OF k(5)] g show ?case by simp
qed simp

lemma auditLoop_later:
  assumes "\<not> isTerminalStatus (s_status s)"
    and c: "attemptsContinue (s_attempts s) (s_attempts t)" and g: "s_goalRunId t = s_goalRunId s"
    and ids: "hasOwnDerivedIds s" "hasOwnDerivedIds t" and q: "s_transitionSeq s < s_transitionSeq t"
  shows "auditLoop p s es (n, r, l) = Some c' \<Longrightarrow> \<forall>e \<in> set es. en_seq e \<le> s_transitionSeq s \<Longrightarrow>
    auditLoop p t es (n, r, l) = Some c'"
proof (induction es arbitrary: n r l)
  case (Cons e es)
  from Cons.prems obtain d where d: "auditStep p s e (n, r, l) = Some d" "auditLoop p s es d = Some c'"
    by (auto split: option.splits)
  have e: "en_seq e \<noteq> s_transitionSeq t" using Cons.prems q by auto
  from d(1) have "auditStep p t e (n, r, l) = Some d"
  proof (cases rule: auditStep_cases)
    case restart
    then have "isRestartEntryGenuine t e (Suc r)"
      using e g unfolding isRestartEntryGenuine_def Let_def
      by (auto split: list.split_asm if_split_asm)
    with restart g show ?thesis by (simp add: auditStep_def)
  next
    case transition
    then have "isTransitionEntryGenuine p t e"
      using e eventsGenuine_later [OF assms(1) c g ids]
      by (auto simp: isTransitionEntryGenuine_def Let_def split: if_split_asm)
    with transition g show ?thesis by (simp add: auditStep_def)
  qed
  then show ?case using d(2) Cons by (cases d) simp
qed simp

subsection \<open>The entry a transition appends\<close>

lemma lastOf_index:
  assumes "map a_attemptIndex as = [0..<length as]" "lastOf as = Some a"
  shows "a_attemptIndex a = length as - 1" "elementAt as (a_attemptIndex a) = Some a"
proof -
  from assms(2) have as: "as \<noteq> []" "a = as ! (length as - 1)"
    by (auto simp: lastOf_def last_conv_nth split: if_split_asm)
  have "map a_attemptIndex as ! (length as - 1) = length as - 1"
    unfolding assms(1) using as(1) by (simp add: nth_upt)
  with as show i: "a_attemptIndex a = length as - 1" by simp
  show "elementAt as (a_attemptIndex a) = Some a" unfolding i using as by (simp add: elementAt_Some)
qed

lemma started_genuine:
  assumes "map a_attemptIndex (s_attempts n) = [0..<length (s_attempts n)]"
    and "e \<in> set (attemptStartedEvent n)"
  shows "isEventPayloadGenuine p n e"
proof -
  from assms(2) obtain a where a: "lastOf (s_attempts n) = Some a"
      and e: "ae_kind e = lit ''goal.attempt.started''"
      "ae_payload e = jsonObj [(''goalRunId'', Some (JsonStr (s_goalRunId n))),
         (''attemptId'', Some (JsonStr (a_attemptId a))),
         (''attemptIndex'', Some (JsonNum (jnat (a_attemptIndex a)))),
         (''runId'', Some (JsonStr (a_runId a)))]"
    by (cases "lastOf (s_attempts n)") (auto simp: attemptStartedEvent_def)
  have "isNonNegativeInteger (JNum (jnat i))" "asNat (JNum (jnat i)) = i" for i
    using counter.check_enc [of i] counter.dec_enc [of i] by (simp_all add: enc_nat_def)
  with lastOf_index(2) [OF assms(1) a] show ?thesis
    by (simp add: isEventPayloadGenuine_def isAttemptStartedPayload_def e json_simps hasAllKeys_def)
qed

lemma validated_genuine:
  assumes ids: "hasOwnDerivedIds n" and i: "map a_attemptIndex (s_attempts n) = [0..<length (s_attempts n)]"
    and hex: "\<And>f. isSha256Hex (sha256HexSync p f)"
    and ident: "\<And>v. lastValidation n = Some v \<Longrightarrow> ok_identity (vl_identity v)"
    and ev: "e \<in> set (attemptValidatedEvent p n)"
  shows "isEventPayloadGenuine p n e"
proof -
  let ?digest = "\<lambda>v. case vl_outcome v of FailVerdict f _ _ \<Rightarrow> Some (JsonStr (sha256HexSync p f)) | _ \<Rightarrow> None"
  from ev obtain a v where a: "lastOf (s_attempts n) = Some a" "a_validation a = Some v"
    by (cases "lastOf (s_attempts n)"; cases "a_validation (the (lastOf (s_attempts n)))")
      (auto simp: attemptValidatedEvent_def)
  have e: "ae_kind e = lit ''goal.attempt.validated''"
      "ae_payload e = jsonObj
         [(''goalRunId'', Some (JsonStr (s_goalRunId n))),
          (''attemptId'', Some (JsonStr (a_attemptId a))),
          (''validatorIdentity'', Some (jsonObj
            [(''name'', Some (JsonStr (id_name (vl_identity v)))),
             (''version'', Some (JsonStr (id_version (vl_identity v))))])),
          (''outcomeKind'', Some (JsonStr (lit (outcomeKind (vl_outcome v))))),
          (''feedbackDigest'', ?digest v)]"
    using ev a by (simp_all add: attemptValidatedEvent_def Let_def)
  have v: "ok_identity (vl_identity v)" by (rule ident) (simp add: lastValidation_def a)
  let ?v = "ofJson (ae_payload e)"
  have at: "a = s_attempts n ! (a_attemptIndex a)" "a_attemptIndex a < length (s_attempts n)"
    using lastOf_index(2) [OF i a(1)] by (simp_all add: elementAt_Some)
  then have "a_attemptId a = goalAttemptId (s_goalRunId n) (a_attemptIndex a)"
    using ids unfolding hasOwnDerivedIds_iff by metis
  then have "find (\<lambda>b. JStr (a_attemptId b) = JStr (a_attemptId a)) (s_attempts n) = Some a"
    using at ids unfolding hasOwnDerivedIds_iff
    by (subst find_attempt [of _ "s_goalRunId n"]) auto
  moreover have "jget ?v ''attemptId'' = JStr (a_attemptId a)" "jget ?v ''goalRunId'' = JStr (s_goalRunId n)"
    "jget ?v ''outcomeKind'' = JStr (lit (outcomeKind (vl_outcome v)))"
    "jget ?v ''validatorIdentity'' = enc_identity (vl_identity v)"
    "jget ?v ''feedbackDigest'' = optional ofJson (?digest v)"
    by (simp_all add: e json_simps enc_identity_def)
  moreover have "hasAllKeys ?v (take 4 [''goalRunId'', ''attemptId'', ''validatorIdentity'', ''outcomeKind'', ''feedbackDigest''])"
    "hasExactKeys ?v [''goalRunId'', ''attemptId'', ''validatorIdentity'', ''outcomeKind'', ''feedbackDigest'']"
    by (simp_all add: e json_simps hasAllKeys_def)
  moreover have "JStr (lit (outcomeKind (vl_outcome v))) \<in> set (map (\<lambda>k. JStr (lit k)) VALIDATOR_OUTCOME_KINDS)"
    by (cases "vl_outcome v") (simp_all add: VALIDATOR_OUTCOME_KINDS_def)
  moreover have "jget (enc_identity i) ''name'' = JStr (id_name i)"
    "jget (enc_identity i) ''version'' = JStr (id_version i)" for i
    by (simp_all add: enc_identity_def json_simps)
  ultimately have "isAttemptValidatedPayload p n ?v"
    unfolding isAttemptValidatedPayload_def Let_def using v hex a(2)
    by (cases "vl_outcome v") simp_all
  then show ?thesis using \<open>jget ?v ''goalRunId'' = _\<close>
    by (simp add: isEventPayloadGenuine_def e(1))
qed

lemma terminal_genuine:
  assumes "e \<in> set (terminalEvent n)"
  shows "isEventPayloadGenuine p n e
    \<and> Some (ae_kind e) = map_option lit (TERMINAL_EVENT_KIND (s_status n))"
proof -
  obtain r where r: "s_terminalReason n = Some r"
    using assms by (cases "s_terminalReason n") (auto simp: terminalEvent_def)
  let ?b = "[(''goalRunId'', Some (JsonStr (s_goalRunId n))),
       (''terminalReason'', Some (JsonStr (lit (reasonText r))))]"
  let ?x = "if r \<noteq> ValidatorInfrastructureError then None
      else validatorErrorOf (map_option vl_outcome (lastValidation n))"
  have x: "?x = map_option errorJson (expectedValidatorError n)"
    by (cases "lastValidation n") (simp_all add: expectedValidatorError_def r validatorErrorOf_def)
  consider "s_status n = Failed" "ae_kind e = lit ''goal.failed''"
      "ae_payload e = jsonObj (?b @ [(''validatorError'', ?x)])"
    | k where "TERMINAL_EVENT_KIND (s_status n) = Some k" "ae_kind e = lit k" "k \<noteq> ''goal.failed''"
      "k \<noteq> ''goal.attempt.started''" "k \<noteq> ''goal.attempt.validated''" "ae_payload e = jsonObj ?b"
    using assms r by (cases "s_status n") (auto simp: terminalEvent_def Let_def)
  then show ?thesis
  proof cases
    case 1
    have "isTerminalPayload n (lit ''goal.failed'') (ofJson (ae_payload e))"
      unfolding 1(3) x
      by (cases "expectedValidatorError n")
        (simp_all add: isTerminalPayload_def json_simps hasAllKeys_def r entryText_def errorJson_def)
    with 1 show ?thesis by (simp add: isEventPayloadGenuine_def json_simps)
  next
    case (2 k)
    then have "isTerminalPayload n (lit k) (ofJson (ae_payload e))"
      by (simp add: isTerminalPayload_def json_simps hasAllKeys_def r entryText_def)
    with 2 show ?thesis by (simp add: isEventPayloadGenuine_def json_simps)
  qed
qed

lemma eventsGenuine_optional:
  assumes "evs = [] \<or> (\<exists>e. evs = [e] \<and> eventRank (ae_kind e) = Some k
      \<and> ae_dedupeKey e = s_goalRunId s @ lit '':'' @ decimal q
      \<and> (k = 2 \<longrightarrow> latest \<and> Some (ae_kind e) = map_option lit (TERMINAL_EVENT_KIND (s_status s)))
      \<and> isEventPayloadGenuine p s e)"
    and "r < k" "eventsGenuine p s q latest r rest" "eventsGenuine p s q latest k rest"
  shows "eventsGenuine p s q latest r (evs @ rest)"
  using assms by auto

lemma eventsGenuine_rank:
  "eventsGenuine p s q latest r evs \<Longrightarrow> r' \<le> r \<Longrightarrow> eventsGenuine p s q latest r' evs"
  by (cases evs) (auto split: option.splits if_split_asm)

lemma auditEvents_shape:
  "attemptStartedEvent n = [] \<or> (\<exists>e. attemptStartedEvent n = [e] \<and> ae_kind e = lit ''goal.attempt.started''
     \<and> ae_dedupeKey e = keyFor n \<and> ae_at e = tr_at (s_currentTransition n))"
  "attemptValidatedEvent p n = [] \<or> (\<exists>e. attemptValidatedEvent p n = [e]
     \<and> ae_kind e = lit ''goal.attempt.validated'' \<and> ae_dedupeKey e = keyFor n)"
  "terminalEvent n = [] \<or> (\<exists>e. terminalEvent n = [e] \<and> eventRank (ae_kind e) = Some 2
     \<and> ae_dedupeKey e = keyFor n \<and> ae_at e = tr_at (s_currentTransition n))"
  by (auto simp: attemptStartedEvent_def attemptValidatedEvent_def terminalEvent_def Let_def
      audit_simps split: option.split goal_run_status.split)

lemma auditEvents_kinds:
  "map ae_kind (auditEventsForTransition p n) = map lit (expectedKinds n)"
proof -
  have "map ae_kind (attemptStartedEvent n)
      = (if s_attempts n \<noteq> [] then [lit ''goal.attempt.started''] else [])"
    by (cases "lastOf (s_attempts n)") (auto simp: attemptStartedEvent_def dest: lastOf_SomeD)
  moreover have "map ae_kind (attemptValidatedEvent p n)
      = (if lastValidation n \<noteq> None then [lit ''goal.attempt.validated''] else [])"
    by (auto simp: attemptValidatedEvent_def lastValidation_def Let_def split: option.split bind_split)
  moreover have "map ae_kind (terminalEvent n) = (if s_terminalReason n \<noteq> None
      then (case TERMINAL_EVENT_KIND (s_status n) of None \<Rightarrow> [] | Some k \<Rightarrow> [lit k]) else [])"
    by (cases "s_status n") (auto simp: terminalEvent_def Let_def)
  ultimately show ?thesis
    by (auto simp: auditEventsForTransition_def expectedKinds_def split: option.split)
qed

text \<open>What the derived entry needs of the record it is derived from.\<close>

lemma transition_entry_genuine:
  assumes ids: "hasOwnDerivedIds n" and i: "map a_attemptIndex (s_attempts n) = [0..<length (s_attempts n)]"
    and hex: "\<And>f. isSha256Hex (sha256HexSync p f)"
    and ident: "\<And>v. lastValidation n = Some v \<Longrightarrow> ok_identity (vl_identity v)"
  shows "isTransitionEntryGenuine p n
    \<lparr>en_seq = s_transitionSeq n, en_transitionId = t, en_events = auditEventsForTransition p n\<rparr>"
proof -
  let ?g = "\<lambda>r evs. eventsGenuine p n (s_transitionSeq n) True r evs"
  let ?a = "if tr_to (s_currentTransition n) = Running then attemptStartedEvent n else []"
  let ?b = "if tr_from (s_currentTransition n) = Evaluating then attemptValidatedEvent p n else []"
  have c: "?g 1 (terminalEvent n)"
    using eventsGenuine_optional [of "terminalEvent n" 2 n "s_transitionSeq n" True p 1 "[]"]
      auditEvents_shape(3) [of n] terminal_genuine [of _ n p] by (auto simp: keyFor_def)
  have b: "?g 0 (?b @ terminalEvent n)"
  proof (rule eventsGenuine_optional)
    show "?b = [] \<or> (\<exists>e. ?b = [e] \<and> eventRank (ae_kind e) = Some 1
        \<and> ae_dedupeKey e = s_goalRunId n @ lit '':'' @ decimal (s_transitionSeq n)
        \<and> ((1::int) = 2 \<longrightarrow> True \<and> Some (ae_kind e) = map_option lit (TERMINAL_EVENT_KIND (s_status n)))
        \<and> isEventPayloadGenuine p n e)"
      using auditEvents_shape(2) [of p n] validated_genuine [OF ids i hex ident]
      by (auto simp: keyFor_def audit_simps)
    show "?g 1 (terminalEvent n)" by (rule c)
    then show "?g 0 (terminalEvent n)" by (rule eventsGenuine_rank) simp
  qed simp
  have a: "?g (- 1) (?a @ ?b @ terminalEvent n)"
  proof (rule eventsGenuine_optional)
    show "?a = [] \<or> (\<exists>e. ?a = [e] \<and> eventRank (ae_kind e) = Some 0
        \<and> ae_dedupeKey e = s_goalRunId n @ lit '':'' @ decimal (s_transitionSeq n)
        \<and> ((0::int) = 2 \<longrightarrow> True \<and> Some (ae_kind e) = map_option lit (TERMINAL_EVENT_KIND (s_status n)))
        \<and> isEventPayloadGenuine p n e)"
      using auditEvents_shape(1) [of n] started_genuine [OF i, of _ p]
      by (auto simp: keyFor_def audit_simps)
    show "?g 0 (?b @ terminalEvent n)" by (rule b)
    then show "?g (- 1) (?b @ terminalEvent n)" by (rule eventsGenuine_rank) simp
  qed simp
  then show ?thesis
    using auditEvents_kinds [of p n]
    by (simp add: isTransitionEntryGenuine_def auditEventsForTransition_def)
qed

lemma restart_entry_genuine:
  assumes "s_goalRunId s = s_goalRunId n" "s_transitionSeq s = s_transitionSeq n" "s_status s = s_status n"
  shows "isRestartEntryGenuine s
     \<lparr>en_seq = s_transitionSeq n, en_transitionId = t, en_events = [auditEventForRestart n]\<rparr>
     (s_controllerRestarts n)"
proof -
  have "isRestartEntryGenuine n
     \<lparr>en_seq = s_transitionSeq n, en_transitionId = t, en_events = [auditEventForRestart n]\<rparr>
     (s_controllerRestarts n)"
    using status.check_enc [of "s_status n"]
    by (simp add: isRestartEntryGenuine_def auditEventForRestart_def keyFor_def json_simps
        hasAllKeys_def enc_nat_def entryText_def)
  then show ?thesis by (simp only: isRestartEntryGenuine_def assms)
qed

subsection \<open>No event is lost to deduplication\<close>

definition eventKey :: "audit_event \<Rightarrow> jstr \<times> jstr" where
  "eventKey e = (ae_kind e, ae_dedupeKey e)"

definition entryKeys :: "audit_entry list \<Rightarrow> (jstr \<times> jstr) list" where
  "entryKeys es = concat (map (\<lambda>en. map eventKey (en_events en)) es)"

lemma entryKeys_simps [simp]:
  "entryKeys [] = []" "entryKeys (en # es) = map eventKey (en_events en) @ entryKeys es"
  by (simp_all add: entryKeys_def)

lemma eventsGenuine_keys:
  "eventsGenuine p s q latest r evs \<Longrightarrow> distinct (map ae_kind evs)
    \<and> (\<forall>e \<in> set evs. (\<exists>k. eventRank (ae_kind e) = Some k \<and> r < k)
         \<and> ae_dedupeKey e = s_goalRunId s @ lit '':'' @ decimal q)"
proof (induction evs arbitrary: r)
  case (Cons e evs)
  then obtain k where k: "eventRank (ae_kind e) = Some k" "r < k"
      "ae_dedupeKey e = s_goalRunId s @ lit '':'' @ decimal q" "eventsGenuine p s q latest k evs"
    by (auto split: option.splits if_split_asm)
  from Cons.IH [OF k(4)] k show ?case by fastforce
qed simp

lemma restart_keys:
  assumes "isRestartEntryGenuine s en n"
  obtains q where "map eventKey (en_events en)
    = [(lit ''goal.recovered'', s_goalRunId s @ lit '':'' @ decimal q @ lit '':restart-'' @ decimal n)]"
  using assms that [of "en_seq en"]
  by (auto simp: isRestartEntryGenuine_def Let_def eventKey_def split: list.split_asm if_split_asm)

lemma auditLoop_keys:
  assumes "auditLoop p s es (t, r, l) = Some c"
  shows "distinct (entryKeys es) \<and> (\<forall>x \<in> set (entryKeys es).
    (\<exists>k q. eventRank (fst x) = Some k \<and> t < q \<and> snd x = s_goalRunId s @ lit '':'' @ decimal q)
    \<or> (\<exists>q n. fst x = lit ''goal.recovered'' \<and> r < n
         \<and> snd x = (s_goalRunId s @ lit '':'' @ decimal q) @ lit '':restart-'' @ decimal n))"
  using assms
proof (induction es arbitrary: t r l)
  case (Cons e es)
  from Cons.prems obtain d where d: "auditStep p s e (t, r, l) = Some d" "auditLoop p s es d = Some c"
    by (auto split: option.splits)
  from d(1) show ?case
  proof (cases rule: auditStep_cases)
    case restart
    from restart(3) obtain q where q: "map eventKey (en_events e)
        = [(lit ''goal.recovered'', s_goalRunId s @ lit '':'' @ decimal q @ lit '':restart-'' @ decimal (Suc r))]"
      by (rule restart_keys)
    note IH = Cons.IH [OF d(2) [unfolded restart(4)]]
    have "(lit ''goal.recovered'', s_goalRunId s @ lit '':'' @ decimal q @ lit '':restart-'' @ decimal (Suc r))
        \<notin> set (entryKeys es)"
    proof
      assume "(lit ''goal.recovered'', s_goalRunId s @ lit '':'' @ decimal q @ lit '':restart-'' @ decimal (Suc r))
        \<in> set (entryKeys es)"
      with IH obtain q' n where n: "Suc r < n" "(s_goalRunId s @ lit '':'' @ decimal q) @ lit '':restart-'' @ decimal (Suc r)
          = (s_goalRunId s @ lit '':'' @ decimal q') @ lit '':restart-'' @ decimal n"
        by (fastforce simp: audit_simps)
      with numbered_inject [of "s_goalRunId s @ lit '':'' @ decimal q" "'':restart''" "CHR ''-''" "Suc r"
          "s_goalRunId s @ lit '':'' @ decimal q'" "'':restart''" "CHR ''-''" n]
      show False by simp
    qed
    with IH q show ?thesis by fastforce
  next
    case transition
    then have g: "eventsGenuine p s (Suc t) (Suc t = s_transitionSeq s) (- 1) (en_events e)"
      by (auto simp: isTransitionEntryGenuine_def Let_def split: if_split_asm)
    note IH = Cons.IH [OF d(2) [unfolded transition(4)]]
    have "distinct (map eventKey (en_events e))"
      using eventsGenuine_keys [OF g] by (auto simp: distinct_map eventKey_def inj_on_def)
    moreover have "set (map eventKey (en_events e)) \<inter> set (entryKeys es) = {}"
    proof -
      have "x \<notin> set (entryKeys es)" if "x \<in> set (map eventKey (en_events e))" for x
      proof
        from that eventsGenuine_keys [OF g] obtain k where
          k: "eventRank (fst x) = Some k" "snd x = s_goalRunId s @ lit '':'' @ decimal (Suc t)"
          by (auto simp: eventKey_def)
        assume "x \<in> set (entryKeys es)"
        with IH k show False by (fastforce simp: audit_simps)
      qed
      then show ?thesis by blast
    qed
    ultimately show ?thesis
      using IH eventsGenuine_keys [OF g] by (fastforce simp: eventKey_def)
  qed
qed simp

definition draftKey :: "event_draft \<Rightarrow> jstr \<times> jstr" where
  "draftKey d = (ed_kind d, ed_dedupeKey d)"

lemma replay_keys: "map draftKey (projectGoalObservation (Replayed s)) = entryKeys (s_auditLog s)"
proof -
  have "draftKey \<circ> toDraft = eventKey" by (simp add: fun_eq_iff draftKey_def toDraft_def eventKey_def)
  then show ?thesis by (simp add: entryKeys_def map_concat comp_def)
qed

text \<open>
  \<^bold>\<open>C36\<close>: the durable history can lose no event to its deduplication, and boot repairs every
  live projection: over the drafts that replaying a valid record produces (its creation, then its
  whole log), no two share an event kind and a dedupe key, and each draft any live observation of
  that record projects is among them, identical.
\<close>

theorem audit_replay_complete:
  assumes "isAuditLogConsistent p s"
  shows "distinct (map draftKey (projectGoalObservation (Created s) @ projectGoalObservation (Replayed s)))
    \<and> set (projectGoalObservation (Transitioned s)) \<subseteq> set (projectGoalObservation (Replayed s))
    \<and> set (projectGoalObservation (ControllerRestarted s)) \<subseteq> set (projectGoalObservation (Replayed s))"
proof -
  from assms obtain l where l: "auditLoop p s (s_auditLog s) (0, 0, 0)
      = Some (s_transitionSeq s, s_controllerRestarts s, l)"
    by (rule auditLog_counted)
  have started: "fst (draftKey (startedEvent s)) = lit ''goal.started''"
    by (simp add: startedEvent_def toDraft_def draftKey_def)
  have "eventRank (lit ''goal.started'') = None" "lit ''goal.started'' \<noteq> lit ''goal.recovered''"
    by (simp_all add: eventRank_def TRANSITION_EVENT_RANK_def)
  then have "draftKey (startedEvent s) \<notin> set (entryKeys (s_auditLog s))"
    using auditLoop_keys [OF l] started by (metis option.distinct(1))
  moreover have "set (entryEvents s i) \<subseteq> set (projectGoalObservation (Replayed s))" for i
  proof (cases "find (\<lambda>candidate. en_transitionId candidate = i) (s_auditLog s)")
    case (Some en)
    then have "en \<in> set (s_auditLog s)" by (auto simp: find_Some_iff)
    with Some show ?thesis by (auto simp: entryEvents_def)
  qed (simp add: entryEvents_def)
  ultimately show ?thesis using auditLoop_keys [OF l] replay_keys [of s]
    by (simp del: projectGoalObservation.simps(4))
qed

end
