(* ===== verification/StoreLaws.thy ===== *)
theory StoreLaws
  imports GoalStore AuditLaws
begin

section \<open>What the store guarantees of every write\<close>

text \<open>
  The contract of \<open>packages/bureau/src/goal-store.ts\<close>: which writes an evaluation names, the
  history a record can have (a locale over any relation with the laws of one write, interpreted
  on the store's own operations), and the compare-and-swap loop as one atomic step.
\<close>

subsection \<open>The writes an evaluation names\<close>

lemma evaluateTransition_Write:
  assumes "evaluateTransition p request s = Write n"
  obtains attempts where
    "tr_transitionId (s_currentTransition s) \<noteq> rq_transitionId request"
    "rq_seq request = Suc (s_transitionSeq s)" "\<not> isTerminalStatus (s_status s)"
    "length (s_auditLog s) < GOAL_AUDIT_LOG_MAXIMUM_ENTRIES"
    "s_cancellation s = None \<or> rq_to request = Canceled"
    "canTransitionGoalRun (s_status s) (rq_to request)" "hasValidTerminalReason request"
    "applyAttempt s request = Inr attempts" "n = buildNext p s request attempts" "validState p n"
proof -
  have "\<exists>attempts. tr_transitionId (s_currentTransition s) \<noteq> rq_transitionId request
      \<and> rq_seq request = Suc (s_transitionSeq s) \<and> \<not> isTerminalStatus (s_status s)
      \<and> length (s_auditLog s) < GOAL_AUDIT_LOG_MAXIMUM_ENTRIES
      \<and> (s_cancellation s = None \<or> rq_to request = Canceled)
      \<and> canTransitionGoalRun (s_status s) (rq_to request) \<and> hasValidTerminalReason request
      \<and> applyAttempt s request = Inr attempts \<and> n = buildNext p s request attempts \<and> validState p n"
    using assms unfolding evaluateTransition_def
    by (auto simp: Let_def not_le split: if_split_asm sum.split_asm)
  with that show thesis by blast
qed

text \<open>The members of the next record.\<close>

lemma buildNext_simps [simp]:
  "s_goalRunId (buildNext p s rq as) = s_goalRunId s"
  "s_workflowId (buildNext p s rq as) = s_workflowId s"
  "s_revision (buildNext p s rq as) = s_revision s"
  "s_transitionSeq (buildNext p s rq as) = rq_seq rq"
  "s_identity (buildNext p s rq as) = s_identity s"
  "s_objective (buildNext p s rq as) = s_objective s"
  "s_validator (buildNext p s rq as) = s_validator s"
  "s_requireDeterministicValidation (buildNext p s rq as) = s_requireDeterministicValidation s"
  "s_validatorTimeoutMs (buildNext p s rq as) = s_validatorTimeoutMs s"
  "s_conversationPolicy (buildNext p s rq as) = s_conversationPolicy s"
  "s_retryPolicy (buildNext p s rq as) = s_retryPolicy s"
  "s_bounds (buildNext p s rq as) = s_bounds s"
  "s_principal (buildNext p s rq as) = s_principal s"
  "s_status (buildNext p s rq as) = rq_to rq"
  "s_terminalReason (buildNext p s rq as) = rq_terminalReason rq"
  "s_failureDetail (buildNext p s rq as) = rq_failureDetail rq"
  "s_currentTransition (buildNext p s rq as) =
     \<lparr>tr_seq = rq_seq rq, tr_transitionId = rq_transitionId rq, tr_from = s_status s,
      tr_to = rq_to rq, tr_at = rq_at rq, tr_cause = rq_cause rq\<rparr>"
  "s_attempts (buildNext p s rq as) = as"
  "s_usage (buildNext p s rq as) = withDefault (s_usage s) (rq_usage rq)"
  "s_active (buildNext p s rq as) =
     (case rq_active rq of KeepActive \<Rightarrow> s_active s | ClearActive \<Rightarrow> None | SetActive w \<Rightarrow> Some w)"
  "s_cancellation (buildNext p s rq as) = s_cancellation s"
  "s_controllerRestarts (buildNext p s rq as) = s_controllerRestarts s"
  "s_closedAt (buildNext p s rq as) = s_closedAt s"
  "s_cleanedUpAt (buildNext p s rq as) = s_cleanedUpAt s"
  "s_createdAt (buildNext p s rq as) = s_createdAt s"
  "s_updatedAt (buildNext p s rq as) = rq_at rq"
  by (simp_all add: buildNext_def Let_def)

lemma applyAttempt_Inr:
  assumes "applyAttempt s rq = Inr as"
  shows "(rq_attempt rq = None \<and> as = s_attempts s)
    \<or> (\<exists>a. rq_attempt rq = Some a \<and> a_attemptIndex a < length (s_attempts s)
        \<and> as = (s_attempts s)[a_attemptIndex a := a]
        \<and> a_attemptId a = goalAttemptId (s_goalRunId s) (a_attemptIndex a)
        \<and> (\<forall>v. a_validation (s_attempts s ! a_attemptIndex a) = Some v
             \<longrightarrow> (\<exists>w. a_validation a = Some w \<and> vl_decisionId w = vl_decisionId v)))
    \<or> (\<exists>a. rq_attempt rq = Some a \<and> a_attemptIndex a = length (s_attempts s)
        \<and> as = s_attempts s @ [a] \<and> a_attemptId a = goalAttemptId (s_goalRunId s) (a_attemptIndex a))"
proof (cases "rq_attempt rq")
  case None
  with assms show ?thesis by (simp add: applyAttempt_def)
next
  case (Some a)
  show ?thesis
  proof (cases "a_attemptIndex a < length (s_attempts s)")
    case True
    with assms Some show ?thesis
      by (auto simp: applyAttempt_def Let_def split: if_split_asm option.split_asm)
  next
    case False
    with assms Some show ?thesis
      by (auto simp: applyAttempt_def Let_def split: if_split_asm)
  qed
qed

subsection \<open>One write\<close>

text \<open>What an operator configured is never written again.\<close>

definition frozen :: "goal_state \<Rightarrow> goal_state \<Rightarrow> bool" where
  "frozen s t \<longleftrightarrow>
     s_goalRunId t = s_goalRunId s \<and> s_workflowId t = s_workflowId s \<and> s_identity t = s_identity s
     \<and> s_objective t = s_objective s \<and> s_validator t = s_validator s
     \<and> s_requireDeterministicValidation t = s_requireDeterministicValidation s
     \<and> s_validatorTimeoutMs t = s_validatorTimeoutMs s
     \<and> s_conversationPolicy t = s_conversationPolicy s \<and> s_retryPolicy t = s_retryPolicy s
     \<and> s_bounds t = s_bounds s \<and> s_principal t = s_principal s \<and> s_createdAt t = s_createdAt s"

text \<open>What a terminal goal ended with.\<close>

definition sameEnding :: "goal_state \<Rightarrow> goal_state \<Rightarrow> bool" where
  "sameEnding s t \<longleftrightarrow>
     s_status t = s_status s \<and> s_terminalReason t = s_terminalReason s
     \<and> s_failureDetail t = s_failureDetail s \<and> s_attempts t = s_attempts s \<and> s_usage t = s_usage s
     \<and> s_transitionSeq t = s_transitionSeq s \<and> s_currentTransition t = s_currentTransition s
     \<and> s_auditLog t = s_auditLog s \<and> s_cancellation t = s_cancellation s"

text \<open>The decisions of \<open>s\<close> are decisions of \<open>t\<close>.\<close>

definition decisionsKept :: "goal_state \<Rightarrow> goal_state \<Rightarrow> bool" where
  "decisionsKept s t \<longleftrightarrow>
     (\<forall>i a v. elementAt (s_attempts s) i = Some a \<and> a_validation a = Some v \<longrightarrow>
        (\<exists>b w. elementAt (s_attempts t) i = Some b \<and> a_validation b = Some w
          \<and> vl_decisionId w = vl_decisionId v))"

text \<open>The writes of the store's operations.\<close>

inductive store_write :: "platform \<Rightarrow> goal_state \<Rightarrow> goal_state \<Rightarrow> bool" for p where
  transition: "evaluateTransition p request s = Write n \<Longrightarrow> validState p (n\<lparr>s_revision := s_revision s + 1\<rparr>)
    \<Longrightarrow> store_write p s (n\<lparr>s_revision := s_revision s + 1\<rparr>)"
| cancellation: "evaluateCancellation marker now s = Write n \<Longrightarrow>
    validState p (n\<lparr>s_revision := s_revision s + 1\<rparr>)
    \<Longrightarrow> store_write p s (n\<lparr>s_revision := s_revision s + 1\<rparr>)"
| restart: "evaluateRestart now expectedCount s = Write n \<Longrightarrow>
    validState p (n\<lparr>s_revision := s_revision s + 1\<rparr>)
    \<Longrightarrow> store_write p s (n\<lparr>s_revision := s_revision s + 1\<rparr>)"
| close: "evaluateClose stamp s = Write n \<Longrightarrow> validState p (n\<lparr>s_revision := s_revision s + 1\<rparr>)
    \<Longrightarrow> store_write p s (n\<lparr>s_revision := s_revision s + 1\<rparr>)"
| cleanedUp: "evaluateCleanedUp stamp s = Write n \<Longrightarrow>
    validState p (n\<lparr>s_revision := s_revision s + 1\<rparr>)
    \<Longrightarrow> store_write p s (n\<lparr>s_revision := s_revision s + 1\<rparr>)"

inductive_cases store_writeE: "store_write p s t"

lemma control_writes:
  "evaluateCancellation marker now s = Write n \<longleftrightarrow>
     s_cancellation s = None \<and> \<not> isTerminalStatus (s_status s)
     \<and> n = s\<lparr>s_cancellation := Some marker, s_updatedAt := now\<rparr>"
  "evaluateRestart now expectedCount s = Write n \<longleftrightarrow>
     \<not> isTerminalStatus (s_status s) \<and> s_cancellation s = None
     \<and> (expectedCount = None \<or> expectedCount = Some (s_controllerRestarts s))
     \<and> length (s_auditLog s) < GOAL_AUDIT_LOG_MAXIMUM_ENTRIES \<and> n = withRestart s now"
  "evaluateClose stamp s = Write n \<longleftrightarrow>
     isTerminalStatus (s_status s) \<and> s_closedAt s = None
     \<and> n = s\<lparr>s_closedAt := Some stamp, s_updatedAt := stamp\<rparr>"
  "evaluateCleanedUp stamp s = Write n \<longleftrightarrow>
     s_closedAt s \<noteq> None \<and> s_cleanedUpAt s = None
     \<and> n = s\<lparr>s_cleanedUpAt := Some stamp, s_updatedAt := stamp\<rparr>"
  by (auto simp: evaluateCancellation_def evaluateRestart_def evaluateClose_def evaluateCleanedUp_def
      split: if_splits)

lemma decisionsKept_refl [simp]: "s_attempts t = s_attempts s \<Longrightarrow> decisionsKept s t"
  by (auto simp: decisionsKept_def)

lemma decisionsKept_trans: "decisionsKept s t \<Longrightarrow> decisionsKept t u \<Longrightarrow> decisionsKept s u"
  unfolding decisionsKept_def by metis

lemma decisionsKept_apply:
  assumes "applyAttempt s rq = Inr as" "s_attempts t = as"
  shows "decisionsKept s t"
  using applyAttempt_Inr [OF assms(1)] assms(2)
  unfolding decisionsKept_def elementAt_def
  by (auto simp: nth_list_update nth_append split: if_split_asm)

definition write_law :: "goal_state \<Rightarrow> goal_state \<Rightarrow> bool" where
  "write_law s t \<longleftrightarrow>
     s_revision t = Suc (s_revision s) \<and> frozen s t
     \<and> extends (s_auditLog s) (s_auditLog t)
     \<and> s_transitionSeq s \<le> s_transitionSeq t \<and> s_transitionSeq t \<le> Suc (s_transitionSeq s)
     \<and> length (s_attempts s) \<le> length (s_attempts t)
     \<and> (s_cancellation s \<noteq> None \<longrightarrow> s_cancellation t = s_cancellation s)
     \<and> (s_closedAt s \<noteq> None \<longrightarrow> s_closedAt t = s_closedAt s)
     \<and> (isTerminalStatus (s_status s) \<longrightarrow> sameEnding s t)
     \<and> (s_transitionSeq t = s_transitionSeq s \<longrightarrow> s_currentTransition t = s_currentTransition s)
     \<and> (s_status t = s_status s \<or> canTransitionGoalRun (s_status s) (s_status t))
     \<and> (s_cancellation s \<noteq> None \<longrightarrow> s_status t = s_status s \<or> s_status t = Canceled)
     \<and> decisionsKept s t"

lemma terminal_final: "isTerminalStatus s \<Longrightarrow> \<not> canTransitionGoalRun s t"
  by (cases s) (simp_all add: canTransitionGoalRun_def)

lemma store_write_law:
  assumes "store_write p s t"
  shows "write_law s t"
  using assms
proof (rule store_writeE)
  fix request n
  assume t: "t = n\<lparr>s_revision := Suc (s_revision s)\<rparr>" and e: "evaluateTransition p request s = Write n"
  from e show ?thesis
  proof (rule evaluateTransition_Write)
    fix as
    assume a: "rq_seq request = Suc (s_transitionSeq s)" "\<not> isTerminalStatus (s_status s)"
      "s_cancellation s = None \<or> rq_to request = Canceled"
      "canTransitionGoalRun (s_status s) (rq_to request)"
      "applyAttempt s request = Inr as" and n: "n = buildNext p s request as"
    have "extends (s_auditLog s) (s_auditLog n)" by (simp add: n buildNext_def Let_def)
    moreover have "length (s_attempts s) \<le> length as" using applyAttempt_Inr [OF a(5)] by auto
    moreover have "decisionsKept s t" using decisionsKept_apply [OF a(5)] by (simp add: t n)
    ultimately show ?thesis using a by (auto simp: t n write_law_def frozen_def)
  qed
qed (auto simp: control_writes write_law_def frozen_def withRestart_def Let_def sameEnding_def)

subsection \<open>Histories\<close>

definition history_law :: "goal_state \<Rightarrow> goal_state \<Rightarrow> bool" where
  "history_law s t \<longleftrightarrow>
     s_revision s \<le> s_revision t \<and> frozen s t \<and> extends (s_auditLog s) (s_auditLog t)
     \<and> s_transitionSeq s \<le> s_transitionSeq t
     \<and> s_transitionSeq t - s_transitionSeq s \<le> s_revision t - s_revision s
     \<and> (s_cancellation s \<noteq> None \<longrightarrow>
          s_cancellation t = s_cancellation s \<and> (s_status t = s_status s \<or> s_status t = Canceled))
     \<and> (s_closedAt s \<noteq> None \<longrightarrow> s_closedAt t = s_closedAt s)
     \<and> (isTerminalStatus (s_status s) \<longrightarrow> sameEnding s t)
     \<and> (s_transitionSeq t = s_transitionSeq s \<longrightarrow> s_currentTransition t = s_currentTransition s)
     \<and> decisionsKept s t"

locale write_contract =
  fixes wr :: "goal_state \<Rightarrow> goal_state \<Rightarrow> bool"
  assumes law: "wr s t \<Longrightarrow> write_law s t"
begin

lemma history_law_refl: "history_law s s"
  by (simp add: history_law_def frozen_def sameEnding_def)

lemma history_law_step:
  assumes h: "history_law s t" and "wr t u"
  shows "history_law s u"
proof -
  have w: "write_law t u" by (rule law [OF assms(2)])
  have "decisionsKept s u"
    using h w decisionsKept_trans [of s t u] unfolding history_law_def write_law_def by blast
  moreover have "s_status u = s_status s \<or> s_status u = Canceled" if c: "s_cancellation s \<noteq> None"
  proof -
    have t: "s_cancellation t = s_cancellation s \<and> (s_status t = s_status s \<or> s_status t = Canceled)"
      using h c unfolding history_law_def by blast
    then have "s_status u = s_status t \<or> s_status u = Canceled"
      using w c unfolding write_law_def by metis
    with t show ?thesis by auto
  qed
  moreover have "sameEnding s u" if "isTerminalStatus (s_status s)"
  proof -
    have "sameEnding s t" using h that unfolding history_law_def by blast
    moreover from this have "sameEnding t u" using w that unfolding write_law_def sameEnding_def by simp
    ultimately show ?thesis unfolding sameEnding_def by simp
  qed
  moreover have "frozen s u" using h w by (simp add: history_law_def write_law_def frozen_def)
  moreover have "extends (s_auditLog s) (s_auditLog u)"
    using h w extends_trans unfolding history_law_def write_law_def by blast
  moreover have "s_cancellation u = s_cancellation s" if "s_cancellation s \<noteq> None"
    using h w that unfolding history_law_def write_law_def by metis
  moreover have "s_closedAt u = s_closedAt s" if "s_closedAt s \<noteq> None"
    using h w that unfolding history_law_def write_law_def by metis
  moreover have "s_transitionSeq u = s_transitionSeq s \<longrightarrow> s_currentTransition u = s_currentTransition s"
  proof
    assume e: "s_transitionSeq u = s_transitionSeq s"
    have "s_transitionSeq s \<le> s_transitionSeq t" using h unfolding history_law_def by blast
    moreover have "s_transitionSeq t \<le> s_transitionSeq u" using w unfolding write_law_def by blast
    ultimately have "s_transitionSeq t = s_transitionSeq s" "s_transitionSeq u = s_transitionSeq t"
      using e by linarith+
    then show "s_currentTransition u = s_currentTransition s"
      using h w unfolding history_law_def write_law_def by metis
  qed
  moreover have "s_revision s \<le> s_revision u" "s_transitionSeq s \<le> s_transitionSeq u"
    "s_transitionSeq u - s_transitionSeq s \<le> s_revision u - s_revision s"
  proof -
    have "s_revision u = Suc (s_revision t)" "s_transitionSeq t \<le> s_transitionSeq u"
      "s_transitionSeq u \<le> Suc (s_transitionSeq t)"
      using w unfolding write_law_def by blast+
    moreover have "s_revision s \<le> s_revision t" "s_transitionSeq s \<le> s_transitionSeq t"
      "s_transitionSeq t - s_transitionSeq s \<le> s_revision t - s_revision s"
      using h unfolding history_law_def by blast+
    ultimately show "s_revision s \<le> s_revision u" "s_transitionSeq s \<le> s_transitionSeq u"
      "s_transitionSeq u - s_transitionSeq s \<le> s_revision u - s_revision s"
      by linarith+
  qed
  ultimately show ?thesis unfolding history_law_def by blast
qed

lemma history: "wr\<^sup>*\<^sup>* s t \<Longrightarrow> history_law s t"
  by (induction rule: rtranclp_induct) (blast intro: history_law_refl history_law_step)+

lemma writes_counted: "(wr ^^ n) s t \<Longrightarrow> s_revision t = s_revision s + n"
  by (induction n arbitrary: t) (auto simp: write_law_def dest!: law)

end

interpretation store: write_contract "store_write p" for p
  by unfold_locales (rule store_write_law)

text \<open>
  \<^bold>\<open>C30\<close>: over any number of accepted writes of the store (controller transitions, cancellation,
  counted restarts, closing, cleanup; in any order), the configuration of a goal never changes,
  the audit log only grows, the transition count never goes back, a cancellation marker stays
  and allows only the move to \<open>canceled\<close>, \<open>closedAt\<close> stays, an ended goal keeps its ending,
  attempts, usage and log for good, and no recorded validation decision disappears; each write
  advances the revision by exactly one.
\<close>

theorem store_history:
  "(store_write p ^^ n) s t \<Longrightarrow>
     s_revision t = s_revision s + n \<and> frozen s t
     \<and> extends (s_auditLog s) (s_auditLog t) \<and> s_transitionSeq s \<le> s_transitionSeq t
     \<and> (s_cancellation s \<noteq> None \<longrightarrow>
          s_cancellation t = s_cancellation s \<and> (s_status t = s_status s \<or> s_status t = Canceled))
     \<and> (s_closedAt s \<noteq> None \<longrightarrow> s_closedAt t = s_closedAt s)
     \<and> (isTerminalStatus (s_status s) \<longrightarrow> sameEnding s t)
     \<and> decisionsKept s t"
  using store.writes_counted store.history [OF relpowp_imp_rtranclp]
  unfolding history_law_def by blast

subsection \<open>A replayed commit\<close>

lemma validState_fields:
  assumes "validState p s"
  shows "tr_seq (s_currentTransition s) = s_transitionSeq s"
    "tr_to (s_currentTransition s) = s_status s"
    "tr_transitionId (s_currentTransition s) = goalTransitionId (s_goalRunId s) (s_transitionSeq s)"
    "map a_attemptIndex (s_attempts s) = [0..<length (s_attempts s)]"
    "isAuditLogConsistent p s"
  using assms by (simp_all add: validState_iff isConsistent_def)

lemma store_write_valid: "store_write p s t \<Longrightarrow> validState p t"
  by (erule store_writeE) auto

lemma store_writes_valid: "(store_write p)\<^sup>*\<^sup>* s t \<Longrightarrow> validState p s \<Longrightarrow> validState p t"
  by (induction rule: rtranclp_induct) (blast intro: store_write_valid)+

text \<open>
  \<^bold>\<open>C32\<close>: a commit is applied exactly once. After the store accepted a controller's transition,
  the same request (a replayed activity, a second controller, a late delivery) never writes
  again, whatever was written in between: it is answered \<open>duplicate\<close> while the transition is
  still the goal's latest, and \<open>stale\<close> with the authoritative record afterwards.
\<close>

theorem transition_exactly_once:
  assumes "evaluateTransition p request s = Write n"
    and "validState p (n\<lparr>s_revision := s_revision s + 1\<rparr>)"
    and "(store_write p)\<^sup>*\<^sup>* (n\<lparr>s_revision := s_revision s + 1\<rparr>) t"
  shows "evaluateTransition p request t =
    Done (if s_transitionSeq t = rq_seq request then Duplicate t else Stale t)"
proof -
  let ?m = "n\<lparr>s_revision := s_revision s + 1\<rparr>"
  obtain as where n: "n = buildNext p s request as" and q: "rq_seq request = Suc (s_transitionSeq s)"
    using assms(1) by (rule evaluateTransition_Write)
  have m: "s_transitionSeq ?m = rq_seq request" "s_goalRunId ?m = s_goalRunId s"
    "tr_to (s_currentTransition ?m) = rq_to request"
    "tr_transitionId (s_currentTransition ?m) = rq_transitionId request"
    by (simp_all add: n)
  have id: "rq_transitionId request = goalTransitionId (s_goalRunId s) (rq_seq request)"
    using validState_fields(3) [OF assms(2)] m by simp
  have h: "history_law ?m t" by (rule store.history [OF assms(3)])
  have t: "tr_transitionId (s_currentTransition t) = goalTransitionId (s_goalRunId t) (s_transitionSeq t)"
    "tr_seq (s_currentTransition t) = s_transitionSeq t"
    using validState_fields [OF store_writes_valid [OF assms(3,2)]] by simp_all
  have g: "s_goalRunId t = s_goalRunId s" "rq_seq request \<le> s_transitionSeq t"
    using h m by (auto simp: history_law_def frozen_def)
  show ?thesis
  proof (cases "s_transitionSeq t = rq_seq request")
    case True
    with h m have "s_currentTransition t = s_currentTransition ?m" by (simp add: history_law_def)
    with True t m show ?thesis by (simp add: evaluateTransition_def)
  next
    case False
    with t id g have "tr_transitionId (s_currentTransition t) \<noteq> rq_transitionId request" by simp
    with False g(2) show ?thesis by (simp add: evaluateTransition_def)
  qed
qed

subsection \<open>The compare-and-swap loop is one atomic step\<close>

inductive interfered :: "(nat \<Rightarrow> 'kv \<Rightarrow> 'kv) \<Rightarrow> 'kv \<Rightarrow> 'kv \<Rightarrow> bool" for interfere h where
  none: "interfered interfere h h"
| other: "interfered interfere h g \<Longrightarrow> interfered interfere h (interfere i g)"

lemma interfered_trans: "interfered f g k \<Longrightarrow> interfered f h g \<Longrightarrow> interfered f h k"
  by (induction rule: interfered.induct) (auto intro: interfered.other)

text \<open>Our one write: at the moment of the write the key still held what was evaluated.\<close>

definition committedAt ::
    "platform \<Rightarrow> 'kv text_store \<Rightarrow> jstr \<Rightarrow> (goal_state \<Rightarrow> 'r evaluation) \<Rightarrow> goal_state \<Rightarrow> goal_state
       \<Rightarrow> 'kv \<Rightarrow> 'kv \<Rightarrow> bool" where
  "committedAt p kv key evaluate current record h h' \<longleftrightarrow>
     (\<exists>raw next. kv_get kv h key = Some raw \<and> decodeGoalState p raw = Some current
        \<and> goalRecordKey (s_goalRunId current) = Some key \<and> evaluate current = Write next
        \<and> record = next\<lparr>s_revision := s_revision current + 1\<rparr> \<and> validState p record
        \<and> kv_get kv h' = (kv_get kv h)(key := Some (stringifyState record)))"

lemma readKey_Found:
  "readKey p kv h key = Found raw current \<longleftrightarrow>
     kv_get kv h key = Some raw \<and> decodeGoalState p raw = Some current
     \<and> goalRecordKey (s_goalRunId current) = Some key"
  by (auto simp: readKey_def split: option.splits if_splits)

lemma casLoop_atomic:
  assumes cas: "compareAndSwap kv"
  shows "casLoop p kv interfere key evaluate stale written remaining h = (result, h') \<Longrightarrow>
    (\<exists>h0 current record. interfered interfere h h0
       \<and> committedAt p kv key evaluate current record h0 h' \<and> result = Answer (written record))
    \<or> interfered interfere h h'
      \<and> (result \<in> {Missing, Corrupt, Thrown}
         \<or> (\<exists>current r. evaluate current = Done r \<and> result = Answer r)
         \<or> (\<exists>current. result = Answer (stale current)))"
proof (induction remaining arbitrary: h rule: less_induct)
  case (less remaining)
  define g where "g = interfere (2 * remaining + 1) h"
  define h0 where "h0 = interfere (2 * remaining) g"
  have g: "interfered interfere h g" and h0: "interfered interfere h h0"
    unfolding h0_def g_def by (blast intro: interfered.intros)+
  note loop = less.prems [unfolded casLoop.simps [of _ _ _ _ _ _ _ remaining] Let_def,
      folded g_def, folded h0_def]
  show ?case
  proof (cases "readKey p kv g key")
    case (Found raw current)
    show ?thesis
    proof (cases "evaluate current")
      case (Done r)
      with loop Found g show ?thesis by auto
    next
      case (Write n)
      define nr where "nr = n\<lparr>s_revision := s_revision current + 1\<rparr>"
      note loop = loop [unfolded Found Write stored.case evaluation.case, folded nr_def]
      show ?thesis
      proof (cases "validState p nr")
        case True
        note valid = this
        show ?thesis
        proof (cases "kv_get kv h0 key = Some raw")
          case True
          let ?set = "kv_conditionalSet kv h0 key (Some raw) (stringifyState nr)"
          from cas True have s: "fst ?set" "kv_get kv (snd ?set)
              = (kv_get kv h0)(key := Some (stringifyState nr))"
            unfolding compareAndSwap_def by metis+
          with loop valid have r: "result = Answer (written nr)" "h' = snd ?set"
            by (auto simp: case_prod_beta)
          have "committedAt p kv key evaluate current nr h0 h'"
            using True valid s(2) r(2) Write Found [unfolded readKey_Found]
            by (auto simp: committedAt_def nr_def)
          with h0 r(1) show ?thesis by blast
        next
          case False
          with cas have "kv_conditionalSet kv h0 key (Some raw) (stringifyState nr) = (False, h0)"
            unfolding compareAndSwap_def by metis
          with loop valid have l: "(case remaining of 0 \<Rightarrow> (Answer (stale current), h0)
              | Suc r \<Rightarrow> casLoop p kv interfere key evaluate stale written r h0) = (result, h')"
            by simp
          show ?thesis
          proof (cases remaining)
            case 0
            with l h0 show ?thesis by auto
          next
            case (Suc r)
            with l have "casLoop p kv interfere key evaluate stale written r h0 = (result, h')" by simp
            from less.IH [OF _ this] Suc interfered_trans [OF _ h0] show ?thesis by blast
          qed
        qed
      next
        case False
        with loop g show ?thesis by auto
      qed
    qed
  qed (use loop g in auto)
qed

text \<open>
  \<^bold>\<open>C31\<close>: over a key-value store that honours its compare-and-swap contract, and whatever other
  writers do before and between the accesses, an operation of the store takes effect atomically
  or not at all. Either exactly one write is made, at a moment when the goal's key still holds
  the very record the operation evaluated, the written record is valid and one revision later,
  no other key changes, and the operation reports that record; or the operation itself writes
  nothing.
\<close>

theorem mutate_atomic:
  assumes "compareAndSwap kv"
    and "mutate p kv interfere goalRunId evaluate stale written h = (result, h')"
  shows "(\<exists>key h0 current record. keyOf goalRunId = Some key \<and> interfered interfere h h0
       \<and> committedAt p kv key evaluate current record h0 h' \<and> result = Answer (written record))
    \<or> interfered interfere h h'
      \<and> (result \<in> {Missing, Corrupt, Thrown}
         \<or> (\<exists>current r. evaluate current = Done r \<and> result = Answer r)
         \<or> (\<exists>current. result = Answer (stale current)))"
proof (cases "keyOf goalRunId")
  case None
  with assms(2) show ?thesis by (auto simp: mutate_def intro: interfered.none)
next
  case (Some key)
  with assms(2) have "casLoop p kv interfere key evaluate stale written (MAXIMUM_CAS_ATTEMPTS - 1) h
      = (result, h')"
    by (simp add: mutate_def)
  from casLoop_atomic [OF assms(1) this] Some show ?thesis by blast
qed

subsection \<open>Stamps keep a record valid\<close>

text \<open>
  The members that are stamped without a transition (revision, cancellation, closing, cleanup,
  the time of the update) are not what the log, the attempts or the usage are checked against.
\<close>

definition sameWork :: "goal_state \<Rightarrow> goal_state \<Rightarrow> bool" where
  "sameWork s t \<longleftrightarrow>
     sameAudit s t \<and> frozen s t \<and> s_usage t = s_usage s \<and> s_active t = s_active s
     \<and> s_failureDetail t = s_failureDetail s"

lemma sameWork_consistent:
  assumes "sameWork s t" "isAuditLogConsistent p t = isAuditLogConsistent p s"
    and "isTerminalPairing t = isTerminalPairing s" "isCancellationConsistent t = isCancellationConsistent s"
  shows "isConsistent p t = isConsistent p s"
proof -
  note eqs = assms(1) [unfolded sameWork_def sameAudit_def frozen_def]
  have v: "lastValidation t = lastValidation s" by (simp only: lastValidation_def eqs)
  have "hasOwnDerivedIds t = hasOwnDerivedIds s" by (simp only: hasOwnDerivedIds_def eqs)
  moreover have "isUsageConsistent t = isUsageConsistent s" by (simp only: isUsageConsistent_def eqs)
  moreover have "isStatusRelationConsistent t = isStatusRelationConsistent s"
    by (simp only: isStatusRelationConsistent_def eqs)
  moreover have "areAttemptOutcomesConsistent t = areAttemptOutcomesConsistent s"
    by (simp only: areAttemptOutcomesConsistent_def eqs)
  moreover have "isTerminalOutcomeConsistent t = isTerminalOutcomeConsistent s"
    by (simp only: isTerminalOutcomeConsistent_def v eqs)
  ultimately show ?thesis by (simp only: isConsistent_def assms(2-4) eqs)
qed

lemma sameWork_log:
  assumes "sameWork s t" "s_auditLog t = s_auditLog s" "s_controllerRestarts t = s_controllerRestarts s"
  shows "isAuditLogConsistent p t = isAuditLogConsistent p s"
proof -
  have "sameAudit s t" "s_transitionSeq t = s_transitionSeq s"
    using assms(1) by (simp_all add: sameWork_def sameAudit_def)
  then show ?thesis by (simp only: isAuditLogConsistent_def auditLoop_cong assms(2,3))
qed

lemma validState_revision:
  assumes "validState p s" "1 \<le> k"
  shows "validState p (s\<lparr>s_revision := k\<rparr>)"
proof -
  have w: "sameWork s (s\<lparr>s_revision := k\<rparr>)" by (simp add: sameWork_def sameAudit_def frozen_def)
  have "isConsistent p (s\<lparr>s_revision := k\<rparr>) = isConsistent p s"
    by (rule sameWork_consistent [OF w sameWork_log [OF w]])
      (simp_all add: isTerminalPairing_def isCancellationConsistent_def)
  with assms show ?thesis by (simp add: validState_iff ok_state_def)
qed

lemma cancellation_valid:
  assumes "validState p s" "\<not> isTerminalStatus (s_status s)" "ok_marker m" "isIsoTimestamp now"
  shows "validState p (s\<lparr>s_cancellation := Some m, s_updatedAt := now\<rparr>)"
proof -
  let ?t = "s\<lparr>s_cancellation := Some m, s_updatedAt := now\<rparr>"
  have w: "sameWork s ?t" by (simp add: sameWork_def sameAudit_def frozen_def)
  have "isConsistent p ?t = isConsistent p s"
    by (rule sameWork_consistent [OF w sameWork_log [OF w]])
      (simp_all add: isTerminalPairing_def isCancellationConsistent_def assms(2))
  with assms show ?thesis by (simp add: validState_iff ok_state_def)
qed

lemma close_valid:
  assumes "validState p s" "isTerminalStatus (s_status s)" "s_closedAt s = None" "isIsoTimestamp stamp"
  shows "validState p (s\<lparr>s_closedAt := Some stamp, s_updatedAt := stamp\<rparr>)"
proof -
  let ?t = "s\<lparr>s_closedAt := Some stamp, s_updatedAt := stamp\<rparr>"
  have w: "sameWork s ?t" by (simp add: sameWork_def sameAudit_def frozen_def)
  have "isTerminalPairing s" using assms(1) by (simp add: validState_iff isConsistent_def)
  then have "s_cleanedUpAt s = None"
    using assms(2,3) by (auto simp: isTerminalPairing_def split: if_split_asm)
  then have "isConsistent p ?t = isConsistent p s"
    by (intro sameWork_consistent [OF w sameWork_log [OF w]])
      (simp_all add: isTerminalPairing_def isCancellationConsistent_def assms(2))
  with assms show ?thesis by (simp add: validState_iff ok_state_def)
qed

lemma cleanedUp_valid:
  assumes "validState p s" "s_closedAt s \<noteq> None" "s_cleanedUpAt s = None" "isIsoTimestamp stamp"
  shows "validState p (s\<lparr>s_cleanedUpAt := Some stamp, s_updatedAt := stamp\<rparr>)"
proof -
  let ?t = "s\<lparr>s_cleanedUpAt := Some stamp, s_updatedAt := stamp\<rparr>"
  have w: "sameWork s ?t" by (simp add: sameWork_def sameAudit_def frozen_def)
  have "isTerminalPairing s" using assms(1) by (simp add: validState_iff isConsistent_def)
  then have "isTerminalStatus (s_status s)"
    using assms(2) by (auto simp: isTerminalPairing_def split: if_split_asm)
  then have "isConsistent p ?t = isConsistent p s"
    using assms(2,3) by (intro sameWork_consistent [OF w sameWork_log [OF w]])
      (auto simp: isTerminalPairing_def isCancellationConsistent_def)
  with assms show ?thesis by (simp add: validState_iff ok_state_def)
qed

lemma jsonOk_restart: "jsonOk (ae_payload (auditEventForRestart s))"
  by (simp add: auditEventForRestart_def jsonOk_def json_simps obj_def List.map_filter_def
      isJsonValue.simps MAXIMUM_JSON_DEPTH_def)

lemma ids_nonEmpty [simp]:
  "nonEmpty (goalTransitionId g n)" "nonEmpty (goalRestartId g n)" "nonEmpty (goalAttemptId g n)"
  "nonEmpty (goalAttemptRunId g n)" "nonEmpty (goalSessionId g n)" "nonEmpty (goalDecisionId a)"
  by (simp_all add: nonEmpty_def goalTransitionId_def goalRestartId_def goalAttemptId_def
      goalAttemptRunId_def goalSessionId_def goalDecisionId_def)

lemma restart_valid:
  assumes "validState p s" "\<not> isTerminalStatus (s_status s)"
    and "length (s_auditLog s) < GOAL_AUDIT_LOG_MAXIMUM_ENTRIES" "isIsoTimestamp now"
  shows "validState p (withRestart s now)"
proof -
  let ?t = "withRestart s now"
  let ?c = "s\<lparr>s_controllerRestarts := s_controllerRestarts s + 1, s_updatedAt := now\<rparr>"
  let ?e = "\<lparr>en_seq = s_transitionSeq s, en_transitionId = restartEntryId ?c,
      en_events = [auditEventForRestart ?c]\<rparr>"
  have t: "?t = ?c\<lparr>s_auditLog := s_auditLog s @ [?e]\<rparr>" by (simp add: withRestart_def Let_def)
  have w: "sameWork s ?t" by (simp add: t sameWork_def sameAudit_def frozen_def)
  obtain l where l: "auditLoop p s (s_auditLog s) (0, 0, 0)
      = Some (s_transitionSeq s, s_controllerRestarts s, l)" "l \<le> s_transitionSeq s"
    using validState_fields(5) [OF assms(1)] by (rule auditLog_counted)
  have "isRestartEntryGenuine s ?e (Suc (s_controllerRestarts s))"
    using restart_entry_genuine [of s ?c "restartEntryId ?c"] by simp
  then have "auditStep p s ?e (s_transitionSeq s, s_controllerRestarts s, l)
      = Some (s_transitionSeq s, Suc (s_controllerRestarts s), s_transitionSeq s)"
    using l(2) by (simp add: auditStep_def restartEntryId_def)
  then have "auditLoop p s (s_auditLog ?t) (0, 0, 0)
      = Some (s_transitionSeq s, Suc (s_controllerRestarts s), s_transitionSeq s)"
    by (simp add: t auditLoop_snoc l(1))
  moreover have "sameAudit s ?t" using w by (simp add: sameWork_def)
  ultimately have "isAuditLogConsistent p ?t"
    using assms(3) by (simp add: isAuditLogConsistent_def auditLoop_cong) (simp add: t)
  then have "isAuditLogConsistent p ?t = isAuditLogConsistent p s"
    using validState_fields(5) [OF assms(1)] by simp
  then have "isConsistent p ?t = isConsistent p s"
    by (rule sameWork_consistent [OF w])
      (simp_all add: t isTerminalPairing_def isCancellationConsistent_def assms(2))
  moreover have "ok_entry ?e"
    using jsonOk_restart [of ?c] assms(4)
    by (simp add: ok_entry_def ok_event_def restartEntryId_def)
      (simp add: auditEventForRestart_def json_simps keyFor_def nonEmpty_def)
  ultimately show ?thesis
    using assms(1,4) by (simp add: validState_iff ok_state_def) (simp add: t)
qed

text \<open>
  \<^bold>\<open>C35\<close>: no accepted write is ever stopped by the loop's last validity check: for a transition
  because the evaluator only writes what decodes, for the control plane because on a valid
  record, with well-formed timestamps, every marker, restart count and stamp it writes leaves a
  record that decodes.
\<close>

theorem writes_never_invalid:
  assumes "validState p s" "isIsoTimestamp now" "ok_marker marker"
    and "evaluateTransition p request s = Write n \<or> evaluateCancellation marker now s = Write n
      \<or> evaluateRestart now expectedCount s = Write n \<or> evaluateClose now s = Write n
      \<or> evaluateCleanedUp now s = Write n"
  shows "validState p (n\<lparr>s_revision := s_revision s + 1\<rparr>)"
proof -
  have "validState p n"
    using assms(4) unfolding control_writes
    by (auto elim: evaluateTransition_Write
        intro: cancellation_valid restart_valid close_valid cleanedUp_valid assms(1-3))
  then show ?thesis by (rule validState_revision) simp
qed

text \<open>
  A goal id is found again from the key its record is stored under: exactly the well-formed
  ids have a key, the boot scan decodes that key to the very id, and so no two goals share one.
\<close>

theorem recordKey_roundtrip:
  "(goalRecordKey g \<noteq> None \<longleftrightarrow> isWellFormed g)
   \<and> (goalRecordKey g = Some key \<longrightarrow>
        decodeGoalRunIdFromKey key = g \<and> (goalRecordKey h = Some key \<longrightarrow> h = g))"
proof -
  have d: "decodeGoalRunIdFromKey key = g" if "goalRecordKey g = Some key" for g
    using that by (auto simp: goalRecordKey_def decodeGoalRunIdFromKey_def Let_def decode_encodeURIComponent)
  then show ?thesis
    using encodeURIComponent_defined_iff [of g] d [of h] by (auto simp: goalRecordKey_def)
qed

end
