(* ===== verification/Acceptance.thy ===== *)
theory Acceptance
  imports GoalController StoreLaws
begin

section \<open>What a controller builds, the store accepts\<close>

text \<open>
  The meeting of \<open>packages/operative/src/durable/goal-workflow-transitions.ts\<close> and
  \<open>packages/bureau/src/goal-store.ts\<close>: the request built from the view of a live record is
  legal, changes the attempts consistently and leaves a record that decodes, so the store's
  fail-closed checks never stop a controller that follows the record.
\<close>

definition bureauIdentifiers :: goal_identifiers where
  "bureauIdentifiers =
     \<lparr>gi_transitionId = goalTransitionId, gi_attemptId = goalAttemptId,
      gi_attemptRunId = goalAttemptRunId, gi_decisionId = goalDecisionId\<rparr>"

lemma bureauIdentifiers_simps [simp]:
  "gi_transitionId bureauIdentifiers = goalTransitionId" "gi_attemptId bureauIdentifiers = goalAttemptId"
  "gi_attemptRunId bureauIdentifiers = goalAttemptRunId" "gi_decisionId bureauIdentifiers = goalDecisionId"
  by (simp_all add: bureauIdentifiers_def)

text \<open>
  The digest is 64 lowercase hexadecimal characters, as the platform documents it.
\<close>

definition hexDigests :: "platform \<Rightarrow> bool" where
  "hexDigests p \<longleftrightarrow> (\<forall>s. isSha256Hex (sha256HexSync p s))"

subsection \<open>Live records\<close>

text \<open>
  What every live record of the controller satisfies beyond the decoder's checks: an attempt
  whose run has not ended reports no usage, and no attempt of a live goal has passed.
\<close>

definition noUsage :: attempt_usage where
  "noUsage = \<lparr>au_steps = Fin 0, au_tokens = Fin 0, au_costUsd = None\<rparr>"

definition live :: "goal_state \<Rightarrow> bool" where
  "live s \<longleftrightarrow>
     \<not> isTerminalStatus (s_status s) \<longrightarrow>
       list_all (\<lambda>a. a_status a \<noteq> APassed) (s_attempts s)
       \<and> (s_status s = Running \<longrightarrow> map_option a_usage (lastOf (s_attempts s)) = Some noUsage)"

text \<open>The view a decision was made on, up to a cancellation recorded since.\<close>

definition viewed :: "goal_state \<Rightarrow> goal_view \<Rightarrow> bool" where
  "viewed s w \<longleftrightarrow>
     w\<lparr>w_cancellation := None\<rparr> = (toGoalWorkflowView s)\<lparr>w_cancellation := None\<rparr>
     \<and> (w_cancellation w \<noteq> None \<longrightarrow> s_cancellation s \<noteq> None)"

lemma viewed_self [simp]: "viewed s (toGoalWorkflowView s)"
  by (simp add: viewed_def toGoalWorkflowView_def)

lemma viewed_fields [view_simps]:
  assumes "viewed s w"
  shows "w_goalRunId w = s_goalRunId s" "w_status w = s_status s"
    "w_transitionSeq w = s_transitionSeq s" "w_validator w = s_validator s"
    "w_bounds w = s_bounds s" "w_retryPolicy w = s_retryPolicy s"
    "w_attempts w = map toView (s_attempts s)" "w_usage w = s_usage s"
    "w_createdAt w = s_createdAt s"
proof -
  have e: "w\<lparr>w_cancellation := None\<rparr> = (toGoalWorkflowView s)\<lparr>w_cancellation := None\<rparr>"
    using assms by (simp add: viewed_def)
  show "w_goalRunId w = s_goalRunId s" using arg_cong [OF e, of w_goalRunId] by (simp add: toGoalWorkflowView_def)
  show "w_status w = s_status s" using arg_cong [OF e, of w_status] by (simp add: toGoalWorkflowView_def)
  show "w_transitionSeq w = s_transitionSeq s"
    using arg_cong [OF e, of w_transitionSeq] by (simp add: toGoalWorkflowView_def)
  show "w_validator w = s_validator s" using arg_cong [OF e, of w_validator] by (simp add: toGoalWorkflowView_def)
  show "w_bounds w = s_bounds s" using arg_cong [OF e, of w_bounds] by (simp add: toGoalWorkflowView_def)
  show "w_retryPolicy w = s_retryPolicy s"
    using arg_cong [OF e, of w_retryPolicy] by (simp add: toGoalWorkflowView_def)
  show "w_attempts w = map toView (s_attempts s)"
    using arg_cong [OF e, of w_attempts] by (simp add: toGoalWorkflowView_def)
  show "w_usage w = s_usage s" using arg_cong [OF e, of w_usage] by (simp add: toGoalWorkflowView_def)
  show "w_createdAt w = s_createdAt s" using arg_cong [OF e, of w_createdAt] by (simp add: toGoalWorkflowView_def)
qed

lemma toView_simps [simp]:
  "a_attemptId (toView a) = a_attemptId a" "a_attemptIndex (toView a) = a_attemptIndex a"
  "a_runId (toView a) = a_runId a" "a_sessionId (toView a) = a_sessionId a"
  "a_startedAt (toView a) = a_startedAt a" "a_completedAt (toView a) = a_completedAt a"
  "a_finishReason (toView a) = a_finishReason a" "a_feedback (toView a) = a_feedback a"
  "a_usage (toView a) = a_usage a" "a_status (toView a) = a_status a"
  by (simp_all add: toView_def)

lemma lastOf_map: "lastOf (map f xs) = map_option f (lastOf xs)"
  by (simp add: lastOf_def last_map)

text \<open>The clock a decision is made on: a date in the record's format, and a finite age.\<close>

definition clockOk :: "goal_view \<Rightarrow> jnum \<Rightarrow> bool" where
  "clockOk w now \<longleftrightarrow> pred_option isIsoTimestamp (toIso now) \<and> toIso now \<noteq> None
     \<and> nonNegative (elapsedMilliseconds w now)"

lemma clockOkE:
  assumes "clockOk w now"
  obtains stamp where "toIso now = Some stamp" "isIsoTimestamp stamp" "nonNegative (elapsedMilliseconds w now)"
  using assms by (auto simp: clockOk_def)

subsection \<open>Usage\<close>

lemma sum_zero: "jadd (foldl (\<lambda>n a. jadd n (f a)) (Fin 0) xs) (Fin 0) = foldl (\<lambda>n a. jadd n (f a)) (Fin 0) xs"
  by (cases xs rule: rev_cases) (simp_all add: jadd_0_sum)

definition usageOf :: "goal_attempt list \<Rightarrow> jnum \<Rightarrow> goal_usage" where
  "usageOf as duration =
     \<lparr>u_attempts = length as, u_steps = foldl (\<lambda>n a. jadd n (au_steps (a_usage a))) (Fin 0) as,
      u_tokens = foldl (\<lambda>n a. jadd n (au_tokens (a_usage a))) (Fin 0) as,
      u_costUsd = foldl (\<lambda>c a. addCost c (au_costUsd (a_usage a))) None as, u_durationMs = duration\<rparr>"

lemma usage_consistentD:
  assumes "isUsageConsistent s"
  shows "s_usage s = usageOf (s_attempts s) (u_durationMs (s_usage s))"
  using assms
  by (auto simp: isUsageConsistent_def usageOf_def Let_def jeq_def split: option.splits)

lemma usage_consistentI:
  assumes "s_usage s = usageOf (s_attempts s) d" "ok_usage (s_usage s)"
  shows "isUsageConsistent s"
proof -
  have n: "nonNegative x \<Longrightarrow> jeq x x" for x by (cases x) (simp_all add: nonNegative_def)
  show ?thesis
  proof (cases "u_costUsd (s_usage s)")
    case None
    with assms n show ?thesis
      by (auto simp: isUsageConsistent_def ok_usage_def usageOf_def Let_def)
  next
    case (Some c)
    with assms n show ?thesis
      by (auto simp: isUsageConsistent_def ok_usage_def usageOf_def Let_def)
  qed
qed

text \<open>Appending an attempt that reports nothing, and reporting the usage of the last one.\<close>

lemma usageOf_append:
  "usageOf (as @ [a]) d =
     \<lparr>u_attempts = Suc (length as), u_steps = jadd (u_steps (usageOf as d)) (au_steps (a_usage a)),
      u_tokens = jadd (u_tokens (usageOf as d)) (au_tokens (a_usage a)),
      u_costUsd = addCost (u_costUsd (usageOf as d)) (au_costUsd (a_usage a)), u_durationMs = d\<rparr>"
  by (simp add: usageOf_def)

lemma usageOf_open:
  "a_usage a = noUsage \<Longrightarrow> usageOf (as @ [a]) d = (usageOf as d)\<lparr>u_attempts := Suc (length as)\<rparr>"
  by (simp add: usageOf_append noUsage_def addCost_def) (simp add: usageOf_def sum_zero)

lemma usageOf_same:
  "map a_usage as = map a_usage bs \<Longrightarrow> usageOf as d = usageOf bs d"
proof -
  assume e: "map a_usage as = map a_usage bs"
  have f: "foldl (\<lambda>n a. g n (a_usage a)) z as = foldl g z (map a_usage as)" for g and z :: 'z and as :: "goal_attempt list"
    by (induction as arbitrary: z) simp_all
  have "length as = length bs" using e by (rule map_eq_imp_length_eq)
  then show ?thesis
    using e f [of "\<lambda>n u. jadd n (au_steps u)"] f [of "\<lambda>n u. jadd n (au_tokens u)"]
      f [of "\<lambda>c u. addCost c (au_costUsd u)"]
    by (simp add: usageOf_def)
qed

lemma nonNegative_max: "nonNegative a \<Longrightarrow> nonNegative b \<Longrightarrow> nonNegative (jmax a b)"
  by (cases a; cases b) (auto simp: nonNegative_def)

subsection \<open>Attempts\<close>

lemma replace_last:
  assumes "lastOf xs = Some x"
  shows "xs = butlast xs @ [x]" "xs[length xs - 1 := y] = butlast xs @ [y]"
proof -
  show xs: "xs = butlast xs @ [x]" using assms by (rule lastOf_SomeD)
  have "(butlast xs @ [x])[length (butlast xs) := y] = butlast xs @ [y]" by (rule list_update_length)
  then show "xs[length xs - 1 := y] = butlast xs @ [y]"
    unfolding xs [symmetric] length_butlast .
qed

lemma nth_butlast_snoc: "i < length xs \<Longrightarrow> xs \<noteq> [] \<Longrightarrow>
    (butlast xs @ [y]) ! i = (if i = length xs - 1 then y else xs ! i)"
  by (auto simp: nth_append nth_butlast)

text \<open>Replacing the last attempt by one of the same identity, and appending the next one.\<close>

definition sameIdentity :: "goal_attempt \<Rightarrow> goal_attempt \<Rightarrow> bool" where
  "sameIdentity a b \<longleftrightarrow>
     a_attemptId b = a_attemptId a \<and> a_attemptIndex b = a_attemptIndex a \<and> a_runId b = a_runId a
     \<and> a_sessionId b = a_sessionId a \<and> a_startedAt b = a_startedAt a"

lemma continue_replace:
  assumes "lastOf xs = Some a" "sameIdentity a b" "a_validation a = None"
  shows "attemptsContinue xs (butlast xs @ [b])"
proof -
  have "xs \<noteq> []" "xs ! (length xs - 1) = a"
    using assms(1) by (auto simp: lastOf_def last_conv_nth split: if_split_asm)
  with assms show ?thesis
    by (auto simp: attemptsContinue_def nth_butlast_snoc sameIdentity_def)
qed

lemma continue_append: "attemptsContinue xs (xs @ [b])"
  by (auto simp: attemptsContinue_def nth_append)

lemma continue_refl: "attemptsContinue xs xs"
  by (simp add: attemptsContinue_def)

lemma index_replace:
  assumes "lastOf xs = Some a" "sameIdentity a b" "map a_attemptIndex xs = [0..<length xs]"
  shows "map a_attemptIndex (butlast xs @ [b]) = [0..<length (butlast xs @ [b])]"
proof -
  have xs: "xs = butlast xs @ [a]" using assms(1) by (rule lastOf_SomeD)
  have "map a_attemptIndex (butlast xs @ [b]) = map a_attemptIndex (butlast xs @ [a])"
    using assms(2) by (simp add: sameIdentity_def)
  moreover have "length (butlast xs @ [b]) = length xs" by (subst (2) xs) simp
  ultimately show ?thesis using assms(3) xs by metis
qed

lemma index_append:
  "map a_attemptIndex xs = [0..<length xs] \<Longrightarrow> a_attemptIndex b = length xs \<Longrightarrow>
    map a_attemptIndex (xs @ [b]) = [0..<length (xs @ [b])]"
  by simp

subsection \<open>A next record that decodes\<close>

lemma live_record:
  assumes "validState p s" "\<not> isTerminalStatus (s_status s)"
  shows "s_closedAt s = None" "s_cleanedUpAt s = None"
  using assms by (auto simp: validState_iff isConsistent_def isTerminalPairing_def)

lemma next_pairing:
  assumes "hasValidTerminalReason rq" "s_closedAt s = None" "s_cleanedUpAt s = None"
  shows "isTerminalPairing (buildNext p s rq as)"
  using assms by (auto simp: isTerminalPairing_def hasValidTerminalReason_def split: if_split_asm option.split_asm)

lemma auditEvents_ok:
  assumes "isIsoTimestamp (tr_at (s_currentTransition n))"
    and "\<And>v. lastValidation n = Some v \<Longrightarrow> isIsoTimestamp (vl_completedAt v)"
  shows "list_all ok_event (auditEventsForTransition p n)"
proof -
  have key: "nonEmpty (keyFor n)" by (simp add: keyFor_def nonEmpty_def)
  have lit: "nonEmpty (lit k) \<longleftrightarrow> k \<noteq> []" for k by (simp add: nonEmpty_def)
  note json = jsonOk_def json_simps obj_def List.map_filter_def isJsonValue.simps MAXIMUM_JSON_DEPTH_def
  have "list_all ok_event (attemptStartedEvent n)"
    using assms(1) key
    by (auto simp: attemptStartedEvent_def ok_event_def lit json split: option.split)
  moreover have "list_all ok_event (attemptValidatedEvent p n)"
  proof (cases "lastOf (s_attempts n)")
    case (Some a)
    show ?thesis
    proof (cases "a_validation a")
      case (Some v)
      with \<open>lastOf (s_attempts n) = Some a\<close> have "isIsoTimestamp (vl_completedAt v)"
        using assms(2) by (simp add: lastValidation_def)
      with Some \<open>lastOf (s_attempts n) = Some a\<close> key show ?thesis
        by (cases "vl_outcome v") (simp_all add: attemptValidatedEvent_def ok_event_def lit json)
    qed (simp add: attemptValidatedEvent_def Some)
  qed (simp add: attemptValidatedEvent_def)
  moreover have "list_all ok_event (terminalEvent n)"
    using assms(1) key
    by (cases "s_status n"; cases "validatorErrorOf (map_option vl_outcome (lastValidation n))")
      (auto simp: terminalEvent_def Let_def ok_event_def lit json validatorErrorOf_def errorJson_def
        split: option.split option.split_asm)
  ultimately show ?thesis by (simp add: auditEventsForTransition_def)
qed

lemma auditEvents_cong:
  assumes "sameAudit s t"
  shows "auditEventsForTransition p t = auditEventsForTransition p s"
proof -
  note eqs = assms [unfolded sameAudit_def]
  have "lastValidation t = lastValidation s" by (simp only: lastValidation_def eqs)
  then show ?thesis
    by (simp only: auditEventsForTransition_def attemptStartedEvent_def attemptValidatedEvent_def
        terminalEvent_def keyFor_def eqs)
qed

lemma buildNext_log:
  "s_auditLog (buildNext p s rq as) = s_auditLog s @
     [\<lparr>en_seq = rq_seq rq, en_transitionId = rq_transitionId rq,
       en_events = auditEventsForTransition p (buildNext p s rq as)\<rparr>]"
proof -
  have e: "auditEventsForTransition p (n\<lparr>s_auditLog := l\<rparr>) = auditEventsForTransition p n" for n l
    by (rule auditEvents_cong) (simp add: sameAudit_def)
  show ?thesis by (simp add: buildNext_def Let_def e)
qed

lemma next_log_consistent:
  assumes v: "validState p s" and hex: "hexDigests p" and nt: "\<not> isTerminalStatus (s_status s)"
    and cap: "length (s_auditLog s) < GOAL_AUDIT_LOG_MAXIMUM_ENTRIES"
    and seq: "rq_seq rq = Suc (s_transitionSeq s)"
    and id: "rq_transitionId rq = goalTransitionId (s_goalRunId s) (rq_seq rq)"
    and cont: "attemptsContinue (s_attempts s) as" and idx: "map a_attemptIndex as = [0..<length as]"
    and ids: "hasOwnDerivedIds (buildNext p s rq as)" and ok: "list_all ok_attempt as"
  shows "isAuditLogConsistent p (buildNext p s rq as)"
proof -
  let ?n = "buildNext p s rq as"
  let ?e = "\<lparr>en_seq = rq_seq rq, en_transitionId = rq_transitionId rq,
       en_events = auditEventsForTransition p ?n\<rparr>"
  obtain l where l: "auditLoop p s (s_auditLog s) (0, 0, 0)
      = Some (s_transitionSeq s, s_controllerRestarts s, l)" "l \<le> s_transitionSeq s"
      "\<forall>e \<in> set (s_auditLog s). en_seq e \<le> s_transitionSeq s"
    using validState_fields(5) [OF v] by (rule auditLog_counted)
  have sids: "hasOwnDerivedIds s" using v by (simp add: validState_iff isConsistent_def)
  have ident: "ok_identity (vl_identity w)" if "lastValidation ?n = Some w" for w
  proof -
    from that obtain a where "a \<in> set as" "a_validation a = Some w"
      by (auto simp: lastValidation_def dest: lastOf_Some_in split: bind_splits)
    with ok have "pred_option ok_validation (Some w)" by (auto simp: list_all_iff ok_attempt_def)
    then show ?thesis by (simp add: ok_validation_def)
  qed
  have "auditLoop p ?n (s_auditLog s) (0, 0, 0) = Some (s_transitionSeq s, s_controllerRestarts s, l)"
    by (rule auditLoop_later [OF nt _ _ sids ids _ l(1,3)]) (simp_all add: cont seq)
  moreover have "isTransitionEntryGenuine p ?n ?e"
    using transition_entry_genuine [OF ids _ _ ident, of p "rq_transitionId rq"] idx hex
    by (simp add: hexDigests_def)
  then have "auditStep p ?n ?e (s_transitionSeq s, s_controllerRestarts s, l)
      = Some (Suc (s_transitionSeq s), s_controllerRestarts s, Suc (s_transitionSeq s))"
    using l(2) seq id by (simp add: auditStep_def)
  ultimately have "auditLoop p ?n (s_auditLog ?n) (0, 0, 0)
      = Some (Suc (s_transitionSeq s), s_controllerRestarts s, Suc (s_transitionSeq s))"
    unfolding buildNext_log by (simp add: auditLoop_snoc)
  then show ?thesis using cap by (simp add: isAuditLogConsistent_def seq) (simp add: buildNext_log)
qed

lemma next_valid:
  assumes v: "validState p s" and hex: "hexDigests p" and nt: "\<not> isTerminalStatus (s_status s)"
    and cap: "length (s_auditLog s) < GOAL_AUDIT_LOG_MAXIMUM_ENTRIES"
    and seq: "rq_seq rq = Suc (s_transitionSeq s)"
    and id: "rq_transitionId rq = goalTransitionId (s_goalRunId s) (rq_seq rq)"
    and at: "isIsoTimestamp (rq_at rq)" and reason: "hasValidTerminalReason rq"
    and canc: "isTerminalStatus (rq_to rq) \<Longrightarrow> (rq_to rq = Canceled) = (s_cancellation s \<noteq> None)"
    and cont: "attemptsContinue (s_attempts s) as" and idx: "map a_attemptIndex as = [0..<length as]"
    and ids: "hasOwnDerivedIds (buildNext p s rq as)" and ok: "list_all ok_attempt as"
    and usage: "rq_usage rq = Some (usageOf as d)" "ok_usage (usageOf as d)"
    and active: "pred_option ok_active (s_active (buildNext p s rq as))"
    and rel: "isStatusRelationConsistent (buildNext p s rq as)"
    and outc: "areAttemptOutcomesConsistent (buildNext p s rq as)"
    and fin: "isTerminalOutcomeConsistent (buildNext p s rq as)"
  shows "validState p (buildNext p s rq as)"
proof -
  let ?n = "buildNext p s rq as"
  have sok: "ok_state p s" and sc: "isConsistent p s" using v by (simp_all add: validState_iff)
  have completed: "isIsoTimestamp (vl_completedAt w)" if "lastValidation ?n = Some w" for w
  proof -
    from that obtain a where "a \<in> set as" "a_validation a = Some w"
      by (auto simp: lastValidation_def dest: lastOf_Some_in split: bind_splits)
    with ok have "pred_option ok_validation (Some w)" by (auto simp: list_all_iff ok_attempt_def)
    then show ?thesis by (simp add: ok_validation_def)
  qed
  have "list_all ok_event (auditEventsForTransition p ?n)"
    by (rule auditEvents_ok) (simp_all add: at completed)
  then have "list_all ok_entry (s_auditLog ?n)"
    using sok by (simp add: buildNext_log ok_state_def ok_entry_def id)
  then have "ok_state p ?n"
    using sok usage at ok active live_record [OF v nt]
    by (simp add: ok_state_def ok_transition_def id)
  moreover have "isAuditLogConsistent p ?n"
    by (rule next_log_consistent [OF v hex nt cap seq id cont idx ids ok])
  moreover have "isUsageConsistent ?n"
    by (rule usage_consistentI [of _ d]) (simp_all add: usage)
  moreover have "isTerminalPairing ?n" by (rule next_pairing [OF reason live_record [OF v nt]])
  moreover have "isCancellationConsistent ?n" using canc by (simp add: isCancellationConsistent_def)
  ultimately show ?thesis
    using sc ids rel outc fin idx by (simp add: validState_iff isConsistent_def id)
qed

text \<open>Such a request is a write, whatever cancellation has done to it.\<close>

lemma accepted:
  assumes "validState p s" "\<not> isTerminalStatus (s_status s)"
    and "length (s_auditLog s) < GOAL_AUDIT_LOG_MAXIMUM_ENTRIES"
    and "rq_seq rq = Suc (s_transitionSeq s)"
    and "rq_transitionId rq = goalTransitionId (s_goalRunId s) (rq_seq rq)"
    and "s_cancellation s = None \<or> rq_to rq = Canceled"
    and "canTransitionGoalRun (s_status s) (rq_to rq)" "hasValidTerminalReason rq"
    and "applyAttempt s rq = Inr as" "validState p (buildNext p s rq as)"
  shows "evaluateTransition p rq s = Write (buildNext p s rq as)"
  using assms validState_fields(3) [OF assms(1)] by (simp add: evaluateTransition_def Let_def)

end
