(* ===== verification/BuilderLaws.thy ===== *)
theory BuilderLaws
  imports Acceptance
begin

section \<open>Every builder's request is accepted\<close>

text \<open>
  One lemma per builder of \<open>packages/operative/src/durable/goal-workflow-transitions.ts\<close>: on a
  valid live record and a usable clock reading the request exists, the store writes it, and the
  next record is live again.
\<close>

subsection \<open>The attempts of the next record\<close>

lemma valid_facts:
  assumes "validState p s"
  shows "hasOwnDerivedIds s" "list_all ok_attempt (s_attempts s)" "areAttemptOutcomesConsistent s"
    "\<not> list_ex (\<lambda>a. isInFlight (Some a)) (butlast (s_attempts s))"
    "map a_attemptIndex (s_attempts s) = [0..<length (s_attempts s)]"
    "s_usage s = usageOf (s_attempts s) (u_durationMs (s_usage s))" "ok_usage (s_usage s)"
    "ok_budget (s_bounds s)" "ok_identity (s_validator s)"
  using assms usage_consistentD [of s]
  by (auto simp: validState_iff isConsistent_def ok_state_def isStatusRelationConsistent_def
      split: if_split_asm)

lemma inFlight_unvalidated:
  assumes "validState p s" "lastOf (s_attempts s) = Some a" "isInFlight (Some a)"
  shows "a_validation a = None"
proof (cases "a_validation a")
  case (Some v)
  with valid_facts(3) [OF assms(1)] lastOf_Some_in [OF assms(2)]
  have "a_status a = attemptStatusForOutcome (vl_outcome v)"
    by (auto simp: areAttemptOutcomesConsistent_def list_all_iff)
  with assms(3) show ?thesis by (cases "vl_outcome v") (simp_all add: isInFlight_def)
qed

lemma last_id:
  assumes "validState p s" "lastOf (s_attempts s) = Some a"
  shows "a_attemptIndex a = length (s_attempts s) - 1" "s_attempts s \<noteq> []"
    "a_attemptId a = goalAttemptId (s_goalRunId s) (a_attemptIndex a)"
    "s_attempts s ! (length (s_attempts s) - 1) = a"
proof -
  note i = lastOf_index [OF valid_facts(5) [OF assms(1)] assms(2)]
  show "a_attemptIndex a = length (s_attempts s) - 1" by (rule i)
  show ne: "s_attempts s \<noteq> []" using assms(2) by auto
  show l: "s_attempts s ! (length (s_attempts s) - 1) = a"
    using i by (simp add: elementAt_Some)
  show "a_attemptId a = goalAttemptId (s_goalRunId s) (a_attemptIndex a)"
    using valid_facts(1) [OF assms(1)] ne unfolding hasOwnDerivedIds_iff
    by (metis i(1) l diff_less length_greater_0_conv zero_less_one)
qed

text \<open>The last attempt is replaced by one of the same identity.\<close>

lemma replace_facts:
  fixes s rq a b p
  defines "as \<equiv> butlast (s_attempts s) @ [b]"
  assumes v: "validState p s" and l: "lastOf (s_attempts s) = Some a" and u: "a_validation a = None"
    and same: "sameIdentity a b" and ok: "ok_attempt b"
    and decision: "pred_option (\<lambda>v. vl_decisionId v = goalDecisionId (a_attemptId a)
      \<and> validationByteLength v \<le> GOAL_VALIDATION_MAXIMUM_BYTES) (a_validation b)"
    and outcome: "case a_validation b of None \<Rightarrow> a_status b \<noteq> APassed
      | Some v \<Rightarrow> a_status b = attemptStatusForOutcome (vl_outcome v)"
    and rq: "rq_attempt rq = Some b"
  shows "applyAttempt s rq = Inr as" "attemptsContinue (s_attempts s) as"
    "map a_attemptIndex as = [0..<length as]" "hasOwnDerivedIds (buildNext p s rq as)"
    "list_all ok_attempt as" "areAttemptOutcomesConsistent (buildNext p s rq as)"
    "length as = length (s_attempts s)" "lastOf as = Some b" "butlast as = butlast (s_attempts s)"
proof -
  note li = last_id [OF v l]
  have len: "0 < length (s_attempts s)" using li(2) by simp
  show "length as = length (s_attempts s)" using len by (simp add: as_def)
  show "lastOf as = Some b" "butlast as = butlast (s_attempts s)" by (simp_all add: as_def)
  have i: "a_attemptIndex b = length (s_attempts s) - 1" "a_attemptId b = a_attemptId a"
    using same li(1) by (simp_all add: sameIdentity_def)
  show "applyAttempt s rq = Inr as"
    using rq i li len decision replace_last(2) [OF l, of b] u
    by (cases "a_validation b") (auto simp: applyAttempt_def Let_def as_def not_less)
  show "attemptsContinue (s_attempts s) as" unfolding as_def by (rule continue_replace [OF l same u])
  show "map a_attemptIndex as = [0..<length as]"
    unfolding as_def by (rule index_replace [OF l same valid_facts(5) [OF v]])
  have nth: "as ! j = (if j = length (s_attempts s) - 1 then b else s_attempts s ! j)"
    if "j < length (s_attempts s)" for j
    using that li(2) unfolding as_def by (rule nth_butlast_snoc)
  show "hasOwnDerivedIds (buildNext p s rq as)"
    unfolding hasOwnDerivedIds_iff buildNext_simps
  proof (intro allI impI)
    fix j
    assume "j < length as"
    then have j: "j < length (s_attempts s)" using \<open>length as = _\<close> by simp
    note own = valid_facts(1) [OF v, unfolded hasOwnDerivedIds_iff, rule_format, OF j]
    show "a_attemptId (as ! j) = goalAttemptId (s_goalRunId s) j
      \<and> a_runId (as ! j) = goalAttemptRunId (s_goalRunId s) j
      \<and> a_sessionId (as ! j) = attemptSessionId (s_goalRunId s) (policyKind (s_conversationPolicy s)) j
      \<and> (case a_validation (as ! j) of None \<Rightarrow> True
         | Some v \<Rightarrow> vl_decisionId v = goalDecisionId (a_attemptId (as ! j)))"
    proof (cases "j = length (s_attempts s) - 1")
      case True
      with own li(4) same decision nth [OF j] show ?thesis
        by (cases "a_validation b") (simp_all add: sameIdentity_def)
    next
      case False
      then have e: "as ! j = s_attempts s ! j" using nth [OF j] by simp
      show ?thesis unfolding e by (rule own)
    qed
  qed
  have bl: "list_all P (s_attempts s) \<Longrightarrow> list_all P (butlast (s_attempts s))" for P
    by (auto simp: list_all_iff dest: in_set_butlastD)
  show "list_all ok_attempt as" using valid_facts(2) [OF v] ok bl by (simp add: as_def)
  show "areAttemptOutcomesConsistent (buildNext p s rq as)"
    using valid_facts(3) [OF v] outcome bl by (simp add: areAttemptOutcomesConsistent_def as_def)
qed

text \<open>The attempts are kept.\<close>

lemma keep_facts:
  assumes v: "validState p s" and rq: "rq_attempt rq = None"
  shows "applyAttempt s rq = Inr (s_attempts s)" "hasOwnDerivedIds (buildNext p s rq (s_attempts s))"
    "areAttemptOutcomesConsistent (buildNext p s rq (s_attempts s))"
  using valid_facts [OF v] rq
  by (simp_all add: applyAttempt_def hasOwnDerivedIds_def areAttemptOutcomesConsistent_def)

text \<open>The next attempt is opened.\<close>

lemma append_facts:
  fixes s rq b p
  defines "as \<equiv> s_attempts s @ [b]"
  assumes v: "validState p s" and ok: "ok_attempt b" and rq: "rq_attempt rq = Some b"
    and b: "a_attemptId b = goalAttemptId (s_goalRunId s) (length (s_attempts s))"
      "a_runId b = goalAttemptRunId (s_goalRunId s) (length (s_attempts s))"
      "a_sessionId b = attemptSessionId (s_goalRunId s) (policyKind (s_conversationPolicy s))
         (length (s_attempts s))"
      "a_attemptIndex b = length (s_attempts s)" "a_validation b = None" "a_status b \<noteq> APassed"
  shows "applyAttempt s rq = Inr as" "map a_attemptIndex as = [0..<length as]"
    "hasOwnDerivedIds (buildNext p s rq as)" "list_all ok_attempt as"
    "areAttemptOutcomesConsistent (buildNext p s rq as)"
proof -
  show "applyAttempt s rq = Inr as" using rq b by (simp add: applyAttempt_def as_def Let_def)
  show "map a_attemptIndex as = [0..<length as]"
    unfolding as_def by (rule index_append [OF valid_facts(5) [OF v] b(4)])
  show "list_all ok_attempt as" using valid_facts(2) [OF v] ok by (simp add: as_def)
  show "areAttemptOutcomesConsistent (buildNext p s rq as)"
    using valid_facts(3) [OF v] b by (simp add: areAttemptOutcomesConsistent_def as_def)
  show "hasOwnDerivedIds (buildNext p s rq as)"
    using valid_facts(1) [OF v] b
    unfolding hasOwnDerivedIds_iff buildNext_simps as_def nth_append
    by (auto simp: less_Suc_eq)
qed

subsection \<open>Usage and durations\<close>

lemma recorded_ok:
  assumes "validState p s" "viewed s w" "clockOk w now"
  shows "nonNegative (recordedDurationMs w now)"
proof -
  have "nonNegative (u_durationMs (s_usage s))" using valid_facts(7) [OF assms(1)] by (simp add: ok_usage_def)
  then show ?thesis
    using assms(3) by (auto simp: recordedDurationMs_def viewed_fields [OF assms(2)] clockOk_def
        intro: nonNegative_max)
qed

lemma usage_unchanged:
  assumes "validState p s" "viewed s w"
  shows "usageFor w now noChanges = usageOf (s_attempts s) (recordedDurationMs w now)"
proof -
  have "s_usage s = usageOf (s_attempts s) (u_durationMs (s_usage s))" by (rule valid_facts [OF assms(1)])
  then show ?thesis
    by (simp add: usageFor_def noChanges_def viewed_fields [OF assms(2)] usageOf_def Let_def) (metis goal_usage.select_convs)
qed

lemma ok_usageOf:
  assumes "validState p s" "nonNegative d" "map a_usage as = map a_usage (s_attempts s)"
  shows "ok_usage (usageOf as d)"
proof -
  have "usageOf as d = (s_usage s)\<lparr>u_durationMs := d\<rparr>"
    using valid_facts(6) [OF assms(1)] usageOf_same [OF assms(3), of d]
    by (metis (no_types, lifting) usageOf_def goal_usage.update_convs(5))
  with valid_facts(7) [OF assms(1)] assms(2) show ?thesis by (simp add: ok_usage_def)
qed

subsection \<open>A record and a view a controller may act on\<close>

definition ready :: "platform \<Rightarrow> goal_state \<Rightarrow> goal_view \<Rightarrow> jnum \<Rightarrow> bool" where
  "ready p s w now \<longleftrightarrow>
     validState p s \<and> hexDigests p \<and> \<not> isTerminalStatus (s_status s) \<and> live s
     \<and> length (s_auditLog s) < GOAL_AUDIT_LOG_MAXIMUM_ENTRIES \<and> viewed s w \<and> clockOk w now"

lemma readyD:
  assumes "ready p s w now"
  shows "validState p s" "hexDigests p" "\<not> isTerminalStatus (s_status s)" "live s"
    "length (s_auditLog s) < GOAL_AUDIT_LOG_MAXIMUM_ENTRIES" "viewed s w" "clockOk w now"
  using assms by (simp_all add: ready_def)

text \<open>
  The store writes the request, the next record is live again, and an attempt is added exactly by
  the move to \<open>running\<close>.
\<close>

definition paced :: "transition_request \<Rightarrow> goal_state \<Rightarrow> goal_state \<Rightarrow> bool" where
  "paced rq s n \<longleftrightarrow>
     length (s_attempts n) = length (s_attempts s) + (if rq_to rq = Running then 1 else 0)"

definition acceptedBy :: "platform \<Rightarrow> transition_request option \<Rightarrow> goal_state \<Rightarrow> bool" where
  "acceptedBy p request s \<longleftrightarrow>
     (\<exists>rq n. request = Some rq \<and> evaluateTransition p rq s = Write n \<and> live n \<and> paced rq s n)"

lemma same_pace:
  "lastOf xs = Some a \<Longrightarrow> t \<noteq> Running \<Longrightarrow>
     length (butlast xs @ [b]) = length xs + (if t = Running then 1 else 0)"
  by (cases xs rule: rev_cases) auto

lemma replaced_length: "lastOf xs = Some a \<Longrightarrow> Suc (length xs - Suc 0) = length xs"
  by (cases xs) auto

lemma terminal_not_running: "isTerminalStatus t \<Longrightarrow> t \<noteq> Running"
  by auto

lemma acceptedByI:
  assumes r: "ready p s w now" and rq: "request = Some rq"
    and seq: "rq_seq rq = Suc (s_transitionSeq s)"
    and id: "rq_transitionId rq = goalTransitionId (s_goalRunId s) (rq_seq rq)"
    and at: "isIsoTimestamp (rq_at rq)" and reason: "hasValidTerminalReason rq"
    and edge: "canTransitionGoalRun (s_status s) (rq_to rq)"
    and canc: "isTerminalStatus (rq_to rq) \<and> (rq_to rq = Canceled) = (s_cancellation s \<noteq> None)
      \<or> \<not> isTerminalStatus (rq_to rq) \<and> s_cancellation s = None"
    and app: "applyAttempt s rq = Inr as"
    and att: "attemptsContinue (s_attempts s) as" "map a_attemptIndex as = [0..<length as]"
      "hasOwnDerivedIds (buildNext p s rq as)" "list_all ok_attempt as"
      "areAttemptOutcomesConsistent (buildNext p s rq as)"
    and usage: "rq_usage rq = Some (usageOf as d)" "ok_usage (usageOf as d)"
    and active: "pred_option ok_active (s_active (buildNext p s rq as))"
    and rel: "isStatusRelationConsistent (buildNext p s rq as)"
    and fin: "isTerminalOutcomeConsistent (buildNext p s rq as)"
    and live: "live (buildNext p s rq as)"
    and pace: "length as = length (s_attempts s) + (if rq_to rq = Running then 1 else 0)"
  shows "acceptedBy p request s"
proof -
  note r = readyD [OF r]
  have "validState p (buildNext p s rq as)"
    by (rule next_valid [OF r(1,2,3,5) seq id at reason _ att(1,2,3,4) usage active rel att(5) fin])
      (use canc in blast)
  moreover have "s_cancellation s = None \<or> rq_to rq = Canceled" using canc by blast
  ultimately have "evaluateTransition p rq s = Write (buildNext p s rq as)"
    by (intro accepted [OF r(1,3,5) seq id _ edge reason app])
  with live rq pace show ?thesis by (auto simp: acceptedBy_def paced_def)
qed

text \<open>What every builder starts from.\<close>

definition baseOf :: "goal_state \<Rightarrow> jstr \<Rightarrow> goal_run_status \<Rightarrow> jstr \<Rightarrow> transition_request" where
  "baseOf s stamp t c =
     \<lparr>rq_goalRunId = s_goalRunId s, rq_seq = Suc (s_transitionSeq s),
      rq_transitionId = goalTransitionId (s_goalRunId s) (Suc (s_transitionSeq s)),
      rq_to = t, rq_at = stamp, rq_cause = c, rq_terminalReason = None,
      rq_failureDetail = None, rq_attempt = None, rq_usage = None, rq_active = KeepActive\<rparr>"

lemma baseOf_simps [simp]:
  "rq_goalRunId (baseOf s stamp t c) = s_goalRunId s" "rq_seq (baseOf s stamp t c) = Suc (s_transitionSeq s)"
  "rq_transitionId (baseOf s stamp t c) = goalTransitionId (s_goalRunId s) (Suc (s_transitionSeq s))"
  "rq_to (baseOf s stamp t c) = t" "rq_at (baseOf s stamp t c) = stamp"
  "rq_terminalReason (baseOf s stamp t c) = None" "rq_attempt (baseOf s stamp t c) = None"
  "rq_active (baseOf s stamp t c) = KeepActive"
  by (simp_all add: baseOf_def)

lemma base_Some:
  assumes "ready p s w now"
  shows "\<exists>stamp. isIsoTimestamp stamp \<and> toIso now = Some stamp
     \<and> (\<forall>t c. baseTransition w bureauIdentifiers now t c = Some (baseOf s stamp t c))"
proof -
  note r = readyD [OF assms]
  obtain stamp where s: "toIso now = Some stamp" "isIsoTimestamp stamp" using r(7) by (rule clockOkE)
  then show ?thesis by (auto simp: baseTransition_def baseOf_def viewed_fields [OF r(6)])
qed

subsection \<open>Forced finishes\<close>

definition forcedOk :: "goal_state \<Rightarrow> json goal_decision \<Rightarrow> bool" where
  "forcedOk s d \<longleftrightarrow>
     d = Cancel \<and> s_cancellation s \<noteq> None
     \<or> s_cancellation s = None \<and> (\<exists>r detail. d = Exhaust r detail
        \<and> (r = AggregateBudgetExceeded
           \<or> r = AttemptLimitReached
             \<and> jle (b_maximumAttempts (s_bounds s)) (jnat (length (s_attempts s)))))"

lemma edge_ends: "\<not> isTerminalStatus s \<Longrightarrow> canTransitionGoalRun s Canceled"
  "\<not> isTerminalStatus s \<Longrightarrow> canTransitionGoalRun s Exhausted"
  "\<not> isTerminalStatus s \<Longrightarrow> canTransitionGoalRun s Failed"
  by (cases s; simp add: canTransitionGoalRun_def)+

lemma live_attempts:
  "live s \<Longrightarrow> \<not> isTerminalStatus (s_status s) \<Longrightarrow> list_all (\<lambda>a. a_status a \<noteq> APassed) (s_attempts s)"
  by (simp add: live_def)

lemma all_butlast: "list_all P xs \<Longrightarrow> list_all P (butlast xs)"
  by (auto simp: list_all_iff dest: in_set_butlastD)

lemma last_ok: "validState p s \<Longrightarrow> lastOf (s_attempts s) = Some a \<Longrightarrow> ok_attempt a"
  using valid_facts(2) [of p s] lastOf_Some_in [of "s_attempts s" a] by (simp add: list_all_iff)

lemma isInFlight_toView: "isAttemptInFlight (Some (toView a)) = isInFlight (Some a)"
  by (simp add: isAttemptInFlight_def isInFlight_def)

text \<open>The move a forced finish makes.\<close>

lemma forcedOkE:
  assumes "ready p s w now" "forcedOk s d"
  obtains t reason detail where "decisionFields d = (t, Some reason, detail)"
    "TERMINAL_STATUS_BY_REASON reason = t" "isTerminalStatus t" "canTransitionGoalRun (s_status s) t"
    "t \<noteq> Succeeded" "(t = Canceled) = (s_cancellation s \<noteq> None)"
    "reason = AttemptLimitReached \<longrightarrow> jle (b_maximumAttempts (s_bounds s)) (jnat (length (s_attempts s)))"
    "reason \<noteq> ValidatorFailNonRetryable" "reason \<noteq> ValidatorInfrastructureError"
  using assms(2) edge_ends [OF readyD(3) [OF assms(1)]] that by (auto simp: forcedOk_def)

lemma rel_terminal:
  "isTerminalStatus (s_status n) \<Longrightarrow> isStatusRelationConsistent n \<longleftrightarrow>
     \<not> list_ex (\<lambda>a. isInFlight (Some a)) (butlast (s_attempts n)) \<and> s_active n = None
     \<and> \<not> isInFlight (lastOf (s_attempts n))"
  by (cases "s_status n") (simp_all add: isStatusRelationConsistent_def)

lemma forced_inFlight:
  assumes r: "ready p s w now" and d: "forcedOk s d"
    and a: "lastOf (s_attempts s) = Some a" "isInFlight (Some a)"
  shows "acceptedBy p (buildGoalForcedFinish w bureauIdentifiers now d) s"
proof -
  note rd = readyD [OF r] and v = valid_facts [OF readyD(1) [OF r]]
  obtain stamp where st: "isIsoTimestamp stamp"
      "\<And>t c. baseTransition w bureauIdentifiers now t c = Some (baseOf s stamp t c)"
    using base_Some [OF r] by blast
  obtain t reason detail where df: "decisionFields d = (t, Some reason, detail)"
    "TERMINAL_STATUS_BY_REASON reason = t" "isTerminalStatus t" "canTransitionGoalRun (s_status s) t"
    "t \<noteq> Succeeded" "(t = Canceled) = (s_cancellation s \<noteq> None)"
    "reason = AttemptLimitReached \<longrightarrow> jle (b_maximumAttempts (s_bounds s)) (jnat (length (s_attempts s)))"
    "reason \<noteq> ValidatorFailNonRetryable" "reason \<noteq> ValidatorInfrastructureError"
    using r d by (rule forcedOkE)
  let ?d = "recordedDurationMs w now"
  have ndur: "nonNegative ?d" by (rule recorded_ok [OF rd(1,6,7)])
  have cur: "currentAttemptOf w = Some (toView a)"
    by (simp add: currentAttemptOf_def viewed_fields [OF rd(6)] lastOf_map a(1))
  let ?b = "withAttempt (toView a) ((withStatus AAborted)\<lparr>ac_completedAt := Some stamp\<rparr>)"
  let ?as = "butlast (s_attempts s) @ [?b]"
  have same: "sameIdentity a ?b" by (simp add: sameIdentity_def withAttempt_def)
  have bok: "ok_attempt ?b"
    using last_ok [OF rd(1) a(1)] st by (simp add: ok_attempt_def withAttempt_def withStatus_def)
  have bs: "a_validation ?b = None" "a_status ?b = AAborted" "a_usage ?b = a_usage a"
    by (simp_all add: withAttempt_def withStatus_def)
  obtain rq where rq: "buildGoalForcedFinish w bureauIdentifiers now d = Some rq"
    "rq_attempt rq = Some ?b" "rq_to rq = t" "rq_terminalReason rq = Some reason"
    "rq_seq rq = Suc (s_transitionSeq s)" "rq_at rq = stamp" "rq_active rq = ClearActive"
    "rq_transitionId rq = goalTransitionId (s_goalRunId s) (Suc (s_transitionSeq s))"
    "rq_usage rq = Some (usageFor w now noChanges)"
    by (simp add: buildGoalForcedFinish_def decidedTransition_def df(1) st cur isInFlight_toView a(2))
  have dec: "pred_option (\<lambda>v. vl_decisionId v = goalDecisionId (a_attemptId a)
    \<and> validationByteLength v \<le> GOAL_VALIDATION_MAXIMUM_BYTES) (a_validation ?b)" by (simp add: bs)
  have out: "case a_validation ?b of None \<Rightarrow> a_status ?b \<noteq> APassed
    | Some v \<Rightarrow> a_status ?b = attemptStatusForOutcome (vl_outcome v)" by (simp add: bs)
  note f = replace_facts [OF rd(1) a(1) inFlight_unvalidated [OF rd(1) a] same bok dec out rq(2)]
  have len: "Suc (length (s_attempts s) - Suc 0) = length (s_attempts s)"
    using last_id(2) [OF rd(1) a(1)] by (cases "s_attempts s") simp_all
  have us: "map a_usage ?as = map a_usage (s_attempts s)"
    using replace_last(1) [OF a(1)] by (metis bs(3) list.simps(8,9) map_append)
  have bl: "list_all (\<lambda>a. a_status a \<noteq> APassed) ?as"
    using all_butlast [OF live_attempts [OF rd(4,3)]] by (simp add: bs)
  show ?thesis
  proof (rule acceptedByI [OF r rq(1) rq(5) _ _ _ _ _ f(1,2,3,4,5,6), where d = ?d])
    show "isTerminalOutcomeConsistent (buildNext p s rq ?as)"
      using df bl by (auto simp: isTerminalOutcomeConsistent_def rq list_ex_iff list_all_iff Let_def len
          split: terminal_reason.split)
    show "length ?as = length (s_attempts s) + (if rq_to rq = Running then 1 else 0)"
      using same_pace [OF a(1) terminal_not_running [OF df(3)]] by (simp add: rq)
  qed (use df v(4) bl in \<open>simp_all add: rq st hasValidTerminalReason_def usage_unchanged [OF rd(1,6)]
      usageOf_same [OF us] ok_usageOf [OF rd(1) ndur refl] rel_terminal isInFlight_def bs
      live_def del: list.pred_inject list_all_append\<close>)
qed

lemma forced_accepted:
  assumes r: "ready p s w now" and d: "forcedOk s d"
  shows "acceptedBy p (buildGoalForcedFinish w bureauIdentifiers now d) s"
proof (cases "isInFlight (lastOf (s_attempts s))")
  case True
  then show ?thesis using forced_inFlight [OF r d] by (auto simp: isInFlight_def split: option.split_asm)
next
  case False
  note rd = readyD [OF r] and v = valid_facts [OF readyD(1) [OF r]]
  obtain stamp where st: "isIsoTimestamp stamp"
      "\<And>t c. baseTransition w bureauIdentifiers now t c = Some (baseOf s stamp t c)"
    using base_Some [OF r] by blast
  obtain t reason detail where df: "decisionFields d = (t, Some reason, detail)"
    "TERMINAL_STATUS_BY_REASON reason = t" "isTerminalStatus t" "canTransitionGoalRun (s_status s) t"
    "t \<noteq> Succeeded" "(t = Canceled) = (s_cancellation s \<noteq> None)"
    "reason = AttemptLimitReached \<longrightarrow> jle (b_maximumAttempts (s_bounds s)) (jnat (length (s_attempts s)))"
    "reason \<noteq> ValidatorFailNonRetryable" "reason \<noteq> ValidatorInfrastructureError"
    using r d by (rule forcedOkE)
  let ?d = "recordedDurationMs w now"
  have ndur: "nonNegative ?d" by (rule recorded_ok [OF rd(1,6,7)])
  have cur: "currentAttemptOf w = map_option toView (lastOf (s_attempts s))"
    by (simp add: currentAttemptOf_def viewed_fields [OF rd(6)] lastOf_map)
  obtain rq where rq: "buildGoalForcedFinish w bureauIdentifiers now d = Some rq"
    "rq_attempt rq = None" "rq_to rq = t" "rq_terminalReason rq = Some reason"
    "rq_seq rq = Suc (s_transitionSeq s)" "rq_at rq = stamp" "rq_active rq = ClearActive"
    "rq_transitionId rq = goalTransitionId (s_goalRunId s) (Suc (s_transitionSeq s))"
    "rq_usage rq = Some (usageFor w now noChanges)"
    using False
    by (cases "lastOf (s_attempts s)")
      (simp_all add: buildGoalForcedFinish_def decidedTransition_def df(1) st cur isInFlight_toView)
  note bl = live_attempts [OF rd(4,3)]
  show ?thesis
  proof (rule acceptedByI [OF r rq(1) rq(5) _ _ _ _ _ keep_facts(1) [OF rd(1) rq(2)] continue_refl v(5)
        keep_facts(2) [OF rd(1) rq(2)] v(2) keep_facts(3) [OF rd(1) rq(2)], where d = ?d])
    show "isTerminalOutcomeConsistent (buildNext p s rq (s_attempts s))"
      using df bl by (auto simp: isTerminalOutcomeConsistent_def rq list_ex_iff list_all_iff Let_def
          split: terminal_reason.split)
  qed (use df v(4) bl False terminal_not_running [OF df(3)] in \<open>simp_all add: rq st hasValidTerminalReason_def usage_unchanged [OF rd(1,6)]
      ok_usageOf [OF rd(1) ndur refl] rel_terminal live_def\<close>)
qed

end
