(* ===== verification/BuilderMoves.thy ===== *)
theory BuilderMoves
  imports BuilderLaws
begin

section \<open>The builders that start, hand over and decide an attempt\<close>

text \<open>
  The remaining builders of \<open>packages/operative/src/durable/goal-workflow-transitions.ts\<close>
  (\<open>buildOpenAttempt\<close>, \<open>buildEvaluationStarted\<close>, \<open>buildRunFinishDecision\<close>,
  \<open>buildValidationDecision\<close>, \<open>buildStartFailure\<close>), each accepted by the store at the record it
  was built from.
\<close>

subsection \<open>Opening an attempt\<close>

lemma usage_opened:
  assumes "validState p s" "viewed s w" "a_usage b = noUsage"
  shows "usageFor w now (noChanges\<lparr>uc_attempts := Some (length (s_attempts s) + 1)\<rparr>)
    = usageOf (s_attempts s @ [b]) (recordedDurationMs w now)"
proof -
  have "usageFor w now (noChanges\<lparr>uc_attempts := Some (length (s_attempts s) + 1)\<rparr>)
      = (usageFor w now noChanges)\<lparr>u_attempts := Suc (length (s_attempts s))\<rparr>"
    by (simp add: usageFor_def noChanges_def Let_def)
  then show ?thesis
    by (simp add: usage_unchanged [OF assms(1,2)] usageOf_open [OF assms(3)])
qed

lemma not_inFlight:
  assumes "validState p s" "s_status s = Pending \<or> s_status s = Retrying"
  shows "\<not> list_ex (\<lambda>a. isInFlight (Some a)) (s_attempts s)"
proof (cases "lastOf (s_attempts s)")
  case (Some a)
  have "isStatusRelationConsistent s" using assms(1) by (simp add: validState_iff isConsistent_def)
  then have "\<not> isInFlight (Some a)"
    using assms(2) Some by (auto simp: isStatusRelationConsistent_def isInFlight_def split: if_split_asm)
  then have "\<not> list_ex (\<lambda>a. isInFlight (Some a)) (butlast (s_attempts s) @ [a])"
    using valid_facts(4) [OF assms(1)] by simp
  then show ?thesis using replace_last(1) [OF Some] by metis
qed simp

lemma open_accepted:
  assumes r: "ready p s w now" and st: "s_status s = Pending \<or> s_status s = Retrying"
    and nc: "s_cancellation s = None"
    and session: "sessionId = attemptSessionId (s_goalRunId s) (policyKind (s_conversationPolicy s))
      (length (s_attempts s))"
  shows "acceptedBy p (buildOpenAttempt w bureauIdentifiers now (length (w_attempts w)) sessionId) s"
proof -
  note rd = readyD [OF r] and v = valid_facts [OF readyD(1) [OF r]]
  obtain stamp where base: "isIsoTimestamp stamp" "toIso now = Some stamp"
      "\<And>t c. baseTransition w bureauIdentifiers now t c = Some (baseOf s stamp t c)"
    using base_Some [OF r] by blast
  let ?d = "recordedDurationMs w now" and ?n = "length (s_attempts s)"
  have ndur: "nonNegative ?d" by (rule recorded_ok [OF rd(1,6,7)])
  let ?b = "\<lparr>a_attemptId = goalAttemptId (s_goalRunId s) ?n, a_attemptIndex = ?n,
    a_runId = goalAttemptRunId (s_goalRunId s) ?n, a_sessionId = sessionId, a_startedAt = stamp,
    a_completedAt = None, a_finishReason = None, a_feedback = None, a_usage = noUsage,
    a_status = ARunning, a_validation = None\<rparr> :: goal_attempt"
  let ?as = "s_attempts s @ [?b]"
  obtain rq where rq: "buildOpenAttempt w bureauIdentifiers now (length (w_attempts w)) sessionId = Some rq"
    "rq_attempt rq = Some ?b" "rq_to rq = Running" "rq_terminalReason rq = None"
    "rq_seq rq = Suc (s_transitionSeq s)" "rq_at rq = stamp"
    "rq_active rq = SetActive (AttemptWork (a_attemptId ?b) (a_runId ?b) stamp)"
    "rq_transitionId rq = goalTransitionId (s_goalRunId s) (Suc (s_transitionSeq s))"
    "rq_usage rq = Some (usageFor w now (noChanges\<lparr>uc_attempts := Some (?n + 1)\<rparr>))"
    by (simp add: buildOpenAttempt_def Let_def base viewed_fields [OF rd(6)] noUsage_def)
  have bok: "ok_attempt ?b"
    by (simp add: ok_attempt_def base(1) session attemptSessionId_def noUsage_def ok_attempt_usage_def
        nonNegative_def)
  note f = append_facts [OF rd(1) bok rq(2)]
  have u: "ok_usage (usageOf ?as ?d)"
    using ok_usageOf [OF rd(1) ndur refl] usageOf_open [of ?b "s_attempts s" ?d] by (simp add: ok_usage_def)
  show ?thesis
  proof (rule acceptedByI [OF r rq(1) rq(5) _ _ _ _ _ f(1) continue_append f(2,3,4,5) _ u])
    show "isStatusRelationConsistent (buildNext p s rq ?as)"
      using not_inFlight [OF rd(1) st] by (simp add: isStatusRelationConsistent_def rq)
    show "rq_usage rq = Some (usageOf ?as ?d)"
      using usage_opened [OF rd(1,6), of ?b] by (simp add: rq)
    show "canTransitionGoalRun (s_status s) (rq_to rq)" using st by (auto simp: rq canTransitionGoalRun_def)
  qed (use live_attempts [OF rd(4,3)] in \<open>simp_all add: rq base session nc hasValidTerminalReason_def
      live_def isTerminalOutcomeConsistent_def\<close>)
qed

subsection \<open>Accounting what a finished run reported\<close>

text \<open>A report of non-negative, finite counts whose addition to the usage is finite.\<close>

definition signalOk :: "goal_state \<Rightarrow> terminal_signal \<Rightarrow> bool" where
  "signalOk s f \<longleftrightarrow>
     nonNegative (ts_steps f) \<and> nonNegative (ts_tokens f) \<and> pred_option nonNegative (ts_costUsd f)
     \<and> nonNegative (jadd (u_steps (s_usage s)) (ts_steps f))
     \<and> nonNegative (jadd (u_tokens (s_usage s)) (ts_tokens f))
     \<and> pred_option nonNegative (addCost (u_costUsd (s_usage s)) (ts_costUsd f))"

lemma usage_accounted:
  assumes v: "validState p s" and w: "viewed s w" and l: "lastOf (s_attempts s) = Some a"
    and none: "a_usage a = noUsage" and b: "a_usage b = reportedUsage f"
    and ok: "signalOk s f" and d: "nonNegative (recordedDurationMs w now)"
  shows "accountAttemptUsage w now f = usageOf (butlast (s_attempts s) @ [b]) (recordedDurationMs w now)"
    and "ok_usage (usageOf (butlast (s_attempts s) @ [b]) (recordedDurationMs w now))"
proof -
  let ?d = "recordedDurationMs w now" and ?u = "s_usage s"
  have "?u = usageOf (s_attempts s) (u_durationMs ?u)" by (rule valid_facts [OF v])
  then have u: "?u = (usageOf (butlast (s_attempts s)) (u_durationMs ?u))\<lparr>u_attempts := length (s_attempts s)\<rparr>"
    using usageOf_open [OF none, of "butlast (s_attempts s)" "u_durationMs ?u"]
      replace_last(1) [OF l] length_append_singleton [of "butlast (s_attempts s)" a] by metis
  have e: "usageOf (butlast (s_attempts s) @ [b]) ?d =
      \<lparr>u_attempts = length (s_attempts s), u_steps = jadd (u_steps ?u) (ts_steps f),
       u_tokens = jadd (u_tokens ?u) (ts_tokens f),
       u_costUsd = addCost (u_costUsd ?u) (ts_costUsd f), u_durationMs = ?d\<rparr>"
    using last_id(2) [OF v l]
    by (subst (1 2 3) u) (simp add: usageOf_append b reportedUsage_def, simp add: usageOf_def Suc_diff_1)
  have att: "u_attempts ?u = length (s_attempts s)" by (subst u) simp
  show "accountAttemptUsage w now f = usageOf (butlast (s_attempts s) @ [b]) ?d"
    unfolding e
    by (cases "ts_costUsd f")
      (simp_all add: accountAttemptUsage_def usageFor_def Let_def viewed_fields [OF w] addCost_def att)
  show "ok_usage (usageOf (butlast (s_attempts s) @ [b]) ?d)"
    unfolding e using ok d by (simp add: ok_usage_def signalOk_def)
qed

lemma running_last:
  assumes "validState p s" "s_status s = Running"
  obtains a where "lastOf (s_attempts s) = Some a" "a_status a = ARunning"
proof -
  have "isStatusRelationConsistent s" using assms(1) by (simp add: validState_iff isConsistent_def)
  with assms(2) that show thesis
    by (auto simp: isStatusRelationConsistent_def Let_def split: if_split_asm option.split_asm active_work.split_asm)
qed

lemma evaluating_last:
  assumes "validState p s" "s_status s = Evaluating"
  obtains a where "lastOf (s_attempts s) = Some a" "a_status a = AEvaluating"
proof -
  have "isStatusRelationConsistent s" using assms(1) by (simp add: validState_iff isConsistent_def)
  with assms(2) that show thesis
    by (auto simp: isStatusRelationConsistent_def Let_def split: if_split_asm option.split_asm active_work.split_asm)
qed

lemma live_running:
  assumes "live s" "s_status s = Running" "lastOf (s_attempts s) = Some a"
  shows "a_usage a = noUsage"
  using assms by (simp add: live_def)

subsection \<open>Handing a finished attempt to its validator\<close>

lemma evaluation_accepted:
  assumes r: "ready p s w now" and st: "s_status s = Running" and nc: "s_cancellation s = None"
    and l: "lastOf (s_attempts s) = Some a" and ok: "signalOk s f"
  shows "acceptedBy p (buildEvaluationStarted w bureauIdentifiers now (toView a) f) s"
proof -
  note rd = readyD [OF r] and v = valid_facts [OF readyD(1) [OF r]]
  obtain stamp where base: "isIsoTimestamp stamp" "toIso now = Some stamp"
      "\<And>t c. baseTransition w bureauIdentifiers now t c = Some (baseOf s stamp t c)"
    using base_Some [OF r] by blast
  let ?d = "recordedDurationMs w now"
  have ndur: "nonNegative ?d" by (rule recorded_ok [OF rd(1,6,7)])
  have ar: "a_status a = ARunning" using running_last [OF rd(1) st] l by force
  let ?b = "withAttempt (toView a) ((withStatus AEvaluating)
    \<lparr>ac_finishReason := Some (ts_finishReason f), ac_usage := Some (reportedUsage f)\<rparr>)"
  let ?as = "butlast (s_attempts s) @ [?b]"
  have same: "sameIdentity a ?b" by (simp add: sameIdentity_def withAttempt_def)
  have bs: "a_validation ?b = None" "a_status ?b = AEvaluating" "a_usage ?b = reportedUsage f"
    "a_attemptId ?b = a_attemptId a"
    by (simp_all add: withAttempt_def withStatus_def)
  have bok: "ok_attempt ?b"
    using last_ok [OF rd(1) l] ok
    by (simp add: ok_attempt_def withAttempt_def withStatus_def reportedUsage_def ok_attempt_usage_def
        signalOk_def)
  obtain rq where rq: "buildEvaluationStarted w bureauIdentifiers now (toView a) f = Some rq"
    "rq_attempt rq = Some ?b" "rq_to rq = Evaluating" "rq_terminalReason rq = None"
    "rq_seq rq = Suc (s_transitionSeq s)" "rq_at rq = stamp"
    "rq_active rq = SetActive (ValidationWork (a_attemptId a) (s_validator s) stamp)"
    "rq_transitionId rq = goalTransitionId (s_goalRunId s) (Suc (s_transitionSeq s))"
    "rq_usage rq = Some (accountAttemptUsage w now f)"
    by (simp add: buildEvaluationStarted_def base viewed_fields [OF rd(6)])
  note u = usage_accounted [OF rd(1,6) l live_running [OF rd(4) st l] bs(3) ok ndur]
  have out: "case a_validation ?b of None \<Rightarrow> a_status ?b \<noteq> APassed
    | Some v \<Rightarrow> a_status ?b = attemptStatusForOutcome (vl_outcome v)" by (simp add: bs)
  have dec: "pred_option (\<lambda>v. vl_decisionId v = goalDecisionId (a_attemptId a)
    \<and> validationByteLength v \<le> GOAL_VALIDATION_MAXIMUM_BYTES) (a_validation ?b)" by (simp add: bs)
  have fl: "isInFlight (Some a)" by (simp add: isInFlight_def ar)
  note g = replace_facts [OF rd(1) l inFlight_unvalidated [OF rd(1) l fl] same bok dec out rq(2)]
  show ?thesis
  proof (rule acceptedByI [OF r rq(1) rq(5) _ _ _ _ _ g(1,2,3,4,5,6) _ u(2)])
    show "canTransitionGoalRun (s_status s) (rq_to rq)" by (simp add: st rq canTransitionGoalRun_def)
  qed (use v(4) last_ok [OF rd(1) l] all_butlast [OF live_attempts [OF rd(4,3)]] in \<open>simp_all add: replaced_length [OF l] rq base nc u(1) bs v(9)
      hasValidTerminalReason_def live_def isTerminalOutcomeConsistent_def isStatusRelationConsistent_def
      ok_attempt_def\<close>)
qed

subsection \<open>A run that ends the goal\<close>

lemma run_failed_accepted:
  assumes r: "ready p s w now" and st: "s_status s = Running" and nc: "s_cancellation s = None"
    and l: "lastOf (s_attempts s) = Some a" and ok: "signalOk s f"
  shows "acceptedBy p (buildRunFinishDecision w bureauIdentifiers now (toView a) f
    (Fail AttemptRunFailed e detail :: json goal_decision) how) s"
proof -
  note rd = readyD [OF r] and v = valid_facts [OF readyD(1) [OF r]]
  obtain stamp where base: "isIsoTimestamp stamp" "toIso now = Some stamp"
      "\<And>t c. baseTransition w bureauIdentifiers now t c = Some (baseOf s stamp t c)"
    using base_Some [OF r] by blast
  let ?d = "recordedDurationMs w now"
  have ndur: "nonNegative ?d" by (rule recorded_ok [OF rd(1,6,7)])
  have ar: "a_status a = ARunning" using running_last [OF rd(1) st] l by force
  let ?b = "withAttempt (toView a)
    ((withStatus (case how of AttemptFailed \<Rightarrow> AFailed | AttemptAborted \<Rightarrow> AAborted))
      \<lparr>ac_finishReason := Some (ts_finishReason f), ac_usage := Some (reportedUsage f),
       ac_completedAt := Some stamp\<rparr>)"
  let ?as = "butlast (s_attempts s) @ [?b]"
  have same: "sameIdentity a ?b" by (simp add: sameIdentity_def withAttempt_def)
  have bs: "a_validation ?b = None" "a_usage ?b = reportedUsage f"
    by (simp_all add: withAttempt_def withStatus_def)
  have bst: "a_status ?b \<noteq> APassed" "a_status ?b \<noteq> ARunning" "a_status ?b \<noteq> AEvaluating"
    by (cases how; simp add: withAttempt_def withStatus_def)+
  have bok: "ok_attempt ?b"
    using last_ok [OF rd(1) l] ok base(1)
    by (simp add: ok_attempt_def withAttempt_def withStatus_def reportedUsage_def ok_attempt_usage_def
        signalOk_def)
  obtain rq where rq: "buildRunFinishDecision w bureauIdentifiers now (toView a) f
      (Fail AttemptRunFailed e detail :: json goal_decision) how = Some rq"
    "rq_attempt rq = Some ?b" "rq_to rq = Failed" "rq_terminalReason rq = Some AttemptRunFailed"
    "rq_seq rq = Suc (s_transitionSeq s)" "rq_at rq = stamp" "rq_active rq = ClearActive"
    "rq_transitionId rq = goalTransitionId (s_goalRunId s) (Suc (s_transitionSeq s))"
    "rq_usage rq = Some (accountAttemptUsage w now f)"
    by (simp add: buildRunFinishDecision_def decidedTransition_def base)
  note u = usage_accounted [OF rd(1,6) l live_running [OF rd(4) st l] bs(2) ok ndur]
  have out: "case a_validation ?b of None \<Rightarrow> a_status ?b \<noteq> APassed
    | Some v \<Rightarrow> a_status ?b = attemptStatusForOutcome (vl_outcome v)" by (simp add: bs bst)
  have dec: "pred_option (\<lambda>v. vl_decisionId v = goalDecisionId (a_attemptId a)
    \<and> validationByteLength v \<le> GOAL_VALIDATION_MAXIMUM_BYTES) (a_validation ?b)" by (simp add: bs)
  have fl: "isInFlight (Some a)" by (simp add: isInFlight_def ar)
  note g = replace_facts [OF rd(1) l inFlight_unvalidated [OF rd(1) l fl] same bok dec out rq(2)]
  have np: "list_all (\<lambda>a. a_status a \<noteq> APassed) ?as"
    using all_butlast [OF live_attempts [OF rd(4,3)]] bst by simp
  show ?thesis
    by (rule acceptedByI [OF r rq(1) rq(5) _ _ _ _ _ g(1,2,3,4,5,6) _ u(2)])
      (use v(4) np bst in \<open>simp_all add: replaced_length [OF l] rq base nc st u(1) canTransitionGoalRun_def
      hasValidTerminalReason_def live_def rel_terminal isInFlight_def isTerminalOutcomeConsistent_def
      list_ex_iff list_all_iff\<close>)
qed

subsection \<open>A validator's outcome\<close>

lemma map_last_eq: "xs = butlast xs @ [a] \<Longrightarrow> f b = f a \<Longrightarrow> map f (butlast xs @ [b]) = map f xs"
  by (metis list.simps(8,9) map_append)

lemma attemptStatusFor_eq: "attemptStatusFor outcome = attemptStatusForOutcome outcome"
  by (cases outcome) simp_all

lemma attemptStatusForOutcome_simps:
  "attemptStatusForOutcome outcome \<noteq> ARunning" "attemptStatusForOutcome outcome \<noteq> AEvaluating"
  "attemptStatusForOutcome outcome = APassed \<longleftrightarrow> outcomeKind outcome = ''pass''"
  by (cases outcome; simp)+

definition resultOk :: "jstr \<Rightarrow> validator_result \<Rightarrow> bool" where
  "resultOk attemptId res \<longleftrightarrow>
     ok_identity (vr_identity res) \<and> isIsoTimestamp (vr_startedAt res)
     \<and> isIsoTimestamp (vr_completedAt res) \<and> ok_outcome (vr_outcome res)
     \<and> validationByteLength
         \<lparr>vl_identity = vr_identity res, vl_startedAt = vr_startedAt res,
          vl_completedAt = vr_completedAt res, vl_outcome = vr_outcome res,
          vl_decisionId = goalDecisionId attemptId\<rparr> \<le> GOAL_VALIDATION_MAXIMUM_BYTES"

lemma limit_strict: "ok_budget b \<Longrightarrow> \<not> jle (b_maximumAttempts b) (jnat n) \<Longrightarrow> jlt (jnat n) (b_maximumAttempts b)"
  by (cases "b_maximumAttempts b") (auto simp: ok_budget_def jnat_def)

text \<open>What a decision over an outcome says of the goal's end.\<close>

definition decidedOk :: "goal_state \<Rightarrow> json outcome \<Rightarrow> json goal_decision \<Rightarrow> bool" where
  "decidedOk s outcome d \<longleftrightarrow>
     (case d of
        Succeed \<Rightarrow> outcomeKind outcome = ''pass''
      | Retry _ \<Rightarrow> outcomeKind outcome \<noteq> ''pass''
          \<and> jlt (jnat (length (s_attempts s))) (b_maximumAttempts (s_bounds s))
      | Exhaust r _ \<Rightarrow> outcomeKind outcome \<noteq> ''pass'' \<and> (r = AggregateBudgetExceeded
          \<or> r = AttemptLimitReached
            \<and> jle (b_maximumAttempts (s_bounds s)) (jnat (length (s_attempts s))))
      | Fail r _ _ \<Rightarrow> r = ValidatorFailNonRetryable \<and> outcomeKind outcome = ''fail''
          \<or> r = ValidatorInfrastructureError \<and> outcomeKind outcome \<noteq> ''pass'' \<and> outcomeKind outcome \<noteq> ''fail''
      | Cancel \<Rightarrow> False)"

lemma decideOutcome_ok:
  assumes v: "validState p s" and w: "viewed s w"
  shows "decidedOk s outcome (decideOutcome (decisionContextFor w now) outcome fb False)"
proof -
  let ?c = "decisionContextFor w now"
  have u: "u_attempts (s_usage s) = length (s_attempts s)"
    using valid_facts(6) [OF v] by (metis usageOf_def goal_usage.select_convs(1))
  have c: "dc_budget ?c = s_bounds s" "u_attempts (dc_usage ?c) = length (s_attempts s)"
    by (simp_all add: decisionContextFor_def goalUsage_def viewed_fields [OF w] u)
  show ?thesis
  proof (cases "decideOutcome ?c outcome fb False")
    case (Retry f)
    then have "\<not> jle (b_maximumAttempts (s_bounds s)) (jnat (length (s_attempts s)))"
      using c by (cases outcome)
        (auto simp: decideRetryOrExhaust_retry_iff infrastructureFailure_def split: if_split_asm)
    moreover have "outcomeKind outcome \<noteq> ''pass''" using Retry by (cases outcome) simp_all
    ultimately show ?thesis using Retry limit_strict [OF valid_facts(8) [OF v]] by (simp add: decidedOk_def)
  next
    case (Exhaust r d)
    from decideOutcome_Exhaust [OF Exhaust] Exhaust c show ?thesis by (auto simp: decidedOk_def)
  next
    case (Fail r e d)
    from decideOutcome_Fail [OF Fail] Fail show ?thesis by (auto simp: decidedOk_def)
  next
    case Succeed
    from this [unfolded decideOutcome_succeed_iff] Succeed show ?thesis by (auto simp: decidedOk_def)
  qed simp
qed

lemma decided_move:
  assumes "decidedOk s outcome d" "decisionFields d = (t, reason, detail)"
  shows "canTransitionGoalRun Evaluating t" "t \<noteq> Canceled" "t = Succeeded \<longleftrightarrow> outcomeKind outcome = ''pass''"
    "if isTerminalStatus t then map_option TERMINAL_STATUS_BY_REASON reason = Some t else t = Retrying \<and> reason = None"
    "t = Retrying \<Longrightarrow> jlt (jnat (length (s_attempts s))) (b_maximumAttempts (s_bounds s))"
    "reason = Some ValidatorFailNonRetryable \<Longrightarrow> outcomeKind outcome = ''fail''"
    "reason = Some ValidatorInfrastructureError \<Longrightarrow> outcomeKind outcome \<noteq> ''fail''"
    "reason = Some AttemptLimitReached \<Longrightarrow>
       jle (b_maximumAttempts (s_bounds s)) (jnat (length (s_attempts s)))"
  using assms by (cases d; auto simp: decidedOk_def canTransitionGoalRun_def)+

lemma decided_record:
  assumes d: "decidedOk s outcome d" "decisionFields d = (t, reason, detail)"
    and n: "s_status n = t" "s_terminalReason n = reason" "s_active n = None" "s_bounds n = s_bounds s"
      "s_attempts n = xs @ [b]" "length (s_attempts n) = length (s_attempts s)"
    and b: "a_status b = attemptStatusForOutcome outcome" "map_option vl_outcome (a_validation b) = Some outcome"
    and xs: "list_all (\<lambda>a. a_status a \<noteq> APassed) xs" "\<not> list_ex (\<lambda>a. isInFlight (Some a)) xs"
  shows "isStatusRelationConsistent n" "isTerminalOutcomeConsistent n" "live n"
proof -
  note m = decided_move [OF d]
  have fl: "\<not> isInFlight (Some b)" by (simp add: isInFlight_def b attemptStatusForOutcome_simps)
  have last: "lastOf (s_attempts n) = Some b" "butlast (s_attempts n) = xs" by (simp_all add: n)
  have verdict: "map_option (\<lambda>v. outcomeKind (vl_outcome v)) (lastValidation n) = Some (outcomeKind outcome)"
    using b(2) by (auto simp: lastValidation_def last)
  have np: "list_ex (\<lambda>a. a_status a = APassed) (s_attempts n) \<longleftrightarrow> t = Succeeded"
    using xs(1) by (auto simp: n b m(3) attemptStatusForOutcome_simps list_ex_iff list_all_iff)
  show "isStatusRelationConsistent n"
  proof (cases "isTerminalStatus t")
    case True
    then show ?thesis using xs(2) fl by (simp add: rel_terminal n(1,3) last)
  next
    case False
    then have t: "t = Retrying" using m(4) by simp
    have "a_status b = AFailed \<or> a_status b = AAborted"
      using m(3) t b(1) attemptStatusForOutcome_simps [of outcome] by (cases "a_status b") auto
    with t show ?thesis using xs(2) m(5) n(6)
      by (simp add: isStatusRelationConsistent_def n(1,3,4) last)
  qed
  show "isTerminalOutcomeConsistent n"
    using m np b(1) n(6)
    by (cases reason) (auto simp: isTerminalOutcomeConsistent_def verdict n(1,2,4) last
        attemptStatusForOutcome_simps split: terminal_reason.split)
  show "live n"
    using m(4) np n(1) by (auto simp: live_def list_ex_iff list_all_iff)
qed

lemma validation_accepted:
  assumes r: "ready p s w now" and st: "s_status s = Evaluating" and nc: "s_cancellation s = None"
    and l: "lastOf (s_attempts s) = Some a" and ok: "resultOk (a_attemptId a) res"
    and d: "decidedOk s (vr_outcome res) d"
  shows "acceptedBy p (buildValidationDecision w bureauIdentifiers now (toView a) res d) s"
proof -
  note rd = readyD [OF r] and v = valid_facts [OF readyD(1) [OF r]]
  obtain stamp where base: "isIsoTimestamp stamp" "toIso now = Some stamp"
      "\<And>t c. baseTransition w bureauIdentifiers now t c = Some (baseOf s stamp t c)"
    using base_Some [OF r] by blast
  let ?d = "recordedDurationMs w now"
  have ndur: "nonNegative ?d" by (rule recorded_ok [OF rd(1,6,7)])
  have ar: "a_status a = AEvaluating" using evaluating_last [OF rd(1) st] l by force
  let ?v = "\<lparr>vl_identity = vr_identity res, vl_startedAt = vr_startedAt res,
    vl_completedAt = vr_completedAt res, vl_outcome = vr_outcome res,
    vl_decisionId = goalDecisionId (a_attemptId a)\<rparr>"
  let ?b = "withAttempt (toView a) ((withStatus (attemptStatusForOutcome (vr_outcome res)))
    \<lparr>ac_completedAt := Some (vr_completedAt res), ac_feedback := outcomeFeedback (vr_outcome res),
     ac_validation := Some ?v\<rparr>)"
  let ?as = "butlast (s_attempts s) @ [?b]"
  have same: "sameIdentity a ?b" by (simp add: sameIdentity_def withAttempt_def)
  have bs: "a_validation ?b = Some ?v" "a_status ?b = attemptStatusForOutcome (vr_outcome res)"
    "a_usage ?b = a_usage a"
    by (simp_all add: withAttempt_def withStatus_def)
  have bok: "ok_attempt ?b"
    using last_ok [OF rd(1) l] ok
    by (simp add: ok_attempt_def withAttempt_def withStatus_def resultOk_def ok_validation_def)
  obtain t reason detail where df: "decisionFields d = (t, reason, detail)" by (cases "decisionFields d")
  obtain rq where rq: "buildValidationDecision w bureauIdentifiers now (toView a) res d = Some rq"
    "rq_attempt rq = Some ?b" "rq_to rq = t" "rq_terminalReason rq = reason"
    "rq_seq rq = Suc (s_transitionSeq s)" "rq_at rq = stamp" "rq_active rq = ClearActive"
    "rq_transitionId rq = goalTransitionId (s_goalRunId s) (Suc (s_transitionSeq s))"
    "rq_usage rq = Some (usageFor w now noChanges)"
    by (simp add: buildValidationDecision_def decidedTransition_def base df attemptStatusFor_eq)
  have out: "case a_validation ?b of None \<Rightarrow> a_status ?b \<noteq> APassed
    | Some v \<Rightarrow> a_status ?b = attemptStatusForOutcome (vl_outcome v)" by (simp add: bs)
  have dec: "pred_option (\<lambda>v. vl_decisionId v = goalDecisionId (a_attemptId a)
    \<and> validationByteLength v \<le> GOAL_VALIDATION_MAXIMUM_BYTES) (a_validation ?b)"
    using ok by (simp add: bs resultOk_def)
  have fl: "isInFlight (Some a)" by (simp add: isInFlight_def ar)
  note g = replace_facts [OF rd(1) l inFlight_unvalidated [OF rd(1) l fl] same bok dec out rq(2)]
  have us: "map a_usage ?as = map a_usage (s_attempts s)"
    using replace_last(1) [OF l] bs(3) map_last_eq by metis
  note m = decided_move [OF d df]
  have k: "s_attempts (buildNext p s rq ?as) = butlast (s_attempts s) @ [?b]"
    "length (s_attempts (buildNext p s rq ?as)) = length (s_attempts s)"
    using g(7) by simp_all
  note e = decided_record [OF d df _ _ _ _ k bs(2) _ all_butlast [OF live_attempts [OF rd(4,3)]] v(4)]
  show ?thesis
    by (rule acceptedByI [OF r rq(1) rq(5) _ _ _ _ _ g(1,2,3,4,5,6) _ ok_usageOf [OF rd(1) ndur us] _ e])
      (use m(1-4) in \<open>auto simp: replaced_length [OF l] rq base nc st bs(1) hasValidTerminalReason_def
        usage_unchanged [OF rd(1,6)] usageOf_same [OF us] split: if_split_asm\<close>)
qed

subsection \<open>An attempt that could not start\<close>

lemma start_failed_accepted:
  assumes r: "ready p s w now" and st: "s_status s = Pending \<or> s_status s = Retrying"
    and nc: "s_cancellation s = None"
  shows "acceptedBy p (buildStartFailure w bureauIdentifiers now
    (Fail AttemptRunFailed e detail :: json goal_decision)) s"
proof -
  note rd = readyD [OF r] and v = valid_facts [OF readyD(1) [OF r]]
  obtain stamp where base: "isIsoTimestamp stamp" "toIso now = Some stamp"
      "\<And>t c. baseTransition w bureauIdentifiers now t c = Some (baseOf s stamp t c)"
    using base_Some [OF r] by blast
  let ?d = "recordedDurationMs w now"
  have ndur: "nonNegative ?d" by (rule recorded_ok [OF rd(1,6,7)])
  obtain rq where rq: "buildStartFailure w bureauIdentifiers now
      (Fail AttemptRunFailed e detail :: json goal_decision) = Some rq"
    "rq_attempt rq = None" "rq_to rq = Failed" "rq_terminalReason rq = Some AttemptRunFailed"
    "rq_seq rq = Suc (s_transitionSeq s)" "rq_at rq = stamp" "rq_active rq = ClearActive"
    "rq_transitionId rq = goalTransitionId (s_goalRunId s) (Suc (s_transitionSeq s))"
    "rq_usage rq = Some (usageFor w now noChanges)"
    by (simp add: buildStartFailure_def base)
  have fl: "\<not> isInFlight (lastOf (s_attempts s))"
    using not_inFlight [OF rd(1) st]
    by (auto simp: list_ex_iff isInFlight_def split: option.splits dest!: lastOf_Some_in)
  show ?thesis
    by (rule acceptedByI [OF r rq(1) rq(5) _ _ _ _ _ keep_facts(1) [OF rd(1) rq(2)] continue_refl v(5)
        keep_facts(2) [OF rd(1) rq(2)] v(2) keep_facts(3) [OF rd(1) rq(2)] _
        ok_usageOf [OF rd(1) ndur refl]])
      (use st v(4) fl live_attempts [OF rd(4,3)] in \<open>auto simp: rq base nc hasValidTerminalReason_def
        usage_unchanged [OF rd(1,6)] canTransitionGoalRun_def rel_terminal live_def
        isTerminalOutcomeConsistent_def list_ex_iff list_all_iff\<close>)
qed

end
