(* ===== verification/ControllerLaws.thy ===== *)
theory ControllerLaws
  imports BuilderMoves
begin

section \<open>The controller never proposes what the store refuses\<close>

text \<open>
  \<open>advance\<close> of \<open>packages/operative/src/durable/goal-workflow.ts\<close> against the store of
  \<open>packages/bureau/src/goal-store.ts\<close>: every commit a segment reaches, whatever its recorded
  operations answered and whatever other writers did meanwhile, is written, or answered in one of
  the ways the loop adopts.
\<close>

subsection \<open>Writes that are no transition\<close>

definition steady :: "goal_state \<Rightarrow> goal_state \<Rightarrow> bool" where
  "steady s t \<longleftrightarrow>
     s_status t = s_status s \<and> s_attempts t = s_attempts s \<and> s_usage t = s_usage s
     \<and> s_active t = s_active s \<and> s_transitionSeq t = s_transitionSeq s
     \<and> s_terminalReason t = s_terminalReason s \<and> s_failureDetail t = s_failureDetail s
     \<and> frozen s t \<and> (s_cancellation s \<noteq> None \<longrightarrow> s_cancellation t = s_cancellation s)"

lemma steady_trans: "steady s t \<Longrightarrow> steady t u \<Longrightarrow> steady s u"
  by (simp add: steady_def frozen_def)

lemma steady_write:
  assumes "store_write p s t" "s_transitionSeq t = s_transitionSeq s"
  shows "steady s t"
  using assms(1)
proof (rule store_writeE)
  fix request n
  assume t: "t = n\<lparr>s_revision := Suc (s_revision s)\<rparr>" and e: "evaluateTransition p request s = Write n"
  from e have "s_transitionSeq n = Suc (s_transitionSeq s)" by (rule evaluateTransition_Write) simp
  with assms(2) t show ?thesis by simp
qed (auto simp: control_writes steady_def frozen_def withRestart_def Let_def)

lemma steady_writes:
  assumes "(store_write p)\<^sup>*\<^sup>* s t"
  shows "s_transitionSeq t = s_transitionSeq s \<Longrightarrow> steady s t"
  using assms
proof (induction rule: rtranclp_induct)
  case base
  show ?case by (simp add: steady_def frozen_def)
next
  case (step t u)
  have "s_transitionSeq s \<le> s_transitionSeq t" using store.history [OF step(1)] by (simp add: history_law_def)
  moreover have "s_transitionSeq t \<le> s_transitionSeq u"
    using store_write_law [OF step(2)] by (simp add: write_law_def)
  ultimately have e: "s_transitionSeq t = s_transitionSeq s" "s_transitionSeq u = s_transitionSeq t"
    using step.prems by simp_all
  show ?case by (rule steady_trans [OF step.IH [OF e(1)] steady_write [OF step(2) e(2)]])
qed

lemma steady_ready:
  assumes "ready p s w now" "steady s t" "validState p t"
    "length (s_auditLog t) < GOAL_AUDIT_LOG_MAXIMUM_ENTRIES"
  shows "ready p t w now"
proof -
  note r = readyD [OF assms(1)] and st = assms(2) [unfolded steady_def frozen_def]
  have "live t" using r(4) st by (simp add: live_def)
  moreover have "viewed t w"
  proof -
    have "(toGoalWorkflowView t)\<lparr>w_cancellation := None\<rparr> = (toGoalWorkflowView s)\<lparr>w_cancellation := None\<rparr>"
      using st by (simp add: toGoalWorkflowView_def)
    then show ?thesis using r(6) st by (auto simp: viewed_def)
  qed
  ultimately show ?thesis using r st assms(3,4) by (simp add: ready_def)
qed

subsection \<open>What a commit can be answered\<close>

text \<open>
  The answers a controller adopts: the transition is written (the record is live again and paced), it
  was already applied, the goal has moved on, a cancellation came first, or restarts have filled
  the log.
\<close>

definition adopted :: "platform \<Rightarrow> transition_request \<Rightarrow> goal_state \<Rightarrow> bool" where
  "adopted p rq u \<longleftrightarrow>
     (case evaluateTransition p rq u of
        Write n \<Rightarrow> live n \<and> paced rq u n
      | Done (Duplicate _) \<Rightarrow> True
      | Done (Stale _) \<Rightarrow> True
      | Done (Rejected reason _) \<Rightarrow>
          reason = RCancellationRequested \<and> s_cancellation u \<noteq> None \<and> rq_to rq \<noteq> Canceled
          \<or> reason = ROversized \<and> GOAL_AUDIT_LOG_MAXIMUM_ENTRIES \<le> length (s_auditLog u)
      | Done (Applied _) \<Rightarrow> False)"

lemma acceptedBy_fields:
  assumes "acceptedBy p (Some rq) s" "validState p s"
  shows "rq_seq rq = Suc (s_transitionSeq s)"
    "rq_transitionId rq = goalTransitionId (s_goalRunId s) (Suc (s_transitionSeq s))"
    "s_cancellation s = None \<or> rq_to rq = Canceled" "rq_to rq = Canceled \<Longrightarrow> s_cancellation s \<noteq> None"
proof -
  obtain n where e: "evaluateTransition p rq s = Write n" using assms(1) by (auto simp: acceptedBy_def)
  obtain as where n: "n = buildNext p s rq as" "validState p n" "rq_seq rq = Suc (s_transitionSeq s)"
      "s_cancellation s = None \<or> rq_to rq = Canceled"
    using e by (rule evaluateTransition_Write)
  show "rq_seq rq = Suc (s_transitionSeq s)" "s_cancellation s = None \<or> rq_to rq = Canceled"
    by (rule n)+
  show "rq_transitionId rq = goalTransitionId (s_goalRunId s) (Suc (s_transitionSeq s))"
    using validState_fields(3) [OF n(2)] by (simp add: n(1,3))
  have "isCancellationConsistent n" using n(2) by (simp add: validState_iff isConsistent_def)
  then show "rq_to rq = Canceled \<Longrightarrow> s_cancellation s \<noteq> None"
    by (simp add: isCancellationConsistent_def n(1))
qed

lemma moved_on:
  assumes id: "rq_transitionId rq = goalTransitionId (s_goalRunId s) (rq_seq rq)"
    and seq: "rq_seq rq = Suc (s_transitionSeq s)" and v: "validState p u"
    and g: "s_goalRunId u = s_goalRunId s" and gt: "s_transitionSeq s < s_transitionSeq u"
  shows "evaluateTransition p rq u = Done (Duplicate u) \<or> evaluateTransition p rq u = Done (Stale u)"
proof (cases "tr_transitionId (s_currentTransition u) = rq_transitionId rq")
  case True
  then show ?thesis by (simp add: evaluateTransition_def)
next
  case False
  then have "s_transitionSeq u \<noteq> rq_seq rq" using validState_fields(3) [OF v] id g by auto
  with False gt seq show ?thesis by (simp add: evaluateTransition_def)
qed

text \<open>A request every record of the same move accepts is adopted by every later record.\<close>

lemma commit_adopted:
  assumes r: "ready p s w now" and h: "(store_write p)\<^sup>*\<^sup>* s u"
    and b: "\<And>t. ready p t w now \<Longrightarrow> steady s t \<Longrightarrow> s_cancellation t = s_cancellation s \<Longrightarrow>
      acceptedBy p (Some rq) t"
  shows "adopted p rq u"
proof -
  note rd = readyD [OF r]
  have a: "acceptedBy p (Some rq) s" by (rule b [OF r]) (simp_all add: steady_def frozen_def)
  note f = acceptedBy_fields [OF a rd(1)]
  have vu: "validState p u" by (rule store_writes_valid [OF h rd(1)])
  have l: "history_law s u" by (rule store.history [OF h])
  then have g: "s_goalRunId u = s_goalRunId s" "s_transitionSeq s \<le> s_transitionSeq u"
    by (simp_all add: history_law_def frozen_def)
  show ?thesis
  proof (cases "s_transitionSeq u = s_transitionSeq s")
    case False
    with moved_on [of rq s p u] f g vu show ?thesis by (auto simp: adopted_def)
  next
    case True
    note st = steady_writes [OF h True]
    have fresh: "tr_transitionId (s_currentTransition u) \<noteq> rq_transitionId rq" "\<not> isTerminalStatus (s_status u)"
      using validState_fields(3) [OF vu] f(2) True g(1) st rd(3) by (simp_all add: steady_def)
    show ?thesis
    proof (cases "length (s_auditLog u) < GOAL_AUDIT_LOG_MAXIMUM_ENTRIES")
      case False
      with fresh f(1) True show ?thesis by (simp add: adopted_def evaluateTransition_def)
    next
      case room: True
      show ?thesis
      proof (cases "s_cancellation u = s_cancellation s")
        case True
        have "acceptedBy p (Some rq) u" by (rule b [OF steady_ready [OF r st vu room] st True])
        then show ?thesis by (auto simp: acceptedBy_def adopted_def)
      next
        case False
        then have "s_cancellation s = None" using st by (auto simp: steady_def)
        with False f(4) fresh f(1) True room \<open>s_transitionSeq u = s_transitionSeq s\<close> show ?thesis
          by (auto simp: adopted_def evaluateTransition_def)
      qed
    qed
  qed
qed

subsection \<open>Segments against a changing record\<close>

text \<open>What a later load of the same goal may answer, short of a log that restarts have filled.\<close>

definition rereadable :: "platform \<Rightarrow> goal_state \<Rightarrow> goal_state \<Rightarrow> jnum \<Rightarrow> bool" where
  "rereadable p s t now \<longleftrightarrow>
     (store_write p)\<^sup>*\<^sup>* s t \<and> length (s_auditLog t) < GOAL_AUDIT_LOG_MAXIMUM_ENTRIES
     \<and> clockOk (toGoalWorkflowView t) now"

definition startedOk :: "goal_state \<Rightarrow> start_request \<Rightarrow> start_answer \<Rightarrow> bool" where
  "startedOk s rq answer \<longleftrightarrow>
     (case answer of
        Started sessionId \<Rightarrow> sessionId
          = attemptSessionId (s_goalRunId s) (policyKind (s_conversationPolicy s)) (sr_attemptIndex rq)
      | _ \<Rightarrow> True)"

text \<open>
  A segment that has last read \<open>s\<close>: it never throws, whatever its ports answer (within their
  contracts), and every commit it reaches is adopted by every record the goal can have by then.
\<close>

primrec sound :: "platform \<Rightarrow> 'a proc \<Rightarrow> goal_state \<Rightarrow> bool" where
  "sound p (Return x) s = True"
| "sound p Throw s = False"
| "sound p (Load g k) s =
     ((\<forall>now. sound p (k None now) s)
      \<and> (\<forall>t now. rereadable p s t now \<longrightarrow> sound p (k (Some (toGoalWorkflowView t)) now) t))"
| "sound p (Commit rq k) s =
     (rq_seq rq = Suc (s_transitionSeq s)
      \<and> (\<forall>u. (store_write p)\<^sup>*\<^sup>* s u \<longrightarrow> adopted p rq u) \<and> (\<forall>answer. sound p (k answer) s))"
| "sound p (StartAttempt rq opts k) s = (\<forall>answer. startedOk s rq answer \<longrightarrow> sound p (k answer) s)"
| "sound p (Validate rq deadline k) s =
     (sound p (k None) s \<and> (\<forall>res. resultOk (vq_attemptId rq) res \<longrightarrow> sound p (k (Some res)) s))"
| "sound p (AbortAttempt rq k) s = sound p k s"
| "sound p (AwaitAttempt name deadline k) s =
     (sound p (k None) s \<and> (\<forall>f. signalOk s f \<longrightarrow> sound p (k (Some f)) s))"
| "sound p (StageFinalizer rq k) s = sound p k s"

lemma commit_sound:
  assumes r: "ready p s w now"
    and b: "\<And>t. ready p t w now \<Longrightarrow> steady s t \<Longrightarrow> s_cancellation t = s_cancellation s \<Longrightarrow>
      acceptedBy p request t"
  shows "sound p (commit request) s"
proof -
  have a: "acceptedBy p request s" by (rule b [OF r]) (simp_all add: steady_def frozen_def)
  then obtain rq where "request = Some rq" by (auto simp: acceptedBy_def)
  with commit_adopted [OF r] b acceptedBy_fields(1) [OF a [unfolded this] readyD(1) [OF r]]
  show ?thesis by (simp add: commit_def)
qed

lemma finishForced_sound:
  assumes r: "ready p s w now" and d: "forcedOk s d"
  shows "sound p (finishForced bureauIdentifiers w now d) s"
proof -
  have "acceptedBy p (buildGoalForcedFinish w bureauIdentifiers now d) t"
    if "ready p t w now" "steady s t" "s_cancellation t = s_cancellation s" for t
    by (rule forced_accepted [OF that(1)]) (use d that in \<open>simp add: forcedOk_def steady_def frozen_def\<close>)
  then show ?thesis by (simp add: finishForced_def commit_sound [OF r])
qed

lemma reread_ready:
  assumes r: "ready p s w now" and t: "rereadable p s t later" and seq: "s_transitionSeq t = s_transitionSeq s"
  shows "ready p t (toGoalWorkflowView t) later" "steady s t"
proof -
  have h: "(store_write p)\<^sup>*\<^sup>* s t" using t by (simp add: rereadable_def)
  show st: "steady s t" by (rule steady_writes [OF h seq])
  have "ready p t w now"
    using steady_ready [OF r st store_writes_valid [OF h readyD(1) [OF r]]] t by (simp add: rereadable_def)
  with t show "ready p t (toGoalWorkflowView t) later" by (simp add: ready_def rereadable_def)
qed

lemma view_simps2 [simp]:
  "w_goalRunId (toGoalWorkflowView t) = s_goalRunId t" "w_status (toGoalWorkflowView t) = s_status t"
  "w_transitionSeq (toGoalWorkflowView t) = s_transitionSeq t"
  "w_bounds (toGoalWorkflowView t) = s_bounds t"
  "w_attempts (toGoalWorkflowView t) = map toView (s_attempts t)"
  "w_cancellation (toGoalWorkflowView t) = map_option cm_requestedAt (s_cancellation t)"
  by (simp_all add: toGoalWorkflowView_def)

lemma openAttempt_sound:
  assumes r: "ready p s (toGoalWorkflowView s) now" and nc: "s_cancellation s = None"
    and st: "s_status s = Pending \<or> s_status s = Retrying"
  shows "sound p (openAttempt bureauIdentifiers startTimeout (toGoalWorkflowView s) now) s"
proof (cases "jle (b_maximumAttempts (s_bounds s)) (jnat (length (s_attempts s)))")
  case True
  then show ?thesis
    using finishForced_sound [OF r, of "Exhaust AttemptLimitReached None"] nc
    by (simp add: openAttempt_def forcedOk_def)
next
  case False
  let ?open = "\<lambda>sid. commit (buildOpenAttempt (toGoalWorkflowView s) bureauIdentifiers now (length (s_attempts s)) sid)"
  have started: "sound p (?open sid) s"
    if "sid = attemptSessionId (s_goalRunId s) (policyKind (s_conversationPolicy s)) (length (s_attempts s))" for sid
  proof (rule commit_sound [OF r])
    fix t
    assume t: "ready p t (toGoalWorkflowView s) now" "steady s t" "s_cancellation t = s_cancellation s"
    then show "acceptedBy p (buildOpenAttempt (toGoalWorkflowView s) bureauIdentifiers now (length (s_attempts s)) sid) t"
      using open_accepted [OF t(1), of sid] st nc that by (simp add: steady_def frozen_def)
  qed
  have failed: "sound p (commit (buildStartFailure (toGoalWorkflowView t) bureauIdentifiers later
      (decideAttemptRunFailure detail :: json goal_decision))) t"
    if "rereadable p s t later" "s_cancellation t = None" "s_status t = s_status s"
      "s_transitionSeq t = s_transitionSeq s" for t later detail
  proof (rule commit_sound [OF reread_ready(1) [OF r that(1,4)]])
    fix u
    assume u: "ready p u (toGoalWorkflowView t) later" "steady t u" "s_cancellation u = s_cancellation t"
    then show "acceptedBy p (buildStartFailure (toGoalWorkflowView t) bureauIdentifiers later
        (decideAttemptRunFailure detail :: json goal_decision)) u"
      using start_failed_accepted [OF u(1)] st that by (simp add: steady_def decideAttemptRunFailure_def)
  qed
  have late: "sound p (finishForced bureauIdentifiers (toGoalWorkflowView t) later decideDurationElapsed) t"
    if "rereadable p s t later" "s_cancellation t = None" "s_transitionSeq t = s_transitionSeq s" for t later
    using finishForced_sound [OF reread_ready(1) [OF r that(1,3)]] that(2)
    by (simp add: forcedOk_def decideDurationElapsed_def)
  show ?thesis
    using False started failed late
    by (auto simp: openAttempt_def Let_def startedOk_def split: start_answer.split)
qed

lemma awaitAttempt_sound:
  assumes r: "ready p s (toGoalWorkflowView s) now" and nc: "s_cancellation s = None"
    and st: "s_status s = Running"
  shows "sound p (awaitAttempt bureauIdentifiers (toGoalWorkflowView s) now) s"
proof -
  obtain a where a: "lastOf (s_attempts s) = Some a" "a_status a = ARunning"
    using readyD(1) [OF r] st by (rule running_last)
  have cur: "currentAttemptOf (toGoalWorkflowView s) = Some (toView a)"
    by (simp add: currentAttemptOf_def lastOf_map a)
  have decided: "sound p (case decideRunFinish c (ts_finishReason f) False reported fb of
        Decision decision attemptStatus \<Rightarrow>
          commit (buildRunFinishDecision (toGoalWorkflowView t) bureauIdentifiers later (toView a) f
            (decision :: json goal_decision) attemptStatus)
      | GoalDecision.Validate \<Rightarrow>
          commit (buildEvaluationStarted (toGoalWorkflowView t) bureauIdentifiers later (toView a) f)) t"
    if f: "signalOk s f" and t: "rereadable p s t later" "s_cancellation t = None" "s_status t = Running"
      "s_transitionSeq t = s_transitionSeq s" for f t later c reported fb
  proof -
    note rt = reread_ready [OF r t(1,4)]
    have u: "acceptedBy p (buildEvaluationStarted (toGoalWorkflowView t) bureauIdentifiers later (toView a) f) u
        \<and> acceptedBy p (buildRunFinishDecision (toGoalWorkflowView t) bureauIdentifiers later (toView a) f
            (Fail AttemptRunFailed None (Some detail) :: json goal_decision) how) u"
      if "ready p u (toGoalWorkflowView t) later" "steady t u" "s_cancellation u = s_cancellation t" for u detail how
      using evaluation_accepted [OF that(1), of a f] run_failed_accepted [OF that(1), of a f None "Some detail" how]
        that t(2,3) a(1) f rt(2)
      by (simp add: steady_def signalOk_def)
    show ?thesis
    proof (cases "decideRunFinish c (ts_finishReason f) False reported fb :: json run_finish_decision")
      case Validate
      with commit_sound [OF rt(1)] u show ?thesis by simp
    next
      case (Decision d how)
      with decideRunFinish_not_aborted [OF Decision] commit_sound [OF rt(1)] u show ?thesis by auto
    qed
  qed
  show ?thesis using decided a by (auto simp: awaitAttempt_def cur)
qed

lemma validate_sound:
  assumes r: "ready p s (toGoalWorkflowView s) now" and nc: "s_cancellation s = None"
    and st: "s_status s = Evaluating"
  shows "sound p (validate bureauIdentifiers (toGoalWorkflowView s) now) s"
proof -
  obtain a where a: "lastOf (s_attempts s) = Some a" "a_status a = AEvaluating"
    using readyD(1) [OF r] st by (rule evaluating_last)
  have cur: "currentAttemptOf (toGoalWorkflowView s) = Some (toView a)"
    by (simp add: currentAttemptOf_def lastOf_map a)
  have late: "sound p (finishForced bureauIdentifiers (toGoalWorkflowView t) later decideDurationElapsed) t"
    if "rereadable p s t later" "s_cancellation t = None" "s_transitionSeq t = s_transitionSeq s" for t later
    using finishForced_sound [OF reread_ready(1) [OF r that(1,3)]] that(2)
    by (simp add: forcedOk_def decideDurationElapsed_def)
  have decided: "sound p (commit (buildValidationDecision (toGoalWorkflowView t) bureauIdentifiers later (toView a)
      res (decideOutcome (decisionContextFor (toGoalWorkflowView t) later) (vr_outcome res) fb False))) t"
    if res: "resultOk (a_attemptId a) res" and t: "rereadable p s t later" "s_cancellation t = None"
      "s_status t = Evaluating" "s_transitionSeq t = s_transitionSeq s" for res t later fb
  proof (rule commit_sound [OF reread_ready(1) [OF r t(1,4)]])
    fix u
    assume u: "ready p u (toGoalWorkflowView t) later" "steady t u" "s_cancellation u = s_cancellation t"
    have d: "decidedOk u (vr_outcome res) (decideOutcome (decisionContextFor (toGoalWorkflowView t) later)
        (vr_outcome res) fb False)"
      by (rule decideOutcome_ok [OF readyD(1,6) [OF u(1)]])
    show "acceptedBy p (buildValidationDecision (toGoalWorkflowView t) bureauIdentifiers later (toView a) res
        (decideOutcome (decisionContextFor (toGoalWorkflowView t) later) (vr_outcome res) fb False)) u"
      by (rule validation_accepted [OF u(1) _ _ _ res d])
        (use u t(2,3) a(1) reread_ready(2) [OF r t(1,4)] in \<open>simp_all add: steady_def\<close>)
  qed
  show ?thesis using decided late a by (auto simp: validate_def cur Let_def)
qed

text \<open>Every segment, from every record a controller acts on.\<close>

lemma segment_sound:
  assumes "validState p s" "hexDigests p" "\<not> isTerminalStatus (s_status s)" "live s"
    and "length (s_auditLog s) < GOAL_AUDIT_LOG_MAXIMUM_ENTRIES" "clockOk (toGoalWorkflowView s) now"
  shows "sound p (advance bureauIdentifiers startTimeout (toGoalWorkflowView s) now) s"
proof -
  have r: "ready p s (toGoalWorkflowView s) now" using assms by (simp add: ready_def)
  show ?thesis
  proof (cases "s_cancellation s")
    case None
    then show ?thesis
      using assms(3) finishForced_sound [OF r] awaitAttempt_sound [OF r None] validate_sound [OF r None]
        openAttempt_sound [OF r None]
      by (cases "s_status s") (simp_all add: advance_def forcedOk_def decideDurationElapsed_def)
  next
    case (Some m)
    then show ?thesis
      using finishForced_sound [OF r] by (simp add: advance_def forcedOk_def decideCancellation_def)
  qed
qed


end
