(* ===== verification/GoalCreate.thy ===== *)
theory GoalCreate
  imports GoalEvents GoalBounding
begin

section \<open>Creating a goal\<close>

text \<open>
  The construction half of \<open>packages/bureau/src/goal-state.ts\<close>: \<open>validateGoalRunId\<close>,
  \<open>describeCreateDefect\<close> and \<open>createGoalState\<close>, which runs every create-time check in order,
  copies the request through JSON and holds the copy to the record decoder before anything is
  written. The members of a request are untyped: callers the type system does not reach send
  them.
\<close>

subsection \<open>The goal id\<close>

definition WEFT_IDENTIFIER_LIMIT :: nat where
  "WEFT_IDENTIFIER_LIMIT = 128"

datatype run_id_error = EmptyId | ControlCharacter | MalformedId | TooLong

definition isControlUnit :: "16 word \<Rightarrow> bool" where
  "isControlUnit c \<longleftrightarrow> unat c \<le> 0x1F \<or> unat c = 0x7F"

definition validateGoalRunId :: "jstr \<Rightarrow> nat \<Rightarrow> run_id_error + unit" where
  "validateGoalRunId goalRunId maximumAttempts =
     (if length goalRunId = 0 then Inl EmptyId
      else if list_ex isControlUnit goalRunId then Inl ControlCharacter
      else if \<not> isWellFormed goalRunId then Inl MalformedId
      else
        (let final = maximumAttempts - 1;
             signals = [attemptSignalId goalRunId final, cancelSignalId goalRunId];
             workflows = [goalWorkflowId goalRunId, goalAttemptRunId goalRunId final]
         in if list_ex (\<lambda>i. utf8ByteLength i > WEFT_IDENTIFIER_LIMIT) signals
              \<or> list_ex (\<lambda>i. length i > WEFT_IDENTIFIER_LIMIT) workflows
            then Inl TooLong else Inr ()))"

subsection \<open>The request\<close>

record create_input =
  ci_goalRunId :: jstr
  ci_identity :: jsval
  ci_objective :: jsval
  ci_validator :: jsval
  ci_requireDeterministicValidation :: jsval
  ci_validatorTimeoutMs :: jsval
  ci_conversationPolicy :: jsval
  ci_retryPolicy :: jsval
  ci_bounds :: jsval
  ci_principal :: jsval
  ci_now :: jsval

datatype create_defect =
    IdentityDefect | ValidatorDefect | ObjectiveDefect | DeterminismDefect | TimeoutDefect
  | PrincipalDefect | TimeDefect | BudgetKeysDefect | RetryKeysDefect | PolicyKeysDefect

definition exactKeys :: "jsval \<Rightarrow> string list \<Rightarrow> bool" where
  "exactKeys v keys \<longleftrightarrow> v = JUndef \<or> isPlainRecord v \<and> hasExactKeys v keys"

definition policyKeys :: "jsval \<Rightarrow> string list" where
  "policyKeys policy =
     (if jget policy ''kind'' = JStr (lit ''fork-from-baseline'') then [''kind'', ''throughRun'']
      else if jget policy ''kind'' = JStr (lit ''fresh-from-artifact'') then [''kind'', ''artifact'']
      else [''kind''])"

definition describeCreateDefect :: "create_input \<Rightarrow> create_defect option" where
  "describeCreateDefect input =
     (let named = (\<lambda>v. isPlainRecord v \<and> hasExactKeys v [''name'', ''version'']
            \<and> isNonEmptyString (jget v ''name'') \<and> isNonEmptyString (jget v ''version''));
          objective = ci_objective input; timeout = ci_validatorTimeoutMs input;
          policy = ci_conversationPolicy input
      in if \<not> named (ci_identity input) then Some IdentityDefect
         else if \<not> named (ci_validator input) then Some ValidatorDefect
         else if \<not> isPlainRecord objective
           \<or> \<not> hasExactKeys objective [''agentName'', ''prompt'', ''instructions'']
           \<or> \<not> isNonEmptyString (jget objective ''agentName'') \<or> \<not> isString (jget objective ''prompt'')
           \<or> \<not> isOptionalString (jget objective ''instructions'') then Some ObjectiveDefect
         else if ci_requireDeterministicValidation input \<noteq> JUndef
           \<and> \<not> isBoolean (ci_requireDeterministicValidation input) then Some DeterminismDefect
         else if timeout \<noteq> JUndef
           \<and> \<not> (isNonNegativeNumber timeout \<and> \<not> jle (asNumber timeout) (Fin 0)) then Some TimeoutDefect
         else if \<not> isOptionalString (ci_principal input) then Some PrincipalDefect
         else if \<not> isNonEmptyString (ci_now input) then Some TimeDefect
         else if \<not> exactKeys (ci_bounds input) BOUNDS_KEYS then Some BudgetKeysDefect
         else if \<not> exactKeys (ci_retryPolicy input) [''retryOn''] then Some RetryKeysDefect
         else if isPlainRecord policy \<and> \<not> hasExactKeys policy (policyKeys policy) then Some PolicyKeysDefect
         else None)"

subsection \<open>The copy through JSON\<close>

text \<open>
  \<open>JSON.parse(JSON.stringify(value))\<close> of plain data: a member that is \<open>undefined\<close> or a function
  is dropped (\<open>null\<close> in an array), and a number that is not finite becomes \<open>null\<close>.
\<close>

primrec jsonCopy :: "jsval \<Rightarrow> jsval" where
  "jsonCopy JUndef = JUndef"
| "jsonCopy JNull = JNull"
| "jsonCopy (JBool b) = JBool b"
| "jsonCopy (JNum n) = (if jisFinite n then JNum n else JNull)"
| "jsonCopy (JStr s) = JStr s"
| "jsonCopy (JArr vs) = JArr (map (\<lambda>v. if v = JUndef then JNull else v) (map jsonCopy vs))"
| "jsonCopy (JObj fs) = JObj (filter (\<lambda>(k, v). v \<noteq> JUndef) (map (map_prod id jsonCopy) fs))"
| "jsonCopy (JFun _) = JUndef"

definition createMembers :: "create_input \<Rightarrow> (string \<times> jsval) list" where
  "createMembers input =
     [(''schemaVersion'', enc_nat GOAL_STATE_SCHEMA_VERSION),
      (''goalRunId'', JStr (ci_goalRunId input)),
      (''workflowId'', JStr (goalWorkflowId (ci_goalRunId input))),
      (''revision'', enc_nat 1), (''transitionSeq'', enc_nat 0),
      (''identity'', ci_identity input), (''objective'', ci_objective input),
      (''validator'', ci_validator input),
      (''requireDeterministicValidation'',
       if ci_requireDeterministicValidation input = JUndef
         \<or> ci_requireDeterministicValidation input = JNull then JBool False
       else ci_requireDeterministicValidation input),
      (''validatorTimeoutMs'', ci_validatorTimeoutMs input),
      (''conversationPolicy'', ci_conversationPolicy input),
      (''retryPolicy'', ci_retryPolicy input), (''bounds'', ci_bounds input),
      (''principal'', ci_principal input), (''status'', JStr (lit ''pending'')),
      (''currentTransition'',
       obj [(''seq'', Some (enc_nat 0)),
            (''transitionId'', Some (JStr (goalTransitionId (ci_goalRunId input) 0))),
            (''from'', Some (JStr (lit ''pending''))), (''to'', Some (JStr (lit ''pending''))),
            (''at'', Some (ci_now input)), (''cause'', Some (JStr (lit ''created'')))]),
      (''attempts'', JArr []),
      (''usage'',
       obj [(''attempts'', Some (enc_nat 0)), (''steps'', Some (enc_nat 0)),
            (''tokens'', Some (enc_nat 0)), (''durationMs'', Some (enc_nat 0))]),
      (''controllerRestarts'', enc_nat 0), (''auditLog'', JArr []),
      (''createdAt'', ci_now input), (''updatedAt'', ci_now input)]"

text \<open>
  What a creation throws; \<open>TypeFault\<close> is the \<open>TypeError\<close> of reading \<open>instructions\<close> of a missing
  objective, \<open>InvalidGoalState None\<close> the decoder's refusal without a name.
\<close>

datatype create_error =
    ConfigurationFault configuration_code
  | RunIdFault run_id_error
  | TypeFault
  | InvalidGoalState "create_defect option"
  | ObjectiveTooLarge nat

definition createGoalState :: "platform \<Rightarrow> create_input \<Rightarrow> create_error + goal_state" where
  "createGoalState p input =
     (let bounds = ci_bounds input; objective = ci_objective input;
          maximum = jget bounds ''maximumAttempts'';
          objectiveBytes = objectiveByteLength (asString (jget objective ''prompt''))
            (asOption asString (jget objective ''instructions''));
          state = jsonCopy (JObj (map (\<lambda>(k, v). (lit k, v)) (createMembers input)))
      in case validateBudget bounds of
          Inl e \<Rightarrow> Inl (ConfigurationFault e)
        | Inr _ \<Rightarrow>
            if \<not> jle (asNumber maximum) (jnat GOAL_MAXIMUM_ATTEMPTS)
              then Inl (ConfigurationFault InvalidMaximumAttempts)
            else (case validateGoalRunId (ci_goalRunId input) (asNat maximum) of
                Inl e \<Rightarrow> Inl (RunIdFault e)
              | Inr _ \<Rightarrow> (case validateRetryPolicy (ci_retryPolicy input) of
                  Inl e \<Rightarrow> Inl (ConfigurationFault e)
                | Inr _ \<Rightarrow>
                    if objective = JUndef \<or> objective = JNull then Inl TypeFault
                    else (case validateConversationPolicy (ci_conversationPolicy input)
                            (jget objective ''instructions'') of
                        Inl e \<Rightarrow> Inl (ConfigurationFault e)
                      | Inr _ \<Rightarrow> (case describeCreateDefect input of
                          Some defect \<Rightarrow> Inl (InvalidGoalState (Some defect))
                        | None \<Rightarrow>
                            if objectiveBytes > GOAL_OBJECTIVE_MAXIMUM_BYTES
                              then Inl (ObjectiveTooLarge objectiveBytes)
                            else if \<not> isGoalState p state then Inl (InvalidGoalState None)
                            else Inr (as_state state))))))"

subsection \<open>What the copy keeps\<close>

lemma jsonCopy_plain: "jsonCopy v = JUndef \<or> plainJson (jsonCopy v)"
proof (induction v)
  case (JArr vs)
  then show ?case by (auto simp: list_all_iff)
next
  case (JObj fs)
  have "plainJson (jsonCopy b)" if "(a, b) \<in> set fs" "jsonCopy b \<noteq> JUndef" for a b
    using JObj.IH [OF that(1), of b] that(2) by simp
  then show ?case by (auto simp: list_all_iff)
qed simp_all

lemma map_of_copied:
  assumes "distinct (map fst fs)"
  shows "map_of (filter (\<lambda>(k, v). v \<noteq> JUndef) (map (map_prod id jsonCopy) fs)) k =
    (case map_of fs k of None \<Rightarrow> None | Some v \<Rightarrow> if jsonCopy v = JUndef then None else Some (jsonCopy v))"
  using assms
proof (induction fs)
  case (Cons f fs)
  have "fst f \<notin> set (map fst fs)" using Cons.prems by simp
  then have "map_of fs (fst f) = None" by (simp add: map_of_eq_None_iff)
  then show ?case using Cons by (cases f) (auto split: option.split)
qed simp

lemma jget_copied:
  "distinct (map fst fs) \<Longrightarrow> jget (jsonCopy (JObj fs)) k = jsonCopy (jget (JObj fs) k)"
  by (simp add: jget_def map_of_copied split: option.split)

subsection \<open>Every derived identifier fits\<close>

lemma length_decimal_mono: "m \<le> n \<Longrightarrow> length (decimal m) \<le> length (decimal n)"
proof (induction n arbitrary: m rule: decimal.induct)
  case (1 n)
  show ?case
  proof (cases "n < 10")
    case True
    with 1 show ?thesis by (simp add: decimal_small)
  next
    case n: False
    show ?thesis
    proof (cases "m < 10")
      case True
      with n show ?thesis by (simp add: decimal_small decimal_step)
    next
      case False
      have "m div 10 \<le> n div 10" using 1(2) by (rule div_le_mono)
      with 1(1) [OF n] n False show ?thesis by (simp add: decimal_step)
    qed
  qed
qed

lemma attemptSignalId_size:
  "utf8ByteLength (attemptSignalId g i) = utf8ByteLength g + 18 + length (decimal i)"
proof -
  have "utf8ByteLength (attemptSignalId g i)
      = length (lit ''attempt-terminal:'') + (utf8ByteLength g + length (lit '':'' @ decimal i))"
    unfolding attemptSignalId_def by (subst utf8ByteLength_ascii_append) (simp_all add: utf8ByteLength_append_ascii)
  then show ?thesis by simp
qed

text \<open>
  An accepted goal id can never park its goal on a refused signal: with the attempt limit
  it was accepted for, the terminal signal and the run id of every attempt the goal may make,
  the cancel signal and the workflow id all fit Weft's limit, the text is well-formed and holds
  no control character.
\<close>

theorem validateGoalRunId_fits:
  assumes "validateGoalRunId goalRunId maximumAttempts = Inr ()" "attemptIndex < maximumAttempts"
  shows "utf8ByteLength (attemptSignalId goalRunId attemptIndex) \<le> WEFT_IDENTIFIER_LIMIT
    \<and> utf8ByteLength (cancelSignalId goalRunId) \<le> WEFT_IDENTIFIER_LIMIT
    \<and> length (goalWorkflowId goalRunId) \<le> WEFT_IDENTIFIER_LIMIT
    \<and> length (goalAttemptRunId goalRunId attemptIndex) \<le> WEFT_IDENTIFIER_LIMIT
    \<and> goalRunId \<noteq> [] \<and> isWellFormed goalRunId \<and> list_all (\<lambda>c. \<not> isControlUnit c) goalRunId"
proof -
  have "attemptIndex \<le> maximumAttempts - 1" using assms(2) by simp
  then have d: "length (decimal attemptIndex) \<le> length (decimal (maximumAttempts - 1))"
    by (rule length_decimal_mono)
  show ?thesis
    using assms(1) d
    by (simp add: validateGoalRunId_def Let_def attemptSignalId_size goalAttemptRunId_def list_ex_iff
        list_all_iff split: if_split_asm)
qed

subsection \<open>The record a creation returns\<close>

lemma jget_members:
  fixes input
  defines "state \<equiv> jsonCopy (JObj (map (\<lambda>(k, v). (lit k, v)) (createMembers input)))"
  shows "jget state ''goalRunId'' = JStr (ci_goalRunId input)"
    "jget state ''revision'' = enc_nat 1" "jget state ''transitionSeq'' = enc_nat 0"
    "jget state ''status'' = JStr (lit ''pending'')" "jget state ''attempts'' = JArr []"
    "jget state ''cancellation'' = JUndef" "jget state ''terminalReason'' = JUndef"
    "jget state ''auditLog'' = JArr []" "jget state ''controllerRestarts'' = enc_nat 0"
    "jget state ''bounds'' = jsonCopy (ci_bounds input)"
proof -
  have d: "distinct (map fst (map (\<lambda>(k, v). (lit k, v)) (createMembers input)))"
    by (simp add: createMembers_def)
  show "jget state ''goalRunId'' = JStr (ci_goalRunId input)"
    "jget state ''revision'' = enc_nat 1" "jget state ''transitionSeq'' = enc_nat 0"
    "jget state ''status'' = JStr (lit ''pending'')" "jget state ''attempts'' = JArr []"
    "jget state ''cancellation'' = JUndef" "jget state ''terminalReason'' = JUndef"
    "jget state ''auditLog'' = JArr []" "jget state ''controllerRestarts'' = enc_nat 0"
    "jget state ''bounds'' = jsonCopy (ci_bounds input)"
    unfolding state_def jget_copied [OF d]
    by (simp_all add: createMembers_def jget_def enc_nat_def)
qed

lemma createGoalState_Inr:
  assumes "createGoalState p input = Inr s"
  obtains n where "isGoalState p (jsonCopy (JObj (map (\<lambda>(k, v). (lit k, v)) (createMembers input))))"
    "s = as_state (jsonCopy (JObj (map (\<lambda>(k, v). (lit k, v)) (createMembers input))))"
    "jget (ci_bounds input) ''maximumAttempts'' = JNum (jnat n)"
    "validateGoalRunId (ci_goalRunId input) n = Inr ()"
proof -
  have b: "validateBudget (ci_bounds input) = Inr ()"
    using assms by (auto simp: createGoalState_def Let_def split: sum.split_asm if_split_asm)
  then obtain n where n: "jget (ci_bounds input) ''maximumAttempts'' = JNum (jnat n)"
    by (auto simp: validateBudget_iff)
  show thesis
    by (rule that [OF _ _ n])
      (use assms b n in \<open>auto simp: createGoalState_def Let_def jnat_def split: sum.split_asm if_split_asm
        option.split_asm\<close>)
qed

lemma created_fresh:
  assumes "createGoalState p input = Inr s" "\<not> artifactOk p JUndef"
  shows "validState p s \<and> s_goalRunId s = ci_goalRunId input \<and> s_revision s = 1
    \<and> s_transitionSeq s = 0 \<and> s_status s = Pending \<and> s_attempts s = [] \<and> s_cancellation s = None
    \<and> s_controllerRestarts s = 0 \<and> s_auditLog s = [] \<and> goalWorkflowId (s_goalRunId s) = s_workflowId s"
proof -
  let ?v = "jsonCopy (JObj (map (\<lambda>(k, v). (lit k, v)) (createMembers input)))"
  have g: "isGoalState p ?v" and s: "s = as_state ?v"
    using createGoalState_Inr [OF assms(1)] by metis+
  have "plainJson ?v"
    using jsonCopy_plain [of "JObj (map (\<lambda>(k, v). (lit k, v)) (createMembers input))"]
    by (simp del: plainJson.simps)
  then have v: "validState p s" unfolding s by (rule isGoalState_reads [OF g _ assms(2)])
  have "entryOf statusText GOAL_STATUSES (JStr (lit ''pending'')) = Pending"
    using status.dec_enc [of Pending] by (simp add: entryText_def)
  then have "s_goalRunId s = ci_goalRunId input \<and> s_revision s = 1 \<and> s_transitionSeq s = 0
    \<and> s_status s = Pending \<and> s_attempts s = [] \<and> s_cancellation s = None
    \<and> s_controllerRestarts s = 0 \<and> s_auditLog s = []"
    unfolding s
    by (simp add: as_state_def jget_members enc_nat_def jnat_def del: jsonCopy.simps(7) list.map_comp)
  moreover have "goalWorkflowId (s_goalRunId s) = s_workflowId s"
    using v by (simp add: validState_iff isConsistent_def)
  ultimately show ?thesis using v by blast
qed

text \<open>
  What \<open>createGoalState\<close> returns is a valid record, at revision 1 and transition 0, pending,
  with no attempt, no cancellation, no restart and an empty log, for the id that was asked for;
  the store's \<open>create\<close> accepts it as fresh and can key it.
\<close>

theorem createGoalState_fresh:
  assumes "createGoalState p input = Inr s" "\<not> artifactOk p JUndef"
  shows "validState p s \<and> s_goalRunId s = ci_goalRunId input \<and> s_revision s = 1
    \<and> s_transitionSeq s = 0 \<and> s_status s = Pending \<and> s_attempts s = [] \<and> s_cancellation s = None
    \<and> s_controllerRestarts s = 0 \<and> s_auditLog s = [] \<and> goalWorkflowId (s_goalRunId s) = s_workflowId s"
  by (rule created_fresh [OF assms])

subsection \<open>Every fresh record can be created\<close>

lemma jsonCopy_obj:
  "(\<And>k x. (k, Some x) \<in> set fs \<Longrightarrow> jsonCopy x = x \<and> x \<noteq> JUndef) \<Longrightarrow> jsonCopy (obj fs) = obj fs"
proof (induction fs)
  case Nil
  then show ?case by (simp add: obj_def List.map_filter_def)
next
  case (Cons f fs)
  have "jsonCopy (obj fs) = obj fs" by (rule Cons.IH) (use Cons.prems in auto)
  moreover have "snd f = Some x \<Longrightarrow> jsonCopy x = x \<and> x \<noteq> JUndef" for x
    using Cons.prems [of "fst f" x] by (cases f) auto
  ultimately show ?case by (cases f; cases "snd f") (simp_all add: obj_def obj_fields)
qed

lemma jsonCopy_members:
  "jsonCopy (JObj (map (\<lambda>(k, v). (lit k, v)) ms)) =
     obj (map (\<lambda>(k, v). (k, if jsonCopy v = JUndef then None else Some (jsonCopy v))) ms)"
  by (induction ms) (auto simp: obj_def List.map_filter_def)

text \<open>The request a fresh record answers, and what a record must be to be fresh.\<close>

definition requestFor :: "goal_state \<Rightarrow> create_input" where
  "requestFor s =
     \<lparr>ci_goalRunId = s_goalRunId s, ci_identity = enc_identity (s_identity s),
      ci_objective = enc_objective (s_objective s), ci_validator = enc_identity (s_validator s),
      ci_requireDeterministicValidation = JBool (s_requireDeterministicValidation s),
      ci_validatorTimeoutMs = optional JNum (s_validatorTimeoutMs s),
      ci_conversationPolicy = enc_policy (s_conversationPolicy s),
      ci_retryPolicy = optional enc_retryPolicy (s_retryPolicy s),
      ci_bounds = enc_budget (s_bounds s), ci_principal = optional JStr (s_principal s),
      ci_now = JStr (s_createdAt s)\<rparr>"

definition freshRecord :: "goal_state \<Rightarrow> bool" where
  "freshRecord s \<longleftrightarrow>
     s_revision s = 1 \<and> s_transitionSeq s = 0 \<and> s_status s = Pending \<and> s_terminalReason s = None
     \<and> s_failureDetail s = None \<and> s_attempts s = [] \<and> s_active s = None \<and> s_cancellation s = None
     \<and> s_controllerRestarts s = 0 \<and> s_auditLog s = [] \<and> s_closedAt s = None \<and> s_cleanedUpAt s = None
     \<and> s_updatedAt s = s_createdAt s
     \<and> s_usage s = \<lparr>u_attempts = 0, u_steps = Fin 0, u_tokens = Fin 0, u_costUsd = None, u_durationMs = Fin 0\<rparr>
     \<and> s_currentTransition s = \<lparr>tr_seq = 0, tr_transitionId = goalTransitionId (s_goalRunId s) 0,
         tr_from = Pending, tr_to = Pending, tr_at = s_createdAt s, tr_cause = lit ''created''\<rparr>"

fun artifactCopied :: "goal_conversation_policy \<Rightarrow> bool" where
  "artifactCopied (FreshFromArtifact artifact) \<longleftrightarrow> jsonCopy (ofJson artifact) = ofJson artifact"
| "artifactCopied _ \<longleftrightarrow> True"

lemma jsonCopy_typed:
  "jsonCopy (enc_identity i) = enc_identity i" "jsonCopy (enc_objective ob) = enc_objective ob"
  "jsonCopy (enc_retryPolicy rs) = enc_retryPolicy rs"
  "ok_budget b \<Longrightarrow> jsonCopy (enc_budget b) = enc_budget b"
  "artifactCopied c \<Longrightarrow> ok_policy p ins c \<Longrightarrow> jsonCopy (enc_policy c) = enc_policy c"
proof -
  show "jsonCopy (enc_identity i) = enc_identity i" "jsonCopy (enc_objective ob) = enc_objective ob"
    unfolding enc_identity_def enc_objective_def
    by (rule jsonCopy_obj; auto; cases "ob_instructions ob"; simp)+
  show "jsonCopy (enc_retryPolicy rs) = enc_retryPolicy rs"
    unfolding enc_retryPolicy_def by (rule jsonCopy_obj) (auto simp: entryText_def)
  show "jsonCopy (enc_budget b) = enc_budget b" if "ok_budget b"
  proof -
    have "jisFinite (b_maximumAttempts b)"
      using that by (cases "b_maximumAttempts b") (simp_all add: ok_budget_def)
    then show ?thesis
      unfolding enc_budget_def
      by (intro jsonCopy_obj) (use that in \<open>auto simp: ok_budget_def positive_def dest!: sym [of "Some _"]\<close>)
  qed
  show "jsonCopy (enc_policy c) = enc_policy c" if "artifactCopied c" "ok_policy p ins c"
  proof (cases c)
    case (ForkFromBaseline n)
    with that show ?thesis by (cases n) (auto intro!: jsonCopy_obj)
  qed (use that in \<open>auto intro!: jsonCopy_obj\<close>)
qed

lemma requested_state:
  assumes f: "freshRecord s" and v: "validState p s" and a: "artifactCopied (s_conversationPolicy s)"
  shows "jsonCopy (JObj (map (\<lambda>(k, v). (lit k, v)) (createMembers (requestFor s)))) = enc_state s"
proof -
  note f = f [unfolded freshRecord_def]
  have ok: "ok_state p s" and w: "s_workflowId s = goalWorkflowId (s_goalRunId s)"
    using v by (simp_all add: validState_iff isConsistent_def)
  have ty: "jsonCopy (enc_budget (s_bounds s)) = enc_budget (s_bounds s)"
    "jsonCopy (enc_policy (s_conversationPolicy s)) = enc_policy (s_conversationPolicy s)"
    using ok a jsonCopy_typed(4,5) by (auto simp: ok_state_def)
  have t: "pred_option positive (s_validatorTimeoutMs s)" using ok by (simp add: ok_state_def)
  then show ?thesis
    unfolding jsonCopy_members enc_state_def
    by (cases "s_validatorTimeoutMs s"; cases "s_retryPolicy s"; cases "s_principal s")
      (simp_all add: createMembers_def requestFor_def state_members_def ty jsonCopy_typed f w
        enc_nat_def entryText_def obj_def List.map_filter_def positive_def enc_transition_def enc_usage_def
        jnat_def)
qed

lemma isIso_nonempty: "\<not> isIsoTimestamp []"
  by code_simp

lemma no_defect:
  assumes "isValidatorIdentity (ci_identity input)" "isValidatorIdentity (ci_validator input)"
    and "isObjective (ci_objective input)"
    and "isBoolean (ci_requireDeterministicValidation input)"
    and "ci_validatorTimeoutMs input = JUndef \<or> isValidatorTimeout (ci_validatorTimeoutMs input)"
    and "isOptionalString (ci_principal input)" "isNonEmptyString (ci_now input)"
    and "exactKeys (ci_bounds input) BOUNDS_KEYS" "exactKeys (ci_retryPolicy input) [''retryOn'']"
    and "hasExactKeys (ci_conversationPolicy input) (policyKeys (ci_conversationPolicy input))"
  shows "describeCreateDefect input = None"
  using assms
  by (auto simp: describeCreateDefect_def isValidatorIdentity_def isObjective_def isValidatorTimeout_def)

lemma create_complete:
  assumes "freshRecord s" "validState p s" "artifactCopied (s_conversationPolicy s)"
    and "validateGoalRunId (s_goalRunId s) (asNat (JNum (b_maximumAttempts (s_bounds s)))) = Inr ()"
  shows "createGoalState p (requestFor s) = Inr s"
proof -
  have ok: "ok_state p s" using assms(2) by (simp add: validState_iff)
  have i: "jget (enc_objective (s_objective s)) ''instructions'' = optional JStr (ob_instructions (s_objective s))"
    by (simp add: enc_objective_def json_simps)
  have m: "jget (enc_budget (s_bounds s)) ''maximumAttempts'' = JNum (b_maximumAttempts (s_bounds s))"
    by (simp add: enc_budget_def json_simps)
  have b: "isBounds (enc_budget (s_bounds s))" and rp: "pred_option ok_retryPolicy (s_retryPolicy s)"
    and cp: "isConversationPolicy p (enc_policy (s_conversationPolicy s))
      (optional JStr (ob_instructions (s_objective s)))"
    using ok by (simp_all add: ok_state_def)
  have r: "validateRetryPolicy (optional enc_retryPolicy (s_retryPolicy s)) = Inr ()"
    using rp retryPolicy.check_enc
    by (cases "s_retryPolicy s") (auto simp: validateRetryPolicy_def isRetryPolicy_def passes_iff)
  have c: "validateConversationPolicy (enc_policy (s_conversationPolicy s))
      (optional JStr (ob_instructions (s_objective s))) = Inr ()"
    "hasExactKeys (enc_policy (s_conversationPolicy s)) (policyKeys (enc_policy (s_conversationPolicy s)))"
    using cp by (cases "s_conversationPolicy s";
        simp add: isConversationPolicy_def passes_iff validateConversationPolicy_def policyKeys_def json_simps)+
  have k: "exactKeys (enc_budget (s_bounds s)) BOUNDS_KEYS"
    "exactKeys (optional enc_retryPolicy (s_retryPolicy s)) [''retryOn'']"
    "isOptionalString (optional JStr (s_principal s))"
    using b by (cases "s_retryPolicy s"; cases "s_principal s"; simp add: exactKeys_def isBounds_def
        isOptionalString_def enc_retryPolicy_def json_simps split: if_split_asm)+
  have "isIsoTimestamp (s_createdAt s)" using ok by (simp add: ok_state_def)
  then have now: "s_createdAt s \<noteq> []"
    using isIso_nonempty by auto
  have d: "describeCreateDefect (requestFor s) = None"
  proof (rule no_defect)
    show "ci_validatorTimeoutMs (requestFor s) = JUndef
        \<or> isValidatorTimeout (ci_validatorTimeoutMs (requestFor s))"
      using ok by (cases "s_validatorTimeoutMs s") (simp_all add: requestFor_def ok_state_def)
  qed (use ok k c(2) now in \<open>simp_all add: requestFor_def ok_state_def isNonEmptyString_def\<close>)
  have vb: "validateBudget (enc_budget (s_bounds s)) = Inr ()"
    "jle (asNumber (jget (enc_budget (s_bounds s)) ''maximumAttempts'')) (jnat GOAL_MAXIMUM_ATTEMPTS)"
    using b by (simp_all add: isBounds_def passes_iff split: if_split_asm)
  have ob: "objectiveByteLength (asString (jget (enc_objective (s_objective s)) ''prompt''))
      (asOption asString (jget (enc_objective (s_objective s)) ''instructions'')) \<le> GOAL_OBJECTIVE_MAXIMUM_BYTES"
    "enc_objective (s_objective s) \<noteq> JUndef" "enc_objective (s_objective s) \<noteq> JNull"
    using ok objective.check_enc [of "s_objective s"]
    by (auto simp: ok_state_def isObjective_def enc_objective_def)
  have st: "isGoalState p (enc_state s)" using assms(2) by (simp add: validState_def)
  have q: "ci_bounds (requestFor s) = enc_budget (s_bounds s)" "ci_goalRunId (requestFor s) = s_goalRunId s"
    "ci_objective (requestFor s) = enc_objective (s_objective s)"
    "ci_retryPolicy (requestFor s) = optional enc_retryPolicy (s_retryPolicy s)"
    "ci_conversationPolicy (requestFor s) = enc_policy (s_conversationPolicy s)"
    by (simp_all add: requestFor_def)
  show ?thesis
    unfolding createGoalState_def Let_def requested_state [OF assms(1,2,3)] q d r vb(1) m assms(4) i c(1)
    using vb(2) ob st assms(4) by (simp add: m i c(1))
qed


end
