(* ===== verification/GoalProjection.thy ===== *)
theory GoalProjection
  imports GoalDecision GoalShape
begin

section \<open>Normalizing and projecting what a validator returns\<close>

text \<open>
  The second half of \<open>packages/operative/src/goal-decision.ts\<close>: a validator's return value is an
  arbitrary object graph. It is normalized to a \<open>ValidatorOutcome\<close> (a malformed one is an
  infrastructure failure), and projected to JSON before anything durable keeps it. The graph is
  a heap of objects, so shared and cyclic values are what they are; a getter or \<open>toJSON\<close> that
  throws is a read or call that answers \<open>None\<close>. Getters and \<open>toJSON\<close> do not change the heap.
\<close>

subsection \<open>The object graph\<close>

text \<open>A function is known by what calling it on an object answers.\<close>

datatype hval =
    HUndef
  | HNull
  | HBool bool
  | HNum jnum
  | HStr jstr
  | HBigInt int
  | HSymbol
  | HFunction nat
  | HRef nat

datatype property = Value hval | ThrowingGetter

datatype object_class =
    PlainObject
  | DateObject jnum
  | ErrorObject
  | ArrayObject "hval list"
  | SetObject "hval list"
  | MapObject "(hval \<times> hval) list"

text \<open>The own enumerable properties, and the class behind \<open>instanceof\<close> and \<open>Array.isArray\<close>.\<close>

record js_object =
  ob_class :: object_class
  ob_props :: "(jstr \<times> property) list"

record js_heap =
  hp_object :: "nat \<Rightarrow> js_object"
  hp_call :: "nat \<Rightarrow> nat \<Rightarrow> hval option"

text \<open>
  Reading a property: an own one, or what the prototype of an \<open>Error\<close> supplies. \<open>None\<close> throws.
\<close>

definition readProperty :: "js_heap \<Rightarrow> nat \<Rightarrow> string \<Rightarrow> hval option" where
  "readProperty heap r key =
     (case map_of (ob_props (hp_object heap r)) (lit key) of
        Some (Value v) \<Rightarrow> Some v
      | Some ThrowingGetter \<Rightarrow> None
      | None \<Rightarrow>
          Some (if ob_class (hp_object heap r) = ErrorObject \<and> key = ''name'' then HStr (lit ''Error'')
                else if ob_class (hp_object heap r) = ErrorObject \<and> key = ''message'' then HStr []
                else HUndef))"

subsection \<open>JSON-safe projection\<close>

text \<open>
  What a projection builds. An error's \<open>name\<close> and \<open>message\<close> are copied as they are found, so a
  leaf can be a raw value.
\<close>

datatype projected =
    PNull
  | PBool bool
  | PNum jnum
  | PStr jstr
  | PArr "projected list"
  | PObj "(jstr \<times> projected) list"
  | PRaw hval

definition MAXIMUM_PROJECTION_DEPTH :: nat where
  "MAXIMUM_PROJECTION_DEPTH = 32"

definition CIRCULAR :: jstr where
  "CIRCULAR = lit ''[Circular]''"

definition TRUNCATED :: jstr where
  "TRUNCATED = lit ''[Truncated]''"

definition UNSERIALIZABLE :: jstr where
  "UNSERIALIZABLE = lit ''[Unserializable]''"

fun isOmitted :: "hval \<Rightarrow> bool" where
  "isOmitted HUndef = True"
| "isOmitted (HFunction _) = True"
| "isOmitted HSymbol = True"
| "isOmitted _ = False"

definition bigintText :: "int \<Rightarrow> jstr" where
  "bigintText n = (if n < 0 then lit ''-'' else []) @ decimal (nat \<bar>n\<bar>)"

fun rawLeaf :: "hval \<Rightarrow> projected" where
  "rawLeaf (HStr s) = PStr s"
| "rawLeaf v = PRaw v"

fun projectPrimitive :: "hval \<Rightarrow> projected" where
  "projectPrimitive HNull = PNull"
| "projectPrimitive (HStr s) = PStr s"
| "projectPrimitive (HBool b) = PBool b"
| "projectPrimitive (HNum n) = (if jisFinite n then PNum n else PNull)"
| "projectPrimitive (HBigInt n) = PStr (bigintText n)"
| "projectPrimitive _ = PNull"

text \<open>\<open>Date.prototype.toISOString\<close>, or \<open>null\<close> for an invalid date.\<close>

definition projectDate :: "jnum \<Rightarrow> projected" where
  "projectDate t = (case toIso t of None \<Rightarrow> PNull | Some s \<Rightarrow> PStr s)"

function (sequential) projectNode ::
    "js_heap \<Rightarrow> hval \<Rightarrow> nat list \<Rightarrow> nat \<Rightarrow> projected option" where
  "projectNode heap (HRef r) ancestors depth =
     (if r \<in> set ancestors then Some (PStr CIRCULAR)
      else if depth \<ge> MAXIMUM_PROJECTION_DEPTH then Some (PStr TRUNCATED)
      else case ob_class (hp_object heap r) of
          DateObject t \<Rightarrow> Some (projectDate t)
        | ErrorObject \<Rightarrow>
            (case (readProperty heap r ''name'', readProperty heap r ''message'',
                readProperty heap r ''cause'') of
               (Some name, Some message, Some cause) \<Rightarrow>
                 (if cause = HUndef
                  then Some (PObj [(lit ''name'', rawLeaf name), (lit ''message'', rawLeaf message)])
                  else map_option
                    (\<lambda>c. PObj [(lit ''name'', rawLeaf name), (lit ''message'', rawLeaf message),
                               (lit ''cause'', c)])
                    (projectNode heap cause (r # ancestors) (depth + 1)))
             | _ \<Rightarrow> None)
        | ArrayObject vs \<Rightarrow>
            map_option PArr (sequence (map (\<lambda>v. projectNode heap v (r # ancestors) (depth + 1)) vs))
        | SetObject vs \<Rightarrow>
            map_option PArr (sequence (map (\<lambda>v. projectNode heap v (r # ancestors) (depth + 1)) vs))
        | MapObject es \<Rightarrow>
            map_option PArr (sequence (map
              (\<lambda>(k, v). map_option PArr (sequence
                 [projectNode heap k (r # ancestors) (depth + 1),
                  projectNode heap v (r # ancestors) (depth + 1)])) es))
        | PlainObject \<Rightarrow>
            (case readProperty heap r ''toJSON'' of
               None \<Rightarrow> None
             | Some (HFunction f) \<Rightarrow>
                 (case hp_call heap f r of
                    None \<Rightarrow> None
                  | Some v \<Rightarrow> projectNode heap v (r # ancestors) (depth + 1))
             | _ \<Rightarrow>
                 map_option PObj (sequence (map
                   (\<lambda>(k, p). case p of
                        ThrowingGetter \<Rightarrow> Some (k, PStr UNSERIALIZABLE)
                      | Value v \<Rightarrow> map_option (Pair k) (projectNode heap v (r # ancestors) (depth + 1)))
                   (filter (\<lambda>(k, p). case p of Value v \<Rightarrow> \<not> isOmitted v | ThrowingGetter \<Rightarrow> True)
                     (ob_props (hp_object heap r)))))))"
| "projectNode heap v ancestors depth = Some (projectPrimitive v)"
  by pat_completeness auto
termination
  by (relation "measure (\<lambda>(heap, v, ancestors, depth). MAXIMUM_PROJECTION_DEPTH - depth)") auto

declare projectNode.simps(1) [simp del]

definition toJsonSafe :: "js_heap \<Rightarrow> hval \<Rightarrow> projected" where
  "toJsonSafe heap v = withDefault (PStr UNSERIALIZABLE) (projectNode heap v [] 0)"

subsection \<open>The projection is JSON\<close>

text \<open>The value a durable layer keeps; a raw leaf is none that JSON has.\<close>

primrec projectedValue :: "projected \<Rightarrow> jsval" where
  "projectedValue PNull = JNull"
| "projectedValue (PBool b) = JBool b"
| "projectedValue (PNum n) = JNum n"
| "projectedValue (PStr s) = JStr s"
| "projectedValue (PArr ps) = JArr (map projectedValue ps)"
| "projectedValue (PObj fs) = JObj (map (map_prod id projectedValue) fs)"
| "projectedValue (PRaw v) = JUndef"

text \<open>Errors whose name and message are the texts the language defines them to be.\<close>

definition errorsNamed :: "js_heap \<Rightarrow> bool" where
  "errorsNamed heap \<longleftrightarrow>
     (\<forall>r v. ob_class (hp_object heap r) = ErrorObject
        \<and> (readProperty heap r ''name'' = Some v \<or> readProperty heap r ''message'' = Some v)
        \<longrightarrow> (\<exists>s. v = HStr s))"

lemma isJsonValue_leaf: "e \<le> MAXIMUM_JSON_DEPTH \<Longrightarrow>
    isJsonValue (JStr s) e \<and> isJsonValue JNull e \<and> isJsonValue (JBool b) e
    \<and> (jisFinite n \<longrightarrow> isJsonValue (JNum n) e)"
  by (auto simp: isJsonValue.simps not_less)

lemma isJsonValue_node: "e \<le> MAXIMUM_JSON_DEPTH \<Longrightarrow>
    (isJsonValue (JArr vs) e \<longleftrightarrow> (\<forall>v \<in> set vs. isJsonValue v (e + 1)))
    \<and> (isJsonValue (JObj fs) e \<longleftrightarrow> (\<forall>(k, v) \<in> set fs. isJsonValue v (e + 1)))"
  by (subst (1 3) isJsonValue.simps) (auto simp: list_all_iff)

lemma projectPrimitive_json:
  "e \<le> MAXIMUM_JSON_DEPTH \<Longrightarrow> isJsonValue (projectedValue (projectPrimitive v)) e"
  by (cases v) (simp_all add: isJsonValue_leaf)

lemma projectNode_primitive: "\<nexists>r. v = HRef r \<Longrightarrow> projectNode heap v ancestors depth = Some (projectPrimitive v)"
  by (cases v) simp_all

text \<open>One object, given that its children project to JSON at the depths they land on.\<close>

lemma projectObject_json:
  assumes named: "errorsNamed heap" and e: "e + 2 \<le> MAXIMUM_JSON_DEPTH"
    and d: "r \<notin> set ancestors" "\<not> MAXIMUM_PROJECTION_DEPTH \<le> depth"
    and q: "projectNode heap (HRef r) ancestors depth = Some q"
    and child: "\<And>v c k. projectNode heap v (r # ancestors) (depth + 1) = Some c \<Longrightarrow> k \<le> e + 2 \<Longrightarrow>
      isJsonValue (projectedValue c) k"
  shows "isJsonValue (projectedValue q) e"
proof -
  note q = q [unfolded projectNode.simps(1), simplified d if_False]
  have arr: "isJsonValue (projectedValue (PArr cs)) k"
    if "sequence (map (\<lambda>v. projectNode heap v (r # ancestors) (depth + 1)) vs) = Some cs" "k \<le> e + 1" for vs cs k
  proof -
    have "isJsonValue (projectedValue c) (k + 1)" if "c \<in> set cs" for c
      using sequence_memberD [OF \<open>sequence _ = _\<close> that] child [of _ c "k + 1"] \<open>k \<le> e + 1\<close> by auto
    then show ?thesis using e that(2) by (simp add: isJsonValue_node)
  qed
  show ?thesis
  proof (cases "ob_class (hp_object heap r)")
    case PlainObject
    then obtain t where t: "readProperty heap r ''toJSON'' = Some t" using q by (auto split: option.split_asm)
    show ?thesis
    proof (cases "\<exists>f. t = HFunction f")
      case True
      with q t PlainObject child [of _ q e] show ?thesis by (auto split: option.split_asm)
    next
      case False
      let ?f = "\<lambda>(k, p). case p of ThrowingGetter \<Rightarrow> Some (k, PStr UNSERIALIZABLE)
        | Value v \<Rightarrow> map_option (Pair k) (projectNode heap v (r # ancestors) (depth + 1))"
      define es where "es = filter (\<lambda>(k, p). case p of Value v \<Rightarrow> \<not> isOmitted v | ThrowingGetter \<Rightarrow> True)
        (ob_props (hp_object heap r))"
      have "map_option PObj (sequence (map ?f es)) = Some q"
        using q t PlainObject False unfolding es_def by (cases t) simp_all
      then obtain fs where fs: "q = PObj fs" "sequence (map ?f es) = Some fs" by auto
      have "isJsonValue (projectedValue c) (e + 1)" if m: "(k, c) \<in> set fs" for k c
      proof -
        obtain k' p where p: "Some (k, c) = ?f (k', p)" using sequence_memberD [OF fs(2) m] by auto
        show ?thesis
          using p e child [of _ c "e + 1"] by (cases p) (auto simp: isJsonValue_leaf dest!: sym [of "Some _"])
      qed
      then show ?thesis using fs(1) e by (auto simp: isJsonValue_node)
    qed
  next
    case (DateObject t)
    with q e show ?thesis by (auto simp: projectDate_def isJsonValue_leaf split: option.splits)
  next
    case ErrorObject
    then obtain name message cause where r: "readProperty heap r ''name'' = Some name"
      "readProperty heap r ''message'' = Some message" "readProperty heap r ''cause'' = Some cause"
      using q by (auto split: option.split_asm)
    obtain n m where nm: "name = HStr n" "message = HStr m"
      using named ErrorObject r unfolding errorsNamed_def by metis
    have s: "isJsonValue (JStr x) (e + 1)" for x using e by (simp add: isJsonValue_leaf)
    show ?thesis
    proof (cases "cause = HUndef")
      case True
      with q ErrorObject r nm s e show ?thesis by (auto simp: isJsonValue_node)
    next
      case False
      with q ErrorObject r nm obtain c where c: "projectNode heap cause (r # ancestors) (depth + 1) = Some c"
        "q = PObj [(lit ''name'', PStr n), (lit ''message'', PStr m), (lit ''cause'', c)]" by auto
      have "isJsonValue (projectedValue c) (e + 1)" by (rule child [OF c(1)]) simp
      with c(2) s e show ?thesis by (simp add: isJsonValue_node)
    qed
  next
    case (ArrayObject vs)
    with q arr [of vs _ e] show ?thesis by auto
  next
    case (SetObject vs)
    with q arr [of vs _ e] show ?thesis by auto
  next
    case (MapObject es)
    let ?f = "\<lambda>(k, v). map_option PArr (sequence
      [projectNode heap k (r # ancestors) (depth + 1), projectNode heap v (r # ancestors) (depth + 1)])"
    obtain cs where cs: "q = PArr cs" "sequence (map ?f es) = Some cs" using q MapObject by auto
    have "isJsonValue (projectedValue c) (e + 1)" if m: "c \<in> set cs" for c
    proof -
      obtain k v where "Some c = ?f (k, v)" using sequence_memberD [OF cs(2) m] by auto
      then obtain ds where "c = PArr ds"
        "sequence (map (\<lambda>v. projectNode heap v (r # ancestors) (depth + 1)) [k, v]) = Some ds"
        by (metis (no_types, lifting) list.simps(8,9) map_option_eq_Some old.prod.case)
      then show ?thesis using arr [of "[k, v]" ds "e + 1"] by simp
    qed
    then show ?thesis using cs(1) e by (simp add: isJsonValue_node)
  qed
qed

lemma projectNode_json:
  assumes named: "errorsNamed heap"
  shows "projectNode heap v ancestors depth = Some q \<Longrightarrow> depth \<le> MAXIMUM_PROJECTION_DEPTH \<Longrightarrow>
    e \<le> 2 * depth \<Longrightarrow> isJsonValue (projectedValue q) e"
proof (induction "MAXIMUM_PROJECTION_DEPTH - depth" arbitrary: v ancestors depth q e rule: less_induct)
  case less
  have e: "e \<le> MAXIMUM_JSON_DEPTH"
    using less.prems(2,3) by (simp add: MAXIMUM_JSON_DEPTH_def MAXIMUM_PROJECTION_DEPTH_def)
  show ?case
  proof (cases "\<exists>r. v = HRef r")
    case False
    then have "q = projectPrimitive v" using less.prems(1) projectNode_primitive [of v] by auto
    then show ?thesis using projectPrimitive_json [OF e] by simp
  next
    case True
    then obtain r where v: "v = HRef r" by blast
    show ?thesis
    proof (cases "r \<in> set ancestors \<or> MAXIMUM_PROJECTION_DEPTH \<le> depth")
      case True
      with less.prems(1) e show ?thesis
        by (auto simp: v projectNode.simps(1) isJsonValue_leaf split: if_split_asm)
    next
      case False
      show ?thesis
      proof (rule projectObject_json [OF named _ _ _ less.prems(1) [unfolded v]])
        show "isJsonValue (projectedValue c) k"
          if "projectNode heap u (r # ancestors) (depth + 1) = Some c" "k \<le> e + 2" for u c k
          by (rule less.hyps [OF _ that(1)]) (use False that(2) less.prems in auto)
      qed (use False less.prems in \<open>auto simp: MAXIMUM_JSON_DEPTH_def MAXIMUM_PROJECTION_DEPTH_def\<close>)
    qed
  qed
qed

lemma toJsonSafe_ok:
  assumes "errorsNamed heap"
  shows "isJsonValue (projectedValue (toJsonSafe heap v)) 0"
proof (cases "projectNode heap v [] 0")
  case (Some q)
  with projectNode_json [OF assms Some] show ?thesis by (simp add: toJsonSafe_def)
qed (simp add: toJsonSafe_def isJsonValue_leaf)

text \<open>
  The projection is total and its result is always JSON the record decoder accepts:
  whatever the validator handed over (cycles, any depth, throwing getters and \<open>toJSON\<close>, bigints,
  dates, maps, sets), provided errors carry the texts JavaScript gives them. The projection depth
  of 32 and the decoder's of 64 meet exactly, since every \<open>Map\<close> level nests two arrays.
\<close>

theorem toJsonSafe_json:
  assumes "errorsNamed heap"
  shows "isJsonValue (projectedValue (toJsonSafe heap v)) 0"
  by (rule toJsonSafe_ok [OF assms])

text \<open>
  An \<open>Error\<close> whose \<open>message\<close> was overwritten with a \<open>bigint\<close> is projected with that value in
  place: no JSON.
\<close>

definition bigintMessage :: js_heap where
  "bigintMessage =
     \<lparr>hp_object = (\<lambda>_. \<lparr>ob_class = ErrorObject, ob_props = [(lit ''message'', Value (HBigInt 1))]\<rparr>),
      hp_call = (\<lambda>_ _. None)\<rparr>"

lemma toJsonSafe_raw_message:
  "toJsonSafe bigintMessage (HRef 0) =
     PObj [(lit ''name'', PStr (lit ''Error'')), (lit ''message'', PRaw (HBigInt 1))]
   \<and> \<not> isJsonValue (projectedValue (toJsonSafe bigintMessage (HRef 0))) 0"
proof -
  have "toJsonSafe bigintMessage (HRef 0) =
      PObj [(lit ''name'', PStr (lit ''Error'')), (lit ''message'', PRaw (HBigInt 1))]"
    by (simp add: toJsonSafe_def projectNode.simps(1) bigintMessage_def readProperty_def
        MAXIMUM_PROJECTION_DEPTH_def)
  moreover have "\<not> isJsonValue JUndef e" for e by (simp add: isJsonValue.simps)
  ultimately show ?thesis by (simp add: isJsonValue_node)
qed

end
