(* ===== verification/ValidatorOutput.thy ===== *)
theory ValidatorOutput
  imports GoalProjection GoalBounding
begin

section \<open>From a validator's return value to a stored outcome\<close>

text \<open>
  \<open>normalizeValidatorOutcome\<close> and the projections of \<open>packages/operative/src/goal-decision.ts\<close>
  over the object graph of \<open>GoalProjection\<close>. A normalized outcome keeps what reading a detail
  or a cause answers (\<open>reading\<close>: \<open>None\<close> is a getter that throws); the projection reads it.
\<close>

type_synonym reading = "hval option"

definition isValidatorErrorKind :: "hval \<Rightarrow> bool" where
  "isValidatorErrorKind v \<longleftrightarrow> list_ex (\<lambda>kind. v = HStr (lit (errorKindText kind))) VALIDATOR_ERROR_KINDS"

fun isText :: "hval \<Rightarrow> bool" where
  "isText (HStr _) = True"
| "isText _ = False"

fun textOf :: "hval \<Rightarrow> jstr" where
  "textOf (HStr s) = s"
| "textOf _ = []"

fun isValidatorError :: "js_heap \<Rightarrow> hval \<Rightarrow> bool option" where
  "isValidatorError heap (HRef r) =
     (case readProperty heap r ''kind'' of
        None \<Rightarrow> None
      | Some kind \<Rightarrow>
          if \<not> isValidatorErrorKind kind then Some False
          else (case readProperty heap r ''code'' of
              None \<Rightarrow> None
            | Some code \<Rightarrow>
                if \<not> isText code then Some False
                else map_option isText (readProperty heap r ''message'')))"
| "isValidatorError heap _ = Some False"

definition MALFORMED_VALIDATOR_OUTPUT :: jstr where
  "MALFORMED_VALIDATOR_OUTPUT = lit ''MALFORMED_VALIDATOR_OUTPUT''"

definition malformedOutput :: "string \<Rightarrow> reading outcome" where
  "malformedOutput detail =
     ErrorOutcome
       \<lparr>e_kind = KOutput, e_code = MALFORMED_VALIDATOR_OUTPUT,
        e_message = lit ''The validator returned a malformed outcome: '' @ lit detail @ lit ''.'',
        e_cause = None\<rparr>"

text \<open>\<open>Array.prototype.every\<close> stops at the first entry that fails.\<close>

fun everySource :: "js_heap \<Rightarrow> hval list \<Rightarrow> bool option" where
  "everySource heap [] = Some True"
| "everySource heap (entry # entries) =
     (case entry of
        HRef r \<Rightarrow>
          (case readProperty heap r ''source'' of
             None \<Rightarrow> None
           | Some source \<Rightarrow> if isText source then everySource heap entries else Some False)
      | _ \<Rightarrow> Some False)"

fun evidenceEntries :: "js_heap \<Rightarrow> hval \<Rightarrow> hval list option" where
  "evidenceEntries heap (HRef r) =
     (case ob_class (hp_object heap r) of ArrayObject vs \<Rightarrow> Some vs | _ \<Rightarrow> None)"
| "evidenceEntries heap _ = None"

definition isEvidenceArray :: "js_heap \<Rightarrow> hval \<Rightarrow> bool option" where
  "isEvidenceArray heap v =
     (case evidenceEntries heap v of None \<Rightarrow> Some False | Some vs \<Rightarrow> everySource heap vs)"

text \<open>The entries and errors a checked value is read as.\<close>

fun readEvidence :: "js_heap \<Rightarrow> hval \<Rightarrow> reading evidence" where
  "readEvidence heap (HRef r) =
     \<lparr>ev_source = textOf (withDefault HUndef (readProperty heap r ''source'')),
      ev_detail = readProperty heap r ''detail''\<rparr>"
| "readEvidence heap _ = \<lparr>ev_source = [], ev_detail = None\<rparr>"

definition evidenceOf :: "js_heap \<Rightarrow> hval \<Rightarrow> reading evidence list" where
  "evidenceOf heap v = map (readEvidence heap) (withDefault [] (evidenceEntries heap v))"

definition kindOf :: "hval \<Rightarrow> validator_error_kind" where
  "kindOf v =
     (case find (\<lambda>kind. v = HStr (lit (errorKindText kind))) VALIDATOR_ERROR_KINDS of
        None \<Rightarrow> KOutput | Some kind \<Rightarrow> kind)"

fun errorOf :: "js_heap \<Rightarrow> hval \<Rightarrow> reading validator_error" where
  "errorOf heap (HRef r) =
     \<lparr>e_kind = kindOf (withDefault HUndef (readProperty heap r ''kind'')),
      e_code = textOf (withDefault HUndef (readProperty heap r ''code'')),
      e_message = textOf (withDefault HUndef (readProperty heap r ''message'')),
      e_cause = (if readProperty heap r ''cause'' = Some HUndef then None
                 else Some (readProperty heap r ''cause''))\<rparr>"
| "errorOf heap _ = \<lparr>e_kind = KOutput, e_code = [], e_message = [], e_cause = None\<rparr>"

text \<open>Reading a property and going on with it; a throw ends the normalization.\<close>

abbreviation reading :: "js_heap \<Rightarrow> nat \<Rightarrow> string \<Rightarrow> (hval \<Rightarrow> 'a option) \<Rightarrow> 'a option" where
  "reading heap r key k \<equiv> Option.bind (readProperty heap r key) k"

definition normalizeRecord :: "js_heap \<Rightarrow> nat \<Rightarrow> reading outcome option" where
  "normalizeRecord heap r =
     reading heap r ''kind'' (\<lambda>kind.
       if kind = HStr (lit ''pass'') then
         reading heap r ''evidence'' (\<lambda>evidence.
           map_option
             (\<lambda>ok. if ok then Pass (evidenceOf heap evidence)
                else malformedOutput ''pass requires an evidence array of objects with a string source'')
             (isEvidenceArray heap evidence))
       else if kind = HStr (lit ''fail'') then
         (let malformed = malformedOutput
                ''fail requires feedback, an evidence array of objects with a string source, and retryable''
          in reading heap r ''feedback'' (\<lambda>feedback.
               if \<not> isText feedback then Some malformed
               else reading heap r ''evidence'' (\<lambda>evidence.
                 Option.bind (isEvidenceArray heap evidence) (\<lambda>ok.
                   if \<not> ok then Some malformed
                   else reading heap r ''retryable'' (\<lambda>retryable.
                     case retryable of
                       HBool b \<Rightarrow> Some (FailVerdict (textOf feedback) (evidenceOf heap evidence) b)
                     | _ \<Rightarrow> Some malformed)))))
       else if kind = HStr (lit ''error'') then
         reading heap r ''error'' (\<lambda>e.
           map_option
             (\<lambda>ok. if ok then ErrorOutcome (errorOf heap e)
                else malformedOutput ''error requires a ValidatorError'')
             (isValidatorError heap e))
       else if kind = HStr (lit ''unavailable'') then
         reading heap r ''error'' (\<lambda>e.
           Option.bind (isValidatorError heap e) (\<lambda>ok.
             if \<not> ok then Some (malformedOutput ''unavailable requires a ValidatorError and a reason'')
             else reading heap r ''reason'' (\<lambda>reason.
               Some (if isText reason then Unavailable (errorOf heap e) (textOf reason)
                 else malformedOutput ''unavailable requires a ValidatorError and a reason''))))
       else if kind = HStr (lit ''canceled'') then Some CanceledOutcome
       else if kind = HStr (lit ''indeterminate'') then
         reading heap r ''reason'' (\<lambda>reason.
           Some (if isText reason then Indeterminate (textOf reason)
             else malformedOutput ''indeterminate requires a reason''))
       else Some (malformedOutput ''unknown outcome kind''))"

fun normalizeValidatorOutcome :: "js_heap \<Rightarrow> hval \<Rightarrow> reading outcome option" where
  "normalizeValidatorOutcome heap (HRef r) = normalizeRecord heap r"
| "normalizeValidatorOutcome heap _ = Some (malformedOutput ''expected an object'')"

subsection \<open>Projecting an outcome\<close>

definition projectValidatorError ::
    "js_heap \<Rightarrow> reading validator_error \<Rightarrow> projected validator_error option" where
  "projectValidatorError heap e =
     (case e_cause e of
        None \<Rightarrow> Some \<lparr>e_kind = e_kind e, e_code = e_code e, e_message = e_message e, e_cause = None\<rparr>
      | Some cause \<Rightarrow>
          map_option
            (\<lambda>c. \<lparr>e_kind = e_kind e, e_code = e_code e, e_message = e_message e,
                   e_cause = Some (toJsonSafe heap c)\<rparr>)
            cause)"

definition stripValidatorErrorCause :: "'d validator_error \<Rightarrow> 'd validator_error" where
  "stripValidatorErrorCause e =
     \<lparr>e_kind = e_kind e, e_code = e_code e, e_message = e_message e, e_cause = None\<rparr>"

definition projectEvidence ::
    "js_heap \<Rightarrow> reading evidence list \<Rightarrow> projected evidence list option" where
  "projectEvidence heap evidence =
     sequence (map
       (\<lambda>item. map_option (\<lambda>d. \<lparr>ev_source = ev_source item, ev_detail = toJsonSafe heap d\<rparr>)
          (ev_detail item)) evidence)"

fun projectValidatorOutcome :: "js_heap \<Rightarrow> reading outcome \<Rightarrow> projected outcome option" where
  "projectValidatorOutcome heap (Pass evs) = map_option Pass (projectEvidence heap evs)"
| "projectValidatorOutcome heap (FailVerdict feedback evs retryable) =
     map_option (\<lambda>es. FailVerdict feedback es retryable) (projectEvidence heap evs)"
| "projectValidatorOutcome heap (ErrorOutcome e) = map_option ErrorOutcome (projectValidatorError heap e)"
| "projectValidatorOutcome heap (Unavailable e reason) =
     map_option (\<lambda>e. Unavailable e reason) (projectValidatorError heap e)"
| "projectValidatorOutcome heap CanceledOutcome = Some CanceledOutcome"
| "projectValidatorOutcome heap (Indeterminate reason) = Some (Indeterminate reason)"

subsection \<open>Only a validator gives a verdict\<close>

lemma isText_iff: "isText x \<longleftrightarrow> (\<exists>s. x = HStr s)" by (cases x) auto

lemma malformed_verdict [simp]:
  "malformedOutput d \<noteq> Pass e" "malformedOutput d \<noteq> FailVerdict f e c"
  "Pass e \<noteq> malformedOutput d" "FailVerdict f e c \<noteq> malformedOutput d"
  by (simp_all add: malformedOutput_def)

fun isVerdict :: "'d outcome \<Rightarrow> bool" where
  "isVerdict (Pass _) = True"
| "isVerdict (FailVerdict _ _ _) = True"
| "isVerdict _ = False"

lemma malformed_no_verdict [simp]: "\<not> isVerdict (malformedOutput d)"
  by (simp add: malformedOutput_def)

lemma other_no_verdict:
  assumes "readProperty heap r ''kind'' = Some k"
    and "k \<noteq> HStr (lit ''pass'')" "k \<noteq> HStr (lit ''fail'')"
    and "normalizeRecord heap r = Some out"
  shows "\<not> isVerdict out"
  using assms(4) unfolding normalizeRecord_def assms(1) Option.bind.simps if_not_P [OF assms(2)] if_not_P [OF assms(3)]
  by (auto simp: bind_eq_Some_conv split: if_split_asm)

lemma kind_pass:
  assumes "readProperty heap r ''kind'' = Some (HStr (lit ''pass''))"
  shows "normalizeRecord heap r =
     reading heap r ''evidence'' (\<lambda>evidence.
       map_option (\<lambda>ok. if ok then Pass (evidenceOf heap evidence)
          else malformedOutput ''pass requires an evidence array of objects with a string source'')
         (isEvidenceArray heap evidence))"
  unfolding normalizeRecord_def assms Option.bind.simps if_P [OF refl] by (rule refl)

lemma pass_not_fail: "HStr (lit ''fail'') \<noteq> HStr (lit ''pass'')"
  by (simp add: lit_def)

lemma case_bool:
  "(case v of HBool b \<Rightarrow> Some (f b) | _ \<Rightarrow> Some m) = Some out
     \<longleftrightarrow> (\<exists>b. v = HBool b \<and> out = f b) \<or> ((\<forall>b. v \<noteq> HBool b) \<and> out = m)"
  by (cases v) auto

lemma normalize_pass:
  "normalizeRecord heap r = Some (Pass evs) \<longleftrightarrow>
     (\<exists>l. readProperty heap r ''kind'' = Some (HStr (lit ''pass''))
        \<and> readProperty heap r ''evidence'' = Some l \<and> isEvidenceArray heap l = Some True
        \<and> evs = evidenceOf heap l)"
proof -
  have "readProperty heap r ''kind'' = Some (HStr (lit ''pass''))"
    if n: "normalizeRecord heap r = Some (Pass evs)"
  proof (cases "readProperty heap r ''kind''")
    case (Some k)
    have "k \<noteq> HStr (lit ''fail'')"
      using n unfolding normalizeRecord_def Some Option.bind.simps
      using pass_not_fail by (auto simp: bind_eq_Some_conv Let_def case_bool split: if_split_asm)
    then show ?thesis using other_no_verdict [OF Some _ _ n] Some by auto
  qed (use n in \<open>simp add: normalizeRecord_def\<close>)
  then show ?thesis
    by (auto simp: kind_pass bind_eq_Some_conv split: if_split_asm)
qed

definition failMalformed :: "reading outcome" where
  "failMalformed = malformedOutput
     ''fail requires feedback, an evidence array of objects with a string source, and retryable''"

lemma failMalformed_verdict [simp]: "FailVerdict f e c \<noteq> failMalformed" "failMalformed \<noteq> FailVerdict f e c"
  by (simp_all add: failMalformed_def)

lemma kind_fail:
  assumes "readProperty heap r ''kind'' = Some (HStr (lit ''fail''))"
  shows "normalizeRecord heap r = Some (FailVerdict feedback evs b) \<longleftrightarrow>
     (\<exists>l. readProperty heap r ''feedback'' = Some (HStr feedback)
        \<and> readProperty heap r ''evidence'' = Some l \<and> isEvidenceArray heap l = Some True
        \<and> readProperty heap r ''retryable'' = Some (HBool b) \<and> evs = evidenceOf heap l)"
proof -
  have body: "normalizeRecord heap r =
     reading heap r ''feedback'' (\<lambda>feedback.
       if \<not> isText feedback then Some failMalformed
       else reading heap r ''evidence'' (\<lambda>evidence.
         Option.bind (isEvidenceArray heap evidence) (\<lambda>ok.
           if \<not> ok then Some failMalformed
           else reading heap r ''retryable'' (\<lambda>retryable.
             case retryable of
               HBool b \<Rightarrow> Some (FailVerdict (textOf feedback) (evidenceOf heap evidence) b)
             | _ \<Rightarrow> Some failMalformed))))"
    unfolding normalizeRecord_def assms Option.bind.simps if_not_P [OF pass_not_fail] if_P [OF refl] Let_def
      failMalformed_def ..
  show ?thesis
  proof (cases "readProperty heap r ''feedback''")
    case (Some f)
    then show ?thesis
    proof (cases f)
      case (HStr s)
      with Some show ?thesis
        by (auto simp: body bind_eq_Some_conv case_bool split: if_split_asm)
    qed (simp_all add: body)
  qed (simp add: body)
qed

lemma normalize_fail_kind:
  assumes n: "normalizeRecord heap r = Some (FailVerdict feedback evs b)"
  shows "readProperty heap r ''kind'' = Some (HStr (lit ''fail''))"
proof (cases "readProperty heap r ''kind''")
  case (Some k)
  have "k \<noteq> HStr (lit ''pass'')"
    using n Some by (auto simp: kind_pass bind_eq_Some_conv split: if_split_asm)
  then show ?thesis using other_no_verdict [OF Some _ _ n] Some by auto
qed (use n in \<open>simp add: normalizeRecord_def\<close>)

text \<open>
  A verdict is the validator's own word and nothing else is: an outcome is a pass (a
  failure) exactly when the returned value is an object that says so with a well-formed evidence
  array (and a feedback text and a boolean), and then it is read back member by member.
  Everything else that is malformed becomes an error, an infrastructure failure.
\<close>

theorem normalize_verdict:
  "(normalizeValidatorOutcome heap v = Some (Pass evs) \<longleftrightarrow>
      (\<exists>r l. v = HRef r \<and> readProperty heap r ''kind'' = Some (HStr (lit ''pass''))
        \<and> readProperty heap r ''evidence'' = Some l \<and> isEvidenceArray heap l = Some True
        \<and> evs = evidenceOf heap l))
   \<and> (normalizeValidatorOutcome heap v = Some (FailVerdict feedback evs b) \<longleftrightarrow>
      (\<exists>r l. v = HRef r \<and> readProperty heap r ''kind'' = Some (HStr (lit ''fail''))
        \<and> readProperty heap r ''feedback'' = Some (HStr feedback)
        \<and> readProperty heap r ''evidence'' = Some l \<and> isEvidenceArray heap l = Some True
        \<and> readProperty heap r ''retryable'' = Some (HBool b) \<and> evs = evidenceOf heap l))"
proof (cases v)
  case (HRef r)
  then show ?thesis
    using normalize_fail_kind [of heap r feedback evs b] kind_fail [of heap r feedback evs b]
    by (auto simp: normalize_pass)
qed simp_all

subsection \<open>What reaches the record\<close>

definition storedJson :: "projected \<Rightarrow> json" where
  "storedJson v = asJson (projectedValue v)"

definition storedError :: "projected validator_error \<Rightarrow> json validator_error" where
  "storedError e =
     \<lparr>e_kind = e_kind e, e_code = e_code e, e_message = e_message e,
      e_cause = map_option storedJson (e_cause e)\<rparr>"

definition storedEvidence :: "projected evidence \<Rightarrow> json evidence" where
  "storedEvidence ev = \<lparr>ev_source = ev_source ev, ev_detail = storedJson (ev_detail ev)\<rparr>"

fun storedOutcome :: "projected outcome \<Rightarrow> json outcome" where
  "storedOutcome (Pass evs) = Pass (map storedEvidence evs)"
| "storedOutcome (FailVerdict feedback evs retryable) =
     FailVerdict feedback (map storedEvidence evs) retryable"
| "storedOutcome (ErrorOutcome e) = ErrorOutcome (storedError e)"
| "storedOutcome (Unavailable e reason) = Unavailable (storedError e) reason"
| "storedOutcome CanceledOutcome = CanceledOutcome"
| "storedOutcome (Indeterminate reason) = Indeterminate reason"

lemma storedJson_ok: "errorsNamed heap \<Longrightarrow> jsonOk (storedJson (toJsonSafe heap v))"
  using toJsonSafe_ok [of heap v] by (simp add: storedJson_def)

lemma projectEvidence_ok:
  assumes "errorsNamed heap" "projectEvidence heap evs = Some es"
  shows "list_all ok_evidence (map storedEvidence es)"
proof -
  have "ok_evidence (storedEvidence e)" if "e \<in> set es" for e
    using sequence_memberD [OF assms(2) [unfolded projectEvidence_def] that] storedJson_ok [OF assms(1)]
    by (auto simp: ok_evidence_def storedEvidence_def dest!: sym [of "Some _"])
  then show ?thesis by (simp add: list_all_iff)
qed

lemma projectError_ok:
  "errorsNamed heap \<Longrightarrow> projectValidatorError heap e = Some q \<Longrightarrow> ok_error (storedError q)"
  using storedJson_ok
  by (auto simp: projectValidatorError_def ok_error_def storedError_def split: option.split_asm)


end
