(* ===== verification/Samples.thy ===== *)
theory Samples
  imports ControllerLaws GoalCreate ValidatorOutput
begin

section \<open>A concrete goal\<close>

text \<open>
  One small goal, evaluated by the definitions: its record is valid and fresh, the controller's
  first transition of it is accepted, and a store in memory keeps it. \<open>Witnesses\<close> applies the
  properties to it.
\<close>

definition samplePlatform :: platform where
  "samplePlatform =
     \<lparr>sha256HexSync = (\<lambda>_. replicate 64 (ch (CHR ''0''))), artifactOk = (\<lambda>v. v \<noteq> JUndef)\<rparr>"

definition sampleTime :: jstr where "sampleTime = lit ''2026-01-01T00:00:00.000Z''"

definition sampleNow :: jnum where "sampleNow = Fin 1767225600000"

definition sampleIdentity :: goal_identity where
  "sampleIdentity = \<lparr>id_name = lit ''tests'', id_version = lit ''1''\<rparr>"

definition sample :: goal_state where
  "sample =
     \<lparr>s_goalRunId = lit ''g'', s_workflowId = goalWorkflowId (lit ''g''), s_revision = 1,
      s_transitionSeq = 0, s_identity = sampleIdentity,
      s_objective = \<lparr>ob_agentName = lit ''a'', ob_prompt = lit ''p'', ob_instructions = None\<rparr>,
      s_validator = sampleIdentity, s_requireDeterministicValidation = False,
      s_validatorTimeoutMs = None, s_conversationPolicy = Continue,
      s_retryPolicy = Some [RetryFail],
      s_bounds = \<lparr>b_maximumAttempts = Fin 3, b_maximumTotalDurationMs = None,
        b_maximumTotalSteps = Some (Fin 100), b_maximumTotalTokens = None,
        b_maximumTotalCostUsd = None\<rparr>,
      s_principal = None, s_status = Pending, s_terminalReason = None, s_failureDetail = None,
      s_currentTransition = \<lparr>tr_seq = 0, tr_transitionId = goalTransitionId (lit ''g'') 0,
        tr_from = Pending, tr_to = Pending, tr_at = sampleTime, tr_cause = lit ''created''\<rparr>,
      s_attempts = [], s_usage = \<lparr>u_attempts = 0, u_steps = Fin 0, u_tokens = Fin 0,
        u_costUsd = None, u_durationMs = Fin 0\<rparr>,
      s_active = None, s_cancellation = None, s_controllerRestarts = 0, s_auditLog = [],
      s_closedAt = None, s_cleanedUpAt = None, s_createdAt = sampleTime, s_updatedAt = sampleTime\<rparr>"

definition sampleMarker :: cancellation_marker where
  "sampleMarker = \<lparr>cm_requestedAt = sampleTime, cm_principal = None, cm_reason = None\<rparr>"

lemma sampleTime_iso: "isIsoTimestamp sampleTime"
  unfolding sampleTime_def by code_simp

lemma sample_texts: "isWellFormed (lit ''g'')" "objectiveByteLength (lit ''p'') None = 1"
  by code_simp+

lemma samplePlatform_ok: "hexDigests samplePlatform" "\<not> artifactOk samplePlatform JUndef"
  by (simp_all add: hexDigests_def samplePlatform_def isSha256Hex_def lit_def list_all_iff)

lemma sample_valid: "validState samplePlatform sample"
  using sampleTime_iso sample_texts
  by (simp add: validState_iff ok_state_def isConsistent_def sample_def sampleIdentity_def ok_identity_def
      ok_objective_def ok_budget_def ok_retryPolicy_def ok_transition_def ok_usage_def nonEmpty_def lit_simps
      GOAL_OBJECTIVE_MAXIMUM_BYTES_def GOAL_MAXIMUM_ATTEMPTS_def jnat_def positive_def nonNegative_def
      goalWorkflowId_def goalTransitionId_def isAuditLogConsistent_def hasOwnDerivedIds_def isUsageConsistent_def
      isStatusRelationConsistent_def isTerminalPairing_def areAttemptOutcomesConsistent_def
      isTerminalOutcomeConsistent_def isCancellationConsistent_def jeq_def GOAL_WORKFLOW_ID_PREFIX_def)

lemma sample_marker_ok: "ok_marker sampleMarker"
  by (simp add: ok_marker_def sampleMarker_def sampleTime_iso)

lemma sample_text: "isoText 1767225600000 = sampleTime"
proof -
  have "civilOfDay 20454 = (2026, 1, 1)" by code_simp
  moreover have "padded 4 2026 = lit ''2026''" "padded 2 (Suc 0) = lit ''01''" "padded 2 0 = lit ''00''"
    "padded 3 0 = lit ''000''"
    by code_simp+
  ultimately show ?thesis by (simp add: isoText_def isoYearText_def sampleTime_def lit_simps)
qed

lemma sample_stamp: "toIso sampleNow = Some sampleTime"
  by (simp add: toIso_def timeClip_def sampleNow_def sample_text)

lemma sample_parse: "dateParse sampleTime = sampleNow"
proof -
  have "inIsoYears 1767225600000" by code_simp
  then show ?thesis using isoText_roundtrip [of 1767225600000] by (simp add: sample_text sampleNow_def)
qed

lemma sample_elapsed: "elapsedMilliseconds (toGoalWorkflowView sample) sampleNow = Fin 0"
  using sample_parse
  by (simp add: elapsedMilliseconds_def creationMilliseconds_def toGoalWorkflowView_def sample_def
      sampleNow_def)

lemma sample_clock: "clockOk (toGoalWorkflowView sample) sampleNow"
  by (simp add: clockOk_def sample_stamp sample_elapsed sampleTime_iso nonNegative_def)

lemma sample_pending [simp]:
  "s_status sample = Pending" "s_auditLog sample = []" "s_attempts sample = []"
  "s_cancellation sample = None" "s_goalRunId sample = lit ''g''" "s_transitionSeq sample = 0"
  "s_revision sample = 1" "s_conversationPolicy sample = Continue" "s_closedAt sample = None"
  by (simp_all add: sample_def)

lemma sample_live: "live sample"
  by (simp add: live_def)

lemma sample_id: "validateGoalRunId (lit ''g'') 3 = Inr ()"
  by code_simp

lemma sample_created: "createGoalState samplePlatform (requestFor sample) = Inr sample"
  by (rule create_complete)
    (simp_all add: sample_valid freshRecord_def, simp_all add: sample_def sample_id)

text \<open>The controller's first transition of it, evaluated by the store.\<close>

lemma sample_ready: "ready samplePlatform sample (toGoalWorkflowView sample) sampleNow"
  by (simp add: ready_def sample_valid samplePlatform_ok sample_live sample_clock
      GOAL_AUDIT_LOG_MAXIMUM_ENTRIES_def)

lemma sample_opened:
  obtains request opened where
    "evaluateTransition samplePlatform request sample = Write opened"
    "validState samplePlatform (opened\<lparr>s_revision := 2\<rparr>)" "rq_seq request = 1"
    "s_transitionSeq opened = 1" "s_auditLog opened \<noteq> []"
proof -
  obtain rq n where w: "evaluateTransition samplePlatform rq sample = Write n"
    using open_accepted [OF sample_ready _ _ refl] by (auto simp: acceptedBy_def)
  obtain as where n: "n = buildNext samplePlatform sample rq as" "validState samplePlatform n"
    "rq_seq rq = Suc (s_transitionSeq sample)"
    using evaluateTransition_Write [OF w] by blast
  show thesis
  proof (rule that [OF w])
    show "s_auditLog n \<noteq> []" unfolding n(1) by (simp add: buildNext_def Let_def)
    show "validState samplePlatform (n\<lparr>s_revision := 2\<rparr>)" by (rule validState_revision [OF n(2)]) simp
    show "rq_seq rq = 1" "s_transitionSeq n = 1" using n(3) unfolding n(1) by simp_all
  qed
qed

subsection \<open>A store in memory\<close>

definition memoryStore :: "(jstr \<Rightarrow> stored_text option) text_store" where
  "memoryStore =
     \<lparr>kv_get = (\<lambda>h key. h key),
      kv_conditionalSet = (\<lambda>h key expected text.
        if h key = expected then (True, h(key := Some text)) else (False, h)),
      kv_list = (\<lambda>h prefix. [])\<rparr>"

lemma memoryStore_cas: "compareAndSwap memoryStore"
  by (simp add: compareAndSwap_def memoryStore_def)

end
