(* ===== verification/GoalOwnership.thy ===== *)
theory GoalOwnership
  imports GoalController
begin

section \<open>Whose run an id names\<close>

text \<open>
  \<open>packages/bureau/src/goal-ownership.ts\<close>: an id is never ownership. A run is a goal's own when
  its recovery record carries a marker that reproduces the run's id and names the agent and the
  principal of the goal the marker names. The recovery records, the workflow engine and the
  goals are parameters: a read that throws is an answer of its own, never an absence.
\<close>

subsection \<open>Recovery records\<close>

record goal_marker =
  mk_goalRunId :: jstr
  mk_attemptIndex :: jnum
  mk_tombstonedAt :: "jstr option"

record run_record =
  rr_agentName :: jstr
  rr_principal :: "jstr option"
  rr_goalAttempt :: "goal_marker option"

datatype run_load = RunFound run_record | RunMissing | RunCorrupt | RunReadError

record goal_owner =
  go_agentName :: jstr
  go_principal :: "jstr option"
  go_maximumAttempts :: jnum

record expected_owner = goal_owner +
  eo_goalRunId :: jstr
  eo_attemptIndex :: jnum

definition isOwnAttemptRecord :: "run_record \<Rightarrow> expected_owner \<Rightarrow> bool" where
  "isOwnAttemptRecord record expected =
     (case rr_goalAttempt record of
        None \<Rightarrow> False
      | Some marker \<Rightarrow>
          mk_goalRunId marker = eo_goalRunId expected
          \<and> jeq (mk_attemptIndex marker) (eo_attemptIndex expected)
          \<and> rr_agentName record = go_agentName expected
          \<and> rr_principal record = go_principal expected)"

definition MAX_SAFE_INTEGER :: rat where
  "MAX_SAFE_INTEGER = 9007199254740991"

fun isSafeInteger :: "jnum \<Rightarrow> bool" where
  "isSafeInteger (Fin r) \<longleftrightarrow> jisInteger (Fin r) \<and> \<bar>r\<bar> \<le> MAX_SAFE_INTEGER"
| "isSafeInteger _ \<longleftrightarrow> False"

definition isGoalOwnedRunRecord :: "run_record \<Rightarrow> jstr \<Rightarrow> 'a goal_owner_scheme \<Rightarrow> bool" where
  "isGoalOwnedRunRecord record runId owner =
     (case rr_goalAttempt record of
        None \<Rightarrow> False
      | Some marker \<Rightarrow>
          (let index = mk_attemptIndex marker
           in if \<not> isSafeInteger index \<or> jlt index (Fin 0) then False
              else if goalAttemptRunId (mk_goalRunId marker) (asNat (JNum index)) \<noteq> runId then False
              else if \<not> jlt index (go_maximumAttempts owner) then False
              else isOwnAttemptRecord record
                \<lparr>go_agentName = go_agentName owner, go_principal = go_principal owner,
                 go_maximumAttempts = go_maximumAttempts owner,
                 eo_goalRunId = mk_goalRunId marker, eo_attemptIndex = index\<rparr>))"

subsection \<open>The world a goal sees\<close>

record workflow_state =
  wf_type :: jstr
  wf_input :: jsval

text \<open>\<open>None\<close> is a read that throws.\<close>

record ownership_world =
  ow_readRunRecord :: "jstr \<Rightarrow> run_load"
  ow_engineGet :: "jstr \<Rightarrow> workflow_state option option"
  ow_resolveOwner :: "jstr \<Rightarrow> goal_owner option option"

datatype ownership_fault =
    OwnershipUnknown jstr
  | CorruptOwnershipRecord jstr
  | NotOwned jstr
  | OtherFault

datatype run_ownership = Owned | Absent | Foreign jstr | CorruptClaim jstr

definition corruptMessage :: "jstr \<Rightarrow> jstr" where
  "corruptMessage runId =
     lit ''corrupt-ownership-record: the recovery record for run \"'' @ runId
       @ lit ''\" exists but is not valid, so its owner cannot be determined.''"

definition verifyAttemptRun ::
    "ownership_world \<Rightarrow> expected_owner \<Rightarrow> jstr \<Rightarrow> ownership_fault + run_ownership" where
  "verifyAttemptRun world expected runId =
     (case ow_readRunRecord world runId of
        RunReadError \<Rightarrow> Inl (OwnershipUnknown runId)
      | RunCorrupt \<Rightarrow> Inr (CorruptClaim (corruptMessage runId))
      | RunFound record \<Rightarrow>
          Inr (if isGoalOwnedRunRecord record runId expected
              \<and> map_option mk_goalRunId (rr_goalAttempt record) = Some (eo_goalRunId expected)
              \<and> (case rr_goalAttempt record of
                   None \<Rightarrow> False
                 | Some marker \<Rightarrow> jeq (mk_attemptIndex marker) (eo_attemptIndex expected))
            then Owned
            else Foreign (lit ''run id \"'' @ runId
              @ lit ''\" is held by a run that was not started for this goal attempt''))
      | RunMissing \<Rightarrow>
          (case ow_engineGet world runId of
             None \<Rightarrow> Inl OtherFault
           | Some None \<Rightarrow> Inr Absent
           | Some (Some _) \<Rightarrow>
               Inr (Foreign (lit ''run id \"'' @ runId
                 @ lit ''\" is held by a run that was not started by a goal''))))"

definition CONTROLLER_PREFIX :: jstr where
  "CONTROLLER_PREFIX = lit ''goal:''"

definition ATTEMPT_RUN_PREFIX :: jstr where
  "ATTEMPT_RUN_PREFIX = lit ''goal-''"

definition GOAL_WORKFLOW_TYPE :: jstr where
  "GOAL_WORKFLOW_TYPE = lit ''goalRun''"

definition isOwnController :: "workflow_state \<Rightarrow> jstr \<Rightarrow> bool" where
  "isOwnController state workflowId \<longleftrightarrow>
     wf_type state = GOAL_WORKFLOW_TYPE \<and> isPlainRecord (wf_input state)
     \<and> jget (wf_input state) ''goalRunId'' = JStr (drop (length CONTROLLER_PREFIX) workflowId)"

text \<open>\<open>isOwnedGoalRun\<close>; \<open>None\<close> is a goal that could not be looked up.\<close>

definition isOwnedGoalRun :: "ownership_world \<Rightarrow> run_load \<Rightarrow> jstr \<Rightarrow> bool option" where
  "isOwnedGoalRun world load runId =
     (case load of
        RunFound record \<Rightarrow>
          (case rr_goalAttempt record of
             None \<Rightarrow> Some False
           | Some marker \<Rightarrow>
               map_option
                 (\<lambda>owner. case owner of None \<Rightarrow> False | Some o' \<Rightarrow> isGoalOwnedRunRecord record runId o')
                 (ow_resolveOwner world (mk_goalRunId marker)))
      | _ \<Rightarrow> Some False)"

subsection \<open>The engine as a goal sees it\<close>

definition isController :: "jstr \<Rightarrow> bool" where
  "isController workflowId \<longleftrightarrow> startsWith workflowId CONTROLLER_PREFIX"

definition ownedController :: "ownership_world \<Rightarrow> jstr \<Rightarrow> bool option" where
  "ownedController world workflowId =
     map_option
       (\<lambda>state. case state of None \<Rightarrow> True | Some s \<Rightarrow> isOwnController s workflowId)
       (ow_engineGet world workflowId)"

definition ownedGet :: "ownership_world \<Rightarrow> jstr \<Rightarrow> ownership_fault + workflow_state option" where
  "ownedGet world workflowId =
     (case ow_engineGet world workflowId of
        None \<Rightarrow> Inl OtherFault
      | Some None \<Rightarrow> Inr None
      | Some (Some state) \<Rightarrow>
          if isController workflowId
          then Inr (if isOwnController state workflowId then Some state else None)
          else if startsWith workflowId ATTEMPT_RUN_PREFIX then
            (case ow_readRunRecord world workflowId of
               RunReadError \<Rightarrow> Inl (OwnershipUnknown workflowId)
             | RunCorrupt \<Rightarrow> Inl (CorruptOwnershipRecord workflowId)
             | load \<Rightarrow>
                 (case isOwnedGoalRun world load workflowId of
                    None \<Rightarrow> Inl OtherFault
                  | Some owned \<Rightarrow> Inr (if owned then Some state else None)))
          else Inr (Some state))"

text \<open>
  \<open>start\<close>, \<open>signal\<close>, \<open>cancel\<close> and \<open>resume\<close>: the call is forwarded to the engine, or refused.
\<close>

datatype engine_method = StartMethod | SignalMethod | CancelMethod | ResumeMethod

definition ownedCall ::
    "ownership_world \<Rightarrow> engine_method \<Rightarrow> jstr \<Rightarrow> ownership_fault + engine_method \<times> jstr" where
  "ownedCall world method workflowId =
     (if isController workflowId then
        (case ownedController world workflowId of
           None \<Rightarrow> Inl OtherFault
         | Some owned \<Rightarrow> if owned then Inr (method, workflowId) else Inl (NotOwned workflowId))
      else Inr (method, workflowId))"

datatype owned_cancel = CancelForwarded jstr | CancelFailed ownership_fault | CancelNotFound

definition ownedRunCanceller :: "ownership_world \<Rightarrow> jstr \<Rightarrow> owned_cancel" where
  "ownedRunCanceller world runId =
     (case ow_readRunRecord world runId of
        RunReadError \<Rightarrow> CancelFailed (OwnershipUnknown runId)
      | RunCorrupt \<Rightarrow> CancelFailed (CorruptOwnershipRecord runId)
      | load \<Rightarrow>
          (case isOwnedGoalRun world load runId of
             None \<Rightarrow> CancelFailed OtherFault
           | Some owned \<Rightarrow> if owned then CancelForwarded runId else CancelNotFound))"

subsection \<open>No two checks disagree\<close>

lemma owned_marker:
  assumes "rr_goalAttempt claim = Some marker"
  shows "isGoalOwnedRunRecord claim runId owner \<longleftrightarrow>
     (\<exists>n. mk_attemptIndex marker = jnat n \<and> isSafeInteger (jnat n)
        \<and> goalAttemptRunId (mk_goalRunId marker) n = runId \<and> jlt (jnat n) (go_maximumAttempts owner)
        \<and> rr_agentName claim = go_agentName owner \<and> rr_principal claim = go_principal owner)"
proof -
  have index: "isSafeInteger i \<and> \<not> jlt i (Fin 0) \<longleftrightarrow> (\<exists>n. i = jnat n \<and> isSafeInteger (jnat n))" for i
  proof (cases i)
    case (Fin r)
    have "r = of_int \<lfloor>r\<rfloor> \<and> \<not> r < 0 \<longleftrightarrow> (\<exists>n. r = of_nat n)"
      by (metis floor_of_nat not_less of_int_0_le_iff of_int_of_nat_eq of_nat_0_le_iff zero_le_imp_eq_int)
    then show ?thesis by (auto simp: Fin jnat_def)
  qed (simp_all add: jnat_def)
  have n: "asNat (JNum (jnat n)) = n" for n by (simp add: jnat_def)
  show ?thesis
  proof (cases "\<exists>n. mk_attemptIndex marker = jnat n \<and> isSafeInteger (jnat n)")
    case True
    then obtain m where m: "mk_attemptIndex marker = jnat m" "isSafeInteger (jnat m)" by blast
    have "\<not> jlt (jnat m) (Fin 0)" "jeq (jnat m) (jnat m)" by (simp_all add: jnat_def)
    then show ?thesis
      using m by (simp add: isGoalOwnedRunRecord_def isOwnAttemptRecord_def Let_def assms n)
  next
    case False
    then have "\<not> (isSafeInteger (mk_attemptIndex marker) \<and> \<not> jlt (mk_attemptIndex marker) (Fin 0))"
      by (simp add: index)
    then show ?thesis using False by (simp add: isGoalOwnedRunRecord_def Let_def assms) blast
  qed
qed

lemma owned_has_marker:
  "isGoalOwnedRunRecord claim runId owner \<Longrightarrow> \<exists>marker. rr_goalAttempt claim = Some marker"
  by (cases "rr_goalAttempt claim") (simp_all add: isGoalOwnedRunRecord_def)

lemma owned_ids:
  assumes "isGoalOwnedRunRecord claim (goalAttemptRunId g n) owner"
  shows "\<exists>marker. rr_goalAttempt claim = Some marker \<and> mk_goalRunId marker = g
    \<and> mk_attemptIndex marker = jnat n"
proof -
  obtain marker where "rr_goalAttempt claim = Some marker"
    using owned_has_marker [OF assms] by blast
  with assms owned_marker [OF this, of "goalAttemptRunId g n" owner] show ?thesis by auto
qed

lemma owned_same_owner:
  "go_agentName o1 = go_agentName o2 \<Longrightarrow> go_principal o1 = go_principal o2 \<Longrightarrow>
   go_maximumAttempts o1 = go_maximumAttempts o2 \<Longrightarrow>
   isGoalOwnedRunRecord claim runId o1 = isGoalOwnedRunRecord claim runId o2"
  by (simp add: isGoalOwnedRunRecord_def isOwnAttemptRecord_def split: option.split)

lemma verified_owned:
  assumes "expected = \<lparr>go_agentName = go_agentName owner, go_principal = go_principal owner,
      go_maximumAttempts = go_maximumAttempts owner, eo_goalRunId = g, eo_attemptIndex = jnat n\<rparr>"
  shows "verifyAttemptRun world expected (goalAttemptRunId g n) = Inr Owned \<longleftrightarrow>
    (\<exists>claim. ow_readRunRecord world (goalAttemptRunId g n) = RunFound claim
      \<and> isGoalOwnedRunRecord claim (goalAttemptRunId g n) owner)"
proof (cases "ow_readRunRecord world (goalAttemptRunId g n)")
  case (RunFound claim)
  have o': "isGoalOwnedRunRecord claim (goalAttemptRunId g n) expected
      = isGoalOwnedRunRecord claim (goalAttemptRunId g n) owner"
    by (rule owned_same_owner) (simp_all add: assms)
  have "jeq (jnat n) (jnat n)" by (simp add: jnat_def)
  then show ?thesis
    using owned_ids [of claim g n owner]
    by (auto simp: verifyAttemptRun_def RunFound o' [unfolded assms] assms)
qed (simp_all add: verifyAttemptRun_def split: option.split)

lemma isOwnedGoalRun_missing [simp]: "isOwnedGoalRun world RunMissing runId = Some False"
  by (simp add: isOwnedGoalRun_def)

lemma resolved_owned:
  assumes "ow_resolveOwner world g = Some (Some owner)"
  shows "isOwnedGoalRun world (RunFound claim) (goalAttemptRunId g n) = Some True \<longleftrightarrow>
    isGoalOwnedRunRecord claim (goalAttemptRunId g n) owner"
  using owned_ids [of claim g n] owned_has_marker [of claim "goalAttemptRunId g n" owner] assms
  by (fastforce simp: isOwnedGoalRun_def split: option.split_asm)

lemma attempt_run_prefix: "startsWith (goalAttemptRunId g n) ATTEMPT_RUN_PREFIX"
    "\<not> isController (goalAttemptRunId g n)"
  by (simp_all add: startsWith_def isController_def CONTROLLER_PREFIX_def ATTEMPT_RUN_PREFIX_def
      goalAttemptRunId_def GOAL_RUN_AND_SESSION_ID_PREFIX_def lit_simps)

text \<open>
  \<^bold>\<open>C38\<close>: the start port's verification, the owned engine and the owned canceller cannot disagree
  about who holds an attempt's run: when the goal can be read, exactly the runs verified as owned
  are the ones a cancellation is forwarded to, and exactly those are seen through the owned
  engine once they exist; and one recovery record never makes a run two goals' own.
\<close>

theorem ownership_agrees:
  assumes "ow_resolveOwner world g = Some (Some owner)"
    and "ow_engineGet world (goalAttemptRunId g n) = Some (Some state)"
    and "expected = \<lparr>go_agentName = go_agentName owner, go_principal = go_principal owner,
      go_maximumAttempts = go_maximumAttempts owner, eo_goalRunId = g, eo_attemptIndex = jnat n\<rparr>"
  shows "(verifyAttemptRun world expected (goalAttemptRunId g n) = Inr Owned
      \<longleftrightarrow> ownedRunCanceller world (goalAttemptRunId g n) = CancelForwarded (goalAttemptRunId g n))
    \<and> (verifyAttemptRun world expected (goalAttemptRunId g n) = Inr Owned
      \<longleftrightarrow> ownedGet world (goalAttemptRunId g n) = Inr (Some state))
    \<and> (isGoalOwnedRunRecord claim (goalAttemptRunId g n) owner
       \<and> isGoalOwnedRunRecord claim (goalAttemptRunId h m) owner' \<longrightarrow> h = g \<and> m = n)"
proof (intro conjI)
  show "isGoalOwnedRunRecord claim (goalAttemptRunId g n) owner
      \<and> isGoalOwnedRunRecord claim (goalAttemptRunId h m) owner' \<longrightarrow> h = g \<and> m = n"
    using owned_ids [of claim g n owner] owned_ids [of claim h m owner'] by auto
  show "verifyAttemptRun world expected (goalAttemptRunId g n) = Inr Owned
      \<longleftrightarrow> ownedRunCanceller world (goalAttemptRunId g n) = CancelForwarded (goalAttemptRunId g n)"
    by (cases "ow_readRunRecord world (goalAttemptRunId g n)")
      (auto simp: verified_owned [OF assms(3)] resolved_owned [OF assms(1), symmetric] ownedRunCanceller_def split: option.split if_split_asm)
  show "verifyAttemptRun world expected (goalAttemptRunId g n) = Inr Owned
      \<longleftrightarrow> ownedGet world (goalAttemptRunId g n) = Inr (Some state)"
    by (cases "ow_readRunRecord world (goalAttemptRunId g n)")
      (auto simp: verified_owned [OF assms(3)] resolved_owned [OF assms(1), symmetric] ownedGet_def assms(2) attempt_run_prefix
        split: option.split if_split_asm)
qed

end
