(* ===== verification/GoalFence.thy ===== *)
theory GoalFence
  imports GoalOwnership StoreLaws
begin

section \<open>The self-fence of an attempt's run\<close>

text \<open>
  \<open>packages/bureau/src/goal-attempt-fence.ts\<close>: before every step, the run of an attempt reads its
  goal and its own claim, and takes the step only when both allow it. \<open>mayRun\<close> is the verdict
  from one reading, \<open>readFence\<close> retries a reading that fails, and \<open>readSettled\<close> waits, within a
  budget, for the controller to acknowledge the attempt.
\<close>

record attempt_target =
  ta_goalRunId :: jstr
  ta_attemptIndex :: nat
  ta_runId :: jstr

datatype fence_verdict = MayRun | Refuse | AwaitOpen jnum

definition GOAL_ATTEMPT_ACKNOWLEDGEMENT_BUDGET_MS :: jnum where
  "GOAL_ATTEMPT_ACKNOWLEDGEMENT_BUDGET_MS = Fin 120000"

definition GOAL_ATTEMPT_ACKNOWLEDGEMENT_POLL_DELAYS_MS :: "jnum list" where
  "GOAL_ATTEMPT_ACKNOWLEDGEMENT_POLL_DELAYS_MS = [Fin 50, Fin 100, Fin 250, Fin 500]"

definition GOAL_ATTEMPT_FENCE_READ_DELAYS_MS :: "jnum list" where
  "GOAL_ATTEMPT_FENCE_READ_DELAYS_MS = [Fin 100, Fin 500, Fin 2000, Fin 5000]"

subsection \<open>The verdict from one reading\<close>

text \<open>
  What one reading finds: the goal (\<open>None\<close> is a store that throws, \<open>Some None\<close> a goal that is
  missing or unreadable), the claim, and the clock at the two moments it is read.
\<close>

record fence_reads =
  fr_goal :: "goal_state option option"
  fr_now :: jnum
  fr_claim :: run_load
  fr_later :: jnum

definition ownClaim :: "goal_state \<Rightarrow> attempt_target \<Rightarrow> run_record \<Rightarrow> bool" where
  "ownClaim goal target record \<longleftrightarrow>
     (case rr_goalAttempt record of
        None \<Rightarrow> False
      | Some claimed \<Rightarrow>
          mk_goalRunId claimed = ta_goalRunId target
          \<and> jeq (mk_attemptIndex claimed) (jnat (ta_attemptIndex target))
          \<and> mk_tombstonedAt claimed = None
          \<and> isGoalOwnedRunRecord record (ta_runId target)
              \<lparr>go_agentName = ob_agentName (s_objective goal), go_principal = s_principal goal,
               go_maximumAttempts = b_maximumAttempts (s_bounds goal)\<rparr>)"

definition mayRun :: "fence_reads \<Rightarrow> attempt_target \<Rightarrow> fence_verdict option" where
  "mayRun reads target =
     (case fr_goal reads of
        None \<Rightarrow> None
      | Some None \<Rightarrow> Some Refuse
      | Some (Some goal) \<Rightarrow>
          if s_cancellation goal \<noteq> None \<or> isTerminalStatus (s_status goal) then Some Refuse
          else if isDeadlineElapsed (toGoalWorkflowView goal) (fr_now reads) then Some Refuse
          else (case fr_claim reads of
              RunReadError \<Rightarrow> None
            | RunFound record \<Rightarrow>
                if \<not> ownClaim goal target record then Some Refuse
                else (case elementAt (s_attempts goal) (ta_attemptIndex target) of
                    None \<Rightarrow>
                      if length (s_attempts goal) \<noteq> ta_attemptIndex target then Some Refuse
                      else
                        (let remaining = remainingMilliseconds (toGoalWorkflowView goal) (fr_later reads);
                             budgetMs = jmin GOAL_ATTEMPT_ACKNOWLEDGEMENT_BUDGET_MS
                               (withDefault GOAL_ATTEMPT_ACKNOWLEDGEMENT_BUDGET_MS remaining)
                         in Some (if jlt (Fin 0) budgetMs then AwaitOpen budgetMs else Refuse))
                  | Some attempt \<Rightarrow>
                      Some (if a_runId attempt = ta_runId target \<and> a_status attempt = ARunning
                          \<and> ta_attemptIndex target + 1 = length (s_attempts goal)
                          \<and> (case s_active goal of
                               Some (AttemptWork attemptId runId _) \<Rightarrow>
                                 attemptId = a_attemptId attempt \<and> runId = ta_runId target
                             | _ \<Rightarrow> False)
                        then MayRun else Refuse))
            | _ \<Rightarrow> Some Refuse))"

subsection \<open>Retries and the acknowledgement wait\<close>

text \<open>
  The world the hook reads: each reading may change it (so may anything else meanwhile), a wait
  moves its time, and the step's signal and the monotonic clock, where there is one, are read
  from it. \<open>fg_runtime\<close> says whether the hook was given timers to wait on.
\<close>

record 'w fence_world =
  fw_mayRun :: "'w \<Rightarrow> fence_verdict option \<times> 'w"
  fw_aborted :: "'w \<Rightarrow> bool"
  fw_wait :: "jnum \<Rightarrow> 'w \<Rightarrow> 'w"
  fw_monotonic :: "('w \<Rightarrow> jnum) option"

record fence_registration =
  fg_runtime :: bool
  fg_delaysMs :: "jnum list option"
  fg_acknowledgementDelaysMs :: "jnum list option"

primrec readTries ::
    "'w fence_world \<Rightarrow> bool \<Rightarrow> jnum list \<Rightarrow> 'w \<Rightarrow> fence_verdict option \<times> 'w" where
  "readTries fw runtime [] w = fw_mayRun fw w"
| "readTries fw runtime (delay # delays) w =
     (case fw_mayRun fw w of
        (Some verdict, w) \<Rightarrow> (Some verdict, w)
      | (None, w) \<Rightarrow>
          if fw_aborted fw w then (None, w)
          else if \<not> runtime then readTries fw runtime delays w
          else (let w = fw_wait fw delay w
            in if fw_aborted fw w then (None, w) else readTries fw runtime delays w))"

definition readFence ::
    "'w fence_world \<Rightarrow> fence_registration \<Rightarrow> 'w \<Rightarrow> fence_verdict option \<times> 'w" where
  "readFence fw registration w =
     readTries fw (fg_runtime registration)
       (withDefault GOAL_ATTEMPT_FENCE_READ_DELAYS_MS (fg_delaysMs registration)) w"

datatype fence_reading = FenceRun | FenceRefuse | Unacknowledged | Unknown

definition elapsedMs :: "'w fence_world \<Rightarrow> jnum option \<Rightarrow> jnum \<Rightarrow> 'w \<Rightarrow> jnum" where
  "elapsedMs fw startedAt waitedMs w =
     jmax waitedMs
       (case (fw_monotonic fw, startedAt) of
          (Some monotonic, Some started) \<Rightarrow> jsub (monotonic w) started
        | _ \<Rightarrow> Fin 0)"

definition pollDelay :: "jnum list \<Rightarrow> nat \<Rightarrow> jnum \<Rightarrow> jnum" where
  "pollDelay delays polls remaining =
     jmin
       (jmax
         (withDefault remaining
           (if delays = [] then None else elementAt delays (min polls (length delays - 1))))
         (Fin 1))
       remaining"

text \<open>
  The loop from its \<open>polls\<close>-th iteration; \<open>None\<close> is a loop that never ends. The answer carries
  the polls and the milliseconds waited when it was given.
\<close>

partial_function (option) pollFence ::
    "'w fence_world \<Rightarrow> fence_registration \<Rightarrow> jnum option \<Rightarrow> nat \<Rightarrow> jnum \<Rightarrow> jnum option \<Rightarrow> 'w
       \<Rightarrow> (fence_reading \<times> nat \<times> jnum \<times> 'w) option" where
  "pollFence fw registration startedAt polls waitedMs budget w =
     (case readFence fw registration w of
        (None, w) \<Rightarrow> Some (Unknown, polls, waitedMs, w)
      | (Some MayRun, w) \<Rightarrow> Some (FenceRun, polls, waitedMs, w)
      | (Some Refuse, w) \<Rightarrow> Some (FenceRefuse, polls, waitedMs, w)
      | (Some (AwaitOpen ms), w) \<Rightarrow>
          (let budgetMs = withDefault ms budget;
               elapsed = elapsedMs fw startedAt waitedMs w
           in if \<not> fg_runtime registration \<or> fw_aborted fw w \<or> jle budgetMs elapsed
              then Some (Unacknowledged, polls, waitedMs, w)
              else
                (let delay = pollDelay
                       (withDefault GOAL_ATTEMPT_ACKNOWLEDGEMENT_POLL_DELAYS_MS
                         (fg_acknowledgementDelaysMs registration))
                       polls (jsub budgetMs elapsed);
                     w = fw_wait fw delay w
                 in if fw_aborted fw w then Some (Unacknowledged, polls, waitedMs, w)
                    else pollFence fw registration startedAt (Suc polls) (jadd waitedMs delay)
                      (Some budgetMs) w)))"

definition readSettled ::
    "'w fence_world \<Rightarrow> fence_registration \<Rightarrow> 'w \<Rightarrow> (fence_reading \<times> nat \<times> jnum \<times> 'w) option" where
  "readSettled fw registration w =
     pollFence fw registration
       (if fg_runtime registration
        then map_option (\<lambda>monotonic. monotonic w) (fw_monotonic fw) else None)
       0 (Fin 0) None w"

subsection \<open>A step is taken only under a live goal\<close>

lemma mayRun_facts:
  assumes "fr_goal reads = Some (Some t)" "mayRun reads target = Some MayRun"
  obtains a attemptId startedAt claim where
    "s_cancellation t = None" "\<not> isTerminalStatus (s_status t)"
    "\<not> isDeadlineElapsed (toGoalWorkflowView t) (fr_now reads)"
    "fr_claim reads = RunFound claim" "ownClaim t target claim"
    "elementAt (s_attempts t) (ta_attemptIndex target) = Some a" "a_runId a = ta_runId target"
    "a_status a = ARunning" "Suc (ta_attemptIndex target) = length (s_attempts t)"
    "s_active t = Some (AttemptWork (a_attemptId a) (ta_runId target) startedAt)"
  using assms
  by (auto simp: mayRun_def Let_def split: if_split_asm run_load.split_asm option.split_asm active_work.split_asm)

lemma running_of_attempt:
  assumes "isStatusRelationConsistent t" "lastOf (s_attempts t) = Some a" "a_status a = ARunning"
  shows "s_status t = Running"
  using assms
  by (cases "s_status t") (auto simp: isStatusRelationConsistent_def isInFlight_def Let_def split: if_split_asm
      option.split_asm active_work.split_asm)

lemma running_open:
  assumes "isStatusRelationConsistent t" "s_status t = Running"
  obtains a startedAt where "lastOf (s_attempts t) = Some a" "a_status a = ARunning"
    "s_active t = Some (AttemptWork (a_attemptId a) (a_runId a) startedAt)"
  using assms(1) unfolding isStatusRelationConsistent_def assms(2) Let_def
  by (auto split: if_split_asm option.split_asm active_work.split_asm)

lemma derived_run_id:
  assumes "hasOwnDerivedIds t" "elementAt (s_attempts t) n = Some a"
  shows "a_runId a = goalAttemptRunId (s_goalRunId t) n"
proof -
  have n: "n < length (s_attempts t)" "a = s_attempts t ! n"
    using assms(2) by (auto simp: elementAt_def split: if_split_asm)
  then have "(n, a) \<in> set (zip [0..<length (s_attempts t)] (s_attempts t))"
    by (auto simp: set_zip intro!: exI [of _ n])
  then show ?thesis using assms(1) by (auto simp: hasOwnDerivedIds_def list_all_iff)
qed

text \<open>
  \<^bold>\<open>C34\<close>: a step is taken only under a live goal: once a goal has been canceled or has ended, no
  later state of its record lets any run take a step; and a run that may take one is the run the
  goal's own last attempt names, that attempt is open, its deadline is not reached, and its claim
  is the goal's own and not tombstoned. So no two runs of one goal may step at once.
\<close>

theorem fence_excludes:
  assumes "validState p s" "(store_write p)\<^sup>*\<^sup>* s t"
    and "fr_goal reads = Some (Some t)" "mayRun reads target = Some MayRun"
  shows "s_cancellation s = None \<and> \<not> isTerminalStatus (s_status s) \<and> s_status t = Running
    \<and> \<not> isDeadlineElapsed (toGoalWorkflowView t) (fr_now reads)
    \<and> Suc (ta_attemptIndex target) = length (s_attempts t)
    \<and> ta_runId target = goalAttemptRunId (s_goalRunId s) (ta_attemptIndex target)
    \<and> (\<exists>claim. fr_claim reads = RunFound claim \<and> ownClaim t target claim)"
proof -
  obtain a attemptId startedAt claim where f: "s_cancellation t = None" "\<not> isTerminalStatus (s_status t)"
    "\<not> isDeadlineElapsed (toGoalWorkflowView t) (fr_now reads)"
    "fr_claim reads = RunFound claim" "ownClaim t target claim"
    "elementAt (s_attempts t) (ta_attemptIndex target) = Some a" "a_runId a = ta_runId target"
    "a_status a = ARunning" "Suc (ta_attemptIndex target) = length (s_attempts t)"
    using mayRun_facts [OF assms(3,4)] by metis
  have h: "history_law s t" by (rule store.history [OF assms(2)])
  have "validState p t" by (rule store_writes_valid [OF assms(2,1)])
  then have v: "isStatusRelationConsistent t" "hasOwnDerivedIds t"
    by (simp_all add: validState_iff isConsistent_def)
  have last: "lastOf (s_attempts t) = Some a"
  proof -
    have "s_attempts t \<noteq> []" "length (s_attempts t) - 1 = ta_attemptIndex target"
      using f(9) by auto
    then show ?thesis using f(6,9) by (simp add: lastOf_def last_conv_nth elementAt_def)
  qed
  have "s_goalRunId t = s_goalRunId s" using h by (simp add: history_law_def frozen_def)
  moreover have "s_cancellation s = None" using h f(1) unfolding history_law_def by metis
  moreover have "\<not> isTerminalStatus (s_status s)"
    using h f(2) unfolding history_law_def sameEnding_def by metis
  ultimately show ?thesis
    using f running_of_attempt [OF v(1) last f(8)] derived_run_id [OF v(2) f(6)] by auto
qed

subsection \<open>The wait ends within its budget\<close>

text \<open>Whole milliseconds, as the clocks of the runtime count them, are added and subtracted exactly.\<close>

definition wholeMs :: "jnum \<Rightarrow> bool" where
  "wholeMs x \<longleftrightarrow> (\<exists>n. \<bar>n\<bar> \<le> 2 ^ 51 \<and> x = Fin (of_int n))"

lemma jadd_whole: "\<bar>m\<bar> \<le> 2 ^ 52 \<Longrightarrow> \<bar>n\<bar> \<le> 2 ^ 52 \<Longrightarrow>
    jadd (Fin (of_int m)) (Fin (of_int n)) = Fin (of_int (m + n))"
  using toDouble_int [of "m + n"] by simp

lemma jsub_whole: "\<bar>m\<bar> \<le> 2 ^ 52 \<Longrightarrow> \<bar>n\<bar> \<le> 2 ^ 52 \<Longrightarrow>
    jsub (Fin (of_int m)) (Fin (of_int n)) = Fin (of_int (m - n))"
  using toDouble_int [of "m - n"] by simp

text \<open>
  The numbers a wait computes with: the acknowledgement delays, the monotonic clock's readings and
  the budget of each \<open>await-open\<close> verdict, none above \<open>bound\<close>.
\<close>

definition wholeWorld :: "'w fence_world \<Rightarrow> fence_registration \<Rightarrow> nat \<Rightarrow> bool" where
  "wholeWorld fw registration bound \<longleftrightarrow>
     bound \<le> 2 ^ 50
     \<and> list_all wholeMs (withDefault GOAL_ATTEMPT_ACKNOWLEDGEMENT_POLL_DELAYS_MS
         (fg_acknowledgementDelaysMs registration))
     \<and> (\<forall>monotonic w. fw_monotonic fw = Some monotonic \<longrightarrow> wholeMs (monotonic w))
     \<and> (\<forall>w ms. fst (fw_mayRun fw w) = Some (AwaitOpen ms) \<longrightarrow> (\<exists>n \<le> bound. ms = jnat n))"

lemma readTries_AwaitOpen:
  "readTries fw runtime delays w = (Some v, w') \<Longrightarrow> \<exists>w. fst (fw_mayRun fw w) = Some v"
proof (induction delays arbitrary: w)
  case Nil
  then show ?case by (auto intro: exI [of _ w])
next
  case (Cons d ds)
  obtain r w1 where m: "fw_mayRun fw w = (r, w1)" by fastforce
  with Cons show ?case
    by (cases r) (auto simp: Let_def split: if_split_asm intro: exI [of _ w])
qed

lemma elapsed_whole:
  assumes "wholeWorld fw registration bound" "pred_option wholeMs startedAt" "a \<le> bound"
  obtains e where "elapsedMs fw startedAt (jnat a) w = jnat e" "a \<le> e"
proof -
  have "\<exists>n::int. \<bar>n\<bar> \<le> 2 ^ 52 \<and> (case (fw_monotonic fw, startedAt) of
      (Some monotonic, Some started) \<Rightarrow> jsub (monotonic w) started | _ \<Rightarrow> Fin 0) = Fin (of_int n)"
  proof (cases "fw_monotonic fw"; cases startedAt)
    fix monotonic started assume m: "fw_monotonic fw = Some monotonic" "startedAt = Some started"
    with assms have "wholeMs (monotonic w)" "wholeMs started" by (simp_all add: wholeWorld_def)
    then obtain i j :: int where "monotonic w = Fin (of_int i)" "\<bar>i\<bar> \<le> 2 ^ 51"
        "started = Fin (of_int j)" "\<bar>j\<bar> \<le> 2 ^ 51"
      unfolding wholeMs_def by blast
    then show ?thesis using m jsub_whole [of i j] by (intro exI [of _ "i - j"]) auto
  qed (auto intro: exI [of _ 0])
  then obtain n :: int where n: "(case (fw_monotonic fw, startedAt) of
      (Some monotonic, Some started) \<Rightarrow> jsub (monotonic w) started | _ \<Rightarrow> Fin 0) = Fin (of_int n)"
    by blast
  have "elapsedMs fw startedAt (jnat a) w = jnat (max a (nat n))"
    unfolding elapsedMs_def n by (simp add: jnat_def max_def) linarith
  then show thesis by (rule that) simp
qed

lemma delay_whole:
  assumes "list_all wholeMs delays" "0 < r" "r \<le> 2 ^ 50"
  obtains d where "pollDelay delays polls (jnat r) = jnat d" "1 \<le> d" "d \<le> r"
proof -
  let ?x = "withDefault (jnat r)
    (if delays = [] then None else elementAt delays (min polls (length delays - 1)))"
  have "\<exists>n::int. ?x = Fin (of_int n)"
  proof (cases "delays = []")
    case True
    then show ?thesis by (auto simp: jnat_def intro: exI [of _ "int r"])
  next
    case False
    let ?e = "delays ! min polls (length delays - 1)"
    have i: "min polls (length delays - 1) < length delays" using False by (cases delays) auto
    then have "wholeMs ?e" using assms(1) by (simp add: list_all_length)
    then show ?thesis using i False by (auto simp: wholeMs_def)
  qed
  then obtain n :: int where n: "?x = Fin (of_int n)" by blast
  have "pollDelay delays polls (jnat r) = jnat (min (nat (max n 1)) r)"
    unfolding pollDelay_def n by (simp add: jnat_def min_def max_def) linarith
  then show thesis by (rule that) (use assms(2) in auto)
qed

lemma pollFence_await:
  assumes "readFence fw registration w = (Some (AwaitOpen ms), w1)" "withDefault ms budget = jnat b"
    and "elapsedMs fw startedAt waitedMs w1 = jnat e"
  shows "pollFence fw registration startedAt polls waitedMs budget w =
    (if \<not> fg_runtime registration \<or> fw_aborted fw w1 \<or> b \<le> e
     then Some (Unacknowledged, polls, waitedMs, w1)
     else
       (let delay = pollDelay
              (withDefault GOAL_ATTEMPT_ACKNOWLEDGEMENT_POLL_DELAYS_MS
                (fg_acknowledgementDelaysMs registration))
              polls (jsub (jnat b) (jnat e));
            w2 = fw_wait fw delay w1
        in if fw_aborted fw w2 then Some (Unacknowledged, polls, waitedMs, w2)
           else pollFence fw registration startedAt (Suc polls) (jadd waitedMs delay) (Some (jnat b)) w2))"
  by (subst pollFence.simps) (simp add: assms Let_def)

lemma pollFence_done:
  "readFence fw registration w = (None, w1) \<Longrightarrow>
     pollFence fw registration startedAt polls waitedMs budget w = Some (Unknown, polls, waitedMs, w1)"
  "readFence fw registration w = (Some MayRun, w1) \<Longrightarrow>
     pollFence fw registration startedAt polls waitedMs budget w = Some (FenceRun, polls, waitedMs, w1)"
  "readFence fw registration w = (Some Refuse, w1) \<Longrightarrow>
     pollFence fw registration startedAt polls waitedMs budget w = Some (FenceRefuse, polls, waitedMs, w1)"
  by (subst pollFence.simps; simp)+

lemma pollFence_ends:
  assumes ww: "wholeWorld fw registration bound" and st: "pred_option wholeMs startedAt"
    and "pred_option (\<lambda>b. \<exists>n \<le> bound. b = jnat n) budget" "polls \<le> a" "a \<le> bound"
  shows "\<exists>r polls' a' w'. pollFence fw registration startedAt polls (jnat a) budget w
      = Some (r, polls', jnat a', w') \<and> polls' \<le> a' \<and> a' \<le> bound
      \<and> (r = FenceRun \<longrightarrow> (\<exists>w. fst (fw_mayRun fw w) = Some MayRun))"
  using assms(3-5)
proof (induction "bound - a" arbitrary: polls a budget w rule: less_induct)
  case less
  obtain v w1 where rf: "readFence fw registration w = (v, w1)" by fastforce
  show ?case
  proof (cases "\<exists>ms. v = Some (AwaitOpen ms)")
    case False
    then consider "v = None" | "v = Some MayRun" | "v = Some Refuse"
      by (metis fence_verdict.exhaust not_Some_eq)
    then show ?thesis
    proof cases
      case 2
      then have "\<exists>w. fst (fw_mayRun fw w) = Some MayRun"
        using readTries_AwaitOpen rf by (fastforce simp: readFence_def)
      with rf less.prems 2 show ?thesis by (simp add: pollFence_done)
    qed (use rf less.prems in \<open>simp_all add: pollFence_done\<close>)
  next
    case True
    then obtain ms where v: "v = Some (AwaitOpen ms)" by blast
    with rf obtain n where n: "ms = jnat n" "n \<le> bound"
      using readTries_AwaitOpen [of fw _ _ w "AwaitOpen ms" w1] ww unfolding readFence_def wholeWorld_def by metis
    obtain b where b: "withDefault ms budget = jnat b" "b \<le> bound"
      using n less.prems(1) by (cases budget) auto
    obtain e where e: "elapsedMs fw startedAt (jnat a) w1 = jnat e" "a \<le> e"
      using elapsed_whole [OF ww st less.prems(3)] .
    let ?delays = "withDefault GOAL_ATTEMPT_ACKNOWLEDGEMENT_POLL_DELAYS_MS
      (fg_acknowledgementDelaysMs registration)"
    show ?thesis
    proof (cases "\<not> fg_runtime registration \<or> fw_aborted fw w1 \<or> b \<le> e")
      case True
      then show ?thesis
        using less.prems by (simp only: pollFence_await [OF rf [unfolded v] b(1) e(1)] if_True) blast
    next
      case False
      then have lt: "a < b" "e < b" using e(2) by auto
      have B: "bound \<le> 2 ^ 50" using ww by (simp add: wholeWorld_def)
      have sub: "jsub (jnat b) (jnat e) = jnat (b - e)"
        using jsub_whole [of "int b" "int e"] lt b(2) B by (simp add: jnat_def of_nat_diff)
      obtain d where d: "pollDelay ?delays polls (jnat (b - e)) = jnat d" "1 \<le> d" "d \<le> b - e"
      proof (rule delay_whole [of ?delays "b - e" polls])
        show "list_all wholeMs ?delays" using ww by (simp add: wholeWorld_def)
      qed (use lt b(2) B in auto)
      have add: "jadd (jnat a) (jnat d) = jnat (a + d)"
        using jadd_whole [of "int a" "int d"] lt d b(2) B by (simp add: jnat_def)
      have later: "bound - (a + d) < bound - a" "Suc polls \<le> a + d" "a + d \<le> bound"
        using d e(2) lt b(2) less.prems by auto
      have "pred_option (\<lambda>b. \<exists>n \<le> bound. b = jnat n) (Some (jnat b))" using b(2) by auto
      from less.hyps [OF later(1) this later(2,3), of "fw_wait fw (jnat d) w1"]
      show ?thesis
        using False less.prems
        by (simp only: pollFence_await [OF rf [unfolded v] b(1) e(1)] if_False Let_def sub d(1) add) auto
    qed
  qed
qed

text \<open>
  The fence always decides: whatever it reads and however the world changes under it, the
  acknowledgement wait ends, after at most as many polls as the budget has milliseconds and with
  no more than the budget waited (a run is never parked on its own fence), and it lets the step
  proceed only on a reading that said so, never on a fault or an expired wait.
\<close>

theorem readSettled_bounded:
  assumes "wholeWorld fw registration bound"
  shows "\<exists>reading polls waited w'. readSettled fw registration w = Some (reading, polls, jnat waited, w')
    \<and> polls \<le> bound \<and> waited \<le> bound
    \<and> (reading = FenceRun \<longrightarrow> (\<exists>w. fst (fw_mayRun fw w) = Some MayRun))"
proof -
  have "pred_option wholeMs (if fg_runtime registration
      then map_option (\<lambda>monotonic. monotonic w) (fw_monotonic fw) else None)"
    using assms by (cases "fw_monotonic fw") (auto simp: wholeWorld_def)
  from pollFence_ends [OF assms this, of None 0 0 w] show ?thesis
    by (fastforce simp: readSettled_def jnat_def)
qed

end
