(* ===== verification/GoalMachine.thy ===== *)
theory GoalMachine
  imports ControllerLaws
begin

section \<open>What a goal promises\<close>

text \<open>
  The specification behind the record: a goal is its status and the number of attempts it has
  opened, out of a maximum. The controller's commits are simulated by this machine and every
  other write of the store leaves it where it is, so its bounds are bounds of the record: a goal
  with \<open>m\<close> attempts at most makes at most \<open>3 * m + 1\<close> transitions.
\<close>

subsection \<open>The abstract machine\<close>

type_synonym goal_position = "goal_run_status \<times> nat"

inductive goal_step :: "nat \<Rightarrow> goal_position \<Rightarrow> goal_position \<Rightarrow> bool" for m where
  first: "0 < m \<Longrightarrow> goal_step m (Pending, 0) (Running, 1)"
| again: "n < m \<Longrightarrow> goal_step m (Retrying, n) (Running, Suc n)"
| evaluate: "0 < n \<Longrightarrow> goal_step m (Running, n) (Evaluating, n)"
| abandon: "0 < n \<Longrightarrow> n < m \<Longrightarrow> goal_step m (Running, n) (Retrying, n)"
| retry: "0 < n \<Longrightarrow> n < m \<Longrightarrow> goal_step m (Evaluating, n) (Retrying, n)"
| succeed: "0 < n \<Longrightarrow> goal_step m (Evaluating, n) (Succeeded, n)"
| finish: "st \<in> {Pending, Running, Evaluating, Retrying} \<Longrightarrow> to \<in> {Exhausted, Failed, Canceled} \<Longrightarrow>
    goal_step m (st, n) (to, n)"

inductive_cases goal_stepE: "goal_step m a b"
inductive_simps goal_step_from [simp]: "goal_step m (st, n) b"

text \<open>How far along a goal is.\<close>

fun position :: "goal_position \<Rightarrow> nat" where
  "position (Pending, n) = 0"
| "position (Running, n) = 3 * n - 2"
| "position (Evaluating, n) = 3 * n - 1"
| "position (Retrying, n) = 3 * n"
| "position (_, n) = 3 * n + 1"

fun wellPlaced :: "nat \<Rightarrow> goal_position \<Rightarrow> bool" where
  "wellPlaced m (Pending, n) \<longleftrightarrow> n = 0"
| "wellPlaced m (Retrying, n) \<longleftrightarrow> 0 < n \<and> n < m"
| "wellPlaced m (Running, n) \<longleftrightarrow> 0 < n \<and> n \<le> m"
| "wellPlaced m (Evaluating, n) \<longleftrightarrow> 0 < n \<and> n \<le> m"
| "wellPlaced m (_, n) \<longleftrightarrow> n \<le> m"

lemma goal_step_advances:
  assumes "goal_step m a b" "wellPlaced m a"
  shows "wellPlaced m b \<and> position a < position b"
  using assms by (cases rule: goal_stepE) auto

lemma goal_steps_bounded:
  assumes "(goal_step m ^^ k) (Pending, 0) b"
  shows "wellPlaced m b \<and> k \<le> position b"
  using assms
proof (induction k arbitrary: b)
  case (Suc k)
  then obtain a where "(goal_step m ^^ k) (Pending, 0) a" "goal_step m a b" by auto
  with Suc.IH goal_step_advances [of m a b] show ?case by fastforce
qed auto

lemma position_limit: "wellPlaced m b \<Longrightarrow> position b \<le> 3 * m + 1"
  by (cases "(m, b)" rule: wellPlaced.cases) auto

subsection \<open>The record's position\<close>

definition maximumOf :: "goal_state \<Rightarrow> nat" where
  "maximumOf s = asNat (JNum (b_maximumAttempts (s_bounds s)))"

definition positionOf :: "goal_state \<Rightarrow> goal_position" where
  "positionOf s = (s_status s, length (s_attempts s))"

text \<open>The transitions of a record are the steps of a run of the machine.\<close>

definition simulated :: "goal_state \<Rightarrow> bool" where
  "simulated s \<longleftrightarrow> (goal_step (maximumOf s) ^^ s_transitionSeq s) (Pending, 0) (positionOf s)"

lemma maximumOf_budget:
  assumes "ok_budget (s_bounds s)"
  shows "b_maximumAttempts (s_bounds s) = jnat (maximumOf s)" "0 < maximumOf s"
    "maximumOf s \<le> GOAL_MAXIMUM_ATTEMPTS"
proof -
  obtain r where r: "b_maximumAttempts (s_bounds s) = Fin r" "r = of_int \<lfloor>r\<rfloor>" "0 < r"
    "r \<le> of_nat GOAL_MAXIMUM_ATTEMPTS"
    using assms by (cases "b_maximumAttempts (s_bounds s)") (auto simp: ok_budget_def jnat_def)
  have z: "0 < \<lfloor>r\<rfloor>" using r(2,3) by linarith
  show n: "b_maximumAttempts (s_bounds s) = jnat (maximumOf s)"
    using r z by (simp add: maximumOf_def jnat_def)
  show "0 < maximumOf s" using r(1) z by (simp add: maximumOf_def)
  show "maximumOf s \<le> GOAL_MAXIMUM_ATTEMPTS" using n r(1,4) by (simp add: jnat_def)
qed

lemma valid_placed:
  assumes "validState p s"
  shows "s_status s = Pending \<Longrightarrow> s_attempts s = []"
    "s_status s = Running \<or> s_status s = Evaluating \<Longrightarrow> s_attempts s \<noteq> []"
    "s_status s = Retrying \<Longrightarrow> s_attempts s \<noteq> [] \<and> length (s_attempts s) < maximumOf s"
proof -
  have r: "isStatusRelationConsistent s" and b: "ok_budget (s_bounds s)"
    using assms by (simp_all add: validState_iff isConsistent_def ok_state_def)
  show "s_attempts s = []" if "s_status s = Pending"
    using r unfolding isStatusRelationConsistent_def that Let_def by (auto split: if_split_asm)
  show "s_attempts s \<noteq> []" if "s_status s = Running \<or> s_status s = Evaluating"
    using r that by (auto simp: isStatusRelationConsistent_def split: if_split_asm)
  show "s_attempts s \<noteq> [] \<and> length (s_attempts s) < maximumOf s" if "s_status s = Retrying"
    using r maximumOf_budget(1) [OF b] unfolding isStatusRelationConsistent_def that Let_def
    by (auto split: if_split_asm option.split_asm)
qed

text \<open>A transition the controller commits is a step of the machine.\<close>

lemma commit_simulated:
  assumes v: "validState p s" and e: "evaluateTransition p rq s = Write n" and pc: "paced rq s n"
  shows "goal_step (maximumOf s) (positionOf s) (positionOf n)"
proof -
  obtain as where n: "n = buildNext p s rq as" "validState p n" "canTransitionGoalRun (s_status s) (rq_to rq)"
    using evaluateTransition_Write [OF e] by blast
  have st: "s_status n = rq_to rq" "maximumOf n = maximumOf s" by (simp_all add: n(1) maximumOf_def)
  have len: "length (s_attempts n) = length (s_attempts s) + (if rq_to rq = Running then 1 else 0)"
    using pc by (simp add: paced_def)
  have m: "0 < maximumOf s"
    using v maximumOf_budget(2) by (simp add: validState_iff ok_state_def)
  note vs = valid_placed [OF v] and vn = valid_placed [OF n(2)]
  show ?thesis
    using n(3) len vs vn(3) m unfolding positionOf_def st canTransitionGoalRun_def
    by (cases "s_status s") (auto simp: st)
qed

end
