(* ===== verification/GoalPorts.thy ===== *)
theory GoalPorts
  imports GoalController
begin

section \<open>Bureau's side of the controller's activities\<close>

text \<open>
  The ports of \<open>packages/bureau/src/goal-ports.ts\<close> the controller reaches the store through.
\<close>

text \<open>What a commit tells the controller; a store that throws fails the activity.\<close>

fun commitTransition :: "transition_result mutation \<Rightarrow> commit_answer option" where
  "commitTransition (Answer (Applied record)) = Some CApplied"
| "commitTransition (Answer (Duplicate record)) = Some CDuplicate"
| "commitTransition (Answer (Stale record)) = Some CStale"
| "commitTransition (Answer (Rejected reason record)) = Some (CRejected reason)"
| "commitTransition Missing = Some CMissing"
| "commitTransition Corrupt = Some CCorrupt"
| "commitTransition Thrown = None"

text \<open>A load of a goal whose record is \<open>s\<close>.\<close>

definition loadGoalState :: "jstr \<Rightarrow> goal_state \<Rightarrow> goal_view option" where
  "loadGoalState goalRunId s =
     (if goalRunId = s_goalRunId s then Some (toGoalWorkflowView s) else None)"

end
