(* ===== verification/GoalSystem.thy ===== *)
theory GoalSystem
  imports GoalMachine GoalPorts
begin

section \<open>A goal, its controllers and its control plane\<close>

text \<open>
  The composed system: one record, any number of controllers of
  \<open>packages/operative/src/durable/goal-workflow.ts\<close> at any point of their loops (a controller that
  was restarted while another still runs is two of them), and the control plane that requests
  cancellations, counts restarts (\<open>packages/bureau/src/goal-recovery.ts\<close>), closes and cleans up.
  Their store operations interleave freely; each is atomic, as \<open>mutate\<close> is.
\<close>

subsection \<open>Steps of the control plane\<close>

definition MAXIMUM_CONTROLLER_RESTARTS :: nat where
  "MAXIMUM_CONTROLLER_RESTARTS = 3"

text \<open>
  A restart is counted by a recovery that read \<open>count\<close> below the maximum, and as a
  compare-and-swap on that count.
\<close>

inductive control_step :: "goal_state \<Rightarrow> goal_state \<Rightarrow> bool" where
  cancel: "ok_marker marker \<Longrightarrow> isIsoTimestamp now \<Longrightarrow> evaluateCancellation marker now s = Write n \<Longrightarrow>
    control_step s (n\<lparr>s_revision := s_revision s + 1\<rparr>)"
| count_restart: "isIsoTimestamp now \<Longrightarrow> count < MAXIMUM_CONTROLLER_RESTARTS \<Longrightarrow>
    evaluateRestart now (Some count) s = Write n \<Longrightarrow> control_step s (n\<lparr>s_revision := s_revision s + 1\<rparr>)"
| close: "isIsoTimestamp now \<Longrightarrow> evaluateClose now s = Write n \<Longrightarrow>
    control_step s (n\<lparr>s_revision := s_revision s + 1\<rparr>)"
| clean_up: "isIsoTimestamp now \<Longrightarrow> evaluateCleanedUp now s = Write n \<Longrightarrow>
    control_step s (n\<lparr>s_revision := s_revision s + 1\<rparr>)"

inductive_cases control_stepE: "control_step s t"

subsection \<open>Steps of a controller\<close>

text \<open>
  What the store does with a commit on record \<open>u\<close>: the result of \<open>mutate\<close> and the record it leaves.
  A write whose every compare-and-swap lost is answered \<open>stale\<close>.
\<close>

inductive store_answers :: "platform \<Rightarrow> transition_request \<Rightarrow> goal_state \<Rightarrow> transition_result mutation \<Rightarrow>
    goal_state \<Rightarrow> bool" for p rq u where
  written: "evaluateTransition p rq u = Write n \<Longrightarrow> v = n\<lparr>s_revision := s_revision u + 1\<rparr> \<Longrightarrow>
    validState p v \<Longrightarrow> store_answers p rq u (Answer (Applied v)) v"
| would_throw: "evaluateTransition p rq u = Write n \<Longrightarrow>
    \<not> validState p (n\<lparr>s_revision := s_revision u + 1\<rparr>) \<Longrightarrow> store_answers p rq u Thrown u"
| contended: "evaluateTransition p rq u = Write n \<Longrightarrow> store_answers p rq u (Answer (Stale u)) u"
| settled: "evaluateTransition p rq u = Done result \<Longrightarrow> store_answers p rq u (Answer result) u"

inductive_cases store_answersE: "store_answers p rq u result v"

text \<open>
  One recorded operation of a controller that is at \<open>code\<close>, last saw the record as \<open>seen\<close> and finds it
  as \<open>u\<close>. The answers are any the ports' contracts allow. A commit whose process dies before its
  answer is recorded (\<open>lost\<close>) is issued again when the history is replayed.
\<close>

inductive controller_step :: "platform \<Rightarrow> goal_state \<Rightarrow> 'a proc \<times> goal_state \<Rightarrow> 'a proc \<times> goal_state \<Rightarrow>
    goal_state \<Rightarrow> bool" for p u where
  load: "loadGoalState g u = Some view \<Longrightarrow> clockOk view now \<Longrightarrow>
    controller_step p u (Load g k, seen) (k (Some view) now, u) u"
| absent: "loadGoalState g u = None \<Longrightarrow> controller_step p u (Load g k, seen) (k None now, seen) u"
| commit: "store_answers p rq u result v \<Longrightarrow> commitTransition result = Some answer \<Longrightarrow>
    controller_step p u (Commit rq k, seen) (k answer, v) v"
| lost: "store_answers p rq u result v \<Longrightarrow> controller_step p u (Commit rq k, seen) (Commit rq k, seen) v"
| start: "startedOk seen rq answer \<Longrightarrow>
    controller_step p u (StartAttempt rq opts k, seen) (k answer, seen) u"
| validate: "resultOk (vq_attemptId rq) result \<Longrightarrow>
    controller_step p u (Validate rq deadline k, seen) (k (Some result), seen) u"
| no_verdict: "controller_step p u (Validate rq deadline k, seen) (k None, seen) u"
| abort: "controller_step p u (AbortAttempt ab k, seen) (k, seen) u"
| signal: "signalOk seen finished \<Longrightarrow>
    controller_step p u (AwaitAttempt name deadline k, seen) (k (Some finished), seen) u"
| no_signal: "controller_step p u (AwaitAttempt name deadline k, seen) (k None, seen) u"
| stage: "controller_step p u (StageFinalizer ab k, seen) (k, seen) u"

inductive_cases controller_stepE: "controller_step p u (code, seen) (code', seen') v"

text \<open>
  A controller in its loop: where its current iteration is, the record it last saw (the record when
  the iteration began, until it reads), the counters it began that iteration with, and how many
  iterations it has completed.
\<close>

record controller =
  c_code :: "iteration proc"
  c_seen :: goal_state
  c_refusals :: nat
  c_idleWakes :: nat
  c_rounds :: nat

definition newController :: "jnum option \<Rightarrow> goal_state \<Rightarrow> controller" where
  "newController startTimeout s =
     \<lparr>c_code = iterate bureauIdentifiers startTimeout (s_goalRunId s) 0 0, c_seen = s,
      c_refusals = 0, c_idleWakes = 0, c_rounds = 0\<rparr>"

type_synonym system = "controller list \<times> goal_state"

inductive system_step :: "platform \<Rightarrow> jnum option \<Rightarrow> system \<Rightarrow> system \<Rightarrow> bool" for p startTimeout where
  control: "control_step u v \<Longrightarrow> system_step p startTimeout (cs, u) (cs, v)"
| spawn: "system_step p startTimeout (cs, u) (cs @ [newController startTimeout u], u)"
| act: "i < length cs \<Longrightarrow> controller_step p u (c_code (cs ! i), c_seen (cs ! i)) (code, seen) v \<Longrightarrow>
    system_step p startTimeout (cs, u) (cs[i := (cs ! i)\<lparr>c_code := code, c_seen := seen\<rparr>], v)"
| again: "i < length cs \<Longrightarrow> c_code (cs ! i) = Return (Again refusals idleWakes) \<Longrightarrow>
    system_step p startTimeout (cs, u)
      (cs[i := (cs ! i)\<lparr>c_code := iterate bureauIdentifiers startTimeout (s_goalRunId u) refusals idleWakes,
         c_seen := u, c_refusals := refusals, c_idleWakes := idleWakes, c_rounds := Suc (c_rounds (cs ! i))\<rparr>], u)"

inductive_cases system_stepE: "system_step p startTimeout a b"

end
