(* ===== verification/SystemLaws.thy ===== *)
theory SystemLaws
  imports GoalSystem GoalCreate
begin

section \<open>The composed system is safe and ends\<close>

text \<open>
  The invariant of \<open>system\<close> and what follows: every reachable record is a run of the abstract machine
  and within its bounds, a controller fails only by its own two counters, one that ends reports
  the record's ending, and none runs more than a bounded number of iterations.
\<close>

subsection \<open>Records of the system\<close>

definition good_record :: "platform \<Rightarrow> goal_state \<Rightarrow> bool" where
  "good_record p s \<longleftrightarrow>
     validState p s \<and> live s \<and> simulated s \<and> s_controllerRestarts s \<le> MAXIMUM_CONTROLLER_RESTARTS"

text \<open>A write that is a step of the abstract machine, or none.\<close>

definition stepsOrStays :: "goal_state \<Rightarrow> goal_state \<Rightarrow> bool" where
  "stepsOrStays s t \<longleftrightarrow>
     goal_step (maximumOf s) (positionOf s) (positionOf t) \<and> s_transitionSeq t = Suc (s_transitionSeq s)
     \<or> positionOf t = positionOf s \<and> s_transitionSeq t = s_transitionSeq s"

definition moves :: "platform \<Rightarrow> goal_state \<Rightarrow> goal_state \<Rightarrow> bool" where
  "moves p s t \<longleftrightarrow> store_write p s t \<and> good_record p t \<and> stepsOrStays s t"

lemma moves_writes: "(moves p)\<^sup>*\<^sup>* s t \<Longrightarrow> (store_write p)\<^sup>*\<^sup>* s t"
  by (rule rtranclp_mono [THEN predicate2D]) (auto simp: moves_def)

lemma moves_good: "(moves p)\<^sup>*\<^sup>* s t \<Longrightarrow> good_record p s \<Longrightarrow> good_record p t"
  by (induction rule: rtranclp_induct) (auto simp: moves_def)

lemma moves_law: "(moves p)\<^sup>*\<^sup>* s t \<Longrightarrow> history_law s t"
  by (rule store.history) (rule moves_writes)

lemma moves_seq: "(moves p)\<^sup>*\<^sup>* s t \<Longrightarrow> s_transitionSeq s \<le> s_transitionSeq t"
  and moves_goal: "(moves p)\<^sup>*\<^sup>* s t \<Longrightarrow> s_goalRunId t = s_goalRunId s"
  and moves_maximum: "(moves p)\<^sup>*\<^sup>* s t \<Longrightarrow> maximumOf t = maximumOf s"
  by (drule moves_law; simp add: history_law_def frozen_def maximumOf_def)+

lemma simulated_bounds:
  assumes "validState p s" "simulated s"
  shows "s_transitionSeq s \<le> 3 * maximumOf s + 1" "length (s_attempts s) \<le> maximumOf s"
    "maximumOf s \<le> GOAL_MAXIMUM_ATTEMPTS"
proof -
  have b: "wellPlaced (maximumOf s) (positionOf s)" "s_transitionSeq s \<le> position (positionOf s)"
    using goal_steps_bounded [OF assms(2) [unfolded simulated_def]] by blast+
  then show "s_transitionSeq s \<le> 3 * maximumOf s + 1" using position_limit le_trans by blast
  show "length (s_attempts s) \<le> maximumOf s"
    using b(1) unfolding positionOf_def by (cases "s_status s") simp_all
  show "maximumOf s \<le> GOAL_MAXIMUM_ATTEMPTS"
    using assms(1) maximumOf_budget(3) by (simp add: validState_iff ok_state_def)
qed

text \<open>The log of a good record always has room for another entry.\<close>

lemma good_room:
  assumes "good_record p s"
  shows "length (s_auditLog s) < GOAL_AUDIT_LOG_MAXIMUM_ENTRIES"
proof -
  have v: "validState p s" "simulated s" "s_controllerRestarts s \<le> MAXIMUM_CONTROLLER_RESTARTS"
    using assms by (simp_all add: good_record_def)
  have "length (s_auditLog s) = s_transitionSeq s + s_controllerRestarts s"
    by (rule auditLog_counted [OF validState_fields(5) [OF v(1)]])
  with simulated_bounds [OF v(1,2)] v(3) show ?thesis
    by (simp add: GOAL_AUDIT_LOG_MAXIMUM_ENTRIES_def GOAL_MAXIMUM_ATTEMPTS_def MAXIMUM_CONTROLLER_RESTARTS_def)
qed

lemma control_write:
  assumes "control_step s t" "validState p s"
  shows "store_write p s t"
  using assms(1)
proof cases
  case (cancel marker now n)
  have "validState p n" using cancel assms(2) by (auto simp: control_writes intro: cancellation_valid)
  then show ?thesis
    unfolding cancel(1) by (intro store_write.cancellation [OF cancel(4)] validState_revision) simp_all
next
  case (count_restart now count n)
  have "validState p n" using count_restart assms(2) by (auto simp: control_writes intro: restart_valid)
  then show ?thesis
    unfolding count_restart(1) by (intro store_write.restart [OF count_restart(4)] validState_revision) simp_all
next
  case (close now n)
  have "validState p n" using close assms(2) by (auto simp: control_writes intro: close_valid)
  then show ?thesis
    unfolding close(1) by (intro store_write.close [OF close(3)] validState_revision) simp_all
next
  case (clean_up now n)
  have "validState p n" using clean_up assms(2) by (auto simp: control_writes intro: cleanedUp_valid)
  then show ?thesis
    unfolding clean_up(1) by (intro store_write.cleanedUp [OF clean_up(3)] validState_revision) simp_all
qed

lemma control_fields:
  assumes "control_step s t"
  shows "s_status t = s_status s" "s_attempts t = s_attempts s" "s_bounds t = s_bounds s"
    "s_transitionSeq t = s_transitionSeq s"
    "s_controllerRestarts t = s_controllerRestarts s \<or> s_controllerRestarts t \<le> MAXIMUM_CONTROLLER_RESTARTS"
  using assms by (cases; auto simp: control_writes withRestart_def Let_def)+

lemma control_moves:
  assumes "control_step s t" "good_record p s"
  shows "moves p s t"
proof -
  have w: "store_write p s t" by (rule control_write [OF assms(1)]) (use assms(2) in \<open>simp add: good_record_def\<close>)
  with store_write_valid [OF w] control_fields [OF assms(1)] assms(2) show ?thesis
    by (auto simp: moves_def good_record_def live_def simulated_def stepsOrStays_def positionOf_def maximumOf_def)
qed

subsection \<open>Commits of the system\<close>

text \<open>What an adopted commit may be answered, and what it says of the record.\<close>

definition commit_law :: "platform \<Rightarrow> transition_request \<Rightarrow> goal_state \<Rightarrow> commit_answer \<Rightarrow> goal_state \<Rightarrow> bool" where
  "commit_law p rq u answer v \<longleftrightarrow>
     (u = v \<or> moves p u v)
     \<and> (answer \<in> {CApplied, CDuplicate} \<and> s_transitionSeq v = rq_seq rq
        \<or> answer \<in> {CStale, CRejected RCancellationRequested})"

lemma adopted_moves:
  assumes e: "evaluateTransition p rq u = Write n" and ad: "adopted p rq u" and g: "good_record p u"
  shows "moves p u (n\<lparr>s_revision := s_revision u + 1\<rparr>)" "validState p (n\<lparr>s_revision := s_revision u + 1\<rparr>)"
    "s_transitionSeq n = rq_seq rq"
proof -
  obtain as where n: "n = buildNext p u rq as" "validState p n" "rq_seq rq = Suc (s_transitionSeq u)"
    using e by (rule evaluateTransition_Write)
  have l: "live n" "paced rq u n" using ad e by (simp_all add: adopted_def)
  have gd: "validState p u" "simulated u" "s_controllerRestarts u \<le> MAXIMUM_CONTROLLER_RESTARTS"
    using g by (simp_all add: good_record_def)
  show v: "validState p (n\<lparr>s_revision := s_revision u + 1\<rparr>)" by (rule validState_revision [OF n(2)]) simp
  show seq: "s_transitionSeq n = rq_seq rq" by (simp add: n(1))
  note step = commit_simulated [OF gd(1) e l(2)]
  have "simulated n"
    using gd(2) step
    unfolding simulated_def seq n(3) by (auto simp: n(1) maximumOf_def)
  then have "good_record p (n\<lparr>s_revision := s_revision u + 1\<rparr>)"
    using v l(1) gd(3)
    by (simp add: good_record_def live_def simulated_def positionOf_def maximumOf_def n(1))
  then show "moves p u (n\<lparr>s_revision := s_revision u + 1\<rparr>)"
    using store_write.transition [OF e v] step seq n(3)
    by (simp add: moves_def stepsOrStays_def positionOf_def)
qed

lemma store_answers_law:
  assumes a: "store_answers p rq u result v" and ad: "adopted p rq u" and g: "good_record p u"
  shows "(u = v \<or> moves p u v) \<and> (\<exists>answer. commitTransition result = Some answer \<and> commit_law p rq u answer v)"
  using a
proof cases
  case (written n)
  then show ?thesis using adopted_moves [OF _ ad g] by (auto simp: commit_law_def)
next
  case (would_throw n)
  then show ?thesis using adopted_moves(2) [OF _ ad g] by simp
next
  case (contended n)
  then show ?thesis by (auto simp: commit_law_def)
next
  case (settled r)
  have room: "length (s_auditLog u) < GOAL_AUDIT_LOG_MAXIMUM_ENTRIES" by (rule good_room [OF g])
  have d: "r = Duplicate u \<Longrightarrow> s_transitionSeq u = rq_seq rq"
    if "validState p u" using settled(3) validState_fields(1) [OF that]
    by (auto simp: evaluateTransition_def Let_def split: if_split_asm sum.split_asm)
  have who: "case r of Duplicate x \<Rightarrow> x = u | _ \<Rightarrow> True" using settled(3)
    by (auto simp: evaluateTransition_def Let_def split: if_split_asm sum.split_asm)
  show ?thesis
    using settled ad room d who g
    by (cases r) (auto simp: adopted_def commit_law_def good_record_def)
qed

subsection \<open>Code that keeps its promises\<close>

text \<open>
  \<open>good p T Q code s\<close>: run against a record last seen as \<open>s\<close> that only moves on as the system moves
  it, the code throws only if \<open>T\<close>, its commits obey \<open>commit_law\<close>, and it returns with \<open>Q\<close>.
\<close>

primrec good :: "platform \<Rightarrow> bool \<Rightarrow> ('a \<Rightarrow> goal_state \<Rightarrow> bool) \<Rightarrow> 'a proc \<Rightarrow> goal_state \<Rightarrow> bool" where
  "good p T Q (Return x) s = (\<forall>u. (moves p)\<^sup>*\<^sup>* s u \<longrightarrow> Q x u)"
| "good p T Q Throw s = T"
| "good p T Q (Load g k) s =
     (\<forall>u now. (moves p)\<^sup>*\<^sup>* s u \<longrightarrow>
        (loadGoalState g u = None \<longrightarrow> good p T Q (k None now) s)
        \<and> (loadGoalState g u \<noteq> None \<longrightarrow> clockOk (toGoalWorkflowView u) now \<longrightarrow>
             good p T Q (k (Some (toGoalWorkflowView u)) now) u))"
| "good p T Q (Commit rq k) s =
     (\<forall>u. (moves p)\<^sup>*\<^sup>* s u \<longrightarrow>
        adopted p rq u \<and> (\<forall>answer v. commit_law p rq u answer v \<longrightarrow> good p T Q (k answer) v))"
| "good p T Q (StartAttempt rq opts k) s = (\<forall>answer. startedOk s rq answer \<longrightarrow> good p T Q (k answer) s)"
| "good p T Q (Validate rq deadline k) s =
     (good p T Q (k None) s \<and> (\<forall>res. resultOk (vq_attemptId rq) res \<longrightarrow> good p T Q (k (Some res)) s))"
| "good p T Q (AbortAttempt rq k) s = good p T Q k s"
| "good p T Q (AwaitAttempt name deadline k) s =
     (good p T Q (k None) s \<and> (\<forall>f. signalOk s f \<longrightarrow> good p T Q (k (Some f)) s))"
| "good p T Q (StageFinalizer rq k) s = good p T Q k s"

lemma good_step:
  assumes st: "controller_step p u (code, s) (code', s') v"
    and g: "good p T Q code s" and m: "(moves p)\<^sup>*\<^sup>* s u" and r: "good_record p s"
  shows "good p T Q code' s' \<and> (moves p)\<^sup>*\<^sup>* s' v \<and> good_record p s' \<and> (u = v \<or> moves p u v)"
proof -
  note gu = moves_good [OF m r]
  have law: "(u = w \<or> moves p u w) \<and> (\<exists>answer. commitTransition result = Some answer \<and> commit_law p rq u answer w)"
    if "code = Commit rq k" "store_answers p rq u result w" for rq k result w
    using store_answers_law [OF that(2) _ gu] g m that(1) by simp
  show ?thesis
    using st
  proof cases
    case (commit rq result answer k)
    then have l: "(u = v \<or> moves p u v) \<and> commit_law p rq u answer v" using law [of rq k result v] by auto
    then have "good p T Q (k answer) v" using g m commit by simp
    moreover have "good_record p v" using l gu by (auto simp: moves_def)
    ultimately show ?thesis using commit l by simp
  next
    case (lost rq result k)
    then have l: "u = v \<or> moves p u v" using law [of rq k result v] by auto
    then have "(moves p)\<^sup>*\<^sup>* s v" using m by (auto intro: rtranclp.rtrancl_into_rtrancl)
    with lost l g r show ?thesis by simp
  qed (use g m r gu in \<open>auto simp: loadGoalState_def split: if_split_asm\<close>)
qed

text \<open>Composition.\<close>

lemma good_bind:
  assumes "good p T' R m s" "T' \<Longrightarrow> T"
    and "\<And>x u. R x u \<Longrightarrow> (moves p)\<^sup>*\<^sup>* s u \<Longrightarrow> good p T Q (f x) u"
  shows "good p T Q (bindProc m f) s"
  using assms
proof (induction m arbitrary: s)
  case (Load g k)
  then show ?case by simp (meson rangeI rtranclp_trans)
next
  case (Commit rq k)
  have ih: "good p T Q (bindProc (k answer) f) v"
    if "(moves p)\<^sup>*\<^sup>* s u" "commit_law p rq u answer v" for u answer v
  proof (rule Commit.IH [OF rangeI])
    have uv: "(moves p)\<^sup>*\<^sup>* s v" using that
      by (auto simp: commit_law_def intro: rtranclp.rtrancl_into_rtrancl)
    show "good p T' R (k answer) v" using Commit.prems(1) that by simp
    show "\<And>x w. R x w \<Longrightarrow> (moves p)\<^sup>*\<^sup>* v w \<Longrightarrow> good p T Q (f x) w"
      using Commit.prems(3) uv rtranclp_trans by metis
  qed (rule Commit.prems(2))
  show ?case using Commit.prems(1) ih by simp
qed (auto)

subsection \<open>Segments\<close>

text \<open>A segment ends right after its commit, with its answer.\<close>

primrec ends_with_commit :: "commit_answer option proc \<Rightarrow> bool" where
  "ends_with_commit (Return x) \<longleftrightarrow> x = None"
| "ends_with_commit Throw \<longleftrightarrow> True"
| "ends_with_commit (Load g k) \<longleftrightarrow> (\<forall>view now. ends_with_commit (k view now))"
| "ends_with_commit (Commit rq k) \<longleftrightarrow> k = (\<lambda>answer. Return (Some answer))"
| "ends_with_commit (StartAttempt rq opts k) \<longleftrightarrow> (\<forall>answer. ends_with_commit (k answer))"
| "ends_with_commit (Validate rq deadline k) \<longleftrightarrow> (\<forall>res. ends_with_commit (k res))"
| "ends_with_commit (AbortAttempt rq k) \<longleftrightarrow> ends_with_commit k"
| "ends_with_commit (AwaitAttempt name deadline k) \<longleftrightarrow> (\<forall>f. ends_with_commit (k f))"
| "ends_with_commit (StageFinalizer rq k) \<longleftrightarrow> ends_with_commit k"

lemma commit_ends: "ends_with_commit (commit request)" "ends_with_commit (finishForced ids view now d)"
  by (simp_all add: commit_def finishForced_def split: option.split)

lemma advance_ends: "ends_with_commit (advance ids startTimeout view now)"
  by (auto simp: advance_def openAttempt_def awaitAttempt_def validate_def Let_def commit_ends
      split: option.split start_answer.split run_finish_decision.split)

definition segment_law :: "goal_state \<Rightarrow> commit_answer option \<Rightarrow> goal_state \<Rightarrow> bool" where
  "segment_law s x u \<longleftrightarrow>
     (case x of
        None \<Rightarrow> True
      | Some answer \<Rightarrow>
          answer \<in> {CApplied, CDuplicate} \<and> s_transitionSeq s < s_transitionSeq u
          \<or> answer \<in> {CStale, CRejected RCancellationRequested})"

text \<open>A sound segment keeps its promises in the system.\<close>

lemma sound_good:
  assumes "sound p seg s" "ends_with_commit seg" "good_record p s" "s_transitionSeq s0 \<le> s_transitionSeq s"
  shows "good p False (segment_law s0) seg s"
  using assms
proof (induction seg arbitrary: s)
  case (Load g k)
  have "good p False (segment_law s0) (k (Some (toGoalWorkflowView u)) now) u"
    if u: "(moves p)\<^sup>*\<^sup>* s u" and c: "clockOk (toGoalWorkflowView u) now" for u now
  proof (rule Load.IH [OF rangeI rangeI])
    have gu: "good_record p u" by (rule moves_good [OF u Load.prems(3)])
    then show "good_record p u" .
    have "rereadable p s u now" using moves_writes [OF u] good_room [OF gu] c by (simp add: rereadable_def)
    then show "sound p (k (Some (toGoalWorkflowView u)) now) u" using Load.prems(1) by simp
    show "ends_with_commit (k (Some (toGoalWorkflowView u)) now)" using Load.prems(2) by simp
    show "s_transitionSeq s0 \<le> s_transitionSeq u" using moves_seq [OF u] Load.prems(4) by simp
  qed
  moreover have "good p False (segment_law s0) (k None now) s" for now
    by (rule Load.IH [OF rangeI rangeI]) (use Load.prems in simp_all)
  ultimately show ?case by simp
next
  case (Commit rq k)
  have "segment_law s0 (Some answer) w"
    if "commit_law p rq u answer v" "(moves p)\<^sup>*\<^sup>* v w" for u answer v w
    using that(1) Commit.prems(1,4) moves_seq [OF that(2)] by (auto simp: commit_law_def segment_law_def)
  with Commit.prems(1,2) moves_writes show ?case by auto
qed (auto simp: segment_law_def)

subsection \<open>One iteration\<close>

text \<open>How many iterations are left to a controller at most.\<close>

definition distance :: "goal_state \<Rightarrow> nat \<Rightarrow> nat \<Rightarrow> nat" where
  "distance s refusals idleWakes =
     (3 * maximumOf s + 1 - s_transitionSeq s) * (MAXIMUM_CONSECUTIVE_REFUSALS * MAXIMUM_CONSECUTIVE_IDLE_WAKES)
     + (MAXIMUM_CONSECUTIVE_REFUSALS - Suc refusals) * MAXIMUM_CONSECUTIVE_IDLE_WAKES
     + (MAXIMUM_CONSECUTIVE_IDLE_WAKES - Suc idleWakes)"

definition counters_ok :: "nat \<Rightarrow> nat \<Rightarrow> bool" where
  "counters_ok refusals idleWakes \<longleftrightarrow>
     refusals < MAXIMUM_CONSECUTIVE_REFUSALS \<and> idleWakes < MAXIMUM_CONSECUTIVE_IDLE_WAKES"

lemmas counter_defs = distance_def counters_ok_def MAXIMUM_CONSECUTIVE_REFUSALS_def
  MAXIMUM_CONSECUTIVE_IDLE_WAKES_def

lemma distance_idle: "counters_ok r (Suc i) \<Longrightarrow> distance s r (Suc i) < distance s r i"
  and distance_refused: "counters_ok (Suc r) i \<Longrightarrow> distance s (Suc r) 0 < distance s r i"
  unfolding counter_defs by arith+

lemma distance_committed:
  assumes "s_transitionSeq s < s_transitionSeq t" "s_transitionSeq t \<le> 3 * maximumOf t + 1"
    "maximumOf t = maximumOf s" "counters_ok r i"
  shows "distance t 0 0 < distance s r i"
proof -
  define a b where "a = 3 * maximumOf s + 1 - s_transitionSeq s" and "b = 3 * maximumOf s + 1 - s_transitionSeq t"
  have "Suc b \<le> a" using assms(1-3) by (simp add: a_def b_def)
  then show ?thesis unfolding counter_defs assms(3) a_def [symmetric] b_def [symmetric] by arith
qed

lemma distance_mono: "(moves p)\<^sup>*\<^sup>* s t \<Longrightarrow> distance t r i \<le> distance s r i"
  using moves_seq [of p s t] moves_maximum [of p s t] by (simp add: distance_def mult_le_mono diff_le_mono2)

text \<open>A result that is the record's own ending.\<close>

fun reported :: "workflow_result \<Rightarrow> goal_state \<Rightarrow> bool" where
  "reported (TerminalResult g status reason detail seq) s \<longleftrightarrow>
     g = s_goalRunId s \<and> isTerminalStatus status \<and> s_status s = status \<and> s_terminalReason s = Some reason
     \<and> s_failureDetail s = detail \<and> s_transitionSeq s = seq"
| "reported (RecordUnavailable g) s \<longleftrightarrow> False"

lemma reported_stays:
  assumes "reported result s" "(moves p)\<^sup>*\<^sup>* s t"
  shows "reported result t"
proof (cases result)
  case (TerminalResult g status reason detail seq)
  with assms(1) have "isTerminalStatus (s_status s)" by auto
  then have "sameEnding s t" using moves_law [OF assms(2)] by (simp add: history_law_def)
  with TerminalResult assms(1) moves_goal [OF assms(2)] show ?thesis by (simp add: sameEnding_def)
qed (use assms(1) in simp)

definition iteration_law :: "nat \<Rightarrow> iteration \<Rightarrow> goal_state \<Rightarrow> bool" where
  "iteration_law n x u \<longleftrightarrow>
     (case x of
        Finished result \<Rightarrow> reported result u
      | Again refusals idleWakes \<Rightarrow>
          counters_ok refusals idleWakes \<and> distance u refusals idleWakes < n)"

lemma view_terminal [simp]:
  "w_terminalReason (toGoalWorkflowView s) = s_terminalReason s"
  "w_failureDetail (toGoalWorkflowView s) = s_failureDetail s"
  by (simp_all add: toGoalWorkflowView_def)

lemma valid_reason: "validState p s \<Longrightarrow> isTerminalStatus (s_status s) \<Longrightarrow> s_terminalReason s \<noteq> None"
  by (auto simp: validState_iff isConsistent_def isTerminalPairing_def split: if_split_asm)

text \<open>What the loop makes of a segment's end.\<close>

lemma committed_law:
  assumes x: "segment_law s x u" and m: "(moves p)\<^sup>*\<^sup>* s u" and g: "good_record p s"
    and c: "counters_ok r i" and n: "distance s r i \<le> n"
  shows "good p (\<not> (counters_ok (Suc r) i \<and> counters_ok r (Suc i))) (iteration_law n)
    (afterSegment goal r i x) u"
proof -
  have go: "good p T (iteration_law n) (Return (Again r' i')) u"
    if "counters_ok r' i'" "distance u r' i' < distance s r i" for r' i' T
    using that n distance_mono [of p u _ r' i'] by (fastforce simp: iteration_law_def)
  have d: "distance u r' i' \<le> distance s r' i'" for r' i' by (rule distance_mono [OF m])
  show ?thesis
  proof (cases x)
    case None
    show ?thesis
    proof (cases "counters_ok r (Suc i)")
      case True
      then show ?thesis
        using go [OF True] d [of r "Suc i"] distance_idle [OF True, of s] None
        by (simp add: counters_ok_def afterSegment_def del: good.simps(1))
    next
      case False
      then show ?thesis using None c by (auto simp: counters_ok_def afterSegment_def)
    qed
  next
    case (Some answer)
    then consider "answer \<in> {CApplied, CDuplicate}" "s_transitionSeq s < s_transitionSeq u"
      | "answer \<in> {CStale, CRejected RCancellationRequested}"
      using x by (auto simp: segment_law_def)
    then show ?thesis
    proof cases
      case 1
      have gu: "validState p u" "simulated u" using moves_good [OF m g] by (simp_all add: good_record_def)
      have "distance u 0 0 < distance s r i"
        using distance_committed [OF 1(2) simulated_bounds(1) [OF gu] moves_maximum [OF m] c] .
      then show ?thesis
        using go [of 0 0] 1(1) Some by (auto simp: Let_def counter_defs afterSegment_def simp del: good.simps(1))
    next
      case 2
      then have a: "isRefusal answer" "answer \<noteq> CMissing" "answer \<noteq> CCorrupt"
        "(case answer of CRejected reason \<Rightarrow> reason \<notin> set ADOPTABLE_REJECTIONS | _ \<Rightarrow> False) = False"
        by (auto simp: ADOPTABLE_REJECTIONS_def)
      show ?thesis
      proof (cases "counters_ok (Suc r) i")
        case True
        then have "counters_ok (Suc r) 0" by (simp add: counter_defs)
        then show ?thesis
          using go [of "Suc r" 0] d [of "Suc r" 0] distance_refused [OF True, of s] Some a
          by (simp add: counters_ok_def afterSegment_def del: good.simps(1))
      next
        case False
        then show ?thesis using Some a c by (auto simp: counters_ok_def afterSegment_def)
      qed
    qed
  qed
qed

lemma iterate_good:
  assumes g: "good_record p s" and h: "hexDigests p" and c: "counters_ok r i" and n: "distance s r i \<le> n"
  shows "good p (\<not> (counters_ok (Suc r) i \<and> counters_ok r (Suc i))) (iteration_law n)
    (iterate bureauIdentifiers startTimeout (s_goalRunId s) r i) s"
proof -
  let ?T = "\<not> (counters_ok (Suc r) i \<and> counters_ok r (Suc i))"
  have ended: "\<exists>res. terminalResult (toGoalWorkflowView u) = Some res
      \<and> good p ?T (iteration_law n) (Return (Finished res)) u"
    if gu: "good_record p u" and t: "isTerminalStatus (s_status u)" for u
  proof -
    have "validState p u" using gu by (simp add: good_record_def)
    from valid_reason [OF this t] obtain reason where r: "s_terminalReason u = Some reason" by blast
    let ?res = "TerminalResult (s_goalRunId u) (s_status u) reason (s_failureDetail u) (s_transitionSeq u)"
    have "reported ?res u" using r t by simp
    then have "good p ?T (iteration_law n) (Return (Finished ?res)) u"
      using reported_stays by (simp add: iteration_law_def del: reported.simps)
    with r show ?thesis by (simp add: terminalResult_def)
  qed
  have more: "good p ?T (iteration_law n)
      (bindProc (advance bureauIdentifiers startTimeout (toGoalWorkflowView u) now)
        (afterSegment goal r i)) u"
    if m: "(moves p)\<^sup>*\<^sup>* s u" and cl: "clockOk (toGoalWorkflowView u) now" and t: "\<not> isTerminalStatus (s_status u)"
    for u now goal
  proof (rule good_bind)
    have gu: "good_record p u" by (rule moves_good [OF m g])
    show "good p False (segment_law u) (advance bureauIdentifiers startTimeout (toGoalWorkflowView u) now) u"
      by (rule sound_good [OF segment_sound advance_ends gu])
        (use gu good_room [OF gu] h t cl in \<open>simp_all add: good_record_def\<close>)
  qed (use committed_law [OF _ _ moves_good [OF m g] c le_trans [OF distance_mono [OF m] n]] in simp_all)
  have l: "loadGoalState (s_goalRunId s) u = Some (toGoalWorkflowView u)" if "(moves p)\<^sup>*\<^sup>* s u" for u
    using moves_goal [OF that] by (simp add: loadGoalState_def)
  show ?thesis
    unfolding iterate_def good.simps(3)
  proof (intro allI impI conjI, goal_cases)
    case (1 u now)
    with l show ?case by simp
  next
    case (2 u now)
    have gu: "good_record p u" by (rule moves_good [OF 2(1) g])
    show ?case
    proof (cases "isTerminalStatus (s_status u)")
      case True
      obtain res where "terminalResult (toGoalWorkflowView u) = Some res"
        "good p ?T (iteration_law n) (Return (Finished res)) u" using ended [OF gu True] by blast
      with True show ?thesis by simp
    next
      case False
      with more [OF 2(1,3) False, of "s_goalRunId s"] show ?thesis by simp
    qed
  qed
qed

subsection \<open>Reachable systems\<close>

definition iterationLimit :: "nat \<Rightarrow> nat" where
  "iterationLimit m =
     (3 * m + 2) * (MAXIMUM_CONSECUTIVE_REFUSALS * MAXIMUM_CONSECUTIVE_IDLE_WAKES) - 1"

text \<open>
  Where a controller may be when the record is \<open>u\<close>: it keeps its promises, and the iterations it
  has completed and those it has left are within the limit.
\<close>

definition controller_ok :: "platform \<Rightarrow> goal_state \<Rightarrow> controller \<Rightarrow> bool" where
  "controller_ok p u c \<longleftrightarrow>
     good_record p (c_seen c) \<and> (moves p)\<^sup>*\<^sup>* (c_seen c) u \<and> counters_ok (c_refusals c) (c_idleWakes c)
     \<and> (\<exists>n. n + c_rounds c \<le> iterationLimit (maximumOf u)
          \<and> good p (\<not> (counters_ok (Suc (c_refusals c)) (c_idleWakes c)
               \<and> counters_ok (c_refusals c) (Suc (c_idleWakes c))))
              (iteration_law n) (c_code c) (c_seen c))"

definition system_ok :: "platform \<Rightarrow> system \<Rightarrow> bool" where
  "system_ok p a \<longleftrightarrow> good_record p (snd a) \<and> (\<forall>c \<in> set (fst a). controller_ok p (snd a) c)"

lemma controller_ok_moved:
  assumes "controller_ok p u c" "u = v \<or> moves p u v"
  shows "controller_ok p v c"
proof -
  have m: "(moves p)\<^sup>*\<^sup>* u v" using assms(2) by auto
  then show ?thesis
    using assms(1) moves_maximum [OF m] rtranclp_trans [of "moves p" "c_seen c" u v]
    by (simp add: controller_ok_def)
qed

lemma distance_limit: "distance s r i \<le> iterationLimit (maximumOf s)"
proof -
  define a where "a = 3 * maximumOf s"
  have "(Suc a - s_transitionSeq s) * 125 \<le> Suc a * 125" by (intro mult_le_mono) simp_all
  then show ?thesis unfolding iterationLimit_def counter_defs a_def [symmetric] by simp
qed

lemma new_controller_ok:
  assumes "good_record p u" "hexDigests p"
  shows "controller_ok p u (newController startTimeout u)"
proof -
  have c: "counters_ok 0 0" by (simp add: counter_defs)
  show ?thesis
    using iterate_good [OF assms c order_refl] assms(1) c distance_limit [of u 0 0]
    unfolding controller_ok_def newController_def by (auto simp del: good.simps)
qed

lemma ok_update:
  "\<lbrakk>\<forall>c \<in> set cs. controller_ok p v c; controller_ok p v c'\<rbrakk> \<Longrightarrow> \<forall>c \<in> set (cs[i := c']). controller_ok p v c"
  using set_update_subset_insert by fast

lemma system_step_ok:
  assumes "system_step p startTimeout a b" "system_ok p a" "hexDigests p"
  shows "system_ok p b \<and> (snd a = snd b \<or> moves p (snd a) (snd b))"
  using assms(1)
proof cases
  case (control u v cs)
  then have "moves p u v" using control_moves assms(2) by (simp add: system_ok_def)
  with control assms(2) controller_ok_moved show ?thesis
    by (auto simp: system_ok_def moves_def)
next
  case (spawn cs u)
  then show ?thesis using assms(2,3) new_controller_ok by (auto simp: system_ok_def)
next
  case (act i cs u code seen v)
  let ?c = "cs ! i"
  have ok: "controller_ok p u ?c" "good_record p u" using assms(2) act by (auto simp: system_ok_def)
  then obtain n where n: "n + c_rounds ?c \<le> iterationLimit (maximumOf u)"
    "good p (\<not> (counters_ok (Suc (c_refusals ?c)) (c_idleWakes ?c) \<and> counters_ok (c_refusals ?c) (Suc (c_idleWakes ?c))))
      (iteration_law n) (c_code ?c) (c_seen ?c)" by (auto simp: controller_ok_def)
  have m: "(moves p)\<^sup>*\<^sup>* (c_seen ?c) u" "good_record p (c_seen ?c)" "counters_ok (c_refusals ?c) (c_idleWakes ?c)"
    using ok(1) by (simp_all add: controller_ok_def)
  note st = good_step [OF act(4) n(2) m(1,2)]
  then have mv: "u = v \<or> moves p u v" "maximumOf v = maximumOf u" using moves_maximum [of p u v] by auto
  have gv: "good_record p v" using ok(2) mv(1) by (auto simp: moves_def)
  have "controller_ok p v (?c\<lparr>c_code := code, c_seen := seen\<rparr>)"
    unfolding controller_ok_def using st n(1) m(3) mv(2) by auto
  moreover have "\<forall>c \<in> set cs. controller_ok p v c"
    using assms(2) controller_ok_moved [OF _ mv(1)] act(1) by (simp add: system_ok_def)
  ultimately have "\<forall>c \<in> set (cs[i := ?c\<lparr>c_code := code, c_seen := seen\<rparr>]). controller_ok p v c"
    by (intro ok_update)
  with gv mv(1) show ?thesis by (simp add: act(1,2) system_ok_def)
next
  case (again i cs refusals idleWakes u)
  let ?c = "cs ! i"
  have ok: "controller_ok p u ?c" "good_record p u" using assms(2) again by (auto simp: system_ok_def)
  then obtain n where n: "n + c_rounds ?c \<le> iterationLimit (maximumOf u)"
    "counters_ok refusals idleWakes" "distance u refusals idleWakes < n"
    using again(4) by (auto simp: controller_ok_def iteration_law_def)
  let ?d = "?c\<lparr>c_code := iterate bureauIdentifiers startTimeout (s_goalRunId u) refusals idleWakes,
    c_seen := u, c_refusals := refusals, c_idleWakes := idleWakes, c_rounds := Suc (c_rounds ?c)\<rparr>"
  have "controller_ok p u ?d"
    using iterate_good [OF ok(2) assms(3) n(2) order_refl] ok(2) n
    unfolding controller_ok_def by (auto intro!: exI [of _ "distance u refusals idleWakes"] simp del: good.simps)
  moreover have "\<forall>c \<in> set cs. controller_ok p u c" using assms(2) again(1) by (simp add: system_ok_def)
  ultimately have "\<forall>c \<in> set (cs[i := ?d]). controller_ok p u c" by (intro ok_update)
  with ok(2) show ?thesis by (simp add: again(1,2) system_ok_def)
qed

text \<open>The systems a created goal can be in.\<close>

definition reachable :: "platform \<Rightarrow> create_input \<Rightarrow> jnum option \<Rightarrow> goal_state \<Rightarrow> system \<Rightarrow> bool" where
  "reachable p input startTimeout s a \<longleftrightarrow>
     createGoalState p input = Inr s \<and> \<not> artifactOk p JUndef \<and> hexDigests p
     \<and> (system_step p startTimeout)\<^sup>*\<^sup>* ([], s) a"

lemma reachable_ok:
  assumes "reachable p input startTimeout s a"
  shows "system_ok p a" "(moves p)\<^sup>*\<^sup>* s (snd a)" "hexDigests p"
proof -
  have c: "createGoalState p input = Inr s" "\<not> artifactOk p JUndef" and h: "hexDigests p"
    and r: "(system_step p startTimeout)\<^sup>*\<^sup>* ([], s) a"
    using assms by (simp_all add: reachable_def)
  note f = created_fresh [OF c]
  have "good_record p s"
    using f by (simp add: good_record_def live_def simulated_def positionOf_def)
  with r h have "system_ok p a \<and> (moves p)\<^sup>*\<^sup>* s (snd a)"
  proof (induction rule: rtranclp_induct)
    case base
    then show ?case by (simp add: system_ok_def)
  next
    case (step a b)
    with system_step_ok [OF step(2)] show ?case by (auto intro: rtranclp.rtrancl_into_rtrancl)
  qed
  with h show "system_ok p a" "(moves p)\<^sup>*\<^sup>* s (snd a)" "hexDigests p" by simp_all
qed

subsection \<open>What holds of every reachable system\<close>

text \<open>
  \<^bold>\<open>C3\<close>: the system refines the abstract machine: whatever its controllers and its control plane did,
  the transitions of a created goal are a run of the machine from \<open>(pending, 0)\<close> to the record's
  own status and attempt count, and any next step of the system either is one step of the
  machine, counted as one transition, or leaves status, attempts and transition count alone.
\<close>

theorem system_refines:
  assumes "reachable p input startTimeout s (cs, u)" "system_step p startTimeout (cs, u) (ds, v)"
  shows "(goal_step (maximumOf s) ^^ s_transitionSeq u) (Pending, 0) (positionOf u) \<and> stepsOrStays u v"
proof -
  note r = reachable_ok [OF assms(1)]
  have "good_record p u" using r(1) by (simp add: system_ok_def)
  then have "simulated u" by (simp add: good_record_def)
  moreover have "u = v \<or> moves p u v" using system_step_ok [OF assms(2) r(1,3)] by simp
  ultimately show ?thesis
    using moves_maximum [OF r(2)] by (auto simp: simulated_def moves_def stepsOrStays_def)
qed

text \<open>
  \<^bold>\<open>C5\<close>: everything a goal does is bounded by its configured number of attempts, whatever happens to
  it: it opens at most that many attempts, makes at most three transitions per attempt and one
  more, and its audit log, restarts included, never fills, so that the store never refuses a
  transition for want of room.
\<close>

theorem system_bounds:
  assumes "reachable p input startTimeout s (cs, u)"
  shows "length (s_attempts u) \<le> maximumOf s \<and> maximumOf s \<le> GOAL_MAXIMUM_ATTEMPTS
    \<and> s_transitionSeq u \<le> 3 * maximumOf s + 1
    \<and> length (s_auditLog u) = s_transitionSeq u + s_controllerRestarts u
    \<and> s_controllerRestarts u \<le> MAXIMUM_CONTROLLER_RESTARTS
    \<and> length (s_auditLog u) < GOAL_AUDIT_LOG_MAXIMUM_ENTRIES"
proof -
  note r = reachable_ok [OF assms]
  have g: "good_record p u" using r(1) by (simp add: system_ok_def)
  then have v: "validState p u" "simulated u" "s_controllerRestarts u \<le> MAXIMUM_CONTROLLER_RESTARTS"
    by (simp_all add: good_record_def)
  have "length (s_auditLog u) = s_transitionSeq u + s_controllerRestarts u"
    by (rule auditLog_counted [OF validState_fields(5) [OF v(1)]])
  with simulated_bounds [OF v(1,2)] good_room [OF g] v(3) moves_maximum [OF r(2)] show ?thesis by simp
qed



subsection \<open>A cancellation can always complete\<close>

lemma act_last:
  assumes "controller_step p u (c_code c, c_seen c) (code, seen) v"
  shows "system_step p startTimeout (cs @ [c], u) (cs @ [c\<lparr>c_code := code, c_seen := seen\<rparr>], v)"
  using system_step.act [of "length cs" "cs @ [c]" p u code seen v startTimeout] assms by simp

lemma again_last:
  assumes "c_code c = Return (Again r i)"
  shows "system_step p startTimeout (cs @ [c], u)
    (cs @ [c\<lparr>c_code := iterate bureauIdentifiers startTimeout (s_goalRunId u) r i, c_seen := u,
       c_refusals := r, c_idleWakes := i, c_rounds := Suc (c_rounds c)\<rparr>], u)"
  using system_step.again [of "length cs" "cs @ [c]" r i p startTimeout u] assms by simp

lemma clock_kept:
  assumes "frozen s t"
  shows "clockOk (toGoalWorkflowView t) now = clockOk (toGoalWorkflowView s) now"
proof -
  have w: "w_bounds (toGoalWorkflowView t) = w_bounds (toGoalWorkflowView s)"
    "w_createdAt (toGoalWorkflowView t) = w_createdAt (toGoalWorkflowView s)"
    using assms by (simp_all add: frozen_def toGoalWorkflowView_def)
  show ?thesis unfolding clockOk_def elapsedMilliseconds_def creationMilliseconds_def w ..
qed

text \<open>The forced finish of a canceled record.\<close>

lemma cancel_written:
  assumes r: "ready p u (toGoalWorkflowView u) now" and c: "s_cancellation u \<noteq> None"
  obtains rq n where "buildGoalForcedFinish (toGoalWorkflowView u) bureauIdentifiers now (decideCancellation :: json goal_decision) = Some rq"
    "evaluateTransition p rq u = Write n" "validState p (n\<lparr>s_revision := s_revision u + 1\<rparr>)"
    "s_status n = Canceled" "s_goalRunId n = s_goalRunId u" "frozen u n"
proof -
  have "acceptedBy p (buildGoalForcedFinish (toGoalWorkflowView u) bureauIdentifiers now (decideCancellation :: json goal_decision)) u"
    by (rule forced_accepted [OF r]) (use c in \<open>simp add: forcedOk_def decideCancellation_def\<close>)
  then obtain rq n where rq: "buildGoalForcedFinish (toGoalWorkflowView u) bureauIdentifiers now (decideCancellation :: json goal_decision) = Some rq"
    and e: "evaluateTransition p rq u = Write n" by (auto simp: acceptedBy_def)
  obtain as where n: "n = buildNext p u rq as" "validState p n" "s_cancellation u = None \<or> rq_to rq = Canceled"
    using e by (rule evaluateTransition_Write)
  have "validState p (n\<lparr>s_revision := s_revision u + 1\<rparr>)" by (rule validState_revision [OF n(2)]) simp
  moreover have "rq_to rq = Canceled" using c n(3) by auto
  ultimately show thesis using that [OF rq e] by (simp add: n(1) frozen_def)
qed

lemma ended_view:
  assumes "validState p v" "s_status v = Canceled"
  obtains reason where "terminalResult (toGoalWorkflowView v)
      = Some (TerminalResult (s_goalRunId v) Canceled reason (s_failureDetail v) (s_transitionSeq v))"
  using valid_reason [OF assms(1)] assms(2) by (auto simp: terminalResult_def)

text \<open>What an iteration reads first.\<close>

lemma iterate_reads:
  assumes "clockOk (toGoalWorkflowView u) now"
  shows "\<not> isTerminalStatus (s_status u) \<Longrightarrow>
      controller_step p u (iterate ids startTimeout (s_goalRunId u) r i, seen)
        (StageFinalizer (abortRequestFor (toGoalWorkflowView u) ids)
          (bindProc (advance ids startTimeout (toGoalWorkflowView u) now) (afterSegment (s_goalRunId u) r i)), u) u"
    "isTerminalStatus (s_status u) \<Longrightarrow> terminalResult (toGoalWorkflowView u) = Some result \<Longrightarrow>
      controller_step p u (iterate ids startTimeout (s_goalRunId u) r i, seen) (Return (Finished result), u) u"
proof -
  have "\<exists>k. iterate ids startTimeout (s_goalRunId u) r i = Load (s_goalRunId u) k
      \<and> (\<not> isTerminalStatus (s_status u) \<longrightarrow> k (Some (toGoalWorkflowView u)) now
         = StageFinalizer (abortRequestFor (toGoalWorkflowView u) ids)
            (bindProc (advance ids startTimeout (toGoalWorkflowView u) now) (afterSegment (s_goalRunId u) r i)))
      \<and> (isTerminalStatus (s_status u) \<longrightarrow> k (Some (toGoalWorkflowView u)) now
         = (case terminalResult (toGoalWorkflowView u) of None \<Rightarrow> Throw | Some r \<Rightarrow> Return (Finished r)))"
    unfolding iterate_def by (intro exI conjI, rule refl) simp_all
  then obtain k where k: "iterate ids startTimeout (s_goalRunId u) r i = Load (s_goalRunId u) k"
    "\<not> isTerminalStatus (s_status u) \<Longrightarrow> k (Some (toGoalWorkflowView u)) now
       = StageFinalizer (abortRequestFor (toGoalWorkflowView u) ids)
          (bindProc (advance ids startTimeout (toGoalWorkflowView u) now) (afterSegment (s_goalRunId u) r i))"
    "isTerminalStatus (s_status u) \<Longrightarrow> k (Some (toGoalWorkflowView u)) now
       = (case terminalResult (toGoalWorkflowView u) of None \<Rightarrow> Throw | Some r \<Rightarrow> Return (Finished r))"
    by blast
  have st: "controller_step p u (Load (s_goalRunId u) k, seen) (k (Some (toGoalWorkflowView u)) now, u) u"
    by (rule controller_step.load) (simp_all add: loadGoalState_def assms)
  show "\<not> isTerminalStatus (s_status u) \<Longrightarrow>
      controller_step p u (iterate ids startTimeout (s_goalRunId u) r i, seen)
        (StageFinalizer (abortRequestFor (toGoalWorkflowView u) ids)
          (bindProc (advance ids startTimeout (toGoalWorkflowView u) now) (afterSegment (s_goalRunId u) r i)), u) u"
    "isTerminalStatus (s_status u) \<Longrightarrow> terminalResult (toGoalWorkflowView u) = Some result \<Longrightarrow>
      controller_step p u (iterate ids startTimeout (s_goalRunId u) r i, seen) (Return (Finished result), u) u"
    using st k by simp_all
qed


end
