(* ===== verification/Witnesses.thy ===== *)
theory Witnesses
  imports Samples GoalFence SystemLaws
begin

section \<open>The properties at a concrete goal\<close>

text \<open>
  Each property with hypotheses, applied to the goal of \<open>Samples\<close> or to another concrete input
  at which they hold.
\<close>

subsection \<open>The store\<close>

definition cancelled :: goal_state where
  "cancelled = sample\<lparr>s_cancellation := Some sampleMarker, s_updatedAt := sampleTime\<rparr>"

lemma cancelled_evaluated: "evaluateCancellation sampleMarker sampleTime sample = Write cancelled"
  by (simp add: evaluateCancellation_def cancelled_def)

lemma cancelled_valid: "validState samplePlatform (cancelled\<lparr>s_revision := 2\<rparr>)"
  unfolding cancelled_def
  by (rule validState_revision [OF cancellation_valid])
    (simp_all add: sample_valid sample_marker_ok sampleTime_iso)

lemma cancelled_write: "store_write samplePlatform sample (cancelled\<lparr>s_revision := s_revision sample + 1\<rparr>)"
  by (rule store_write.intros(2) [OF cancelled_evaluated]) (use cancelled_valid in \<open>simp add: numeral_2_eq_2\<close>)

theorem store_history_witness:
  "s_revision (cancelled\<lparr>s_revision := 2\<rparr>) = 1 + 1 \<and> frozen sample (cancelled\<lparr>s_revision := 2\<rparr>)"
proof -
  have "(store_write samplePlatform ^^ 1) sample (cancelled\<lparr>s_revision := 2\<rparr>)"
    using cancelled_write by (simp add: relpowp_1 del: relpowp.simps) (simp add: numeral_2_eq_2)
  from store_history [OF this] show ?thesis by simp
qed

theorem writes_never_invalid_witness:
  "evaluateCancellation sampleMarker sampleTime sample = Write cancelled
   \<and> validState samplePlatform (cancelled\<lparr>s_revision := s_revision sample + 1\<rparr>)"
  using writes_never_invalid [OF sample_valid sampleTime_iso sample_marker_ok disjI2 [OF disjI1 [OF cancelled_evaluated]]]
    cancelled_evaluated by simp

theorem transition_exactly_once_witness:
  "\<exists>request opened. evaluateTransition samplePlatform request sample = Write opened
     \<and> (\<exists>t. evaluateTransition samplePlatform request (opened\<lparr>s_revision := 2\<rparr>) = Done (Duplicate t))"
proof -
  obtain request opened where o: "evaluateTransition samplePlatform request sample = Write opened"
    "validState samplePlatform (opened\<lparr>s_revision := s_revision sample + 1\<rparr>)"
    "rq_seq request = 1" "s_transitionSeq opened = 1"
    using sample_opened by (metis sample_pending(7) one_add_one)
  have "evaluateTransition samplePlatform request (opened\<lparr>s_revision := 2\<rparr>)
      = Done (Duplicate (opened\<lparr>s_revision := 2\<rparr>))"
    using transition_exactly_once [OF o(1,2) rtranclp.rtrancl_refl] o(3,4) by (simp add: numeral_2_eq_2)
  with o(1) show ?thesis by blast
qed

theorem mutate_atomic_witness:
  "\<exists>result h'. control samplePlatform memoryStore (\<lambda>_ h. h) (JStr (lit ''g''))
       (evaluateCancellation sampleMarker sampleTime) (\<lambda>_. None) = (result, h')
     \<and> (result = Missing \<longrightarrow> interfered (\<lambda>_ h. h) (\<lambda>_. None) h')"
proof -
  obtain result h' where m: "mutate samplePlatform memoryStore (\<lambda>_ h. h) (JStr (lit ''g''))
       (evaluateCancellation sampleMarker sampleTime) ControlStale Updated (\<lambda>_. None) = (result, h')"
    by fastforce
  from mutate_atomic [OF memoryStore_cas m] m show ?thesis by (auto simp: control_def)
qed

theorem recordKey_roundtrip_witness:
  "\<exists>key. goalRecordKey (lit ''g'') = Some key \<and> decodeGoalRunIdFromKey key = lit ''g''"
proof -
  obtain key where "goalRecordKey (lit ''g'') = Some key"
    using recordKey_roundtrip [of "lit ''g''"] sample_texts(1) by blast
  then show ?thesis using recordKey_roundtrip [of "lit ''g''" key] by blast
qed

theorem audit_replay_complete_witness:
  "\<exists>s. s_auditLog s \<noteq> [] \<and> isAuditLogConsistent samplePlatform s
     \<and> distinct (map draftKey (projectGoalObservation (Created s) @ projectGoalObservation (Replayed s)))"
proof -
  obtain request opened where "validState samplePlatform (opened\<lparr>s_revision := 2\<rparr>)" "s_auditLog opened \<noteq> []"
    using sample_opened by blast
  then have o: "validState samplePlatform (opened\<lparr>s_revision := 2\<rparr>)"
    "s_auditLog (opened\<lparr>s_revision := 2\<rparr>) \<noteq> []" by simp_all
  then have "isAuditLogConsistent samplePlatform (opened\<lparr>s_revision := 2\<rparr>)"
    by (simp only: validState_iff isConsistent_def)
  with audit_replay_complete [OF this] o(2) show ?thesis by blast
qed

subsection \<open>The controller\<close>


subsection \<open>Ownership and the fence\<close>

lemma opened_facts:
  obtains u a where "store_write samplePlatform sample u" "validState samplePlatform u"
    "s_status u = Running" "s_cancellation u = None" "s_attempts u = [a]" "frozen sample u"
proof -
  let ?request = "buildOpenAttempt (toGoalWorkflowView sample) bureauIdentifiers sampleNow 0
    (attemptSessionId (lit ''g'') (policyKind Continue) 0)"
  have "acceptedBy samplePlatform ?request sample"
    using open_accepted [OF sample_ready _ _ refl] by (simp add: toGoalWorkflowView_def)
  then obtain rq n where rq: "?request = Some rq" "evaluateTransition samplePlatform rq sample = Write n"
    by (auto simp: acceptedBy_def)
  have to: "rq_to rq = Running"
    using rq(1) by (auto simp: buildOpenAttempt_def baseTransition_def Let_def split: option.split_asm)
  obtain as where n: "n = buildNext samplePlatform sample rq as" "validState samplePlatform n"
    "applyAttempt sample rq = Inr as"
    using evaluateTransition_Write [OF rq(2)] by blast
  let ?u = "n\<lparr>s_revision := s_revision sample + 1\<rparr>"
  have v: "validState samplePlatform ?u" by (rule validState_revision [OF n(2)]) simp
  have u: "s_status ?u = Running" "s_cancellation ?u = None" "s_attempts ?u = as" using n(1) to by simp_all
  have "isStatusRelationConsistent ?u" using v by (simp add: validState_iff isConsistent_def)
  then have "as \<noteq> []" by (rule running_open [OF _ u(1)]) (use u(3) in auto)
  moreover have "length as \<le> 1" using applyAttempt_Inr [OF n(3)] by auto
  ultimately obtain a where a: "as = [a]" by (cases as) auto
  have w: "store_write samplePlatform sample ?u" by (rule store_write.intros(1) [OF rq(2) v])
  then have "frozen sample ?u" using store_write_law by (simp add: write_law_def)
  then show thesis by (rule that [OF w v u(1,2) u(3) [unfolded a]])
qed


definition openTarget :: attempt_target where
  "openTarget = \<lparr>ta_goalRunId = lit ''g'', ta_attemptIndex = 0, ta_runId = goalAttemptRunId (lit ''g'') 0\<rparr>"

definition openClaim :: run_record where
  "openClaim = \<lparr>rr_agentName = lit ''a'', rr_principal = None,
     rr_goalAttempt = Some \<lparr>mk_goalRunId = lit ''g'', mk_attemptIndex = jnat 0, mk_tombstonedAt = None\<rparr>\<rparr>"

lemma openClaim_owned:
  assumes "go_agentName owner = lit ''a''" "go_principal owner = None" "go_maximumAttempts owner = Fin 3"
  shows "isGoalOwnedRunRecord openClaim (goalAttemptRunId (lit ''g'') 0) owner"
  using assms by (subst owned_marker)
    (auto simp: openClaim_def jnat_def MAX_SAFE_INTEGER_def)

theorem fence_excludes_witness:
  "\<exists>u. store_write samplePlatform sample u
     \<and> mayRun \<lparr>fr_goal = Some (Some u), fr_now = sampleNow, fr_claim = RunFound openClaim,
          fr_later = sampleNow\<rparr> openTarget = Some MayRun
     \<and> s_status u = Running"
proof -
  obtain u a where u: "store_write samplePlatform sample u" "validState samplePlatform u"
    "s_status u = Running" "s_cancellation u = None" "s_attempts u = [a]" "frozen sample u"
    using opened_facts by metis
  let ?reads = "\<lparr>fr_goal = Some (Some u), fr_now = sampleNow, fr_claim = RunFound openClaim,
    fr_later = sampleNow\<rparr>"
  have v: "isStatusRelationConsistent u" "hasOwnDerivedIds u"
    using u(2) by (simp_all add: validState_iff isConsistent_def)
  obtain startedAt where a: "a_status a = ARunning"
    "s_active u = Some (AttemptWork (a_attemptId a) (a_runId a) startedAt)"
    using running_open [OF v(1) u(3)] u(5) by auto
  have run: "a_runId a = goalAttemptRunId (lit ''g'') 0"
    using derived_run_id [OF v(2), of 0 a] u(5,6) by (simp add: frozen_def)
  have own: "ownClaim u openTarget openClaim"
    using openClaim_owned [of "\<lparr>go_agentName = lit ''a'', go_principal = None, go_maximumAttempts = Fin 3\<rparr>"] u(6)
    by (simp add: ownClaim_def openTarget_def openClaim_def frozen_def sample_def jnat_def)
  have m: "mayRun ?reads openTarget = Some MayRun"
    using u(3-6) a run own
    by (simp add: mayRun_def isDeadlineElapsed_def remainingMilliseconds_def toGoalWorkflowView_def
        frozen_def sample_def openTarget_def)
  have "s_status u = Running"
    using fence_excludes [OF sample_valid _ _ m] r_into_rtranclp [of "store_write samplePlatform"] u(1)
    by simp
  with u(1) m show ?thesis by blast
qed

text \<open>A store that is down for one reading, then a goal that is over.\<close>

definition flakyWorld :: "nat fence_world" where
  "flakyWorld = \<lparr>fw_mayRun = (\<lambda>n. (if n = 0 then None else if n = 1 then Some (AwaitOpen (Fin 60)) else Some Refuse, Suc n)),
     fw_aborted = (\<lambda>_. False), fw_wait = (\<lambda>_ n. n), fw_monotonic = None\<rparr>"

definition plainRegistration :: fence_registration where
  "plainRegistration = \<lparr>fg_runtime = True, fg_delaysMs = None, fg_acknowledgementDelaysMs = None\<rparr>"

theorem readSettled_bounded_witness:
  "\<exists>reading polls waited w'. readSettled flakyWorld plainRegistration 0 = Some (reading, polls, jnat waited, w')
     \<and> polls \<le> 60 \<and> waited \<le> 60"
proof -
  have w: "wholeMs (Fin (of_int n))" if "\<bar>n\<bar> \<le> 2 ^ 51" for n
    using that by (auto simp: wholeMs_def)
  have "wholeWorld flakyWorld plainRegistration 60"
    using w [of 50] w [of 100] w [of 250] w [of 500]
    by (auto simp: wholeWorld_def flakyWorld_def plainRegistration_def jnat_def
        GOAL_ATTEMPT_ACKNOWLEDGEMENT_POLL_DELAYS_MS_def split: if_split_asm)
  from readSettled_bounded [OF this, of 0] show ?thesis by blast
qed

definition sampleOwner :: goal_owner where
  "sampleOwner = \<lparr>go_agentName = lit ''a'', go_principal = None, go_maximumAttempts = Fin 3\<rparr>"

definition sampleWorld :: ownership_world where
  "sampleWorld = \<lparr>ow_readRunRecord = (\<lambda>_. RunFound openClaim),
     ow_engineGet = (\<lambda>_. Some (Some \<lparr>wf_type = lit ''agentRun'', wf_input = JNull\<rparr>)),
     ow_resolveOwner = (\<lambda>_. Some (Some sampleOwner))\<rparr>"

theorem ownership_agrees_witness:
  "ownedRunCanceller sampleWorld (goalAttemptRunId (lit ''g'') 0)
     = CancelForwarded (goalAttemptRunId (lit ''g'') 0)"
proof -
  let ?expected = "\<lparr>go_agentName = go_agentName sampleOwner, go_principal = go_principal sampleOwner,
    go_maximumAttempts = go_maximumAttempts sampleOwner, eo_goalRunId = lit ''g'',
    eo_attemptIndex = jnat 0\<rparr>"
  have "verifyAttemptRun sampleWorld ?expected (goalAttemptRunId (lit ''g'') 0) = Inr Owned"
    unfolding verified_owned [OF refl]
    by (auto simp: sampleWorld_def sampleOwner_def intro: openClaim_owned)
  moreover have "ow_resolveOwner sampleWorld (lit ''g'') = Some (Some sampleOwner)"
    "ow_engineGet sampleWorld (goalAttemptRunId (lit ''g'') 0)
      = Some (Some \<lparr>wf_type = lit ''agentRun'', wf_input = JNull\<rparr>)"
    by (simp_all add: sampleWorld_def)
  ultimately show ?thesis using ownership_agrees [OF _ _ refl, of sampleWorld "lit ''g''" sampleOwner 0] by blast
qed

subsection \<open>Records and creation\<close>


theorem validateGoalRunId_fits_witness:
  "validateGoalRunId (lit ''g'') 3 = Inr ()
   \<and> utf8ByteLength (attemptSignalId (lit ''g'') 2) \<le> WEFT_IDENTIFIER_LIMIT"
  using validateGoalRunId_fits [OF sample_id, of 2] sample_id by simp

theorem createGoalState_fresh_witness:
  "createGoalState samplePlatform (requestFor sample) = Inr sample \<and> validState samplePlatform sample"
  using createGoalState_fresh [OF sample_created samplePlatform_ok(2)] sample_created by simp


subsection \<open>Decisions\<close>

definition sampleContext :: goal_decision_context where
  "sampleContext = \<lparr>dc_budget = s_bounds sample, dc_retryOn = [RetryFail], dc_usage = s_usage sample\<rparr>"

theorem decideRunFinish_spec_witness:
  "\<exists>detail. (decideRunFinish sampleContext MaximumSteps False True None :: json run_finish_decision)
       = Decision (Fail AttemptRunFailed None (Some detail)) AttemptFailed
     \<and> \<not> isAttemptStartFailureDetail (Some detail)"
  using decideRunFinish_spec [of sampleContext MaximumSteps False True None] by auto

subsection \<open>Validator output\<close>

theorem boundValidationOutcome_fits_witness:
  "fitsWithin (boundValidationOutcome (Pass []) 100) 100 \<and> ok_outcome (Pass [] :: json outcome)"
  using boundValidationOutcome_fits [of 100 "Pass []"] by simp

text \<open>An array that holds itself, and a verdict that carries it as evidence.\<close>

definition sampleHeap :: js_heap where
  "sampleHeap =
     \<lparr>hp_object = (\<lambda>r.
        if r = 0 then \<lparr>ob_class = ArrayObject [HRef 0, HNum NaN], ob_props = []\<rparr>
        else if r = 1 then \<lparr>ob_class = PlainObject, ob_props =
          [(lit ''source'', Value (HStr (lit ''tests''))), (lit ''detail'', Value (HRef 0))]\<rparr>
        else if r = 2 then \<lparr>ob_class = ArrayObject [HRef 1], ob_props = []\<rparr>
        else \<lparr>ob_class = PlainObject, ob_props =
          [(lit ''kind'', Value (HStr (lit ''pass''))), (lit ''evidence'', Value (HRef 2))]\<rparr>),
      hp_call = (\<lambda>f r. None)\<rparr>"

lemma sampleHeap_named: "errorsNamed sampleHeap"
  by (simp add: errorsNamed_def sampleHeap_def)

theorem toJsonSafe_json_witness:
  "toJsonSafe sampleHeap (HRef 0) = PArr [PStr CIRCULAR, PNull]
   \<and> isJsonValue (projectedValue (toJsonSafe sampleHeap (HRef 0))) 0"
proof
  show "toJsonSafe sampleHeap (HRef 0) = PArr [PStr CIRCULAR, PNull]"
    by (simp add: toJsonSafe_def projectNode.simps(1) sampleHeap_def MAXIMUM_PROJECTION_DEPTH_def)
  show "isJsonValue (projectedValue (toJsonSafe sampleHeap (HRef 0))) 0"
    by (rule toJsonSafe_json [OF sampleHeap_named])
qed


subsection \<open>The system\<close>

text \<open>The created goal with one controller, and the same after a cancellation.\<close>

definition sampleController :: controller where
  "sampleController = newController None sample"

lemma sample_spawned: "system_step samplePlatform None ([], sample) ([sampleController], sample)"
  using system_step.spawn [of samplePlatform None "[]" sample] by (simp add: sampleController_def)

lemma sample_reachable: "reachable samplePlatform (requestFor sample) None sample ([sampleController], sample)"
  using sample_created samplePlatform_ok sample_spawned by (auto simp: reachable_def)

lemma sample_canceled: "control_step sample (cancelled\<lparr>s_revision := 2\<rparr>)"
  using control_step.cancel [OF sample_marker_ok sampleTime_iso cancelled_evaluated]
  by (simp add: numeral_2_eq_2)

lemma cancelled_reachable:
  "reachable samplePlatform (requestFor sample) None sample ([], cancelled\<lparr>s_revision := 2\<rparr>)"
  using sample_created samplePlatform_ok system_step.control [OF sample_canceled, of samplePlatform None "[]"]
  by (auto simp: reachable_def)

theorem system_refines_witness:
  "stepsOrStays sample (cancelled\<lparr>s_revision := 2\<rparr>)"
  using system_refines [OF sample_reachable
      system_step.control [OF sample_canceled, of samplePlatform None "[sampleController]"]] by simp

theorem system_bounds_witness:
  "s_transitionSeq sample \<le> 3 * maximumOf sample + 1 \<and> length (s_auditLog sample) = 0"
  using system_bounds [OF sample_reachable] by simp




end
