(* ===== verification/Effects.thy ===== *)
theory Effects
  imports Main
begin

section \<open>Programs over operations that others answer\<close>

text \<open>
  The host side of a goal is asynchronous code that awaits a store, an engine and a clock between
  its decisions. Such a program is a tree: it returns, it rejects, or it performs an operation
  and goes on with whatever it is answered. Its behaviour is the set of its traces, the
  operations it performed with their answers, and its result. Nothing is assumed of what happens
  between two operations but what \<open>fits\<close> says of each answer.
\<close>

datatype ('o, 'r, 'e, 'a) effect =
    Ret 'a
  | Raise 'e
  | Perform 'o "'r \<Rightarrow> ('o, 'r, 'e, 'a) effect"

type_synonym ('o, 'r) trace = "('o \<times> 'r) list"

subsection \<open>Sequencing, and \<open>try\<close> with \<open>catch\<close>\<close>

primrec bindE ::
    "('o, 'r, 'e, 'a) effect \<Rightarrow> ('a \<Rightarrow> ('o, 'r, 'e, 'b) effect) \<Rightarrow> ('o, 'r, 'e, 'b) effect" where
  "bindE (Ret x) f = f x"
| "bindE (Raise e) f = Raise e"
| "bindE (Perform op k) f = Perform op (\<lambda>r. bindE (k r) f)"

primrec catchE ::
    "('o, 'r, 'e, 'a) effect \<Rightarrow> ('e \<Rightarrow> ('o, 'r, 'e, 'a) effect) \<Rightarrow> ('o, 'r, 'e, 'a) effect" where
  "catchE (Ret x) h = Ret x"
| "catchE (Raise e) h = h e"
| "catchE (Perform op k) h = Perform op (\<lambda>r. catchE (k r) h)"

text \<open>A \<open>for\<close> loop over a list with the variable it updates, and one that collects results.\<close>

primrec foldE ::
    "('b \<Rightarrow> 's \<Rightarrow> ('o, 'r, 'e, 's) effect) \<Rightarrow> 'b list \<Rightarrow> 's \<Rightarrow> ('o, 'r, 'e, 's) effect" where
  "foldE f [] s = Ret s"
| "foldE f (x # xs) s = bindE (f x s) (foldE f xs)"

primrec mapE ::
    "('b \<Rightarrow> ('o, 'r, 'e, 'c) effect) \<Rightarrow> 'b list \<Rightarrow> ('o, 'r, 'e, 'c list) effect" where
  "mapE f [] = Ret []"
| "mapE f (x # xs) = bindE (f x) (\<lambda>y. bindE (mapE f xs) (\<lambda>ys. Ret (y # ys)))"

subsection \<open>Runs\<close>

inductive runs ::
    "('o \<Rightarrow> 'r \<Rightarrow> bool) \<Rightarrow> ('o, 'r, 'e, 'a) effect \<Rightarrow> ('o, 'r) trace \<Rightarrow> 'e + 'a \<Rightarrow> bool" for fits where
  returned: "runs fits (Ret x) [] (Inr x)"
| rejected: "runs fits (Raise e) [] (Inl e)"
| performed: "fits op r \<Longrightarrow> runs fits (k r) t result \<Longrightarrow> runs fits (Perform op k) ((op, r) # t) result"

inductive_simps runs_simps [simp]:
  "runs fits (Ret x) t result"
  "runs fits (Raise e) t result"
  "runs fits (Perform op k) t result"

text \<open>What holds of every run that continues the trace \<open>tr\<close>, and how it is composed.\<close>

primrec ensures ::
    "('o \<Rightarrow> 'r \<Rightarrow> bool) \<Rightarrow> ('o, 'r, 'e, 'a) effect \<Rightarrow> ('o, 'r) trace \<Rightarrow>
     (('o, 'r) trace \<Rightarrow> 'e + 'a \<Rightarrow> bool) \<Rightarrow> bool" where
  "ensures fits (Ret x) tr Q = Q tr (Inr x)"
| "ensures fits (Raise e) tr Q = Q tr (Inl e)"
| "ensures fits (Perform op k) tr Q = (\<forall>r. fits op r \<longrightarrow> ensures fits (k r) (tr @ [(op, r)]) Q)"

lemma ensures_runs: "ensures fits m tr Q \<longleftrightarrow> (\<forall>t result. runs fits m t result \<longrightarrow> Q (tr @ t) result)"
  by (induction m arbitrary: tr) (simp_all, force)

lemma ensuresD: "ensures fits m [] Q \<Longrightarrow> runs fits m t result \<Longrightarrow> Q t result"
  by (simp add: ensures_runs)

lemma ensures_mono:
  "ensures fits m tr P \<Longrightarrow> (\<And>t result. P t result \<Longrightarrow> Q t result) \<Longrightarrow> ensures fits m tr Q"
  by (simp add: ensures_runs)

lemma ensures_True [simp]: "ensures fits m tr (\<lambda>t result. True)"
  by (simp add: ensures_runs)

lemma ensures_bind [simp]:
  "ensures fits (bindE m f) tr Q \<longleftrightarrow>
     ensures fits m tr (\<lambda>t result. case result of Inl e \<Rightarrow> Q t (Inl e) | Inr x \<Rightarrow> ensures fits (f x) t Q)"
  by (induction m arbitrary: tr) simp_all

lemma ensures_catch [simp]:
  "ensures fits (catchE m h) tr Q \<longleftrightarrow>
     ensures fits m tr (\<lambda>t result. case result of Inl e \<Rightarrow> ensures fits (h e) t Q | Inr x \<Rightarrow> Q t (Inr x))"
  by (induction m arbitrary: tr) simp_all

lemma bindE_assoc: "bindE (bindE m f) h = bindE m (\<lambda>x. bindE (f x) h)"
  by (induction m) simp_all

text \<open>Composition from what is known of the first program.\<close>

lemma ensures_bindI:
  assumes "ensures fits m tr P"
    and "\<And>t x. P t (Inr x) \<Longrightarrow> ensures fits (f x) t Q"
    and "\<And>t e. P t (Inl e) \<Longrightarrow> Q t (Inl e)"
  shows "ensures fits (bindE m f) tr Q"
  unfolding ensures_bind
  by (rule ensures_mono [OF assms(1)]) (use assms(2,3) in \<open>auto split: sum.split\<close>)

text \<open>A loop keeps an invariant of the elements before it, the trace and the variable.\<close>

lemma ensures_fold:
  assumes "I [] tr s"
    and "\<And>before x rest t s. xs = before @ x # rest \<Longrightarrow> I before t s \<Longrightarrow>
      ensures fits (f x s) t (\<lambda>t' result. case result of Inl e \<Rightarrow> Q t' (Inl e) | Inr s' \<Rightarrow> I (before @ [x]) t' s')"
    and "\<And>t s. I xs t s \<Longrightarrow> Q t (Inr s)"
  shows "ensures fits (foldE f xs s) tr Q"
proof -
  have "ensures fits (foldE f rest s) t Q" if "I before t s" "xs = before @ rest" for before rest t s
    using that
  proof (induction rest arbitrary: before t s)
    case Nil
    then show ?case using assms(3) by simp
  next
    case (Cons x rest)
    show ?case
      unfolding foldE.simps ensures_bind
      by (rule ensures_mono [OF assms(2) [OF Cons.prems(2,1)]])
        (use Cons.IH Cons.prems(2) in \<open>auto split: sum.splits\<close>)
  qed
  from this [of "[]" tr s xs] assms(1) show ?thesis by simp
qed

lemma ensures_map:
  assumes "I [] tr"
    and "\<And>before x rest t ys. xs = before @ x # rest \<Longrightarrow> I ys t \<Longrightarrow> length ys = length before \<Longrightarrow>
      ensures fits (f x) t (\<lambda>t' result. case result of Inl e \<Rightarrow> Q t' (Inl e) | Inr y \<Rightarrow> I (ys @ [y]) t')"
    and "\<And>t ys. I ys t \<Longrightarrow> length ys = length xs \<Longrightarrow> Q t (Inr ys)"
  shows "ensures fits (mapE f xs) tr Q"
proof -
  have "ensures fits (mapE f rest) t
      (\<lambda>t' result. case result of Inl e \<Rightarrow> Q t' (Inl e) | Inr zs \<Rightarrow> Q t' (Inr (ys @ zs)))"
    if "I ys t" "xs = before @ rest" "length ys = length before" for before rest t ys
    using that
  proof (induction rest arbitrary: before t ys)
    case Nil
    then show ?case using assms(3) by simp
  next
    case (Cons x rest)
    show ?case
      unfolding mapE.simps ensures_bind
    proof (rule ensures_mono [OF assms(2) [OF Cons.prems(2,1,3)]])
      fix t' result
      assume r: "case result of Inl e \<Rightarrow> Q t' (Inl e) | Inr y \<Rightarrow> I (ys @ [y]) t'"
      show "case result of Inl e \<Rightarrow> (case Inl e of Inl e \<Rightarrow> Q t' (Inl e) | Inr zs \<Rightarrow> Q t' (Inr (ys @ zs)))
        | Inr y \<Rightarrow> ensures fits (mapE f rest) t' (\<lambda>t result. case result of
            Inl e \<Rightarrow> (case Inl e of Inl e \<Rightarrow> Q t (Inl e) | Inr zs \<Rightarrow> Q t (Inr (ys @ zs)))
          | Inr zs \<Rightarrow> ensures fits (Ret (y # zs)) t
              (\<lambda>t result. case result of Inl e \<Rightarrow> Q t (Inl e) | Inr zs \<Rightarrow> Q t (Inr (ys @ zs))))"
      proof (cases result)
        case (Inr y)
        then have "ensures fits (mapE f rest) t'
            (\<lambda>t result. case result of Inl e \<Rightarrow> Q t (Inl e) | Inr zs \<Rightarrow> Q t (Inr ((ys @ [y]) @ zs)))"
          using Cons.IH [of "ys @ [y]" t' "before @ [x]"] r Cons.prems
          by (auto elim!: ensures_mono split: sum.splits)
        then show ?thesis using Inr by (auto elim!: ensures_mono split: sum.splits)
      qed (use r in simp)
    qed
  qed
  from this [of "[]" tr "[]" xs] assms(1) show ?thesis by (auto elim!: ensures_mono split: sum.splits)
qed

lemma ensures_conj: "ensures fits m tr P \<Longrightarrow> ensures fits m tr Q \<Longrightarrow> ensures fits m tr (\<lambda>t result. P t result \<and> Q t result)"
  by (simp add: ensures_runs)

lemma ensures_suffix: "ensures fits m tr (\<lambda>t result. \<exists>s. t = tr @ s)"
  by (auto simp: ensures_runs)

text \<open>Every step of a trace is justified by the steps before it.\<close>

definition everyStep :: "(('o, 'r) trace \<Rightarrow> 'o \<times> 'r \<Rightarrow> bool) \<Rightarrow> ('o, 'r) trace \<Rightarrow> bool" where
  "everyStep J t \<longleftrightarrow> (\<forall>before e after. t = before @ e # after \<longrightarrow> J before e)"

lemma everyStep_Nil [simp]: "everyStep J []"
  by (simp add: everyStep_def)

lemma everyStep_snoc: "everyStep J (t @ [x]) \<longleftrightarrow> everyStep J t \<and> J t x"
proof -
  have split: "t @ [x] = before @ e # after \<longleftrightarrow>
      after = [] \<and> t = before \<and> e = x \<or> (\<exists>s. after = s @ [x] \<and> t = before @ e # s)" for before e after
    by (cases after rule: rev_cases) auto
  show ?thesis
    unfolding everyStep_def split by (cases x) auto
qed

lemma everyStep_append:
  "list_all (\<lambda>e. \<forall>before. J before e) s \<Longrightarrow> everyStep J t \<Longrightarrow> everyStep J (t @ s)"
proof (induction s rule: rev_induct)
  case (snoc e s)
  then have "everyStep J ((t @ s) @ [e])" unfolding everyStep_snoc by simp
  then show ?case by simp
qed simp

subsection \<open>How often a program performs an operation\<close>

text \<open>On no path more than \<open>n\<close> operations with \<open>P\<close>, whatever the answers.\<close>

primrec performsAtMost :: "('o \<Rightarrow> bool) \<Rightarrow> nat \<Rightarrow> ('o, 'r, 'e, 'a) effect \<Rightarrow> bool" where
  "performsAtMost P n (Ret x) \<longleftrightarrow> True"
| "performsAtMost P n (Raise e) \<longleftrightarrow> True"
| "performsAtMost P n (Perform op k) \<longleftrightarrow> (if P op then n > 0 \<and> (\<forall>r. performsAtMost P (n - 1) (k r)) else (\<forall>r. performsAtMost P n (k r)))"

lemma performsAtMost_mono: "performsAtMost P m c \<Longrightarrow> m \<le> n \<Longrightarrow> performsAtMost P n c"
proof (induction c arbitrary: m n)
  case (Perform op k)
  have step: "performsAtMost P m' (k r) \<Longrightarrow> m' \<le> n' \<Longrightarrow> performsAtMost P n' (k r)" for r m' n'
    by (rule Perform.IH) simp_all
  show ?case
  proof (cases "P op")
    case True
    have "performsAtMost P (n - 1) (k r)" for r
      by (rule step [of "m - 1"]) (use Perform.prems True in auto)
    then show ?thesis using Perform.prems True by simp
  next
    case False
    then show ?thesis using Perform.prems step [of m] by simp
  qed
qed simp_all

lemma performsAtMost_runs: "performsAtMost P n m \<Longrightarrow> runs fits m t result \<Longrightarrow> length (filter (P \<circ> fst) t) \<le> n"
proof (induction m arbitrary: n t)
  case (Perform op k)
  then obtain r s where s: "t = (op, r) # s" "runs fits (k r) s result" by auto
  have "length (filter (P \<circ> fst) s) \<le> n'" if "performsAtMost P n' (k r)" for n'
    using Perform.IH [OF _ that s(2)] by blast
  from this [of "if P op then n - 1 else n"] show ?case
    using s(1) Perform.prems(1) by (auto simp: comp_def split: if_splits)
qed simp_all

lemma performsAtMost_bind:
  "performsAtMost P a m \<Longrightarrow> (\<And>x. performsAtMost P b (f x)) \<Longrightarrow> performsAtMost P (a + b) (bindE m f)"
proof (induction m arbitrary: a)
  case (Perform op k)
  have step: "performsAtMost P (a' + b) (bindE (k r) f)" if "performsAtMost P a' (k r)" for r a'
    by (rule Perform.IH [OF _ that Perform.prems(2)]) simp
  show ?case using Perform.prems(1) step [of "a - 1"] step [of a] by (auto split: if_splits)
qed (auto intro: performsAtMost_mono [of P b])

lemma performsAtMost_catch:
  "performsAtMost P a m \<Longrightarrow> (\<And>e. performsAtMost P b (h e)) \<Longrightarrow> performsAtMost P (a + b) (catchE m h)"
proof (induction m arbitrary: a)
  case (Perform op k)
  have step: "performsAtMost P (a' + b) (catchE (k r) h)" if "performsAtMost P a' (k r)" for r a'
    by (rule Perform.IH [OF _ that Perform.prems(2)]) simp
  show ?case using Perform.prems(1) step [of "a - 1"] step [of a] by (auto split: if_splits)
qed (auto intro: performsAtMost_mono [of P b])

text \<open>Never, for whole programs.\<close>

lemma never_bind: "performsAtMost P 0 m \<Longrightarrow> (\<And>x. performsAtMost P 0 (f x)) \<Longrightarrow> performsAtMost P 0 (bindE m f)"
  using performsAtMost_bind [of P 0 m 0 f] by simp

lemma never_catch: "performsAtMost P 0 m \<Longrightarrow> (\<And>e. performsAtMost P 0 (h e)) \<Longrightarrow> performsAtMost P 0 (catchE m h)"
  using performsAtMost_catch [of P 0 m 0 h] by simp

lemma never_fold: "(\<And>x s. performsAtMost P 0 (f x s)) \<Longrightarrow> performsAtMost P 0 (foldE f xs s)"
  by (induction xs arbitrary: s) (auto intro: never_bind)

lemma never_map: "(\<And>x. performsAtMost P 0 (f x)) \<Longrightarrow> performsAtMost P 0 (mapE f xs)"
  by (induction xs) (auto intro!: never_bind)

lemmas never_intros = never_bind never_catch never_fold never_map

lemma never_mono: "performsAtMost P 0 m \<Longrightarrow> (\<And>op. Q op \<Longrightarrow> P op) \<Longrightarrow> performsAtMost Q 0 m"
  by (induction m) (auto split: if_splits)

lemma never_ensures:
  "performsAtMost P 0 m \<Longrightarrow> ensures fits m tr (\<lambda>t result. \<exists>s. t = tr @ s \<and> list_all (\<lambda>e. \<not> P (fst e)) s)"
  using performsAtMost_runs [of P 0 m fits]
  by (auto simp: ensures_runs filter_empty_conv list_all_iff)

lemma once_bind:
  "performsAtMost P (Suc 0) m \<Longrightarrow> (\<And>x. performsAtMost P 0 (f x)) \<Longrightarrow> performsAtMost P (Suc 0) (bindE m f)"
  using performsAtMost_bind [of P 1 m 0 f] by simp

lemma once_catch:
  "performsAtMost P (Suc 0) m \<Longrightarrow> (\<And>e. performsAtMost P 0 (h e)) \<Longrightarrow> performsAtMost P (Suc 0) (catchE m h)"
  using performsAtMost_catch [of P 1 m 0 h] by simp

lemma later_bind: "performsAtMost P 0 m \<Longrightarrow> (\<And>x. performsAtMost P n (f x)) \<Longrightarrow> performsAtMost P n (bindE m f)"
  using performsAtMost_bind [of P 0 m n f] by simp

subsection \<open>Operations that are always answered\<close>

text \<open>
  The contract of an interface of operations: each has an answer that fits. Then every program
  over it has a run, so what is shown of all its runs is never shown of none.
\<close>

locale answered_operations =
  fixes fits :: "'o \<Rightarrow> 'r \<Rightarrow> bool"
  assumes answered: "\<exists>r. fits op r"
begin

lemma runs_exist: "\<exists>t result. runs fits (m :: ('o, 'r, 'e, 'a) effect) t result"
proof (induction m)
  case (Perform op k)
  obtain r where r: "fits op r" using answered by blast
  obtain t result where "runs fits (k r) t result" using Perform.IH by blast
  with r show ?case by auto
qed auto

lemma ensures_satisfiable: "ensures fits (m :: ('o, 'r, 'e, 'a) effect) [] Q \<Longrightarrow> \<exists>t result. Q t result"
  using runs_exist ensuresD by metis

end

end
