(* ===== verification/GoalHost.thy ===== *)
theory GoalHost
  imports Effects GoalSystem GoalFence
begin

section \<open>What the control plane asks of its dependencies\<close>

text \<open>
  The operations behind \<open>GoalControlDependencies\<close> of \<open>packages/bureau/src/goal-controller.ts\<close>: the
  goal store, the clock, the workflow engine, the canceller of runs and the fence of attempts.
  \<open>control_fits\<close> says what each may answer. The store's answers are those of \<open>GoalStore\<close> on some
  record of the goal (any, since others write it between two operations); an asynchronous
  operation may reject instead, with whatever fault. Diagnostics and the texts that describe an
  outcome to a reader are left out: nothing is decided on them.
\<close>

subsection \<open>What is read\<close>

datatype workflow_status =
    WfPending | WfRunning | WfSuspended | WfCompleted | WfFailed | WfCancelled | WfTimedOut
  | WfOther jstr

record workflow_reading =
  wr_status :: workflow_status
  wr_createdAt :: "jnum option"

datatype finalizer_status = FzPending | FzRunning | FzSucceeded | FzFailed

datatype stop_outcome =
    StopRequested | StopAlreadyTerminal | StopNotFound | StopUnsupported | StopFailed

datatype fence_outcome = Fenced | FencedForeign

datatype cleanup_acknowledgement =
    CleanupNotRequired | CleanupCompleted | CleanupUnresolved | CleanupFailed

datatype reconciliation = ReWatching | ReSignalResent | ReNotNeeded | ReMissing

text \<open>How the validator catalog resolves an identity, and how a new record is answered by the store.\<close>

datatype validator_resolution = ValidatorFound | ValidatorMissing | ValidatorVersions "jstr list"

text \<open>The seat an attempt is given in its conversation, the run it is started as, and what is read of its end.\<close>

datatype seat = Seated jstr | SeatFailed jstr

record attempt_start =
  as_agentName :: jstr
  as_runId :: jstr
  as_goalRunId :: jstr
  as_attemptIndex :: nat
  as_principal :: "jstr option"

datatype run_result_reading = ReadingNotTerminal | ReadingCompleted | ReadingUnavailable jstr

record execution =
  ex_startedAt :: jstr
  ex_completedAt :: jstr
  ex_outcome :: "json outcome"

text \<open>The faults the code tells apart: \<open>AgentFault\<close> is a permanent property of the agent, with its text.\<close>

datatype fault =
    WorkflowExists
  | TeardownPending
  | NotOwnedFault
  | ArtifactFault
  | TombstonedFault
  | AgentFault jstr
  | CorruptOwnershipFault jstr
  | Fault jstr

subsection \<open>Operations and answers\<close>

datatype control_operation =
    StoreGet jstr
  | StoreIsUnreadable jstr
  | StoreRequestCancellation jstr cancellation_marker jstr
  | StoreApplyTransition transition_request
  | StoreRecordRestart jstr jstr nat
  | StoreClose jstr jstr
  | StoreMarkCleanedUp jstr jstr
  | ClockNow
  | ClockNowIso
  | ResolveDeterminism goal_identity
  | IsClosing
  | HasEngine
  | EngineGet jstr
  | EngineStart jstr bool
  | EngineSignalCancel jstr jstr
  | EngineCancel jstr
  | EngineResume jstr
  | EngineFinalizer jstr
  | FenceAttempt goal_state nat
  | CancelRun jstr
  | CleanUpHistory jstr
  | DrainForwarder
  | Reconcile jstr nat jstr
  | StartWithinBudget start_request
  | StoreList
  | StoreCreate goal_state
  | NextGoalRunId
  | PlanAgent jstr
  | ResolveValidator jsval
  | ValidateArtifact jsval jnum
  | SignalAborted
  | ReadRunRecord jstr
  | ReadWorkflow jstr
  | VerifySession goal_state nat
  | SeatAttempt goal_state start_request
  | RecordStart goal_state start_request
  | WatchAttempt jstr nat jstr
  | StartRun attempt_start
  | ResolveCost jstr
  | ReadRunResult jstr
  | ExecuteValidator goal_state validator_request

datatype control_answer =
    RecordAnswer "goal_state option"
  | FlagAnswer bool
  | ControlAnswer "control_result mutation"
  | TransitionAnswer "transition_result mutation"
  | InstantAnswer jnum
  | StampAnswer jstr
  | DeterminismAnswer "determinism option option"
  | WorkflowAnswer "workflow_reading option"
  | FinalizerAnswer "finalizer_status option"
  | DoneAnswer
  | FenceAnswer fence_outcome
  | StopAnswer stop_outcome
  | CleanupAnswer cleanup_acknowledgement
  | ReconcileAnswer reconciliation
  | StartAnswer "start_answer option"
  | RecordsAnswer "goal_state list"
  | CreationAnswer creation
  | PlanAnswer "bool option"
  | ValidatorAnswer validator_resolution
  | RunRecordAnswer run_load
  | WorkflowStateAnswer "workflow_state option"
  | SessionAnswer "jstr option"
  | SeatAnswer seat
  | ReadingAnswer run_result_reading
  | ExecutionAnswer execution
  | Rejection fault

text \<open>What a control operation of the store answers, evaluated on some record of the goal.\<close>

definition control_answered ::
    "jstr \<Rightarrow> (goal_state \<Rightarrow> control_result evaluation) \<Rightarrow> control_result mutation \<Rightarrow> bool" where
  "control_answered g evaluate result \<longleftrightarrow>
     result = Missing \<or> result = Corrupt
     \<or> (\<exists>s. s_goalRunId s = g
          \<and> (case evaluate s of
               Done r \<Rightarrow> result = Answer r
             | Write n \<Rightarrow> result = Answer (Updated (n\<lparr>s_revision := s_revision s + 1\<rparr>))
                 \<or> result = Answer (ControlStale s)))"

text \<open>A new record is written as it is, or another record has its id.\<close>

definition creation_answered :: "platform \<Rightarrow> goal_state \<Rightarrow> creation \<Rightarrow> bool" where
  "creation_answered p s result \<longleftrightarrow>
     result = CreatedRecord s \<and> validState p s \<and> s_revision s = 1 \<and> s_transitionSeq s = 0 \<and> s_status s = Pending
     \<or> (\<exists>x. result = DuplicateRecord x \<and> pred_option (\<lambda>r. s_goalRunId r = s_goalRunId s \<and> validState p r) x)"

definition control_fits :: "platform \<Rightarrow> control_operation \<Rightarrow> control_answer \<Rightarrow> bool" where
  "control_fits p op r \<longleftrightarrow>
     (\<exists>e. r = Rejection e) \<and> op \<notin> {ClockNow, ClockNowIso, IsClosing, HasEngine, SignalAborted}
     \<or> (case op of
         StoreGet g \<Rightarrow> \<exists>x. r = RecordAnswer x \<and> pred_option (\<lambda>s. s_goalRunId s = g \<and> validState p s) x
       | StoreIsUnreadable g \<Rightarrow> \<exists>x. r = FlagAnswer x
       | StoreRequestCancellation g marker now \<Rightarrow>
           \<exists>x. r = ControlAnswer x \<and> control_answered g (evaluateCancellation marker now) x
       | StoreApplyTransition rq \<Rightarrow>
           \<exists>x. r = TransitionAnswer x \<and> x \<noteq> Thrown
             \<and> (x = Missing \<or> x = Corrupt
                \<or> (\<exists>u v. s_goalRunId u = rq_goalRunId rq \<and> store_answers p rq u x v))
       | StoreRecordRestart g now count \<Rightarrow>
           \<exists>x. r = ControlAnswer x \<and> control_answered g (evaluateRestart now (Some count)) x
       | StoreClose g now \<Rightarrow> \<exists>x. r = ControlAnswer x \<and> control_answered g (evaluateClose now) x
       | StoreMarkCleanedUp g now \<Rightarrow>
           \<exists>x. r = ControlAnswer x \<and> control_answered g (evaluateCleanedUp now) x
       | ClockNow \<Rightarrow> \<exists>x. r = InstantAnswer x
       | ClockNowIso \<Rightarrow> \<exists>x. r = StampAnswer x
       | ResolveDeterminism v \<Rightarrow> \<exists>x. r = DeterminismAnswer x
       | IsClosing \<Rightarrow> \<exists>x. r = FlagAnswer x
       | HasEngine \<Rightarrow> \<exists>x. r = FlagAnswer x
       | EngineGet w \<Rightarrow> \<exists>x. r = WorkflowAnswer x
       | EngineStart w replace \<Rightarrow> r = DoneAnswer
       | EngineSignalCancel w i \<Rightarrow> r = DoneAnswer
       | EngineCancel w \<Rightarrow> r = DoneAnswer
       | EngineResume w \<Rightarrow> r = DoneAnswer
       | EngineFinalizer w \<Rightarrow> \<exists>x. r = FinalizerAnswer x
       | FenceAttempt s i \<Rightarrow> \<exists>x. r = FenceAnswer x
       | CancelRun run \<Rightarrow> \<exists>x. r = StopAnswer x
       | CleanUpHistory w \<Rightarrow> \<exists>x. r = CleanupAnswer x
       | DrainForwarder \<Rightarrow> r = DoneAnswer
       | Reconcile g i run \<Rightarrow> \<exists>x. r = ReconcileAnswer x
       | StartWithinBudget rq \<Rightarrow> \<exists>x. r = StartAnswer x
       | StoreList \<Rightarrow> \<exists>x. r = RecordsAnswer x \<and> list_all (validState p) x
       | StoreCreate s \<Rightarrow> \<exists>x. r = CreationAnswer x \<and> creation_answered p s x
       | NextGoalRunId \<Rightarrow> \<exists>x. r = StampAnswer x
       | PlanAgent name \<Rightarrow> \<exists>x. r = PlanAnswer x
       | ResolveValidator v \<Rightarrow> \<exists>x. r = ValidatorAnswer x
       | ValidateArtifact a now \<Rightarrow> r = DoneAnswer
       | SignalAborted \<Rightarrow> \<exists>x. r = FlagAnswer x
       | ReadRunRecord run \<Rightarrow> \<exists>x. r = RunRecordAnswer x
       | ReadWorkflow run \<Rightarrow> \<exists>x. r = WorkflowStateAnswer x
       | VerifySession s i \<Rightarrow> \<exists>x. r = SessionAnswer x
       | SeatAttempt s rq \<Rightarrow> \<exists>x. r = SeatAnswer x
       | RecordStart s rq \<Rightarrow> r = DoneAnswer
       | WatchAttempt g i run \<Rightarrow> r = DoneAnswer
       | StartRun start \<Rightarrow> r = DoneAnswer
       | ResolveCost run \<Rightarrow> r = DoneAnswer
       | ReadRunResult run \<Rightarrow> \<exists>x. r = ReadingAnswer x
       | ExecuteValidator s vq \<Rightarrow> \<exists>x. r = ExecutionAnswer x \<and> ok_outcome (ex_outcome x))"

interpretation control: answered_operations "control_fits p" for p
proof
  fix op
  show "\<exists>r. control_fits p op r"
    by (cases op) (auto simp: control_fits_def control_answered_def creation_answered_def intro: exI [of _ "None"]
        exI [of _ "\<lparr>ex_startedAt = [], ex_completedAt = [], ex_outcome = CanceledOutcome\<rparr>"])
qed

subsection \<open>The operations as steps of a program\<close>

type_synonym 'a host_program = "(control_operation, control_answer, fault, 'a) effect"

text \<open>An answer of another kind never fits; it is a fault here so that every step is a function.\<close>

definition perform :: "control_operation \<Rightarrow> (control_answer \<Rightarrow> 'a option) \<Rightarrow> 'a host_program" where
  "perform op read =
     Perform op (\<lambda>r. case r of
         Rejection e \<Rightarrow> Raise e
       | _ \<Rightarrow> (case read r of None \<Rightarrow> Raise (Fault []) | Some x \<Rightarrow> Ret x))"

definition storeGet :: "jstr \<Rightarrow> goal_state option host_program" where
  "storeGet g = perform (StoreGet g) (\<lambda>r. case r of RecordAnswer x \<Rightarrow> Some x | _ \<Rightarrow> None)"

definition storeIsUnreadable :: "jstr \<Rightarrow> bool host_program" where
  "storeIsUnreadable g = perform (StoreIsUnreadable g) (\<lambda>r. case r of FlagAnswer x \<Rightarrow> Some x | _ \<Rightarrow> None)"

definition storeControl :: "control_operation \<Rightarrow> control_result mutation host_program" where
  "storeControl op = perform op (\<lambda>r. case r of ControlAnswer x \<Rightarrow> Some x | _ \<Rightarrow> None)"

definition storeApply :: "transition_request \<Rightarrow> transition_result mutation host_program" where
  "storeApply rq = perform (StoreApplyTransition rq) (\<lambda>r. case r of TransitionAnswer x \<Rightarrow> Some x | _ \<Rightarrow> None)"

definition clockNow :: "jnum host_program" where
  "clockNow = perform ClockNow (\<lambda>r. case r of InstantAnswer x \<Rightarrow> Some x | _ \<Rightarrow> None)"

definition clockNowIso :: "jstr host_program" where
  "clockNowIso = perform ClockNowIso (\<lambda>r. case r of StampAnswer x \<Rightarrow> Some x | _ \<Rightarrow> None)"

definition resolveDeterminism :: "goal_identity \<Rightarrow> determinism option option host_program" where
  "resolveDeterminism v = perform (ResolveDeterminism v) (\<lambda>r. case r of DeterminismAnswer x \<Rightarrow> Some x | _ \<Rightarrow> None)"

definition askFlag :: "control_operation \<Rightarrow> bool host_program" where
  "askFlag op = perform op (\<lambda>r. case r of FlagAnswer x \<Rightarrow> Some x | _ \<Rightarrow> None)"

definition engineGet :: "jstr \<Rightarrow> workflow_reading option host_program" where
  "engineGet w = perform (EngineGet w) (\<lambda>r. case r of WorkflowAnswer x \<Rightarrow> Some x | _ \<Rightarrow> None)"

definition engineFinalizer :: "jstr \<Rightarrow> finalizer_status option host_program" where
  "engineFinalizer w = perform (EngineFinalizer w) (\<lambda>r. case r of FinalizerAnswer x \<Rightarrow> Some x | _ \<Rightarrow> None)"

definition command :: "control_operation \<Rightarrow> unit host_program" where
  "command op = perform op (\<lambda>r. case r of DoneAnswer \<Rightarrow> Some () | _ \<Rightarrow> None)"

definition fenceAttempt :: "goal_state \<Rightarrow> nat \<Rightarrow> fence_outcome host_program" where
  "fenceAttempt s i = perform (FenceAttempt s i) (\<lambda>r. case r of FenceAnswer x \<Rightarrow> Some x | _ \<Rightarrow> None)"

definition cancelRun :: "jstr \<Rightarrow> stop_outcome host_program" where
  "cancelRun r = perform (CancelRun r) (\<lambda>a. case a of StopAnswer x \<Rightarrow> Some x | _ \<Rightarrow> None)"

definition cleanUpHistory :: "jstr \<Rightarrow> cleanup_acknowledgement host_program" where
  "cleanUpHistory w = perform (CleanUpHistory w) (\<lambda>a. case a of CleanupAnswer x \<Rightarrow> Some x | _ \<Rightarrow> None)"

definition reconcile :: "jstr \<Rightarrow> nat \<Rightarrow> jstr \<Rightarrow> reconciliation host_program" where
  "reconcile g i r = perform (Reconcile g i r) (\<lambda>a. case a of ReconcileAnswer x \<Rightarrow> Some x | _ \<Rightarrow> None)"

definition startWithinBudget :: "start_request \<Rightarrow> start_answer option host_program" where
  "startWithinBudget rq = perform (StartWithinBudget rq) (\<lambda>a. case a of StartAnswer x \<Rightarrow> Some x | _ \<Rightarrow> None)"

definition storeList :: "goal_state list host_program" where
  "storeList = perform StoreList (\<lambda>a. case a of RecordsAnswer x \<Rightarrow> Some x | _ \<Rightarrow> None)"

definition storeCreate :: "goal_state \<Rightarrow> creation host_program" where
  "storeCreate s = perform (StoreCreate s) (\<lambda>a. case a of CreationAnswer x \<Rightarrow> Some x | _ \<Rightarrow> None)"

definition nextGoalRunId :: "jstr host_program" where
  "nextGoalRunId = perform NextGoalRunId (\<lambda>a. case a of StampAnswer x \<Rightarrow> Some x | _ \<Rightarrow> None)"

definition planAgent :: "jstr \<Rightarrow> bool option host_program" where
  "planAgent name = perform (PlanAgent name) (\<lambda>a. case a of PlanAnswer x \<Rightarrow> Some x | _ \<Rightarrow> None)"

definition catalogResolve :: "jsval \<Rightarrow> validator_resolution host_program" where
  "catalogResolve v = perform (ResolveValidator v) (\<lambda>a. case a of ValidatorAnswer x \<Rightarrow> Some x | _ \<Rightarrow> None)"

definition readRunRecord :: "jstr \<Rightarrow> run_load host_program" where
  "readRunRecord run = perform (ReadRunRecord run) (\<lambda>a. case a of RunRecordAnswer x \<Rightarrow> Some x | _ \<Rightarrow> None)"

definition readWorkflow :: "jstr \<Rightarrow> workflow_state option host_program" where
  "readWorkflow run = perform (ReadWorkflow run) (\<lambda>a. case a of WorkflowStateAnswer x \<Rightarrow> Some x | _ \<Rightarrow> None)"

definition readRunResult :: "jstr \<Rightarrow> run_result_reading host_program" where
  "readRunResult run = perform (ReadRunResult run) (\<lambda>a. case a of ReadingAnswer x \<Rightarrow> Some x | _ \<Rightarrow> None)"

definition verifySession :: "goal_state \<Rightarrow> nat \<Rightarrow> jstr option host_program" where
  "verifySession s i = perform (VerifySession s i) (\<lambda>a. case a of SessionAnswer x \<Rightarrow> Some x | _ \<Rightarrow> None)"

definition seatAttempt :: "goal_state \<Rightarrow> start_request \<Rightarrow> seat host_program" where
  "seatAttempt s rq = perform (SeatAttempt s rq) (\<lambda>a. case a of SeatAnswer x \<Rightarrow> Some x | _ \<Rightarrow> None)"

definition executeValidation :: "goal_state \<Rightarrow> validator_request \<Rightarrow> execution host_program" where
  "executeValidation s vq = perform (ExecuteValidator s vq) (\<lambda>a. case a of ExecutionAnswer x \<Rightarrow> Some x | _ \<Rightarrow> None)"

subsection \<open>What holds after each step\<close>

text \<open>The reasoning of \<open>ensures\<close>, one rule per operation: its answer, or a rejection.\<close>

named_theorems control_steps

lemma ensures_perform:
  assumes "\<And>r. control_fits p op r \<longleftrightarrow> (\<exists>e. r = Rejection e) \<and> rejects \<or> (\<exists>x. r = C x \<and> P x)"
    and "\<And>x. read (C x) = Some x" "\<And>x e. C x \<noteq> Rejection e"
  shows "ensures (control_fits p) (perform op read) tr Q \<longleftrightarrow>
     (\<forall>x. P x \<longrightarrow> Q (tr @ [(op, C x)]) (Inr x)) \<and> (rejects \<longrightarrow> (\<forall>e. Q (tr @ [(op, Rejection e)]) (Inl e)))"
proof -
  have c: "ensures (control_fits p) (case C x of Rejection e \<Rightarrow> Raise e
      | _ \<Rightarrow> (case read (C x) of None \<Rightarrow> Raise (Fault []) | Some y \<Rightarrow> Ret y)) t Q = Q t (Inr x)" for x t
  proof -
    have "\<forall>e. C x \<noteq> Rejection e" using assms(3) by blast
    then show ?thesis using assms(2) [of x] by (cases "C x") simp_all
  qed
  show ?thesis unfolding perform_def ensures.simps assms(1) by (auto simp: c)
qed

lemma ensures_storeGet [control_steps]:
  "ensures (control_fits p) (storeGet g) tr Q \<longleftrightarrow>
     (\<forall>x. pred_option (\<lambda>s. s_goalRunId s = g \<and> validState p s) x \<longrightarrow> Q (tr @ [(StoreGet g, RecordAnswer x)]) (Inr x))
     \<and> (\<forall>e. Q (tr @ [(StoreGet g, Rejection e)]) (Inl e))"
  unfolding storeGet_def
  by (subst ensures_perform [where C = RecordAnswer and P = "\<lambda>x. pred_option (\<lambda>s. s_goalRunId s = g \<and> validState p s) x" and rejects = True])
    (auto simp: control_fits_def)

lemma ensures_storeIsUnreadable [control_steps]:
  "ensures (control_fits p) (storeIsUnreadable g) tr Q \<longleftrightarrow>
     (\<forall>x. Q (tr @ [(StoreIsUnreadable g, FlagAnswer x)]) (Inr x))
     \<and> (\<forall>e. Q (tr @ [(StoreIsUnreadable g, Rejection e)]) (Inl e))"
  unfolding storeIsUnreadable_def
  by (subst ensures_perform [where C = FlagAnswer and P = "\<lambda>_. True" and rejects = True])
    (auto simp: control_fits_def)

lemma ensures_requestCancellation [control_steps]:
  "ensures (control_fits p) (storeControl (StoreRequestCancellation g marker now)) tr Q \<longleftrightarrow>
     (\<forall>x. control_answered g (evaluateCancellation marker now) x \<longrightarrow> Q (tr @ [(StoreRequestCancellation g marker now, ControlAnswer x)]) (Inr x))
     \<and> (\<forall>e. Q (tr @ [(StoreRequestCancellation g marker now, Rejection e)]) (Inl e))"
  unfolding storeControl_def
  by (subst ensures_perform [where C = ControlAnswer and P = "\<lambda>x. control_answered g (evaluateCancellation marker now) x" and rejects = True])
    (auto simp: control_fits_def)

lemma ensures_recordRestart [control_steps]:
  "ensures (control_fits p) (storeControl (StoreRecordRestart g now count)) tr Q \<longleftrightarrow>
     (\<forall>x. control_answered g (evaluateRestart now (Some count)) x \<longrightarrow> Q (tr @ [(StoreRecordRestart g now count, ControlAnswer x)]) (Inr x))
     \<and> (\<forall>e. Q (tr @ [(StoreRecordRestart g now count, Rejection e)]) (Inl e))"
  unfolding storeControl_def
  by (subst ensures_perform [where C = ControlAnswer and P = "\<lambda>x. control_answered g (evaluateRestart now (Some count)) x" and rejects = True])
    (auto simp: control_fits_def)

lemma ensures_storeClose [control_steps]:
  "ensures (control_fits p) (storeControl (StoreClose g now)) tr Q \<longleftrightarrow>
     (\<forall>x. control_answered g (evaluateClose now) x \<longrightarrow> Q (tr @ [(StoreClose g now, ControlAnswer x)]) (Inr x))
     \<and> (\<forall>e. Q (tr @ [(StoreClose g now, Rejection e)]) (Inl e))"
  unfolding storeControl_def
  by (subst ensures_perform [where C = ControlAnswer and P = "\<lambda>x. control_answered g (evaluateClose now) x" and rejects = True])
    (auto simp: control_fits_def)

lemma ensures_markCleanedUp [control_steps]:
  "ensures (control_fits p) (storeControl (StoreMarkCleanedUp g now)) tr Q \<longleftrightarrow>
     (\<forall>x. control_answered g (evaluateCleanedUp now) x \<longrightarrow> Q (tr @ [(StoreMarkCleanedUp g now, ControlAnswer x)]) (Inr x))
     \<and> (\<forall>e. Q (tr @ [(StoreMarkCleanedUp g now, Rejection e)]) (Inl e))"
  unfolding storeControl_def
  by (subst ensures_perform [where C = ControlAnswer and P = "\<lambda>x. control_answered g (evaluateCleanedUp now) x" and rejects = True])
    (auto simp: control_fits_def)

lemma ensures_storeApply [control_steps]:
  "ensures (control_fits p) (storeApply rq) tr Q \<longleftrightarrow>
     (\<forall>x. x \<noteq> Thrown \<and> (x = Missing \<or> x = Corrupt \<or> (\<exists>u v. s_goalRunId u = rq_goalRunId rq \<and> store_answers p rq u x v)) \<longrightarrow> Q (tr @ [(StoreApplyTransition rq, TransitionAnswer x)]) (Inr x))
     \<and> (\<forall>e. Q (tr @ [(StoreApplyTransition rq, Rejection e)]) (Inl e))"
  unfolding storeApply_def
  by (subst ensures_perform [where C = TransitionAnswer and P = "\<lambda>x. x \<noteq> Thrown \<and> (x = Missing \<or> x = Corrupt \<or> (\<exists>u v. s_goalRunId u = rq_goalRunId rq \<and> store_answers p rq u x v))" and rejects = True])
    (auto simp: control_fits_def)

lemma ensures_clockNow [control_steps]:
  "ensures (control_fits p) (clockNow) tr Q \<longleftrightarrow>
     (\<forall>x. Q (tr @ [(ClockNow, InstantAnswer x)]) (Inr x))"
  unfolding clockNow_def
  by (subst ensures_perform [where C = InstantAnswer and P = "\<lambda>_. True" and rejects = False])
    (auto simp: control_fits_def)

lemma ensures_clockNowIso [control_steps]:
  "ensures (control_fits p) (clockNowIso) tr Q \<longleftrightarrow>
     (\<forall>x. Q (tr @ [(ClockNowIso, StampAnswer x)]) (Inr x))"
  unfolding clockNowIso_def
  by (subst ensures_perform [where C = StampAnswer and P = "\<lambda>_. True" and rejects = False])
    (auto simp: control_fits_def)

lemma ensures_resolveDeterminism [control_steps]:
  "ensures (control_fits p) (resolveDeterminism v) tr Q \<longleftrightarrow>
     (\<forall>x. Q (tr @ [(ResolveDeterminism v, DeterminismAnswer x)]) (Inr x))
     \<and> (\<forall>e. Q (tr @ [(ResolveDeterminism v, Rejection e)]) (Inl e))"
  unfolding resolveDeterminism_def
  by (subst ensures_perform [where C = DeterminismAnswer and P = "\<lambda>_. True" and rejects = True])
    (auto simp: control_fits_def)

lemma ensures_isClosing [control_steps]:
  "ensures (control_fits p) (askFlag IsClosing) tr Q \<longleftrightarrow>
     (\<forall>x. Q (tr @ [(IsClosing, FlagAnswer x)]) (Inr x))"
  unfolding askFlag_def
  by (subst ensures_perform [where C = FlagAnswer and P = "\<lambda>_. True" and rejects = False])
    (auto simp: control_fits_def)

lemma ensures_hasEngine [control_steps]:
  "ensures (control_fits p) (askFlag HasEngine) tr Q \<longleftrightarrow>
     (\<forall>x. Q (tr @ [(HasEngine, FlagAnswer x)]) (Inr x))"
  unfolding askFlag_def
  by (subst ensures_perform [where C = FlagAnswer and P = "\<lambda>_. True" and rejects = False])
    (auto simp: control_fits_def)

lemma ensures_engineGet [control_steps]:
  "ensures (control_fits p) (engineGet w) tr Q \<longleftrightarrow>
     (\<forall>x. Q (tr @ [(EngineGet w, WorkflowAnswer x)]) (Inr x))
     \<and> (\<forall>e. Q (tr @ [(EngineGet w, Rejection e)]) (Inl e))"
  unfolding engineGet_def
  by (subst ensures_perform [where C = WorkflowAnswer and P = "\<lambda>_. True" and rejects = True])
    (auto simp: control_fits_def)

lemma ensures_engineFinalizer [control_steps]:
  "ensures (control_fits p) (engineFinalizer w) tr Q \<longleftrightarrow>
     (\<forall>x. Q (tr @ [(EngineFinalizer w, FinalizerAnswer x)]) (Inr x))
     \<and> (\<forall>e. Q (tr @ [(EngineFinalizer w, Rejection e)]) (Inl e))"
  unfolding engineFinalizer_def
  by (subst ensures_perform [where C = FinalizerAnswer and P = "\<lambda>_. True" and rejects = True])
    (auto simp: control_fits_def)

lemma ensures_fenceAttempt [control_steps]:
  "ensures (control_fits p) (fenceAttempt s i) tr Q \<longleftrightarrow>
     (\<forall>x. Q (tr @ [(FenceAttempt s i, FenceAnswer x)]) (Inr x))
     \<and> (\<forall>e. Q (tr @ [(FenceAttempt s i, Rejection e)]) (Inl e))"
  unfolding fenceAttempt_def
  by (subst ensures_perform [where C = FenceAnswer and P = "\<lambda>_. True" and rejects = True])
    (auto simp: control_fits_def)

lemma ensures_cancelRun [control_steps]:
  "ensures (control_fits p) (cancelRun run) tr Q \<longleftrightarrow>
     (\<forall>x. Q (tr @ [(CancelRun run, StopAnswer x)]) (Inr x))
     \<and> (\<forall>e. Q (tr @ [(CancelRun run, Rejection e)]) (Inl e))"
  unfolding cancelRun_def
  by (subst ensures_perform [where C = StopAnswer and P = "\<lambda>_. True" and rejects = True])
    (auto simp: control_fits_def)

lemma ensures_cleanUpHistory [control_steps]:
  "ensures (control_fits p) (cleanUpHistory w) tr Q \<longleftrightarrow>
     (\<forall>x. Q (tr @ [(CleanUpHistory w, CleanupAnswer x)]) (Inr x))
     \<and> (\<forall>e. Q (tr @ [(CleanUpHistory w, Rejection e)]) (Inl e))"
  unfolding cleanUpHistory_def
  by (subst ensures_perform [where C = CleanupAnswer and P = "\<lambda>_. True" and rejects = True])
    (auto simp: control_fits_def)

lemma ensures_reconcile [control_steps]:
  "ensures (control_fits p) (reconcile g i run) tr Q \<longleftrightarrow>
     (\<forall>x. Q (tr @ [(Reconcile g i run, ReconcileAnswer x)]) (Inr x))
     \<and> (\<forall>e. Q (tr @ [(Reconcile g i run, Rejection e)]) (Inl e))"
  unfolding reconcile_def
  by (subst ensures_perform [where C = ReconcileAnswer and P = "\<lambda>_. True" and rejects = True])
    (auto simp: control_fits_def)

lemma ensures_startWithinBudget [control_steps]:
  "ensures (control_fits p) (startWithinBudget rq) tr Q \<longleftrightarrow>
     (\<forall>x. Q (tr @ [(StartWithinBudget rq, StartAnswer x)]) (Inr x))
     \<and> (\<forall>e. Q (tr @ [(StartWithinBudget rq, Rejection e)]) (Inl e))"
  unfolding startWithinBudget_def
  by (subst ensures_perform [where C = StartAnswer and P = "\<lambda>_. True" and rejects = True])
    (auto simp: control_fits_def)

lemma ensures_storeList [control_steps]:
  "ensures (control_fits p) (storeList) tr Q \<longleftrightarrow>
     (\<forall>x. list_all (validState p) x \<longrightarrow> Q (tr @ [(StoreList, RecordsAnswer x)]) (Inr x))
     \<and> (\<forall>e. Q (tr @ [(StoreList, Rejection e)]) (Inl e))"
  unfolding storeList_def
  by (subst ensures_perform [where C = RecordsAnswer and P = "\<lambda>x. list_all (validState p) x" and rejects = True])
    (auto simp: control_fits_def)

lemma ensures_storeCreate [control_steps]:
  "ensures (control_fits p) (storeCreate s) tr Q \<longleftrightarrow>
     (\<forall>x. creation_answered p s x \<longrightarrow> Q (tr @ [(StoreCreate s, CreationAnswer x)]) (Inr x))
     \<and> (\<forall>e. Q (tr @ [(StoreCreate s, Rejection e)]) (Inl e))"
  unfolding storeCreate_def
  by (subst ensures_perform [where C = CreationAnswer and P = "\<lambda>x. creation_answered p s x" and rejects = True])
    (auto simp: control_fits_def)

lemma ensures_nextGoalRunId [control_steps]:
  "ensures (control_fits p) (nextGoalRunId) tr Q \<longleftrightarrow>
     (\<forall>x. Q (tr @ [(NextGoalRunId, StampAnswer x)]) (Inr x))
     \<and> (\<forall>e. Q (tr @ [(NextGoalRunId, Rejection e)]) (Inl e))"
  unfolding nextGoalRunId_def
  by (subst ensures_perform [where C = StampAnswer and P = "\<lambda>_. True" and rejects = True])
    (auto simp: control_fits_def)

lemma ensures_planAgent [control_steps]:
  "ensures (control_fits p) (planAgent name) tr Q \<longleftrightarrow>
     (\<forall>x. Q (tr @ [(PlanAgent name, PlanAnswer x)]) (Inr x))
     \<and> (\<forall>e. Q (tr @ [(PlanAgent name, Rejection e)]) (Inl e))"
  unfolding planAgent_def
  by (subst ensures_perform [where C = PlanAnswer and P = "\<lambda>_. True" and rejects = True])
    (auto simp: control_fits_def)

lemma ensures_catalogResolve [control_steps]:
  "ensures (control_fits p) (catalogResolve v) tr Q \<longleftrightarrow>
     (\<forall>x. Q (tr @ [(ResolveValidator v, ValidatorAnswer x)]) (Inr x))
     \<and> (\<forall>e. Q (tr @ [(ResolveValidator v, Rejection e)]) (Inl e))"
  unfolding catalogResolve_def
  by (subst ensures_perform [where C = ValidatorAnswer and P = "\<lambda>_. True" and rejects = True])
    (auto simp: control_fits_def)

lemma ensures_signalAborted [control_steps]:
  "ensures (control_fits p) (askFlag SignalAborted) tr Q \<longleftrightarrow>
     (\<forall>x. Q (tr @ [(SignalAborted, FlagAnswer x)]) (Inr x))"
  unfolding askFlag_def
  by (subst ensures_perform [where C = FlagAnswer and P = "\<lambda>_. True" and rejects = False])
    (auto simp: control_fits_def)

lemma ensures_readRunRecord [control_steps]:
  "ensures (control_fits p) (readRunRecord run) tr Q \<longleftrightarrow>
     (\<forall>x. Q (tr @ [(ReadRunRecord run, RunRecordAnswer x)]) (Inr x))
     \<and> (\<forall>e. Q (tr @ [(ReadRunRecord run, Rejection e)]) (Inl e))"
  unfolding readRunRecord_def
  by (subst ensures_perform [where C = RunRecordAnswer and P = "\<lambda>_. True" and rejects = True])
    (auto simp: control_fits_def)

lemma ensures_readWorkflow [control_steps]:
  "ensures (control_fits p) (readWorkflow run) tr Q \<longleftrightarrow>
     (\<forall>x. Q (tr @ [(ReadWorkflow run, WorkflowStateAnswer x)]) (Inr x))
     \<and> (\<forall>e. Q (tr @ [(ReadWorkflow run, Rejection e)]) (Inl e))"
  unfolding readWorkflow_def
  by (subst ensures_perform [where C = WorkflowStateAnswer and P = "\<lambda>_. True" and rejects = True])
    (auto simp: control_fits_def)

lemma ensures_readRunResult [control_steps]:
  "ensures (control_fits p) (readRunResult run) tr Q \<longleftrightarrow>
     (\<forall>x. Q (tr @ [(ReadRunResult run, ReadingAnswer x)]) (Inr x))
     \<and> (\<forall>e. Q (tr @ [(ReadRunResult run, Rejection e)]) (Inl e))"
  unfolding readRunResult_def
  by (subst ensures_perform [where C = ReadingAnswer and P = "\<lambda>_. True" and rejects = True])
    (auto simp: control_fits_def)

lemma ensures_verifySession [control_steps]:
  "ensures (control_fits p) (verifySession s i) tr Q \<longleftrightarrow>
     (\<forall>x. Q (tr @ [(VerifySession s i, SessionAnswer x)]) (Inr x))
     \<and> (\<forall>e. Q (tr @ [(VerifySession s i, Rejection e)]) (Inl e))"
  unfolding verifySession_def
  by (subst ensures_perform [where C = SessionAnswer and P = "\<lambda>_. True" and rejects = True])
    (auto simp: control_fits_def)

lemma ensures_seatAttempt [control_steps]:
  "ensures (control_fits p) (seatAttempt s rq) tr Q \<longleftrightarrow>
     (\<forall>x. Q (tr @ [(SeatAttempt s rq, SeatAnswer x)]) (Inr x))
     \<and> (\<forall>e. Q (tr @ [(SeatAttempt s rq, Rejection e)]) (Inl e))"
  unfolding seatAttempt_def
  by (subst ensures_perform [where C = SeatAnswer and P = "\<lambda>_. True" and rejects = True])
    (auto simp: control_fits_def)

lemma ensures_executeValidation [control_steps]:
  "ensures (control_fits p) (executeValidation s vq) tr Q \<longleftrightarrow>
     (\<forall>x. ok_outcome (ex_outcome x) \<longrightarrow> Q (tr @ [(ExecuteValidator s vq, ExecutionAnswer x)]) (Inr x))
     \<and> (\<forall>e. Q (tr @ [(ExecuteValidator s vq, Rejection e)]) (Inl e))"
  unfolding executeValidation_def
  by (subst ensures_perform [where C = ExecutionAnswer and P = "\<lambda>x. ok_outcome (ex_outcome x)" and rejects = True])
    (auto simp: control_fits_def)

text \<open>A command of the engine, the forwarder or the sessions.\<close>

fun isCommand :: "control_operation \<Rightarrow> bool" where
  "isCommand (EngineStart w replace) \<longleftrightarrow> True"
| "isCommand (EngineSignalCancel w i) \<longleftrightarrow> True"
| "isCommand (EngineCancel w) \<longleftrightarrow> True"
| "isCommand (EngineResume w) \<longleftrightarrow> True"
| "isCommand DrainForwarder \<longleftrightarrow> True"
| "isCommand (ValidateArtifact a now) \<longleftrightarrow> True"
| "isCommand (RecordStart s rq) \<longleftrightarrow> True"
| "isCommand (WatchAttempt g i run) \<longleftrightarrow> True"
| "isCommand (StartRun start) \<longleftrightarrow> True"
| "isCommand (ResolveCost run) \<longleftrightarrow> True"
| "isCommand _ \<longleftrightarrow> False"

lemma ensures_command [control_steps]:
  "isCommand op \<Longrightarrow> ensures (control_fits p) (command op) tr Q \<longleftrightarrow>
     Q (tr @ [(op, DoneAnswer)]) (Inr ()) \<and> (\<forall>e. Q (tr @ [(op, Rejection e)]) (Inl e))"
  unfolding command_def
  by (subst ensures_perform [where C = "\<lambda>_ :: unit. DoneAnswer" and P = "\<lambda>_. True" and rejects = True])
    (cases op; auto simp: control_fits_def)+

text \<open>How often one step performs an operation.\<close>

lemma performs_perform: "performsAtMost P n (perform op read) \<longleftrightarrow> (P op \<longrightarrow> n > 0)"
proof -
  have "performsAtMost P n' (case r of Rejection e \<Rightarrow> Raise e
    | _ \<Rightarrow> (case read r of None \<Rightarrow> Raise (Fault []) | Some x \<Rightarrow> Ret x))" for n' r
    by (auto split: control_answer.split option.split)
  then show ?thesis by (auto simp: perform_def)
qed

lemma performs_steps [simp]:
  "performsAtMost P n (storeGet g) \<longleftrightarrow> (P (StoreGet g) \<longrightarrow> n > 0)"
  "performsAtMost P n (storeIsUnreadable g) \<longleftrightarrow> (P (StoreIsUnreadable g) \<longrightarrow> n > 0)"
  "performsAtMost P n (storeControl op) \<longleftrightarrow> (P op \<longrightarrow> n > 0)"
  "performsAtMost P n (storeApply rq) \<longleftrightarrow> (P (StoreApplyTransition rq) \<longrightarrow> n > 0)"
  "performsAtMost P n clockNow \<longleftrightarrow> (P ClockNow \<longrightarrow> n > 0)"
  "performsAtMost P n clockNowIso \<longleftrightarrow> (P ClockNowIso \<longrightarrow> n > 0)"
  "performsAtMost P n (resolveDeterminism v) \<longleftrightarrow> (P (ResolveDeterminism v) \<longrightarrow> n > 0)"
  "performsAtMost P n (askFlag op) \<longleftrightarrow> (P op \<longrightarrow> n > 0)"
  "performsAtMost P n (engineGet w) \<longleftrightarrow> (P (EngineGet w) \<longrightarrow> n > 0)"
  "performsAtMost P n (engineFinalizer w) \<longleftrightarrow> (P (EngineFinalizer w) \<longrightarrow> n > 0)"
  "performsAtMost P n (command op) \<longleftrightarrow> (P op \<longrightarrow> n > 0)"
  "performsAtMost P n (fenceAttempt s i) \<longleftrightarrow> (P (FenceAttempt s i) \<longrightarrow> n > 0)"
  "performsAtMost P n (cancelRun runId) \<longleftrightarrow> (P (CancelRun runId) \<longrightarrow> n > 0)"
  "performsAtMost P n (cleanUpHistory w) \<longleftrightarrow> (P (CleanUpHistory w) \<longrightarrow> n > 0)"
  "performsAtMost P n (reconcile g i runId) \<longleftrightarrow> (P (Reconcile g i runId) \<longrightarrow> n > 0)"
  "performsAtMost P n (startWithinBudget start) \<longleftrightarrow> (P (StartWithinBudget start) \<longrightarrow> n > 0)"
  "performsAtMost P n storeList \<longleftrightarrow> (P StoreList \<longrightarrow> n > 0)"
  "performsAtMost P n (storeCreate s) \<longleftrightarrow> (P (StoreCreate s) \<longrightarrow> n > 0)"
  "performsAtMost P n nextGoalRunId \<longleftrightarrow> (P NextGoalRunId \<longrightarrow> n > 0)"
  "performsAtMost P n (planAgent name) \<longleftrightarrow> (P (PlanAgent name) \<longrightarrow> n > 0)"
  "performsAtMost P n (catalogResolve named) \<longleftrightarrow> (P (ResolveValidator named) \<longrightarrow> n > 0)"
  "performsAtMost P n (readRunRecord runId) \<longleftrightarrow> (P (ReadRunRecord runId) \<longrightarrow> n > 0)"
  "performsAtMost P n (readWorkflow runId) \<longleftrightarrow> (P (ReadWorkflow runId) \<longrightarrow> n > 0)"
  "performsAtMost P n (readRunResult runId) \<longleftrightarrow> (P (ReadRunResult runId) \<longrightarrow> n > 0)"
  "performsAtMost P n (verifySession s i) \<longleftrightarrow> (P (VerifySession s i) \<longrightarrow> n > 0)"
  "performsAtMost P n (seatAttempt s sr) \<longleftrightarrow> (P (SeatAttempt s sr) \<longrightarrow> n > 0)"
  "performsAtMost P n (executeValidation s vq) \<longleftrightarrow> (P (ExecuteValidator s vq) \<longrightarrow> n > 0)"
  by (simp_all add: storeGet_def storeIsUnreadable_def storeControl_def storeApply_def clockNow_def
      clockNowIso_def resolveDeterminism_def askFlag_def engineGet_def engineFinalizer_def command_def
      fenceAttempt_def cancelRun_def cleanUpHistory_def reconcile_def startWithinBudget_def
      storeList_def storeCreate_def nextGoalRunId_def planAgent_def catalogResolve_def readRunRecord_def readWorkflow_def readRunResult_def verifySession_def
      seatAttempt_def executeValidation_def performs_perform)

end
