(* ===== verification/GoalControl.thy ===== *)
theory GoalControl
  imports GoalHost
begin

section \<open>What the control plane does to a controller and its record\<close>

text \<open>
  \<open>packages/bureau/src/goal-controller.ts\<close>: starting a controller under its stable id, the
  attempts an ending may have overtaken, fencing them, committing a cancellation from the host,
  and the determinism check made wherever a controller is about to be started.
\<close>

fun isTerminalController :: "workflow_status \<Rightarrow> bool" where
  "isTerminalController WfCompleted \<longleftrightarrow> True"
| "isTerminalController WfFailed \<longleftrightarrow> True"
| "isTerminalController WfCancelled \<longleftrightarrow> True"
| "isTerminalController WfTimedOut \<longleftrightarrow> True"
| "isTerminalController _ \<longleftrightarrow> False"

datatype started = StartedNow | AlreadyExists

definition startController :: "jstr \<Rightarrow> bool \<Rightarrow> started host_program" where
  "startController goalRunId replaceTerminal =
     catchE (bindE (command (EngineStart (goalWorkflowId goalRunId) replaceTerminal)) (\<lambda>_. Ret StartedNow))
       (\<lambda>e. if e = WorkflowExists then Ret AlreadyExists else Raise e)"

definition attemptToStop :: "goal_state \<Rightarrow> abort_request" where
  "attemptToStop record =
     (let attemptIndex = (case lastOf (s_attempts record) of
            Some current \<Rightarrow>
              if a_status current = ARunning \<or> a_status current = AEvaluating then a_attemptIndex current
              else length (s_attempts record)
          | None \<Rightarrow> length (s_attempts record))
      in \<lparr>ab_goalRunId = s_goalRunId record, ab_attemptIndex = attemptIndex,
          ab_attemptId = goalAttemptId (s_goalRunId record) attemptIndex,
          ab_runId = goalAttemptRunId (s_goalRunId record) attemptIndex\<rparr>)"

definition attemptIndexesToStop :: "goal_state \<Rightarrow> nat list" where
  "attemptIndexesToStop record =
     (let named = ab_attemptIndex (attemptToStop record);
          indexes = (case lastOf (s_attempts record) of
              None \<Rightarrow> [named]
            | Some current \<Rightarrow> if a_attemptIndex current = named then [named] else [named, a_attemptIndex current])
      in filter (\<lambda>index. jlt (jnat index) (b_maximumAttempts (s_bounds record))) indexes)"

definition fenceOvertakenAttempts :: "goal_state \<Rightarrow> bool host_program" where
  "fenceOvertakenAttempts record =
     foldE (\<lambda>attemptIndex allFenced.
         catchE (bindE (fenceAttempt record attemptIndex) (\<lambda>_. Ret allFenced)) (\<lambda>_. Ret False))
       (attemptIndexesToStop record) True"

text \<open>\<open>None\<close> is \<open>not-needed\<close>; a clock reading that is no date makes the builder throw.\<close>

definition commitCancellation :: "goal_state \<Rightarrow> jnum \<Rightarrow> transition_result mutation option host_program" where
  "commitCancellation record nowMs =
     (if s_status record = Canceled then Ret None
      else case buildGoalForcedFinish (toGoalWorkflowView record) bureauIdentifiers nowMs
          (decideCancellation :: json goal_decision) of
        None \<Rightarrow> Raise (Fault [])
      | Some request \<Rightarrow> bindE (storeApply request) (\<lambda>result. Ret (Some result)))"

definition determinismRequest :: "goal_state \<Rightarrow> jstr \<Rightarrow> terminal_reason \<Rightarrow> jstr option \<Rightarrow> transition_request" where
  "determinismRequest record stamp reason detail =
     \<lparr>rq_goalRunId = s_goalRunId record, rq_seq = 1,
      rq_transitionId = goalTransitionId (s_goalRunId record) 1, rq_to = Failed, rq_at = stamp,
      rq_cause = lit ''fail: '' @ lit (reasonText reason), rq_terminalReason = Some reason,
      rq_failureDetail = detail, rq_attempt = None, rq_usage = None, rq_active = KeepActive\<rparr>"

definition enforceDeterminism :: "goal_state \<Rightarrow> goal_state option host_program" where
  "enforceDeterminism record =
     (if s_status record \<noteq> Pending \<or> s_transitionSeq record \<noteq> 0 then Ret None
      else bindE (resolveDeterminism (s_validator record)) (\<lambda>resolution.
        case resolution of
          None \<Rightarrow> Ret None
        | Some determinism \<Rightarrow>
            (case (decideDeterminismRequirement (Some (s_requireDeterministicValidation record)) determinism
                :: json goal_decision option) of
               Some (Fail reason _ detail) \<Rightarrow>
                 bindE clockNowIso (\<lambda>stamp.
                   bindE (storeApply (determinismRequest record stamp reason detail)) (\<lambda>ended.
                     case ended of
                       Answer (Applied r) \<Rightarrow> Ret (Some r)
                     | Answer (Duplicate r) \<Rightarrow> Ret (Some r)
                     | Answer (Rejected reason r) \<Rightarrow>
                         Ret (if isTerminalStatus (s_status r) \<or> s_cancellation r \<noteq> None then Some r else None)
                     | Answer (Stale r) \<Rightarrow>
                         Ret (if isTerminalStatus (s_status r) \<or> s_cancellation r \<noteq> None then Some r else None)
                     | _ \<Rightarrow> Ret None))
             | _ \<Rightarrow> Ret None)))"

datatype controller_start = ControllerStarted | ControllerStartFailed | ControllerNotNeeded

definition ensureController :: "goal_state \<Rightarrow> (goal_state \<times> controller_start) host_program" where
  "ensureController stale =
     bindE (storeGet (s_goalRunId stale)) (\<lambda>stored.
       case stored of
         None \<Rightarrow> Ret (stale, ControllerStartFailed)
       | Some record \<Rightarrow>
           if isTerminalStatus (s_status record) \<or> s_cancellation record \<noteq> None
           then Ret (record, ControllerNotNeeded)
           else bindE (enforceDeterminism record) (\<lambda>ended.
             case ended of
               Some r \<Rightarrow> Ret (r, ControllerNotNeeded)
             | None \<Rightarrow>
                 bindE (askFlag HasEngine) (\<lambda>engine.
                   if \<not> engine then Ret (record, ControllerStartFailed)
                   else catchE
                     (bindE (startController (s_goalRunId record) False) (\<lambda>start.
                        if start = AlreadyExists then
                          bindE (engineGet (goalWorkflowId (s_goalRunId record))) (\<lambda>existing.
                            if pred_option (\<lambda>w. \<not> isTerminalController (wr_status w)) existing
                            then Ret (record, ControllerStarted)
                            else Ret (record, ControllerStartFailed))
                        else Ret (record, ControllerStarted)))
                     (\<lambda>_. Ret (record, ControllerStartFailed)))))"

end
