(* ===== verification/GoalCancellation.thy ===== *)
theory GoalCancellation
  imports GoalControl
begin

section \<open>Cancelling a goal\<close>

text \<open>
  \<open>packages/bureau/src/goal-cancellation.ts\<close>: the marker first, then everything that makes the
  rest of the world agree, then one fresh read of everything that must be finished. \<open>scoped\<close> is
  whether the caller may see only its own goals.
\<close>

datatype cancellation_wait =
    WaitGoalRecord | WaitController | WaitFinalizer | WaitFinalizerFailed | WaitAttemptRun
  | WaitDurableEngine

datatype cancel_outcome =
    CancelDone goal_state
  | CancelPending goal_state "cancellation_wait list"
  | CancelAlreadyTerminal goal_state
  | CancelContended goal_state
  | CancelUnreadable
  | CancelNotFound

record cancel_options =
  co_principal :: "jstr option"
  co_reason :: "jstr option"

definition runsToStop :: "goal_state \<Rightarrow> jstr list" where
  "runsToStop record = map (goalAttemptRunId (s_goalRunId record)) (attemptIndexesToStop record)"

definition stopRuns :: "goal_state \<Rightarrow> bool host_program" where
  "stopRuns record =
     bindE (fenceOvertakenAttempts record) (\<lambda>fenced.
       bindE (foldE (\<lambda>runId _. catchE (bindE (cancelRun runId) (\<lambda>_. Ret ())) (\<lambda>_. Ret ()))
           (runsToStop record) ())
         (\<lambda>_. Ret fenced))"

text \<open>A read that rejects is \<open>None\<close>: never settled.\<close>

definition readable :: "'a host_program \<Rightarrow> 'a option host_program" where
  "readable m = catchE (bindE m (\<lambda>x. Ret (Some x))) (\<lambda>_. Ret None)"

definition isEnded :: "workflow_reading option option \<Rightarrow> bool" where
  "isEnded reading \<longleftrightarrow>
     (case reading of
        None \<Rightarrow> False
      | Some state \<Rightarrow> pred_option (\<lambda>w. isTerminalController (wr_status w)) state)"

text \<open>The reads of the attempts' runs, which the code makes at once.\<close>

definition unfinishedAfterCancellation ::
    "bool \<Rightarrow> jstr \<Rightarrow> jstr list \<Rightarrow> bool \<Rightarrow> cancellation_wait list host_program" where
  "unfinishedAfterCancellation engine goalRunId attemptRunIds recordCanceled =
     (let awaiting = (if recordCanceled then [] else [WaitGoalRecord])
      in if \<not> engine then Ret (awaiting @ [WaitDurableEngine])
         else
           bindE (readable (engineGet (goalWorkflowId goalRunId))) (\<lambda>controller.
             bindE (readable (engineFinalizer (goalWorkflowId goalRunId))) (\<lambda>finalizer.
               bindE (mapE (\<lambda>runId. readable (engineGet runId)) attemptRunIds) (\<lambda>runs.
                 Ret (awaiting
                   @ (if isEnded controller then [] else [WaitController])
                   @ (case finalizer of
                        Some (Some FzFailed) \<Rightarrow> [WaitFinalizerFailed]
                      | Some (Some FzSucceeded) \<Rightarrow> []
                      | Some None \<Rightarrow> []
                      | _ \<Rightarrow> [WaitFinalizer])
                   @ (if list_all isEnded runs then [] else [WaitAttemptRun]))))))"

definition withUnfenced :: "bool \<Rightarrow> cancellation_wait list \<Rightarrow> cancellation_wait list" where
  "withUnfenced fenced awaiting =
     (if \<not> fenced \<and> WaitAttemptRun \<notin> set awaiting then awaiting @ [WaitAttemptRun] else awaiting)"

definition readBack :: "jstr \<Rightarrow> jstr list \<Rightarrow> bool \<Rightarrow> bool \<Rightarrow> cancel_outcome host_program" where
  "readBack goalRunId attemptRunIds scoped fenced =
     bindE (storeGet goalRunId) (\<lambda>stored.
       case stored of
         None \<Rightarrow>
           if scoped then Ret CancelNotFound
           else bindE (storeIsUnreadable goalRunId) (\<lambda>unreadable.
             Ret (if unreadable then CancelUnreadable else CancelNotFound))
       | Some goal \<Rightarrow>
           bindE (askFlag HasEngine) (\<lambda>engine.
             bindE (unfinishedAfterCancellation engine goalRunId attemptRunIds (s_status goal = Canceled))
               (\<lambda>waits.
                 let awaiting = withUnfenced fenced waits
                 in Ret (if awaiting = [] then CancelDone goal else CancelPending goal awaiting))))"

definition settleCanceledGoal :: "goal_state \<Rightarrow> bool \<Rightarrow> cancel_outcome host_program" where
  "settleCanceledGoal record scoped =
     (let goalRunId = s_goalRunId record; attempts = runsToStop record
      in bindE (askFlag HasEngine) (\<lambda>engine.
           if \<not> engine then readBack goalRunId attempts scoped True
           else
             bindE (readable (engineGet (goalWorkflowId goalRunId))) (\<lambda>controller.
               bindE (case controller of
                   Some (Some w) \<Rightarrow>
                     if isTerminalController (wr_status w) then Ret ()
                     else catchE (command (EngineCancel (goalWorkflowId goalRunId))) (\<lambda>_. Ret ())
                 | _ \<Rightarrow> Ret ())
               (\<lambda>_. bindE (stopRuns record) (\<lambda>fenced.
                 readBack goalRunId attempts scoped fenced)))))"

text \<open>What follows the marker: wake and end the controller, stop the runs, commit, read back.\<close>

definition finishMarked :: "goal_state \<Rightarrow> bool \<Rightarrow> cancel_outcome host_program" where
  "finishMarked marked scoped =
     (let goalRunId = s_goalRunId marked
      in bindE (askFlag HasEngine) (\<lambda>engine.
           bindE (if \<not> engine then Ret True
             else
               bindE (catchE (command (EngineSignalCancel (goalWorkflowId goalRunId)
                   (cancelSignalId goalRunId))) (\<lambda>_. Ret ())) (\<lambda>_.
                 bindE (catchE (command (EngineCancel (goalWorkflowId goalRunId))) (\<lambda>_. Ret ())) (\<lambda>_.
                   stopRuns marked)))
             (\<lambda>fenced.
               bindE (storeGet goalRunId) (\<lambda>stored.
                 let latest = withDefault marked stored
                 in bindE (if isTerminalStatus (s_status latest) then Ret ()
                      else bindE clockNow (\<lambda>nowMs.
                        bindE (commitCancellation latest nowMs) (\<lambda>_. Ret ())))
                    (\<lambda>_. readBack goalRunId (runsToStop marked) scoped fenced)))))"

definition cancelGoal :: "goal_state \<Rightarrow> cancel_options \<Rightarrow> cancel_outcome host_program" where
  "cancelGoal record options =
     (let goalRunId = s_goalRunId record; scoped = (co_principal options \<noteq> None)
      in if s_status record = Canceled then settleCanceledGoal record scoped
         else if isTerminalStatus (s_status record) then Ret (CancelAlreadyTerminal record)
         else
           bindE clockNowIso (\<lambda>now.
             bindE (storeControl (StoreRequestCancellation goalRunId
                 \<lparr>cm_requestedAt = now, cm_principal = co_principal options, cm_reason = co_reason options\<rparr> now))
               (\<lambda>marked. case marked of
                   Corrupt \<Rightarrow> Ret (if co_principal options = None then CancelUnreadable else CancelNotFound)
                 | Missing \<Rightarrow> Ret CancelNotFound
                 | Thrown \<Rightarrow> Raise (Fault [])
                 | Answer (Refused reason r) \<Rightarrow>
                     if s_status r = Canceled then settleCanceledGoal r scoped
                     else Ret (CancelAlreadyTerminal r)
                 | Answer (ControlStale r) \<Rightarrow> Ret (CancelContended r)
                 | Answer (Updated r) \<Rightarrow> finishMarked r scoped
                 | Answer (Unchanged r) \<Rightarrow> finishMarked r scoped)))"

end
