(* ===== verification/GoalCleanup.thy ===== *)
theory GoalCleanup
  imports GoalControl
begin

section \<open>Pruning what a closed goal ran\<close>

text \<open>
  \<open>packages/bureau/src/goal-cleanup.ts\<close>: the checkpoint retention applied to the controller's
  history and to every attempt's, the acknowledgement being the worst of the parts.
\<close>

fun cleanupRank :: "cleanup_acknowledgement \<Rightarrow> nat" where
  "cleanupRank CleanupNotRequired = 0"
| "cleanupRank CleanupCompleted = 1"
| "cleanupRank CleanupUnresolved = 2"
| "cleanupRank CleanupFailed = 3"

definition worstCleanup :: "cleanup_acknowledgement list \<Rightarrow> cleanup_acknowledgement" where
  "worstCleanup acknowledgements =
     foldl (\<lambda>worst n. if cleanupRank n > cleanupRank worst then n else worst) CleanupNotRequired acknowledgements"

definition isCleanupDone :: "cleanup_acknowledgement \<Rightarrow> bool" where
  "isCleanupDone acknowledgement \<longleftrightarrow>
     acknowledgement = CleanupCompleted \<or> acknowledgement = CleanupNotRequired"

definition cleanUpWorkflow :: "jstr \<Rightarrow> cleanup_acknowledgement host_program" where
  "cleanUpWorkflow workflowId =
     catchE (bindE (engineGet workflowId) (\<lambda>state.
         if state = None then Ret CleanupNotRequired else cleanUpHistory workflowId))
       (\<lambda>_. Ret CleanupFailed)"

text \<open>\<open>Array.from({ length })\<close> rounds its length down and stops at \<open>2^53 - 1\<close>.\<close>

definition arrayLength :: "jnum \<Rightarrow> nat" where
  "arrayLength n =
     (case n of Fin r \<Rightarrow> min (nat \<lfloor>r\<rfloor>) (2 ^ 53 - 1)
      | PosInf \<Rightarrow> 2 ^ 53 - 1
      | _ \<Rightarrow> 0)"

definition goalHistories :: "goal_state \<Rightarrow> jstr list" where
  "goalHistories record =
     goalWorkflowId (s_goalRunId record)
     # map (goalAttemptRunId (s_goalRunId record)) [0..<arrayLength (b_maximumAttempts (s_bounds record))]"

definition cleanUpGoal :: "goal_state \<Rightarrow> cleanup_acknowledgement host_program" where
  "cleanUpGoal record =
     bindE (askFlag HasEngine) (\<lambda>engine.
       if \<not> engine then Ret CleanupUnresolved
       else bindE (command DrainForwarder) (\<lambda>_.
         bindE (mapE cleanUpWorkflow (goalHistories record)) (\<lambda>acknowledgements.
           Ret (worstCleanup acknowledgements))))"

subsection \<open>The worst part is the answer\<close>

lemma isCleanupDone_rank: "isCleanupDone a \<longleftrightarrow> cleanupRank a \<le> 1"
  by (cases a) (simp_all add: isCleanupDone_def)

lemma cleanupRank_foldl:
  "cleanupRank (foldl (\<lambda>worst n. if cleanupRank n > cleanupRank worst then n else worst) a xs)
     = fold max (map cleanupRank xs) (cleanupRank a)"
  by (induction xs arbitrary: a) (auto simp: max_def)

lemma fold_max_le: "fold max xs (a :: nat) \<le> b \<longleftrightarrow> a \<le> b \<and> list_all (\<lambda>x. x \<le> b) xs"
  by (induction xs arbitrary: a) auto

lemma worstCleanup_done: "isCleanupDone (worstCleanup xs) \<longleftrightarrow> list_all isCleanupDone xs"
  by (simp add: isCleanupDone_rank worstCleanup_def cleanupRank_foldl fold_max_le list_all_iff)

end
