(* ===== verification/GoalRecovery.thy ===== *)
theory GoalRecovery
  imports GoalCancellation GoalCleanup
begin

section \<open>Recovering a goal\<close>

text \<open>
  \<open>packages/bureau/src/goal-recovery.ts\<close>: what \<open>recover\<close> and the boot sweep do for one goal. The
  table of that file's header is \<open>recoverController\<close>; the attempt is \<open>recoverAttempt\<close>.
\<close>

datatype recovery_outcome =
    RcStarted | RcRestarted | RcRunning | RcRestartPending | RcCanceled | RcCancellationPending
  | RcCleanupPending | RcShuttingDown | RcUnsupportedValidation | RcAlreadyTerminal | RcNotFound
  | RcUnrecoverable

record controller_recovery =
  cr_outcome :: recovery_outcome
  cr_awaiting :: "cancellation_wait list"

definition recovered :: "recovery_outcome \<Rightarrow> controller_recovery" where
  "recovered outcome = \<lparr>cr_outcome = outcome, cr_awaiting = []\<rparr>"

definition stillWaiting :: "cancellation_wait list \<Rightarrow> controller_recovery" where
  "stillWaiting awaiting = \<lparr>cr_outcome = RcCancellationPending, cr_awaiting = awaiting\<rparr>"

subsection \<open>Completing a cancellation\<close>

datatype cancellation_commit = Committed | Settled controller_recovery

definition CANCELLATION_COMMIT_ATTEMPTS :: nat where
  "CANCELLATION_COMMIT_ATTEMPTS = 3"

text \<open>The rounds of the loop that are left; a round that lost goes on with the record it lost to.\<close>

primrec commitRounds :: "nat \<Rightarrow> goal_state \<Rightarrow> cancellation_commit host_program" where
  "commitRounds 0 current = Ret (Settled (stillWaiting [WaitGoalRecord]))"
| "commitRounds (Suc rounds) current =
     bindE clockNow (\<lambda>nowMs.
       bindE (commitCancellation current nowMs) (\<lambda>committed.
         case committed of
           None \<Rightarrow> Ret Committed
         | Some (Answer (Applied r)) \<Rightarrow> Ret Committed
         | Some (Answer (Duplicate r)) \<Rightarrow> Ret Committed
         | Some (Answer (Stale r)) \<Rightarrow>
             if s_status r = Canceled then Ret Committed
             else if isTerminalStatus (s_status r) then Ret (Settled (recovered RcAlreadyTerminal))
             else commitRounds rounds r
         | Some (Answer (Rejected reason r)) \<Rightarrow>
             if s_status r = Canceled then Ret Committed
             else if isTerminalStatus (s_status r) then Ret (Settled (recovered RcAlreadyTerminal))
             else Ret (Settled (recovered RcUnrecoverable))
         | Some Missing \<Rightarrow> Ret (Settled (recovered RcNotFound))
         | Some Corrupt \<Rightarrow> Ret (Settled (recovered RcUnrecoverable))
         | Some Thrown \<Rightarrow> Raise (Fault [])))"

definition settleCancellationCommit :: "goal_state \<Rightarrow> cancellation_commit host_program" where
  "settleCancellationCommit record = commitRounds CANCELLATION_COMMIT_ATTEMPTS record"

definition completeMarked :: "jstr \<Rightarrow> goal_state \<Rightarrow> controller_recovery host_program" where
  "completeMarked goalRunId marked =
     bindE (stopRuns marked) (\<lambda>fenced.
       bindE (settleCancellationCommit marked) (\<lambda>commit.
         case commit of
           Settled outcome \<Rightarrow> Ret outcome
         | Committed \<Rightarrow>
             bindE (askFlag HasEngine) (\<lambda>engine.
               bindE (unfinishedAfterCancellation engine goalRunId (runsToStop marked) True) (\<lambda>waits.
                 let awaiting = withUnfenced fenced waits
                 in Ret (if awaiting = [] then recovered RcCanceled else stillWaiting awaiting)))))"

definition completeCancellation :: "goal_state \<Rightarrow> controller_recovery host_program" where
  "completeCancellation record =
     (if s_cancellation record \<noteq> None then completeMarked (s_goalRunId record) record
      else bindE clockNowIso (\<lambda>now.
        bindE (storeControl (StoreRequestCancellation (s_goalRunId record)
            \<lparr>cm_requestedAt = now, cm_principal = None,
             cm_reason = Some (lit ''The goal controller was cancelled.'')\<rparr> now)) (\<lambda>outcome.
          case outcome of
            Answer (Refused reason r) \<Rightarrow>
              if s_status r \<noteq> Canceled then Ret (recovered RcAlreadyTerminal)
              else completeMarked (s_goalRunId record) r
          | Answer (Updated r) \<Rightarrow> completeMarked (s_goalRunId record) r
          | Answer (Unchanged r) \<Rightarrow> completeMarked (s_goalRunId record) r
          | Thrown \<Rightarrow> Raise (Fault [])
          | _ \<Rightarrow> Ret (recovered RcUnrecoverable))))"

definition endControllerAndCompleteCancellation :: "goal_state \<Rightarrow> controller_recovery host_program" where
  "endControllerAndCompleteCancellation record =
     bindE (askFlag HasEngine) (\<lambda>engine.
       bindE (if engine then catchE (command (EngineCancel (goalWorkflowId (s_goalRunId record)))) (\<lambda>_. Ret ())
           else Ret ())
         (\<lambda>_. completeCancellation record))"

text \<open>A fresh read just before a start; \<open>None\<close> when the goal still wants its controller.\<close>

definition standDownIfOvertaken :: "jstr \<Rightarrow> controller_recovery option host_program" where
  "standDownIfOvertaken goalRunId =
     bindE (storeGet goalRunId) (\<lambda>stored.
       case stored of
         None \<Rightarrow>
           bindE (storeIsUnreadable goalRunId) (\<lambda>unreadable.
             Ret (Some (recovered (if unreadable then RcUnrecoverable else RcNotFound))))
       | Some fresh \<Rightarrow>
           if s_cancellation fresh \<noteq> None
           then bindE (endControllerAndCompleteCancellation fresh) (\<lambda>outcome. Ret (Some outcome))
           else Ret (if isTerminalStatus (s_status fresh) then Some (recovered RcAlreadyTerminal) else None))"

definition commitWithoutEngine :: "goal_state \<Rightarrow> controller_recovery host_program" where
  "commitWithoutEngine record =
     bindE (settleCancellationCommit record) (\<lambda>commit.
       case commit of
         Settled outcome \<Rightarrow> Ret outcome
       | Committed \<Rightarrow> Ret (stillWaiting [WaitDurableEngine]))"

subsection \<open>Giving up, and restarting\<close>

text \<open>Fence, then cancel; the sentence it returns is left out.\<close>

definition stopOrphanedAttempts :: "goal_state \<Rightarrow> unit host_program" where
  "stopOrphanedAttempts record =
     bindE (fenceOvertakenAttempts record) (\<lambda>_.
       foldE (\<lambda>runId _. catchE (bindE (cancelRun runId) (\<lambda>_. Ret ())) (\<lambda>_. Ret ())) (runsToStop record) ())"

definition RESTART_START_GRACE_MS :: jnum where
  "RESTART_START_GRACE_MS = GOAL_ATTEMPT_ACKNOWLEDGEMENT_BUDGET_MS"

definition finalRestartIsInFlight :: "goal_state \<Rightarrow> workflow_reading \<Rightarrow> bool host_program" where
  "finalRestartIsInFlight record controller =
     (let entry = List.find (\<lambda>candidate. en_transitionId candidate
            = goalRestartId (s_goalRunId record) (s_controllerRestarts record)) (s_auditLog record);
          countedAt = dateParse (case entry of
              None \<Rightarrow> []
            | Some e \<Rightarrow> (case en_events e of [] \<Rightarrow> [] | event # _ \<Rightarrow> ae_at event))
      in case wr_createdAt controller of
           None \<Rightarrow> Ret False
         | Some createdAt \<Rightarrow>
             if \<not> jisFinite countedAt then Ret False
             else if \<not> jlt createdAt countedAt then Ret False
             else bindE clockNow (\<lambda>now. Ret (jlt (jsub now countedAt) RESTART_START_GRACE_MS)))"

text \<open>The restart of a controller that ended, once its finalizer is settled: counted, then started.\<close>

definition replaceCounted :: "jstr \<Rightarrow> controller_recovery host_program" where
  "replaceCounted goalRunId =
     bindE (standDownIfOvertaken goalRunId) (\<lambda>raced.
       case raced of
         Some outcome \<Rightarrow> Ret outcome
       | None \<Rightarrow>
           catchE (bindE (startController goalRunId True) (\<lambda>started.
               Ret (recovered (if started = StartedNow then RcRestarted else RcRunning))))
             (\<lambda>e. if e = TeardownPending then Ret (recovered RcRestartPending) else Raise e))"

definition countAndRestart :: "goal_state \<Rightarrow> controller_recovery host_program" where
  "countAndRestart record =
     (let goalRunId = s_goalRunId record
      in bindE clockNowIso (\<lambda>now.
           bindE (storeControl (StoreRecordRestart goalRunId now (s_controllerRestarts record))) (\<lambda>counted.
             case counted of
               Answer (Refused reason r) \<Rightarrow>
                 if reason = CCancellationRequested then endControllerAndCompleteCancellation r
                 else if reason = CTerminal then Ret (recovered RcAlreadyTerminal)
                 else bindE (stopOrphanedAttempts record) (\<lambda>_. Ret (recovered RcUnrecoverable))
             | Answer (ControlStale r) \<Rightarrow> Ret (recovered RcRunning)
             | Answer (Updated r) \<Rightarrow> replaceCounted goalRunId
             | Thrown \<Rightarrow> Raise (Fault [])
             | _ \<Rightarrow> Ret (recovered RcUnrecoverable))))"

definition restartController :: "goal_state \<Rightarrow> workflow_reading \<Rightarrow> controller_recovery host_program" where
  "restartController record state =
     (let goalRunId = s_goalRunId record
      in if s_controllerRestarts record \<ge> MAXIMUM_CONTROLLER_RESTARTS then
           bindE (finalRestartIsInFlight record state) (\<lambda>inFlight.
             if inFlight then Ret (recovered RcRestartPending)
             else bindE (stopOrphanedAttempts record) (\<lambda>_. Ret (recovered RcUnrecoverable)))
         else
           bindE (readable (engineFinalizer (goalWorkflowId goalRunId))) (\<lambda>finalizer.
             if finalizer \<in> {None, Some (Some FzPending), Some (Some FzRunning)}
             then Ret (recovered RcRestartPending)
             else bindE (askFlag IsClosing) (\<lambda>closing.
               if closing then Ret (recovered RcShuttingDown)
               else bindE (standDownIfOvertaken goalRunId) (\<lambda>overtaken.
                 case overtaken of
                   Some outcome \<Rightarrow> Ret outcome
                 | None \<Rightarrow> countAndRestart record))))"

subsection \<open>The controller\<close>

definition startMissingController :: "goal_state \<Rightarrow> controller_recovery host_program" where
  "startMissingController record =
     bindE (standDownIfOvertaken (s_goalRunId record)) (\<lambda>overtaken.
       case overtaken of
         Some outcome \<Rightarrow> Ret outcome
       | None \<Rightarrow>
           bindE (startController (s_goalRunId record) False) (\<lambda>started.
             Ret (recovered (if started = StartedNow then RcStarted else RcRunning))))"

definition settleByStatus :: "goal_state \<Rightarrow> workflow_reading \<Rightarrow> controller_recovery host_program" where
  "settleByStatus record state =
     (let status = wr_status state
      in if status = WfRunning \<or> status = WfPending then
           (if s_cancellation record \<noteq> None then endControllerAndCompleteCancellation record
            else Ret (recovered RcRunning))
         else if status = WfSuspended then
           (if s_cancellation record \<noteq> None then endControllerAndCompleteCancellation record
            else bindE (askFlag IsClosing) (\<lambda>closing.
              if closing then Ret (recovered RcShuttingDown)
              else bindE (command (EngineResume (goalWorkflowId (s_goalRunId record))))
                (\<lambda>_. Ret (recovered RcRunning))))
         else if s_cancellation record \<noteq> None \<or> status = WfCancelled then completeCancellation record
         else if \<not> isTerminalController status then Ret (recovered RcRunning)
         else restartController record state)"

text \<open>Whether a controller that is read so is one recovery would have to start.\<close>

definition wantsStart :: "workflow_reading option \<Rightarrow> bool" where
  "wantsStart state \<longleftrightarrow> pred_option (\<lambda>w. wr_status w \<in> {WfFailed, WfTimedOut, WfCompleted}) state"

definition recoverController :: "goal_state \<Rightarrow> controller_recovery host_program" where
  "recoverController record =
     bindE (askFlag HasEngine) (\<lambda>engine.
       if \<not> engine then
         (if s_cancellation record \<noteq> None then commitWithoutEngine record
          else Ret (recovered RcUnrecoverable))
       else
         bindE (engineGet (goalWorkflowId (s_goalRunId record))) (\<lambda>state.
           let settle = (case state of
               None \<Rightarrow> startMissingController record
             | Some reading \<Rightarrow> settleByStatus record reading)
           in if wantsStart state then
                bindE (askFlag IsClosing) (\<lambda>closing.
                  if closing \<and> (state = None \<or> s_cancellation record = None)
                  then Ret (recovered RcShuttingDown)
                  else bindE (enforceDeterminism record) (\<lambda>ended.
                    if \<exists>r. ended = Some r \<and> s_status r = Failed
                    then Ret (recovered RcUnsupportedValidation)
                    else settle))
              else settle))"

subsection \<open>The attempt\<close>

datatype attempt_recovery = AtWatching | AtSignalResent | AtRunStarted | AtFailed

definition recoverAttempt :: "goal_state \<Rightarrow> attempt_recovery option host_program" where
  "recoverAttempt record =
     bindE (storeGet (s_goalRunId record)) (\<lambda>stored.
       let current = withDefault record stored
       in case lastOf (s_attempts current) of
            None \<Rightarrow> Ret None
          | Some latest \<Rightarrow>
              if s_status current \<noteq> Running \<or> a_status latest \<noteq> ARunning then Ret None
              else
                bindE (reconcile (s_goalRunId current) (a_attemptIndex latest) (a_runId latest)) (\<lambda>reconciled.
                  case reconciled of
                    ReWatching \<Rightarrow> Ret (Some AtWatching)
                  | ReSignalResent \<Rightarrow> Ret (Some AtSignalResent)
                  | ReNotNeeded \<Rightarrow> Ret None
                  | ReMissing \<Rightarrow>
                      bindE (askFlag IsClosing) (\<lambda>closing.
                        if closing then Ret None
                        else bindE (startWithinBudget
                            \<lparr>sr_goalRunId = s_goalRunId current, sr_attemptIndex = a_attemptIndex latest,
                             sr_attemptId = goalAttemptId (s_goalRunId current) (a_attemptIndex latest),
                             sr_runId = a_runId latest,
                             sr_feedback = goalInputFeedbackFor (w_attempts (toGoalWorkflowView current))
                               (a_attemptIndex latest)\<rparr>)
                          (\<lambda>started. case started of
                              None \<Rightarrow> Ret (Some AtFailed)
                            | Some StoodDown \<Rightarrow> Ret None
                            | Some (StartFailed detail) \<Rightarrow> Ret (Some AtFailed)
                            | Some (Started sessionId) \<Rightarrow> Ret (Some AtRunStarted)))))"

subsection \<open>A goal that has ended\<close>

record recovery_entry =
  re_goalRunId :: jstr
  re_outcome :: recovery_outcome
  re_awaiting :: "cancellation_wait list"
  re_attempt :: "attempt_recovery option"

definition entryOf :: "jstr \<Rightarrow> recovery_outcome \<Rightarrow> recovery_entry" where
  "entryOf goalRunId outcome =
     \<lparr>re_goalRunId = goalRunId, re_outcome = outcome, re_awaiting = [], re_attempt = None\<rparr>"

definition settleCommittedCancellation :: "goal_state \<Rightarrow> recovery_entry host_program" where
  "settleCommittedCancellation record =
     bindE (settleCanceledGoal record False) (\<lambda>settled.
       Ret (case settled of
           CancelNotFound \<Rightarrow> entryOf (s_goalRunId record) RcNotFound
         | CancelUnreadable \<Rightarrow> entryOf (s_goalRunId record) RcUnrecoverable
         | CancelPending goal awaiting \<Rightarrow>
             (entryOf (s_goalRunId record) RcCancellationPending)\<lparr>re_awaiting := awaiting\<rparr>
         | _ \<Rightarrow> entryOf (s_goalRunId record) RcAlreadyTerminal))"

definition owesCleanup :: "goal_state \<Rightarrow> bool" where
  "owesCleanup record \<longleftrightarrow> s_closedAt record \<noteq> None \<and> s_cleanedUpAt record = None"

definition mayHaveOvertakenAStart :: "goal_state \<Rightarrow> bool" where
  "mayHaveOvertakenAStart record \<longleftrightarrow>
     s_status record = Canceled \<or> s_status record = Exhausted
     \<or> s_status record = Failed \<and> s_terminalReason record = Some AttemptRunFailed
       \<and> isAttemptStartFailureDetail (s_failureDetail record)"

definition needsRecovery :: "goal_state \<Rightarrow> bool" where
  "needsRecovery record \<longleftrightarrow>
     \<not> isTerminalStatus (s_status record)
     \<or> mayHaveOvertakenAStart record \<and> s_closedAt record = None
     \<or> owesCleanup record"

text \<open>One run that the ending may have left: stopped unless it is gone or has ended.\<close>

definition stopOvertakenRun :: "jstr \<Rightarrow> unit host_program" where
  "stopOvertakenRun runId =
     bindE (engineGet runId) (\<lambda>run.
       if pred_option (\<lambda>w. isTerminalController (wr_status w)) run then Ret ()
       else bindE (cancelRun runId) (\<lambda>stopped.
         if stopped = StopFailed \<or> stopped = StopUnsupported then Raise (Fault []) else Ret ()))"

definition stopOvertakenRuns :: "goal_state \<Rightarrow> recovery_entry host_program" where
  "stopOvertakenRuns record =
     bindE (askFlag HasEngine) (\<lambda>engine.
       if \<not> engine then Ret (entryOf (s_goalRunId record) RcCleanupPending)
       else
         bindE (fenceOvertakenAttempts record) (\<lambda>fenced.
           bindE (foldE (\<lambda>runId allStopped.
                 catchE (bindE (stopOvertakenRun runId) (\<lambda>_. Ret allStopped)) (\<lambda>_. Ret False))
               (runsToStop record) fenced)
             (\<lambda>clean. Ret (entryOf (s_goalRunId record)
                (if clean then RcAlreadyTerminal else RcCleanupPending)))))"

definition finishOwedCleanup :: "goal_state \<Rightarrow> recovery_entry option host_program" where
  "finishOwedCleanup record =
     (if \<not> owesCleanup record then Ret None
      else bindE (askFlag IsClosing) (\<lambda>closing.
        if closing then Ret (Some (entryOf (s_goalRunId record) RcShuttingDown))
        else bindE (cleanUpGoal record) (\<lambda>cleanup.
          if isCleanupDone cleanup then
            bindE clockNowIso (\<lambda>now.
              bindE (storeControl (StoreMarkCleanedUp (s_goalRunId record) now)) (\<lambda>marked.
                Ret (case marked of
                    Answer (Updated r) \<Rightarrow> None
                  | Answer (Unchanged r) \<Rightarrow> None
                  | _ \<Rightarrow> Some (entryOf (s_goalRunId record) RcCleanupPending))))
          else Ret (Some (entryOf (s_goalRunId record) RcCleanupPending)))))"

subsection \<open>One goal\<close>

definition settleEnded :: "goal_state \<Rightarrow> recovery_entry host_program" where
  "settleEnded record =
     bindE (if s_status record = Canceled then settleCommittedCancellation record
         else if mayHaveOvertakenAStart record then stopOvertakenRuns record
         else Ret (entryOf (s_goalRunId record) RcAlreadyTerminal))
       (\<lambda>settled.
         if re_outcome settled = RcAlreadyTerminal
         then bindE (finishOwedCleanup record) (\<lambda>owed. Ret (withDefault settled owed))
         else Ret settled)"

definition recoverLive :: "goal_state \<Rightarrow> recovery_entry host_program" where
  "recoverLive record =
     bindE (catchE (recoverController record)
         (\<lambda>e. if e = NotOwnedFault then Ret (recovered RcUnrecoverable) else Raise e))
       (\<lambda>controller.
         let entry = (entryOf (s_goalRunId record) (cr_outcome controller))\<lparr>re_awaiting := cr_awaiting controller\<rparr>
         in if cr_outcome controller \<in> {RcStarted, RcRestarted, RcRunning} then
              bindE (catchE (recoverAttempt record) (\<lambda>_. Ret (Some AtFailed))) (\<lambda>attempt.
                Ret (entry\<lparr>re_attempt := attempt\<rparr>))
            else Ret entry)"

definition recoverGoal :: "jstr \<Rightarrow> recovery_entry host_program" where
  "recoverGoal goalRunId =
     bindE (storeGet goalRunId) (\<lambda>stored.
       case stored of
         None \<Rightarrow> Ret (entryOf goalRunId RcNotFound)
       | Some record \<Rightarrow>
           if isTerminalStatus (s_status record) then settleEnded record else recoverLive record)"

text \<open>Whether an entry of a report is a failure rather than news.\<close>

definition recoveryEntryFailure :: "recovery_entry \<Rightarrow> bool" where
  "recoveryEntryFailure entry \<longleftrightarrow>
     re_outcome entry \<in> {RcUnrecoverable, RcRestartPending, RcCleanupPending}
     \<or> re_attempt entry = Some AtFailed
     \<or> re_outcome entry = RcCancellationPending
       \<and> list_ex (\<lambda>wait. wait = WaitFinalizerFailed \<or> wait = WaitDurableEngine) (re_awaiting entry)"

end
