(* ===== verification/CancellationLaws.thy ===== *)
theory CancellationLaws
  imports GoalCancellation
begin

section \<open>What the answers of a cancellation mean\<close>

text \<open>
  The runs of \<open>cancelGoal\<close>: an answer \<open>canceled\<close> comes only from a last, fresh read of every
  condition, with every claim the cancellation owed a tombstone fenced before it; and nothing but
  the store (and a clock that is no date) can make the call reject.
\<close>

subsection \<open>Steps that never reject\<close>

lemma ensures_readable [control_steps]:
  "ensures fits (readable m) tr Q \<longleftrightarrow>
     ensures fits m tr (\<lambda>t result. case result of Inl e \<Rightarrow> Q t (Inr None) | Inr x \<Rightarrow> Q t (Inr (Some x)))"
  unfolding readable_def ensures_catch ensures_bind
  by (rule arg_cong [where f = "ensures fits m tr"]) (auto simp: fun_eq_iff split: sum.split)

lemma ensures_swallow:
  "ensures fits (catchE (bindE m (\<lambda>_. Ret y)) (\<lambda>_. Ret y)) tr Q \<longleftrightarrow>
     ensures fits m tr (\<lambda>t result. Q t (Inr y))"
  unfolding ensures_catch ensures_bind
  by (rule arg_cong [where f = "ensures fits m tr"]) (auto simp: fun_eq_iff split: sum.split)

text \<open>A claim fenced, in a trace.\<close>

definition fencedIn :: "goal_state \<Rightarrow> (control_operation, control_answer) trace \<Rightarrow> nat \<Rightarrow> bool" where
  "fencedIn record t i \<longleftrightarrow> (\<exists>outcome. (FenceAttempt record i, FenceAnswer outcome) \<in> set t)"

lemma fencedIn_append [simp]: "fencedIn record (s @ t) i \<longleftrightarrow> fencedIn record s i \<or> fencedIn record t i"
  by (auto simp: fencedIn_def)

definition stops_law ::
    "goal_state \<Rightarrow> (control_operation, control_answer) trace \<Rightarrow> (control_operation, control_answer) trace \<Rightarrow>
     fault + bool \<Rightarrow> bool" where
  "stops_law record tr t result \<longleftrightarrow>
     (\<exists>s fenced. t = tr @ s \<and> result = Inr fenced
        \<and> (fenced \<longrightarrow> list_all (fencedIn record s) (attemptIndexesToStop record)))"

lemma fenceOvertaken_law: "ensures (control_fits p) (fenceOvertakenAttempts record) tr (stops_law record tr)"
  unfolding fenceOvertakenAttempts_def
proof (rule ensures_fold [where I = "\<lambda>before t all. \<exists>s. t = tr @ s \<and> (all \<longrightarrow> list_all (fencedIn record s) before)"])
  fix before i rest t all
  assume "\<exists>s. t = tr @ s \<and> (all \<longrightarrow> list_all (fencedIn record s) before)"
  then show "ensures (control_fits p)
      (catchE (bindE (fenceAttempt record i) (\<lambda>_. Ret all)) (\<lambda>_. Ret False)) t
      (\<lambda>t' result. case result of Inl e \<Rightarrow> stops_law record tr t' (Inl e)
       | Inr all' \<Rightarrow> \<exists>s. t' = tr @ s \<and> (all' \<longrightarrow> list_all (fencedIn record s) (before @ [i])))"
    by (auto simp: control_steps list_all_iff) (auto simp: fencedIn_def)
qed (auto simp: stops_law_def)

lemma stopRuns_law: "ensures (control_fits p) (stopRuns record) tr (stops_law record tr)"
proof -
  have stop: "ensures (control_fits p)
      (foldE (\<lambda>runId _. catchE (bindE (cancelRun runId) (\<lambda>_. Ret ())) (\<lambda>_. Ret ())) rs ()) t
      (\<lambda>t' result. (\<exists>s. t' = t @ s) \<and> result = Inr ())" for rs t
    by (rule ensures_fold [where I = "\<lambda>_ t' _. \<exists>s. t' = t @ s"]) (auto simp: control_steps ensures_swallow)
  show ?thesis
    unfolding stopRuns_def ensures_bind
  proof (rule ensures_mono [OF fenceOvertaken_law])
    fix t result
    assume "stops_law record tr t result"
    then obtain s fenced where l: "t = tr @ s" "result = Inr fenced"
        "fenced \<longrightarrow> list_all (fencedIn record s) (attemptIndexesToStop record)"
      by (auto simp: stops_law_def)
    have "stops_law record tr (t @ s') (Inr fenced)" for s'
      using l by (auto simp: stops_law_def list_all_iff)
    then show "case result of Inl e \<Rightarrow> stops_law record tr t (Inl e)
      | Inr fenced \<Rightarrow> ensures (control_fits p)
          (foldE (\<lambda>runId _. catchE (bindE (cancelRun runId) (\<lambda>_. Ret ())) (\<lambda>_. Ret ())) (runsToStop record) ()) t
          (\<lambda>t result. case result of Inl e \<Rightarrow> stops_law record tr t (Inl e)
            | Inr _ \<Rightarrow> ensures (control_fits p) (Ret fenced) t (stops_law record tr))"
      unfolding l(2) sum.case by (intro ensures_mono [OF stop]) auto
  qed
qed

subsection \<open>The read-back\<close>

text \<open>The last reads of an acknowledged cancellation, and what they found.\<close>

definition readsOf ::
    "jstr list \<Rightarrow> workflow_reading option list \<Rightarrow> (control_operation, control_answer) trace" where
  "readsOf = map2 (\<lambda>runId r. (EngineGet runId, WorkflowAnswer r))"

definition workflowTrace ::
    "jstr \<Rightarrow> jstr list \<Rightarrow> (control_operation, control_answer) trace \<Rightarrow> bool" where
  "workflowTrace g runIds t \<longleftrightarrow>
     (\<exists>controller finalizer rs.
        t = [(EngineGet (goalWorkflowId g), WorkflowAnswer controller),
             (EngineFinalizer (goalWorkflowId g), FinalizerAnswer finalizer)] @ readsOf runIds rs
        \<and> isEnded (Some controller) \<and> (finalizer = None \<or> finalizer = Some FzSucceeded)
        \<and> length rs = length runIds \<and> list_all (\<lambda>r. isEnded (Some r)) rs)"

definition acknowledged ::
    "jstr \<Rightarrow> jstr list \<Rightarrow> goal_state \<Rightarrow> (control_operation, control_answer) trace \<Rightarrow> bool" where
  "acknowledged g runIds goal t \<longleftrightarrow>
     s_status goal = Canceled \<and> s_goalRunId goal = g
     \<and> (\<exists>reads. t = (StoreGet g, RecordAnswer (Some goal)) # (HasEngine, FlagAnswer True) # reads
          \<and> workflowTrace g runIds reads)"

lemma isEnded_simps [simp]:
  "\<not> isEnded None"
  "isEnded (Some None)"
  "isEnded (Some (Some w)) \<longleftrightarrow> isTerminalController (wr_status w)"
  by (simp_all add: isEnded_def)

text \<open>A call rejects with the fault of the operation of the store it made last, and otherwise never.\<close>

fun isStoreOperation :: "control_operation \<Rightarrow> bool" where
  "isStoreOperation (StoreGet g) \<longleftrightarrow> True"
| "isStoreOperation (StoreIsUnreadable g) \<longleftrightarrow> True"
| "isStoreOperation (StoreRequestCancellation g marker now) \<longleftrightarrow> True"
| "isStoreOperation (StoreApplyTransition rq) \<longleftrightarrow> True"
| "isStoreOperation _ \<longleftrightarrow> False"

definition storeRejected :: "(control_operation, control_answer) trace \<Rightarrow> fault \<Rightarrow> bool" where
  "storeRejected t e \<longleftrightarrow> (\<exists>op. t \<noteq> [] \<and> List.last t = (op, Rejection e) \<and> isStoreOperation op)"

lemma storeRejected_simps [simp]:
  "storeRejected (t @ s) e \<longleftrightarrow> (if s = [] then storeRejected t e else storeRejected s e)"
  "storeRejected (x # y # s) e \<longleftrightarrow> storeRejected (y # s) e"
  "storeRejected [(op, r)] e \<longleftrightarrow> r = Rejection e \<and> isStoreOperation op"
  by (auto simp: storeRejected_def)

lemma reads_law:
  "ensures (control_fits p) (mapE (\<lambda>runId. readable (engineGet runId)) runIds) tr
     (\<lambda>t result. \<exists>ys. result = Inr ys \<and> (list_all isEnded ys \<longrightarrow>
          (\<exists>rs. length rs = length runIds \<and> list_all (\<lambda>r. isEnded (Some r)) rs \<and> t = tr @ readsOf runIds rs)))"
proof (rule ensures_map [where I = "\<lambda>ys t. list_all isEnded ys \<longrightarrow>
    (\<exists>rs. length rs = length ys \<and> list_all (\<lambda>r. isEnded (Some r)) rs
       \<and> t = tr @ readsOf (take (length ys) runIds) rs)"], goal_cases)
  case (2 before runId rest t ys)
  have "\<exists>rs. length rs = Suc (length ys) \<and> list_all (\<lambda>r. isEnded (Some r)) rs
      \<and> t @ [(EngineGet runId, WorkflowAnswer x)] = tr @ readsOf (take (Suc (length ys)) runIds) rs"
    if ended: "list_all isEnded ys" "isEnded (Some x)" for x
  proof -
    obtain rs where rs: "length rs = length ys" "list_all (\<lambda>r. isEnded (Some r)) rs"
      "t = tr @ readsOf (take (length ys) runIds) rs" using 2(2) ended(1) by blast
    have "take (length ys) runIds = before" "take (Suc (length ys)) runIds = before @ [runId]"
      using 2(1,3) by simp_all
    then show ?thesis using rs ended(2) 2(3) by (intro exI [of _ "rs @ [x]"]) (simp add: readsOf_def)
  qed
  then show ?case by (simp add: control_steps)
qed (auto simp: readsOf_def)

lemma unfinished_law:
  "ensures (control_fits p) (unfinishedAfterCancellation engine g runIds recordCanceled) tr
     (\<lambda>t result. \<exists>waits. result = Inr waits
        \<and> (waits = [] \<longrightarrow> engine \<and> recordCanceled \<and> (\<exists>s. t = tr @ s \<and> workflowTrace g runIds s)))"
proof (cases engine)
  case True
  have reads: "ensures (control_fits p) (mapE (\<lambda>runId. readable (engineGet runId)) runIds) t Q"
    if "\<And>t' result. (\<exists>ys. result = Inr ys \<and> (list_all isEnded ys \<longrightarrow>
      (\<exists>rs. length rs = length runIds \<and> list_all (\<lambda>r. isEnded (Some r)) rs \<and> t' = t @ readsOf runIds rs))) \<Longrightarrow> Q t' result"
    for t Q
    by (rule ensures_mono [OF reads_law]) (rule that)
  show ?thesis
    unfolding unfinishedAfterCancellation_def Let_def
    by (auto simp: True control_steps workflowTrace_def
        intro!: reads split: sum.splits option.splits finalizer_status.splits)
qed (simp add: unfinishedAfterCancellation_def)

lemma readBack_law:
  "ensures (control_fits p) (readBack g runIds scoped fenced) tr
     (\<lambda>t result. case result of
        Inl e \<Rightarrow> storeRejected t e
      | Inr outcome \<Rightarrow> \<forall>goal. outcome = CancelDone goal \<longrightarrow>
          fenced \<and> (\<exists>s. t = tr @ s \<and> acknowledged g runIds goal s))"
  (is "ensures _ _ _ ?Q")
proof -
  define rest where "rest goal engine =
      bindE (unfinishedAfterCancellation engine g runIds (s_status goal = Canceled))
        (\<lambda>waits. let awaiting = withUnfenced fenced waits
          in Ret (if awaiting = [] then CancelDone goal else CancelPending goal awaiting))" for goal engine
  have "ensures (control_fits p) (rest goal engine)
      (tr @ [(StoreGet g, RecordAnswer (Some goal)), (HasEngine, FlagAnswer engine)]) ?Q"
    if "s_goalRunId goal = g" for engine goal
    unfolding ensures_bind rest_def
  proof (rule ensures_mono [OF unfinished_law], elim exE conjE)
    fix t and result :: "fault + cancellation_wait list" and waits
    assume r: "result = Inr waits"
      and w: "waits = [] \<longrightarrow> engine \<and> s_status goal = Canceled
        \<and> (\<exists>s. t = (tr @ [(StoreGet g, RecordAnswer (Some goal)), (HasEngine, FlagAnswer engine)]) @ s
             \<and> workflowTrace g runIds s)"
    have e: "withUnfenced fenced waits = [] \<longleftrightarrow> fenced \<and> waits = []"
      by (auto simp: withUnfenced_def)
    show "case result of Inl e \<Rightarrow> ?Q t (Inl e)
      | Inr waits \<Rightarrow> ensures (control_fits p) (let awaiting = withUnfenced fenced waits
          in Ret (if awaiting = [] then CancelDone goal else CancelPending goal awaiting)) t ?Q"
      using w that by (auto simp: r e Let_def acknowledged_def)
  qed
  then show ?thesis
    unfolding readBack_def rest_def [symmetric]
    by (auto simp: control_steps split: option.splits)
qed

subsection \<open>The whole call\<close>

text \<open>
  The marker is on a record of the goal, or the goal is canceled already; every claim the
  cancellation owed a tombstone was fenced, unless there was no engine to cancel with; and the
  call ends with the reads that acknowledge it.
\<close>

definition cancellationAnswered ::
    "jstr \<Rightarrow> (control_operation, control_answer) trace \<Rightarrow> goal_state \<Rightarrow>
     (control_operation, control_answer) trace \<Rightarrow> bool" where
  "cancellationAnswered g tr goal t \<longleftrightarrow>
     (\<exists>m before reads. t = tr @ before @ reads \<and> s_goalRunId m = g
        \<and> (s_status m = Canceled \<or> s_cancellation m \<noteq> None)
        \<and> ((HasEngine, FlagAnswer False) \<in> set before
           \<or> list_all (fencedIn m before) (attemptIndexesToStop m))
        \<and> acknowledged g (runsToStop m) goal reads)"

definition cancel_law ::
    "jstr \<Rightarrow> (control_operation, control_answer) trace \<Rightarrow> (control_operation, control_answer) trace \<Rightarrow>
     fault + cancel_outcome \<Rightarrow> bool" where
  "cancel_law g tr t result \<longleftrightarrow>
     (case result of
        Inl e \<Rightarrow> storeRejected t e
          \<or> (\<exists>nowMs. t \<noteq> [] \<and> List.last t = (ClockNow, InstantAnswer nowMs) \<and> toIso nowMs = None)
      | Inr outcome \<Rightarrow> \<forall>goal. outcome = CancelDone goal \<longrightarrow> cancellationAnswered g tr goal t)"

lemma cancellationAnsweredI:
  assumes "s_goalRunId m = g" "s_status m = Canceled \<or> s_cancellation m \<noteq> None"
    "(HasEngine, FlagAnswer False) \<in> set before \<or> list_all (fencedIn m before) (attemptIndexesToStop m)"
    "acknowledged g (runsToStop m) goal reads"
  shows "cancellationAnswered g tr goal (tr @ before @ reads)"
  using assms unfolding cancellationAnswered_def by blast

lemma readBack_answers:
  assumes "s_goalRunId m = g" "s_status m = Canceled \<or> s_cancellation m \<noteq> None"
    and "fenced \<Longrightarrow> (HasEngine, FlagAnswer False) \<in> set before
      \<or> list_all (fencedIn m before) (attemptIndexesToStop m)"
  shows "ensures (control_fits p) (readBack g (runsToStop m) scoped fenced) (tr @ before) (cancel_law g tr)"
proof (rule ensures_mono [OF readBack_law])
  fix t result
  assume r: "case result of Inl e \<Rightarrow> storeRejected t e
    | Inr outcome \<Rightarrow> \<forall>goal. outcome = CancelDone goal \<longrightarrow>
        fenced \<and> (\<exists>s. t = (tr @ before) @ s \<and> acknowledged g (runsToStop m) goal s)"
  show "cancel_law g tr t result"
    unfolding cancel_law_def
    using r assms by (auto intro!: cancellationAnsweredI split: sum.splits)
qed

lemma stopRuns_readBack:
  assumes "s_goalRunId m = g" "s_status m = Canceled \<or> s_cancellation m \<noteq> None"
  shows "ensures (control_fits p)
    (bindE (stopRuns m) (\<lambda>fenced. readBack g (runsToStop m) scoped fenced)) (tr @ before) (cancel_law g tr)"
  unfolding ensures_bind
proof (rule ensures_mono [OF stopRuns_law])
  fix t result
  assume "stops_law m (tr @ before) t result"
  then obtain s fenced where l: "t = tr @ (before @ s)" "result = Inr fenced"
      "fenced \<longrightarrow> list_all (fencedIn m s) (attemptIndexesToStop m)"
    by (auto simp: stops_law_def)
  show "case result of Inl e \<Rightarrow> cancel_law g tr t (Inl e)
    | Inr fenced \<Rightarrow> ensures (control_fits p) (readBack g (runsToStop m) scoped fenced) t (cancel_law g tr)"
    unfolding l(1,2) sum.case
    by (rule readBack_answers [OF assms]) (use l(3) in \<open>auto simp: list_all_iff\<close>)
qed

lemma settle_law:
  assumes "s_status record = Canceled"
  shows "ensures (control_fits p) (settleCanceledGoal record scoped) tr (cancel_law (s_goalRunId record) tr)"
proof -
  let ?g = "s_goalRunId record"
  have stop: "ensures (control_fits p)
      (bindE (stopRuns record) (\<lambda>fenced. readBack ?g (runsToStop record) scoped fenced)) (tr @ before)
      (cancel_law ?g tr)" for before
    by (rule stopRuns_readBack) (simp_all add: assms)
  define stopAndRead where
    "stopAndRead = bindE (stopRuns record) (\<lambda>fenced. readBack ?g (runsToStop record) scoped fenced)"
  have read: "ensures (control_fits p) (readBack ?g (runsToStop record) scoped True)
      (tr @ [(HasEngine, FlagAnswer False)]) (cancel_law ?g tr)"
    by (rule readBack_answers) (simp_all add: assms)
  show ?thesis
    unfolding settleCanceledGoal_def Let_def stopAndRead_def [symmetric]
    using read stop [folded stopAndRead_def]
    by (auto simp: control_steps ensures_swallow split: option.splits)
qed

text \<open>The commit, whose answer is not looked at: the read-back is.\<close>

lemma commitCancellation_law:
  "ensures (control_fits p) (commitCancellation latest nowMs) (tr @ [(ClockNow, InstantAnswer nowMs)])
    (\<lambda>t result. (\<exists>s. t = tr @ s) \<and> (\<forall>e. result = Inl e \<longrightarrow> storeRejected t e
       \<or> t = tr @ [(ClockNow, InstantAnswer nowMs)] \<and> toIso nowMs = None))"
proof -
  have "toIso nowMs = None"
    if "buildGoalForcedFinish (toGoalWorkflowView latest) bureauIdentifiers nowMs
      (decideCancellation :: json goal_decision) = None"
    using that
    by (auto simp: buildGoalForcedFinish_def decidedTransition_def baseTransition_def Let_def
        split: option.splits prod.splits)
  then show ?thesis
    unfolding commitCancellation_def by (auto simp: control_steps split: option.splits)
qed

lemma finishMarked_law:
  assumes m: "s_goalRunId m = g" "s_cancellation m \<noteq> None"
  shows "ensures (control_fits p) (finishMarked m scoped) tr (cancel_law g tr)"
proof -
  define commitAndRead where "commitAndRead latest fenced =
      bindE (if isTerminalStatus (s_status latest) then Ret ()
          else bindE clockNow (\<lambda>nowMs. bindE (commitCancellation latest nowMs) (\<lambda>_. Ret ())))
        (\<lambda>_. readBack g (runsToStop m) scoped fenced)" for latest fenced
  have commit: "ensures (control_fits p) (commitAndRead latest fenced) (tr @ before) (cancel_law g tr)"
    if f: "fenced \<longrightarrow> (HasEngine, FlagAnswer False) \<in> set before
      \<or> list_all (fencedIn m before) (attemptIndexesToStop m)" for latest fenced before
  proof -
    have read: "ensures (control_fits p) (readBack g (runsToStop m) scoped fenced) (tr @ before @ s) (cancel_law g tr)" for s
      by (rule readBack_answers) (use m f in \<open>auto simp: list_all_iff\<close>)
    show ?thesis
    proof (cases "isTerminalStatus (s_status latest)")
      case True
      then show ?thesis using read [of "[]"] by (simp add: commitAndRead_def)
    next
      case False
      have "ensures (control_fits p)
          (bindE (commitCancellation latest nowMs) (\<lambda>_. readBack g (runsToStop m) scoped fenced))
          ((tr @ before) @ [(ClockNow, InstantAnswer nowMs)]) (cancel_law g tr)" for nowMs
        by (rule ensures_bindI [OF commitCancellation_law])
          (use read in \<open>auto simp: cancel_law_def\<close>)
      then show ?thesis
        using False by (simp add: commitAndRead_def control_steps)
    qed
  qed
  show ?thesis
  proof -
    have get: "ensures (control_fits p)
        (bindE (storeGet g) (\<lambda>stored. commitAndRead (withDefault m stored) fenced)) (tr @ before) (cancel_law g tr)"
      if "fenced \<longrightarrow> (HasEngine, FlagAnswer False) \<in> set before
        \<or> list_all (fencedIn m before) (attemptIndexesToStop m)" for fenced before
      using commit that by (auto simp: control_steps cancel_law_def list_all_iff)
    define getAndCommit where "getAndCommit fenced =
      bindE (storeGet g) (\<lambda>stored. commitAndRead (withDefault m stored) fenced)" for fenced
    have stop: "ensures (control_fits p) (bindE (stopRuns m) getAndCommit) (tr @ before) (cancel_law g tr)" for before
      by (rule ensures_bindI [OF stopRuns_law])
        (use get in \<open>auto simp: getAndCommit_def stops_law_def list_all_iff\<close>)
    define stopAndCommit where "stopAndCommit = bindE (stopRuns m) getAndCommit"
    have eq: "finishMarked m scoped = bindE (askFlag HasEngine) (\<lambda>engine.
        if \<not> engine then getAndCommit True
        else bindE (catchE (command (EngineSignalCancel (goalWorkflowId g) (cancelSignalId g))) (\<lambda>_. Ret ()))
          (\<lambda>_. bindE (catchE (command (EngineCancel (goalWorkflowId g))) (\<lambda>_. Ret ())) (\<lambda>_. stopAndCommit)))"
      unfolding finishMarked_def Let_def m(1) stopAndCommit_def getAndCommit_def commitAndRead_def
      by (rule arg_cong [where f = "bindE (askFlag HasEngine)"]) (simp add: fun_eq_iff bindE_assoc)
    have "ensures (control_fits p) (getAndCommit True) (tr @ [(HasEngine, FlagAnswer False)]) (cancel_law g tr)"
      using get [of True "[(HasEngine, FlagAnswer False)]"] by (simp add: getAndCommit_def)
    then show ?thesis
      unfolding eq using stop [folded stopAndCommit_def]
      by (auto simp: control_steps ensures_swallow split: sum.splits)
  qed
qed

lemma cancellation_answered:
  assumes "control_answered g (evaluateCancellation marker now) (Answer a)"
  shows "(case a of
      Updated r \<Rightarrow> s_goalRunId r = g \<and> s_cancellation r \<noteq> None
    | Unchanged r \<Rightarrow> s_goalRunId r = g \<and> s_cancellation r \<noteq> None
    | Refused reason r \<Rightarrow> s_goalRunId r = g \<and> isTerminalStatus (s_status r)
    | ControlStale r \<Rightarrow> s_goalRunId r = g)"
  using assms by (auto simp: control_answered_def evaluateCancellation_def split: if_splits)

lemma cancelGoal_law:
  "ensures (control_fits p) (cancelGoal record options) tr (cancel_law (s_goalRunId record) tr)"
proof (cases "isTerminalStatus (s_status record)")
  case True
  then show ?thesis
    using settle_law [of "record" p "co_principal options \<noteq> None" tr]
    by (auto simp: cancelGoal_def Let_def cancel_law_def)
next
  case False
  let ?g = "s_goalRunId record"
  define scoped where "scoped = (co_principal options \<noteq> None)"
  have weaken: "ensures fits m (tr @ s) (cancel_law ?g tr)"
    if "ensures fits m (tr @ s) (cancel_law ?g (tr @ s))" for fits s and m :: "cancel_outcome host_program"
  proof (rule ensures_mono [OF that])
    fix t result
    assume l: "cancel_law ?g (tr @ s) t result"
    have "cancellationAnswered ?g tr goal t" if answered: "cancellationAnswered ?g (tr @ s) goal t" for goal
    proof -
      obtain m before reads where t: "t = tr @ (s @ before) @ reads" and m: "s_goalRunId m = ?g"
        "s_status m = Canceled \<or> s_cancellation m \<noteq> None"
        "(HasEngine, FlagAnswer False) \<in> set before \<or> list_all (fencedIn m before) (attemptIndexesToStop m)"
        "acknowledged ?g (runsToStop m) goal reads"
        using answered by (auto simp: cancellationAnswered_def)
      show ?thesis
        unfolding t by (rule cancellationAnsweredI [of m]) (use m in \<open>auto simp: list_all_iff\<close>)
    qed
    then show "cancel_law ?g tr t result" using l by (auto simp: cancel_law_def split: sum.splits)
  qed
  have settled: "ensures (control_fits p) (settleCanceledGoal r scoped) (tr @ s) (cancel_law ?g tr)"
    if "s_goalRunId r = ?g" "s_status r = Canceled" for r s
    by (rule weaken) (use settle_law [of r p scoped "tr @ s"] that in simp)
  have finished: "ensures (control_fits p) (finishMarked r scoped) (tr @ s) (cancel_law ?g tr)"
    if "s_goalRunId r = ?g" "s_cancellation r \<noteq> None" for r s
    by (rule weaken) (rule finishMarked_law [OF that])
  have "ensures (control_fits p) (case marked of
        Corrupt \<Rightarrow> Ret (if co_principal options = None then CancelUnreadable else CancelNotFound)
      | Missing \<Rightarrow> Ret CancelNotFound
      | Thrown \<Rightarrow> Raise (Fault [])
      | Answer (Refused reason r) \<Rightarrow>
          if s_status r = Canceled then settleCanceledGoal r scoped else Ret (CancelAlreadyTerminal r)
      | Answer (ControlStale r) \<Rightarrow> Ret (CancelContended r)
      | Answer (Updated r) \<Rightarrow> finishMarked r scoped
      | Answer (Unchanged r) \<Rightarrow> finishMarked r scoped) (tr @ s) (cancel_law ?g tr)"
    if "control_answered ?g (evaluateCancellation marker now) marked" for marked marker now s
  proof (cases marked)
    case (Answer a)
    show ?thesis
      using cancellation_answered [OF that [unfolded Answer]] settled finished
      by (cases a) (simp_all add: Answer cancel_law_def)
  next
    case Thrown
    then show ?thesis
      using that by (auto simp: Thrown control_answered_def evaluateCancellation_def split: if_splits)
  qed (simp_all add: cancel_law_def)
  then show ?thesis
    using False unfolding cancelGoal_def Let_def scoped_def [symmetric]
    by (auto simp: control_steps cancel_law_def)
qed

subsection \<open>Once everything has ended\<close>

text \<open>What the operations of a retried cancellation answer when the world has settled.\<close>

definition settledAnswer :: "control_operation \<times> control_answer \<Rightarrow> bool" where
  "settledAnswer e \<longleftrightarrow>
     (case fst e of
        StoreGet g \<Rightarrow> \<exists>s. snd e = RecordAnswer (Some s) \<and> s_status s = Canceled
      | HasEngine \<Rightarrow> snd e = FlagAnswer True
      | EngineGet w \<Rightarrow> \<exists>x. snd e = WorkflowAnswer x \<and> isEnded (Some x)
      | EngineFinalizer w \<Rightarrow> snd e = FinalizerAnswer None \<or> snd e = FinalizerAnswer (Some FzSucceeded)
      | FenceAttempt s i \<Rightarrow> \<exists>x. snd e = FenceAnswer x
      | _ \<Rightarrow> True)"

lemma unfinished_settled:
  "ensures (control_fits p) (unfinishedAfterCancellation True g runIds True) tr
    (\<lambda>t result. list_all settledAnswer t \<longrightarrow> result = Inr [])"
proof -
  have "ensures (control_fits p) (mapE (\<lambda>runId. readable (engineGet runId)) runIds) t
      (\<lambda>t' result. \<exists>ys. result = Inr ys \<and> (list_all settledAnswer t' \<longrightarrow> list_all isEnded ys))" for t
    by (rule ensures_map [where I = "\<lambda>ys t'. list_all settledAnswer t' \<longrightarrow> list_all isEnded ys"])
      (auto simp: control_steps settledAnswer_def)
  from ensures_conj [OF this ensures_suffix]
  have reads: "ensures (control_fits p) (mapE (\<lambda>runId. readable (engineGet runId)) runIds) t Q"
    if "\<And>s ys. list_all settledAnswer (t @ s) \<longrightarrow> list_all isEnded ys \<Longrightarrow> Q (t @ s) (Inr ys)" for t Q
    by (rule ensures_mono) (use that in blast)
  show ?thesis
    unfolding unfinishedAfterCancellation_def Let_def
    by (auto simp: control_steps settledAnswer_def intro!: reads split: option.splits finalizer_status.splits)
qed

lemma stopRuns_settled:
  "ensures (control_fits p) (stopRuns r) tr
    (\<lambda>t result. list_all settledAnswer t \<longrightarrow> result = Inr True)"
proof -
  have fence: "ensures (control_fits p) (fenceOvertakenAttempts r) tr
      (\<lambda>t result. list_all settledAnswer t \<longrightarrow> result = Inr True)"
    unfolding fenceOvertakenAttempts_def
    by (rule ensures_fold [where I = "\<lambda>before t all. list_all settledAnswer t \<longrightarrow> all"])
      (auto simp: control_steps settledAnswer_def)
  have stop: "ensures (control_fits p)
      (foldE (\<lambda>runId _. catchE (bindE (cancelRun runId) (\<lambda>_. Ret ())) (\<lambda>_. Ret ())) rs ()) t
      (\<lambda>t' result. (\<exists>s. t' = t @ s) \<and> result = Inr ())" for rs t
    by (rule ensures_fold [where I = "\<lambda>_ t' _. \<exists>s. t' = t @ s"]) (auto simp: control_steps ensures_swallow)
  show ?thesis
    unfolding stopRuns_def
    by (rule ensures_bindI [OF ensures_conj [OF fence fenceOvertaken_law]])
      (auto simp: stops_law_def simp del: ensures_bind intro!: ensures_bindI [OF stop])
qed

lemma unsettled:
  assumes "\<not> list_all settledAnswer tr"
  shows "ensures (control_fits p) m tr (\<lambda>t result. list_all settledAnswer t \<longrightarrow> Q result)"
  by (rule ensures_mono [OF ensures_suffix]) (use assms in auto)

lemma readBack_settled:
  "ensures (control_fits p) (readBack g runIds scoped True) tr
    (\<lambda>t result. list_all settledAnswer t \<longrightarrow> (\<exists>goal. result = Inr (CancelDone goal)))"
proof -
  let ?Q = "\<lambda>t result. list_all settledAnswer t \<longrightarrow> (\<exists>goal. result = Inr (CancelDone goal))"
  define rest where "rest goal engine =
      bindE (unfinishedAfterCancellation engine g runIds (s_status goal = Canceled))
        (\<lambda>waits. let awaiting = withUnfenced True waits
          in Ret (if awaiting = [] then CancelDone goal else CancelPending goal awaiting))" for goal engine
  have "ensures (control_fits p) (rest goal True) t ?Q" if "s_status goal = Canceled" for goal t
    unfolding rest_def that simp_thms
    by (rule ensures_bindI [OF unfinished_settled]) (auto simp: Let_def withUnfenced_def)
  moreover have "ensures (control_fits p) (rest goal engine)
      (tr @ [(StoreGet g, RecordAnswer (Some goal)), (HasEngine, FlagAnswer engine)]) ?Q"
    if "\<not> (s_status goal = Canceled \<and> engine)" for goal engine
    by (rule unsettled) (use that in \<open>auto simp: settledAnswer_def\<close>)
  ultimately have "ensures (control_fits p) (rest goal engine)
      (tr @ [(StoreGet g, RecordAnswer (Some goal)), (HasEngine, FlagAnswer engine)]) ?Q" for goal engine
    by (cases "s_status goal = Canceled \<and> engine") auto
  then show ?thesis
    unfolding readBack_def rest_def [symmetric]
    by (auto simp: control_steps settledAnswer_def split: option.splits)
qed

lemma settle_settled:
  "ensures (control_fits p) (settleCanceledGoal r scoped) tr
    (\<lambda>t result. list_all settledAnswer t \<longrightarrow> (\<exists>goal. result = Inr (CancelDone goal)))"
proof -
  let ?Q = "\<lambda>t result. list_all settledAnswer t \<longrightarrow> (\<exists>goal. result = Inr (CancelDone goal))"
  define stopAndRead where "stopAndRead = bindE (stopRuns r) (\<lambda>fenced.
      readBack (s_goalRunId r) (runsToStop r) scoped fenced)"
  have "ensures (control_fits p) stopAndRead t ?Q" for t
    unfolding stopAndRead_def
  proof (rule ensures_bindI [OF stopRuns_settled])
    fix t fenced
    assume "list_all settledAnswer t \<longrightarrow> Inr fenced = Inr True"
    then show "ensures (control_fits p) (readBack (s_goalRunId r) (runsToStop r) scoped fenced) t ?Q"
      using readBack_settled unsettled by (cases fenced) auto
  qed simp
  then show ?thesis
    unfolding settleCanceledGoal_def Let_def stopAndRead_def [symmetric]
    using readBack_settled
    by (auto simp: control_steps ensures_swallow split: option.splits)
qed

lemma cancelGoal_settled:
  assumes "s_status record = Canceled"
  shows "ensures (control_fits p) (cancelGoal record options) tr
    (\<lambda>t result. list_all settledAnswer t \<longrightarrow> (\<exists>goal. result = Inr (CancelDone goal)))"
  using settle_settled by (simp add: cancelGoal_def Let_def assms)

subsection \<open>The properties\<close>


text \<open>
  A cancellation rejects only with the fault of the store operation it made last, or when
  the clock reading for the commit is no date: no failure of the engine, of a fence or of a
  canceller rejects it.
\<close>

theorem cancel_rejections:
  assumes "runs (control_fits p) (cancelGoal record options) t (Inl e)"
  shows "storeRejected t e
    \<or> (\<exists>nowMs. t \<noteq> [] \<and> List.last t = (ClockNow, InstantAnswer nowMs) \<and> toIso nowMs = None)"
  using ensuresD [OF cancelGoal_law assms] by (simp add: cancel_law_def)

text \<open>
  \<^bold>\<open>C25\<close> A retried cancellation of a canceled goal is answered \<open>canceled\<close> once the world has
  settled: every workflow it reads has ended or is gone, the finalizer is settled, the claims can be
  fenced and the record still says canceled.
\<close>

theorem settled_cancel_done:
  assumes "s_status record = Canceled"
    and "runs (control_fits p) (cancelGoal record options) t result"
    and "list_all settledAnswer t"
  shows "\<exists>goal. result = Inr (CancelDone goal)"
  using ensuresD [OF cancelGoal_settled [OF assms(1)] assms(2)] assms(3) by blast

end
