(* ===== verification/RecoveryLaws.thy ===== *)
theory RecoveryLaws
  imports GoalRecovery CancellationLaws
begin

section \<open>What recovery may start\<close>

text \<open>
  In every run of \<open>recoverGoal\<close> a controller is started at most once and only right after a fresh
  read that showed the goal neither ended nor canceled; one is replaced only after a restart was
  counted below the bound, with its finalizer settled. Cancellations it completes are read back,
  and a cleanup is recorded only when every history was pruned.
\<close>

subsection \<open>Programs that start no controller\<close>

fun startsController :: "control_operation \<Rightarrow> bool" where
  "startsController (EngineStart w replace) \<longleftrightarrow> True"
| "startsController _ \<longleftrightarrow> False"

fun countsRestart :: "control_operation \<Rightarrow> bool" where
  "countsRestart (StoreRecordRestart g now count) \<longleftrightarrow> True"
| "countsRestart _ \<longleftrightarrow> False"

fun marksCleanedUp :: "control_operation \<Rightarrow> bool" where
  "marksCleanedUp (StoreMarkCleanedUp g now) \<longleftrightarrow> True"
| "marksCleanedUp _ \<longleftrightarrow> False"

text \<open>The operations recovery is careful with.\<close>

definition guarded :: "control_operation \<Rightarrow> bool" where
  "guarded op \<longleftrightarrow> startsController op \<or> countsRestart op \<or> marksCleanedUp op"

abbreviation unguarded :: "'a host_program \<Rightarrow> bool" where
  "unguarded m \<equiv> performsAtMost guarded 0 m"

lemma unguarded_readable: "unguarded m \<Longrightarrow> unguarded (readable m)"
  by (auto simp: readable_def intro!: never_intros)

lemma unguarded_commitCancellation: "unguarded (commitCancellation r nowMs)"
  by (auto simp: commitCancellation_def guarded_def intro!: never_intros split: option.split)

lemma unguarded_fence: "unguarded (fenceOvertakenAttempts r)"
  by (auto simp: fenceOvertakenAttempts_def guarded_def intro!: never_intros)

lemma unguarded_stopRuns: "unguarded (stopRuns r)"
  by (auto simp: stopRuns_def guarded_def intro!: never_intros unguarded_fence)

lemma unguarded_unfinished: "unguarded (unfinishedAfterCancellation engine g runIds c)"
  by (auto simp: unfinishedAfterCancellation_def Let_def guarded_def intro!: never_intros unguarded_readable)

lemma unguarded_readBack: "unguarded (readBack g runIds scoped fenced)"
  by (auto simp: readBack_def Let_def guarded_def intro!: never_intros unguarded_unfinished split: option.split)

lemma unguarded_settleCanceledGoal: "unguarded (settleCanceledGoal r scoped)"
  by (auto simp: settleCanceledGoal_def Let_def guarded_def
      intro!: never_intros unguarded_readable unguarded_readBack unguarded_stopRuns split: option.split)

lemma unguarded_commitRounds: "unguarded (commitRounds n r)"
  by (induction n arbitrary: r)
    (auto simp: guarded_def intro!: never_intros unguarded_commitCancellation
      split: option.split mutation.split transition_result.split)

lemma unguarded_completeMarked: "unguarded (completeMarked g m)"
  by (auto simp: completeMarked_def settleCancellationCommit_def Let_def guarded_def
      intro!: never_intros unguarded_stopRuns unguarded_commitRounds unguarded_unfinished
      split: cancellation_commit.split)

lemma unguarded_completeCancellation: "unguarded (completeCancellation r)"
  by (auto simp: completeCancellation_def guarded_def intro!: never_intros unguarded_completeMarked
      split: mutation.split control_result.split)

lemma unguarded_endController: "unguarded (endControllerAndCompleteCancellation r)"
  by (auto simp: endControllerAndCompleteCancellation_def guarded_def
      intro!: never_intros unguarded_completeCancellation)

lemma unguarded_standDown: "unguarded (standDownIfOvertaken g)"
  by (auto simp: standDownIfOvertaken_def guarded_def intro!: never_intros unguarded_endController
      split: option.split)

lemma unguarded_commitWithoutEngine: "unguarded (commitWithoutEngine r)"
  by (auto simp: commitWithoutEngine_def settleCancellationCommit_def
      intro!: never_intros unguarded_commitRounds split: cancellation_commit.split)

lemma unguarded_stopOrphaned: "unguarded (stopOrphanedAttempts r)"
  by (auto simp: stopOrphanedAttempts_def guarded_def intro!: never_intros unguarded_fence)

lemma unguarded_finalRestart: "unguarded (finalRestartIsInFlight r w)"
  by (auto simp: finalRestartIsInFlight_def Let_def guarded_def intro!: never_intros split: option.split)

lemma unguarded_enforceDeterminism: "unguarded (enforceDeterminism r)"
  by (auto simp: enforceDeterminism_def guarded_def intro!: never_intros
      split: option.split goal_decision.split mutation.split transition_result.split)

lemma unguarded_recoverAttempt: "unguarded (recoverAttempt r)"
  by (auto simp: recoverAttempt_def Let_def guarded_def intro!: never_intros
      split: option.split reconciliation.split start_answer.split)

lemmas unguarded = unguarded_completeCancellation unguarded_endController unguarded_standDown
  unguarded_commitWithoutEngine unguarded_stopOrphaned unguarded_finalRestart
  unguarded_enforceDeterminism unguarded_recoverAttempt unguarded_settleCanceledGoal
  unguarded_readable unguarded_fence

subsection \<open>What a start rests on\<close>

text \<open>
  The trace \<open>t\<close> just before a start under \<open>w\<close>: its last step read the goal alive and not canceled,
  shutdown had not begun, and for a replacement the step before counted the restart.
\<close>

definition wantsController :: "goal_state \<Rightarrow> bool" where
  "wantsController s \<longleftrightarrow> \<not> isTerminalStatus (s_status s) \<and> s_cancellation s = None"

definition startJustified ::
    "jstr \<Rightarrow> (control_operation, control_answer) trace \<Rightarrow> jstr \<Rightarrow> bool \<Rightarrow> bool" where
  "startJustified g t w replace \<longleftrightarrow>
     w = goalWorkflowId g
     \<and> (\<exists>fresh before. t = before @ [(StoreGet g, RecordAnswer (Some fresh))]
          \<and> s_goalRunId fresh = g \<and> wantsController fresh
          \<and> (IsClosing, FlagAnswer False) \<in> set before
          \<and> (replace \<longrightarrow> (\<exists>now count r earlier finalizer.
               before = earlier @ [(StoreRecordRestart g now count, ControlAnswer (Answer (Updated r)))]
               \<and> count < MAXIMUM_CONTROLLER_RESTARTS \<and> s_controllerRestarts r = Suc count
               \<and> (EngineFinalizer w, FinalizerAnswer finalizer) \<in> set earlier
               \<and> finalizer \<noteq> Some FzPending \<and> finalizer \<noteq> Some FzRunning)))"

definition startsJustified :: "jstr \<Rightarrow> (control_operation, control_answer) trace \<Rightarrow> bool" where
  "startsJustified g = everyStep (\<lambda>before e. \<forall>w replace. fst e = EngineStart w replace \<longrightarrow>
     startJustified g before w replace)"

lemma startsJustified_Nil [simp]: "startsJustified g []"
  by (simp add: startsJustified_def)

lemma startsJustified_snoc:
  "startsJustified g (t @ [(op, a)]) \<longleftrightarrow>
     startsJustified g t \<and> (\<forall>w replace. op = EngineStart w replace \<longrightarrow> startJustified g t w replace)"
  by (simp add: startsJustified_def everyStep_snoc)

lemma startsJustified_append:
  "list_all (\<lambda>e. \<not> startsController (fst e)) s \<Longrightarrow> startsJustified g t \<Longrightarrow> startsJustified g (t @ s)"
  unfolding startsJustified_def by (rule everyStep_append) (auto simp: list_all_iff)

lemma startsJustified_quiet:
  "list_all (\<lambda>e. \<not> guarded (fst e)) s \<Longrightarrow> startsJustified g t \<Longrightarrow> startsJustified g (t @ s)"
  by (rule startsJustified_append) (auto simp: guarded_def list_all_iff)

lemma unguarded_justified:
  assumes "unguarded m" "startsJustified g tr"
  shows "ensures fits m tr (\<lambda>t result. startsJustified g t)"
  by (rule ensures_mono [OF never_ensures [OF assms(1)]]) (use assms(2) startsJustified_quiet in blast)

subsection \<open>The controller\<close>

text \<open>A read that lets a start go on is the last step of the trace.\<close>

lemma standDown_law:
  assumes "startsJustified g tr"
  shows "ensures (control_fits p) (standDownIfOvertaken g) tr
    (\<lambda>t result. startsJustified g t \<and> (result = Inr None \<longrightarrow>
       (\<exists>fresh. t = tr @ [(StoreGet g, RecordAnswer (Some fresh))] \<and> s_goalRunId fresh = g \<and> wantsController fresh)))"
proof -
  have step: "startsJustified g (tr @ [e])" if "\<not> guarded (fst e)" for e
    using startsJustified_quiet [of "[e]"] that assms by simp
  have end_step: "ensures (control_fits p) (endControllerAndCompleteCancellation fresh) (tr @ [e]) (\<lambda>t result. startsJustified g t)"
    if "\<not> guarded (fst e)" for fresh e
    by (rule unguarded_justified [OF unguarded_endController step [OF that]])
  have ended: "ensures (control_fits p) (bindE (endControllerAndCompleteCancellation fresh) (\<lambda>outcome. Ret (Some outcome)))
      (tr @ [e]) (\<lambda>t result. startsJustified g t \<and> (result = Inr None \<longrightarrow> Q t))"
    if "\<not> guarded (fst e)" for fresh e Q
    by (rule ensures_bindI [OF end_step]) (use that in simp_all)
  define finish where "finish fresh = bindE (endControllerAndCompleteCancellation fresh) (\<lambda>outcome. Ret (Some outcome))"
    for fresh
  have two: "startsJustified g (tr @ [d, e])" if "\<not> guarded (fst d)" "\<not> guarded (fst e)" for d e
    using startsJustified_quiet [of "[d, e]"] that assms by simp
  show ?thesis
    unfolding standDownIfOvertaken_def finish_def [symmetric]
    using ended [folded finish_def] step two
    by (auto simp: control_steps guarded_def wantsController_def split: option.splits)
qed

lemma startController_law:
  assumes "startsJustified g tr" "startJustified g tr (goalWorkflowId g) replace"
  shows "ensures (control_fits p) (startController g replace) tr (\<lambda>t result. startsJustified g t)"
  using assms unfolding startController_def
  by (auto simp: control_steps startsJustified_snoc)

lemma startMissing_law:
  assumes "startsJustified (s_goalRunId record) tr" "(IsClosing, FlagAnswer False) \<in> set tr"
  shows "ensures (control_fits p) (startMissingController record) tr
    (\<lambda>t result. startsJustified (s_goalRunId record) t)"
  unfolding startMissingController_def
proof (rule ensures_bindI [OF standDown_law [OF assms(1)]])
  fix t and overtaken :: "controller_recovery option"
  assume "startsJustified (s_goalRunId record) t \<and> (Inr overtaken = Inr None \<longrightarrow>
    (\<exists>fresh. t = tr @ [(StoreGet (s_goalRunId record), RecordAnswer (Some fresh))]
       \<and> s_goalRunId fresh = s_goalRunId record \<and> wantsController fresh))"
  then show "ensures (control_fits p) (case overtaken of Some outcome \<Rightarrow> Ret outcome
    | None \<Rightarrow> bindE (startController (s_goalRunId record) False) (\<lambda>started.
        Ret (recovered (if started = StartedNow then RcStarted else RcRunning)))) t
    (\<lambda>t result. startsJustified (s_goalRunId record) t)"
    using assms(2)
    by (auto split: option.splits sum.splits simp: startJustified_def
        intro!: ensures_mono [OF startController_law])
qed simp

lemma restart_answered:
  assumes "control_answered g (evaluateRestart now (Some count)) (Answer (Updated r))"
  shows "s_controllerRestarts r = Suc count"
  using assms
  by (auto simp: control_answered_def evaluateRestart_def withRestart_def Let_def split: if_splits)

lemma replaceCounted_law:
  assumes "startsJustified g (earlier @ [(StoreRecordRestart g now count, ControlAnswer (Answer (Updated r)))])"
    and "(IsClosing, FlagAnswer False) \<in> set earlier"
    and "count < MAXIMUM_CONTROLLER_RESTARTS" "s_controllerRestarts r = Suc count"
    and "(EngineFinalizer (goalWorkflowId g), FinalizerAnswer finalizer) \<in> set earlier"
    and "finalizer \<noteq> Some FzPending" "finalizer \<noteq> Some FzRunning"
  shows "ensures (control_fits p) (replaceCounted g)
    (earlier @ [(StoreRecordRestart g now count, ControlAnswer (Answer (Updated r)))])
    (\<lambda>t result. startsJustified g t)"
  unfolding replaceCounted_def
proof (rule ensures_bindI [OF standDown_law [OF assms(1)]])
  fix t and raced :: "controller_recovery option"
  let ?counted = "earlier @ [(StoreRecordRestart g now count, ControlAnswer (Answer (Updated r)))]"
  assume l: "startsJustified g t \<and> (Inr raced = Inr None \<longrightarrow>
    (\<exists>fresh. t = ?counted @ [(StoreGet g, RecordAnswer (Some fresh))] \<and> s_goalRunId fresh = g \<and> wantsController fresh))"
  show "ensures (control_fits p) (case raced of Some outcome \<Rightarrow> Ret outcome
    | None \<Rightarrow> catchE (bindE (startController g True) (\<lambda>started.
          Ret (recovered (if started = StartedNow then RcRestarted else RcRunning))))
        (\<lambda>e. if e = TeardownPending then Ret (recovered RcRestartPending) else Raise e)) t
    (\<lambda>t result. startsJustified g t)"
  proof (cases raced)
    case None
    then obtain fresh where t: "t = ?counted @ [(StoreGet g, RecordAnswer (Some fresh))]"
      "s_goalRunId fresh = g" "wantsController fresh" using l by auto
    have "startJustified g t (goalWorkflowId g) True"
      unfolding startJustified_def t(1) using assms t(2,3) by auto
    then have "ensures (control_fits p) (startController g True) t (\<lambda>t result. startsJustified g t)"
      using startController_law l by blast
    then show ?thesis
      by (auto simp: None elim!: ensures_mono split: sum.splits)
  qed (use l in simp)
qed simp

lemma countAndRestart_law:
  assumes j: "startsJustified (s_goalRunId record) tr"
    and c: "(IsClosing, FlagAnswer False) \<in> set tr"
    and n: "s_controllerRestarts record < MAXIMUM_CONTROLLER_RESTARTS"
    and f: "(EngineFinalizer (goalWorkflowId (s_goalRunId record)), FinalizerAnswer finalizer) \<in> set tr"
      "finalizer \<noteq> Some FzPending" "finalizer \<noteq> Some FzRunning"
  shows "ensures (control_fits p) (countAndRestart record) tr
    (\<lambda>t result. startsJustified (s_goalRunId record) t)"
proof -
  let ?g = "s_goalRunId record"
  let ?counted = "\<lambda>now x. [(ClockNowIso, StampAnswer now),
      (StoreRecordRestart ?g now (s_controllerRestarts record), x)]"
  have step: "startsJustified ?g (tr @ ?counted now x)" for now x
    by (rule startsJustified_append) (simp_all add: j)
  have quiet: "ensures (control_fits p) m (tr @ ?counted now x) (\<lambda>t result. startsJustified ?g t)"
    if "unguarded m" for m :: "controller_recovery host_program" and now x
    by (rule unguarded_justified [OF that step])
  have "ensures (control_fits p) (replaceCounted ?g) (tr @ ?counted now (ControlAnswer (Answer (Updated r))))
      (\<lambda>t result. startsJustified ?g t)"
    if "control_answered ?g (evaluateRestart now (Some (s_controllerRestarts record))) (Answer (Updated r))" for now r
    using replaceCounted_law [where earlier = "tr @ [(ClockNowIso, StampAnswer now)]" and g = ?g]
      step c n f restart_answered [OF that] by simp
  moreover define giveUp where "giveUp = bindE (stopOrphanedAttempts record) (\<lambda>_. Ret (recovered RcUnrecoverable))"
  moreover have "unguarded giveUp"
    by (auto simp: giveUp_def intro!: never_intros unguarded)
  ultimately show ?thesis
    unfolding countAndRestart_def Let_def giveUp_def [symmetric]
    using quiet unguarded_endController step
    by (auto simp: control_steps split: mutation.split control_result.split)
qed

lemma quiet_then:
  assumes "unguarded m" "startsJustified g tr"
    and "\<And>s x. startsJustified g (tr @ s) \<Longrightarrow> ensures fits (f x) (tr @ s) (\<lambda>t result. startsJustified g t)"
  shows "ensures fits (bindE m f) tr (\<lambda>t result. startsJustified g t)"
  by (rule ensures_bindI [OF never_ensures [OF assms(1)]]) (use assms(2,3) startsJustified_quiet in auto)

lemma restartController_law:
  assumes j: "startsJustified (s_goalRunId record) tr"
  shows "ensures (control_fits p) (restartController record state) tr
    (\<lambda>t result. startsJustified (s_goalRunId record) t)"
proof (cases "s_controllerRestarts record \<ge> MAXIMUM_CONTROLLER_RESTARTS")
  case True
  have "unguarded (restartController record state)"
    using True by (auto simp: restartController_def Let_def intro!: never_intros unguarded)
  then show ?thesis by (rule unguarded_justified [OF _ j])
next
  case False
  let ?g = "s_goalRunId record" and ?w = "goalWorkflowId (s_goalRunId record)"
  have step: "startsJustified ?g (tr @ s)" if "list_all (\<lambda>e. \<not> startsController (fst e)) s" for s
    by (rule startsJustified_append [OF that j])
  have count: "ensures (control_fits p) (bindE (standDownIfOvertaken ?g) (\<lambda>overtaken.
        case overtaken of Some outcome \<Rightarrow> Ret outcome | None \<Rightarrow> countAndRestart record))
      (tr @ [(EngineFinalizer ?w, FinalizerAnswer f), (IsClosing, FlagAnswer False)])
      (\<lambda>t result. startsJustified ?g t)"
    if "f \<noteq> Some FzPending" "f \<noteq> Some FzRunning" for f
  proof (rule ensures_bindI [OF standDown_law])
    fix t and overtaken :: "controller_recovery option"
    assume "startsJustified ?g t \<and> (Inr overtaken = Inr None \<longrightarrow>
      (\<exists>fresh. t = (tr @ [(EngineFinalizer ?w, FinalizerAnswer f), (IsClosing, FlagAnswer False)])
           @ [(StoreGet ?g, RecordAnswer (Some fresh))] \<and> s_goalRunId fresh = ?g \<and> wantsController fresh))"
    then show "ensures (control_fits p)
        (case overtaken of Some outcome \<Rightarrow> Ret outcome | None \<Rightarrow> countAndRestart record) t
        (\<lambda>t result. startsJustified ?g t)"
      using that False by (auto split: option.split intro!: countAndRestart_law)
  qed (simp_all add: step)
  define go where "go = bindE (standDownIfOvertaken ?g) (\<lambda>overtaken.
      case overtaken of Some outcome \<Rightarrow> Ret outcome | None \<Rightarrow> countAndRestart record)"
  show ?thesis
    unfolding restartController_def Let_def go_def [symmetric]
    using False step count [folded go_def] by (auto simp: control_steps)
qed

lemma settleByStatus_law:
  assumes j: "startsJustified (s_goalRunId record) tr"
  shows "ensures (control_fits p) (settleByStatus record state) tr
    (\<lambda>t result. startsJustified (s_goalRunId record) t)"
proof (cases "isTerminalController (wr_status state) \<and> wr_status state \<noteq> WfCancelled \<and> s_cancellation record = None")
  case True
  then have "settleByStatus record state = restartController record state"
    by (auto simp: settleByStatus_def Let_def)
  then show ?thesis using restartController_law [OF j] by simp
next
  case False
  have "unguarded (settleByStatus record state)"
    using False by (cases "wr_status state")
      (auto simp: settleByStatus_def Let_def guarded_def intro!: never_intros unguarded)
  then show ?thesis by (rule unguarded_justified [OF _ j])
qed

lemma recoverController_law:
  assumes j: "startsJustified (s_goalRunId record) tr"
  shows "ensures (control_fits p) (recoverController record) tr
    (\<lambda>t result. startsJustified (s_goalRunId record) t)"
proof -
  let ?g = "s_goalRunId record" and ?w = "goalWorkflowId (s_goalRunId record)"
  define settle where "settle state = (case state of
      None \<Rightarrow> startMissingController record | Some reading \<Rightarrow> settleByStatus record reading)" for state
  define check where "check state = bindE (enforceDeterminism record) (\<lambda>ended.
      if \<exists>r. ended = Some r \<and> s_status r = Failed then Ret (recovered RcUnsupportedValidation)
      else settle state)" for state
  have step: "startsJustified ?g (tr @ s)" if "list_all (\<lambda>e. \<not> startsController (fst e)) s" for s
    by (rule startsJustified_append [OF that j])
  have settled: "ensures (control_fits p) (settle state) t (\<lambda>t result. startsJustified ?g t)"
    if "startsJustified ?g t" "state = None \<longrightarrow> (IsClosing, FlagAnswer False) \<in> set t" for state t
    unfolding settle_def
    using startMissing_law [OF that(1)] settleByStatus_law [OF that(1)] that(2) by (cases state) simp_all
  have checked: "ensures (control_fits p) (check state) (tr @ s) (\<lambda>t result. startsJustified ?g t)"
    if "startsJustified ?g (tr @ s)" "state = None \<longrightarrow> (IsClosing, FlagAnswer False) \<in> set s" for state s
    unfolding check_def
    by (rule quiet_then [OF unguarded_enforceDeterminism that(1)]) (use that(2) settled in auto)
  have live: "ensures (control_fits p) (settle state) t (\<lambda>t result. startsJustified ?g t)"
    if "\<not> wantsStart state" "startsJustified ?g t" for state t
    using that settled by (cases state) (auto simp: wantsStart_def)
  have noEngine: "ensures (control_fits p) (commitWithoutEngine record) (tr @ [e]) (\<lambda>t result. startsJustified ?g t)"
    if "\<not> startsController (fst e)" for e
    by (rule unguarded_justified [OF unguarded_commitWithoutEngine step]) (use that in simp)
  show ?thesis
    unfolding recoverController_def Let_def settle_def [symmetric] check_def [symmetric]
    using step settled checked noEngine live
    by (auto simp: control_steps)
qed

subsection \<open>A whole recovery\<close>

lemma never_fewer:
  assumes "performsAtMost P 0 m" "\<And>op. Q op \<Longrightarrow> P op"
  shows "performsAtMost Q n m"
  by (rule performsAtMost_mono [OF never_mono [OF assms] le0])

definition replaces :: "control_operation \<Rightarrow> bool" where
  "replaces op \<longleftrightarrow> startsController op \<or> countsRestart op"

lemma unguarded_replaces: "unguarded m \<Longrightarrow> performsAtMost replaces 0 m"
  by (erule never_mono) (auto simp: guarded_def replaces_def)

lemma unguarded_settleCommitted: "unguarded (settleCommittedCancellation r)"
  by (auto simp: settleCommittedCancellation_def intro!: never_intros unguarded)

lemma unguarded_stopOvertaken: "unguarded (stopOvertakenRuns r)"
  by (auto simp: stopOvertakenRuns_def stopOvertakenRun_def guarded_def intro!: never_intros unguarded)

lemma unguarded_cleanUpGoal: "unguarded (cleanUpGoal r)"
  by (auto simp: cleanUpGoal_def cleanUpWorkflow_def guarded_def intro!: never_intros)

lemma settleEnded_replaces: "performsAtMost replaces 0 (settleEnded r)"
proof -
  have "performsAtMost replaces 0 (finishOwedCleanup r)"
    unfolding finishOwedCleanup_def
    by (auto intro!: never_intros unguarded_replaces [OF unguarded_cleanUpGoal]) (simp_all add: replaces_def)
  then show ?thesis
    unfolding settleEnded_def
    by (auto intro!: never_intros unguarded_replaces [OF unguarded_settleCommitted]
        unguarded_replaces [OF unguarded_stopOvertaken])
qed

lemma recoverGoal_starts:
  "ensures (control_fits p) (recoverGoal g) [] (\<lambda>t result. startsJustified g t)"
proof -
  have live: "ensures (control_fits p) (recoverLive r) tr (\<lambda>t result. startsJustified g t)"
    if g: "s_goalRunId r = g" and j: "startsJustified g tr" for r tr
  proof -
    have attempt: "ensures (control_fits p) (recoverAttempt r) t (\<lambda>t result. startsJustified g t)"
      if "startsJustified g t" for t
      by (rule unguarded_justified [OF unguarded_recoverAttempt that])
    have c: "ensures (control_fits p) (catchE (recoverController r)
        (\<lambda>e. if e = NotOwnedFault then Ret (recovered RcUnrecoverable) else Raise e)) tr
      (\<lambda>t result. startsJustified g t)"
      using recoverController_law [of r tr p] g j
      by (auto elim!: ensures_mono split: sum.splits)
    show ?thesis
      unfolding recoverLive_def Let_def
      by (rule ensures_bindI [OF c])
        (auto simp: attempt split: if_splits)
  qed
  have "ensures (control_fits p) (settleEnded r) tr (\<lambda>t result. startsJustified g t)"
    if "startsJustified g tr" for r tr
    by (rule ensures_mono [OF never_ensures [OF settleEnded_replaces]])
      (use that startsJustified_append [of _ g tr] in \<open>auto simp: replaces_def list_all_iff\<close>)
  moreover have "startsJustified g [(StoreGet g, x)]" for x
    using startsJustified_append [of "[(StoreGet g, x)]" g "[]"] by simp
  ultimately show ?thesis
    unfolding recoverGoal_def using live by (auto simp: control_steps split: option.splits)
qed

text \<open>At most one start and one counted restart.\<close>

lemma starts_unguarded: "unguarded m \<Longrightarrow> performsAtMost startsController n m"
  by (erule never_fewer) (simp add: guarded_def)

lemma counts_unguarded: "unguarded m \<Longrightarrow> performsAtMost countsRestart n m"
  by (erule never_fewer) (simp add: guarded_def)

lemma startController_once: "performsAtMost startsController (Suc 0) (startController g replace)"
  by (auto simp: startController_def intro!: once_catch once_bind)

lemma startController_counts: "performsAtMost countsRestart 0 (startController g replace)"
  by (auto simp: startController_def intro!: never_intros)

lemma startMissing_once: "performsAtMost startsController (Suc 0) (startMissingController r)"
  unfolding startMissingController_def
  by (auto intro!: later_bind [OF starts_unguarded [OF unguarded_standDown]] once_bind startController_once
      split: option.split)

lemma replaceCounted_once: "performsAtMost startsController (Suc 0) (replaceCounted g)"
  unfolding replaceCounted_def
  by (auto intro!: later_bind [OF starts_unguarded [OF unguarded_standDown]] once_catch once_bind
      startController_once split: option.split)

lemma replaceCounted_counts: "performsAtMost countsRestart 0 (replaceCounted g)"
  unfolding replaceCounted_def
  by (auto intro!: never_bind [OF counts_unguarded [OF unguarded_standDown]] never_catch never_bind
      startController_counts split: option.split)

lemma countAndRestart_once: "performsAtMost startsController (Suc 0) (countAndRestart r)"
  unfolding countAndRestart_def Let_def
  by (auto intro!: later_bind [of startsController clockNowIso] later_bind [of _ "storeControl op" for op]
      replaceCounted_once starts_unguarded [OF unguarded_endController]
      later_bind [OF starts_unguarded [OF unguarded_stopOrphaned]]
      split: mutation.split control_result.split)

lemma countAndRestart_counts: "performsAtMost countsRestart (Suc 0) (countAndRestart r)"
  unfolding countAndRestart_def Let_def
  by (rule later_bind, simp, rule once_bind)
    (auto intro!: replaceCounted_counts counts_unguarded [OF unguarded_endController]
      never_bind [OF counts_unguarded [OF unguarded_stopOrphaned]]
      split: mutation.split control_result.split)

lemma startMissing_counts: "performsAtMost countsRestart 0 (startMissingController r)"
  unfolding startMissingController_def
  by (auto intro!: never_bind [OF counts_unguarded [OF unguarded_standDown]] never_bind startController_counts
      split: option.split)

text \<open>The paths through one recovery, for either of the two.\<close>

lemma recoverController_once:
  assumes quiet: "\<And>m :: controller_recovery host_program. unguarded m \<Longrightarrow> performsAtMost P (Suc 0) m"
    and "\<And>op. P op \<Longrightarrow> guarded op"
    and count: "performsAtMost P (Suc 0) (countAndRestart r)"
    and missing: "performsAtMost P (Suc 0) (startMissingController r)"
  shows "performsAtMost P (Suc 0) (recoverController r)"
proof -
  have n: "\<not> P op" if "\<not> guarded op" for op using assms(2) that by blast
  have never: "performsAtMost P 0 m" if "unguarded m" for m :: "'a host_program"
    by (rule never_mono [OF that]) (rule assms(2))
  have restart: "performsAtMost P (Suc 0) (restartController r state)" for state
  proof (cases "s_controllerRestarts r \<ge> MAXIMUM_CONTROLLER_RESTARTS")
    case True
    then show ?thesis
      by (auto simp: restartController_def Let_def intro!: quiet never_intros unguarded)
  next
    case False
    have "performsAtMost P 0 (readable (engineFinalizer (goalWorkflowId (s_goalRunId r))))"
      by (rule never [OF unguarded_readable]) (simp add: guarded_def)
    moreover have "performsAtMost P 0 (standDownIfOvertaken (s_goalRunId r))"
      by (rule never_mono [OF unguarded_standDown]) (rule assms(2))
    ultimately show ?thesis
      using False count
      by (auto simp: restartController_def Let_def n guarded_def intro!: later_bind split: option.split)
  qed
  have status: "performsAtMost P (Suc 0) (settleByStatus r state)" for state
    using restart [of state]
    by (auto simp: settleByStatus_def Let_def n guarded_def intro!: quiet unguarded later_bind)
  have "performsAtMost P 0 (enforceDeterminism r)"
    by (rule never_mono [OF unguarded_enforceDeterminism]) (rule assms(2))
  then show ?thesis
    using missing status
    by (auto simp: recoverController_def Let_def n guarded_def
        intro!: later_bind quiet [OF unguarded_commitWithoutEngine] split: option.split)
qed

lemma recoverGoal_once:
  assumes "P = startsController \<or> P = countsRestart"
  shows "performsAtMost P (Suc 0) (recoverGoal g)"
proof -
  have quiet: "performsAtMost P n m" if "unguarded m" for n and m :: "'a host_program"
    using assms starts_unguarded [OF that] counts_unguarded [OF that] by auto
  have c: "performsAtMost P (Suc 0) (recoverController r)" for r
  proof (rule recoverController_once)
    show "performsAtMost P (Suc 0) (countAndRestart r)"
      using assms countAndRestart_once countAndRestart_counts by auto
    show "performsAtMost P (Suc 0) (startMissingController r)"
      using assms startMissing_once performsAtMost_mono [OF startMissing_counts le0] by auto
  qed (use quiet assms in \<open>auto simp: guarded_def\<close>)
  have "performsAtMost P (Suc 0) (recoverLive r)" for r
    unfolding recoverLive_def Let_def
    using c assms
    by (auto intro!: once_bind once_catch never_intros starts_unguarded [OF unguarded_recoverAttempt]
        counts_unguarded [OF unguarded_recoverAttempt])
  moreover have "performsAtMost P (Suc 0) (settleEnded r)" for r
    by (rule never_fewer [OF settleEnded_replaces]) (use assms in \<open>auto simp: replaces_def\<close>)
  ultimately show ?thesis
    unfolding recoverGoal_def using assms by (auto intro!: later_bind split: option.split)
qed

subsection \<open>The property\<close>

text \<open>
  \<^bold>\<open>C22\<close> Recovering a goal starts at most one controller and counts at most one restart. Each
  start comes right after a fresh read that showed the goal alive and not canceled, and after
  shutdown was seen not to have begun; a replacement comes only after this call counted a restart
  below the bound, with the ended controller's finalizer read as settled.
\<close>

theorem recovery_starts:
  assumes "runs (control_fits p) (recoverGoal g) t result"
  shows "startsJustified g t
    \<and> length (filter (startsController \<circ> fst) t) \<le> 1
    \<and> length (filter (countsRestart \<circ> fst) t) \<le> 1"
  using ensuresD [OF recoverGoal_starts assms]
    performsAtMost_runs [OF recoverGoal_once assms, of startsController]
    performsAtMost_runs [OF recoverGoal_once assms, of countsRestart]
  by simp_all

end
