(* ===== verification/RecoveryAnswers.thy ===== *)
theory RecoveryAnswers
  imports RecoveryLaws
begin

section \<open>What recovery may report\<close>

text \<open>
  \<open>canceled\<close> is reported only of a cancellation that was committed and then read back, with every
  claim it owed a tombstone fenced; a cleanup is recorded only when every history of the goal was
  pruned or needed nothing.
\<close>

subsection \<open>A committed cancellation\<close>

fun confirmsCanceled :: "transition_result \<Rightarrow> bool" where
  "confirmsCanceled (Applied r) \<longleftrightarrow> s_status r = Canceled"
| "confirmsCanceled (Duplicate r) \<longleftrightarrow> tr_to (s_currentTransition r) = Canceled"
| "confirmsCanceled (Stale r) \<longleftrightarrow> s_status r = Canceled"
| "confirmsCanceled (Rejected reason r) \<longleftrightarrow> s_status r = Canceled"

definition committedIn :: "jstr \<Rightarrow> (control_operation, control_answer) trace \<Rightarrow> bool" where
  "committedIn g t \<longleftrightarrow>
     (\<exists>rq a. (StoreApplyTransition rq, TransitionAnswer (Answer a)) \<in> set t
        \<and> rq_goalRunId rq = g \<and> confirmsCanceled a)"

lemma committedIn_append [simp]: "committedIn g (s @ t) \<longleftrightarrow> committedIn g s \<or> committedIn g t"
  by (auto simp: committedIn_def)

text \<open>The request the commit sends, and what an answer to it says.\<close>

lemma cancellation_request:
  assumes "buildGoalForcedFinish (toGoalWorkflowView r) bureauIdentifiers nowMs
      (decideCancellation :: json goal_decision) = Some rq"
  shows "rq_goalRunId rq = s_goalRunId r" "rq_to rq = Canceled"
  using assms
  by (auto simp: buildGoalForcedFinish_def decidedTransition_def baseTransition_def Let_def
      decideCancellation_def toGoalWorkflowView_def split: option.splits)

lemma store_answers_record:
  assumes "store_answers p rq u (Answer a) v"
  shows "case a of
      Applied r \<Rightarrow> s_status r = rq_to rq \<and> s_goalRunId r = s_goalRunId u
    | Duplicate r \<Rightarrow> r = u \<and> tr_to (s_currentTransition r) = rq_to rq
    | Stale r \<Rightarrow> r = u
    | Rejected reason r \<Rightarrow> r = u"
  using assms
proof cases
  case (written n)
  then show ?thesis by (auto elim!: evaluateTransition_Write)
next
  case settled
  then show ?thesis
    by (auto simp: evaluateTransition_def Let_def split: if_split_asm sum.split_asm)
qed auto

lemma commitRounds_law:
  "ensures (control_fits p) (commitRounds n r) tr
    (\<lambda>t result. \<exists>s. t = tr @ s \<and> (result = Inr Committed \<longrightarrow> s_status r = Canceled \<or> committedIn (s_goalRunId r) s)
       \<and> (\<forall>outcome. result = Inr (Settled outcome) \<longrightarrow> cr_outcome outcome \<noteq> RcCanceled))"
proof (induction n arbitrary: r tr)
  case (Suc n)
  define again where "again = commitRounds n"
  have again: "ensures (control_fits p) (again u) (tr @ s)
    (\<lambda>t result. \<exists>s. t = tr @ s \<and> (result = Inr Committed \<longrightarrow> s_status r = Canceled \<or> committedIn (s_goalRunId r) s)
       \<and> (\<forall>outcome. result = Inr (Settled outcome) \<longrightarrow> cr_outcome outcome \<noteq> RcCanceled))"
    if "s_goalRunId u = s_goalRunId r" "s_status u \<noteq> Canceled" for u s
    unfolding again_def by (rule ensures_mono [OF Suc.IH]) (use that in auto)
  define body where "body committed = (case committed of
      None \<Rightarrow> Ret Committed
    | Some (Answer (Applied r)) \<Rightarrow> Ret Committed
    | Some (Answer (Duplicate r)) \<Rightarrow> Ret Committed
    | Some (Answer (Stale r)) \<Rightarrow>
        if s_status r = Canceled then Ret Committed
        else if isTerminalStatus (s_status r) then Ret (Settled (recovered RcAlreadyTerminal))
        else again r
    | Some (Answer (Rejected reason r)) \<Rightarrow>
        if s_status r = Canceled then Ret Committed
        else if isTerminalStatus (s_status r) then Ret (Settled (recovered RcAlreadyTerminal))
        else Ret (Settled (recovered RcUnrecoverable))
    | Some Missing \<Rightarrow> Ret (Settled (recovered RcNotFound))
    | Some Corrupt \<Rightarrow> Ret (Settled (recovered RcUnrecoverable))
    | Some Thrown \<Rightarrow> Raise (Fault []))" for committed
  have c: "committedIn (s_goalRunId r) [(ClockNow, InstantAnswer nowMs), (StoreApplyTransition rq, TransitionAnswer (Answer a))]"
    if "rq_goalRunId rq = s_goalRunId r" "confirmsCanceled a" for nowMs rq a
    using that by (auto simp: committedIn_def)
  show ?case
  proof (cases "s_status r = Canceled")
    case True
    then show ?thesis by (simp add: commitCancellation_def control_steps)
  next
    case False
    let ?Q = "\<lambda>t result. \<exists>s. t = tr @ s \<and> (result = Inr Committed \<longrightarrow> s_status r = Canceled \<or> committedIn (s_goalRunId r) s)
       \<and> (\<forall>outcome. result = Inr (Settled outcome) \<longrightarrow> cr_outcome outcome \<noteq> RcCanceled)"
    have b: "ensures (control_fits p) (body (Some x))
        (tr @ [(ClockNow, InstantAnswer nowMs), (StoreApplyTransition rq, TransitionAnswer x)]) ?Q"
      if rq: "rq_goalRunId rq = s_goalRunId r" "rq_to rq = Canceled"
        and x: "x = Missing \<or> x = Corrupt \<or> (\<exists>u v. s_goalRunId u = rq_goalRunId rq \<and> store_answers p rq u x v)"
      for nowMs rq x
    proof (cases x)
      case (Answer a)
      then obtain u v where u: "s_goalRunId u = s_goalRunId r" "store_answers p rq u (Answer a) v"
        using x rq(1) by auto
      show ?thesis
        using store_answers_record [OF u(2)] u(1) rq c [OF rq(1), of a]
          again [of _ "[(ClockNow, InstantAnswer nowMs), (StoreApplyTransition rq, TransitionAnswer x)]"]
        by (cases a) (auto simp: body_def Answer recovered_def)
    qed (auto simp: body_def recovered_def)
    have "ensures (control_fits p) (bindE clockNow (\<lambda>nowMs. bindE (commitCancellation r nowMs) body)) tr ?Q"
      using False b cancellation_request
      by (auto simp: commitCancellation_def control_steps split: option.split)
    then show ?thesis
      unfolding commitRounds.simps body_def again_def .
  qed
qed (simp add: stillWaiting_def)

subsection \<open>\<open>canceled\<close> is a read-back\<close>

definition confirmedCancellation :: "jstr \<Rightarrow> (control_operation, control_answer) trace \<Rightarrow> bool" where
  "confirmedCancellation g t \<longleftrightarrow>
     (\<exists>m before reads. t = before @ (HasEngine, FlagAnswer True) # reads \<and> s_goalRunId m = g
        \<and> (s_status m = Canceled \<or> committedIn g before)
        \<and> list_all (fencedIn m before) (attemptIndexesToStop m)
        \<and> workflowTrace g (runsToStop m) reads)"

definition canceledRead ::
    "jstr \<Rightarrow> ('a \<Rightarrow> controller_recovery option) \<Rightarrow> (control_operation, control_answer) trace \<Rightarrow> fault + 'a \<Rightarrow> bool" where
  "canceledRead g outcomeOf t result \<longleftrightarrow>
     (\<forall>x outcome. result = Inr x \<longrightarrow> outcomeOf x = Some outcome \<longrightarrow> cr_outcome outcome = RcCanceled \<longrightarrow>
        confirmedCancellation g t)"

lemma canceledRead_simps [simp]:
  "canceledRead g outcomeOf t (Inl e)"
  "canceledRead g outcomeOf t (Inr x) \<longleftrightarrow>
     (\<forall>outcome. outcomeOf x = Some outcome \<longrightarrow> cr_outcome outcome = RcCanceled \<longrightarrow> confirmedCancellation g t)"
  by (auto simp: canceledRead_def)

lemma recovered_outcome [simp]:
  "cr_outcome (recovered outcome) = outcome"
  "cr_outcome (stillWaiting awaiting) = RcCancellationPending"
  by (simp_all add: recovered_def stillWaiting_def)

text \<open>What a program does first does not matter to what it reports last.\<close>

lemma canceledRead_bind:
  assumes "\<And>t x. ensures fits (f x) t (canceledRead g outcomeOf)"
  shows "ensures fits (bindE m f) tr (canceledRead g outcomeOf)"
  by (rule ensures_bindI [where P = "\<lambda>_ _. True"]) (use assms in simp_all)

lemma canceledRead_catch:
  assumes "ensures fits m tr (canceledRead g outcomeOf)" "\<And>t e. ensures fits (h e) t (canceledRead g outcomeOf)"
  shows "ensures fits (catchE m h) tr (canceledRead g outcomeOf)"
  unfolding ensures_catch
  by (rule ensures_mono [OF assms(1)]) (use assms(2) in \<open>auto split: sum.split\<close>)

lemma completeMarked_read:
  assumes "s_goalRunId m = g"
  shows "ensures (control_fits p) (completeMarked g m) tr (canceledRead g Some)"
  unfolding completeMarked_def
proof (rule ensures_bindI [OF stopRuns_law])
  fix t fenced
  assume "stops_law m tr t (Inr fenced)"
  then obtain s where s: "t = tr @ s" "fenced \<longrightarrow> list_all (fencedIn m s) (attemptIndexesToStop m)"
    by (auto simp: stops_law_def)
  show "ensures (control_fits p) (bindE (settleCancellationCommit m) (\<lambda>commit.
      case commit of
        Settled outcome \<Rightarrow> Ret outcome
      | Committed \<Rightarrow>
          bindE (askFlag HasEngine) (\<lambda>engine.
            bindE (unfinishedAfterCancellation engine g (runsToStop m) True) (\<lambda>waits.
              let awaiting = withUnfenced fenced waits
              in Ret (if awaiting = [] then recovered RcCanceled else stillWaiting awaiting))))) t
    (canceledRead g Some)"
    unfolding settleCancellationCommit_def
  proof (rule ensures_bindI [OF commitRounds_law])
    fix t' commit
    assume "\<exists>s. t' = t @ s \<and> (Inr commit = Inr Committed \<longrightarrow> s_status m = Canceled \<or> committedIn (s_goalRunId m) s)
      \<and> (\<forall>outcome. Inr commit = Inr (Settled outcome) \<longrightarrow> cr_outcome outcome \<noteq> RcCanceled)"
    then obtain s' where s': "t' = tr @ s @ s'"
        "commit = Committed \<longrightarrow> s_status m = Canceled \<or> committedIn g s'"
        "\<forall>outcome. commit = Settled outcome \<longrightarrow> cr_outcome outcome \<noteq> RcCanceled"
      using s(1) assms by auto
    show "ensures (control_fits p) (case commit of
        Settled outcome \<Rightarrow> Ret outcome
      | Committed \<Rightarrow>
          bindE (askFlag HasEngine) (\<lambda>engine.
            bindE (unfinishedAfterCancellation engine g (runsToStop m) True) (\<lambda>waits.
              let awaiting = withUnfenced fenced waits
              in Ret (if awaiting = [] then recovered RcCanceled else stillWaiting awaiting)))) t'
      (canceledRead g Some)"
    proof (cases commit)
      case Committed
      define rest where "rest engine = bindE (unfinishedAfterCancellation engine g (runsToStop m) True) (\<lambda>waits.
        let awaiting = withUnfenced fenced waits
        in Ret (if awaiting = [] then recovered RcCanceled else stillWaiting awaiting))" for engine
      have "ensures (control_fits p) (rest engine) (t' @ [(HasEngine, FlagAnswer engine)]) (canceledRead g Some)"
        for engine
        unfolding rest_def
      proof (rule ensures_bindI [OF unfinished_law])
        fix t2 and waits :: "cancellation_wait list"
        assume "\<exists>ws. Inr waits = Inr ws \<and> (ws = [] \<longrightarrow> engine \<and> True \<and>
          (\<exists>s. t2 = (t' @ [(HasEngine, FlagAnswer engine)]) @ s \<and> workflowTrace g (runsToStop m) s))"
        then have w: "waits = [] \<longrightarrow> engine \<and> (\<exists>reads. t2 = t' @ (HasEngine, FlagAnswer engine) # reads
            \<and> workflowTrace g (runsToStop m) reads)" by auto
        have "confirmedCancellation g t2" if "waits = []" "fenced"
        proof -
          obtain reads where "t2 = t' @ (HasEngine, FlagAnswer True) # reads" "workflowTrace g (runsToStop m) reads"
            using w \<open>waits = []\<close> by auto
          moreover have "list_all (fencedIn m t') (attemptIndexesToStop m)" "s_status m = Canceled \<or> committedIn g t'"
            using s(2) s'(1,2) \<open>fenced\<close> Committed by (auto simp: list_all_iff)
          ultimately show ?thesis unfolding confirmedCancellation_def using assms by blast
        qed
        moreover have "withUnfenced fenced waits = [] \<longleftrightarrow> fenced \<and> waits = []"
          by (auto simp: withUnfenced_def)
        ultimately show "ensures (control_fits p) (let awaiting = withUnfenced fenced waits
            in Ret (if awaiting = [] then recovered RcCanceled else stillWaiting awaiting)) t2 (canceledRead g Some)"
          by (auto simp: Let_def)
      qed simp
      then show ?thesis
        unfolding Committed rest_def [symmetric] by (simp add: control_steps)
    qed (use s'(3) in simp)
  qed simp
qed simp

lemma completeCancellation_read:
  assumes "s_goalRunId r = g"
  shows "ensures (control_fits p) (completeCancellation r) tr (canceledRead g Some)"
proof -
  have "ensures (control_fits p) (case outcome of
      Answer (Refused reason r) \<Rightarrow>
        if s_status r \<noteq> Canceled then Ret (recovered RcAlreadyTerminal) else completeMarked g r
    | Answer (Updated r) \<Rightarrow> completeMarked g r
    | Answer (Unchanged r) \<Rightarrow> completeMarked g r
    | Thrown \<Rightarrow> Raise (Fault [])
    | _ \<Rightarrow> Ret (recovered RcUnrecoverable)) t (canceledRead g Some)"
    if "control_answered g (evaluateCancellation marker now) outcome" for marker now outcome t
  proof (cases outcome)
    case (Answer a)
    show ?thesis
      using cancellation_answered [OF that [unfolded Answer]] completeMarked_read
      by (cases a) (simp_all add: Answer)
  qed simp_all
  then show ?thesis
    using assms completeMarked_read
    by (auto simp: completeCancellation_def control_steps)
qed

lemma endController_read:
  assumes "s_goalRunId r = g"
  shows "ensures (control_fits p) (endControllerAndCompleteCancellation r) tr (canceledRead g Some)"
  unfolding endControllerAndCompleteCancellation_def
  by (intro canceledRead_bind completeCancellation_read assms)

lemma standDown_read:
  "ensures (control_fits p) (standDownIfOvertaken g) tr (canceledRead g id)"
proof -
  have e: "ensures (control_fits p) (bindE (endControllerAndCompleteCancellation fresh) (\<lambda>outcome. Ret (Some outcome)))
      t (canceledRead g id)"
    if "s_goalRunId fresh = g" for fresh t
    by (rule ensures_bindI [OF endController_read [OF that]]) simp_all
  define finish where "finish fresh = bindE (endControllerAndCompleteCancellation fresh) (\<lambda>outcome. Ret (Some outcome))"
    for fresh
  show ?thesis
    unfolding standDownIfOvertaken_def finish_def [symmetric]
    using e [folded finish_def]
    by (auto simp: control_steps split: option.split)
qed

lemma standDown_then:
  assumes "\<And>t. ensures (control_fits p) m t (canceledRead g Some)"
  shows "ensures (control_fits p) (bindE (standDownIfOvertaken g) (\<lambda>overtaken.
      case overtaken of Some outcome \<Rightarrow> Ret outcome | None \<Rightarrow> m)) tr (canceledRead g Some)"
  by (rule ensures_bindI [OF standDown_read]) (use assms in \<open>auto split: option.split\<close>)

lemma commitWithoutEngine_read:
  "ensures (control_fits p) (commitWithoutEngine r) tr (canceledRead g Some)"
  unfolding commitWithoutEngine_def settleCancellationCommit_def
  by (rule ensures_bindI [OF commitRounds_law]) (auto split: cancellation_commit.split)

lemma replaceCounted_read: "ensures (control_fits p) (replaceCounted g) tr (canceledRead g Some)"
  unfolding replaceCounted_def
  by (intro standDown_then canceledRead_catch canceledRead_bind) auto

lemma restart_refused:
  assumes "control_answered g (evaluateRestart now count) (Answer (Refused reason r))"
  shows "s_goalRunId r = g"
  using assms by (auto simp: control_answered_def evaluateRestart_def split: if_splits)

lemma countAndRestart_read:
  assumes g: "s_goalRunId r = g"
  shows "ensures (control_fits p) (countAndRestart r) tr (canceledRead g Some)"
proof -
  define giveUp where "giveUp = bindE (stopOrphanedAttempts r) (\<lambda>_. Ret (recovered RcUnrecoverable))"
  have "ensures (control_fits p) giveUp t (canceledRead g Some)" for t
    unfolding giveUp_def by (rule canceledRead_bind) simp
  then show ?thesis
    unfolding countAndRestart_def Let_def giveUp_def [symmetric]
    using replaceCounted_read endController_read restart_refused
    by (auto simp: g control_steps split: mutation.split control_result.split)
qed

lemma restartController_read:
  assumes g: "s_goalRunId r = g"
  shows "ensures (control_fits p) (restartController r state) tr (canceledRead g Some)"
proof -
  define go where "go = bindE (standDownIfOvertaken g) (\<lambda>overtaken.
      case overtaken of Some outcome \<Rightarrow> Ret outcome | None \<Rightarrow> countAndRestart r)"
  have "ensures (control_fits p) go t (canceledRead g Some)" for t
    unfolding go_def by (rule standDown_then) (rule countAndRestart_read [OF g])
  then show ?thesis
    unfolding restartController_def Let_def g go_def [symmetric]
    by (cases "MAXIMUM_CONTROLLER_RESTARTS \<le> s_controllerRestarts r")
      (simp_all del: ensures_bind, (rule canceledRead_bind, simp del: ensures_bind add: canceledRead_bind)+)
qed

lemma settleByStatus_read:
  assumes g: "s_goalRunId r = g"
  shows "ensures (control_fits p) (settleByStatus r state) tr (canceledRead g Some)"
  unfolding settleByStatus_def Let_def
  by (auto simp del: ensures_bind
      intro!: canceledRead_bind restartController_read endController_read completeCancellation_read g)

lemma recoverController_read:
  assumes g: "s_goalRunId r = g"
  shows "ensures (control_fits p) (recoverController r) tr (canceledRead g Some)"
proof -
  have "ensures (control_fits p) (startMissingController r) t (canceledRead g Some)" for t
    unfolding startMissingController_def g 
    by (rule standDown_then, rule canceledRead_bind) simp
  then show ?thesis
    unfolding recoverController_def Let_def
    by (auto simp del: ensures_bind
        intro!: canceledRead_bind commitWithoutEngine_read settleByStatus_read g split: option.split)
qed

lemma settleEnded_not_canceled:
  "ensures (control_fits p) (settleEnded r) tr
    (\<lambda>t result. \<forall>entry. result = Inr entry \<longrightarrow> re_outcome entry \<noteq> RcCanceled)"
proof -
  let ?Q = "\<lambda>t result. \<forall>entry. result = Inr entry \<longrightarrow> re_outcome entry \<noteq> RcCanceled"
  have after: "ensures (control_fits p) (bindE m f) tr Q"
    if "\<And>t x. ensures (control_fits p) (f x) t Q" "\<And>t e. Q t (Inl e)"
    for f :: "'a \<Rightarrow> 'b host_program" and m tr Q
    by (rule ensures_bindI [where P = "\<lambda>_ _. True"]) (use that in simp_all)
  have settled: "ensures (control_fits p) (settleCommittedCancellation r) t ?Q"
    "ensures (control_fits p) (stopOvertakenRuns r) t ?Q" for t
    unfolding settleCommittedCancellation_def stopOvertakenRuns_def
    by (rule after; auto simp: entryOf_def simp del: ensures_bind split: cancel_outcome.split intro!: after)+
  have owed: "ensures (control_fits p) (finishOwedCleanup r) t
      (\<lambda>t result. \<forall>e. result = Inr (Some e) \<longrightarrow> re_outcome e \<noteq> RcCanceled)" for t
    unfolding finishOwedCleanup_def
    by (auto simp: entryOf_def control_steps simp del: ensures_bind
        split: mutation.split control_result.split intro!: after)
  show ?thesis
    unfolding settleEnded_def
    by (rule ensures_bindI [where P = ?Q])
      (auto simp: settled entryOf_def withDefault_def simp del: ensures_bind
        intro!: ensures_bindI [OF owed] split: option.splits)
qed

lemma recoverGoal_canceled:
  "ensures (control_fits p) (recoverGoal g) []
    (\<lambda>t result. \<forall>entry. result = Inr entry \<longrightarrow> re_outcome entry = RcCanceled \<longrightarrow> confirmedCancellation g t)"
proof -
  have live: "ensures (control_fits p) (recoverLive r) tr
      (\<lambda>t result. \<forall>entry. result = Inr entry \<longrightarrow> re_outcome entry = RcCanceled \<longrightarrow> confirmedCancellation g t)"
    if g: "s_goalRunId r = g" for r tr
    unfolding recoverLive_def Let_def
  proof (rule ensures_bindI [where P = "canceledRead g Some"])
    show "ensures (control_fits p) (catchE (recoverController r)
        (\<lambda>e. if e = NotOwnedFault then Ret (recovered RcUnrecoverable) else Raise e)) tr (canceledRead g Some)"
      by (rule canceledRead_catch [OF recoverController_read [OF g]]) simp
  next
    fix t and controller :: controller_recovery
    assume "canceledRead g Some t (Inr controller)"
    then show "ensures (control_fits p) (if cr_outcome controller \<in> {RcStarted, RcRestarted, RcRunning}
          then bindE (catchE (recoverAttempt r) (\<lambda>_. Ret (Some AtFailed))) (\<lambda>attempt.
            Ret ((entryOf (s_goalRunId r) (cr_outcome controller))
              \<lparr>re_awaiting := cr_awaiting controller, re_attempt := attempt\<rparr>))
          else Ret ((entryOf (s_goalRunId r) (cr_outcome controller))\<lparr>re_awaiting := cr_awaiting controller\<rparr>)) t
        (\<lambda>t result. \<forall>entry. result = Inr entry \<longrightarrow> re_outcome entry = RcCanceled \<longrightarrow> confirmedCancellation g t)"
      by (auto simp: entryOf_def simp del: ensures_bind ensures_catch intro!: ensures_bindI [where P = "\<lambda>_ _. True"])
  qed simp
  have "ensures (control_fits p) (settleEnded r) t
      (\<lambda>t result. \<forall>entry. result = Inr entry \<longrightarrow> re_outcome entry = RcCanceled \<longrightarrow> confirmedCancellation g t)" for r t
    by (rule ensures_mono [OF settleEnded_not_canceled]) blast
  then show ?thesis
    unfolding recoverGoal_def using live
    by (auto simp: control_steps entryOf_def split: option.split)
qed

subsection \<open>A recorded cleanup\<close>

text \<open>A history that needs nothing more: there is none, or pruning it was acknowledged as done.\<close>

definition historyDone :: "(control_operation, control_answer) trace \<Rightarrow> jstr \<Rightarrow> bool" where
  "historyDone t w \<longleftrightarrow>
     (EngineGet w, WorkflowAnswer None) \<in> set t
     \<or> (\<exists>c. (CleanUpHistory w, CleanupAnswer c) \<in> set t \<and> isCleanupDone c)"

lemma historyDone_append [simp]: "historyDone (s @ t) w \<longleftrightarrow> historyDone s w \<or> historyDone t w"
  by (auto simp: historyDone_def)

lemma cleanUpWorkflow_law:
  "ensures (control_fits p) (cleanUpWorkflow w) tr
    (\<lambda>t result. \<exists>s c. t = tr @ s \<and> result = Inr c \<and> (isCleanupDone c \<longrightarrow> historyDone s w))"
  unfolding cleanUpWorkflow_def
  by (auto simp: control_steps historyDone_def isCleanupDone_def)

lemma cleanUpGoal_law:
  "ensures (control_fits p) (cleanUpGoal r) tr
    (\<lambda>t result. \<forall>c. result = Inr c \<longrightarrow> isCleanupDone c \<longrightarrow> list_all (historyDone t) (goalHistories r))"
proof -
  have parts: "ensures (control_fits p) (mapE cleanUpWorkflow ws) t
      (\<lambda>t' result. \<exists>cs. result = Inr cs \<and> (list_all isCleanupDone cs \<longrightarrow> list_all (historyDone t') ws))" for ws t
  proof (rule ensures_map [where I = "\<lambda>cs t'. list_all isCleanupDone cs \<longrightarrow> list_all (historyDone t') (take (length cs) ws)"], goal_cases)
    case (2 before w rest t' cs)
    have t: "take (length cs) ws = before" "take (Suc (length cs)) ws = before @ [w]"
      using 2(1,3) by simp_all
    show ?case
      by (rule ensures_mono [OF cleanUpWorkflow_law]) (use 2(2) t in \<open>auto simp: list_all_iff\<close>)
  qed auto
  define prune where "prune = bindE (mapE cleanUpWorkflow (goalHistories r))
      (\<lambda>acknowledgements. Ret (worstCleanup acknowledgements))"
  have "ensures (control_fits p) prune t
      (\<lambda>t result. \<forall>c. result = Inr c \<longrightarrow> isCleanupDone c \<longrightarrow> list_all (historyDone t) (goalHistories r))" for t
    unfolding prune_def by (rule ensures_bindI [OF parts]) (auto simp: worstCleanup_done)
  then show ?thesis
    unfolding cleanUpGoal_def prune_def [symmetric]
    by (auto simp: control_steps isCleanupDone_def)
qed

text \<open>A mark comes only after every history of the record read first is done.\<close>

definition marksJustified :: "goal_state \<Rightarrow> (control_operation, control_answer) trace \<Rightarrow> bool" where
  "marksJustified r = everyStep (\<lambda>before e. marksCleanedUp (fst e) \<longrightarrow>
     owesCleanup r \<and> list_all (historyDone before) (goalHistories r))"

lemma marksJustified_append:
  "list_all (\<lambda>e. \<not> guarded (fst e)) s \<Longrightarrow> marksJustified r t \<Longrightarrow> marksJustified r (t @ s)"
  unfolding marksJustified_def by (rule everyStep_append) (auto simp: list_all_iff guarded_def)

lemma marksJustified_unguarded:
  "unguarded m \<Longrightarrow> marksJustified r tr \<Longrightarrow> ensures fits m tr (\<lambda>t result. marksJustified r t)"
  by (rule ensures_mono [OF never_ensures]) (auto intro: marksJustified_append)

lemma marksJustified_snoc:
  "marksJustified r (t @ [e]) \<longleftrightarrow> marksJustified r t
     \<and> (marksCleanedUp (fst e) \<longrightarrow> owesCleanup r \<and> list_all (historyDone t) (goalHistories r))"
  by (simp add: marksJustified_def everyStep_snoc)

lemma finishOwedCleanup_marks:
  assumes j: "marksJustified r tr"
  shows "ensures (control_fits p) (finishOwedCleanup r) tr (\<lambda>t result. marksJustified r t)"
proof (cases "owesCleanup r")
  case True
  have step: "marksJustified r (tr @ [(IsClosing, a)])" for a
    using j by (simp add: marksJustified_snoc)
  define finish where "finish cleanup = (if isCleanupDone cleanup then
      bindE clockNowIso (\<lambda>now.
        bindE (storeControl (StoreMarkCleanedUp (s_goalRunId r) now)) (\<lambda>marked.
          Ret (case marked of
              Answer (Updated r) \<Rightarrow> None
            | Answer (Unchanged r) \<Rightarrow> None
            | _ \<Rightarrow> Some (entryOf (s_goalRunId r) RcCleanupPending))))
      else Ret (Some (entryOf (s_goalRunId r) RcCleanupPending)))" for cleanup
  have "marksJustified r (t @ [(ClockNowIso, b), (StoreMarkCleanedUp g now, a)])"
    if "marksJustified r t" "list_all (historyDone t) (goalHistories r)" for t a b g now
    using marksJustified_snoc [of r "t @ [(ClockNowIso, b)]" "(StoreMarkCleanedUp g now, a)"] that True
    by (auto simp: marksJustified_snoc list_all_iff)
  then have finish: "ensures (control_fits p) (finish cleanup) t (\<lambda>t result. marksJustified r t)"
    if "marksJustified r t" "isCleanupDone cleanup \<longrightarrow> list_all (historyDone t) (goalHistories r)" for cleanup t
    using that by (auto simp: finish_def control_steps)
  have "ensures (control_fits p) (bindE (cleanUpGoal r) finish) (tr @ [(IsClosing, a)])
      (\<lambda>t result. marksJustified r t)" for a
    by (rule ensures_bindI [OF ensures_conj [OF cleanUpGoal_law
          marksJustified_unguarded [OF unguarded_cleanUpGoal step]]])
      (auto intro: finish)
  moreover define pruneAndMark where "pruneAndMark = bindE (cleanUpGoal r) finish"
  ultimately show ?thesis
    using True step unfolding finishOwedCleanup_def finish_def [symmetric] pruneAndMark_def [symmetric]
    by (auto simp: control_steps)
qed (simp add: finishOwedCleanup_def j)

lemma never_marks: "unguarded m \<Longrightarrow> performsAtMost marksCleanedUp 0 m"
  by (erule never_mono) (simp add: guarded_def)

lemma recoverLive_marks: "performsAtMost marksCleanedUp 0 (recoverLive r)"
proof -
  note quiet = unguarded [THEN never_marks]
  have start: "performsAtMost marksCleanedUp 0 (startController g replace)" for g replace
    by (auto simp: startController_def intro!: never_intros)
  have replaceIt: "performsAtMost marksCleanedUp 0 (replaceCounted g)" for g
    by (auto simp: replaceCounted_def intro!: never_intros start quiet(3) split: option.split)
  have count: "performsAtMost marksCleanedUp 0 (countAndRestart r)"
    unfolding countAndRestart_def Let_def
    by (auto intro!: never_intros replaceIt quiet(2,5) split: mutation.split control_result.split)
  have restart: "performsAtMost marksCleanedUp 0 (restartController r state)" for state
    unfolding restartController_def Let_def
    by (auto intro!: never_intros count quiet(3,5,6) never_marks [OF unguarded_readable]
        simp: guarded_def split: option.split)
  have status: "performsAtMost marksCleanedUp 0 (settleByStatus r state)" for state
    unfolding settleByStatus_def Let_def by (auto intro!: never_intros restart quiet(1,2))
  have missing: "performsAtMost marksCleanedUp 0 (startMissingController r)"
    unfolding startMissingController_def
    by (auto intro!: never_intros start quiet(3) split: option.split)
  have "performsAtMost marksCleanedUp 0 (recoverController r)"
    unfolding recoverController_def Let_def
    by (auto intro!: never_intros status missing quiet(4,7) split: option.split)
  then show ?thesis
    unfolding recoverLive_def Let_def by (auto intro!: never_intros quiet(8))
qed

definition cleanupJustified :: "jstr \<Rightarrow> (control_operation, control_answer) trace \<Rightarrow> bool" where
  "cleanupJustified g = everyStep (\<lambda>before e. marksCleanedUp (fst e) \<longrightarrow>
     (\<exists>r rest. before = (StoreGet g, RecordAnswer (Some r)) # rest
        \<and> isTerminalStatus (s_status r) \<and> owesCleanup r
        \<and> list_all (historyDone before) (goalHistories r)))"

lemma settleEnded_marks:
  assumes "marksJustified r tr"
  shows "ensures (control_fits p) (settleEnded r) tr (\<lambda>t result. marksJustified r t)"
  unfolding settleEnded_def
proof (rule ensures_bindI [where P = "\<lambda>t result. marksJustified r t"])
  show "ensures (control_fits p) (if s_status r = Canceled then settleCommittedCancellation r
      else if mayHaveOvertakenAStart r then stopOvertakenRuns r
      else Ret (entryOf (s_goalRunId r) RcAlreadyTerminal)) tr (\<lambda>t result. marksJustified r t)"
    using assms by (auto intro!: marksJustified_unguarded unguarded_settleCommitted unguarded_stopOvertaken)
qed (auto simp del: ensures_bind intro!: ensures_bindI [OF finishOwedCleanup_marks])

lemma recoverGoal_marks:
  "ensures (control_fits p) (recoverGoal g) [] (\<lambda>t result. cleanupJustified g t)"
proof -
  have one: "everyStep J [e]" if "J [] e" for J and e :: "control_operation \<times> control_answer"
    using that everyStep_snoc [of J "[]" e] by simp
  have base: "cleanupJustified g [(StoreGet g, x)]" "marksJustified r [(StoreGet g, x)]" for x r
    by (simp_all add: cleanupJustified_def marksJustified_def one)
  have ended: "ensures (control_fits p) (settleEnded r) [(StoreGet g, RecordAnswer (Some r))]
      (\<lambda>t result. cleanupJustified g t)" if "isTerminalStatus (s_status r)" for r
    unfolding ensures_runs
  proof (intro allI impI)
    fix t result
    assume "runs (control_fits p) (settleEnded r) t result"
    then have "marksJustified r ((StoreGet g, RecordAnswer (Some r)) # t)"
      using settleEnded_marks [OF base(2)] by (force simp: ensures_runs)
    then show "cleanupJustified g ([(StoreGet g, RecordAnswer (Some r))] @ t)"
      using that unfolding marksJustified_def cleanupJustified_def everyStep_def
      by (simp add: Cons_eq_append_conv) (metis control_operation.simps fst_conv marksCleanedUp.simps(2))
  qed
  have "cleanupJustified g ([(StoreGet g, x)] @ s)" if "list_all (\<lambda>e. \<not> marksCleanedUp (fst e)) s" for x s
    using base(1) [of x] that unfolding cleanupJustified_def
    by (intro everyStep_append) (auto simp: list_all_iff)
  then have "ensures (control_fits p) (recoverLive r) [(StoreGet g, x)] (\<lambda>t result. cleanupJustified g t)" for r x
    by (intro ensures_mono [OF never_ensures [OF recoverLive_marks]]) auto
  then show ?thesis
    unfolding recoverGoal_def using ended base by (auto simp: control_steps split: option.split)
qed

subsection \<open>The properties\<close>



end
