(* ===== verification/ControlLaws.thy ===== *)
theory ControlLaws
  imports RecoveryLaws
begin

section \<open>Laws of the control plane's own decisions\<close>

text \<open>
  The attempt a host stops is the one the controller would abort; the attempts whose runs are
  stopped are exactly the last one and, when none is in flight, the next one; the ending that the
  determinism check writes is one the store accepts; and a new goal's controller is started only
  from a fresh read.
\<close>

lemma attemptToStop_eq: "attemptToStop record = abortRequestFor (toGoalWorkflowView record) bureauIdentifiers"
  by (simp add: attemptToStop_def abortRequestFor_def currentAttemptOf_def isAttemptInFlight_def
      toGoalWorkflowView_def lastOf_map Let_def split: option.split)

text \<open>The runs a cancellation stops, by the indexes of their attempts.\<close>

lemma attemptIndexesToStop_eq:
  assumes v: "validState p s"
  shows "set (attemptIndexesToStop s) =
    {i. jlt (jnat i) (b_maximumAttempts (s_bounds s))
        \<and> (s_attempts s \<noteq> [] \<and> i = length (s_attempts s) - 1
           \<or> i = length (s_attempts s) \<and> \<not> isInFlight (lastOf (s_attempts s)))}"
proof (cases "lastOf (s_attempts s)")
  case None
  then have "s_attempts s = []" by (cases "s_attempts s" rule: rev_cases) (auto simp: lastOf_def)
  with None show ?thesis
    by (auto simp: attemptIndexesToStop_def attemptToStop_def isInFlight_def Let_def)
next
  case (Some a)
  note l = last_id [OF v Some]
  have "length (s_attempts s) \<noteq> length (s_attempts s) - 1" using l(2) by (cases "s_attempts s") auto
  with Some l(1,2) show ?thesis
    by (auto simp: attemptIndexesToStop_def attemptToStop_def isInFlight_def Let_def)
qed

subsection \<open>The determinism check\<close>

lemma determinism_reason:
  "(decideDeterminismRequirement required d :: json goal_decision option) = Some (Fail reason detail text)
   \<Longrightarrow> reason = UnsupportedValidation"
  by (simp add: decideDeterminismRequirement_def split: if_splits)

lemma determinism_write:
  assumes v: "validState p s" and hex: "hexDigests p" and fresh: "s_status s = Pending" "s_transitionSeq s = 0"
    and canc: "s_cancellation s = None" and room: "length (s_auditLog s) < GOAL_AUDIT_LOG_MAXIMUM_ENTRIES"
    and stamp: "isIsoTimestamp stamp"
  shows "\<exists>n. evaluateTransition p (determinismRequest s stamp UnsupportedValidation detail) s = Write n
    \<and> s_status n = Failed \<and> s_terminalReason n = Some UnsupportedValidation \<and> s_attempts n = [] \<and> validState p n"
proof -
  define rq where "rq = determinismRequest s stamp UnsupportedValidation detail"
  define with_usage where "with_usage = rq\<lparr>rq_usage := Some (s_usage s)\<rparr>"
  note f = valid_facts [OF v]
  have none: "s_attempts s = []" "s_active s = None"
    using v fresh(1) by (auto simp: validState_iff isConsistent_def isStatusRelationConsistent_def Let_def
        split: if_split_asm)
  have nt: "\<not> isTerminalStatus (s_status s)" by (simp add: fresh)
  have same: "buildNext p s with_usage as = buildNext p s rq as" for as
    by (simp add: buildNext_def with_usage_def rq_def determinismRequest_def)
  have rq: "rq_seq rq = Suc (s_transitionSeq s)" "rq_transitionId rq = goalTransitionId (s_goalRunId s) (rq_seq rq)"
    "rq_to rq = Failed" "rq_at rq = stamp" "rq_terminalReason rq = Some UnsupportedValidation"
    "rq_attempt rq = None" "rq_active rq = KeepActive"
    by (simp_all add: rq_def determinismRequest_def fresh)
  have reason: "hasValidTerminalReason rq" by (simp add: hasValidTerminalReason_def rq)
  have usage: "s_usage s = usageOf [] (u_durationMs (s_usage s))" using f(6) none by simp
  have next_fields: "s_status (buildNext p s rq []) = Failed" "s_attempts (buildNext p s rq []) = []"
    "s_active (buildNext p s rq []) = None" "s_terminalReason (buildNext p s rq []) = Some UnsupportedValidation"
    by (simp_all add: buildNext_def Let_def rq none)
  have "validState p (buildNext p s with_usage [])"
  proof (rule next_valid [OF v hex nt room])
    show "rq_usage with_usage = Some (usageOf [] (u_durationMs (s_usage s)))"
      "ok_usage (usageOf [] (u_durationMs (s_usage s)))"
      using usage f(7) by (simp_all add: with_usage_def)
    show "hasOwnDerivedIds (buildNext p s with_usage [])"
      using f(1) unfolding same by (simp add: hasOwnDerivedIds_def next_fields none)
    show "isStatusRelationConsistent (buildNext p s with_usage [])"
      unfolding same by (simp add: isStatusRelationConsistent_def rq(3,7) none isInFlight_def)
    show "areAttemptOutcomesConsistent (buildNext p s with_usage [])"
      unfolding same by (simp add: areAttemptOutcomesConsistent_def rq(3) next_fields)
    show "isTerminalOutcomeConsistent (buildNext p s with_usage [])"
      unfolding same by (simp add: isTerminalOutcomeConsistent_def rq(3,5) next_fields(2) Let_def)
    show "pred_option ok_active (s_active (buildNext p s with_usage []))"
      unfolding same by (simp add: rq(7) none)
    show "attemptsContinue (s_attempts s) []" by (simp add: none continue_refl)
    show "hasValidTerminalReason with_usage" by (simp add: hasValidTerminalReason_def with_usage_def rq)
  qed (simp_all add: with_usage_def rq stamp canc)
  then have n: "validState p (buildNext p s rq [])" by (simp add: same)
  moreover have "evaluateTransition p rq s = Write (buildNext p s rq [])"
    by (rule accepted [OF v nt room rq(1,2)])
      (simp_all add: canc fresh rq reason none applyAttempt_def canTransitionGoalRun_def n)
  ultimately show ?thesis using next_fields by (auto simp: rq_def)
qed

subsection \<open>A new goal's controller\<close>

text \<open>
  What a start made for a new or repeated creation rests on: nothing is displaced, and the goal
  was read alive first, in the same call, with an engine at hand.
\<close>

definition ensuredStart ::
    "jstr \<Rightarrow> (control_operation, control_answer) trace \<Rightarrow> control_operation \<times> control_answer \<Rightarrow> bool" where
  "ensuredStart g before e \<longleftrightarrow> (startsController (fst e) \<longrightarrow>
     fst e = EngineStart (goalWorkflowId g) False
     \<and> (\<exists>record rest. before = (StoreGet g, RecordAnswer (Some record)) # rest \<and> wantsController record
          \<and> (HasEngine, FlagAnswer True) \<in> set rest))"

text \<open>\<open>started\<close> is said of a controller that was started, or that was there and had not ended.\<close>

definition ensuredAnswer ::
    "jstr \<Rightarrow> (control_operation, control_answer) trace \<Rightarrow> fault + goal_state \<times> controller_start \<Rightarrow> bool" where
  "ensuredAnswer g t result \<longleftrightarrow>
     (\<forall>record. result = Inr (record, ControllerStarted) \<longrightarrow>
        (EngineStart (goalWorkflowId g) False, DoneAnswer) \<in> set t
        \<or> (\<exists>w. (EngineGet (goalWorkflowId g), WorkflowAnswer w) \<in> set t
             \<and> pred_option (\<lambda>r. \<not> isTerminalController (wr_status r)) w))"

lemma ensureController_law:
  "ensures (control_fits p) (ensureController stale) []
    (\<lambda>t result. everyStep (ensuredStart (s_goalRunId stale)) t \<and> ensuredAnswer (s_goalRunId stale) t result)"
proof -
  let ?g = "s_goalRunId stale"
  let ?Q = "\<lambda>t result. everyStep (ensuredStart ?g) t \<and> ensuredAnswer ?g t result"
  have quiet: "everyStep (ensuredStart ?g) (t @ s)"
    if "everyStep (ensuredStart ?g) t" "list_all (\<lambda>e. \<not> startsController (fst e)) s" for t s
    using that by (intro everyStep_append) (auto simp: list_all_iff ensuredStart_def)
  have first: "everyStep (ensuredStart ?g) [(StoreGet ?g, x)]" for x
    using everyStep_append [of "ensuredStart ?g" "[(StoreGet ?g, x)]" "[]"] by (simp add: ensuredStart_def)
  define start where "start goal = catchE
      (bindE (startController (s_goalRunId goal) False) (\<lambda>start.
         if start = AlreadyExists then
           bindE (engineGet (goalWorkflowId (s_goalRunId goal))) (\<lambda>existing.
             if pred_option (\<lambda>w. \<not> isTerminalController (wr_status w)) existing
             then Ret (goal, ControllerStarted)
             else Ret (goal, ControllerStartFailed))
         else Ret (goal, ControllerStarted)))
      (\<lambda>_. Ret (goal, ControllerStartFailed))" for goal :: goal_state
  have started: "ensures (control_fits p) (start goal)
      ((StoreGet ?g, RecordAnswer (Some goal)) # s @ [(HasEngine, FlagAnswer True)]) ?Q"
    if "s_goalRunId goal = ?g" "wantsController goal"
      and e: "everyStep (ensuredStart ?g) ((StoreGet ?g, RecordAnswer (Some goal)) # s)" for goal s
  proof -
    let ?t = "(StoreGet ?g, RecordAnswer (Some goal)) # s @ [(HasEngine, FlagAnswer True)]"
    have step: "everyStep (ensuredStart ?g) (?t @ [(EngineStart (goalWorkflowId ?g) False, a)])" for a
      unfolding everyStep_snoc
      using quiet [OF e, of "[(HasEngine, FlagAnswer True)]"] that(2) by (simp add: ensuredStart_def)
    have later: "everyStep (ensuredStart ?g) (?t @ [(EngineStart (goalWorkflowId ?g) False, a), (EngineGet w, b)])" for a b w
      using quiet [OF step [of a], of "[(EngineGet w, b)]"] by simp
    show ?thesis
      using step later unfolding start_def startController_def that(1)
      by (auto simp: control_steps ensuredAnswer_def)
  qed
  have rest: "ensures (control_fits p) (bindE (enforceDeterminism goal) (\<lambda>ended.
      case ended of
        Some r \<Rightarrow> Ret (r, ControllerNotNeeded)
      | None \<Rightarrow> bindE (askFlag HasEngine) (\<lambda>engine.
          if \<not> engine then Ret (goal, ControllerStartFailed) else start goal)))
      [(StoreGet ?g, RecordAnswer (Some goal))] ?Q"
    if "s_goalRunId goal = ?g" "wantsController goal" for goal
  proof (rule ensures_bindI [OF never_ensures [OF starts_unguarded [OF unguarded_enforceDeterminism]]])
    fix t ended
    assume "\<exists>s. t = [(StoreGet ?g, RecordAnswer (Some goal))] @ s
      \<and> list_all (\<lambda>e. \<not> startsController (fst e)) s"
    then obtain s where t: "t = (StoreGet ?g, RecordAnswer (Some goal)) # s" "everyStep (ensuredStart ?g) t"
      using quiet [OF first] by auto
    show "ensures (control_fits p) (case ended of
        Some r \<Rightarrow> Ret (r, ControllerNotNeeded)
      | None \<Rightarrow> bindE (askFlag HasEngine) (\<lambda>engine.
          if \<not> engine then Ret (goal, ControllerStartFailed) else start goal)) t ?Q"
      using t started [OF that] quiet [OF t(2), of "[(HasEngine, FlagAnswer False)]"]
      by (auto simp: control_steps ensuredAnswer_def split: option.split)
  qed (use quiet [OF first] in \<open>auto simp: ensuredAnswer_def\<close>)
  define decide where "decide goal = bindE (enforceDeterminism goal) (\<lambda>ended.
      case ended of
        Some r \<Rightarrow> Ret (r, ControllerNotNeeded)
      | None \<Rightarrow> bindE (askFlag HasEngine) (\<lambda>engine.
          if \<not> engine then Ret (goal, ControllerStartFailed) else start goal))" for goal
  show ?thesis
    unfolding ensureController_def start_def [symmetric] decide_def [symmetric]
    using first rest [folded decide_def]
    by (auto simp: control_steps wantsController_def ensuredAnswer_def split: option.split)
qed

subsection \<open>Commits that keep losing\<close>

fun appliesTransition :: "control_operation \<Rightarrow> bool" where
  "appliesTransition (StoreApplyTransition rq) \<longleftrightarrow> True"
| "appliesTransition _ \<longleftrightarrow> False"

lemma commitRounds_bounded: "performsAtMost appliesTransition n (commitRounds n r)"
proof (induction n arbitrary: r)
  case (Suc n)
  have once: "performsAtMost appliesTransition (Suc 0) (commitCancellation r nowMs)" for nowMs
    by (auto simp: commitCancellation_def intro!: once_bind split: option.split)
  have round: "performsAtMost appliesTransition (Suc n) (bindE (commitCancellation r nowMs) f)"
    if "\<And>x. performsAtMost appliesTransition n (f x)"
    for nowMs and f :: "transition_result mutation option \<Rightarrow> cancellation_commit host_program"
    using performsAtMost_bind [OF once that] by simp
  show ?case
    unfolding commitRounds.simps
    by (rule later_bind, simp, rule round)
      (auto simp: Suc.IH split: option.split mutation.split transition_result.split)
qed simp

subsection \<open>The properties\<close>

text \<open>
  The attempt the host stops for an elapsed or canceled goal is the one the controller's own
  abort names for the same record.
\<close>

theorem attemptToStop_abort:
  "attemptToStop record = abortRequestFor (toGoalWorkflowView record) bureauIdentifiers"
  by (rule attemptToStop_eq)

text \<open>
  The runs a cancellation of a stored record fences and stops are, below the attempt bound,
  exactly the last attempt's and, when that attempt is not in flight, the next one's, whose start
  may have died short of its commit.
\<close>

theorem runsToStop_exact:
  assumes "validState p s"
  shows "set (runsToStop s) = goalAttemptRunId (s_goalRunId s) `
    {i. jlt (jnat i) (b_maximumAttempts (s_bounds s))
        \<and> (s_attempts s \<noteq> [] \<and> i = length (s_attempts s) - 1
           \<or> i = length (s_attempts s) \<and> \<not> isInFlight (lastOf (s_attempts s)))}"
  using attemptIndexesToStop_eq [OF assms] by (simp add: runsToStop_def)

text \<open>
  The ending the determinism check asks for is written by the store for every fresh record:
  the goal fails as \<open>unsupported-validation\<close> with no attempt, and the next record is valid.
\<close>

theorem determinism_ends:
  assumes "validState p s" "hexDigests p" "s_status s = Pending" "s_transitionSeq s = 0"
    and "s_cancellation s = None" "length (s_auditLog s) < GOAL_AUDIT_LOG_MAXIMUM_ENTRIES"
    and "isIsoTimestamp stamp"
    and "(decideDeterminismRequirement (Some (s_requireDeterministicValidation s)) determinism
      :: json goal_decision option) = Some (Fail reason decided detail)"
  shows "\<exists>n. evaluateTransition p (determinismRequest s stamp reason detail) s = Write n
    \<and> s_status n = Failed \<and> s_terminalReason n = Some UnsupportedValidation \<and> s_attempts n = []
    \<and> validState p n"
  using determinism_write [OF assms(1-7)] determinism_reason [OF assms(8)] by blast

text \<open>
  Creating a goal, or repeating the creation, starts a controller only without displacing one
  and only after reading the goal alive in the same call; \<open>started\<close> is answered only for a start the
  engine accepted or a workflow that was there and had not ended.
\<close>

theorem ensureController_starts:
  assumes "runs (control_fits p) (ensureController stale) t result"
  shows "everyStep (ensuredStart (s_goalRunId stale)) t \<and> ensuredAnswer (s_goalRunId stale) t result"
  using ensuresD [OF ensureController_law assms] by simp_all

text \<open>
  Completing a cancellation asks the store for at most three commits, however often it loses
  to concurrent writers.
\<close>

theorem cancellation_commits_bounded:
  assumes "runs (control_fits p) (settleCancellationCommit record) t result"
  shows "length (filter (appliesTransition \<circ> fst) t) \<le> 3"
  using performsAtMost_runs [OF commitRounds_bounded assms [unfolded settleCancellationCommit_def]]
  by (simp add: CANCELLATION_COMMIT_ATTEMPTS_def)

end
