(* ===== verification/GoalSweep.thy ===== *)
theory GoalSweep
  imports GoalRecovery
begin

section \<open>Recovering every goal at once\<close>

text \<open>
  The sweep of \<open>packages/bureau/src/goal-recovery.ts\<close> (\<open>recoverEveryGoal\<close>): a few workers take the
  goals in order from one counter and record what each recovery answered, until all are done or the
  budget of the boot ends; the report is made at that moment. A step is what one worker, or the
  race with the timer, does between two awaits.
\<close>

datatype swept = Quiet | Entry recovery_entry | RecoveryFailed fault

datatype sweep_worker = AtHead | Recovering nat | Left

text \<open>Why a report counts a goal among its failures.\<close>

datatype failure_reason =
  ScanFailed fault | Unreadable | IdNotText | Threw fault | StillRecovering | NeverStarted

record recovery_report =
  rp_goals :: "recovery_entry list"
  rp_failures :: "(jstr \<times> failure_reason) list"

record sweep =
  sw_next :: nat
  sw_started :: "nat set"
  sw_entries :: "nat \<rightharpoonup> swept"
  sw_workers :: "sweep_worker list"
  sw_report :: "recovery_report option"
  sw_overBudget :: bool
  sw_late :: "(nat \<times> swept) list"

definition SWEEP_CONCURRENCY :: nat where
  "SWEEP_CONCURRENCY = 4"

definition sweepRecords :: "(goal_state \<Rightarrow> bool) \<Rightarrow> goal_state list \<Rightarrow> goal_state list" where
  "sweepRecords allows scanned = filter (\<lambda>record. needsRecovery record \<and> allows record) scanned"

definition newSweep :: "goal_state list \<Rightarrow> sweep" where
  "newSweep records =
     \<lparr>sw_next = 0, sw_started = {}, sw_entries = (\<lambda>_. None),
      sw_workers = replicate (min SWEEP_CONCURRENCY (length records)) AtHead,
      sw_report = None, sw_overBudget = False, sw_late = []\<rparr>"

text \<open>
  The report: each result at the place of its goal in the order. A goal with no result was cut off by
  the budget, while it was being recovered or before it was.
\<close>

fun entryReported :: "swept option \<Rightarrow> recovery_entry option" where
  "entryReported (Some (Entry entry)) = Some entry"
| "entryReported result = None"

fun failureReported :: "bool \<Rightarrow> bool \<Rightarrow> swept option \<Rightarrow> failure_reason option" where
  "failureReported overBudget started None =
     (if overBudget then Some (if started then StillRecovering else NeverStarted) else None)"
| "failureReported overBudget started (Some (RecoveryFailed e)) = Some (Threw e)"
| "failureReported overBudget started (Some result) = None"

definition sweepReport ::
  "goal_state list \<Rightarrow> (jstr \<times> failure_reason) list \<Rightarrow> bool \<Rightarrow> nat set \<Rightarrow> (nat \<rightharpoonup> swept) \<Rightarrow> recovery_report"
where
  "sweepReport records unreadable overBudget started entries =
     \<lparr>rp_goals = List.map_filter (\<lambda>j. entryReported (entries j)) [0..<length records],
      rp_failures = unreadable @ List.map_filter
        (\<lambda>j. map_option (Pair (s_goalRunId (records ! j)))
           (failureReported overBudget (j \<in> started) (entries j))) [0..<length records]\<rparr>"

text \<open>A goal that had ended and has nothing left to finish is no news.\<close>

definition sweptOf :: "goal_state \<Rightarrow> fault + recovery_entry \<Rightarrow> swept" where
  "sweptOf record answer =
     (case answer of
        Inl e \<Rightarrow> RecoveryFailed e
      | Inr entry \<Rightarrow>
          if isTerminalStatus (s_status record) \<and> re_outcome entry = RcAlreadyTerminal then Quiet
          else Entry entry)"

inductive sweep_step ::
  "platform \<Rightarrow> goal_state list \<Rightarrow> (jstr \<times> failure_reason) list \<Rightarrow> bool \<Rightarrow> sweep \<Rightarrow> sweep \<Rightarrow> bool"
  for p records unreadable budgeted where
  take: "i < length (sw_workers s) \<Longrightarrow> sw_workers s ! i = AtHead \<Longrightarrow> sw_next s < length records \<Longrightarrow>
    sweep_step p records unreadable budgeted s
      (s\<lparr>sw_next := sw_next s + 1, sw_started := insert (sw_next s) (sw_started s),
         sw_workers := (sw_workers s)[i := Recovering (sw_next s)]\<rparr>)"
| leave: "i < length (sw_workers s) \<Longrightarrow> sw_workers s ! i = AtHead \<Longrightarrow> length records \<le> sw_next s \<Longrightarrow>
    sweep_step p records unreadable budgeted s (s\<lparr>sw_workers := (sw_workers s)[i := Left]\<rparr>)"
| finish: "i < length (sw_workers s) \<Longrightarrow> sw_workers s ! i = Recovering j \<Longrightarrow>
    runs (control_fits p) (recoverGoal (s_goalRunId (records ! j))) t answer \<Longrightarrow>
    result = sweptOf (records ! j) answer \<Longrightarrow>
    sweep_step p records unreadable budgeted s
      ((if sw_report s \<noteq> None then s\<lparr>sw_late := sw_late s @ [(j, result)]\<rparr>
        else s\<lparr>sw_entries := (sw_entries s)(j \<mapsto> result)\<rparr>)\<lparr>sw_workers := (sw_workers s)[i := AtHead]\<rparr>)"
| settle: "sw_report s = None \<Longrightarrow> list_all (\<lambda>w. w = Left) (sw_workers s) \<Longrightarrow>
    sweep_step p records unreadable budgeted s
      (s\<lparr>sw_report := Some (sweepReport records unreadable False (sw_started s) (sw_entries s))\<rparr>)"
| expire: "budgeted \<Longrightarrow> sw_report s = None \<Longrightarrow>
    sweep_step p records unreadable budgeted s
      (s\<lparr>sw_report := Some (sweepReport records unreadable True (sw_started s) (sw_entries s)),
         sw_overBudget := True\<rparr>)"

text \<open>
  A whole sweep: the scan, the goals it takes on, and the report. A scan that rejects, or one that
  found nothing to recover, is reported without a worker. \<open>answer\<close> is what the scan answered: the
  records, and the ids whose record could not be read.
\<close>

definition unreadableFailures :: "bool \<Rightarrow> jstr list \<Rightarrow> (jstr \<times> failure_reason) list" where
  "unreadableFailures includeUnreadable ids = (if includeUnreadable then map (\<lambda>goalRunId. (goalRunId, Unreadable)) ids else [])"

inductive recoverEveryGoal ::
  "platform \<Rightarrow> (goal_state \<Rightarrow> bool) \<Rightarrow> bool \<Rightarrow> bool \<Rightarrow> fault + goal_state list \<times> jstr list \<Rightarrow> recovery_report \<Rightarrow> bool"
  for p allows includeUnreadable budgeted where
  unscanned: "recoverEveryGoal p allows includeUnreadable budgeted (Inl e)
    \<lparr>rp_goals = [], rp_failures = [(lit ''*'', ScanFailed e)]\<rparr>"
| nothing: "sweepRecords allows scanned = [] \<Longrightarrow>
    recoverEveryGoal p allows includeUnreadable budgeted (Inr (scanned, ids))
      \<lparr>rp_goals = [], rp_failures = unreadableFailures includeUnreadable ids\<rparr>"
| swept: "records = sweepRecords allows scanned \<Longrightarrow> records \<noteq> [] \<Longrightarrow>
    (sweep_step p records (unreadableFailures includeUnreadable ids) budgeted)\<^sup>*\<^sup>* (newSweep records) s \<Longrightarrow>
    sw_report s = Some report \<Longrightarrow>
    recoverEveryGoal p allows includeUnreadable budgeted (Inr (scanned, ids)) report"

text \<open>The sweep at boot: every goal, every record that cannot be read, and a budget.\<close>

definition recoverGoalsAtBoot :: "platform \<Rightarrow> fault + goal_state list \<times> jstr list \<Rightarrow> recovery_report \<Rightarrow> bool" where
  "recoverGoalsAtBoot p = recoverEveryGoal p (\<lambda>record. True) True True"

text \<open>Of a recovery that ended after the report, a failure is diagnosed.\<close>

definition diagnosesLateRecovery :: "swept \<Rightarrow> bool" where
  "diagnosesLateRecovery result =
     (case result of Quiet \<Rightarrow> False | RecoveryFailed e \<Rightarrow> True | Entry entry \<Rightarrow> recoveryEntryFailure entry)"

inductive_cases sweep_stepE: "sweep_step p records unreadable budgeted s s'"

subsection \<open>Every goal once\<close>

text \<open>The goals being recovered now, each by one worker.\<close>

definition inFlight :: "sweep \<Rightarrow> nat set" where
  "inFlight s = {j. \<exists>i < length (sw_workers s). sw_workers s ! i = Recovering j}"

definition answeredGoal :: "platform \<Rightarrow> goal_state list \<Rightarrow> nat \<Rightarrow> swept \<Rightarrow> bool" where
  "answeredGoal p records j result \<longleftrightarrow>
     (\<exists>t answer. runs (control_fits p) (recoverGoal (s_goalRunId (records ! j))) t answer
        \<and> result = sweptOf (records ! j) answer)"

definition sweep_inv :: "platform \<Rightarrow> goal_state list \<Rightarrow> sweep \<Rightarrow> bool" where
  "sweep_inv p records s \<longleftrightarrow>
     sw_next s \<le> length records \<and> sw_started s = {..<sw_next s}
     \<and> length (sw_workers s) = min SWEEP_CONCURRENCY (length records)
     \<and> (\<forall>i k j. i < length (sw_workers s) \<longrightarrow> k < length (sw_workers s) \<longrightarrow>
          sw_workers s ! i = Recovering j \<longrightarrow> sw_workers s ! k = Recovering j \<longrightarrow> i = k)
     \<and> inFlight s \<inter> (dom (sw_entries s) \<union> set (map fst (sw_late s))) = {}
     \<and> dom (sw_entries s) \<inter> set (map fst (sw_late s)) = {} \<and> distinct (map fst (sw_late s))
     \<and> inFlight s \<union> dom (sw_entries s) \<union> set (map fst (sw_late s)) = {..<sw_next s}
     \<and> (Left \<in> set (sw_workers s) \<longrightarrow> sw_next s = length records)
     \<and> (sw_late s \<noteq> [] \<longrightarrow> sw_overBudget s) \<and> (sw_overBudget s \<longrightarrow> sw_report s \<noteq> None)
     \<and> (sw_report s \<noteq> None \<longrightarrow> sw_overBudget s \<or> list_all (\<lambda>w. w = Left) (sw_workers s))
     \<and> (\<forall>j result. sw_entries s j = Some result \<longrightarrow> answeredGoal p records j result)"

lemma sweep_invD:
  assumes "sweep_inv p records s"
  shows "sw_next s \<le> length records" "sw_started s = {..<sw_next s}"
    "length (sw_workers s) = min SWEEP_CONCURRENCY (length records)"
    "\<And>i k j. i < length (sw_workers s) \<Longrightarrow> k < length (sw_workers s) \<Longrightarrow>
       sw_workers s ! i = Recovering j \<Longrightarrow> sw_workers s ! k = Recovering j \<Longrightarrow> i = k"
    "inFlight s \<inter> (dom (sw_entries s) \<union> set (map fst (sw_late s))) = {}"
    "dom (sw_entries s) \<inter> set (map fst (sw_late s)) = {}" "distinct (map fst (sw_late s))"
    "inFlight s \<union> dom (sw_entries s) \<union> set (map fst (sw_late s)) = {..<sw_next s}"
    "Left \<in> set (sw_workers s) \<Longrightarrow> sw_next s = length records"
    "sw_late s \<noteq> [] \<Longrightarrow> sw_overBudget s" "sw_overBudget s \<Longrightarrow> sw_report s \<noteq> None"
    "sw_report s \<noteq> None \<Longrightarrow> sw_overBudget s \<or> list_all (\<lambda>w. w = Left) (sw_workers s)"
    "\<And>j result. sw_entries s j = Some result \<Longrightarrow> answeredGoal p records j result"
  using assms unfolding sweep_inv_def by blast+

lemma sweep_invI:
  assumes "sw_next s \<le> length records" "sw_started s = {..<sw_next s}"
    "length (sw_workers s) = min SWEEP_CONCURRENCY (length records)"
    "\<And>i k j. i < length (sw_workers s) \<Longrightarrow> k < length (sw_workers s) \<Longrightarrow>
       sw_workers s ! i = Recovering j \<Longrightarrow> sw_workers s ! k = Recovering j \<Longrightarrow> i = k"
    "inFlight s \<inter> (dom (sw_entries s) \<union> set (map fst (sw_late s))) = {}"
    "dom (sw_entries s) \<inter> set (map fst (sw_late s)) = {}" "distinct (map fst (sw_late s))"
    "inFlight s \<union> dom (sw_entries s) \<union> set (map fst (sw_late s)) = {..<sw_next s}"
    "Left \<in> set (sw_workers s) \<Longrightarrow> sw_next s = length records"
    "sw_late s \<noteq> [] \<Longrightarrow> sw_overBudget s" "sw_overBudget s \<Longrightarrow> sw_report s \<noteq> None"
    "sw_report s \<noteq> None \<Longrightarrow> sw_overBudget s \<or> list_all (\<lambda>w. w = Left) (sw_workers s)"
    "\<And>j result. sw_entries s j = Some result \<Longrightarrow> answeredGoal p records j result"
  shows "sweep_inv p records s"
  using assms unfolding sweep_inv_def by blast

lemma newSweep_inv: "sweep_inv p records (newSweep records)"
  by (auto simp: sweep_inv_def newSweep_def inFlight_def)

text \<open>How a step changes the goals in flight.\<close>

lemma inFlight_take:
  assumes "i < length (sw_workers s)" "sw_workers s ! i = AtHead" "sw_workers t = (sw_workers s)[i := w]"
  shows "inFlight t = inFlight s \<union> (case w of Recovering j \<Rightarrow> {j} | _ \<Rightarrow> {})"
  unfolding inFlight_def assms(3)
  using assms(1,2) by (auto simp: nth_list_update split: sweep_worker.splits if_splits) (metis sweep_worker.distinct(1))+

lemma inFlight_finish:
  assumes "sweep_inv p records s" "i < length (sw_workers s)" "sw_workers s ! i = Recovering j"
    and "sw_workers t = (sw_workers s)[i := AtHead]"
  shows "inFlight t = inFlight s - {j}" "j \<in> inFlight s"
  using assms(2,3) sweep_invD(4) [OF assms(1)]
  by (auto simp: inFlight_def assms(4) nth_list_update split: if_splits) (metis sweep_worker.inject)

lemma sweep_inv_step:
  assumes inv: "sweep_inv p records s" and step: "sweep_step p records unreadable budgeted s s'"
  shows "sweep_inv p records s'"
proof -
  note d = sweep_invD [OF inv]
  have busy: "j < sw_next s" if "k < length (sw_workers s)" "sw_workers s ! k = Recovering j" for k j
    using d(8) that by (auto simp: inFlight_def)
  then have fresh: "sw_workers s ! k \<noteq> Recovering (sw_next s)" if "k < length (sw_workers s)" for k
    using that by blast
  show ?thesis
    using step
  proof cases
    case (take i)
    have f: "inFlight s' = insert (sw_next s) (inFlight s)"
      using inFlight_take [OF take(2,3), of s' "Recovering (sw_next s)"] take(1) by auto
    have same: "sw_entries s' = sw_entries s" "sw_late s' = sw_late s" "sw_report s' = sw_report s"
      "sw_overBudget s' = sw_overBudget s" "sw_next s' = Suc (sw_next s)"
      "sw_started s' = insert (sw_next s) (sw_started s)" "sw_workers s' = (sw_workers s)[i := Recovering (sw_next s)]"
      by (simp_all add: take(1))
    have new: "sw_next s \<notin> inFlight s \<union> dom (sw_entries s) \<union> set (map fst (sw_late s))" using d(8) by blast
    have notAll: "\<not> list_all (\<lambda>w. w = Left) (sw_workers s)" using take(2,3) by (auto simp: list_all_length)
    show ?thesis
    proof (rule sweep_invI; (unfold same f)?)
      show "k = l" if "k < length ((sw_workers s)[i := Recovering (sw_next s)])"
        "l < length ((sw_workers s)[i := Recovering (sw_next s)])"
        "(sw_workers s)[i := Recovering (sw_next s)] ! k = Recovering j"
        "(sw_workers s)[i := Recovering (sw_next s)] ! l = Recovering j" for k l j
        using that d(4) fresh take(2) by (auto simp: nth_list_update split: if_splits)
      show "Suc (sw_next s) = length records" if "Left \<in> set ((sw_workers s)[i := Recovering (sw_next s)])"
        using that d(9) take(4) set_update_subset_insert [of "sw_workers s" i] by fastforce
    qed (use d new notAll take in \<open>auto simp: lessThan_Suc\<close>)
  next
    case (leave i)
    have f: "inFlight s' = inFlight s" using inFlight_take [OF leave(2,3), of s' Left] leave(1) by auto
    have same: "sw_entries s' = sw_entries s" "sw_late s' = sw_late s" "sw_report s' = sw_report s"
      "sw_overBudget s' = sw_overBudget s" "sw_next s' = sw_next s" "sw_started s' = sw_started s"
      "sw_workers s' = (sw_workers s)[i := Left]"
      by (simp_all add: leave(1))
    have notAll: "\<not> list_all (\<lambda>w. w = Left) (sw_workers s)" using leave(2,3) by (auto simp: list_all_length)
    show ?thesis
    proof (rule sweep_invI; (unfold same f)?)
      show "k = l" if "k < length ((sw_workers s)[i := Left])" "l < length ((sw_workers s)[i := Left])"
        "(sw_workers s)[i := Left] ! k = Recovering j" "(sw_workers s)[i := Left] ! l = Recovering j" for k l j
        using that d(4) leave(2) by (auto simp: nth_list_update split: if_splits)
    qed (use d notAll leave in auto)
  next
    case (finish i j t answer result)
    note f = inFlight_finish [OF inv finish(2,3), of s']
    have w: "sw_workers s' = (sw_workers s)[i := AtHead]" by (simp add: finish(1))
    note f = f [OF w]
    have notAll: "\<not> list_all (\<lambda>w. w = Left) (sw_workers s)" using finish(2,3) by (auto simp: list_all_length)
    have inj: "k = l" if "k < length ((sw_workers s)[i := AtHead])" "l < length ((sw_workers s)[i := AtHead])"
        "(sw_workers s)[i := AtHead] ! k = Recovering j" "(sw_workers s)[i := AtHead] ! l = Recovering j" for k l j
      using that d(4) finish(2) by (auto simp: nth_list_update split: if_splits)
    have left: "Left \<in> set ((sw_workers s)[i := AtHead]) \<Longrightarrow> Left \<in> set (sw_workers s)"
      using set_update_subset_insert [of "sw_workers s" i AtHead] by auto
    have answered: "answeredGoal p records j result" using finish(4,5) by (auto simp: answeredGoal_def)
    have j: "j \<notin> dom (sw_entries s) \<union> set (map fst (sw_late s))" using f(2) d(5) by blast
    show ?thesis
    proof (cases "sw_report s \<noteq> None")
      case True
      have same: "sw_entries s' = sw_entries s" "sw_late s' = sw_late s @ [(j, result)]"
        "sw_report s' = sw_report s" "sw_overBudget s' = sw_overBudget s" "sw_next s' = sw_next s"
        "sw_started s' = sw_started s"
        using True by (simp_all add: finish(1))
      show ?thesis
      proof (rule sweep_invI; (unfold same w f(1))?)
        show "k = l" if "k < length ((sw_workers s)[i := AtHead])" "l < length ((sw_workers s)[i := AtHead])"
          "(sw_workers s)[i := AtHead] ! k = Recovering h" "(sw_workers s)[i := AtHead] ! l = Recovering h" for k l h
          using inj that by blast
        show "(inFlight s - {j}) \<inter> (dom (sw_entries s) \<union> set (map fst (sw_late s @ [(j, result)]))) = {}"
          using d(5) by auto
        show "inFlight s - {j} \<union> dom (sw_entries s) \<union> set (map fst (sw_late s @ [(j, result)])) = {..<sw_next s}"
          using d(8) f(2) by auto
        show "sw_next s = length records" if "Left \<in> set ((sw_workers s)[i := AtHead])"
          using d(9) left [OF that] by blast
      qed (use d(1-3,6,7,10-13) notAll j True in simp_all)
    next
      case False
      have same: "sw_entries s' = (sw_entries s)(j \<mapsto> result)" "sw_late s' = sw_late s"
        "sw_report s' = sw_report s" "sw_overBudget s' = sw_overBudget s" "sw_next s' = sw_next s"
        "sw_started s' = sw_started s"
        using False by (simp_all add: finish(1))
      show ?thesis
      proof (rule sweep_invI; (unfold same w f(1))?)
        show "k = l" if "k < length ((sw_workers s)[i := AtHead])" "l < length ((sw_workers s)[i := AtHead])"
          "(sw_workers s)[i := AtHead] ! k = Recovering h" "(sw_workers s)[i := AtHead] ! l = Recovering h" for k l h
          using inj that by blast
        show "(inFlight s - {j}) \<inter> (dom ((sw_entries s)(j \<mapsto> result)) \<union> set (map fst (sw_late s))) = {}"
          using d(5) by auto
        show "inFlight s - {j} \<union> dom ((sw_entries s)(j \<mapsto> result)) \<union> set (map fst (sw_late s)) = {..<sw_next s}"
          using d(8) f(2) by auto
        show "sw_next s = length records" if "Left \<in> set ((sw_workers s)[i := AtHead])"
          using d(9) left [OF that] by blast
        show "answeredGoal p records h r" if "((sw_entries s)(j \<mapsto> result)) h = Some r" for h r
          using that d(13) answered by (simp split: if_splits)
      qed (use d(1-3,6,7,10,11) j False in simp_all)
    qed
  next
    case settle
    have "inFlight s' = inFlight s" by (simp add: settle(1) inFlight_def)
    then show ?thesis
      by (intro sweep_invI) (use d settle in auto)
  next
    case expire
    have "inFlight s' = inFlight s" by (simp add: expire(1) inFlight_def)
    then show ?thesis
      by (intro sweep_invI) (use d expire in auto)
  qed
qed

lemma report_step:
  assumes "sweep_step p records unreadable budgeted s s'" "sw_report s = Some report"
  shows "sw_report s' = Some report \<and> sw_entries s' = sw_entries s \<and> sw_overBudget s' = sw_overBudget s"
  using assms by cases (auto split: if_splits)

lemma report_made:
  assumes "sweep_step p records unreadable budgeted s s'" "sw_report s = None" "\<not> sw_overBudget s"
    and "sw_report s' = Some report"
  shows "report = sweepReport records unreadable (sw_overBudget s') (sw_started s) (sw_entries s')
    \<and> (sw_overBudget s' \<longrightarrow> budgeted)"
  using assms by cases (auto split: if_splits)

text \<open>The report is made once, of what had answered by then.\<close>

lemma sweep_reachable:
  assumes "(sweep_step p records unreadable budgeted)\<^sup>*\<^sup>* (newSweep records) s"
  shows "sweep_inv p records s \<and> (sw_overBudget s \<longrightarrow> budgeted)
    \<and> (\<forall>report. sw_report s = Some report \<longrightarrow>
          (\<exists>n. report = sweepReport records unreadable (sw_overBudget s) {..<n} (sw_entries s)))"
  using assms
proof induction
  case base
  show ?case using newSweep_inv by (simp add: newSweep_def)
next
  case (step s s')
  then have inv: "sweep_inv p records s" by blast
  show ?case
  proof (cases "sw_report s")
    case None
    have "\<not> sw_overBudget s" using sweep_invD(11) [OF inv] None by blast
    note made = report_made [OF step(2) None this]
    have "sw_overBudget s' \<longrightarrow> budgeted"
      using made sweep_invD(11) [OF sweep_inv_step [OF inv step(2)]] by blast
    with made sweep_inv_step [OF inv step(2)] sweep_invD(2) [OF inv] show ?thesis by metis
  next
    case (Some report)
    with report_step [OF step(2) Some] step(3) sweep_inv_step [OF inv step(2)] show ?thesis by auto
  qed
qed

subsection \<open>The sweep ends\<close>

primrec worker_weight :: "sweep_worker \<Rightarrow> nat" where
  "worker_weight AtHead = 1"
| "worker_weight (Recovering j) = 2"
| "worker_weight Left = 0"

definition sweep_measure :: "goal_state list \<Rightarrow> sweep \<Rightarrow> nat" where
  "sweep_measure records s =
     2 * (length records - sw_next s) + sum_list (map worker_weight (sw_workers s))
     + (if sw_report s = None then 1 else 0)"

lemma weight_update:
  assumes "i < length ws"
  shows "sum_list (map worker_weight (ws[i := w])) + worker_weight (ws ! i)
    = sum_list (map worker_weight ws) + worker_weight w"
  using assms by (induction ws arbitrary: i) (auto simp: nth_Cons split: nat.split)

lemma sweep_measure_step:
  assumes "sweep_step p records unreadable budgeted s s'"
  shows "sweep_measure records s' < sweep_measure records s"
  using assms
proof cases
  case (take i)
  then show ?thesis using weight_update [OF take(2), of "Recovering (sw_next s)"]
    by (simp add: sweep_measure_def)
next
  case (leave i)
  then show ?thesis using weight_update [OF leave(2), of Left] by (simp add: sweep_measure_def)
next
  case (finish i j t answer result)
  then show ?thesis using weight_update [OF finish(2), of AtHead] by (simp add: sweep_measure_def)
qed (simp_all add: sweep_measure_def)

lemma sweep_length:
  assumes "(sweep_step p records unreadable budgeted ^^ k) s s'"
  shows "k + sweep_measure records s' \<le> sweep_measure records s"
  using assms
proof (induction k arbitrary: s')
  case (Suc k)
  then obtain u where "(sweep_step p records unreadable budgeted ^^ k) s u" "sweep_step p records unreadable budgeted u s'" by auto
  with Suc.IH sweep_measure_step show ?case by fastforce
qed simp

subsection \<open>What a report says\<close>

lemma map_filter_member: "y \<in> set (List.map_filter f xs) \<longleftrightarrow> (\<exists>x\<in>set xs. f x = Some y)"
  by (induction xs) (auto simp: List.map_filter_def split: option.splits)

lemma entryReported_iff: "entryReported result = Some entry \<longleftrightarrow> result = Some (Entry entry)"
  by (cases "(result)" rule: entryReported.cases) auto

lemma failureReported_iff:
  "failureReported overBudget started result = Some reason \<longleftrightarrow>
     (\<exists>e. result = Some (RecoveryFailed e) \<and> reason = Threw e)
     \<or> result = None \<and> overBudget \<and> reason = (if started then StillRecovering else NeverStarted)"
  by (cases "(overBudget, started, result)" rule: failureReported.cases) auto

lemma sweepReport_goals:
  "entry \<in> set (rp_goals (sweepReport records unreadable overBudget started entries))
    \<longleftrightarrow> (\<exists>j < length records. entries j = Some (Entry entry))"
  by (auto simp: sweepReport_def map_filter_member entryReported_iff)

lemma sweepReport_failures:
  "(goalRunId, reason) \<in> set (rp_failures (sweepReport records unreadable overBudget started entries))
    \<longleftrightarrow> (goalRunId, reason) \<in> set unreadable
      \<or> (\<exists>j < length records. goalRunId = s_goalRunId (records ! j)
          \<and> failureReported overBudget (j \<in> started) (entries j) = Some reason)"
  by (auto simp: sweepReport_def map_filter_member)

lemma map_filter_both:
  assumes "\<And>x. x \<in> set xs \<Longrightarrow> f x = None \<or> g x = None"
  shows "length (List.map_filter f xs) + length (List.map_filter g xs) \<le> length xs"
  using assms
proof (induction xs)
  case (Cons x xs)
  then have "f x = None \<or> g x = None" "length (List.map_filter f xs) + length (List.map_filter g xs) \<le> length xs"
    by auto
  then show ?case by (auto simp: List.map_filter_def split: option.splits)
qed simp

lemma sweepReport_once:
  "length (rp_goals (sweepReport records unreadable overBudget started entries))
    + length (rp_failures (sweepReport records unreadable overBudget started entries))
    \<le> length records + length unreadable"
proof -
  have "entryReported result = None \<or> failureReported overBudget st result = None" for result st
    using entryReported_iff failureReported_iff by (metis option.exhaust option.distinct(1) option.inject swept.distinct(5))
  then show ?thesis
    using map_filter_both [of "[0..<length records]" "\<lambda>j. entryReported (entries j)"
      "\<lambda>j. map_option (Pair (s_goalRunId (records ! j)))
         (failureReported overBudget (j \<in> started) (entries j))"]
    by (simp add: sweepReport_def)
qed

text \<open>How one goal is accounted for by a report.\<close>

definition accounted :: "platform \<Rightarrow> bool \<Rightarrow> goal_state \<Rightarrow> recovery_report \<Rightarrow> bool" where
  "accounted p budgeted record report \<longleftrightarrow>
     (\<exists>t entry. runs (control_fits p) (recoverGoal (s_goalRunId record)) t (Inr entry)
        \<and> (entry \<in> set (rp_goals report)
            \<or> isTerminalStatus (s_status record) \<and> re_outcome entry = RcAlreadyTerminal))
     \<or> (\<exists>t e. runs (control_fits p) (recoverGoal (s_goalRunId record)) t (Inl e)
        \<and> (s_goalRunId record, Threw e) \<in> set (rp_failures report))
     \<or> budgeted \<and> ((s_goalRunId record, StillRecovering) \<in> set (rp_failures report)
        \<or> (s_goalRunId record, NeverStarted) \<in> set (rp_failures report))"

lemma unanswered_overBudget:
  assumes inv: "sweep_inv p records s" and "sw_report s \<noteq> None" "j < length records" "sw_entries s j = None"
  shows "sw_overBudget s"
proof (rule ccontr)
  note d = sweep_invD [OF inv]
  assume b: "\<not> sw_overBudget s"
  then have all: "list_all (\<lambda>w. w = Left) (sw_workers s)" "sw_late s = []" using d(10,12) assms(2) by auto
  have "0 < length (sw_workers s)" using d(3) assms(3) by (auto simp: SWEEP_CONCURRENCY_def)
  with all(1) have "Left \<in> set (sw_workers s)" by (auto simp: list_all_length in_set_conv_nth)
  moreover have "inFlight s = {}" using all(1) by (auto simp: inFlight_def list_all_length)
  ultimately show False using d(8,9) all(2) assms(3,4) by auto
qed

lemma sweep_accounted:
  assumes "(sweep_step p records unreadable budgeted)\<^sup>*\<^sup>* (newSweep records) s" "sw_report s = Some report"
    and "record \<in> set records"
  shows "accounted p budgeted record report"
proof -
  note r = sweep_reachable [OF assms(1)]
  note d = sweep_invD [OF r [THEN conjunct1]]
  obtain n where report: "report = sweepReport records unreadable (sw_overBudget s) {..<n} (sw_entries s)"
    using r assms(2) by blast
  obtain j where j: "j < length records" "record = records ! j" using assms(3) by (auto simp: in_set_conv_nth)
  show ?thesis
  proof (cases "sw_entries s j")
    case None
    have b: "sw_overBudget s"
      using unanswered_overBudget [OF _ _ j(1) None] r assms(2) by blast
    then have "(s_goalRunId record, if j \<in> {..<n} then StillRecovering else NeverStarted) \<in> set (rp_failures report)"
      using None j unfolding report sweepReport_failures failureReported_iff by blast
    then show ?thesis using b r by (auto simp: accounted_def split: if_splits)
  next
    case (Some result)
    then obtain t answer where a: "runs (control_fits p) (recoverGoal (s_goalRunId record)) t answer"
      "result = sweptOf record answer" using d(13) [OF Some] j(2) unfolding answeredGoal_def by blast
    show ?thesis
    proof (cases answer)
      case (Inl e)
      then have "(s_goalRunId record, Threw e) \<in> set (rp_failures report)"
        using Some a(2) j unfolding report sweepReport_failures failureReported_iff sweptOf_def by auto
      then show ?thesis using a(1) Inl by (auto simp: accounted_def)
    next
      case (Inr entry)
      then have "entry \<in> set (rp_goals report) \<or> isTerminalStatus (s_status record) \<and> re_outcome entry = RcAlreadyTerminal"
        using Some a(2) j unfolding report sweepReport_goals sweptOf_def by (auto split: if_splits)
      then show ?thesis using a(1) Inr by (auto simp: accounted_def)
    qed
  qed
qed

subsection \<open>The properties\<close>


lemma inFlight_finite: "finite (inFlight s)" "card (inFlight s) \<le> length (sw_workers s)"
proof -
  have sub: "inFlight s \<subseteq> (\<lambda>i. case sw_workers s ! i of Recovering j \<Rightarrow> j | _ \<Rightarrow> 0) ` {..<length (sw_workers s)}"
    by (force simp: inFlight_def)
  then show "finite (inFlight s)" by (rule finite_subset) simp
  have "card (inFlight s) \<le> card {..<length (sw_workers s)}"
    using sub by (rule surj_card_le [rotated]) simp
  then show "card (inFlight s) \<le> length (sw_workers s)" by simp
qed

text \<open>A sweep with no goal in flight either has a step to take or is over.\<close>

lemma sweep_progress:
  assumes "sweep_inv p records s" "inFlight s = {}" "\<And>s'. \<not> sweep_step p records unreadable budgeted s s'"
  shows "sw_report s \<noteq> None \<and> list_all (\<lambda>w. w = Left) (sw_workers s)"
proof -
  have left: "sw_workers s ! i = Left" if i: "i < length (sw_workers s)" for i
  proof (cases "sw_workers s ! i")
    case AtHead
    then show ?thesis using sweep_step.take [OF i AtHead] sweep_step.leave [OF i AtHead] assms(3) not_le by blast
  next
    case (Recovering j)
    then show ?thesis using i assms(2) by (auto simp: inFlight_def)
  qed
  then have "list_all (\<lambda>w. w = Left) (sw_workers s)" by (simp add: list_all_length)
  then show ?thesis using sweep_step.settle assms(3) by blast
qed

text \<open>
  \<^bold>\<open>C29\<close> A sweep of \<open>n\<close> goals ends: it takes at most \<open>2 * n + 5\<close> steps of its workers and its report,
  whatever the recoveries answer and in whatever order they do. At every moment at most four goals
  are in flight, none that was recovered already; and when nothing is in flight and nothing is left to
  do, the report was made and every goal was recovered exactly once.
\<close>

theorem sweep_ends:
  assumes "(sweep_step p records unreadable budgeted ^^ k) (newSweep records) s"
  shows "k \<le> 2 * length records + 5 \<and> card (inFlight s) \<le> 4
    \<and> inFlight s \<inter> (dom (sw_entries s) \<union> fst ` set (sw_late s)) = {}
    \<and> (inFlight s = {} \<and> (\<nexists>s'. sweep_step p records unreadable budgeted s s') \<longrightarrow>
        sw_report s \<noteq> None \<and> distinct (map fst (sw_late s))
        \<and> dom (sw_entries s) \<inter> fst ` set (sw_late s) = {}
        \<and> dom (sw_entries s) \<union> fst ` set (sw_late s) = {..<length records})"
proof -
  have inv: "sweep_inv p records s" using sweep_reachable assms by (metis relpowp_imp_rtranclp)
  note d = sweep_invD [OF inv]
  have "sweep_measure records (newSweep records) \<le> 2 * length records + 5"
    by (simp add: sweep_measure_def newSweep_def sum_list_replicate SWEEP_CONCURRENCY_def)
  then have ends: "k \<le> 2 * length records + 5" using sweep_length [OF assms] by simp
  have four: "card (inFlight s) \<le> 4" using inFlight_finite(2) [of s] d(3) by (simp add: SWEEP_CONCURRENCY_def)
  have over: "sw_report s \<noteq> None \<and> sw_next s = length records"
    if "inFlight s = {}" "\<nexists>s'. sweep_step p records unreadable budgeted s s'"
  proof (cases "records = []")
    case True
    then show ?thesis using sweep_progress [OF inv that(1)] that(2) d(1) by auto
  next
    case False
    then have "0 < length (sw_workers s)" using d(3) by (simp add: SWEEP_CONCURRENCY_def)
    moreover have "sw_report s \<noteq> None \<and> list_all (\<lambda>w. w = Left) (sw_workers s)"
      using sweep_progress [OF inv that(1)] that(2) by blast
    ultimately show ?thesis using d(9) by (auto simp: list_all_length in_set_conv_nth)
  qed
  show ?thesis using ends four over d(5-8) unfolding set_map by (metis Un_empty_left)
qed

end
