(* ===== verification/HostWitnesses.thy ===== *)
theory HostWitnesses
  imports Witnesses RecoveryAnswers ControlLaws GoalSweep
begin

section \<open>The properties of the host side at concrete runs\<close>

text \<open>
  A run of each program of the control plane on the goal of \<open>Samples\<close>, step by step with the answers
  it got, and the property that speaks of it.
\<close>

subsection \<open>A canceled goal\<close>

definition marked :: goal_state where
  "marked = cancelled\<lparr>s_revision := 2\<rparr>"

lemma marked_fields [simp]:
  "s_goalRunId marked = lit ''g''" "s_status marked = Pending" "s_attempts marked = []"
  "s_cancellation marked = Some sampleMarker" "b_maximumAttempts (s_bounds marked) = Fin 3"
  "s_transitionSeq marked = 0" "s_auditLog marked = []"
  "s_closedAt marked = None" "s_cleanedUpAt marked = None"
  by (simp_all add: marked_def cancelled_def) (simp_all add: sample_def)

lemma marked_valid: "validState samplePlatform marked"
  unfolding marked_def by (rule cancelled_valid)

lemma marked_committed:
  obtains rq c where
    "buildGoalForcedFinish (toGoalWorkflowView marked) bureauIdentifiers sampleNow
       (decideCancellation :: json goal_decision) = Some rq"
    "store_answers samplePlatform rq marked (Answer (Applied c)) c"
    "validState samplePlatform c" "s_status c = Canceled" "s_goalRunId c = lit ''g''" "s_attempts c = []"
    "b_maximumAttempts (s_bounds c) = Fin 3" "s_closedAt c = None" "s_cleanedUpAt c = None"
proof -
  have clock: "clockOk (toGoalWorkflowView marked) sampleNow"
    using clock_kept [of sample marked] sample_clock by (simp add: frozen_def marked_def cancelled_def)
  have r: "ready samplePlatform marked (toGoalWorkflowView marked) sampleNow"
    by (simp add: ready_def marked_valid samplePlatform_ok clock live_def GOAL_AUDIT_LOG_MAXIMUM_ENTRIES_def)
  obtain rq n where w: "buildGoalForcedFinish (toGoalWorkflowView marked) bureauIdentifiers sampleNow
       (decideCancellation :: json goal_decision) = Some rq" "evaluateTransition samplePlatform rq marked = Write n"
    using forced_accepted [OF r, of decideCancellation]
    by (auto simp: acceptedBy_def forcedOk_def decideCancellation_def)
  obtain as where n: "n = buildNext samplePlatform marked rq as" "validState samplePlatform n"
      "applyAttempt marked rq = Inr as"
    using evaluateTransition_Write [OF w(2)] by blast
  have rq: "rq_attempt rq = None" "rq_to rq = Canceled"
    using w(1) cancellation_request(2) [OF w(1)]
    by (auto simp: buildGoalForcedFinish_def currentAttemptOf_def toGoalWorkflowView_def lastOf_def
        decidedTransition_def baseTransition_def Let_def split: option.splits prod.splits)
  have as: "as = []" using n(3) rq(1) by (simp add: applyAttempt_def)
  have v: "validState samplePlatform (n\<lparr>s_revision := s_revision marked + 1\<rparr>)"
    by (rule validState_revision [OF n(2)]) simp
  have f: "s_status n = Canceled" "s_goalRunId n = lit ''g''" "s_attempts n = []"
    "b_maximumAttempts (s_bounds n) = Fin 3" "s_closedAt n = None" "s_cleanedUpAt n = None"
    unfolding n(1) using rq as by (simp_all add: buildNext_def Let_def)
  show thesis
    by (rule that [OF w(1) store_answers.written [OF w(2) refl v] v]) (simp_all add: f)
qed

subsection \<open>Runs, step by step\<close>

lemmas step_defs = storeGet_def storeIsUnreadable_def storeControl_def storeApply_def clockNow_def
  clockNowIso_def resolveDeterminism_def askFlag_def engineGet_def engineFinalizer_def command_def
  fenceAttempt_def cancelRun_def cleanUpHistory_def reconcile_def startWithinBudget_def perform_def

lemma indexes_unstarted:
  assumes "s_attempts s = []" "b_maximumAttempts (s_bounds s) = Fin 3"
  shows "attemptIndexesToStop s = [0]" "runsToStop s = [goalAttemptRunId (s_goalRunId s) 0]"
  using assms
  by (simp_all add: runsToStop_def attemptIndexesToStop_def attemptToStop_def lastOf_def jnat_def Let_def)

text \<open>Everything is gone: the read-back of a canceled goal with no attempt.\<close>

definition goneReads :: "(control_operation, control_answer) trace" where
  "goneReads =
     [(EngineGet (goalWorkflowId (lit ''g'')), WorkflowAnswer None),
      (EngineFinalizer (goalWorkflowId (lit ''g'')), FinalizerAnswer None),
      (EngineGet (goalAttemptRunId (lit ''g'') 0), WorkflowAnswer None)]"

definition settledTrace :: "goal_state \<Rightarrow> (control_operation, control_answer) trace" where
  "settledTrace c =
     [(HasEngine, FlagAnswer True), (EngineGet (goalWorkflowId (lit ''g'')), WorkflowAnswer None),
      (FenceAttempt c 0, FenceAnswer Fenced), (CancelRun (goalAttemptRunId (lit ''g'') 0), StopAnswer StopNotFound),
      (StoreGet (lit ''g''), RecordAnswer (Some c)), (HasEngine, FlagAnswer True)] @ goneReads"

definition sampleOptions :: cancel_options where
  "sampleOptions = \<lparr>co_principal = None, co_reason = None\<rparr>"

lemma settled_run:
  assumes "validState samplePlatform c" "s_status c = Canceled" "s_goalRunId c = lit ''g''" "s_attempts c = []"
    "b_maximumAttempts (s_bounds c) = Fin 3"
  shows "runs (control_fits samplePlatform) (cancelGoal c sampleOptions) (settledTrace c) (Inr (CancelDone c))"
  using assms
  by (simp add: cancelGoal_def settleCanceledGoal_def readBack_def unfinishedAfterCancellation_def
      stopRuns_def fenceOvertakenAttempts_def readable_def withUnfenced_def Let_def step_defs indexes_unstarted
      settledTrace_def goneReads_def control_fits_def) auto

subsection \<open>Cancelling\<close>


theorem settled_cancel_done_witness:
  "\<exists>c. list_all settledAnswer (settledTrace c)
     \<and> runs (control_fits samplePlatform) (cancelGoal c sampleOptions) (settledTrace c) (Inr (CancelDone c))
     \<and> (\<exists>goal. (Inr (CancelDone c) :: fault + cancel_outcome) = Inr (CancelDone goal))"
proof -
  obtain rq c where c: "validState samplePlatform c" "s_status c = Canceled" "s_goalRunId c = lit ''g''"
      "s_attempts c = []" "b_maximumAttempts (s_bounds c) = Fin 3"
    by (rule marked_committed) blast
  have s: "list_all settledAnswer (settledTrace c)"
    using c by (simp add: settledTrace_def goneReads_def settledAnswer_def)
  show ?thesis
    using settled_cancel_done [OF c(2) settled_run [OF c] s] settled_run [OF c] s by blast
qed

theorem cancel_rejections_witness:
  "storeRejected
     [(ClockNowIso, StampAnswer sampleTime),
      (StoreRequestCancellation (lit ''g'')
         \<lparr>cm_requestedAt = sampleTime, cm_principal = None, cm_reason = None\<rparr> sampleTime, Rejection (Fault []))]
     (Fault [])"
  (is "storeRejected ?t ?e")
proof -
  have "runs (control_fits samplePlatform) (cancelGoal sample sampleOptions) ?t (Inl ?e)"
    by (simp add: cancelGoal_def Let_def step_defs sampleOptions_def control_fits_def)
  from cancel_rejections [OF this] show ?thesis by simp
qed

subsection \<open>Recovering\<close>

text \<open>A goal whose controller was never started.\<close>

definition startTrace :: "(control_operation, control_answer) trace" where
  "startTrace =
     [(StoreGet (lit ''g''), RecordAnswer (Some sample)), (HasEngine, FlagAnswer True),
      (EngineGet (goalWorkflowId (lit ''g'')), WorkflowAnswer None), (IsClosing, FlagAnswer False),
      (ResolveDeterminism (s_validator sample), DeterminismAnswer None),
      (StoreGet (lit ''g''), RecordAnswer (Some sample)),
      (EngineStart (goalWorkflowId (lit ''g'')) False, DoneAnswer),
      (StoreGet (lit ''g''), RecordAnswer None)]"

lemma start_run:
  "runs (control_fits samplePlatform) (recoverGoal (lit ''g'')) startTrace (Inr (entryOf (lit ''g'') RcStarted))"
  by (simp add: recoverGoal_def recoverLive_def recoverController_def wantsStart_def enforceDeterminism_def
      startMissingController_def standDownIfOvertaken_def startController_def recoverAttempt_def step_defs
      startTrace_def control_fits_def sample_valid recovered_def entryOf_def Let_def lastOf_def) auto

theorem recovery_starts_witness:
  "startsJustified (lit ''g'') startTrace \<and> length (filter (startsController \<circ> fst) startTrace) = 1"
  using recovery_starts [OF start_run] by (simp add: startTrace_def)

text \<open>A sweep of that one goal: taken, recovered, no goal left, reported.\<close>

definition takenSweep :: sweep where
  "takenSweep = (newSweep [sample])\<lparr>sw_next := 1, sw_started := {0}, sw_workers := [Recovering 0]\<rparr>"

definition answeredSweep :: sweep where
  "answeredSweep = takenSweep
     \<lparr>sw_entries := [0 \<mapsto> Entry (entryOf (lit ''g'') RcStarted)], sw_workers := [AtHead]\<rparr>"

definition sweptSweep :: sweep where
  "sweptSweep = answeredSweep
     \<lparr>sw_workers := [Left], sw_report := Some \<lparr>rp_goals = [entryOf (lit ''g'') RcStarted], rp_failures = []\<rparr>\<rparr>"

lemma sample_status [simp]: "\<not> isTerminalStatus (s_status sample)" "s_goalRunId sample = lit ''g''"
  by (simp_all add: sample_def)

lemma takenSweep_step: "sweep_step samplePlatform [sample] [] False (newSweep [sample]) takenSweep"
  using sweep_step.take [of 0 "newSweep [sample]" "[sample]" samplePlatform "[]" False]
  by (simp add: takenSweep_def newSweep_def SWEEP_CONCURRENCY_def)

lemma takenSweep_fields [simp]:
  "sw_workers takenSweep = [Recovering 0]" "sw_report takenSweep = None" "sw_entries takenSweep = (\<lambda>_. None)"
  by (simp_all add: takenSweep_def newSweep_def)

lemma answeredSweep_step: "sweep_step samplePlatform [sample] [] False takenSweep answeredSweep"
proof -
  let ?entry = "entryOf (lit ''g'') RcStarted"
  have "Entry ?entry = sweptOf ([sample] ! 0) (Inr ?entry)" by (simp add: sweptOf_def)
  moreover have "runs (control_fits samplePlatform) (recoverGoal (s_goalRunId ([sample] ! 0))) startTrace (Inr ?entry)"
    unfolding nth_Cons_0 sample_status(2) by (rule start_run)
  ultimately have "sweep_step samplePlatform [sample] [] False takenSweep
      ((if sw_report takenSweep \<noteq> None then takenSweep\<lparr>sw_late := sw_late takenSweep @ [(0, Entry ?entry)]\<rparr>
        else takenSweep\<lparr>sw_entries := (sw_entries takenSweep)(0 \<mapsto> Entry ?entry)\<rparr>)
       \<lparr>sw_workers := (sw_workers takenSweep)[0 := AtHead]\<rparr>)"
    by (intro sweep_step.finish [of 0 takenSweep 0]) simp_all
  then show ?thesis by (simp add: answeredSweep_def)
qed

lemma sweptSweep_steps:
  "(sweep_step samplePlatform [sample] [] False)\<^sup>*\<^sup>* answeredSweep sweptSweep"
proof -
  let ?left = "answeredSweep\<lparr>sw_workers := [Left]\<rparr>"
  have "sweep_step samplePlatform [sample] [] False answeredSweep ?left"
    using sweep_step.leave [of 0 answeredSweep "[sample]" samplePlatform "[]" False]
    by (simp add: answeredSweep_def takenSweep_def)
  moreover have "sweep_step samplePlatform [sample] [] False ?left sweptSweep"
    using sweep_step.settle [of ?left samplePlatform "[sample]" "[]" False]
    by (simp add: sweptSweep_def answeredSweep_def takenSweep_def newSweep_def sweepReport_def List.map_filter_def)
  ultimately show ?thesis by (rule converse_rtranclp_into_rtranclp [OF _ r_into_rtranclp])
qed

lemma sample_sweep:
  "recoverEveryGoal samplePlatform (\<lambda>record. True) True False (Inr ([sample], []))
     \<lparr>rp_goals = [entryOf (lit ''g'') RcStarted], rp_failures = []\<rparr>"
proof (rule recoverEveryGoal.swept)
  show "[sample] = sweepRecords (\<lambda>record. True) [sample]" by (simp add: sweepRecords_def needsRecovery_def)
  show "(sweep_step samplePlatform [sample] (unreadableFailures True []) False)\<^sup>*\<^sup>* (newSweep [sample]) sweptSweep"
    using takenSweep_step answeredSweep_step sweptSweep_steps
    unfolding unreadableFailures_def if_True list.map
    by (rule converse_rtranclp_into_rtranclp [OF _ converse_rtranclp_into_rtranclp])
qed (simp_all add: sweptSweep_def)


theorem sweep_ends_witness: "card (inFlight takenSweep) \<le> 4 \<and> inFlight takenSweep = {0}"
proof -
  have "(sweep_step samplePlatform [sample] [] False ^^ 1) (newSweep [sample]) takenSweep"
    using takenSweep_step by (simp only: relpowp_1)
  from sweep_ends [OF this] show ?thesis by (auto simp: inFlight_def takenSweep_def)
qed

text \<open>A goal marked while its controller ran.\<close>

definition completionTrace :: "transition_request \<Rightarrow> goal_state \<Rightarrow> (control_operation, control_answer) trace" where
  "completionTrace rq c =
     [(StoreGet (lit ''g''), RecordAnswer (Some marked)), (HasEngine, FlagAnswer True),
      (EngineGet (goalWorkflowId (lit ''g'')), WorkflowAnswer (Some \<lparr>wr_status = WfRunning, wr_createdAt = None\<rparr>)),
      (HasEngine, FlagAnswer True), (EngineCancel (goalWorkflowId (lit ''g'')), DoneAnswer),
      (FenceAttempt marked 0, FenceAnswer Fenced),
      (CancelRun (goalAttemptRunId (lit ''g'') 0), StopAnswer StopNotFound),
      (ClockNow, InstantAnswer sampleNow), (StoreApplyTransition rq, TransitionAnswer (Answer (Applied c))),
      (HasEngine, FlagAnswer True)] @ goneReads"


text \<open>A closed goal whose histories are gone.\<close>

definition cleanupTrace :: "goal_state \<Rightarrow> (control_operation, control_answer) trace" where
  "cleanupTrace c =
     (StoreGet (lit ''g''), RecordAnswer (Some c)) # settledTrace c
     @ [(IsClosing, FlagAnswer False), (HasEngine, FlagAnswer True), (DrainForwarder, DoneAnswer)]
     @ map (\<lambda>w. (EngineGet w, WorkflowAnswer None)) (goalHistories c)
     @ [(ClockNowIso, StampAnswer sampleTime)]"


subsection \<open>Creating, and the control plane's own decisions\<close>

definition ensureTrace :: "(control_operation, control_answer) trace" where
  "ensureTrace =
     [(StoreGet (lit ''g''), RecordAnswer (Some sample)),
      (ResolveDeterminism (s_validator sample), DeterminismAnswer None), (HasEngine, FlagAnswer True),
      (EngineStart (goalWorkflowId (lit ''g'')) False, DoneAnswer)]"

theorem ensureController_starts_witness:
  "everyStep (ensuredStart (lit ''g'')) ensureTrace"
proof -
  have "runs (control_fits samplePlatform) (ensureController sample) ensureTrace (Inr (sample, ControllerStarted))"
    by (simp add: ensureController_def enforceDeterminism_def startController_def step_defs ensureTrace_def
        control_fits_def sample_valid) auto
  from ensureController_starts [OF this] show ?thesis by simp
qed

definition strictSample :: goal_state where
  "strictSample = sample\<lparr>s_requireDeterministicValidation := True\<rparr>"

lemma strictSample_valid: "validState samplePlatform strictSample"
  using sampleTime_iso sample_texts
  by (simp add: validState_iff ok_state_def isConsistent_def sample_def strictSample_def sampleIdentity_def
      ok_identity_def ok_objective_def ok_budget_def ok_retryPolicy_def ok_transition_def ok_usage_def
      nonEmpty_def lit_simps GOAL_OBJECTIVE_MAXIMUM_BYTES_def GOAL_MAXIMUM_ATTEMPTS_def jnat_def
      positive_def nonNegative_def goalWorkflowId_def goalTransitionId_def isAuditLogConsistent_def
      hasOwnDerivedIds_def isUsageConsistent_def isStatusRelationConsistent_def isTerminalPairing_def
      areAttemptOutcomesConsistent_def isTerminalOutcomeConsistent_def isCancellationConsistent_def
      jeq_def GOAL_WORKFLOW_ID_PREFIX_def)

theorem determinism_ends_witness:
  "\<exists>n. evaluateTransition samplePlatform
       (determinismRequest strictSample sampleTime UnsupportedValidation (Some UNSUPPORTED_VALIDATION_DETAIL))
       strictSample = Write n \<and> s_status n = Failed"
proof -
  have "(decideDeterminismRequirement (Some (s_requireDeterministicValidation strictSample)) None
      :: json goal_decision option)
    = Some (Fail UnsupportedValidation None (Some UNSUPPORTED_VALIDATION_DETAIL))"
    by (simp add: decideDeterminismRequirement_def strictSample_def)
  from determinism_ends [OF strictSample_valid samplePlatform_ok(1) _ _ _ _ sampleTime_iso this]
  show ?thesis by (auto simp: strictSample_def GOAL_AUDIT_LOG_MAXIMUM_ENTRIES_def)
qed

theorem runsToStop_exact_witness:
  "set (runsToStop sample) = goalAttemptRunId (lit ''g'') ` {0}"
proof -
  have "{i. jlt (jnat i) (b_maximumAttempts (s_bounds sample))
      \<and> (s_attempts sample \<noteq> [] \<and> i = length (s_attempts sample) - 1
         \<or> i = length (s_attempts sample) \<and> \<not> isInFlight (lastOf (s_attempts sample)))} = {0}"
    by (auto simp: lastOf_def isInFlight_def jnat_def) (simp add: sample_def)
  then show ?thesis using runsToStop_exact [OF sample_valid] by simp
qed

theorem cancellation_commits_bounded_witness:
  "\<exists>rq. length (filter (appliesTransition \<circ> fst)
     [(ClockNow, InstantAnswer sampleNow), (StoreApplyTransition rq, TransitionAnswer Missing)]) \<le> 3"
proof -
  obtain rq where rq: "buildGoalForcedFinish (toGoalWorkflowView marked) bureauIdentifiers sampleNow
      (decideCancellation :: json goal_decision) = Some rq"
    by (rule marked_committed) blast
  have "runs (control_fits samplePlatform) (settleCancellationCommit marked)
      [(ClockNow, InstantAnswer sampleNow), (StoreApplyTransition rq, TransitionAnswer Missing)]
      (Inr (Settled (recovered RcNotFound)))"
    by (simp add: settleCancellationCommit_def CANCELLATION_COMMIT_ATTEMPTS_def numeral_3_eq_3
        commitCancellation_def rq step_defs) (simp add: control_fits_def)
  from cancellation_commits_bounded [OF this] show ?thesis by blast
qed

end
