(* ===== verification/GoalFacade.thy ===== *)
theory GoalFacade
  imports GoalSweep
begin

section \<open>The control plane a caller sees\<close>

text \<open>
  \<open>packages/bureau/src/goals.ts\<close> and \<open>principal-allows.ts\<close>, but for \<open>create\<close>: reading, cancelling,
  recovering and closing one goal on behalf of a principal. A caller with a principal sees its own
  goals (and those nobody owns); a goal of another is answered exactly as one that is not there.
  A request is untyped where the code reads it so.
\<close>

definition principalAllows :: "jstr option \<Rightarrow> jstr option \<Rightarrow> bool" where
  "principalAllows requested owner \<longleftrightarrow> requested = None \<or> owner = None \<or> requested = owner"

definition authorized :: "jstr \<Rightarrow> jstr option \<Rightarrow> goal_state option host_program" where
  "authorized goalRunId who =
     bindE (storeGet goalRunId) (\<lambda>stored.
       Ret (case stored of
           None \<Rightarrow> None
         | Some record \<Rightarrow> if principalAllows who (s_principal record) then Some record else None))"

datatype absence = NotFound | RecordUnreadable

definition absent :: "jstr \<Rightarrow> jstr option \<Rightarrow> absence host_program" where
  "absent goalRunId who =
     (if who \<noteq> None then Ret NotFound
      else bindE (storeIsUnreadable goalRunId) (\<lambda>unreadable.
        Ret (if unreadable then RecordUnreadable else NotFound)))"

subsection \<open>Listing\<close>

text \<open>
  \<open>localeCompare\<close> is the host's collation. The filter is untyped: one that is neither a status nor a
  list of them matches nothing.
\<close>

definition wantedStatuses :: "jsval \<Rightarrow> jsval list option" where
  "wantedStatuses requested =
     (if requested = JUndef then None
      else if isString requested then Some [requested]
      else if isArray requested then Some (asArray requested)
      else Some [])"

definition comesBefore :: "(jstr \<Rightarrow> jstr \<Rightarrow> int) \<Rightarrow> goal_state \<Rightarrow> goal_state \<Rightarrow> bool" where
  "comesBefore localeCompare a b \<longleftrightarrow>
     (let byTime = localeCompare (s_createdAt a) (s_createdAt b)
      in byTime < 0 \<or> byTime = 0 \<and> localeCompare (s_goalRunId a) (s_goalRunId b) \<le> 0)"

primrec insertSorted :: "('a \<Rightarrow> 'a \<Rightarrow> bool) \<Rightarrow> 'a \<Rightarrow> 'a list \<Rightarrow> 'a list" where
  "insertSorted before x [] = [x]"
| "insertSorted before x (y # ys) = (if before x y then x # y # ys else y # insertSorted before x ys)"

definition toSorted :: "('a \<Rightarrow> 'a \<Rightarrow> bool) \<Rightarrow> 'a list \<Rightarrow> 'a list" where
  "toSorted before xs = foldr (insertSorted before) xs []"

definition listed :: "jstr option \<Rightarrow> jsval \<Rightarrow> goal_state \<Rightarrow> bool" where
  "listed who requested record \<longleftrightarrow>
     principalAllows who (s_principal record)
     \<and> pred_option (\<lambda>wanted. entryText statusText (s_status record) \<in> set wanted) (wantedStatuses requested)"

definition listGoals ::
  "(jstr \<Rightarrow> jstr \<Rightarrow> int) \<Rightarrow> jstr option \<Rightarrow> jsval \<Rightarrow> goal_state list host_program" where
  "listGoals localeCompare who requested =
     bindE storeList (\<lambda>records.
       Ret (toSorted (comesBefore localeCompare) (filter (listed who requested) records)))"

subsection \<open>The work in flight\<close>

datatype run_reading = RunStatus "workflow_status option" | NoEngineToRead | RunUnreadable fault

datatype active_report =
    ActiveValidation jstr int goal_identity jstr
  | ActiveAttempt jstr int jstr jstr run_reading

text \<open>\<open>findIndex\<close> is \<open>-1\<close> when no attempt has the id.\<close>

definition attemptIndexOf :: "goal_state \<Rightarrow> jstr \<Rightarrow> int" where
  "attemptIndexOf record attemptId =
     (case find (\<lambda>(i, attempt). a_attemptId attempt = attemptId) (enumerate 0 (s_attempts record)) of
        None \<Rightarrow> - 1
      | Some (i, attempt) \<Rightarrow> int i)"

definition activeWork :: "jstr \<Rightarrow> jstr option \<Rightarrow> active_report option host_program" where
  "activeWork goalRunId who =
     bindE (authorized goalRunId who) (\<lambda>found.
       case found of
         None \<Rightarrow> Ret None
       | Some record \<Rightarrow>
           (case s_active record of
              None \<Rightarrow> Ret None
            | Some (ValidationWork attemptId validator startedAt) \<Rightarrow>
                Ret (Some (ActiveValidation attemptId (attemptIndexOf record attemptId) validator startedAt))
            | Some (AttemptWork attemptId runId startedAt) \<Rightarrow>
                bindE (askFlag HasEngine) (\<lambda>engine.
                  bindE (if \<not> engine then Ret NoEngineToRead
                      else catchE (bindE (engineGet runId) (\<lambda>run. Ret (RunStatus (map_option wr_status run))))
                        (\<lambda>e. Ret (RunUnreadable e)))
                    (\<lambda>reading.
                      Ret (Some (ActiveAttempt attemptId (attemptIndexOf record attemptId) runId startedAt reading))))))"

subsection \<open>Cancelling\<close>

text \<open>A principal that is not text names no one; a reason that is not text is dropped.\<close>

definition cancelOne :: "jstr \<Rightarrow> jsval \<Rightarrow> cancel_outcome host_program" where
  "cancelOne goalRunId given =
     (let who = jget given ''principal''; reason = jget given ''reason''
      in if who \<noteq> JUndef \<and> \<not> isString who then Ret CancelNotFound
         else
           (let options = \<lparr>co_principal = asOption asString who,
                  co_reason = (if isString reason then Some (asString reason) else None)\<rparr>
            in bindE (authorized goalRunId (co_principal options)) (\<lambda>found.
                 case found of
                   Some record \<Rightarrow> cancelGoal record options
                 | None \<Rightarrow> bindE (absent goalRunId (co_principal options)) (\<lambda>gone.
                     Ret (if gone = RecordUnreadable then CancelUnreadable else CancelNotFound)))))"

subsection \<open>Recovering\<close>

definition recoverOne :: "jstr \<Rightarrow> jstr option \<Rightarrow> recovery_report host_program" where
  "recoverOne goalRunId who =
     catchE
       (bindE (authorized goalRunId who) (\<lambda>found.
          case found of
            None \<Rightarrow> bindE (absent goalRunId who) (\<lambda>gone.
              Ret \<lparr>rp_goals = [entryOf goalRunId
                     (if gone = RecordUnreadable then RcUnrecoverable else RcNotFound)], rp_failures = []\<rparr>)
          | Some record \<Rightarrow> bindE (recoverGoal goalRunId) (\<lambda>entry. Ret \<lparr>rp_goals = [entry], rp_failures = []\<rparr>)))
       (\<lambda>e. Ret \<lparr>rp_goals = [], rp_failures = [(goalRunId, Threw e)]\<rparr>)"

text \<open>
  \<open>recover\<close>: an id that is no text is refused, no id is the sweep over the goals the principal may see
  (whose scan is \<open>answer\<close>), and an id is that goal.
\<close>

inductive recovers ::
  "platform \<Rightarrow> jsval \<Rightarrow> jstr option \<Rightarrow> fault + goal_state list \<times> jstr list \<Rightarrow> recovery_report \<Rightarrow> bool"
  for p given who answer where
  notText: "given \<noteq> JUndef \<Longrightarrow> \<not> isString given \<Longrightarrow>
    recovers p given who answer \<lparr>rp_goals = [], rp_failures = [(lit ''*'', IdNotText)]\<rparr>"
| everyone: "given = JUndef \<Longrightarrow>
    recoverEveryGoal p (\<lambda>record. principalAllows who (s_principal record)) (who = None) False
      answer report \<Longrightarrow>
    recovers p given who answer report"
| oneGoal: "given = JStr goalRunId \<Longrightarrow>
    runs (control_fits p) (recoverOne goalRunId who) t (Inr report) \<Longrightarrow>
    recovers p given who answer report"

subsection \<open>Closing\<close>

datatype close_outcome =
    Closed goal_state cleanup_acknowledgement
  | CloseNotTerminal goal_state
  | CloseCancellationPending goal_state "cancellation_wait list"
  | CloseCleanupPending goal_state
  | CloseContended goal_state
  | CloseUnreadable
  | CloseNotFound

definition closeAbsence :: "absence \<Rightarrow> close_outcome" where
  "closeAbsence gone = (if gone = RecordUnreadable then CloseUnreadable else CloseNotFound)"

text \<open>A record that decoded a moment ago and no longer does.\<close>

definition closeCorrupt :: "jstr option \<Rightarrow> close_outcome" where
  "closeCorrupt who = (if who = None then CloseUnreadable else CloseNotFound)"

definition settleBeforeClosing :: "goal_state \<Rightarrow> jstr option \<Rightarrow> close_outcome option host_program" where
  "settleBeforeClosing record who =
     (if s_status record = Canceled then
        bindE (settleCanceledGoal record (who \<noteq> None)) (\<lambda>settled.
          Ret (case settled of
              CancelNotFound \<Rightarrow> Some CloseNotFound
            | CancelUnreadable \<Rightarrow> Some CloseUnreadable
            | CancelPending goal awaiting \<Rightarrow> Some (CloseCancellationPending goal awaiting)
            | _ \<Rightarrow> None))
      else if mayHaveOvertakenAStart record then
        bindE (stopOvertakenRuns record) (\<lambda>stopped.
          Ret (if re_outcome stopped = RcCleanupPending then Some (CloseCleanupPending record) else None))
      else Ret None)"

definition finishClosure :: "goal_state \<Rightarrow> jstr option \<Rightarrow> close_outcome host_program" where
  "finishClosure record who =
     bindE (cleanUpGoal record) (\<lambda>cleanup.
       if \<not> isCleanupDone cleanup \<or> s_cleanedUpAt record \<noteq> None then Ret (Closed record cleanup)
       else bindE clockNowIso (\<lambda>now.
         bindE (storeControl (StoreMarkCleanedUp (s_goalRunId record) now)) (\<lambda>marked.
           case marked of
             Answer (Updated r) \<Rightarrow> Ret (Closed r cleanup)
           | Answer (Unchanged r) \<Rightarrow> Ret (Closed r cleanup)
           | Missing \<Rightarrow> Ret CloseNotFound
           | Corrupt \<Rightarrow> Ret (closeCorrupt who)
           | Answer (Refused reason r) \<Rightarrow> Ret (CloseCleanupPending r)
           | Answer (ControlStale r) \<Rightarrow> Ret (CloseCleanupPending r)
           | Thrown \<Rightarrow> Raise (Fault []))))"

text \<open>\<open>wasLive\<close>: the record this call read had not ended, so the settlement before the close saw nothing.\<close>

definition afterClose :: "bool \<Rightarrow> goal_state \<Rightarrow> jstr option \<Rightarrow> close_outcome host_program" where
  "afterClose wasLive ended who =
     bindE (if wasLive then settleBeforeClosing ended who else Ret None) (\<lambda>unsettled.
       case unsettled of
         Some outcome \<Rightarrow> Ret outcome
       | None \<Rightarrow> finishClosure ended who)"

definition closeOne :: "jstr \<Rightarrow> jstr option \<Rightarrow> close_outcome host_program" where
  "closeOne goalRunId who =
     bindE (authorized goalRunId who) (\<lambda>found.
       case found of
         None \<Rightarrow> bindE (absent goalRunId who) (\<lambda>gone. Ret (closeAbsence gone))
       | Some record \<Rightarrow>
           bindE (settleBeforeClosing record who) (\<lambda>unsettled.
             case unsettled of
               Some outcome \<Rightarrow> Ret outcome
             | None \<Rightarrow>
                 bindE clockNowIso (\<lambda>now.
                   bindE (storeControl (StoreClose goalRunId now)) (\<lambda>reply.
                     case reply of
                       Answer (Updated r) \<Rightarrow> afterClose (\<not> isTerminalStatus (s_status record)) r who
                     | Answer (Unchanged r) \<Rightarrow> afterClose (\<not> isTerminalStatus (s_status record)) r who
                     | Answer (Refused reason r) \<Rightarrow> Ret (CloseNotTerminal r)
                     | Answer (ControlStale r) \<Rightarrow> Ret (CloseContended r)
                     | Corrupt \<Rightarrow> Ret (closeCorrupt who)
                     | Missing \<Rightarrow> Ret CloseNotFound
                     | Thrown \<Rightarrow> Raise (Fault [])))))"

end
