(* ===== verification/GoalRequests.thy ===== *)
theory GoalRequests
  imports GoalFacade GoalCreate "HOL-Library.List_Lexorder"
begin

section \<open>Creating a goal on request\<close>

text \<open>
  \<open>create\<close> of \<open>packages/bureau/src/goals.ts\<close>. The request is untyped. A record already stored under
  the id decides the call before the bureau's present capabilities do; a new one is written only
  when every check passed, and its controller is started only after it was written.
\<close>

subsection \<open>Comparing configurations\<close>

text \<open>
  Members sorted by key, \<open>undefined\<close> ones dropped, arrays in order: two requests that list the same
  configuration in another order compare equal.
\<close>

primrec canonicalJson :: "jsval \<Rightarrow> jstr" where
  "canonicalJson JUndef = lit ''null''"
| "canonicalJson JNull = stringify JNull"
| "canonicalJson (JBool b) = stringify (JBool b)"
| "canonicalJson (JNum n) = stringify (JNum n)"
| "canonicalJson (JStr s) = stringify (JStr s)"
| "canonicalJson (JArr vs) = lit ''['' @ joined (map canonicalJson vs) @ lit '']''"
| "canonicalJson (JObj fs) =
     lit ''{''
     @ joined
         (map (\<lambda>(k, t). quoted k @ lit '':'' @ t)
           (sort_key fst
             (map snd
               (filter fst
                 (zip (map (\<lambda>(k, v). v \<noteq> JUndef) fs) (map (map_prod id canonicalJson) fs))))))
     @ lit ''}''"
| "canonicalJson (JFun i) = lit ''null''"

definition orNull :: "('a \<Rightarrow> jsval) \<Rightarrow> 'a option \<Rightarrow> jsval" where
  "orNull enc x = (case x of None \<Rightarrow> JNull | Some y \<Rightarrow> enc y)"

definition configurationOf :: "goal_state \<Rightarrow> jstr" where
  "configurationOf state =
     canonicalJson (JArr
       [enc_identity (s_identity state), enc_objective (s_objective state), enc_identity (s_validator state),
        JBool (s_requireDeterministicValidation state), orNull JNum (s_validatorTimeoutMs state),
        enc_policy (s_conversationPolicy state), orNull enc_retryPolicy (s_retryPolicy state),
        enc_budget (s_bounds state), orNull JStr (s_principal state)])"

subsection \<open>The request\<close>

datatype rejection_code =
    DurableUnavailable | ShutdownBegun | AgentNotFound | AgentNotDurable | ValidatorUnregistered
  | ValidatorVersionMismatch "jstr list" | InvalidConfiguration | InvalidGoalRunId
  | ObjectiveTooLong | StoredUnreadable

datatype create_outcome =
    CreatedGoal goal_state controller_start
  | ExistingGoal goal_state "controller_start option"
  | ConflictingGoal "goal_state option"
  | RejectedGoal rejection_code

text \<open>The validator a request names: none unless it is an object.\<close>

definition requestedValidator :: "jsval \<Rightarrow> jsval option" where
  "requestedValidator request =
     (let validator = jget request ''validator''
      in if isRecord validator
         then Some (JObj [(lit ''name'', jget validator ''name''), (lit ''version'', jget validator ''version'')])
         else None)"

definition requestInput :: "jsval \<Rightarrow> jstr \<Rightarrow> jstr \<Rightarrow> create_input" where
  "requestInput request goalRunId now =
     \<lparr>ci_goalRunId = goalRunId, ci_identity = jget request ''identity'',
      ci_objective = JObj ([(lit ''agentName'', jget request ''agentName''), (lit ''prompt'', jget request ''prompt'')]
        @ (if jget request ''instructions'' = JUndef then []
           else [(lit ''instructions'', jget request ''instructions'')])),
      ci_validator = withDefault (jget request ''validator'') (requestedValidator request),
      ci_requireDeterministicValidation = jget request ''requireDeterministicValidation'',
      ci_validatorTimeoutMs = jget request ''validatorTimeoutMs'',
      ci_conversationPolicy = (if jget request ''conversationPolicy'' = JUndef
        then JObj [(lit ''kind'', JStr (lit ''continue''))] else jget request ''conversationPolicy''),
      ci_retryPolicy = jget request ''retryPolicy'', ci_bounds = jget request ''bounds'',
      ci_principal = jget request ''principal'', ci_now = JStr now\<rparr>"

text \<open>A creation error is a rejection to correct, but for the \<open>TypeError\<close>, which is thrown on.\<close>

fun rejectionFor :: "create_error \<Rightarrow> rejection_code option" where
  "rejectionFor (ObjectiveTooLarge bytes) = Some ObjectiveTooLong"
| "rejectionFor (RunIdFault e) = Some InvalidGoalRunId"
| "rejectionFor (ConfigurationFault e) = Some InvalidConfiguration"
| "rejectionFor (InvalidGoalState defect) = Some InvalidConfiguration"
| "rejectionFor TypeFault = None"

subsection \<open>The steps of a creation\<close>

definition repeatOf :: "jsval \<Rightarrow> goal_state \<Rightarrow> goal_state \<Rightarrow> create_outcome host_program" where
  "repeatOf request existing state =
     (if configurationOf existing \<noteq> configurationOf state then
        Ret (ConflictingGoal
          (if principalAllows (asOption asString (jget request ''principal'')) (s_principal existing)
           then Some existing else None))
      else if isTerminalStatus (s_status existing) then Ret (ExistingGoal existing None)
      else bindE (askFlag IsClosing) (\<lambda>closing.
        if closing then Ret (ExistingGoal existing (Some ControllerStartFailed))
        else bindE (ensureController existing) (\<lambda>(goal, start). Ret (ExistingGoal goal (Some start)))))"

text \<open>The new record is written, and only then its controller is started.\<close>

definition writeNew :: "jsval \<Rightarrow> goal_state \<Rightarrow> create_outcome host_program" where
  "writeNew request state =
     bindE (storeCreate state) (\<lambda>created.
       case created of
         DuplicateRecord None \<Rightarrow> Ret (RejectedGoal StoredUnreadable)
       | DuplicateRecord (Some existing) \<Rightarrow> repeatOf request existing state
       | CreationThrew \<Rightarrow> Raise (Fault [])
       | CreatedRecord r \<Rightarrow>
           bindE (askFlag IsClosing) (\<lambda>closing.
             if closing then Ret (CreatedGoal state ControllerStartFailed)
             else bindE (ensureController state) (\<lambda>(goal, start). Ret (CreatedGoal goal start))))"

text \<open>The artifact of a \<open>fresh-from-artifact\<close> policy, checked before anything is written.\<close>

definition artifactRefused :: "jsval \<Rightarrow> bool host_program" where
  "artifactRefused policy =
     (if jget policy ''kind'' \<noteq> JStr (lit ''fresh-from-artifact'') then Ret False
      else bindE clockNow (\<lambda>nowMs.
        catchE (bindE (command (ValidateArtifact (jget policy ''artifact'') nowMs)) (\<lambda>_. Ret False))
          (\<lambda>e. if e = ArtifactFault then Ret True else Raise e)))"

definition admitRequest ::
  "jsval \<Rightarrow> create_error + goal_state \<Rightarrow> create_outcome host_program" where
  "admitRequest request built =
     (let policy = jget request ''conversationPolicy''
      in bindE (artifactRefused policy) (\<lambda>refused.
           if jget policy ''kind'' = JStr (lit ''fork-from-baseline'')
             \<and> jget policy ''throughRun'' \<noteq> JNum (Fin 0) then Ret (RejectedGoal InvalidConfiguration)
           else case built of
               Inl e \<Rightarrow>
                 if refused then Ret (RejectedGoal InvalidConfiguration)
                 else (case rejectionFor e of
                     Some code \<Rightarrow> Ret (RejectedGoal code)
                   | None \<Rightarrow> Raise (Fault []))
             | Inr state \<Rightarrow>
                 if refused then Ret (RejectedGoal InvalidConfiguration) else writeNew request state))"

text \<open>What the bureau can do today: only a new record asks.\<close>

definition checkCapabilities ::
  "jsval \<Rightarrow> create_error + goal_state \<Rightarrow> create_outcome host_program" where
  "checkCapabilities request built =
     bindE (askFlag IsClosing) (\<lambda>closing.
       if closing then Ret (RejectedGoal ShutdownBegun)
       else bindE (askFlag HasEngine) (\<lambda>engine.
         if \<not> engine then Ret (RejectedGoal DurableUnavailable)
         else if \<not> isString (jget request ''agentName'') then Ret (RejectedGoal InvalidConfiguration)
         else bindE (planAgent (asString (jget request ''agentName''))) (\<lambda>plan.
           case plan of
             None \<Rightarrow> Ret (RejectedGoal AgentNotFound)
           | Some durable \<Rightarrow>
               if \<not> durable then Ret (RejectedGoal AgentNotDurable)
               else (case requestedValidator request of
                   None \<Rightarrow> Ret (RejectedGoal InvalidConfiguration)
                 | Some validator \<Rightarrow> bindE (catalogResolve validator) (\<lambda>resolution.
                     case resolution of
                       ValidatorFound \<Rightarrow> admitRequest request built
                     | ValidatorMissing \<Rightarrow> Ret (RejectedGoal ValidatorUnregistered)
                     | ValidatorVersions versions \<Rightarrow> Ret (RejectedGoal (ValidatorVersionMismatch versions)))))))"

definition createGoal :: "platform \<Rightarrow> jsval \<Rightarrow> create_outcome host_program" where
  "createGoal p request =
     (let named = jget request ''goalRunId''
      in if \<not> isRecord request then Ret (RejectedGoal InvalidConfiguration)
         else if named \<noteq> JUndef \<and> \<not> isString named then Ret (RejectedGoal InvalidGoalRunId)
         else bindE (if named = JUndef then nextGoalRunId else Ret (asString named)) (\<lambda>goalRunId.
           bindE clockNowIso (\<lambda>now.
             (let built = createGoalState p (requestInput request goalRunId now)
              in case (named, built) of
                  (JStr _, Inr state) \<Rightarrow>
                    bindE (storeGet goalRunId) (\<lambda>stored.
                      case stored of
                        Some existing \<Rightarrow> repeatOf request existing state
                      | None \<Rightarrow> bindE (storeIsUnreadable goalRunId) (\<lambda>unreadable.
                          if unreadable then Ret (RejectedGoal StoredUnreadable)
                          else checkCapabilities request built))
                | _ \<Rightarrow> checkCapabilities request built))))"

end
