(* ===== verification/FacadeLaws.thy ===== *)
theory FacadeLaws
  imports GoalFacade RecoveryAnswers "HOL-Library.Multiset"
begin

section \<open>What the control plane promises a caller\<close>

text \<open>
  A goal is answered closed only over an ending that was settled; a caller is told nothing of a goal it
  does not own; and recovery never rejects.
\<close>

subsection \<open>An ending that leaves nothing running\<close>

definition runStopped :: "(control_operation, control_answer) trace \<Rightarrow> jstr \<Rightarrow> bool" where
  "runStopped t runId \<longleftrightarrow>
     (\<exists>w. (EngineGet runId, WorkflowAnswer w) \<in> set t \<and> pred_option (\<lambda>w. isTerminalController (wr_status w)) w)
     \<or> (\<exists>outcome. (CancelRun runId, StopAnswer outcome) \<in> set t \<and> outcome \<notin> {StopFailed, StopUnsupported})"

lemma runStopped_append [simp]: "runStopped (s @ t) runId \<longleftrightarrow> runStopped s runId \<or> runStopped t runId"
  by (auto simp: runStopped_def)

definition endingSettled :: "goal_state \<Rightarrow> (control_operation, control_answer) trace \<Rightarrow> bool" where
  "endingSettled m t \<longleftrightarrow>
     (s_status m = Canceled \<longrightarrow>
        (\<exists>before settled after goal. t = settled @ after \<and> cancellationAnswered (s_goalRunId m) before goal settled))
     \<and> (mayHaveOvertakenAStart m \<and> s_status m \<noteq> Canceled \<longrightarrow>
        list_all (fencedIn m t) (attemptIndexesToStop m) \<and> list_all (runStopped t) (runsToStop m))"

lemma endingSettled_append: "endingSettled m t \<Longrightarrow> endingSettled m (t @ s)"
  unfolding endingSettled_def by (fastforce simp: list_all_iff)

lemma stopOvertakenRun_law:
  "ensures (control_fits p) (stopOvertakenRun runId) tr
     (\<lambda>t result. \<exists>s. t = tr @ s \<and> (result = Inr () \<longrightarrow> runStopped s runId))"
  unfolding stopOvertakenRun_def by (auto simp: control_steps runStopped_def)

lemma stopOvertakenRuns_law:
  "ensures (control_fits p) (stopOvertakenRuns r) tr
     (\<lambda>t result. \<exists>s. t = tr @ s \<and> (\<forall>entry. result = Inr entry \<longrightarrow> re_outcome entry \<noteq> RcCleanupPending \<longrightarrow>
        list_all (fencedIn r s) (attemptIndexesToStop r) \<and> list_all (runStopped s) (runsToStop r)))"
  (is "ensures _ _ _ ?Q")
proof -
  define stopAll where "stopAll fenced =
    bindE (foldE (\<lambda>runId allStopped.
        catchE (bindE (stopOvertakenRun runId) (\<lambda>_. Ret allStopped)) (\<lambda>_. Ret False)) (runsToStop r) fenced)
      (\<lambda>clean. Ret (entryOf (s_goalRunId r) (if clean then RcAlreadyTerminal else RcCleanupPending)))" for fenced
  have loop: "ensures (control_fits p) (stopAll fenced) t ?Q"
    if f: "stops_law r (tr @ [(HasEngine, FlagAnswer True)]) t (Inr fenced)" for t fenced
    unfolding stopAll_def
  proof (rule ensures_bindI [where P = "\<lambda>t result. \<exists>s clean. t = tr @ s \<and> result = Inr clean
      \<and> (clean \<longrightarrow> list_all (fencedIn r s) (attemptIndexesToStop r) \<and> list_all (runStopped s) (runsToStop r))"])
    show "ensures (control_fits p) (foldE (\<lambda>runId allStopped.
        catchE (bindE (stopOvertakenRun runId) (\<lambda>_. Ret allStopped)) (\<lambda>_. Ret False)) (runsToStop r) fenced) t
      (\<lambda>t result. \<exists>s clean. t = tr @ s \<and> result = Inr clean
        \<and> (clean \<longrightarrow> list_all (fencedIn r s) (attemptIndexesToStop r) \<and> list_all (runStopped s) (runsToStop r)))"
    proof (rule ensures_fold [where I = "\<lambda>before t clean. \<exists>s. t = tr @ s
        \<and> (clean \<longrightarrow> list_all (fencedIn r s) (attemptIndexesToStop r) \<and> list_all (runStopped s) before)"])
      show "\<exists>s. t = tr @ s \<and> (fenced \<longrightarrow> list_all (fencedIn r s) (attemptIndexesToStop r) \<and> list_all (runStopped s) [])"
        using f by (auto simp: stops_law_def list_all_iff fencedIn_def)
    next
      fix before runId rest t' clean
      assume "\<exists>s. t' = tr @ s \<and> (clean \<longrightarrow> list_all (fencedIn r s) (attemptIndexesToStop r) \<and> list_all (runStopped s) before)"
      then obtain s where s: "t' = tr @ s"
        "clean \<longrightarrow> list_all (fencedIn r s) (attemptIndexesToStop r) \<and> list_all (runStopped s) before" by blast
      show "ensures (control_fits p) (catchE (bindE (stopOvertakenRun runId) (\<lambda>_. Ret clean)) (\<lambda>_. Ret False)) t'
        (\<lambda>t'' result. case result of Inl e \<Rightarrow> \<exists>s clean. t'' = tr @ s \<and> Inl e = Inr clean
            \<and> (clean \<longrightarrow> list_all (fencedIn r s) (attemptIndexesToStop r) \<and> list_all (runStopped s) (runsToStop r))
          | Inr clean \<Rightarrow> \<exists>s. t'' = tr @ s
            \<and> (clean \<longrightarrow> list_all (fencedIn r s) (attemptIndexesToStop r) \<and> list_all (runStopped s) (before @ [runId])))"
        unfolding ensures_catch ensures_bind
        by (rule ensures_mono [OF stopOvertakenRun_law]) (use s in \<open>auto simp: list_all_iff split: sum.split\<close>)
    qed auto
  qed (auto simp: entryOf_def)
  define stopThem where "stopThem = bindE (fenceOvertakenAttempts r) stopAll"
  have "ensures (control_fits p) stopThem (tr @ [(HasEngine, FlagAnswer True)]) ?Q"
    unfolding stopThem_def
    by (rule ensures_bindI [OF fenceOvertaken_law]) (use loop in \<open>auto simp: stops_law_def\<close>)
  then show ?thesis
    unfolding stopOvertakenRuns_def stopAll_def [symmetric] stopThem_def [symmetric]
    by (auto simp: control_steps entryOf_def)
qed

text \<open>What a settlement of a canceled goal can answer.\<close>

fun settlesCanceled :: "cancel_outcome \<Rightarrow> bool" where
  "settlesCanceled (CancelAlreadyTerminal goal) \<longleftrightarrow> False"
| "settlesCanceled (CancelContended goal) \<longleftrightarrow> False"
| "settlesCanceled _ \<longleftrightarrow> True"

lemma ensures_after:
  assumes "\<And>t x. ensures fits (f x) t Q" "\<And>t e. Q t (Inl e)"
  shows "ensures fits (bindE m f) tr Q"
  by (rule ensures_bindI [where P = "\<lambda>_ _. True"]) (use assms in simp_all)

lemma settleCanceledGoal_answers:
  "ensures (control_fits p) (settleCanceledGoal m scoped) tr
     (\<lambda>t result. \<forall>outcome. result = Inr outcome \<longrightarrow> settlesCanceled outcome)"
proof -
  have "ensures (control_fits p) (readBack g runIds scoped fenced) t
     (\<lambda>t result. \<forall>outcome. result = Inr outcome \<longrightarrow> settlesCanceled outcome)" for g runIds fenced t
    unfolding readBack_def
    by (auto simp: Let_def simp del: ensures_bind intro!: ensures_after split: option.split)
  then show ?thesis
    unfolding settleCanceledGoal_def Let_def
    by (auto simp del: ensures_bind intro!: ensures_after)
qed

lemma settleBeforeClosing_law:
  "ensures (control_fits p) (settleBeforeClosing m who) tr (\<lambda>t result. result = Inr None \<longrightarrow> endingSettled m t)"
proof (cases "s_status m = Canceled")
  case True
  have both: "ensures (control_fits p) (settleCanceledGoal m (who \<noteq> None)) tr
     (\<lambda>t result. cancel_law (s_goalRunId m) tr t result \<and> (\<forall>outcome. result = Inr outcome \<longrightarrow> settlesCanceled outcome))"
    using settle_law [OF True] settleCanceledGoal_answers by (simp add: ensures_conj)
  have ended: "endingSettled m t"
    if "cancel_law (s_goalRunId m) tr t (Inr (CancelDone goal))" for t goal
    using that True unfolding endingSettled_def cancel_law_def by simp (metis append_Nil2)
  have "ensures (control_fits p) (bindE (settleCanceledGoal m (who \<noteq> None)) (\<lambda>settled.
          Ret (case settled of
              CancelNotFound \<Rightarrow> Some CloseNotFound
            | CancelUnreadable \<Rightarrow> Some CloseUnreadable
            | CancelPending goal awaiting \<Rightarrow> Some (CloseCancellationPending goal awaiting)
            | _ \<Rightarrow> None))) tr (\<lambda>t result. result = Inr None \<longrightarrow> endingSettled m t)"
    by (rule ensures_bindI [OF both]) (use ended in \<open>auto split: cancel_outcome.split\<close>)
  with True show ?thesis by (simp add: settleBeforeClosing_def)
next
  case False
  show ?thesis
  proof (cases "mayHaveOvertakenAStart m")
    case True
    have "ensures (control_fits p) (bindE (stopOvertakenRuns m) (\<lambda>stopped.
          Ret (if re_outcome stopped = RcCleanupPending then Some (CloseCleanupPending m) else None))) tr
       (\<lambda>t result. result = Inr None \<longrightarrow> endingSettled m t)"
      by (rule ensures_bindI [OF stopOvertakenRuns_law])
        (use False True in \<open>auto simp: endingSettled_def list_all_iff split: if_splits\<close>)
    with True False show ?thesis by (simp add: settleBeforeClosing_def)
  next
    case over: False
    then show ?thesis using False by (simp add: settleBeforeClosing_def endingSettled_def)
  qed
qed

subsection \<open>A closure\<close>

lemma finishClosure_law:
  "ensures (control_fits p) (finishClosure r who) tr
     (\<lambda>t result. (\<exists>s. t = tr @ s) \<and> (\<forall>goal cleanup. result = Inr (Closed goal cleanup) \<longrightarrow> isCleanupDone cleanup \<longrightarrow>
        s_cleanedUpAt goal \<noteq> None \<and> list_all (historyDone t) (goalHistories r)))"
  unfolding finishClosure_def
proof (rule ensures_bindI [OF ensures_conj [OF cleanUpGoal_law ensures_suffix]])
  fix t and cleanup :: cleanup_acknowledgement
  assume c: "(\<forall>c. Inr cleanup = Inr c \<longrightarrow> isCleanupDone c \<longrightarrow> list_all (historyDone t) (goalHistories r))
    \<and> (\<exists>s. t = tr @ s)"
  have marked: "s_cleanedUpAt u \<noteq> None"
    if "control_answered g (evaluateCleanedUp now) (Answer (Updated u)) \<or> control_answered g (evaluateCleanedUp now) (Answer (Unchanged u))"
    for g now u
    using that by (auto simp: control_answered_def evaluateCleanedUp_def split: if_splits)
  show "ensures (control_fits p) (if \<not> isCleanupDone cleanup \<or> s_cleanedUpAt r \<noteq> None then Ret (Closed r cleanup)
      else bindE clockNowIso (\<lambda>now.
        bindE (storeControl (StoreMarkCleanedUp (s_goalRunId r) now)) (\<lambda>marked.
          case marked of
             Answer (Updated r) \<Rightarrow> Ret (Closed r cleanup)
           | Answer (Unchanged r) \<Rightarrow> Ret (Closed r cleanup)
           | Missing \<Rightarrow> Ret CloseNotFound
           | Corrupt \<Rightarrow> Ret (closeCorrupt who)
           | Answer (Refused reason r) \<Rightarrow> Ret (CloseCleanupPending r)
           | Answer (ControlStale r) \<Rightarrow> Ret (CloseCleanupPending r)
           | Thrown \<Rightarrow> Raise (Fault [])))) t
     (\<lambda>t result. (\<exists>s. t = tr @ s) \<and> (\<forall>goal cleanup. result = Inr (Closed goal cleanup) \<longrightarrow> isCleanupDone cleanup \<longrightarrow>
        s_cleanedUpAt goal \<noteq> None \<and> list_all (historyDone t) (goalHistories r)))"
    using c marked
    by (auto simp: control_steps closeCorrupt_def list_all_iff split: mutation.split control_result.split)
qed auto

text \<open>
  What a trace shows of a goal answered closed: the store accepted the close of an ended record, and an
  ending of the goal (the one the call read first, or the one it closed over) was settled.
\<close>

definition closureShown :: "jstr \<Rightarrow> (control_operation, control_answer) trace \<Rightarrow> goal_state \<Rightarrow> bool" where
  "closureShown g t r \<longleftrightarrow>
     isTerminalStatus (s_status r) \<and> s_closedAt r \<noteq> None \<and> s_goalRunId r = g
     \<and> (\<exists>now. (StoreClose g now, ControlAnswer (Answer (Updated r))) \<in> set t
          \<or> (StoreClose g now, ControlAnswer (Answer (Unchanged r))) \<in> set t)
     \<and> (\<exists>m. isTerminalStatus (s_status m) \<and> endingSettled m t
          \<and> (m = r \<or> (\<exists>rest. t = (StoreGet g, RecordAnswer (Some m)) # rest)))"

definition close_law :: "jstr \<Rightarrow> (control_operation, control_answer) trace \<Rightarrow> fault + close_outcome \<Rightarrow> bool" where
  "close_law g t result \<longleftrightarrow>
     (\<forall>goal cleanup. result = Inr (Closed goal cleanup) \<longrightarrow>
        (\<exists>r. closureShown g t r
           \<and> (isCleanupDone cleanup \<longrightarrow> s_cleanedUpAt goal \<noteq> None \<and> list_all (historyDone t) (goalHistories r))))"

lemma close_answered:
  assumes "control_answered g (evaluateClose now) (Answer a)" "a = Updated r \<or> a = Unchanged r"
  shows "isTerminalStatus (s_status r) \<and> s_closedAt r \<noteq> None \<and> s_goalRunId r = g"
  using assms by (auto simp: control_answered_def evaluateClose_def split: if_splits)

lemma settled_suffix:
  "ensures (control_fits p) (settleBeforeClosing m who) tr
     (\<lambda>t result. (result = Inr None \<longrightarrow> endingSettled m t) \<and> (\<exists>s. t = tr @ s))"
  by (rule ensures_conj [OF settleBeforeClosing_law ensures_suffix])

lemma not_closed:
  "ensures (control_fits p) (settleBeforeClosing m who) tr
     (\<lambda>t result. \<forall>outcome. result = Inr (Some outcome) \<longrightarrow> (\<forall>goal cleanup. outcome \<noteq> Closed goal cleanup))"
  unfolding settleBeforeClosing_def
  by (auto simp del: ensures_bind intro!: ensures_after split: cancel_outcome.split)

lemma afterClose_law:
  assumes "a = Updated r \<or> a = Unchanged r" "control_answered g (evaluateClose now) (Answer a)"
    and "(StoreClose g now, ControlAnswer (Answer a)) \<in> set tr"
    and "\<not> wasLive \<Longrightarrow> \<exists>m rest. isTerminalStatus (s_status m) \<and> endingSettled m tr
      \<and> tr = (StoreGet g, RecordAnswer (Some m)) # rest"
  shows "ensures (control_fits p) (afterClose wasLive r who) tr (close_law g)"
  unfolding afterClose_def
proof (rule ensures_bindI [where P = "\<lambda>t result. (\<exists>s. t = tr @ s)
    \<and> (result = Inr None \<longrightarrow> (\<exists>m. isTerminalStatus (s_status m) \<and> endingSettled m t
          \<and> (m = r \<or> (\<exists>rest. t = (StoreGet g, RecordAnswer (Some m)) # rest))))
    \<and> (\<forall>outcome. result = Inr (Some outcome) \<longrightarrow> (\<forall>goal cleanup. outcome \<noteq> Closed goal cleanup))"], goal_cases)
  case 1
  have ended: "isTerminalStatus (s_status r)" using close_answered [OF assms(2,1)] by blast
  show ?case
  proof (cases wasLive)
    case True
    have "ensures (control_fits p) (settleBeforeClosing r who) tr (\<lambda>t result. (\<exists>s. t = tr @ s)
      \<and> (result = Inr None \<longrightarrow> (\<exists>m. isTerminalStatus (s_status m) \<and> endingSettled m t
          \<and> (m = r \<or> (\<exists>rest. t = (StoreGet g, RecordAnswer (Some m)) # rest))))
      \<and> (\<forall>outcome. result = Inr (Some outcome) \<longrightarrow> (\<forall>goal cleanup. outcome \<noteq> Closed goal cleanup)))"
      by (rule ensures_mono [OF ensures_conj [OF settled_suffix not_closed]]) (use ended in blast)
    then show ?thesis using True by simp
  next
    case False
    with assms(4) show ?thesis by auto
  qed
next
  case (2 t unsettled)
  show ?case
  proof (cases unsettled)
    case None
    obtain s m where s: "t = tr @ s" and m: "isTerminalStatus (s_status m)" "endingSettled m t"
      "m = r \<or> (\<exists>rest. t = (StoreGet g, RecordAnswer (Some m)) # rest)"
      using 2 None by auto
    have closed: "(StoreClose g now, ControlAnswer (Answer (Updated r))) \<in> set (t @ u)
        \<or> (StoreClose g now, ControlAnswer (Answer (Unchanged r))) \<in> set (t @ u)" for u
      using assms(1,3) s by auto
    have first: "endingSettled m (t @ u)" "m = r \<or> (\<exists>rest. t @ u = (StoreGet g, RecordAnswer (Some m)) # rest)" for u
      using endingSettled_append [OF m(2)] m(3) by auto
    have "closureShown g (t @ u) r" for u
      unfolding closureShown_def using close_answered [OF assms(2,1)] closed [of u] m(1) first [of u] by blast
    then show ?thesis
      unfolding None option.case
      by (intro ensures_mono [OF finishClosure_law]) (auto simp: close_law_def)
  next
    case (Some outcome)
    with 2 show ?thesis by (simp add: close_law_def)
  qed
next
  case (3 t e)
  show ?case by (simp add: close_law_def)
qed

lemma closeOne_law: "ensures (control_fits p) (closeOne g who) [] (close_law g)"
proof -
  define rest where "rest live = (\<lambda>reply. case reply of
       Answer (Updated r) \<Rightarrow> afterClose live r who
     | Answer (Unchanged r) \<Rightarrow> afterClose live r who
     | Answer (Refused reason r) \<Rightarrow> Ret (CloseNotTerminal r)
     | Answer (ControlStale r) \<Rightarrow> Ret (CloseContended r)
     | Corrupt \<Rightarrow> Ret (closeCorrupt who)
     | Missing \<Rightarrow> Ret CloseNotFound
     | Thrown \<Rightarrow> Raise (Fault []))" for live
  have reply: "ensures (control_fits p) (rest live x) (tr @ [(StoreClose g now, ControlAnswer x)]) (close_law g)"
    if x: "control_answered g (evaluateClose now) x" and seen: "\<not> live \<Longrightarrow> \<exists>m rest. isTerminalStatus (s_status m)
        \<and> endingSettled m tr \<and> tr = (StoreGet g, RecordAnswer (Some m)) # rest" for live x tr now
  proof -
    have seen': "\<not> live \<Longrightarrow> \<exists>m rest. isTerminalStatus (s_status m) \<and> endingSettled m (tr @ [e])
        \<and> tr @ [e] = (StoreGet g, RecordAnswer (Some m)) # rest" for e
      using seen endingSettled_append by fastforce
    show ?thesis
    proof (cases x)
      case (Answer a)
      show ?thesis
        using x seen' afterClose_law [of a _ g now "tr @ [(StoreClose g now, ControlAnswer x)]" live p who]
        by (cases a) (auto simp: rest_def Answer close_law_def)
    qed (auto simp: rest_def close_law_def closeCorrupt_def)
  qed
  have go: "ensures (control_fits p) (bindE clockNowIso (\<lambda>now. bindE (storeControl (StoreClose g now)) (rest live)))
      tr (close_law g)"
    if "\<not> live \<Longrightarrow> \<exists>m rest. isTerminalStatus (s_status m) \<and> endingSettled m tr
        \<and> tr = (StoreGet g, RecordAnswer (Some m)) # rest" for live tr
  proof -
    have "\<not> live \<Longrightarrow> \<exists>m rest. isTerminalStatus (s_status m) \<and> endingSettled m (tr @ [e])
        \<and> tr @ [e] = (StoreGet g, RecordAnswer (Some m)) # rest" for e
      using that endingSettled_append by fastforce
    then have "control_answered g (evaluateClose now) x \<Longrightarrow>
        ensures (control_fits p) (rest live x) (tr @ [(ClockNowIso, StampAnswer now), (StoreClose g now, ControlAnswer x)])
          (close_law g)" for now x
      using reply [of now x live "tr @ [(ClockNowIso, StampAnswer now)]"] by simp
    then show ?thesis by (auto simp: control_steps close_law_def)
  qed
  define attempt where "attempt found = bindE (settleBeforeClosing found who) (\<lambda>unsettled.
      case unsettled of
        Some outcome \<Rightarrow> Ret outcome
      | None \<Rightarrow> bindE clockNowIso (\<lambda>now. bindE (storeControl (StoreClose g now))
          (rest (\<not> isTerminalStatus (s_status found)))))" for found
  have "ensures (control_fits p) (attempt found) [(StoreGet g, RecordAnswer (Some found))] (close_law g)" for found
    unfolding attempt_def
  proof (rule ensures_bindI [OF ensures_conj [OF settled_suffix not_closed]], goal_cases)
    case (1 t unsettled)
    then show ?case
    proof (cases unsettled)
      case None
      have "ensures (control_fits p) (bindE clockNowIso (\<lambda>now. bindE (storeControl (StoreClose g now))
          (rest (\<not> isTerminalStatus (s_status found))))) t (close_law g)"
        by (rule go) (use 1 None in auto)
      then show ?thesis by (simp only: None option.case)
    qed (simp add: close_law_def)
  qed (simp add: close_law_def)
  then show ?thesis
    unfolding closeOne_def authorized_def rest_def [symmetric] attempt_def [symmetric] absent_def
    by (auto simp: control_steps close_law_def closeAbsence_def split: option.split)
qed

subsection \<open>Nothing of another's goal\<close>

text \<open>What a caller with a principal reads of a goal that is not there, or is another's.\<close>

abbreviation invisible :: "jstr \<Rightarrow> goal_state option \<Rightarrow> bool" where
  "invisible who x \<equiv> pred_option (\<lambda>r. \<not> principalAllows (Some who) (s_principal r)) x"

lemma authorized_invisible:
  assumes "invisible who x"
  shows "runs fits (bindE (authorized g (Some who)) f) ((StoreGet g, RecordAnswer x) # t) result \<longleftrightarrow>
    fits (StoreGet g) (RecordAnswer x) \<and> runs fits (f None) t result"
  using assms by (cases x) (auto simp: authorized_def storeGet_def perform_def)

lemma authorized_caught:
  assumes "invisible who x"
  shows "runs fits (catchE (bindE (authorized g (Some who)) f) h) ((StoreGet g, RecordAnswer x) # t) result \<longleftrightarrow>
    fits (StoreGet g) (RecordAnswer x) \<and> runs fits (catchE (f None) h) t result"
  using assms by (cases x) (auto simp: authorized_def storeGet_def perform_def)

lemma recoverOne_report:
  "ensures (control_fits p) (recoverOne g who) tr
     (\<lambda>t result. \<exists>report. result = Inr report \<and> length (rp_goals report) + length (rp_failures report) = 1)"
proof -
  have "ensures (control_fits p) (bindE (authorized g who) (\<lambda>found.
          case found of
            None \<Rightarrow> bindE (absent g who) (\<lambda>gone.
              Ret \<lparr>rp_goals = [entryOf g (if gone = RecordUnreadable then RcUnrecoverable else RcNotFound)],
                   rp_failures = []\<rparr>)
          | Some record \<Rightarrow> bindE (recoverGoal g) (\<lambda>entry. Ret \<lparr>rp_goals = [entry], rp_failures = []\<rparr>))) tr
     (\<lambda>t result. \<forall>report. result = Inr report \<longrightarrow> length (rp_goals report) + length (rp_failures report) = 1)"
    by (auto simp del: ensures_bind intro!: ensures_after split: option.split)
  then show ?thesis
    unfolding recoverOne_def ensures_catch
    by (rule ensures_mono) (auto split: sum.split)
qed

subsection \<open>The order of a list\<close>

lemma insertSorted_mset [simp]: "mset (insertSorted before x xs) = add_mset x (mset xs)"
  by (induction xs) auto

lemma toSorted_mset: "mset (toSorted before xs) = mset xs"
  by (induction xs) (simp_all add: toSorted_def)

lemma insertSorted_sorted:
  assumes "\<And>a b. before a b \<or> before b a" "\<And>a b c. before a b \<Longrightarrow> before b c \<Longrightarrow> before a c"
    and "sorted_wrt before xs"
  shows "sorted_wrt before (insertSorted before x xs)"
  using assms(3)
proof (induction xs)
  case (Cons y ys)
  have members: "set (insertSorted before x ys) = insert x (set ys)"
    using insertSorted_mset [of before x ys] by (metis set_mset_mset set_mset_add_mset_insert)
  show ?case using Cons assms(1,2) members by auto
qed simp

lemma toSorted_sorted:
  assumes "\<And>a b. before a b \<or> before b a" "\<And>a b c. before a b \<Longrightarrow> before b c \<Longrightarrow> before a c"
  shows "sorted_wrt before (toSorted before xs)"
proof (induction xs)
  case (Cons x xs)
  then show ?case using insertSorted_sorted [OF assms] by (simp add: toSorted_def)
qed (simp add: toSorted_def)

subsection \<open>The properties\<close>


text \<open>
  \<^bold>\<open>C10\<close> A caller with a principal learns nothing of a goal it does not own: reading its work, cancelling,
  closing or recovering it answers exactly what it answers of a goal that does not exist, after the one
  read that decided so, with nothing written, signalled or stopped.
\<close>

theorem facade_isolation:
  assumes "invisible who x" "control_fits p (StoreGet g) (RecordAnswer x)"
    and "jget given ''principal'' = JStr who"
  shows "(runs (control_fits p) (activeWork g (Some who)) ((StoreGet g, RecordAnswer x) # t) r1
        \<longleftrightarrow> t = [] \<and> r1 = Inr None)
    \<and> (runs (control_fits p) (cancelOne g given) ((StoreGet g, RecordAnswer x) # t) r2
        \<longleftrightarrow> t = [] \<and> r2 = Inr CancelNotFound)
    \<and> (runs (control_fits p) (closeOne g (Some who)) ((StoreGet g, RecordAnswer x) # t) r3
        \<longleftrightarrow> t = [] \<and> r3 = Inr CloseNotFound)
    \<and> (runs (control_fits p) (recoverOne g (Some who)) ((StoreGet g, RecordAnswer x) # t) r4
        \<longleftrightarrow> t = [] \<and> r4 = Inr \<lparr>rp_goals = [entryOf g RcNotFound], rp_failures = []\<rparr>)"
proof -
  note d = authorized_invisible [OF assms(1)] authorized_caught [OF assms(1)]
  have "runs (control_fits p) (activeWork g (Some who)) ((StoreGet g, RecordAnswer x) # t) r1
      \<longleftrightarrow> t = [] \<and> r1 = Inr None"
    using assms(2) by (auto simp: activeWork_def d)
  moreover have "runs (control_fits p) (cancelOne g given) ((StoreGet g, RecordAnswer x) # t) r2
      \<longleftrightarrow> t = [] \<and> r2 = Inr CancelNotFound"
    using assms(2,3) by (auto simp: cancelOne_def Let_def d absent_def)
  moreover have "runs (control_fits p) (closeOne g (Some who)) ((StoreGet g, RecordAnswer x) # t) r3
      \<longleftrightarrow> t = [] \<and> r3 = Inr CloseNotFound"
    using assms(2) by (auto simp: closeOne_def d absent_def closeAbsence_def)
  moreover have "runs (control_fits p) (recoverOne g (Some who)) ((StoreGet g, RecordAnswer x) # t) r4
      \<longleftrightarrow> t = [] \<and> r4 = Inr \<lparr>rp_goals = [entryOf g RcNotFound], rp_failures = []\<rparr>"
    using assms(2) by (auto simp: recoverOne_def d absent_def)
  ultimately show ?thesis by blast
qed

text \<open>
  Recovering one goal never rejects: whatever happens to it, the report has exactly one line, an
  entry or a failure.
\<close>

theorem recoverOne_total:
  assumes "runs (control_fits p) (recoverOne g who) t result"
  shows "\<exists>report. result = Inr report \<and> length (rp_goals report) + length (rp_failures report) = 1"
  using ensuresD [OF recoverOne_report assms] .

end
