(* ===== verification/RequestLaws.thy ===== *)
theory RequestLaws
  imports GoalRequests FacadeLaws ControlLaws
begin

section \<open>What creating a goal promises\<close>

text \<open>
  A request writes at most one record, only once every check of the bureau passed, and its answer says
  what was written; a controller is started only for a record this call wrote, or one stored under the
  id with the same configuration. The configuration does not depend on the order members are listed in.
\<close>

subsection \<open>The operations that change something\<close>

fun createsRecord :: "control_operation \<Rightarrow> bool" where
  "createsRecord (StoreCreate s) \<longleftrightarrow> True"
| "createsRecord _ \<longleftrightarrow> False"

fun endsRecord :: "control_operation \<Rightarrow> bool" where
  "endsRecord (StoreApplyTransition rq) \<longleftrightarrow> True"
| "endsRecord _ \<longleftrightarrow> False"

definition acts :: "control_operation \<Rightarrow> bool" where
  "acts op \<longleftrightarrow> createsRecord op \<or> startsController op \<or> endsRecord op"

abbreviation quiet :: "(control_operation, control_answer) trace \<Rightarrow> bool" where
  "quiet \<equiv> list_all (\<lambda>e. \<not> acts (fst e))"

abbreviation uncreated :: "(control_operation, control_answer) trace \<Rightarrow> bool" where
  "uncreated \<equiv> list_all (\<lambda>e. \<not> createsRecord (fst e))"

lemma acts_simps [simp]:
  "\<not> acts (StoreGet g)" "\<not> acts (StoreIsUnreadable g)" "\<not> acts ClockNow" "\<not> acts ClockNowIso"
  "\<not> acts IsClosing" "\<not> acts HasEngine" "\<not> acts NextGoalRunId" "\<not> acts (PlanAgent name)"
  "\<not> acts (ResolveValidator v)" "\<not> acts (ValidateArtifact a nowMs)" "acts (StoreCreate s)"
  by (simp_all add: acts_def)

lemma ensureController_uncreated: "performsAtMost createsRecord 0 (ensureController s)"
proof -
  have "performsAtMost createsRecord 0 (enforceDeterminism r)" for r
    by (auto simp: enforceDeterminism_def intro!: never_intros
        split: option.split goal_decision.split mutation.split transition_result.split)
  then show ?thesis
    by (auto simp: ensureController_def startController_def intro!: never_intros split: option.split)
qed

lemma ensured_tail:
  "ensures (control_fits p) (bindE (ensureController s) (\<lambda>(goal, start). Ret (f goal start))) tr
     (\<lambda>t result. \<exists>u. t = tr @ u \<and> uncreated u \<and> (\<forall>outcome. result = Inr outcome \<longrightarrow> (\<exists>goal start. outcome = f goal start)))"
  by (rule ensures_bindI [OF never_ensures [OF ensureController_uncreated]]) (auto, blast)

subsection \<open>A request for an id that is taken\<close>

definition sameConfiguration :: "goal_state \<Rightarrow> goal_state \<Rightarrow> bool" where
  "sameConfiguration existing state \<longleftrightarrow> configurationOf existing = configurationOf state"

text \<open>A repeat is answered \<open>existing\<close> and may start a controller; a conflict does nothing.\<close>

definition repeatedRun ::
  "jsval \<Rightarrow> goal_state \<Rightarrow> goal_state \<Rightarrow> (control_operation, control_answer) trace \<Rightarrow> fault + create_outcome \<Rightarrow> bool" where
  "repeatedRun request existing state u result \<longleftrightarrow>
     uncreated u
     \<and> (if sameConfiguration existing state
        then (\<forall>outcome. result = Inr outcome \<longrightarrow> (\<exists>goal start. outcome = ExistingGoal goal start))
        else u = [] \<and> result = Inr (ConflictingGoal
          (if principalAllows (asOption asString (jget request ''principal'')) (s_principal existing)
           then Some existing else None)))"

lemma repeatOf_law:
  "ensures (control_fits p) (repeatOf request existing state) tr
     (\<lambda>t result. \<exists>u. t = tr @ u \<and> repeatedRun request existing state u result)"
proof -
  define heal where "heal = bindE (ensureController existing) (\<lambda>(goal, start). Ret (ExistingGoal goal (Some start)))"
  have "ensures (control_fits p) heal (tr @ [(IsClosing, FlagAnswer False)])
     (\<lambda>t result. \<exists>u. t = tr @ u \<and> repeatedRun request existing state u result)" if "sameConfiguration existing state"
    unfolding heal_def
    by (rule ensures_mono [OF ensured_tail]) (use that in \<open>fastforce simp: repeatedRun_def\<close>)
  then show ?thesis
    unfolding repeatOf_def heal_def [symmetric]
    by (auto simp: control_steps repeatedRun_def sameConfiguration_def)
qed

subsection \<open>A new record\<close>

definition offerAnswered ::
  "jsval \<Rightarrow> goal_state \<Rightarrow> control_answer \<Rightarrow> (control_operation, control_answer) trace \<Rightarrow> fault + create_outcome \<Rightarrow> bool"
where
  "offerAnswered request state a rest result \<longleftrightarrow>
     (case a of
        CreationAnswer (CreatedRecord r) \<Rightarrow> r = state \<and> uncreated rest
          \<and> (\<forall>outcome. result = Inr outcome \<longrightarrow> (\<exists>goal start. outcome = CreatedGoal goal start))
      | CreationAnswer (DuplicateRecord None) \<Rightarrow> rest = [] \<and> result = Inr (RejectedGoal StoredUnreadable)
      | CreationAnswer (DuplicateRecord (Some existing)) \<Rightarrow>
          s_goalRunId existing = s_goalRunId state \<and> repeatedRun request existing state rest result
      | _ \<Rightarrow> rest = [] \<and> (\<exists>e. result = Inl e))"

definition writtenRun ::
  "jsval \<Rightarrow> goal_state \<Rightarrow> (control_operation, control_answer) trace \<Rightarrow> fault + create_outcome \<Rightarrow> bool" where
  "writtenRun request state u result \<longleftrightarrow>
     (\<exists>a rest. u = (StoreCreate state, a) # rest \<and> offerAnswered request state a rest result)"

lemma writeNew_law:
  "ensures (control_fits p) (writeNew request state) tr (\<lambda>t result. \<exists>u. t = tr @ u \<and> writtenRun request state u result)"
proof -
  let ?Q = "\<lambda>t result. \<exists>u. t = tr @ u \<and> writtenRun request state u result"
  define starting where "starting = bindE (ensureController state) (\<lambda>(goal, start). Ret (CreatedGoal goal start))"
  define again where "again existing = repeatOf request existing state" for existing
  have created: "ensures (control_fits p) starting
      (tr @ [(StoreCreate state, CreationAnswer (CreatedRecord state)), (IsClosing, FlagAnswer False)]) ?Q"
    unfolding starting_def
    by (rule ensures_mono [OF ensured_tail]) (fastforce simp: writtenRun_def offerAnswered_def)
  have taken: "ensures (control_fits p) (again existing)
      (tr @ [(StoreCreate state, CreationAnswer (DuplicateRecord (Some existing)))]) ?Q"
    if "s_goalRunId existing = s_goalRunId state" for existing
    unfolding again_def
    by (rule ensures_mono [OF repeatOf_law]) (use that in \<open>fastforce simp: writtenRun_def offerAnswered_def\<close>)
  show ?thesis
    unfolding writeNew_def starting_def [symmetric] again_def [symmetric]
    using created taken
    by (auto simp: control_steps creation_answered_def writtenRun_def offerAnswered_def split: creation.split option.split)
qed

subsection \<open>The whole call\<close>

abbreviation policyOf :: "jsval \<Rightarrow> jsval" where
  "policyOf request \<equiv> jget request ''conversationPolicy''"

text \<open>What was answered before a new record may be written.\<close>

definition checksPassed :: "jsval \<Rightarrow> (control_operation, control_answer) trace \<Rightarrow> bool" where
  "checksPassed request before \<longleftrightarrow>
     (IsClosing, FlagAnswer False) \<in> set before \<and> (HasEngine, FlagAnswer True) \<in> set before
     \<and> (PlanAgent (asString (jget request ''agentName'')), PlanAnswer (Some True)) \<in> set before
     \<and> (\<exists>v. requestedValidator request = Some v \<and> (ResolveValidator v, ValidatorAnswer ValidatorFound) \<in> set before)"

definition artifactPassed :: "jsval \<Rightarrow> (control_operation, control_answer) trace \<Rightarrow> bool" where
  "artifactPassed policy before \<longleftrightarrow>
     (jget policy ''kind'' = JStr (lit ''fresh-from-artifact'') \<longrightarrow>
        (\<exists>nowMs. (ValidateArtifact (jget policy ''artifact'') nowMs, DoneAnswer) \<in> set before))"

definition describes :: "platform \<Rightarrow> jsval \<Rightarrow> jstr \<Rightarrow> goal_state \<Rightarrow> bool" where
  "describes p request g state \<longleftrightarrow> (\<exists>now. createGoalState p (requestInput request g now) = Inr state)"

fun saysStored :: "create_outcome \<Rightarrow> bool" where
  "saysStored (RejectedGoal code) \<longleftrightarrow> False"
| "saysStored _ \<longleftrightarrow> True"

text \<open>
  How a creation can run: nothing is done and it is rejected; a record stored under the id is compared
  with; or, after every check, a record is offered to the store.
\<close>

definition creationRun ::
  "platform \<Rightarrow> jsval \<Rightarrow> (control_operation, control_answer) trace \<Rightarrow> fault + create_outcome \<Rightarrow> bool" where
  "creationRun p request t result \<longleftrightarrow>
     quiet t \<and> (\<forall>outcome. result = Inr outcome \<longrightarrow> \<not> saysStored outcome)
     \<or> (\<exists>before u g existing state. t = before @ u \<and> quiet before \<and> describes p request g state
          \<and> jget request ''goalRunId'' = JStr g
          \<and> (StoreGet g, RecordAnswer (Some existing)) \<in> set before \<and> repeatedRun request existing state u result)
     \<or> (\<exists>before u g state. t = before @ u \<and> quiet before \<and> describes p request g state
          \<and> checksPassed request before \<and> artifactPassed (policyOf request) before \<and> writtenRun request state u result)"

lemma creationRun_quiet:
  "quiet t \<Longrightarrow> creationRun p request t (Inl e)"
  "quiet t \<Longrightarrow> creationRun p request t (Inr (RejectedGoal code))"
  by (simp_all add: creationRun_def)

lemma artifactRefused_law:
  "ensures (control_fits p) (artifactRefused policy) tr
     (\<lambda>t result. \<exists>s. t = tr @ s \<and> quiet s \<and> (result = Inr False \<longrightarrow> artifactPassed policy s))"
  unfolding artifactRefused_def
  by (auto simp: control_steps artifactPassed_def)

lemma admitRequest_law:
  assumes "built = createGoalState p (requestInput request g now)" "quiet tr" "checksPassed request tr"
  shows "ensures (control_fits p) (admitRequest request built) tr (creationRun p request)"
  unfolding admitRequest_def Let_def
proof (rule ensures_bindI [OF artifactRefused_law], goal_cases)
  case (1 t refused)
  then obtain s where s: "t = tr @ s" "quiet s" "\<not> refused \<longrightarrow> artifactPassed (policyOf request) s" by auto
  have q: "quiet t" using s(1,2) assms(2) by simp
  have offer: "ensures (control_fits p) (writeNew request state) t (creationRun p request)"
    if "built = Inr state" "\<not> refused" for state
  proof (rule ensures_mono [OF writeNew_law])
    fix t' result
    assume "\<exists>u. t' = t @ u \<and> writtenRun request state u result"
    moreover have "describes p request g state" using assms(1) that(1) unfolding describes_def by metis
    moreover have "checksPassed request t" "artifactPassed (policyOf request) t"
      using assms(3) s that(2) by (auto simp: checksPassed_def artifactPassed_def)
    ultimately show "creationRun p request t' result"
      using q unfolding creationRun_def by blast
  qed
  show ?case
    using q offer by (auto simp: creationRun_quiet split: sum.split option.split)
next
  case (2 t e)
  then show ?case using assms(2) by (auto intro: creationRun_quiet)
qed

lemma checkCapabilities_law:
  assumes "built = createGoalState p (requestInput request g now)" "quiet tr"
  shows "ensures (control_fits p) (checkCapabilities request built) tr (creationRun p request)"
proof -
  have admit: "ensures (control_fits p) (admitRequest request built)
      (tr @ [(IsClosing, FlagAnswer False), (HasEngine, FlagAnswer True),
             (PlanAgent (asString (jget request ''agentName'')), PlanAnswer (Some True)),
             (ResolveValidator v, ValidatorAnswer ValidatorFound)]) (creationRun p request)"
    if "requestedValidator request = Some v" for v
    by (rule admitRequest_law [OF assms(1)]) (use assms(2) that in \<open>auto simp: checksPassed_def\<close>)
  show ?thesis
    unfolding checkCapabilities_def
    using admit assms(2)
    by (auto simp: control_steps creationRun_quiet split: option.split validator_resolution.split)
qed

lemma createGoal_law: "ensures (control_fits p) (createGoal p request) [] (creationRun p request)"
proof -
  let ?built = "\<lambda>g now. createGoalState p (requestInput request g now)"
  define check where "check g now = checkCapabilities request (?built g now)" for g now
  define again where "again existing state = repeatOf request existing state" for existing state
  have check: "quiet tr \<Longrightarrow> ensures (control_fits p) (check g now) tr (creationRun p request)" for g now tr
    unfolding check_def by (rule checkCapabilities_law [OF refl])
  have again: "ensures (control_fits p) (again existing state)
      [(ClockNowIso, StampAnswer now), (StoreGet g, RecordAnswer (Some existing))] (creationRun p request)"
    if "?built g now = Inr state" "jget request ''goalRunId'' = JStr g" for existing state g now
    unfolding again_def
  proof (rule ensures_mono [OF repeatOf_law])
    fix t result
    let ?before = "[(ClockNowIso, StampAnswer now), (StoreGet g, RecordAnswer (Some existing))]"
    assume "\<exists>u. t = ?before @ u \<and> repeatedRun request existing state u result"
    moreover have "quiet ?before" "(StoreGet g, RecordAnswer (Some existing)) \<in> set ?before" by simp_all
    moreover have "describes p request g state" using that(1) unfolding describes_def by blast
    ultimately show "creationRun p request t result" using that(2) unfolding creationRun_def by blast
  qed
  show ?thesis
    unfolding createGoal_def Let_def check_def [symmetric] again_def [symmetric]
    using check again
    by (auto simp: control_steps creationRun_quiet split: jsval.split sum.split option.split)
qed

subsection \<open>The order members are listed in\<close>

definition definedMembers :: "(jstr \<times> jsval) list \<Rightarrow> (jstr \<times> jsval) list" where
  "definedMembers fs = filter (\<lambda>(k, v). v \<noteq> JUndef) fs"

text \<open>The same value, its objects listed in any order and with or without \<open>undefined\<close> members.\<close>

inductive reordered :: "jsval \<Rightarrow> jsval \<Rightarrow> bool" where
  same: "reordered v v"
| elements: "list_all2 reordered vs ws \<Longrightarrow> reordered (JArr vs) (JArr ws)"
| members: "distinct (map fst gs) \<Longrightarrow> list_all2 (rel_prod (=) reordered) (definedMembers fs) hs \<Longrightarrow>
    mset hs = mset (definedMembers gs) \<Longrightarrow> reordered (JObj fs) (JObj gs)"

lemma canonicalJson_members:
  "canonicalJson (JObj fs) =
     lit ''{'' @ joined (map (\<lambda>(k, t). quoted k @ lit '':'' @ t)
       (sort_key fst (map (map_prod id canonicalJson) (definedMembers fs)))) @ lit ''}''"
proof -
  have "map snd (filter fst (zip (map (\<lambda>(k, v). v \<noteq> JUndef) fs) (map (map_prod id canonicalJson) fs)))
      = map (map_prod id canonicalJson) (definedMembers fs)"
    by (induction fs) (auto simp: definedMembers_def)
  then show ?thesis by simp
qed

lemma sort_key_mset:
  assumes "mset xs = mset ys" "distinct (map fst ys)"
  shows "sort_key fst xs = sort_key fst ys"
proof (rule sort_key_inj_key_eq)
  show "mset xs = mset (sort_key fst ys)" using assms(1) by simp
  have "set xs = set ys" using assms(1) by (metis set_mset_mset)
  then show "inj_on fst (set xs)" using assms(2) by (simp add: distinct_map)
  show "sorted (map fst (sort_key fst ys))" by simp
qed

lemma canonical_members:
  "list_all2 (rel_prod (=) (\<lambda>v w. canonicalJson v = canonicalJson w)) xs ys \<Longrightarrow>
     map (map_prod id canonicalJson) xs = map (map_prod id canonicalJson) ys"
  by (induction rule: list_all2_induct) auto

lemma canonicalJson_reordered: "reordered v w \<Longrightarrow> canonicalJson v = canonicalJson w"
proof (induction rule: reordered.induct)
  case (elements vs ws)
  then have "map canonicalJson vs = map canonicalJson ws"
    by (auto simp: list_all2_conv_all_nth intro: nth_equalityI)
  then show ?case by (simp only: canonicalJson.simps)
next
  case (members gs fs hs)
  have "list_all2 (rel_prod (=) (\<lambda>v w. canonicalJson v = canonicalJson w)) (definedMembers fs) hs"
    by (rule list_all2_mono [OF members.IH]) (auto elim!: rel_prod.cases)
  then have "map (map_prod id canonicalJson) (definedMembers fs) = map (map_prod id canonicalJson) hs"
    by (rule canonical_members)
  moreover have "mset (map (map_prod id canonicalJson) hs) = mset (map (map_prod id canonicalJson) (definedMembers gs))"
    using members.hyps(2) by simp
  moreover have "distinct (map fst (map (map_prod id canonicalJson) (definedMembers gs)))"
    using members.hyps(1) by (simp add: definedMembers_def comp_def distinct_map_filter)
  ultimately have "sort_key fst (map (map_prod id canonicalJson) (definedMembers fs))
      = sort_key fst (map (map_prod id canonicalJson) (definedMembers gs))"
    by (intro sort_key_mset) (simp_all only:)
  then show ?case unfolding canonicalJson_members by (rule arg_cong)
qed simp

subsection \<open>What each way of running shows\<close>

text \<open>A step is justified by what came before: the offer by the checks, a start by the record.\<close>

definition startShown ::
  "platform \<Rightarrow> jsval \<Rightarrow> (control_operation, control_answer) trace \<Rightarrow> bool" where
  "startShown p request before \<longleftrightarrow>
     (\<exists>g s. describes p request g s
        \<and> ((StoreCreate s, CreationAnswer (CreatedRecord s)) \<in> set before
           \<or> (\<exists>existing. sameConfiguration existing s
               \<and> ((StoreGet g, RecordAnswer (Some existing)) \<in> set before
                  \<or> (StoreCreate s, CreationAnswer (DuplicateRecord (Some existing))) \<in> set before))))"

definition creationStep ::
  "platform \<Rightarrow> jsval \<Rightarrow> (control_operation, control_answer) trace \<Rightarrow> control_operation \<times> control_answer \<Rightarrow> bool" where
  "creationStep p request before e \<longleftrightarrow>
     (\<forall>s. fst e = StoreCreate s \<longrightarrow> quiet before \<and> (\<exists>g. describes p request g s)
        \<and> checksPassed request before \<and> artifactPassed (policyOf request) before)
     \<and> (startsController (fst e) \<longrightarrow> startShown p request before)"

lemma quiet_steps: "quiet s \<Longrightarrow> everyStep (creationStep p request) t \<Longrightarrow> everyStep (creationStep p request) (t @ s)"
  by (rule everyStep_append) (auto simp: creationStep_def acts_def list_all_iff)

lemma startShown_mono: "startShown p request before \<Longrightarrow> startShown p request (before @ s)"
  unfolding startShown_def by (metis UnCI set_append)

lemma shown_steps:
  assumes "startShown p request t" "uncreated s" "everyStep (creationStep p request) t"
  shows "everyStep (creationStep p request) (t @ s)"
  using assms(2)
proof (induction s rule: rev_induct)
  case (snoc e s)
  then have "everyStep (creationStep p request) (t @ s)" by simp
  moreover have "creationStep p request (t @ s) e"
    using snoc.prems startShown_mono [OF assms(1), of s] by (auto simp: creationStep_def)
  ultimately show ?case by (simp add: everyStep_snoc flip: append_assoc)
qed (simp add: assms(3))

lemma uncreated_count: "uncreated s \<Longrightarrow> filter (createsRecord \<circ> fst) s = []"
  by (simp add: filter_empty_conv list_all_iff)

lemma quiet_uncreated: "quiet s \<Longrightarrow> uncreated s"
  by (auto simp: list_all_iff acts_def)

lemma repeated_steps:
  assumes "repeatedRun request existing state u result" "describes p request g state"
    and "(StoreGet g, RecordAnswer (Some existing)) \<in> set t
      \<or> (StoreCreate state, CreationAnswer (DuplicateRecord (Some existing))) \<in> set t"
    and "everyStep (creationStep p request) t"
  shows "everyStep (creationStep p request) (t @ u)"
proof (cases "sameConfiguration existing state")
  case True
  then have "startShown p request t" using assms(2,3) unfolding startShown_def by blast
  then show ?thesis using assms(1,4) shown_steps by (simp add: repeatedRun_def)
next
  case False
  then show ?thesis using assms(1,4) by (simp add: repeatedRun_def)
qed

lemma creationRun_steps:
  assumes "creationRun p request t result"
  shows "everyStep (creationStep p request) t \<and> length (filter (createsRecord \<circ> fst) t) \<le> 1"
  using assms unfolding creationRun_def
proof (elim disjE exE conjE)
  assume "quiet t"
  then show ?thesis
    using quiet_steps [of t p request "[]"] uncreated_count [OF quiet_uncreated] by simp
next
  fix before u g existing state
  assume b: "t = before @ u" "quiet before" "describes p request g state"
    "(StoreGet g, RecordAnswer (Some existing)) \<in> set before" "repeatedRun request existing state u result"
  have "everyStep (creationStep p request) t"
    unfolding b(1) using repeated_steps [OF b(5,3)] b(4) quiet_steps [OF b(2), of p request "[]"] by simp
  moreover have "uncreated u" using b(5) by (simp add: repeatedRun_def)
  ultimately show ?thesis
    using uncreated_count [OF quiet_uncreated [OF b(2)]] uncreated_count by (simp add: b(1))
next
  fix before u g state
  assume b: "t = before @ u" "quiet before" "describes p request g state" "checksPassed request before"
    "artifactPassed (policyOf request) before" "writtenRun request state u result"
  from b(6) obtain a rest where u: "u = (StoreCreate state, a) # rest"
    and r: "offerAnswered request state a rest result"
    unfolding writtenRun_def by blast
  let ?offered = "before @ [(StoreCreate state, a)]"
  have offered: "everyStep (creationStep p request) ?offered"
    using quiet_steps [OF b(2), of p request "[]"] b(2-5)
    by (auto simp: everyStep_snoc creationStep_def)
  have "everyStep (creationStep p request) (?offered @ rest) \<and> uncreated rest"
  proof (cases "\<exists>c. a = CreationAnswer c")
    case True
    then obtain c where a: "a = CreationAnswer c" by blast
    show ?thesis
    proof (cases c)
      case (CreatedRecord s)
      then have "startShown p request ?offered" "uncreated rest"
        using r b(3) unfolding startShown_def by (auto simp: a offerAnswered_def)
      then show ?thesis using shown_steps offered by blast
    next
      case (DuplicateRecord x)
      then show ?thesis
        using r repeated_steps [OF _ b(3), of _ rest result ?offered] offered
        by (cases x) (auto simp: a offerAnswered_def repeatedRun_def)
    qed (use r offered a in \<open>auto simp: offerAnswered_def\<close>)
  next
    case False
    then have "rest = []" using r by (cases a) (auto simp: offerAnswered_def)
    then show ?thesis using offered by simp
  qed
  then show ?thesis
    using uncreated_count [OF quiet_uncreated [OF b(2)]] uncreated_count by (simp add: b(1) u)
qed

text \<open>What an answer says, and what the trace shows of it.\<close>

definition foundStored ::
  "platform \<Rightarrow> jsval \<Rightarrow> (control_operation, control_answer) trace \<Rightarrow> bool \<Rightarrow> goal_state \<Rightarrow> bool" where
  "foundStored p request t same existing \<longleftrightarrow>
     (\<exists>g s. describes p request g s \<and> (sameConfiguration existing s \<longleftrightarrow> same)
        \<and> ((StoreGet g, RecordAnswer (Some existing)) \<in> set t
           \<or> (StoreCreate s, CreationAnswer (DuplicateRecord (Some existing))) \<in> set t))"

fun answerShown ::
  "platform \<Rightarrow> jsval \<Rightarrow> (control_operation, control_answer) trace \<Rightarrow> create_outcome \<Rightarrow> bool" where
  "answerShown p request t (CreatedGoal goal start) \<longleftrightarrow>
     (\<exists>g s. describes p request g s \<and> (StoreCreate s, CreationAnswer (CreatedRecord s)) \<in> set t)"
| "answerShown p request t (ExistingGoal goal start) \<longleftrightarrow> (\<exists>existing. foundStored p request t True existing)"
| "answerShown p request t (ConflictingGoal shown) \<longleftrightarrow>
     (\<exists>existing. foundStored p request t False existing
        \<and> shown = (if principalAllows (asOption asString (jget request ''principal'')) (s_principal existing)
            then Some existing else None))
     \<and> list_all (\<lambda>(op, a). \<not> startsController op \<and> \<not> (\<exists>r. a = CreationAnswer (CreatedRecord r))) t"
| "answerShown p request t (RejectedGoal code) \<longleftrightarrow>
     list_all (\<lambda>(op, a). \<not> startsController op \<and> \<not> (\<exists>r. a = CreationAnswer (CreatedRecord r))) t"

text \<open>Only the offer of a record is answered with a creation.\<close>

lemma creation_answers:
  assumes "runs (control_fits p) m t result"
  shows "list_all (\<lambda>(op, a). (\<exists>r. a = CreationAnswer r) \<longrightarrow> createsRecord op) t"
  using assms
proof (induction rule: runs.induct)
  case (performed op r k t result)
  have "(\<exists>c. r = CreationAnswer c) \<longrightarrow> createsRecord op"
    using performed.hyps(1) by (cases op) (auto simp: control_fits_def)
  then show ?case using performed.IH by simp
qed simp_all

lemma quiet_answers:
  "quiet t \<Longrightarrow> list_all (\<lambda>(op, a). (\<exists>r. a = CreationAnswer r) \<longrightarrow> createsRecord op) t \<Longrightarrow>
     list_all (\<lambda>(op, a). \<not> startsController op \<and> \<not> (\<exists>r. a = CreationAnswer (CreatedRecord r))) t"
  by (fastforce simp: list_all_iff acts_def)

lemma creationRun_answer:
  assumes "creationRun p request t (Inr outcome)"
    and answers: "list_all (\<lambda>(op, a). (\<exists>r. a = CreationAnswer r) \<longrightarrow> createsRecord op) t"
  shows "answerShown p request t outcome"
  using assms(1) unfolding creationRun_def
proof (elim disjE exE conjE)
  assume "quiet t" "\<forall>out. Inr outcome = Inr out \<longrightarrow> \<not> saysStored out"
  then show ?thesis using quiet_answers answers by (cases outcome) auto
next
  fix before u g existing state
  assume b: "t = before @ u" "quiet before" "describes p request g state"
    "(StoreGet g, RecordAnswer (Some existing)) \<in> set before" "repeatedRun request existing state u (Inr outcome)"
  have "foundStored p request t (sameConfiguration existing state) existing"
    using b(1,3,4) unfolding foundStored_def by auto
  then show ?thesis
    using b(1,2,5) answers quiet_answers [OF b(2)]
    by (cases outcome) (auto simp: repeatedRun_def split: if_splits)
next
  fix before u g state
  assume b: "t = before @ u" "quiet before" "describes p request g state" "writtenRun request state u (Inr outcome)"
  from b(4) obtain a rest where u: "u = (StoreCreate state, a) # rest"
    and r: "offerAnswered request state a rest (Inr outcome)"
    unfolding writtenRun_def by blast
  have "\<exists>c. a = CreationAnswer c" using r by (cases a) (simp_all add: offerAnswered_def)
  then obtain c where a: "a = CreationAnswer c" by blast
  show ?thesis
  proof (cases c)
    case (CreatedRecord s)
    then show ?thesis using r b(1,3) by (fastforce simp: a u offerAnswered_def)
  next
    case (DuplicateRecord x)
    show ?thesis
    proof (cases x)
      case None
      then show ?thesis using r b(1,2) answers quiet_answers [OF b(2)] by (auto simp: a u DuplicateRecord offerAnswered_def)
    next
      case (Some existing)
      have rep: "repeatedRun request existing state rest (Inr outcome)" using r by (simp add: a DuplicateRecord Some offerAnswered_def)
      have "foundStored p request t (sameConfiguration existing state) existing"
        using b(1,3) unfolding foundStored_def by (auto simp: a u DuplicateRecord Some)
      then show ?thesis
        using rep b(1,2) answers quiet_answers [OF b(2)]
        by (cases outcome) (auto simp: repeatedRun_def a u DuplicateRecord Some split: if_splits)
    qed
  qed (use r a in \<open>simp add: offerAnswered_def\<close>)
qed

subsection \<open>What a creation rejects with\<close>

text \<open>The engine's faults are caught; any other operation that rejects ends the call with its fault.\<close>

fun reachesEngine :: "control_operation \<Rightarrow> bool" where
  "reachesEngine (EngineGet w) \<longleftrightarrow> True"
| "reachesEngine (EngineStart w replace) \<longleftrightarrow> True"
| "reachesEngine _ \<longleftrightarrow> False"

definition hostRejected :: "(control_operation, control_answer) trace \<Rightarrow> fault \<Rightarrow> bool" where
  "hostRejected t e \<longleftrightarrow> (\<exists>op. t \<noteq> [] \<and> List.last t = (op, Rejection e) \<and> \<not> reachesEngine op)"

definition rejecting :: "platform \<Rightarrow> 'a host_program \<Rightarrow> bool" where
  "rejecting p m \<longleftrightarrow>
     (\<forall>tr. ensures (control_fits p) m tr (\<lambda>t result. \<forall>e. result = Inl e \<longrightarrow> hostRejected t e))"

lemma rejecting_Ret [simp, intro]: "rejecting p (Ret x)"
  by (simp add: rejecting_def)

lemma rejecting_bind [intro]: "rejecting p m \<Longrightarrow> (\<And>x. rejecting p (f x)) \<Longrightarrow> rejecting p (bindE m f)"
  unfolding rejecting_def by (blast intro: ensures_bindI)

lemma rejecting_catch [intro]: "(\<And>e. rejecting p (h e)) \<Longrightarrow> rejecting p (catchE m h)"
  unfolding rejecting_def ensures_catch
  by (auto intro!: ensures_mono [OF ensures_True] split: sum.split)

lemma rejecting_operations [simp, intro]:
  "rejecting p (storeGet g)" "rejecting p (storeIsUnreadable g)" "rejecting p clockNow" "rejecting p clockNowIso"
  "rejecting p (askFlag IsClosing)" "rejecting p (askFlag HasEngine)" "rejecting p nextGoalRunId"
  "rejecting p (planAgent name)" "rejecting p (catalogResolve v)" "rejecting p (resolveDeterminism d)"
  "rejecting p (storeApply rq)"
  by (simp_all add: rejecting_def control_steps hostRejected_def)

lemma rejecting_enforce: "rejecting p (enforceDeterminism s)"
  unfolding enforceDeterminism_def
  by (auto intro!: rejecting_bind split: option.split goal_decision.split mutation.split transition_result.split)

lemma rejecting_ensure: "rejecting p (ensureController s)"
  unfolding ensureController_def
  by (auto intro!: rejecting_bind rejecting_catch rejecting_enforce split: option.split)

lemma rejecting_artifact: "rejecting p (artifactRefused policy)"
  by (auto simp: rejecting_def artifactRefused_def control_steps hostRejected_def)

lemma rejecting_repeat: "rejecting p (repeatOf request existing state)"
  unfolding repeatOf_def by (auto intro!: rejecting_bind rejecting_ensure)

lemma rejecting_write: "rejecting p (writeNew request state)"
proof -
  have starts: "rejecting p (bindE (ensureController state) (\<lambda>(goal, start). Ret (f goal start)))" for f
    by (auto intro!: rejecting_bind rejecting_ensure)
  have offered: "rejecting p (bindE (storeCreate state) f)"
    if "\<And>x. creation_answered p state x \<Longrightarrow> rejecting p (f x)" for f :: "creation \<Rightarrow> create_outcome host_program"
    using that by (simp add: rejecting_def control_steps hostRejected_def)
  show ?thesis
    unfolding writeNew_def
    by (auto intro!: offered rejecting_bind starts rejecting_repeat simp: creation_answered_def
        split: creation.split option.split)
qed

lemma requestInput_typed: "createGoalState p (requestInput request g now) \<noteq> Inl TypeFault"
proof -
  have "createGoalState p i \<noteq> Inl TypeFault" if "ci_objective i = JObj fs" for i fs
    using that by (simp add: createGoalState_def Let_def split: sum.split option.split)
  then show ?thesis by (simp add: requestInput_def)
qed

lemma rejecting_admit: "built \<noteq> Inl TypeFault \<Longrightarrow> rejecting p (admitRequest request built)"
proof -
  assume "built \<noteq> Inl TypeFault"
  then have "rejectionFor e \<noteq> None" if "built = Inl e" for e using that by (cases e) auto
  then show ?thesis
    unfolding admitRequest_def Let_def
    by (auto intro!: rejecting_bind rejecting_artifact rejecting_write split: sum.split option.split)
qed

lemma rejecting_check: "built \<noteq> Inl TypeFault \<Longrightarrow> rejecting p (checkCapabilities request built)"
  unfolding checkCapabilities_def
  by (auto intro!: rejecting_bind rejecting_admit split: option.split validator_resolution.split)

lemma rejecting_create: "rejecting p (createGoal p request)"
  unfolding createGoal_def Let_def
  by (auto intro!: rejecting_bind rejecting_repeat rejecting_check requestInput_typed
      split: option.split jsval.split sum.split)
    (metis requestInput_typed rejecting_check)+

subsection \<open>The properties\<close>



text \<open>
  Two requests that list the same configuration in another order, or with members left \<open>undefined\<close>,
  compare equal, at any depth: a repeated creation is not refused for it.
\<close>

theorem canonicalJson_order:
  assumes "reordered v w"
  shows "canonicalJson v = canonicalJson w"
  using canonicalJson_reordered [OF assms] .


end
