(* ===== verification/FacadeWitnesses.thy ===== *)
theory FacadeWitnesses
  imports HostWitnesses RequestLaws
begin

section \<open>The properties of the control plane at concrete runs\<close>

text \<open>
  A closure, a recovery, a request and a read of another's goal, step by step with the answers they
  got, and the property that speaks of each.
\<close>

lemmas facade_defs = storeCreate_def storeList_def nextGoalRunId_def planAgent_def catalogResolve_def

subsection \<open>Closing a canceled goal\<close>

definition closedTrace :: "goal_state \<Rightarrow> (control_operation, control_answer) trace" where
  "closedTrace c =
     (StoreGet (lit ''g''), RecordAnswer (Some c)) # settledTrace c
     @ [(ClockNowIso, StampAnswer sampleTime),
        (StoreClose (lit ''g'') sampleTime,
         ControlAnswer (Answer (Updated (c\<lparr>s_closedAt := Some sampleTime, s_updatedAt := sampleTime,
           s_revision := s_revision c + 1\<rparr>)))),
        (HasEngine, FlagAnswer True), (DrainForwarder, DoneAnswer)]
     @ map (\<lambda>w. (EngineGet w, WorkflowAnswer None)) (goalHistories c)
     @ [(ClockNowIso, StampAnswer sampleTime),
        (StoreMarkCleanedUp (lit ''g'') sampleTime,
         ControlAnswer (Answer (Updated (c\<lparr>s_closedAt := Some sampleTime, s_cleanedUpAt := Some sampleTime,
           s_updatedAt := sampleTime, s_revision := s_revision c + 2\<rparr>))))]"

lemma closed_run:
  assumes c: "validState samplePlatform c" "s_status c = Canceled" "s_goalRunId c = lit ''g''"
    "s_attempts c = []" "b_maximumAttempts (s_bounds c) = Fin 3" "s_closedAt c = None" "s_cleanedUpAt c = None"
  shows "runs (control_fits samplePlatform) (closeOne (lit ''g'') None) (closedTrace c)
    (Inr (Closed (c\<lparr>s_closedAt := Some sampleTime, s_cleanedUpAt := Some sampleTime,
           s_updatedAt := sampleTime, s_revision := s_revision c + 2\<rparr>) CleanupNotRequired))"
proof -
  let ?ended = "c\<lparr>s_closedAt := Some sampleTime, s_updatedAt := sampleTime, s_revision := s_revision c + 1\<rparr>"
  let ?gone = "c\<lparr>s_closedAt := Some sampleTime, s_cleanedUpAt := Some sampleTime,
    s_updatedAt := sampleTime, s_revision := s_revision c + 2\<rparr>"
  have h: "goalHistories r = goalWorkflowId (lit ''g'') # map (goalAttemptRunId (lit ''g'')) [0, 1, 2]"
    if "s_goalRunId r = lit ''g''" "b_maximumAttempts (s_bounds r) = Fin 3" for r
    using that by (simp add: goalHistories_def arrayLength_def upt_rec)
  have closes: "control_answered (lit ''g'') (evaluateClose sampleTime) (Answer (Updated ?ended))"
    unfolding control_answered_def using c by (auto simp: evaluateClose_def intro!: exI [of _ c])
  have marks: "control_answered (lit ''g'') (evaluateCleanedUp sampleTime) (Answer (Updated ?gone))"
    unfolding control_answered_def
    using c by (auto simp: evaluateCleanedUp_def intro!: exI [of _ ?ended])
  show ?thesis
    using c closes marks
    by (simp add: closeOne_def authorized_def principalAllows_def settleBeforeClosing_def
        afterClose_def finishClosure_def settleCanceledGoal_def
        readBack_def unfinishedAfterCancellation_def stopRuns_def fenceOvertakenAttempts_def readable_def
        withUnfenced_def Let_def step_defs indexes_unstarted closedTrace_def settledTrace_def goneReads_def
        cleanUpGoal_def cleanUpWorkflow_def worstCleanup_def isCleanupDone_def h)
      (auto simp: control_fits_def)
qed


subsection \<open>Another's goal\<close>

definition ownedSample :: goal_state where
  "ownedSample = sample\<lparr>s_principal := Some (lit ''alice'')\<rparr>"

lemma ownedSample_valid: "validState samplePlatform ownedSample"
  using sampleTime_iso sample_texts
  by (simp add: validState_iff ok_state_def isConsistent_def sample_def ownedSample_def sampleIdentity_def
      ok_identity_def ok_objective_def ok_budget_def ok_retryPolicy_def ok_transition_def ok_usage_def
      nonEmpty_def lit_simps GOAL_OBJECTIVE_MAXIMUM_BYTES_def GOAL_MAXIMUM_ATTEMPTS_def jnat_def
      positive_def nonNegative_def goalWorkflowId_def goalTransitionId_def isAuditLogConsistent_def
      hasOwnDerivedIds_def isUsageConsistent_def isStatusRelationConsistent_def isTerminalPairing_def
      areAttemptOutcomesConsistent_def isTerminalOutcomeConsistent_def isCancellationConsistent_def
      jeq_def GOAL_WORKFLOW_ID_PREFIX_def)

theorem facade_isolation_witness:
  "runs (control_fits samplePlatform) (closeOne (lit ''g'') (Some (lit ''bob'')))
     [(StoreGet (lit ''g''), RecordAnswer (Some ownedSample))] (Inr CloseNotFound)
   \<and> runs (control_fits samplePlatform) (cancelOne (lit ''g'') (JObj [(lit ''principal'', JStr (lit ''bob''))]))
     [(StoreGet (lit ''g''), RecordAnswer (Some ownedSample))] (Inr CancelNotFound)"
proof -
  have other: "invisible (lit ''bob'') (Some ownedSample)"
    by (simp add: principalAllows_def ownedSample_def lit_simps)
  have fits: "control_fits samplePlatform (StoreGet (lit ''g'')) (RecordAnswer (Some ownedSample))"
    using ownedSample_valid by (simp add: control_fits_def ownedSample_def)
  have named: "jget (JObj [(lit ''principal'', JStr (lit ''bob''))]) ''principal'' = JStr (lit ''bob'')"
    by (simp add: jget_def)
  show ?thesis using facade_isolation [OF other fits named, of "[]"] by blast
qed

subsection \<open>Recovering one goal\<close>

theorem recoverOne_total_witness:
  "\<exists>report. runs (control_fits samplePlatform) (recoverOne (lit ''g'') None)
       ((StoreGet (lit ''g''), RecordAnswer (Some sample)) # startTrace) (Inr report)
     \<and> length (rp_goals report) + length (rp_failures report) = 1"
proof -
  have s: "control_fits samplePlatform (StoreGet (lit ''g'')) (RecordAnswer (Some sample))"
    using sample_valid by (simp add: control_fits_def)
  have "runs (control_fits samplePlatform) (recoverOne (lit ''g'') None)
      ((StoreGet (lit ''g''), RecordAnswer (Some sample)) # startTrace)
      (Inr \<lparr>rp_goals = [entryOf (lit ''g'') RcStarted], rp_failures = []\<rparr>)"
    using s
    by (simp add: recoverOne_def authorized_def principalAllows_def recoverGoal_def recoverLive_def
      recoverController_def wantsStart_def enforceDeterminism_def
      startMissingController_def standDownIfOvertaken_def startController_def recoverAttempt_def step_defs
      startTrace_def sample_valid recovered_def entryOf_def Let_def lastOf_def)
     (auto simp: control_fits_def sample_valid)
  from recoverOne_total [OF this] this show ?thesis by blast
qed

subsection \<open>Asking for a goal\<close>

definition sampleRequest :: jsval where
  "sampleRequest = JObj
     [(lit ''goalRunId'', JStr (lit ''g'')), (lit ''identity'', enc_identity sampleIdentity),
      (lit ''agentName'', JStr (lit ''a'')), (lit ''prompt'', JStr (lit ''p'')),
      (lit ''validator'', enc_identity sampleIdentity),
      (lit ''requireDeterministicValidation'', JBool False),
      (lit ''conversationPolicy'', enc_policy Continue),
      (lit ''retryPolicy'', enc_retryPolicy [RetryFail]), (lit ''bounds'', enc_budget (s_bounds sample))]"

lemma sampleRequest_input: "requestInput sampleRequest (lit ''g'') sampleTime = requestFor sample"
  by (simp add: requestInput_def requestFor_def sampleRequest_def sample_def sampleIdentity_def jget_def lit_simps
      enc_identity_def enc_objective_def requestedValidator_def obj_def List.map_filter_def)

definition requestTrace :: "(control_operation, control_answer) trace" where
  "requestTrace =
     [(ClockNowIso, StampAnswer sampleTime), (StoreGet (lit ''g''), RecordAnswer None),
      (StoreIsUnreadable (lit ''g''), FlagAnswer False), (IsClosing, FlagAnswer False), (HasEngine, FlagAnswer True),
      (PlanAgent (lit ''a''), PlanAnswer (Some True)),
      (ResolveValidator (enc_identity sampleIdentity), ValidatorAnswer ValidatorFound),
      (StoreCreate sample, CreationAnswer (CreatedRecord sample)), (IsClosing, FlagAnswer False)] @ ensureTrace"

lemma sampleRequest_members:
  "isRecord sampleRequest" "jget sampleRequest ''goalRunId'' = JStr (lit ''g'')"
  "jget sampleRequest ''agentName'' = JStr (lit ''a'')"
  "requestedValidator sampleRequest = Some (enc_identity sampleIdentity)"
  "jget (jget sampleRequest ''conversationPolicy'') ''kind'' = JStr (lit ''continue'')"
  by (simp_all add: sampleRequest_def jget_def requestedValidator_def enc_identity_def
      obj_def List.map_filter_def sampleIdentity_def lit_simps)

lemma request_run:
  "runs (control_fits samplePlatform) (createGoal samplePlatform sampleRequest) requestTrace
     (Inr (CreatedGoal sample ControllerStarted))"
  by (simp add: createGoal_def Let_def sampleRequest_members sampleRequest_input sample_created
      checkCapabilities_def admitRequest_def artifactRefused_def writeNew_def
      ensureController_def enforceDeterminism_def startController_def step_defs facade_defs
      requestTrace_def ensureTrace_def)
    (auto simp: control_fits_def sample_valid creation_answered_def)




theorem canonicalJson_order_witness:
  "canonicalJson (JObj [(lit ''b'', JNull), (lit ''c'', JUndef), (lit ''a'', JBool True)])
     = canonicalJson (JObj [(lit ''a'', JBool True), (lit ''b'', JNull)])"
proof (rule canonicalJson_order)
  let ?fs = "[(lit ''b'', JNull), (lit ''c'', JUndef), (lit ''a'', JBool True)]"
  let ?gs = "[(lit ''a'', JBool True), (lit ''b'', JNull)]"
  show "reordered (JObj ?fs) (JObj ?gs)"
    by (rule reordered.members [where hs = "definedMembers ?fs"])
      (auto simp: definedMembers_def lit_simps add_mset_commute intro: reordered.same)
qed

end
