(* ===== verification/GoalStart.thy ===== *)
theory GoalStart
  imports GoalHost
begin

section \<open>Starting, validating and aborting an attempt\<close>

text \<open>
  The three ports of \<open>packages/bureau/src/goal-ports.ts\<close> that reach the world: \<open>startAttempt\<close>,
  \<open>runValidator\<close> and \<open>abortAttempt\<close>. Each runs inside an activity, so each may run more than once.
  The seat of an attempt, the session it runs in, the run and the forwarder are operations.
\<close>

subsection \<open>Whose run it is\<close>

definition expectedOwner :: "goal_state \<Rightarrow> nat \<Rightarrow> expected_owner" where
  "expectedOwner record attemptIndex =
     \<lparr>go_agentName = ob_agentName (s_objective record), go_principal = s_principal record,
      go_maximumAttempts = b_maximumAttempts (s_bounds record),
      eo_goalRunId = s_goalRunId record, eo_attemptIndex = jnat attemptIndex\<rparr>"

text \<open>\<open>verifyAttemptRun\<close> over what its two reads answered; the workflow is read only with no claim.\<close>

definition readings :: "run_load \<Rightarrow> workflow_state option \<Rightarrow> ownership_world" where
  "readings load state =
     \<lparr>ow_readRunRecord = (\<lambda>_. load), ow_engineGet = (\<lambda>_. Some state), ow_resolveOwner = (\<lambda>_. None)\<rparr>"

definition verifyRun :: "expected_owner \<Rightarrow> jstr \<Rightarrow> run_ownership host_program" where
  "verifyRun expected runId =
     bindE (readRunRecord runId) (\<lambda>load.
       bindE (if load = RunMissing then readWorkflow runId else Ret None) (\<lambda>state.
         case verifyAttemptRun (readings load state) expected runId of
           Inl e \<Rightarrow> Raise (Fault [])
         | Inr ownership \<Rightarrow> Ret ownership))"

subsection \<open>Standing down\<close>

text \<open>A goal that is gone, canceled, ended or (where it counts) out of time is over.\<close>

definition hasEnded :: "goal_state \<Rightarrow> bool" where
  "hasEnded record \<longleftrightarrow> s_cancellation record \<noteq> None \<or> isTerminalStatus (s_status record)"

definition goalIsOver :: "jstr \<Rightarrow> bool \<Rightarrow> bool host_program" where
  "goalIsOver goalRunId withDeadline =
     bindE (storeGet goalRunId) (\<lambda>latest.
       case latest of
         None \<Rightarrow> Ret True
       | Some record \<Rightarrow>
           if hasEnded record then Ret True
           else if \<not> withDeadline then Ret False
           else bindE clockNow (\<lambda>nowMs. Ret (isDeadlineElapsed (toGoalWorkflowView record) nowMs)))"

definition mustStandDown :: "jstr \<Rightarrow> bool \<Rightarrow> bool host_program" where
  "mustStandDown goalRunId withDeadline =
     bindE (askFlag SignalAborted) (\<lambda>timedOut.
       if timedOut then Ret True else goalIsOver goalRunId withDeadline)"

datatype port_start = PortStarted jstr | PortAdopted jstr | PortFailed jstr | PortStoodDown

definition standDownIf :: "bool host_program \<Rightarrow> port_start host_program \<Rightarrow> port_start host_program" where
  "standDownIf check go = bindE check (\<lambda>over. if over then Ret PortStoodDown else go)"

subsection \<open>Aborting\<close>

text \<open>The claim is tombstoned before the run is looked for; an index no start can mint is nothing to stop.\<close>

definition stopAttempt :: "jstr \<Rightarrow> unit host_program" where
  "stopAttempt runId =
     bindE (cancelRun runId) (\<lambda>outcome. if outcome = StopFailed then Raise (Fault []) else Ret ())"

definition abortAttempt :: "abort_request \<Rightarrow> unit host_program" where
  "abortAttempt request =
     bindE (storeGet (ab_goalRunId request)) (\<lambda>found.
       case found of
         None \<Rightarrow> stopAttempt (ab_runId request)
       | Some record \<Rightarrow>
           if jle (b_maximumAttempts (s_bounds record)) (jnat (ab_attemptIndex request)) then Ret ()
           else bindE (fenceAttempt record (ab_attemptIndex request)) (\<lambda>_. stopAttempt (ab_runId request)))"

subsection \<open>Adopting a run that exists\<close>

definition isAgentRunWorkflowInput :: "jsval \<Rightarrow> bool" where
  "isAgentRunWorkflowInput v \<longleftrightarrow>
     isRecord v \<and> isString (jget v ''runId'') \<and> isString (jget v ''sessionId'') \<and> isString (jget v ''agentName'')
     \<and> (jget v ''prompt'' = JUndef \<or> isString (jget v ''prompt''))
     \<and> (case jget v ''maximumSteps'' of JUndef \<Rightarrow> True | JNum n \<Rightarrow> True | _ \<Rightarrow> False)"

definition namesAnotherWorkflow :: "workflow_state \<Rightarrow> jstr \<Rightarrow> bool" where
  "namesAnotherWorkflow existing runId \<longleftrightarrow>
     \<not> isAgentRunWorkflowInput (wf_input existing) \<or> jget (wf_input existing) ''runId'' \<noteq> JStr runId"

definition otherWorkflowDetail :: "jstr \<Rightarrow> jstr" where
  "otherWorkflowDetail runId = lit ''run id \"'' @ runId @ lit ''\" names a different workflow''"

definition seatOf :: "goal_state \<Rightarrow> start_request \<Rightarrow> jstr" where
  "seatOf record request =
     attemptSessionId (s_goalRunId record) (policyKind (s_conversationPolicy record)) (sr_attemptIndex request)"

definition settleAdoption :: "goal_state \<Rightarrow> start_request \<Rightarrow> port_start option host_program" where
  "settleAdoption record request =
     bindE (mustStandDown (sr_goalRunId request) False) (\<lambda>over.
       if over then Ret (Some PortStoodDown)
       else bindE (command (RecordStart record request)) (\<lambda>_.
         bindE (command (WatchAttempt (sr_goalRunId request) (sr_attemptIndex request) (sr_runId request))) (\<lambda>_.
           Ret (Some (PortAdopted (seatOf record request))))))"

text \<open>\<open>None\<close> is a run that does not exist.\<close>

definition adoptExisting :: "goal_state \<Rightarrow> start_request \<Rightarrow> workflow_state option \<Rightarrow> port_start option host_program" where
  "adoptExisting record request found =
     (case found of
        None \<Rightarrow> Ret None
      | Some existing \<Rightarrow>
          if namesAnotherWorkflow existing (sr_runId request)
          then Ret (Some (PortFailed (runStartDetail (otherWorkflowDetail (sr_runId request)))))
          else bindE (verifyRun (expectedOwner record (sr_attemptIndex request)) (sr_runId request)) (\<lambda>holder.
            case holder of
              Foreign detail \<Rightarrow> Ret (Some (PortFailed (runStartDetail detail)))
            | CorruptClaim detail \<Rightarrow> Ret (Some (PortFailed (runStartDetail detail)))
            | _ \<Rightarrow> settleAdoption record request))"

text \<open>A record that is present but invalid fails the attempt; any other fault is retried.\<close>

definition adopt :: "goal_state \<Rightarrow> start_request \<Rightarrow> port_start option host_program" where
  "adopt record request =
     bindE (catchE (bindE (readWorkflow (sr_runId request)) (\<lambda>found. Ret (Inr found)))
         (\<lambda>e. case e of
             CorruptOwnershipFault message \<Rightarrow> Ret (Inl message)
           | _ \<Rightarrow> Raise e))
       (\<lambda>reading.
         case reading of
           Inl message \<Rightarrow> Ret (Some (PortFailed (runStartDetail message)))
         | Inr found \<Rightarrow> adoptExisting record request found)"

subsection \<open>Starting\<close>

definition abortOf :: "start_request \<Rightarrow> abort_request" where
  "abortOf request =
     \<lparr>ab_goalRunId = sr_goalRunId request, ab_attemptIndex = sr_attemptIndex request,
      ab_attemptId = sr_attemptId request, ab_runId = sr_runId request\<rparr>"

text \<open>The run exists: a goal that is over stops it, and a try that was timed out leaves it to its retry.\<close>

definition settleStart :: "goal_state \<Rightarrow> start_request \<Rightarrow> jstr \<Rightarrow> port_start host_program" where
  "settleStart record request sessionId =
     bindE (goalIsOver (sr_goalRunId request) True) (\<lambda>over.
       if over then bindE (abortAttempt (abortOf request)) (\<lambda>_. Ret PortStoodDown)
       else bindE (askFlag SignalAborted) (\<lambda>timedOut.
         if timedOut then Ret PortStoodDown
         else bindE (command (RecordStart record request)) (\<lambda>_.
           bindE (command (WatchAttempt (sr_goalRunId request) (sr_attemptIndex request) (sr_runId request))) (\<lambda>_.
             Ret (PortStarted sessionId)))))"

text \<open>A start that did not happen: one that raced it is adopted, and a permanent fault is a verdict.\<close>

definition startLost :: "goal_state \<Rightarrow> start_request \<Rightarrow> fault \<Rightarrow> port_start host_program" where
  "startLost record request e =
     bindE (adopt record request) (\<lambda>raced.
       case raced of
         Some answer \<Rightarrow> Ret answer
       | None \<Rightarrow>
           (case e of
              TombstonedFault \<Rightarrow> Ret PortStoodDown
            | AgentFault message \<Rightarrow> Ret (PortFailed (runStartDetail message))
            | _ \<Rightarrow> Raise e))"

definition startFor :: "goal_state \<Rightarrow> start_request \<Rightarrow> attempt_start" where
  "startFor record request =
     \<lparr>as_agentName = ob_agentName (s_objective record), as_runId = sr_runId request,
      as_goalRunId = sr_goalRunId request, as_attemptIndex = sr_attemptIndex request,
      as_principal = s_principal record\<rparr>"

text \<open>Only the start itself is guarded by the \<open>catch\<close>.\<close>

definition startSeated :: "goal_state \<Rightarrow> start_request \<Rightarrow> jstr \<Rightarrow> port_start host_program" where
  "startSeated record request sessionId =
     bindE (catchE (bindE (command (StartRun (startFor record request))) (\<lambda>_. Ret None)) (\<lambda>e. Ret (Some e)))
       (\<lambda>lost. case lost of
           Some e \<Rightarrow> startLost record request e
         | None \<Rightarrow> settleStart record request sessionId)"

definition notInCatalogDetail :: "jstr \<Rightarrow> jstr" where
  "notInCatalogDetail agentName = lit ''agent \"'' @ agentName @ lit ''\" is no longer in the catalog''"

definition notDurableDetail :: "jstr \<Rightarrow> jstr" where
  "notDurableDetail agentName =
     lit ''agent \"'' @ agentName @ lit ''\" cannot run durably (agent-not-durable-capable)''"

definition startNew :: "goal_state \<Rightarrow> start_request \<Rightarrow> port_start host_program" where
  "startNew record request =
     (let agentName = ob_agentName (s_objective record); over = mustStandDown (sr_goalRunId request) True
      in bindE (planAgent agentName) (\<lambda>plan.
           case plan of
             None \<Rightarrow> Ret (PortFailed (runStartDetail (notInCatalogDetail agentName)))
           | Some durable \<Rightarrow>
               if \<not> durable then Ret (PortFailed (runStartDetail (notDurableDetail agentName)))
               else standDownIf over
                 (bindE (seatAttempt record request) (\<lambda>seat.
                    case seat of
                      SeatFailed detail \<Rightarrow> Ret (PortFailed detail)
                    | Seated sessionId \<Rightarrow> standDownIf over (startSeated record request sessionId)))))"

text \<open>Nothing is adopted, started over or appended to until it is proved to be this goal's own.\<close>

definition startOwned :: "goal_state \<Rightarrow> start_request \<Rightarrow> port_start host_program" where
  "startOwned record request =
     bindE (verifyRun (expectedOwner record (sr_attemptIndex request)) (sr_runId request)) (\<lambda>ownership.
       case ownership of
         Foreign detail \<Rightarrow> Ret (PortFailed (runStartDetail detail))
       | CorruptClaim detail \<Rightarrow> Ret (PortFailed (runStartDetail detail))
       | _ \<Rightarrow>
           bindE (verifySession record (sr_attemptIndex request)) (\<lambda>foreign.
             case foreign of
               Some why \<Rightarrow> Ret (PortFailed (conversationPolicyDetail why))
             | None \<Rightarrow>
                 bindE (adopt record request) (\<lambda>adopted.
                   case adopted of
                     Some answer \<Rightarrow> Ret answer
                   | None \<Rightarrow> startNew record request)))"

definition overAtFirst :: "goal_state \<Rightarrow> bool host_program" where
  "overAtFirst record =
     bindE (askFlag SignalAborted) (\<lambda>timedOut.
       if timedOut \<or> hasEnded record then Ret True
       else bindE clockNow (\<lambda>nowMs. Ret (isDeadlineElapsed (toGoalWorkflowView record) nowMs)))"

definition startAttempt :: "start_request \<Rightarrow> port_start host_program" where
  "startAttempt request =
     bindE (storeGet (sr_goalRunId request)) (\<lambda>found.
       case found of
         None \<Rightarrow> Ret (PortFailed (runStartDetail (lit ''the goal record is unavailable'')))
       | Some record \<Rightarrow>
           bindE (askFlag HasEngine) (\<lambda>engine.
             if \<not> engine then Raise (Fault [])
             else standDownIf (overAtFirst record) (startOwned record request)))"

subsection \<open>Validating\<close>

text \<open>A reason a validation cannot be made: \<open>unavailable\<close> names a validator, \<open>error\<close> an attempt.\<close>

datatype load_kind = LoadFailed | LoadUnavailable

definition unavailable :: "validator_request \<Rightarrow> jstr \<Rightarrow> load_kind \<Rightarrow> jstr \<Rightarrow> jstr \<Rightarrow> validator_result host_program" where
  "unavailable request startedAt kind code message =
     (let error = \<lparr>e_kind = KLoad, e_code = code, e_message = message, e_cause = None\<rparr>
      in bindE clockNowIso (\<lambda>completedAt.
           Ret \<lparr>vr_identity = vq_validator request, vr_startedAt = startedAt, vr_completedAt = completedAt,
             vr_outcome = (case kind of LoadUnavailable \<Rightarrow> Unavailable error message | LoadFailed \<Rightarrow> ErrorOutcome error)\<rparr>))"

primrec listedVersions :: "jstr list \<Rightarrow> jstr" where
  "listedVersions [] = []"
| "listedVersions (x # xs) = (if xs = [] then x else x @ lit '', '' @ listedVersions xs)"

definition missingMessage :: "goal_identity \<Rightarrow> jstr" where
  "missingMessage v = lit ''The validator \"'' @ id_name v @ lit ''@'' @ id_version v @ lit ''\" is not registered.''"

definition versionMessage :: "goal_identity \<Rightarrow> jstr list \<Rightarrow> jstr" where
  "versionMessage v versions =
     lit ''The validator \"'' @ id_name v @ lit ''\" has no version \"'' @ id_version v
       @ lit ''\"; registered: '' @ listedVersions versions @ lit ''.''"

definition attemptMessage :: "validator_request \<Rightarrow> jstr" where
  "attemptMessage request =
     lit ''Attempt '' @ decimal (vq_attemptIndex request) @ lit '' of goal \"'' @ vq_goalRunId request
       @ lit ''\" cannot be read.''"

definition resultMessage :: "jstr \<Rightarrow> jstr \<Rightarrow> jstr" where
  "resultMessage runId status = lit ''The result of run \"'' @ runId @ lit ''\" cannot be read ('' @ status @ lit '').''"

text \<open>The verdict, projected to JSON by the executor's caller and kept within the cap of the record.\<close>

definition runResolved :: "goal_state \<Rightarrow> validator_request \<Rightarrow> validator_result host_program" where
  "runResolved record request =
     bindE (executeValidation record request) (\<lambda>execution.
       Ret \<lparr>vr_identity = vq_validator request, vr_startedAt = ex_startedAt execution,
         vr_completedAt = ex_completedAt execution,
         vr_outcome = boundValidationOutcome (ex_outcome execution) GOAL_VALIDATION_MAXIMUM_BYTES\<rparr>)"

text \<open>A read that fails, or a run not yet read as ended, is a fault to retry and never a verdict.\<close>

definition validateAttempt ::
  "goal_state \<Rightarrow> validator_request \<Rightarrow> jstr \<Rightarrow> jstr \<Rightarrow> validator_result host_program" where
  "validateAttempt record request startedAt runId =
     bindE (command (ResolveCost runId)) (\<lambda>_.
       bindE (readRunResult runId) (\<lambda>reading.
         case reading of
           ReadingNotTerminal \<Rightarrow> Raise (Fault [])
         | ReadingUnavailable status \<Rightarrow>
             unavailable request startedAt LoadFailed (lit ''ATTEMPT_RESULT_UNAVAILABLE'') (resultMessage runId status)
         | ReadingCompleted \<Rightarrow> runResolved record request))"

definition attemptOf :: "goal_state option \<Rightarrow> nat \<Rightarrow> (goal_state \<times> goal_attempt) option" where
  "attemptOf stored attemptIndex =
     (case stored of
        None \<Rightarrow> None
      | Some record \<Rightarrow>
          if attemptIndex < length (s_attempts record) then Some (record, s_attempts record ! attemptIndex) else None)"

definition runValidator :: "validator_request \<Rightarrow> validator_result host_program" where
  "runValidator request =
     bindE clockNowIso (\<lambda>startedAt.
       bindE (catalogResolve (enc_identity (vq_validator request))) (\<lambda>resolution.
         case resolution of
           ValidatorMissing \<Rightarrow>
             unavailable request startedAt LoadUnavailable (lit ''VALIDATOR_MISSING'') (missingMessage (vq_validator request))
         | ValidatorVersions versions \<Rightarrow>
             unavailable request startedAt LoadUnavailable (lit ''VALIDATOR_VERSION_MISMATCH'')
               (versionMessage (vq_validator request) versions)
         | ValidatorFound \<Rightarrow>
             bindE (storeGet (vq_goalRunId request)) (\<lambda>stored.
               bindE (askFlag HasEngine) (\<lambda>engine.
                 case attemptOf stored (vq_attemptIndex request) of
                   None \<Rightarrow> unavailable request startedAt LoadFailed (lit ''ATTEMPT_UNAVAILABLE'') (attemptMessage request)
                 | Some (record, attempt) \<Rightarrow>
                     if \<not> engine then Raise (Fault [])
                     else validateAttempt record request startedAt (a_runId attempt)))))"

end
