(* ===== verification/StartLaws.thy ===== *)
theory StartLaws
  imports GoalStart GoalBounding
begin

section \<open>What starting and validating an attempt promise\<close>

text \<open>
  A start writes nothing but for a run proved to be the goal's own, right after a read that showed the
  goal alive; its answer says what was written; a run created under a goal that is over is fenced and
  stopped. A validation is a verdict only when the registered validator gave it over the ended run.
\<close>

subsection \<open>Traces as they grow\<close>

primrec everyFrom :: "(('o, 'r) trace \<Rightarrow> 'o \<times> 'r \<Rightarrow> bool) \<Rightarrow> ('o, 'r) trace \<Rightarrow> ('o, 'r) trace \<Rightarrow> bool" where
  "everyFrom J before [] \<longleftrightarrow> True"
| "everyFrom J before (e # s) \<longleftrightarrow> J before e \<and> everyFrom J (before @ [e]) s"

lemma everyFrom_append: "everyFrom J before (s @ u) \<longleftrightarrow> everyFrom J before s \<and> everyFrom J (before @ s) u"
  by (induction s arbitrary: before) auto

lemma everyStep_from: "everyStep J (tr @ s) \<longleftrightarrow> everyStep J tr \<and> everyFrom J tr s"
proof (induction s arbitrary: tr)
  case (Cons e s)
  from Cons [of "tr @ [e]"] show ?case by (auto simp: everyStep_snoc)
qed simp

text \<open>The last read of the goal, while only the clock and the signal were asked since; \<open>None\<close> once it is over.\<close>

definition observe :: "jstr \<Rightarrow> (goal_state \<times> jnum option) option \<Rightarrow> control_operation \<times> control_answer
    \<Rightarrow> (goal_state \<times> jnum option) option" where
  "observe g seen e =
     (case fst e of
        StoreGet h \<Rightarrow> (case snd e of
            RecordAnswer (Some r) \<Rightarrow> if h = g \<and> \<not> hasEnded r then Some (r, None) else None
          | _ \<Rightarrow> None)
      | ClockNow \<Rightarrow> (case snd e of InstantAnswer now \<Rightarrow> map_option (\<lambda>(r, _). (r, Some now)) seen | _ \<Rightarrow> None)
      | SignalAborted \<Rightarrow> seen
      | _ \<Rightarrow> None)"

definition lastSeen :: "jstr \<Rightarrow> (control_operation, control_answer) trace \<Rightarrow> (goal_state \<times> jnum option) option" where
  "lastSeen g t = foldl (observe g) None t"

lemma lastSeen_snoc [simp]: "lastSeen g (t @ e # s) = foldl (observe g) (observe g (lastSeen g t) e) s"
  by (simp add: lastSeen_def)

text \<open>It showed the goal alive, and within its deadline by the reading of the clock after it.\<close>

definition seenAlive :: "jstr \<Rightarrow> (control_operation, control_answer) trace \<Rightarrow> bool" where
  "seenAlive g t \<longleftrightarrow> lastSeen g t \<noteq> None"

definition seenInTime :: "jstr \<Rightarrow> (control_operation, control_answer) trace \<Rightarrow> bool" where
  "seenInTime g t \<longleftrightarrow>
     (case lastSeen g t of Some (r, Some now) \<Rightarrow> \<not> isDeadlineElapsed (toGoalWorkflowView r) now | _ \<Rightarrow> False)"

lemmas seen_steps = seenAlive_def seenInTime_def observe_def

subsection \<open>Ownership, as it was read\<close>

definition claimOwn :: "goal_state \<Rightarrow> start_request \<Rightarrow> (control_operation, control_answer) trace \<Rightarrow> bool" where
  "claimOwn r rq t \<longleftrightarrow>
     (\<exists>load state. (ReadRunRecord (sr_runId rq), RunRecordAnswer load) \<in> set t
        \<and> (load = RunMissing \<longrightarrow> (ReadWorkflow (sr_runId rq), WorkflowStateAnswer state) \<in> set t)
        \<and> verifyAttemptRun (readings load state) (expectedOwner r (sr_attemptIndex rq)) (sr_runId rq)
            \<in> {Inr Owned, Inr Absent})"

lemma claimOwn_append: "claimOwn r rq s \<Longrightarrow> claimOwn r rq (t @ s)" "claimOwn r rq t \<Longrightarrow> claimOwn r rq (t @ s)"
  unfolding claimOwn_def by (metis UnCI set_append)+

text \<open>A run found under the id, with the claim read after it.\<close>

definition adoptable :: "goal_state \<Rightarrow> start_request \<Rightarrow> (control_operation, control_answer) trace \<Rightarrow> bool" where
  "adoptable r rq t \<longleftrightarrow>
     (\<exists>a b existing. t = a @ (ReadWorkflow (sr_runId rq), WorkflowStateAnswer (Some existing)) # b
        \<and> \<not> namesAnotherWorkflow existing (sr_runId rq) \<and> claimOwn r rq b)"

lemma adoptable_append: "adoptable r rq t \<Longrightarrow> adoptable r rq (t @ s)"
  unfolding adoptable_def using claimOwn_append(2) by fastforce

subsection \<open>What justifies each write\<close>

definition startStep ::
  "goal_state \<Rightarrow> start_request \<Rightarrow> (control_operation, control_answer) trace \<Rightarrow> control_operation \<times> control_answer \<Rightarrow> bool"
where
  "startStep r rq before e \<longleftrightarrow>
     (case fst e of
        SeatAttempt s q \<Rightarrow> s = r \<and> q = rq \<and> seenInTime (sr_goalRunId rq) before \<and> claimOwn r rq before
      | StartRun start \<Rightarrow> start = startFor r rq \<and> seenInTime (sr_goalRunId rq) before \<and> claimOwn r rq before
          \<and> (\<exists>sid. (SeatAttempt r rq, SeatAnswer (Seated sid)) \<in> set before)
      | RecordStart s q \<Rightarrow> s = r \<and> q = rq \<and> seenAlive (sr_goalRunId rq) before
          \<and> ((StartRun (startFor r rq), DoneAnswer) \<in> set before \<and> seenInTime (sr_goalRunId rq) before
             \<or> adoptable r rq before)
      | WatchAttempt g i run \<Rightarrow> (RecordStart r rq, DoneAnswer) \<in> set before
      | CancelRun run \<Rightarrow> run = sr_runId rq
          \<and> ((StoreGet (sr_goalRunId rq), RecordAnswer None) \<in> set before
             \<or> (\<exists>s x. (FenceAttempt s (sr_attemptIndex rq), FenceAnswer x) \<in> set before))
      | _ \<Rightarrow> True)"

text \<open>The steps nothing has to justify, and the traces that have created and recorded nothing.\<close>

fun guarded :: "control_operation \<Rightarrow> bool" where
  "guarded (SeatAttempt s q) \<longleftrightarrow> True"
| "guarded (StartRun start) \<longleftrightarrow> True"
| "guarded (RecordStart s q) \<longleftrightarrow> True"
| "guarded (WatchAttempt g i run) \<longleftrightarrow> True"
| "guarded (CancelRun run) \<longleftrightarrow> True"
| "guarded _ \<longleftrightarrow> False"

abbreviation calm :: "(control_operation, control_answer) trace \<Rightarrow> bool" where
  "calm \<equiv> list_all (\<lambda>e. \<not> guarded (fst e))"

lemma calm_steps: "calm s \<Longrightarrow> everyStep (startStep r rq) t \<Longrightarrow> everyStep (startStep r rq) (t @ s)"
proof (rule everyStep_append)
  assume "calm s"
  moreover have "startStep r rq before e" if "\<not> guarded (fst e)" for before e
    using that by (cases "fst e") (simp_all add: startStep_def)
  ultimately show "list_all (\<lambda>e. \<forall>before. startStep r rq before e) s" by (simp add: list_all_iff)
qed

definition creates :: "control_operation \<times> control_answer \<Rightarrow> bool" where
  "creates e \<longleftrightarrow>
     (case fst e of StartRun start \<Rightarrow> snd e = DoneAnswer | RecordStart s q \<Rightarrow> True | _ \<Rightarrow> False)"

abbreviation untouched :: "(control_operation, control_answer) trace \<Rightarrow> bool" where
  "untouched \<equiv> list_all (\<lambda>e. \<not> creates e)"

lemma calm_untouched: "calm s \<Longrightarrow> untouched s"
  by (auto simp: list_all_iff creates_def split: control_operation.splits)

subsection \<open>Standing down\<close>

definition seenOver :: "jstr \<Rightarrow> (control_operation, control_answer) trace \<Rightarrow> bool" where
  "seenOver g t \<longleftrightarrow>
     (\<exists>x. (StoreGet g, RecordAnswer x) \<in> set t
        \<and> (case x of None \<Rightarrow> True
           | Some r \<Rightarrow> hasEnded r
               \<or> (\<exists>now. (ClockNow, InstantAnswer now) \<in> set t \<and> isDeadlineElapsed (toGoalWorkflowView r) now)))"

definition stoodDown :: "jstr \<Rightarrow> (control_operation, control_answer) trace \<Rightarrow> bool" where
  "stoodDown g t \<longleftrightarrow> seenOver g t \<or> (SignalAborted, FlagAnswer True) \<in> set t"

lemma stoodDown_append: "stoodDown g s \<Longrightarrow> stoodDown g (t @ s)" "stoodDown g t \<Longrightarrow> stoodDown g (t @ s)"
  unfolding stoodDown_def seenOver_def by (fastforce split: option.splits)+

lemma goalIsOver_law:
  "ensures (control_fits p) (goalIsOver g wd) tr
     (\<lambda>t result. \<exists>s. t = tr @ s \<and> calm s \<and> (result = Inr True \<longrightarrow> seenOver g s)
        \<and> (result = Inr False \<longrightarrow> seenAlive g t \<and> (wd \<longrightarrow> seenInTime g t)))"
  unfolding goalIsOver_def
  by (auto simp: control_steps seenOver_def seen_steps split: option.split)

lemma mustStandDown_law:
  "ensures (control_fits p) (mustStandDown g wd) tr
     (\<lambda>t result. \<exists>s. t = tr @ s \<and> calm s \<and> (result = Inr True \<longrightarrow> stoodDown g s)
        \<and> (result = Inr False \<longrightarrow> seenAlive g t \<and> (wd \<longrightarrow> seenInTime g t)))"
  (is "ensures _ _ _ ?Q")
proof -
  define check where "check = goalIsOver g wd"
  have "ensures (control_fits p) check (tr @ [(SignalAborted, FlagAnswer False)]) ?Q"
    unfolding check_def
  proof (rule ensures_mono [OF goalIsOver_law], elim exE conjE)
    fix t s and result :: "fault + bool"
    assume "t = (tr @ [(SignalAborted, FlagAnswer False)]) @ s" "calm s" "result = Inr True \<longrightarrow> seenOver g s"
      "result = Inr False \<longrightarrow> seenAlive g t \<and> (wd \<longrightarrow> seenInTime g t)"
    then show "?Q t result"
      using stoodDown_append(1) [of g s "[(SignalAborted, FlagAnswer False)]"]
      by (intro exI [of _ "(SignalAborted, FlagAnswer False) # s"]) (simp add: stoodDown_def)
  qed
  then show ?thesis
    unfolding mustStandDown_def check_def [symmetric] by (auto simp: control_steps stoodDown_def)
qed

lemma verifyRun_law:
  "ensures (control_fits p) (verifyRun (expectedOwner r (sr_attemptIndex rq)) (sr_runId rq)) tr
     (\<lambda>t result. \<exists>s. t = tr @ s \<and> calm s
        \<and> (\<forall>o'. result = Inr o' \<longrightarrow> o' \<in> {Owned, Absent} \<longrightarrow> claimOwn r rq s))"
  unfolding verifyRun_def
  by (auto simp: control_steps claimOwn_def split: sum.split)

subsection \<open>What an answer says\<close>

text \<open>The run a start created under a goal that was over was stopped, or its index is one no start mints.\<close>

definition abortDone :: "start_request \<Rightarrow> (control_operation, control_answer) trace \<Rightarrow> bool" where
  "abortDone rq t \<longleftrightarrow>
     (\<exists>outcome. (CancelRun (sr_runId rq), StopAnswer outcome) \<in> set t \<and> outcome \<noteq> StopFailed)
     \<or> (\<exists>s. (StoreGet (sr_goalRunId rq), RecordAnswer (Some s)) \<in> set t
          \<and> jle (b_maximumAttempts (s_bounds s)) (jnat (sr_attemptIndex rq)))"

definition linked :: "goal_state \<Rightarrow> start_request \<Rightarrow> (control_operation, control_answer) trace \<Rightarrow> bool" where
  "linked r rq t \<longleftrightarrow>
     (RecordStart r rq, DoneAnswer) \<in> set t
     \<and> (WatchAttempt (sr_goalRunId rq) (sr_attemptIndex rq) (sr_runId rq), DoneAnswer) \<in> set t"

fun answerTrue :: "goal_state \<Rightarrow> start_request \<Rightarrow> (control_operation, control_answer) trace \<Rightarrow> port_start \<Rightarrow> bool" where
  "answerTrue r rq t (PortStarted sessionId) \<longleftrightarrow>
     (SeatAttempt r rq, SeatAnswer (Seated sessionId)) \<in> set t
     \<and> (StartRun (startFor r rq), DoneAnswer) \<in> set t \<and> linked r rq t"
| "answerTrue r rq t (PortAdopted sessionId) \<longleftrightarrow> sessionId = seatOf r rq \<and> adoptable r rq t \<and> linked r rq t"
| "answerTrue r rq t (PortFailed detail) \<longleftrightarrow> untouched t"
| "answerTrue r rq t PortStoodDown \<longleftrightarrow>
     (stoodDown (sr_goalRunId rq) t \<or> (StartRun (startFor r rq), Rejection TombstonedFault) \<in> set t)
     \<and> (\<forall>e \<in> set t. \<not> (\<exists>s q. fst e = RecordStart s q))
     \<and> ((StartRun (startFor r rq), DoneAnswer) \<in> set t \<longrightarrow>
          (SignalAborted, FlagAnswer True) \<in> set t \<or> abortDone rq t)"

definition start_law ::
  "goal_state \<Rightarrow> start_request \<Rightarrow> (control_operation, control_answer) trace \<Rightarrow> fault + port_start \<Rightarrow> bool" where
  "start_law r rq t result \<longleftrightarrow>
     everyStep (startStep r rq) t \<and> (\<forall>answer. result = Inr answer \<longrightarrow> answerTrue r rq t answer)"

text \<open>What has happened before a run is created: nothing, and every step was justified.\<close>

definition ready_to_start :: "goal_state \<Rightarrow> start_request \<Rightarrow> (control_operation, control_answer) trace \<Rightarrow> bool" where
  "ready_to_start r rq t \<longleftrightarrow> everyStep (startStep r rq) t \<and> untouched t"

lemma ready_calm: "ready_to_start r rq t \<Longrightarrow> calm s \<Longrightarrow> ready_to_start r rq (t @ s)"
  by (simp add: ready_to_start_def calm_steps calm_untouched)

lemma untouched_free:
  "untouched t \<Longrightarrow> (RecordStart s q, a) \<notin> set t \<and> (StartRun start, DoneAnswer) \<notin> set t"
  by (auto simp: list_all_iff creates_def)

lemma start_law_down: "ready_to_start r rq t \<Longrightarrow> stoodDown (sr_goalRunId rq) t \<Longrightarrow> start_law r rq t (Inr PortStoodDown)"
  using untouched_free [of t] by (simp add: ready_to_start_def start_law_def) (metis prod.collapse)

lemma start_law_failed: "ready_to_start r rq t \<Longrightarrow> start_law r rq t (Inr (PortFailed detail))"
  by (simp add: ready_to_start_def start_law_def)

lemma start_law_fault: "ready_to_start r rq t \<Longrightarrow> start_law r rq t (Inl e)"
  by (simp add: ready_to_start_def start_law_def)

subsection \<open>Adopting\<close>

definition adopt_law ::
  "goal_state \<Rightarrow> start_request \<Rightarrow> (control_operation, control_answer) trace \<Rightarrow> (control_operation, control_answer) trace
     \<Rightarrow> fault + port_start option \<Rightarrow> bool" where
  "adopt_law r rq tr t result \<longleftrightarrow>
     (case result of
        Inr None \<Rightarrow> \<exists>s. t = tr @ s \<and> calm s
      | Inr (Some answer) \<Rightarrow> start_law r rq t (Inr answer)
      | Inl e \<Rightarrow> start_law r rq t (Inl e))"

lemma linked_steps:
  assumes "everyStep (startStep r rq) t" "seenAlive (sr_goalRunId rq) t"
    and "(StartRun (startFor r rq), DoneAnswer) \<in> set t \<and> seenInTime (sr_goalRunId rq) t \<or> adoptable r rq t"
  shows "everyStep (startStep r rq) (t @ [(RecordStart r rq, a)])"
    "everyStep (startStep r rq) (t @ [(RecordStart r rq, DoneAnswer), (WatchAttempt g i run, b)])"
  using assms by (simp_all add: everyStep_from startStep_def)

lemma settleAdoption_law:
  assumes "ready_to_start r rq tr" "adoptable r rq tr"
  shows "ensures (control_fits p) (settleAdoption r rq) tr (adopt_law r rq tr)"
  unfolding settleAdoption_def
proof (rule ensures_bindI [OF mustStandDown_law], goal_cases)
  case (1 t over)
  then obtain s where s: "t = tr @ s" "calm s" "over \<longrightarrow> stoodDown (sr_goalRunId rq) t"
    "\<not> over \<longrightarrow> seenAlive (sr_goalRunId rq) t"
    using stoodDown_append(1) by fastforce
  have r: "ready_to_start r rq t" "adoptable r rq t"
    unfolding s(1) using ready_calm [OF assms(1) s(2)] adoptable_append [OF assms(2)] by blast+
  show ?case
  proof (cases over)
    case True
    then show ?thesis using start_law_down r s(3) by (simp add: adopt_law_def)
  next
    case False
    have steps: "everyStep (startStep r rq) (t @ [(RecordStart r rq, a)])"
      "everyStep (startStep r rq) (t @ [(RecordStart r rq, DoneAnswer), (WatchAttempt g i run, b)])" for a g i run b
      using linked_steps [of r rq t] r s(4) False by (simp_all add: ready_to_start_def)
    show ?thesis
      using False steps adoptable_append [OF r(2)]
      by (auto simp: control_steps adopt_law_def start_law_def linked_def)
  qed
next
  case (2 t e)
  then show ?case using ready_calm [OF assms(1)] start_law_fault by (fastforce simp: adopt_law_def)
qed

lemma adopt_law: 
  assumes "ready_to_start r rq tr"
  shows "ensures (control_fits p) (adopt r rq) tr (adopt_law r rq tr)"
proof -
  define settle where "settle = settleAdoption r rq"
  define verify where "verify = verifyRun (expectedOwner r (sr_attemptIndex rq)) (sr_runId rq)"
  have found: "ensures (control_fits p) (adoptExisting r rq found)
      (tr @ [(ReadWorkflow (sr_runId rq), WorkflowStateAnswer found)]) (adopt_law r rq tr)" for found
  proof (cases found)
    case None
    then show ?thesis by (simp add: adoptExisting_def adopt_law_def)
  next
    case (Some existing)
    let ?t = "tr @ [(ReadWorkflow (sr_runId rq), WorkflowStateAnswer (Some existing))]"
    have r: "ready_to_start r rq ?t" by (rule ready_calm [OF assms]) simp
    show ?thesis
    proof (cases "namesAnotherWorkflow existing (sr_runId rq)")
      case True
      then show ?thesis using r Some by (simp add: adoptExisting_def adopt_law_def start_law_failed)
    next
      case False
      have "ensures (control_fits p) (bindE verify (\<lambda>holder.
            case holder of
              Foreign detail \<Rightarrow> Ret (Some (PortFailed (runStartDetail detail)))
            | CorruptClaim detail \<Rightarrow> Ret (Some (PortFailed (runStartDetail detail)))
            | _ \<Rightarrow> settle)) ?t (adopt_law r rq tr)"
        unfolding verify_def
      proof (rule ensures_bindI [OF verifyRun_law], goal_cases)
        case (1 t holder)
        then obtain s where s: "t = ?t @ s" "calm s" "holder \<in> {Owned, Absent} \<longrightarrow> claimOwn r rq s" by auto
        have rt: "ready_to_start r rq t" unfolding s(1) by (rule ready_calm [OF r s(2)])
        have "ensures (control_fits p) settle t (adopt_law r rq tr)" if "holder \<in> {Owned, Absent}"
        proof -
          have "adoptable r rq t" unfolding adoptable_def s(1) using that s(3) False by fastforce
          then show ?thesis
            unfolding settle_def
            by (rule ensures_mono [OF settleAdoption_law [OF rt]]) 
              (use s(2) in \<open>auto simp: adopt_law_def s(1) start_law_def split: sum.splits option.splits\<close>)
        qed
        then show ?case
          using rt by (cases holder) (simp_all add: adopt_law_def start_law_failed)
      next
        case (2 t e)
        then show ?case using ready_calm [OF r] start_law_fault by (fastforce simp: adopt_law_def)
      qed
      then show ?thesis unfolding settle_def verify_def using False Some by (simp add: adoptExisting_def del: ensures_bind)
    qed
  qed
  define existing where "existing = adoptExisting r rq"
  have quiet: "ready_to_start r rq (tr @ [(ReadWorkflow (sr_runId rq), a)])" for a
    by (rule ready_calm [OF assms]) simp
  show ?thesis
    unfolding adopt_def existing_def [symmetric]
    using found [folded existing_def] quiet
    by (auto simp: control_steps adopt_law_def start_law_failed start_law_fault split: fault.split)
qed

subsection \<open>After the engine's start\<close>

text \<open>Every step was justified, a seat was given and the run was created.\<close>

definition created_run ::
  "goal_state \<Rightarrow> start_request \<Rightarrow> jstr \<Rightarrow> (control_operation, control_answer) trace \<Rightarrow> bool" where
  "created_run r rq sid t \<longleftrightarrow>
     everyStep (startStep r rq) t \<and> (SeatAttempt r rq, SeatAnswer (Seated sid)) \<in> set t
     \<and> (StartRun (startFor r rq), DoneAnswer) \<in> set t \<and> (\<forall>s q a. (RecordStart s q, a) \<notin> set t)"

lemma created_calm: "created_run r rq sid t \<Longrightarrow> calm s \<Longrightarrow> created_run r rq sid (t @ s)"
  by (auto simp: created_run_def calm_steps list_all_iff)

lemma abort_steps:
  assumes "everyStep (startStep r rq) t"
    and "(StoreGet (sr_goalRunId rq), RecordAnswer None) \<in> set t
      \<or> (\<exists>s x. (FenceAttempt s (sr_attemptIndex rq), FenceAnswer x) \<in> set t)"
  shows "everyStep (startStep r rq) (t @ [(CancelRun (sr_runId rq), a)])"
  using assms by (auto simp: everyStep_snoc startStep_def)

lemma abortAttempt_law:
  assumes "everyStep (startStep r rq) tr"
  shows "ensures (control_fits p) (abortAttempt (abortOf rq)) tr
     (\<lambda>t result. \<exists>s. t = tr @ s \<and> everyStep (startStep r rq) t \<and> untouched s \<and> (result = Inr () \<longrightarrow> abortDone rq s))"
proof -
  have steps: "everyStep (startStep r rq) (tr @ s)" if "calm s" for s
    using calm_steps [OF that assms] .
  have stop: "everyStep (startStep r rq) (tr @ [(StoreGet (sr_goalRunId rq), RecordAnswer None), (CancelRun (sr_runId rq), a)])"
    "everyStep (startStep r rq) (tr @ [(StoreGet (sr_goalRunId rq), x), (FenceAttempt s (sr_attemptIndex rq), FenceAnswer y),
       (CancelRun (sr_runId rq), a)])" for a x s y
    using abort_steps [of r rq "tr @ [(StoreGet (sr_goalRunId rq), RecordAnswer None)]" a]
      abort_steps [of r rq "tr @ [(StoreGet (sr_goalRunId rq), x), (FenceAttempt s (sr_attemptIndex rq), FenceAnswer y)]" a]
      steps [of "[(StoreGet (sr_goalRunId rq), RecordAnswer None)]"]
      steps [of "[(StoreGet (sr_goalRunId rq), x), (FenceAttempt s (sr_attemptIndex rq), FenceAnswer y)]"]
    by auto
  show ?thesis
    unfolding abortAttempt_def stopAttempt_def abortOf_def
    using stop steps
    by (auto simp: control_steps abortDone_def creates_def split: option.split)
qed

lemma settleStart_law:
  assumes "created_run r rq sid tr"
  shows "ensures (control_fits p) (settleStart r rq sid) tr (start_law r rq)"
  unfolding settleStart_def
proof (rule ensures_bindI [OF goalIsOver_law], goal_cases)
  case (1 t over)
  then obtain s where s: "t = tr @ s" "calm s" "over \<longrightarrow> seenOver (sr_goalRunId rq) s" "\<not> over \<longrightarrow> seenInTime (sr_goalRunId rq) t"
    by auto
  have c: "created_run r rq sid t" unfolding s(1) by (rule created_calm [OF assms s(2)])
  show ?case
  proof (cases over)
    case True
    have down: "stoodDown (sr_goalRunId rq) t"
      using s(1,3) True stoodDown_append(1) [of "sr_goalRunId rq" s tr] by (simp add: stoodDown_def)
    have steps: "everyStep (startStep r rq) t" using c by (simp add: created_run_def)
    have "ensures (control_fits p) (bindE (abortAttempt (abortOf rq)) (\<lambda>_. Ret PortStoodDown)) t (start_law r rq)"
    proof (rule ensures_bindI [OF abortAttempt_law [OF steps]], goal_cases)
      case (1 t' u)
      then obtain s' where s': "t' = t @ s'" "everyStep (startStep r rq) t'" "untouched s'" "abortDone rq s'" by auto
      have "abortDone rq t'" using s'(4) unfolding s'(1) abortDone_def by auto
      moreover have "stoodDown (sr_goalRunId rq) t'" unfolding s'(1) by (rule stoodDown_append(2) [OF down])
      moreover have "(RecordStart x q, a) \<notin> set t'" for x q a
        using c untouched_free [OF s'(3)] by (simp add: s'(1) created_run_def)
      ultimately show ?case using s'(2) by (simp add: start_law_def) (metis prod.collapse)
    next
      case (2 t' e)
      then show ?case by (auto simp: start_law_def)
    qed
    then show ?thesis using True by (simp del: ensures_bind)
  next
    case False
    have st: "everyStep (startStep r rq) t" "(StartRun (startFor r rq), DoneAnswer) \<in> set t"
      "(SeatAttempt r rq, SeatAnswer (Seated sid)) \<in> set t" "\<And>x q a. (RecordStart x q, a) \<notin> set t"
      using c by (simp_all add: created_run_def)
    have kept: "seenInTime (sr_goalRunId rq) (t @ [(SignalAborted, FlagAnswer x)])"
      "seenAlive (sr_goalRunId rq) (t @ [(SignalAborted, FlagAnswer x)])" for x
      using s(4) False by (auto simp: seen_steps split: option.splits)
    have quiet: "everyStep (startStep r rq) (t @ [(SignalAborted, FlagAnswer x)])" for x
      by (rule calm_steps [OF _ st(1)]) simp
    have asked: "(StartRun (startFor r rq), DoneAnswer) \<in> set (t @ [(SignalAborted, FlagAnswer False)])
        \<and> seenInTime (sr_goalRunId rq) (t @ [(SignalAborted, FlagAnswer False)])
      \<or> adoptable r rq (t @ [(SignalAborted, FlagAnswer False)])"
      using kept(1) st(2) by simp
    have linked: "everyStep (startStep r rq) (t @ [(SignalAborted, FlagAnswer False), (RecordStart r rq, a)])"
      "everyStep (startStep r rq) (t @ [(SignalAborted, FlagAnswer False), (RecordStart r rq, DoneAnswer), (WatchAttempt g i run, b)])"
      for a g i run b
      using linked_steps(1) [OF quiet kept(2) asked, of a] linked_steps(2) [OF quiet kept(2) asked, of g i run b] by simp_all
    show ?thesis
      using False st linked quiet
      by (auto simp: control_steps start_law_def linked_def stoodDown_def)
  qed
next
  case (2 t e)
  then obtain s where "t = tr @ s" "calm s" by auto
  then show ?case using created_calm [OF assms] by (simp add: start_law_def created_run_def)
qed

subsection \<open>The start, and one that was lost\<close>

text \<open>Before the run may be created: ready, in time, owned and seated.\<close>

definition seated :: "goal_state \<Rightarrow> start_request \<Rightarrow> jstr \<Rightarrow> (control_operation, control_answer) trace \<Rightarrow> bool" where
  "seated r rq sid t \<longleftrightarrow>
     ready_to_start r rq t \<and> seenInTime (sr_goalRunId rq) t \<and> claimOwn r rq t
     \<and> (SeatAttempt r rq, SeatAnswer (Seated sid)) \<in> set t"

lemma start_asked: "seated r rq sid t \<Longrightarrow> everyStep (startStep r rq) (t @ [(StartRun (startFor r rq), a)])"
  by (auto simp: seated_def ready_to_start_def everyStep_snoc startStep_def)

lemma startLost_law:
  assumes "ready_to_start r rq tr" "(StartRun (startFor r rq), Rejection e) \<in> set tr"
  shows "ensures (control_fits p) (startLost r rq e) tr (start_law r rq)"
  unfolding startLost_def
proof (rule ensures_bindI [OF adopt_law [OF assms(1)]], goal_cases)
  case (1 t raced)
  show ?case
  proof (cases raced)
    case None
    then obtain s where s: "t = tr @ s" "calm s" using 1 by (auto simp: adopt_law_def)
    have r: "ready_to_start r rq t" unfolding s(1) by (rule ready_calm [OF assms(1) s(2)])
    have quiet: "untouched t" using r by (simp add: ready_to_start_def)
    have "start_law r rq t (Inr PortStoodDown)" if "e = TombstonedFault"
    proof -
      have "(StartRun (startFor r rq), Rejection TombstonedFault) \<in> set t" using assms(2) that s(1) by simp
      moreover have "\<forall>e \<in> set t. \<not> (\<exists>s q. fst e = RecordStart s q)"
        using untouched_free [OF quiet] by (metis prod.collapse)
      ultimately show ?thesis
        using r untouched_free [OF quiet] unfolding ready_to_start_def start_law_def by simp
    qed
    then show ?thesis
      unfolding None option.case
      using r start_law_failed start_law_fault by (cases e) simp_all
  next
    case (Some answer)
    then show ?thesis using 1 by (simp add: adopt_law_def)
  qed
next
  case (2 t e)
  then show ?case by (simp add: adopt_law_def)
qed

lemma startSeated_law:
  assumes "seated r rq sid tr"
  shows "ensures (control_fits p) (startSeated r rq sid) tr (start_law r rq)"
proof -
  define lost where "lost = startLost r rq"
  define settle where "settle = settleStart r rq sid"
  have r: "ready_to_start r rq (tr @ [(StartRun (startFor r rq), Rejection e)])" for e
    using assms start_asked [OF assms, of "Rejection e"] by (simp add: seated_def ready_to_start_def creates_def)
  have "ensures (control_fits p) (lost e) (tr @ [(StartRun (startFor r rq), Rejection e)]) (start_law r rq)" for e
    unfolding lost_def by (rule startLost_law [OF r]) simp
  moreover have "created_run r rq sid (tr @ [(StartRun (startFor r rq), DoneAnswer)])"
    using assms start_asked [OF assms, of DoneAnswer] untouched_free [of tr]
    by (simp add: seated_def created_run_def ready_to_start_def)
  then have "ensures (control_fits p) settle (tr @ [(StartRun (startFor r rq), DoneAnswer)]) (start_law r rq)"
    unfolding settle_def by (rule settleStart_law)
  ultimately show ?thesis
    unfolding startSeated_def lost_def [symmetric] settle_def [symmetric]
    by (auto simp: control_steps)
qed

lemma standDownIf_law:
  assumes "ready_to_start r rq tr"
    and "\<And>t s. t = tr @ s \<Longrightarrow> calm s \<Longrightarrow> ready_to_start r rq t \<Longrightarrow> seenInTime (sr_goalRunId rq) t \<Longrightarrow>
      ensures (control_fits p) go t (start_law r rq)"
  shows "ensures (control_fits p) (standDownIf (mustStandDown (sr_goalRunId rq) True) go) tr (start_law r rq)"
  unfolding standDownIf_def
proof (rule ensures_bindI [OF mustStandDown_law], goal_cases)
  case (1 t over)
  then obtain s where s: "t = tr @ s" "calm s" "over \<longrightarrow> stoodDown (sr_goalRunId rq) t"
    "\<not> over \<longrightarrow> seenInTime (sr_goalRunId rq) t"
    using stoodDown_append(1) by fastforce
  have r: "ready_to_start r rq t" unfolding s(1) by (rule ready_calm [OF assms(1) s(2)])
  show ?case using start_law_down [OF r] assms(2) [OF s(1,2) r] s(3,4) by simp
next
  case (2 t e)
  then show ?case using ready_calm [OF assms(1)] start_law_fault by blast
qed

lemma startNew_law:
  assumes "ready_to_start r rq tr" "claimOwn r rq tr"
  shows "ensures (control_fits p) (startNew r rq) tr (start_law r rq)"
proof -
  define over where "over = mustStandDown (sr_goalRunId rq) True"
  define run where "run sid = standDownIf over (startSeated r rq sid)" for sid
  define seats where "seats = bindE (seatAttempt r rq) (\<lambda>seat. case seat of
      SeatFailed detail \<Rightarrow> Ret (PortFailed detail) | Seated sessionId \<Rightarrow> run sessionId)"
  have run: "ensures (control_fits p) (run sid) t (start_law r rq)"
    if "ready_to_start r rq t" "claimOwn r rq t" "(SeatAttempt r rq, SeatAnswer (Seated sid)) \<in> set t" for t sid
    unfolding run_def over_def
    by (rule standDownIf_law [OF that(1)], rule startSeated_law)
      (use that claimOwn_append(2) in \<open>auto simp: seated_def\<close>)
  have seats: "ensures (control_fits p) seats t (start_law r rq)"
    if t: "ready_to_start r rq t" "claimOwn r rq t" "seenInTime (sr_goalRunId rq) t" for t
  proof -
    have s: "ready_to_start r rq (t @ [(SeatAttempt r rq, a)])" for a
      using t by (simp add: ready_to_start_def everyStep_snoc startStep_def creates_def)
    show ?thesis
      unfolding seats_def
      using s run [OF s claimOwn_append(2) [OF t(2)]] start_law_failed start_law_fault
      by (auto simp: control_steps split: seat.split)
  qed
  define go where "go = standDownIf over seats"
  have "ensures (control_fits p) go t (start_law r rq)" if "ready_to_start r rq t" "claimOwn r rq t" for t
    unfolding go_def over_def
    by (rule standDownIf_law [OF that(1)], rule seats) (use that claimOwn_append(2) in auto)
  moreover have "ready_to_start r rq (tr @ [(PlanAgent a, x)])" "claimOwn r rq (tr @ [(PlanAgent a, x)])" for a x
    using ready_calm [OF assms(1), of "[(PlanAgent a, x)]"] claimOwn_append(2) [OF assms(2)] by simp_all
  ultimately show ?thesis
    unfolding startNew_def Let_def over_def [symmetric] run_def [symmetric] seats_def [symmetric] go_def [symmetric]
    using start_law_failed start_law_fault by (auto simp: control_steps split: option.split)
qed

subsection \<open>The whole start\<close>

lemma startOwned_law:
  assumes "ready_to_start r rq tr"
  shows "ensures (control_fits p) (startOwned r rq) tr (start_law r rq)"
proof -
  define go where "go = bindE (adopt r rq) (\<lambda>adopted. case adopted of Some answer \<Rightarrow> Ret answer | None \<Rightarrow> startNew r rq)"
  define owned where "owned = bindE (verifySession r (sr_attemptIndex rq)) (\<lambda>foreign. case foreign of
      Some why \<Rightarrow> Ret (PortFailed (conversationPolicyDetail why)) | None \<Rightarrow> go)"
  have go: "ensures (control_fits p) go t (start_law r rq)" if t: "ready_to_start r rq t" "claimOwn r rq t" for t
    unfolding go_def
  proof (rule ensures_bindI [OF adopt_law [OF t(1)]], goal_cases)
    case (1 t' adopted)
    show ?case
    proof (cases adopted)
      case None
      then obtain s where "t' = t @ s" "calm s" using 1 by (auto simp: adopt_law_def)
      then have "ready_to_start r rq t'" "claimOwn r rq t'" using ready_calm [OF t(1)] claimOwn_append(2) [OF t(2)] by simp_all
      then show ?thesis unfolding None option.case by (rule startNew_law)
    next
      case (Some answer)
      then show ?thesis using 1 by (simp add: adopt_law_def)
    qed
  next
    case (2 t' e)
    then show ?case by (simp add: adopt_law_def)
  qed
  have owned: "ensures (control_fits p) owned t (start_law r rq)" if t: "ready_to_start r rq t" "claimOwn r rq t" for t
  proof -
    have "ready_to_start r rq (t @ [(VerifySession r (sr_attemptIndex rq), a)])" for a
      by (rule ready_calm [OF t(1)]) simp
    then show ?thesis
      unfolding owned_def
      using go [OF _ claimOwn_append(2) [OF t(2)]] start_law_failed start_law_fault
      by (auto simp: control_steps split: option.split)
  qed
  have "ensures (control_fits p) (bindE (verifyRun (expectedOwner r (sr_attemptIndex rq)) (sr_runId rq)) (\<lambda>ownership.
       case ownership of
         Foreign detail \<Rightarrow> Ret (PortFailed (runStartDetail detail))
       | CorruptClaim detail \<Rightarrow> Ret (PortFailed (runStartDetail detail))
       | _ \<Rightarrow> owned)) tr (start_law r rq)"
  proof (rule ensures_bindI [OF verifyRun_law], goal_cases)
    case (1 t ownership)
    then obtain s where s: "t = tr @ s" "calm s" "ownership \<in> {Owned, Absent} \<longrightarrow> claimOwn r rq t"
      using claimOwn_append(1) by fastforce
    have rt: "ready_to_start r rq t" unfolding s(1) by (rule ready_calm [OF assms s(2)])
    show ?case using owned [OF rt] rt s(3) start_law_failed by (cases ownership) simp_all
  next
    case (2 t e)
    then show ?case using ready_calm [OF assms] start_law_fault by blast
  qed
  then show ?thesis unfolding startOwned_def owned_def go_def .
qed

text \<open>The record the call read first.\<close>

definition firstRead :: "jstr \<Rightarrow> (control_operation, control_answer) trace \<Rightarrow> goal_state \<Rightarrow> bool" where
  "firstRead g t r \<longleftrightarrow> t \<noteq> [] \<and> hd t = (StoreGet g, RecordAnswer (Some r))"

lemma overAtFirst_law:
  assumes "(StoreGet g, RecordAnswer (Some r)) \<in> set tr"
  shows "ensures (control_fits p) (overAtFirst r) tr
     (\<lambda>t result. \<exists>s over. t = tr @ s \<and> calm s \<and> result = Inr over \<and> (over \<longrightarrow> stoodDown g t))"
  unfolding overAtFirst_def
  using assms by (fastforce simp: control_steps stoodDown_def seenOver_def)

lemma startAttempt_law:
  "ensures (control_fits p) (startAttempt rq) []
     (\<lambda>t result. (\<exists>r. firstRead (sr_goalRunId rq) t r \<and> start_law r rq t result)
        \<or> calm t \<and> (\<forall>answer. result = Inr answer \<longrightarrow> (\<exists>detail. answer = PortFailed detail)))"
  (is "ensures _ _ _ ?Q")
proof -
  define go where "go r = standDownIf (overAtFirst r) (startOwned r rq)" for r
  have "ensures (control_fits p) (go r) [(StoreGet (sr_goalRunId rq), RecordAnswer (Some r)), (HasEngine, FlagAnswer True)] ?Q" for r
  proof -
    let ?t = "[(StoreGet (sr_goalRunId rq), RecordAnswer (Some r)), (HasEngine, FlagAnswer True)]"
    have first: "firstRead (sr_goalRunId rq) (?t @ s) r" for s by (simp add: firstRead_def)
    have r: "ready_to_start r rq ?t"
      using calm_steps [of ?t r rq "[]"] by (simp add: ready_to_start_def creates_def)
    have "ensures (control_fits p) (go r) ?t (\<lambda>t result. start_law r rq t result)"
      unfolding go_def standDownIf_def
    proof (rule ensures_bindI [OF overAtFirst_law [where g = "sr_goalRunId rq"]], goal_cases)
      case (2 t over)
      then obtain s where s: "t = ?t @ s" "calm s" "over \<longrightarrow> stoodDown (sr_goalRunId rq) t" by blast
      have rt: "ready_to_start r rq t" unfolding s(1) by (rule ready_calm [OF r s(2)])
      show ?case using startOwned_law [OF rt] start_law_down [OF rt] s(3) by simp
    qed auto
    then have "ensures (control_fits p) (go r) ?t (\<lambda>t result. start_law r rq t result \<and> (\<exists>s. t = ?t @ s))"
      by (rule ensures_conj [OF _ ensures_suffix])
    then show ?thesis by (rule ensures_mono) (use first in blast)
  qed
  then show ?thesis
    unfolding startAttempt_def go_def [symmetric]
    by (auto simp: control_steps split: option.split)
qed

subsection \<open>A verdict\<close>

text \<open>Only an executed validator gives one, over the ended result of the attempt's own run.\<close>

definition executed :: "validator_request \<Rightarrow> (control_operation, control_answer) trace \<Rightarrow> json outcome \<Rightarrow> bool" where
  "executed rq t outcome \<longleftrightarrow>
     (\<exists>record execution run. attemptOf (Some record) (vq_attemptIndex rq) = Some (record, run)
        \<and> (StoreGet (vq_goalRunId rq), RecordAnswer (Some record)) \<in> set t
        \<and> (ReadRunResult (a_runId run), ReadingAnswer ReadingCompleted) \<in> set t
        \<and> (ExecuteValidator record rq, ExecutionAnswer execution) \<in> set t
        \<and> outcome = boundValidationOutcome (ex_outcome execution) GOAL_VALIDATION_MAXIMUM_BYTES)"

fun isLoadFault :: "json outcome \<Rightarrow> bool" where
  "isLoadFault (ErrorOutcome e) \<longleftrightarrow> e_kind e = KLoad"
| "isLoadFault (Unavailable e reason) \<longleftrightarrow> e_kind e = KLoad"
| "isLoadFault _ \<longleftrightarrow> False"

definition validation_law ::
  "validator_request \<Rightarrow> (control_operation, control_answer) trace \<Rightarrow> fault + validator_result \<Rightarrow> bool" where
  "validation_law rq t result \<longleftrightarrow>
     (\<forall>r. result = Inr r \<longrightarrow> vr_identity r = vq_validator rq \<and> ok_outcome (vr_outcome r)
        \<and> (isLoadFault (vr_outcome r) \<and> (\<forall>s a. (ExecuteValidator s rq, a) \<notin> set t)
           \<or> executed rq t (vr_outcome r) \<and> fitsWithin (vr_outcome r) GOAL_VALIDATION_MAXIMUM_BYTES))"

abbreviation unexecuted :: "(control_operation, control_answer) trace \<Rightarrow> bool" where
  "unexecuted \<equiv> list_all (\<lambda>e. \<not> (\<exists>s q. fst e = ExecuteValidator s q))"

lemma unavailable_law:
  assumes "unexecuted tr"
  shows "ensures (control_fits p) (unavailable rq startedAt kind code message) tr (validation_law rq)"
proof -
  have none: "(ExecuteValidator s q, a) \<notin> set tr" for s q a
    using assms by (auto simp: list_all_iff)
  have ok: "ok_error \<lparr>e_kind = k, e_code = c, e_message = m, e_cause = None\<rparr>" for k c m
    by (simp add: ok_error_def)
  show ?thesis
    unfolding unavailable_def
    using none ok by (cases kind) (auto simp: control_steps validation_law_def Let_def)
qed

lemma runResolved_law:
  assumes "attemptOf (Some s) (vq_attemptIndex rq) = Some (s, run)"
    and "(StoreGet (vq_goalRunId rq), RecordAnswer (Some s)) \<in> set tr"
    and "(ReadRunResult (a_runId run), ReadingAnswer ReadingCompleted) \<in> set tr"
  shows "ensures (control_fits p) (runResolved s rq) tr (validation_law rq)"
proof -
  have bounded: "fitsWithin (boundValidationOutcome out GOAL_VALIDATION_MAXIMUM_BYTES) GOAL_VALIDATION_MAXIMUM_BYTES
      \<and> ok_outcome (boundValidationOutcome out GOAL_VALIDATION_MAXIMUM_BYTES)" if "ok_outcome out" for out
    using bounded_outcome [OF _ that, of GOAL_VALIDATION_MAXIMUM_BYTES] by (simp add: GOAL_VALIDATION_MAXIMUM_BYTES_def)
  have ran: "executed rq (tr @ [(ExecuteValidator s rq, ExecutionAnswer x)])
      (boundValidationOutcome (ex_outcome x) GOAL_VALIDATION_MAXIMUM_BYTES)" for x
    unfolding executed_def using assms by auto
  show ?thesis
    unfolding runResolved_def using bounded ran by (auto simp: control_steps validation_law_def)
qed

lemma runValidator_law: "ensures (control_fits p) (runValidator rq) [] (validation_law rq)"
proof -
  define cannot where "cannot = unavailable rq"
  define judge where "judge s = runResolved s rq" for s
  have cannot: "unexecuted tr \<Longrightarrow> ensures (control_fits p) (cannot startedAt kind code message) tr (validation_law rq)"
    for tr startedAt kind code message
    unfolding cannot_def by (rule unavailable_law)
  have judge: "ensures (control_fits p) (judge s)
      [first, second, (StoreGet (vq_goalRunId rq), RecordAnswer stored), (HasEngine, FlagAnswer True),
       (ResolveCost (a_runId run), DoneAnswer), (ReadRunResult (a_runId run), ReadingAnswer ReadingCompleted)] (validation_law rq)"
    if "attemptOf stored (vq_attemptIndex rq) = Some (s, run)" for s run stored first second
  proof -
    have "stored = Some s" using that by (auto simp: attemptOf_def split: option.splits if_splits)
    then show ?thesis
      using that unfolding judge_def by (intro runResolved_law [where run = run]) simp_all
  qed
  have fault: "validation_law rq t (Inl e)" for t e by (simp add: validation_law_def)
  show ?thesis
    unfolding runValidator_def validateAttempt_def cannot_def [symmetric] judge_def [symmetric]
    using cannot judge fault
    by (auto simp: control_steps split: option.split validator_resolution.split run_result_reading.split)
qed

subsection \<open>An answer that was not bounded\<close>

lemma length_escapeText: "length s \<le> length (escapeText s)"
proof (induction s rule: length_induct)
  case (1 s)
  show ?case
  proof (cases s)
    case (Cons c cs)
    have "1 \<le> length (escapeUnit c)" "length (unicodeEscape c) = 6"
      by (simp_all add: escapeUnit_def Let_def unicodeEscape_def)
    moreover have "length cs \<le> length (escapeText cs)" "cs = d # ds \<Longrightarrow> length ds \<le> length (escapeText ds)" for d ds
      using 1 Cons by simp_all
    ultimately show ?thesis
      unfolding Cons escapeText.simps(2) [of c cs] by (auto simp del: escapeText.simps(2) split: list.split)
  qed simp
qed

lemma unavailable_size: "length reason < jsonByteLength (enc_outcome (Unavailable e reason))"
proof -
  have "length reason < length (stringify (enc_outcome (Unavailable e reason)))"
    using length_escapeText [of reason]
    by (simp add: obj_def List.map_filter_def lit_simps quoted_def isFunction.simps)
  also have "\<dots> \<le> jsonByteLength (enc_outcome (Unavailable e reason))"
    unfolding jsonByteLength_def using utf8ByteLength_bounds by blast
  finally show ?thesis .
qed

text \<open>
  The outcome the port itself makes is not bounded: for a validator that is no longer registered and whose
  name is longer than the cap, it is one the store refuses as oversized.
\<close>

lemma missing_validator_oversized:
  assumes "GOAL_VALIDATION_MAXIMUM_BYTES \<le> length (id_name (vq_validator rq))"
    and "runs (control_fits p) (runValidator rq)
      ([(ClockNowIso, StampAnswer a), (ResolveValidator (enc_identity (vq_validator rq)), ValidatorAnswer ValidatorMissing)] @ t)
      (Inr r)"
  shows "\<not> fitsWithin (vr_outcome r) GOAL_VALIDATION_MAXIMUM_BYTES"
proof -
  have "\<exists>e. vr_outcome r = Unavailable e (missingMessage (vq_validator rq))"
    using assms(2)
    by (auto simp: runValidator_def unavailable_def clockNowIso_def catalogResolve_def perform_def Let_def
        split: control_answer.splits)
  then obtain e where e: "vr_outcome r = Unavailable e (missingMessage (vq_validator rq))" by blast
  have "length (id_name (vq_validator rq)) < length (missingMessage (vq_validator rq))"
    by (simp add: missingMessage_def lit_simps)
  then show ?thesis
    using assms(1) unavailable_size [of "missingMessage (vq_validator rq)" e] unfolding e fitsWithin_def by linarith
qed

subsection \<open>The properties\<close>


text \<open>
  \<^bold>\<open>C12\<close> The answer of a start is true of what it did: \<open>started\<close> says the engine created the run it seated and
  the run was recorded and watched; \<open>adopted\<close> that a run was found under the id and read as the goal's own;
  \<open>failed\<close> that no run was created and none recorded; \<open>stood-down\<close> that the goal was seen over, the try timed
  out or the claim tombstoned, that nothing was recorded, and that a run created meanwhile was cancelled
  unless a retry is left to adopt it.
\<close>

theorem start_answers:
  assumes "runs (control_fits p) (startAttempt rq) t (Inr answer)"
  shows "(\<exists>r. firstRead (sr_goalRunId rq) t r \<and> answerTrue r rq t answer)
    \<or> untouched t \<and> (\<exists>detail. answer = PortFailed detail)"
  using ensuresD [OF startAttempt_law assms] calm_untouched by (auto simp: start_law_def)


end
