(* ===== verification/GoalConversation.thy ===== *)
theory GoalConversation
  imports GoalHost
begin

section \<open>The conversations attempts run in\<close>

text \<open>
  \<open>packages/bureau/src/goal-conversation.ts\<close>: which session an attempt runs in, what it is seeded with,
  and the run it records there. A session has a transcript of any type; the store that keeps sessions, the
  engine's checkpoints and the builders of transcripts are operations others answer. The counters and
  timestamps the store itself stamps on a session are left out.
\<close>

subsection \<open>Sessions\<close>

datatype ref_status = RefRunning | RefCompleted | RefError | RefAborted

text \<open>
  What a goal reads of a reference, \<open>rf_boundary\<close> being whether the run committed a transcript; the other members
  are the session's own and are never looked at here.
\<close>

record run_ref =
  rf_runId :: jstr
  rf_sequence :: nat
  rf_status :: ref_status
  rf_boundary :: bool
  rf_startedAt :: jstr
  rf_agentName :: jstr

record 'h agent_session =
  ss_id :: jstr
  ss_agentName :: jstr
  ss_history :: 'h
  ss_metadata :: jsval
  ss_runs :: "run_ref list"

subsection \<open>Whose session it is\<close>

definition attemptRunPrefix :: "goal_state \<Rightarrow> jstr" where
  "attemptRunPrefix r = butlast (goalAttemptRunId (s_goalRunId r) 0)"

text \<open>
  \<open>isAttemptRun\<close>; past \<open>2^53\<close> the number of the suffix is rounded, but no such index is below the maximum a
  record decodes with.
\<close>

definition isAttemptRun :: "goal_state \<Rightarrow> jstr \<Rightarrow> bool" where
  "isAttemptRun r runId \<longleftrightarrow>
     startsWith runId (attemptRunPrefix r)
     \<and> (let suffix = drop (length (attemptRunPrefix r)) runId; attemptIndex = readDecimal suffix
        in suffix \<noteq> [] \<and> allDigits suffix
           \<and> jlt (jnat attemptIndex) (b_maximumAttempts (s_bounds r))
           \<and> goalAttemptRunId (s_goalRunId r) attemptIndex = runId)"

definition sessionPrincipal :: "jsval \<Rightarrow> jsval" where
  "sessionPrincipal metadata =
     (let authority = jget metadata ''lastRequestAuthority''
      in if isRecord authority \<and> \<not> isArray authority then jget authority ''principalId'' else JUndef)"

datatype refusal = NotThisGoal | DifferentPrincipal | DifferentAgent | ForeignRun | RunOfOtherAgent

definition foreignSession :: "goal_state \<Rightarrow> 'h agent_session \<Rightarrow> refusal option" where
  "foreignSession r session =
     (if jget (ss_metadata session) ''goalRunId'' \<noteq> JStr (s_goalRunId r) then Some NotThisGoal
      else if sessionPrincipal (ss_metadata session) \<noteq> optional JStr (s_principal r) then Some DifferentPrincipal
      else if ss_agentName session \<noteq> ob_agentName (s_objective r) then Some DifferentAgent
      else if \<not> list_all (\<lambda>ref. isAttemptRun r (rf_runId ref)) (ss_runs session) then Some ForeignRun
      else if \<not> list_all (\<lambda>ref. rf_agentName ref = ob_agentName (s_objective r)) (ss_runs session)
        then Some RunOfOtherAgent
      else None)"

fun refusalText :: "refusal \<Rightarrow> jstr" where
  "refusalText NotThisGoal = lit ''was not created for this goal''"
| "refusalText DifferentPrincipal = lit ''belongs to a different principal''"
| "refusalText DifferentAgent = lit ''belongs to a different agent''"
| "refusalText ForeignRun =
     lit ''holds a run that is not one of this goal'' @ [ch (CHR 0x27)] @ lit ''s attempts''"
| "refusalText RunOfOtherAgent = lit ''holds a run of a different agent''"

definition foreignSessionReason :: "goal_state \<Rightarrow> 'h agent_session \<Rightarrow> jstr option" where
  "foreignSessionReason r session =
     map_option (\<lambda>why. lit ''Session \"'' @ ss_id session @ lit ''\" '' @ refusalText why @ lit '', so goal \"''
         @ s_goalRunId r @ lit ''\" will not use it.'')
       (foreignSession r session)"

definition goalSessionMetadata :: "goal_state \<Rightarrow> (jstr \<times> jsval) list" where
  "goalSessionMetadata r =
     (lit ''goalRunId'', JStr (s_goalRunId r))
     # (case s_principal r of
          None \<Rightarrow> []
        | Some principalId \<Rightarrow>
            [(lit ''lastRequestAuthority'',
              JObj [(lit ''principalId'', JStr principalId), (lit ''tenantId'', JStr (lit ''bureau'')),
                    (lit ''ownerId'', JStr (ob_agentName (s_objective r))),
                    (lit ''capabilities'', JArr [JStr (lit ''tools:execute'')]),
                    (lit ''authorizationRevision'', JStr (lit ''bureau:1''))])])"

text \<open>\<open>{ ...a, ...b }\<close>.\<close>

definition spread :: "(jstr \<times> jsval) list \<Rightarrow> (jstr \<times> jsval) list \<Rightarrow> (jstr \<times> jsval) list" where
  "spread a b =
     map (\<lambda>(k, v). (k, withDefault v (map_of b k))) a @ filter (\<lambda>(k, v). map_of a k = None) b"

subsection \<open>The store, and what builds transcripts\<close>

text \<open>
  The faults \<open>seat\<close> tells apart, with their texts. An update carries its updater, which the store applies
  to what it holds, at the time of its clock.
\<close>

datatype session_fault =
    ForkThroughRun jstr
  | FreshArtifact jstr
  | ConversationRefused jstr
  | OtherSession

datatype 'h session_operation =
    LoadSession jstr
  | UpdateSession jstr "jstr \<Rightarrow> 'h agent_session option \<Rightarrow> session_fault + 'h agent_session option"
  | HasDurable
  | ReconcileRef jstr run_ref
  | RunTranscript "run_ref list" jnum
  | FreshTranscript goal_state

datatype 'h session_answer =
    LoadedAnswer "'h agent_session option"
  | EngineAnswer bool
  | ReconciledAnswer
  | TranscriptAnswer "'h option"
  | FreshAnswer 'h jsval
  | SessionRejection session_fault

definition session_fits :: "'h session_operation \<Rightarrow> 'h session_answer \<Rightarrow> bool" where
  "session_fits op a \<longleftrightarrow>
     (case op of
        LoadSession sid \<Rightarrow>
          (\<exists>x. a = LoadedAnswer x \<and> pred_option (\<lambda>s. ss_id s = sid) x) \<or> a = SessionRejection OtherSession
      | UpdateSession sid updater \<Rightarrow>
          (\<exists>now existing. pred_option (\<lambda>s. ss_id s = sid) existing
             \<and> a = (case updater now existing of Inl e \<Rightarrow> SessionRejection e | Inr x \<Rightarrow> LoadedAnswer x))
          \<or> a = SessionRejection OtherSession
      | HasDurable \<Rightarrow> (\<exists>x. a = EngineAnswer x)
      | ReconcileRef sid ref \<Rightarrow> a = ReconciledAnswer \<or> a = SessionRejection OtherSession
      | RunTranscript refs through \<Rightarrow> (\<exists>x. a = TranscriptAnswer x)
      | FreshTranscript r \<Rightarrow>
          (\<exists>h attempt. a = FreshAnswer h attempt)
          \<or> (\<exists>e. a = SessionRejection e \<and> (e = OtherSession \<or> (\<exists>message. e = FreshArtifact message))))"

type_synonym ('h, 'a) session_program = "('h session_operation, 'h session_answer, session_fault, 'a) effect"

definition ask :: "'h session_operation \<Rightarrow> ('h session_answer \<Rightarrow> 'a option) \<Rightarrow> ('h, 'a) session_program" where
  "ask op read =
     Perform op (\<lambda>a. case a of
         SessionRejection e \<Rightarrow> Raise e
       | _ \<Rightarrow> (case read a of None \<Rightarrow> Raise OtherSession | Some x \<Rightarrow> Ret x))"

definition loadSession :: "jstr \<Rightarrow> ('h, 'h agent_session option) session_program" where
  "loadSession sid = ask (LoadSession sid) (\<lambda>a. case a of LoadedAnswer x \<Rightarrow> Some x | _ \<Rightarrow> None)"

definition updateSession ::
  "jstr \<Rightarrow> (jstr \<Rightarrow> 'h agent_session option \<Rightarrow> session_fault + 'h agent_session option) \<Rightarrow>
     ('h, 'h agent_session option) session_program" where
  "updateSession sid updater =
     ask (UpdateSession sid updater) (\<lambda>a. case a of LoadedAnswer x \<Rightarrow> Some x | _ \<Rightarrow> None)"

definition hasDurable :: "('h, bool) session_program" where
  "hasDurable = ask HasDurable (\<lambda>a. case a of EngineAnswer x \<Rightarrow> Some x | _ \<Rightarrow> None)"

definition reconcileRef :: "jstr \<Rightarrow> run_ref \<Rightarrow> ('h, unit) session_program" where
  "reconcileRef sid ref = ask (ReconcileRef sid ref) (\<lambda>a. case a of ReconciledAnswer \<Rightarrow> Some () | _ \<Rightarrow> None)"

definition runTranscript :: "run_ref list \<Rightarrow> jnum \<Rightarrow> ('h, 'h option) session_program" where
  "runTranscript refs through =
     ask (RunTranscript refs through) (\<lambda>a. case a of TranscriptAnswer x \<Rightarrow> Some x | _ \<Rightarrow> None)"

text \<open>\<open>createFreshAttemptSession\<close>: the transcript, and the \<open>freshAttempt\<close> its metadata consists of.\<close>

definition freshTranscript :: "goal_state \<Rightarrow> ('h, 'h \<times> jsval) session_program" where
  "freshTranscript r = ask (FreshTranscript r) (\<lambda>a. case a of FreshAnswer h attempt \<Rightarrow> Some (h, attempt) | _ \<Rightarrow> None)"

subsection \<open>Writing a session\<close>

text \<open>\<open>blank\<close> is the transcript of a new conversation.\<close>

definition emptySession :: "'h \<Rightarrow> goal_state \<Rightarrow> jstr \<Rightarrow> 'h agent_session" where
  "emptySession blank r sessionId =
     \<lparr>ss_id = sessionId, ss_agentName = ob_agentName (s_objective r), ss_history = blank,
      ss_metadata = JObj (goalSessionMetadata r), ss_runs = []\<rparr>"

definition ownedSession :: "goal_state \<Rightarrow> 'h agent_session \<Rightarrow> ('h, 'h agent_session) session_program" where
  "ownedSession r session =
     (case foreignSessionReason r session of
        Some foreign \<Rightarrow> Raise (ConversationRefused foreign)
      | None \<Rightarrow> Ret session)"

definition ownedIfAny :: "goal_state \<Rightarrow> 'h agent_session option \<Rightarrow> ('h, 'h agent_session option) session_program" where
  "ownedIfAny r loaded =
     (case loaded of
        None \<Rightarrow> Ret None
      | Some session \<Rightarrow> bindE (ownedSession r session) (\<lambda>s. Ret (Some s)))"

text \<open>Nothing is written over a session that is there.\<close>

definition onceUpdater ::
  "'h agent_session \<Rightarrow> jstr \<Rightarrow> 'h agent_session option \<Rightarrow> session_fault + 'h agent_session option" where
  "onceUpdater candidate now existing = Inr (if existing = None then Some candidate else None)"

definition createOnce :: "goal_state \<Rightarrow> 'h agent_session \<Rightarrow> ('h, 'h agent_session) session_program" where
  "createOnce r candidate =
     bindE (updateSession (ss_id candidate) (onceUpdater candidate)) (\<lambda>stored.
       bindE (if stored = None then loadSession (ss_id candidate) else Ret stored) (\<lambda>found.
         case found of
           None \<Rightarrow> Raise OtherSession
         | Some session \<Rightarrow> ownedSession r session))"

definition attemptSession :: "goal_state \<Rightarrow> nat \<Rightarrow> jstr" where
  "attemptSession r attemptIndex =
     attemptSessionId (s_goalRunId r) (policyKind (s_conversationPolicy r)) attemptIndex"

definition startRef :: "goal_state \<Rightarrow> jstr \<Rightarrow> jstr \<Rightarrow> 'h agent_session \<Rightarrow> run_ref" where
  "startRef r runId now session =
     \<lparr>rf_runId = runId, rf_sequence = length (ss_runs session), rf_status = RefRunning, rf_boundary = False,
      rf_startedAt = now, rf_agentName = ob_agentName (s_objective r)\<rparr>"

definition startUpdater ::
  "'h \<Rightarrow> goal_state \<Rightarrow> jstr \<Rightarrow> jstr \<Rightarrow> jstr \<Rightarrow> 'h agent_session option \<Rightarrow> session_fault + 'h agent_session option" where
  "startUpdater blank r sessionId runId now existing =
     (case Option.bind existing (foreignSessionReason r) of
        Some foreign \<Rightarrow> Inl (ConversationRefused foreign)
      | None \<Rightarrow>
          (let session = withDefault (emptySession blank r sessionId) existing
           in if list_ex (\<lambda>ref. rf_runId ref = runId) (ss_runs session)
              then Inr (if existing = None then Some session else None)
              else Inr (Some (session\<lparr>ss_runs := ss_runs session @ [startRef r runId now session]\<rparr>))))"

definition recordStart :: "'h \<Rightarrow> goal_state \<Rightarrow> nat \<Rightarrow> jstr \<Rightarrow> ('h, unit) session_program" where
  "recordStart blank r attemptIndex runId =
     bindE (updateSession (attemptSession r attemptIndex) (startUpdater blank r (attemptSession r attemptIndex) runId))
       (\<lambda>_. Ret ())"

subsection \<open>Committing a transcript\<close>

definition refOf :: "'h agent_session option \<Rightarrow> jstr \<Rightarrow> run_ref option" where
  "refOf session runId = Option.bind session (\<lambda>s. find (\<lambda>ref. rf_runId ref = runId) (ss_runs s))"

definition settleRef :: "jstr \<Rightarrow> run_ref option \<Rightarrow> ('h, unit) session_program" where
  "settleRef sessionId found =
     (case found of
        None \<Rightarrow> Raise OtherSession
      | Some ref \<Rightarrow>
          if rf_status ref \<noteq> RefRunning then Ret ()
          else bindE hasDurable (\<lambda>durable.
            if \<not> durable then Raise OtherSession else reconcileRef sessionId ref))"

definition settle :: "'h \<Rightarrow> goal_state \<Rightarrow> nat \<Rightarrow> jstr \<Rightarrow> ('h, unit) session_program" where
  "settle blank r attemptIndex runId =
     bindE (recordStart blank r attemptIndex runId) (\<lambda>_.
       bindE (loadSession (attemptSession r attemptIndex)) (\<lambda>loaded.
         bindE (ownedIfAny r loaded) (\<lambda>session.
           settleRef (attemptSession r attemptIndex) (refOf session runId))))"

text \<open>A completed run is owed a transcript; one that has none, or still runs, is a read to retry.\<close>

definition transcriptOwed :: "run_ref \<Rightarrow> bool" where
  "transcriptOwed ref \<longleftrightarrow> rf_status ref = RefRunning \<or> rf_status ref = RefCompleted \<and> \<not> rf_boundary ref"

definition noRecordMessage :: "goal_state \<Rightarrow> nat \<Rightarrow> jstr" where
  "noRecordMessage r attemptIndex =
     lit ''Session \"'' @ goalSessionId (s_goalRunId r) 0 @ lit ''\" has no record of attempt '' @ decimal attemptIndex
       @ [ch (CHR 0x27)] @ lit ''s run.''"

definition committedTrunk :: "'h \<Rightarrow> goal_state \<Rightarrow> nat \<Rightarrow> ('h, 'h agent_session) session_program" where
  "committedTrunk blank r attemptIndex =
     (let runId = goalAttemptRunId (s_goalRunId r) attemptIndex
      in bindE (settle blank r attemptIndex runId) (\<lambda>_.
           bindE (loadSession (goalSessionId (s_goalRunId r) 0)) (\<lambda>loaded.
             bindE (ownedIfAny r loaded) (\<lambda>found.
               case (found, refOf found runId) of
                 (Some trunk, Some ref) \<Rightarrow> if transcriptOwed ref then Raise OtherSession else Ret trunk
               | _ \<Rightarrow> Raise (ConversationRefused (noRecordMessage r attemptIndex))))))"

text \<open>\<open>conversationThroughRun\<close> of \<open>operative/src/session/run-conversation-boundary.ts\<close>.\<close>

datatype fork_refusal = ForkInvalid | ForkNegative | ForkOutOfRange | ForkNonTerminal | ForkUnavailable

fun numberName :: "jnum \<Rightarrow> jstr" where
  "numberName (Fin x) = numberText (Fin x)"
| "numberName PosInf = lit ''Infinity''"
| "numberName NegInf = lit ''-Infinity''"
| "numberName NaN = lit ''NaN''"

definition forkThroughRunMessage :: "jstr \<Rightarrow> jnum \<Rightarrow> nat \<Rightarrow> fork_refusal \<Rightarrow> jstr" where
  "forkThroughRunMessage sessionId throughRun runCount reason =
     (let prefix = lit ''session.fork({ throughRun: '' @ numberName throughRun @ lit '' }) on session \"''
        @ sessionId @ lit ''\"''
      in case reason of
           ForkOutOfRange \<Rightarrow> prefix @ lit '' is out of range: the session has '' @ decimal runCount @ lit '' run(s).''
         | ForkNonTerminal \<Rightarrow> prefix @ lit '' targets a run that has not reached a terminal status.''
         | ForkUnavailable \<Rightarrow> prefix @ lit '' targets a run with no recorded conversation boundary.''
         | _ \<Rightarrow> prefix @ lit '' requires a non-negative integer run sequence.'')"

definition conversationThroughRun :: "'h agent_session \<Rightarrow> jnum \<Rightarrow> ('h, 'h) session_program" where
  "conversationThroughRun session through =
     (let runs = ss_runs session;
          refuse = (\<lambda>reason. Raise (ForkThroughRun
            (forkThroughRunMessage (ss_id session) through (length runs) reason)))
      in if \<not> jisInteger through then refuse ForkInvalid
         else if jlt through (Fin 0) then refuse ForkNegative
         else if \<not> jlt through (jnat (length runs)) then refuse ForkOutOfRange
         else if rf_status (runs ! asNat (JNum through)) = RefRunning then refuse ForkNonTerminal
         else bindE (runTranscript runs through) (\<lambda>transcript.
           case transcript of None \<Rightarrow> refuse ForkUnavailable | Some h \<Rightarrow> Ret h))"

subsection \<open>The seed of an attempt\<close>

text \<open>A session an earlier try wrote is the seed; otherwise it is built once.\<close>

definition seedOnce :: "goal_state \<Rightarrow> jstr \<Rightarrow> ('h, 'h agent_session) session_program \<Rightarrow> ('h, 'h) session_program" where
  "seedOnce r sessionId build =
     bindE (loadSession sessionId) (\<lambda>written.
       case written of
         Some session \<Rightarrow> bindE (ownedSession r session) (\<lambda>s. Ret (ss_history s))
       | None \<Rightarrow> bindE build (\<lambda>candidate. bindE (createOnce r candidate) (\<lambda>stored. Ret (ss_history stored))))"

definition seedHistory :: "'h \<Rightarrow> goal_state \<Rightarrow> nat \<Rightarrow> jstr \<Rightarrow> ('h, 'h) session_program" where
  "seedHistory blank r attemptIndex sessionId =
     (case s_conversationPolicy r of
        Continue \<Rightarrow> bindE (committedTrunk blank r (attemptIndex - 1)) (\<lambda>trunk. Ret (ss_history trunk))
      | ForkFromBaseline throughRun \<Rightarrow> seedOnce r sessionId
          (bindE (committedTrunk blank r 0) (\<lambda>trunk.
             bindE (conversationThroughRun trunk throughRun) (\<lambda>h.
               Ret \<lparr>ss_id = sessionId, ss_agentName = ss_agentName trunk, ss_history = h,
                 ss_metadata = JObj (goalSessionMetadata r), ss_runs = []\<rparr>)))
      | FreshFromArtifact artifact \<Rightarrow> seedOnce r sessionId
          (bindE (freshTranscript r) (\<lambda>(h, attempt).
             Ret \<lparr>ss_id = sessionId, ss_agentName = ob_agentName (s_objective r), ss_history = h,
               ss_metadata = JObj (spread [(lit ''freshAttempt'', attempt)] (goalSessionMetadata r)), ss_runs = []\<rparr>)))"

definition verifyAttemptSession :: "goal_state \<Rightarrow> nat \<Rightarrow> ('h, jstr option) session_program" where
  "verifyAttemptSession r attemptIndex =
     bindE (loadSession (attemptSession r attemptIndex)) (\<lambda>existing.
       Ret (Option.bind existing (foreignSessionReason r)))"

text \<open>The first attempt runs the prompt as written; a later one the seed with the turn appended.\<close>

datatype 'h attempt_input = PromptInput jstr | ConversationInput 'h jstr

datatype 'h attempt_seat = SeatedAttempt jstr "'h attempt_input" | UnseatedAttempt jstr

definition seatAt :: "'h \<Rightarrow> goal_state \<Rightarrow> nat \<Rightarrow> jstr option \<Rightarrow> ('h, 'h attempt_seat) session_program" where
  "seatAt blank r attemptIndex feedback =
     (let sessionId = attemptSession r attemptIndex;
          turn = goalAttemptInput (policyKind (s_conversationPolicy r)) (ob_prompt (s_objective r)) attemptIndex feedback
      in if attemptIndex = 0 then
           bindE (verifyAttemptSession r 0) (\<lambda>foreign.
             case foreign of
               None \<Rightarrow> Ret (SeatedAttempt sessionId (PromptInput turn))
             | Some why \<Rightarrow> Ret (UnseatedAttempt (conversationPolicyDetail why)))
         else catchE
           (bindE (seedHistory blank r attemptIndex sessionId) (\<lambda>history.
              Ret (SeatedAttempt sessionId (ConversationInput history turn))))
           (\<lambda>e. case e of
               OtherSession \<Rightarrow> Raise OtherSession
             | ForkThroughRun message \<Rightarrow> Ret (UnseatedAttempt (conversationPolicyDetail message))
             | FreshArtifact message \<Rightarrow> Ret (UnseatedAttempt (conversationPolicyDetail message))
             | ConversationRefused message \<Rightarrow> Ret (UnseatedAttempt (conversationPolicyDetail message))))"

end
