(* ===== verification/ConversationLaws.thy ===== *)
theory ConversationLaws
  imports GoalConversation
begin

section \<open>What the conversations of a goal promise\<close>

text \<open>
  Every session a goal writes is its own, by the very test that refuses another's; recording a run is
  idempotent; a retry is seeded only from a session of the goal, and under \<open>continue\<close> only from a trunk that
  holds the committed transcript of the attempt before.
\<close>

subsection \<open>The operations as steps\<close>

named_theorems session_steps

lemma ensures_ask:
  assumes "\<And>a. session_fits op a \<longleftrightarrow> (\<exists>x. a = C x \<and> P x) \<or> (\<exists>e. a = SessionRejection e \<and> E e)"
    and "\<And>x. read (C x) = Some x" "\<And>x e. C x \<noteq> SessionRejection e"
  shows "ensures session_fits (ask op read) tr Q \<longleftrightarrow>
     (\<forall>x. P x \<longrightarrow> Q (tr @ [(op, C x)]) (Inr x)) \<and> (\<forall>e. E e \<longrightarrow> Q (tr @ [(op, SessionRejection e)]) (Inl e))"
proof -
  have c: "ensures session_fits (case C x of SessionRejection e \<Rightarrow> Raise e
      | _ \<Rightarrow> (case read (C x) of None \<Rightarrow> Raise OtherSession | Some y \<Rightarrow> Ret y)) t Q = Q t (Inr x)" for x t
  proof -
    have "\<forall>e. C x \<noteq> SessionRejection e" using assms(3) by blast
    then show ?thesis using assms(2) [of x] by (cases "C x") simp_all
  qed
  show ?thesis unfolding ask_def ensures.simps assms(1) by (auto simp: c)
qed

lemma ensures_load [session_steps]:
  "ensures session_fits (loadSession sid) tr Q \<longleftrightarrow>
     (\<forall>x. pred_option (\<lambda>s. ss_id s = sid) x \<longrightarrow> Q (tr @ [(LoadSession sid, LoadedAnswer x)]) (Inr x))
     \<and> Q (tr @ [(LoadSession sid, SessionRejection OtherSession)]) (Inl OtherSession)"
  unfolding loadSession_def
  by (subst ensures_ask [where C = LoadedAnswer and P = "pred_option (\<lambda>s. ss_id s = sid)" and E = "\<lambda>e. e = OtherSession"])
    (auto simp: session_fits_def)

definition updateAnswers ::
  "jstr \<Rightarrow> (jstr \<Rightarrow> 'h agent_session option \<Rightarrow> session_fault + 'h agent_session option) \<Rightarrow>
     session_fault + 'h agent_session option \<Rightarrow> bool" where
  "updateAnswers sid updater result \<longleftrightarrow>
     (\<exists>now existing. pred_option (\<lambda>s. ss_id s = sid) existing \<and> updater now existing = result)"

lemma update_fits:
  "session_fits (UpdateSession sid updater) a \<longleftrightarrow>
     (\<exists>x. a = LoadedAnswer x \<and> updateAnswers sid updater (Inr x))
     \<or> (\<exists>e. a = SessionRejection e \<and> (e = OtherSession \<or> updateAnswers sid updater (Inl e)))"
proof -
  have "a = (case u of Inl e \<Rightarrow> SessionRejection e | Inr x \<Rightarrow> LoadedAnswer x) \<longleftrightarrow>
      (\<exists>e. u = Inl e \<and> a = SessionRejection e) \<or> (\<exists>x. u = Inr x \<and> a = LoadedAnswer x)" for u
    by (cases u) auto
  then show ?thesis unfolding session_fits_def updateAnswers_def by simp blast
qed

lemma ensures_update [session_steps]:
  "ensures session_fits (updateSession sid updater) tr Q \<longleftrightarrow>
     (\<forall>x. updateAnswers sid updater (Inr x) \<longrightarrow> Q (tr @ [(UpdateSession sid updater, LoadedAnswer x)]) (Inr x))
     \<and> (\<forall>e. e = OtherSession \<or> updateAnswers sid updater (Inl e) \<longrightarrow>
          Q (tr @ [(UpdateSession sid updater, SessionRejection e)]) (Inl e))"
  unfolding updateSession_def
  by (subst ensures_ask [where C = LoadedAnswer and P = "\<lambda>x. updateAnswers sid updater (Inr x)"
        and E = "\<lambda>e. e = OtherSession \<or> updateAnswers sid updater (Inl e)"])
    (simp_all add: update_fits)

lemma ensures_durable [session_steps]:
  "ensures session_fits hasDurable tr Q \<longleftrightarrow> (\<forall>x. Q (tr @ [(HasDurable, EngineAnswer x)]) (Inr x))"
  unfolding hasDurable_def
  by (subst ensures_ask [where C = EngineAnswer and P = "\<lambda>_. True" and E = "\<lambda>_. False"]) (auto simp: session_fits_def)

lemma ensures_reconcileRef [session_steps]:
  "ensures session_fits (reconcileRef sid ref) tr Q \<longleftrightarrow>
     Q (tr @ [(ReconcileRef sid ref, ReconciledAnswer)]) (Inr ())
     \<and> Q (tr @ [(ReconcileRef sid ref, SessionRejection OtherSession)]) (Inl OtherSession)"
  unfolding reconcileRef_def
  by (subst ensures_ask [where C = "\<lambda>_. ReconciledAnswer" and P = "\<lambda>_. True" and E = "\<lambda>e. e = OtherSession"])
    (auto simp: session_fits_def)

lemma ensures_transcript [session_steps]:
  "ensures session_fits (runTranscript refs through) tr Q \<longleftrightarrow>
     (\<forall>x. Q (tr @ [(RunTranscript refs through, TranscriptAnswer x)]) (Inr x))"
  unfolding runTranscript_def
  by (subst ensures_ask [where C = TranscriptAnswer and P = "\<lambda>_. True" and E = "\<lambda>_. False"]) (auto simp: session_fits_def)

lemma ensures_fresh [session_steps]:
  "ensures session_fits (freshTranscript r) tr Q \<longleftrightarrow>
     (\<forall>x. Q (tr @ [(FreshTranscript r, FreshAnswer (fst x) (snd x))]) (Inr x))
     \<and> (\<forall>e. e = OtherSession \<or> (\<exists>message. e = FreshArtifact message) \<longrightarrow>
          Q (tr @ [(FreshTranscript r, SessionRejection e)]) (Inl e))"
  unfolding freshTranscript_def
  by (subst ensures_ask [where C = "\<lambda>x. FreshAnswer (fst x) (snd x)" and P = "\<lambda>_. True"
        and E = "\<lambda>e. e = OtherSession \<or> (\<exists>message. e = FreshArtifact message)"])
    (auto simp: session_fits_def)

text \<open>The interface of the store: every operation has an answer.\<close>

interpretation sessions: answered_operations "session_fits :: 'h session_operation \<Rightarrow> 'h session_answer \<Rightarrow> bool"
proof unfold_locales
  show "\<exists>a. session_fits op a" for op :: "'h session_operation"
    by (cases op) (auto simp: session_fits_def)
qed

subsection \<open>The goal's own sessions\<close>

abbreviation ownSession :: "goal_state \<Rightarrow> 'h agent_session \<Rightarrow> bool" where
  "ownSession r s \<equiv> foreignSession r s = None"

lemma foreignSessionReason_None: "foreignSessionReason r s = None \<longleftrightarrow> ownSession r s"
  by (simp add: foreignSessionReason_def)

lemma ownSession_iff:
  "ownSession r s \<longleftrightarrow>
     jget (ss_metadata s) ''goalRunId'' = JStr (s_goalRunId r)
     \<and> sessionPrincipal (ss_metadata s) = optional JStr (s_principal r)
     \<and> ss_agentName s = ob_agentName (s_objective r)
     \<and> list_all (\<lambda>ref. isAttemptRun r (rf_runId ref) \<and> rf_agentName ref = ob_agentName (s_objective r)) (ss_runs s)"
  by (auto simp: foreignSession_def list_all_iff)

lemma attemptRunPrefix_eq: "goalAttemptRunId (s_goalRunId r) i = attemptRunPrefix r @ decimal i"
  by (simp add: attemptRunPrefix_def goalAttemptRunId_def butlast_append decimal_small)

lemma own_attempt_run:
  assumes "jlt (jnat i) (b_maximumAttempts (s_bounds r))"
  shows "isAttemptRun r (goalAttemptRunId (s_goalRunId r) i)"
  using assms unfolding isAttemptRun_def attemptRunPrefix_eq
  by (simp add: startsWith_def Let_def allDigits_def list_all_iff decimal_digits)

lemma goalSessionMetadata_gets:
  "jget (JObj (goalSessionMetadata r)) ''goalRunId'' = JStr (s_goalRunId r)"
  "sessionPrincipal (JObj (goalSessionMetadata r)) = optional JStr (s_principal r)"
  "jget (JObj (spread [(lit ''freshAttempt'', v)] (goalSessionMetadata r))) ''goalRunId'' = JStr (s_goalRunId r)"
  "sessionPrincipal (JObj (spread [(lit ''freshAttempt'', v)] (goalSessionMetadata r))) = optional JStr (s_principal r)"
  by (simp_all add: goalSessionMetadata_def sessionPrincipal_def spread_def jget_def optional_def Let_def lit_simps
      split: option.split)

lemma emptySession_own: "ownSession r (emptySession blank r sid)"
  by (simp add: ownSession_iff emptySession_def goalSessionMetadata_gets)

lemma startUpdater_cases:
  assumes "startUpdater blank r sid runId now existing = Inr (Some s')"
  obtains s where "s = withDefault (emptySession blank r sid) existing" "pred_option (ownSession r) existing"
    "if list_ex (\<lambda>ref. rf_runId ref = runId) (ss_runs s) then s' = s \<and> existing = None
     else s' = s\<lparr>ss_runs := ss_runs s @ [startRef r runId now s]\<rparr>"
  using assms
  by (cases existing) (auto simp: startUpdater_def Let_def foreignSessionReason_None split: option.splits if_splits)

lemma startUpdater_own:
  assumes "startUpdater blank r sid (goalAttemptRunId (s_goalRunId r) i) now existing = Inr (Some s')"
    and "jlt (jnat i) (b_maximumAttempts (s_bounds r))"
  shows "ownSession r s'"
proof -
  obtain s where s: "s = withDefault (emptySession blank r sid) existing" "pred_option (ownSession r) existing"
    "if list_ex (\<lambda>ref. rf_runId ref = goalAttemptRunId (s_goalRunId r) i) (ss_runs s) then s' = s \<and> existing = None
     else s' = s\<lparr>ss_runs := ss_runs s @ [startRef r (goalAttemptRunId (s_goalRunId r) i) now s]\<rparr>"
    by (rule startUpdater_cases [OF assms(1)])
  have "ownSession r s" using s(1,2) emptySession_own by (cases existing) auto
  then show ?thesis
    using s(3) own_attempt_run [OF assms(2)]
    by (auto simp: ownSession_iff startRef_def split: if_splits)
qed

lemma startUpdater_idempotent:
  assumes "startUpdater blank r sid runId now existing = Inr (Some s')" "ownSession r s'"
  shows "startUpdater blank r sid runId now' (Some s') = Inr None"
proof -
  obtain s where s: "if list_ex (\<lambda>ref. rf_runId ref = runId) (ss_runs s) then s' = s \<and> existing = None
     else s' = s\<lparr>ss_runs := ss_runs s @ [startRef r runId now s]\<rparr>"
    by (rule startUpdater_cases [OF assms(1)])
  have "list_ex (\<lambda>ref. rf_runId ref = runId) (ss_runs s')" using s by (auto simp: startRef_def split: if_splits)
  moreover have "foreignSessionReason r s' = None" using assms(2) by (simp add: foreignSessionReason_None)
  ultimately show ?thesis by (simp add: startUpdater_def Let_def)
qed

subsection \<open>Everything that is written\<close>

definition wroteOwn :: "goal_state \<Rightarrow> ('h session_operation, 'h session_answer) trace \<Rightarrow> bool" where
  "wroteOwn r t \<longleftrightarrow>
     (\<forall>sid updater s. (UpdateSession sid updater, LoadedAnswer (Some s)) \<in> set t \<longrightarrow> ownSession r s)"

lemma wroteOwn_simps [simp]:
  "wroteOwn r []" "wroteOwn r (u @ t) \<longleftrightarrow> wroteOwn r u \<and> wroteOwn r t"
  "wroteOwn r ((LoadSession sid, a) # t) \<longleftrightarrow> wroteOwn r t"
  "wroteOwn r ((HasDurable, a) # t) \<longleftrightarrow> wroteOwn r t"
  "wroteOwn r ((ReconcileRef sid ref, a) # t) \<longleftrightarrow> wroteOwn r t"
  "wroteOwn r ((RunTranscript refs n, a) # t) \<longleftrightarrow> wroteOwn r t"
  "wroteOwn r ((FreshTranscript q, a) # t) \<longleftrightarrow> wroteOwn r t"
  "wroteOwn r ((op, SessionRejection e) # t) \<longleftrightarrow> wroteOwn r t"
  "wroteOwn r ((op, LoadedAnswer None) # t) \<longleftrightarrow> wroteOwn r t"
  "wroteOwn r ((UpdateSession sid updater, LoadedAnswer (Some s)) # t) \<longleftrightarrow> ownSession r s \<and> wroteOwn r t"
  by (auto simp: wroteOwn_def)

lemma recordStart_law:
  assumes "jlt (jnat i) (b_maximumAttempts (s_bounds r))"
  shows "ensures session_fits (recordStart blank r i (goalAttemptRunId (s_goalRunId r) i)) tr
    (\<lambda>t result. \<exists>s. t = tr @ s \<and> wroteOwn r s)"
proof -
  have "ownSession r s" if "updateAnswers sid (startUpdater blank r sid (goalAttemptRunId (s_goalRunId r) i)) (Inr (Some s))"
    for sid s
    using that startUpdater_own [OF _ assms] unfolding updateAnswers_def by (elim exE conjE) fastforce
  then have "wroteOwn r [(UpdateSession sid (startUpdater blank r sid (goalAttemptRunId (s_goalRunId r) i)), LoadedAnswer x)]"
    if "updateAnswers sid (startUpdater blank r sid (goalAttemptRunId (s_goalRunId r) i)) (Inr x)" for sid x
    using that by (cases x) simp_all
  then show ?thesis unfolding recordStart_def by (auto simp: session_steps)
qed

lemma ownedSession_law:
  "ensures fits (ownedSession r s) tr (\<lambda>t result. t = tr \<and> (\<forall>x. result = Inr x \<longrightarrow> x = s \<and> ownSession r s))"
  by (auto simp: ownedSession_def foreignSessionReason_None split: option.split)

lemma ownedIfAny_law:
  "ensures fits (ownedIfAny r x) tr (\<lambda>t result. t = tr \<and> (\<forall>y. result = Inr y \<longrightarrow> y = x \<and> pred_option (ownSession r) x))"
  by (auto simp: ownedIfAny_def ownedSession_def foreignSessionReason_None split: option.split)

text \<open>What a loaded trunk has to show of the run a retry is seeded from.\<close>

definition committedIn :: "goal_state \<Rightarrow> nat \<Rightarrow> 'h agent_session \<Rightarrow> ('h session_operation, 'h session_answer) trace \<Rightarrow> bool" where
  "committedIn r i trunk t \<longleftrightarrow>
     ownSession r trunk \<and> (LoadSession (goalSessionId (s_goalRunId r) 0), LoadedAnswer (Some trunk)) \<in> set t
     \<and> pred_option (\<lambda>ref. rf_status ref \<noteq> RefRunning \<and> (rf_status ref = RefCompleted \<longrightarrow> rf_boundary ref)) (refOf (Some trunk) (goalAttemptRunId (s_goalRunId r) i))
     \<and> refOf (Some trunk) (goalAttemptRunId (s_goalRunId r) i) \<noteq> None"

lemma settleRef_law:
  "ensures session_fits (settleRef sid found) tr (\<lambda>t result. \<exists>s. t = tr @ s \<and> wroteOwn r s)"
  unfolding settleRef_def by (auto simp: session_steps split: option.split)

lemma settleTranscript_law:
  assumes "jlt (jnat i) (b_maximumAttempts (s_bounds r))"
  shows "ensures session_fits (settle blank r i (goalAttemptRunId (s_goalRunId r) i)) tr
    (\<lambda>t result. \<exists>s. t = tr @ s \<and> wroteOwn r s)"
proof -
  let ?Q = "\<lambda>t result. \<exists>s. t = tr @ s \<and> wroteOwn r s"
  define finish where "finish loaded = bindE (ownedIfAny r loaded) (\<lambda>session.
      settleRef (attemptSession r i) (refOf session (goalAttemptRunId (s_goalRunId r) i)))" for loaded :: "'a agent_session option"
  have finish: "ensures session_fits (finish loaded) t ?Q" if "?Q t x" for loaded t and x :: "session_fault + unit"
    unfolding finish_def
  proof (rule ensures_bindI [OF ownedIfAny_law], goal_cases)
    case (1 t' session)
    then show ?case using that by (auto intro!: ensures_mono [OF settleRef_law [where r = r]])
  next
    case (2 t' e)
    then show ?case using that by simp
  qed
  show ?thesis
    unfolding settle_def finish_def [symmetric]
  proof (rule ensures_bindI [OF recordStart_law [OF assms]], goal_cases)
    case (1 t u)
    then obtain s where s: "t = tr @ s" "wroteOwn r s" by blast
    have "?Q (t @ [(LoadSession sid, a)]) x" for sid a x using s by auto
    then show ?case using finish by (auto simp: session_steps)
  qed auto
qed

lemma committedTrunk_law:
  assumes "jlt (jnat i) (b_maximumAttempts (s_bounds r))"
  shows "ensures session_fits (committedTrunk blank r i) tr
    (\<lambda>t result. \<exists>s. t = tr @ s \<and> wroteOwn r s \<and> (\<forall>trunk. result = Inr trunk \<longrightarrow> committedIn r i trunk s))"
  (is "ensures _ _ _ ?Q")
proof -
  let ?run = "goalAttemptRunId (s_goalRunId r) i"
  let ?trunk = "goalSessionId (s_goalRunId r) 0"
  define judge :: "'a agent_session option \<Rightarrow> ('a, 'a agent_session) session_program" where
    "judge found = (case (found, refOf found ?run) of
       (Some trunk, Some ref) \<Rightarrow> if transcriptOwed ref then Raise OtherSession else Ret trunk
     | _ \<Rightarrow> Raise (ConversationRefused (noRecordMessage r i)))" for found
  define check where "check loaded = bindE (ownedIfAny r loaded) judge" for loaded
  have check: "ensures session_fits (check loaded) (tr @ s @ [(LoadSession ?trunk, LoadedAnswer loaded)]) ?Q"
    if "wroteOwn r s" for loaded s
    unfolding check_def
  proof (rule ensures_bindI [OF ownedIfAny_law], goal_cases)
    case (1 t found)
    then show ?case
      using that by (auto simp: judge_def committedIn_def transcriptOwed_def split: option.split)
  next
    case (2 t e)
    then show ?case using that by auto
  qed
  show ?thesis
    unfolding committedTrunk_def Let_def judge_def [symmetric] check_def [symmetric]
  proof (rule ensures_bindI [OF settleTranscript_law [OF assms]], goal_cases)
    case (1 t u)
    then obtain s where s: "t = tr @ s" "wroteOwn r s" by blast
    have "?Q (t @ [(LoadSession ?trunk, a)]) (Inl e)" for a e using s by auto
    then show ?case using check [OF s(2)] s(1) by (auto simp: session_steps)
  qed auto
qed

lemma createOnce_law:
  assumes "ownSession r candidate"
  shows "ensures session_fits (createOnce r candidate) tr
    (\<lambda>t result. \<exists>s. t = tr @ s \<and> wroteOwn r s \<and> (\<forall>stored. result = Inr stored \<longrightarrow> ownSession r stored))"
proof -
  have w: "updateAnswers sid (onceUpdater candidate) (Inr (Some x)) \<Longrightarrow> ownSession r x"
    "\<not> updateAnswers sid (onceUpdater candidate) (Inl e)" for sid x e
    using assms by (auto simp: updateAnswers_def onceUpdater_def split: if_splits)
  then show ?thesis
    unfolding createOnce_def
    by (auto simp: session_steps ownedSession_def foreignSessionReason_None split: option.split)
qed

subsection \<open>The seed and the seat\<close>

lemma seedOnce_law:
  assumes "\<And>t. ensures session_fits build t (\<lambda>t' result. \<exists>s. t' = t @ s \<and> wroteOwn r s
    \<and> (\<forall>candidate. result = Inr candidate \<longrightarrow> ownSession r candidate))"
  shows "ensures session_fits (seedOnce r sid build) tr
    (\<lambda>t result. \<exists>s. t = tr @ s \<and> wroteOwn r s \<and> (\<forall>h. result = Inr h \<longrightarrow> (\<exists>x. ownSession r x \<and> h = ss_history x)))"
  (is "ensures _ _ _ ?Q")
proof -
  define make where "make = bindE build (\<lambda>candidate. bindE (createOnce r candidate) (\<lambda>stored. Ret (ss_history stored)))"
  have make: "ensures session_fits make (tr @ [(LoadSession sid, LoadedAnswer None)]) ?Q"
    unfolding make_def
  proof (rule ensures_bindI [OF assms], goal_cases)
    case (1 t candidate)
    then obtain s where s: "t = (tr @ [(LoadSession sid, LoadedAnswer None)]) @ s" "wroteOwn r s" "ownSession r candidate" by blast
    show ?case
      by (rule ensures_bindI [OF createOnce_law [OF s(3)]]) (use s(1,2) in \<open>fastforce+\<close>)
  qed auto
  then show ?thesis
    unfolding seedOnce_def make_def [symmetric]
    by (auto simp: session_steps ownedSession_def foreignSessionReason_None split: option.split)
qed

definition seedShown :: "goal_state \<Rightarrow> nat \<Rightarrow> ('h session_operation, 'h session_answer) trace \<Rightarrow> 'h \<Rightarrow> bool" where
  "seedShown r i t h \<longleftrightarrow>
     (\<exists>x. ownSession r x \<and> h = ss_history x
        \<and> (s_conversationPolicy r = Continue \<longrightarrow> committedIn r (i - 1) x t))"

lemma seedHistory_law:
  fixes blank :: 'a
  assumes "jlt (jnat i) (b_maximumAttempts (s_bounds r))"
  shows "ensures session_fits (seedHistory blank r i sid) tr
    (\<lambda>t result. \<exists>s. t = tr @ s \<and> wroteOwn r s \<and> (\<forall>h. result = Inr h \<longrightarrow> seedShown r i s h))"
proof -
  have less: "jlt (jnat k) (b_maximumAttempts (s_bounds r))" if "k \<le> i" for k
    using assms that by (cases "b_maximumAttempts (s_bounds r)") (auto simp: jnat_def jlt_def)
  note trunk = committedTrunk_law [OF less [of "i - 1"]] committedTrunk_law [OF less [of 0]]
  show ?thesis
  proof (cases "s_conversationPolicy r")
    case Continue
    show ?thesis
      unfolding seedHistory_def Continue goal_conversation_policy.case
      by (rule ensures_bindI [OF trunk(1)]) (auto simp: seedShown_def committedIn_def Continue)
  next
    case (ForkFromBaseline n)
    define make where "make = bindE (committedTrunk blank r 0) (\<lambda>trunk.
             bindE (conversationThroughRun trunk n) (\<lambda>h.
               Ret \<lparr>ss_id = sid, ss_agentName = ss_agentName trunk, ss_history = h,
                 ss_metadata = JObj (goalSessionMetadata r), ss_runs = []\<rparr>))"
    have "ensures session_fits make t (\<lambda>t' result. \<exists>s. t' = t @ s \<and> wroteOwn r s
        \<and> (\<forall>candidate. result = Inr candidate \<longrightarrow> ownSession r candidate))" for t
      unfolding make_def
      by (rule ensures_bindI [OF trunk(2)])
        (auto simp: session_steps conversationThroughRun_def Let_def committedIn_def ownSession_iff
          goalSessionMetadata_gets split: option.split)
    then show ?thesis
      unfolding seedHistory_def ForkFromBaseline goal_conversation_policy.case make_def [symmetric]
      by (intro ensures_mono [OF seedOnce_law]) (auto simp: seedShown_def ForkFromBaseline)
  next
    case (FreshFromArtifact artifact)
    define make :: "('a, 'a agent_session) session_program" where "make = bindE (freshTranscript r) (\<lambda>(h, attempt).
             Ret \<lparr>ss_id = sid, ss_agentName = ob_agentName (s_objective r), ss_history = h,
               ss_metadata = JObj (spread [(lit ''freshAttempt'', attempt)] (goalSessionMetadata r)), ss_runs = []\<rparr>)"
    have "ensures session_fits make t (\<lambda>t' result. \<exists>s. t' = t @ s \<and> wroteOwn r s
        \<and> (\<forall>candidate. result = Inr candidate \<longrightarrow> ownSession r candidate))" for t
      unfolding make_def ensures_bind ensures_fresh
      by (auto simp: ownSession_iff goalSessionMetadata_gets)
    then show ?thesis
      unfolding seedHistory_def FreshFromArtifact goal_conversation_policy.case make_def [symmetric]
      by (intro ensures_mono [OF seedOnce_law]) (auto simp: seedShown_def FreshFromArtifact)
  qed
qed

text \<open>What a seat says: its session, the input of a first attempt, the seed of a later one.\<close>

fun seatTrue ::
  "goal_state \<Rightarrow> nat \<Rightarrow> jstr option \<Rightarrow> ('h session_operation, 'h session_answer) trace \<Rightarrow> 'h attempt_seat \<Rightarrow> bool" where
  "seatTrue r i feedback t (SeatedAttempt sid input) \<longleftrightarrow>
     sid = attemptSession r i
     \<and> (case input of
          PromptInput turn \<Rightarrow> i = 0 \<and> turn = ob_prompt (s_objective r)
        | ConversationInput h turn \<Rightarrow> i > 0 \<and> seedShown r i t h
            \<and> turn = goalAttemptInput (policyKind (s_conversationPolicy r)) (ob_prompt (s_objective r)) i feedback)"
| "seatTrue r i feedback t (UnseatedAttempt detail) \<longleftrightarrow> isAttemptStartFailureDetail (Some detail)"

lemma policy_detail_start: "isAttemptStartFailureDetail (Some (conversationPolicyDetail message))"
  by (simp add: isAttemptStartFailureDetail_def START_FAILURE_PREFIXES_def startsWith_def conversationPolicyDetail_def)

lemma seatAt_law:
  assumes "jlt (jnat i) (b_maximumAttempts (s_bounds r))"
  shows "ensures session_fits (seatAt blank r i feedback) tr
    (\<lambda>t result. \<exists>s. t = tr @ s \<and> wroteOwn r s \<and> (\<forall>seat. result = Inr seat \<longrightarrow> seatTrue r i feedback s seat))"
proof (cases "i = 0")
  case True
  then show ?thesis
    by (auto simp: seatAt_def Let_def verifyAttemptSession_def session_steps goalAttemptInput_def policy_detail_start
        split: option.split)
next
  case False
  let ?turn = "goalAttemptInput (policyKind (s_conversationPolicy r)) (ob_prompt (s_objective r)) i feedback"
  define go where "go = bindE (seedHistory blank r i (attemptSession r i)) (\<lambda>history.
    Ret (SeatedAttempt (attemptSession r i) (ConversationInput history ?turn)))"
  have "ensures session_fits go tr
      (\<lambda>t result. \<exists>s. t = tr @ s \<and> wroteOwn r s \<and> (\<forall>seat. result = Inr seat \<longrightarrow> seatTrue r i feedback s seat))"
    unfolding go_def
    by (rule ensures_bindI [OF seedHistory_law [OF assms]]) (use False in auto)
  then have "ensures session_fits (catchE go (\<lambda>e. case e of
               OtherSession \<Rightarrow> Raise OtherSession
             | ForkThroughRun message \<Rightarrow> Ret (UnseatedAttempt (conversationPolicyDetail message))
             | FreshArtifact message \<Rightarrow> Ret (UnseatedAttempt (conversationPolicyDetail message))
             | ConversationRefused message \<Rightarrow> Ret (UnseatedAttempt (conversationPolicyDetail message)))) tr
      (\<lambda>t result. \<exists>s. t = tr @ s \<and> wroteOwn r s \<and> (\<forall>seat. result = Inr seat \<longrightarrow> seatTrue r i feedback s seat))"
    unfolding ensures_catch
    by (rule ensures_mono) (auto simp: policy_detail_start split: sum.split session_fault.split)
  then show ?thesis unfolding seatAt_def Let_def go_def using False by (simp del: ensures_bind ensures_catch)
qed

subsection \<open>The properties\<close>


text \<open>
  What recording an attempt's run writes is a session of the goal that holds the run, keeps every run and
  the transcript it had, and that recording the run again leaves as it is; and no session is two goals' own.
\<close>

theorem recorded_start:
  assumes "startUpdater blank r sid (goalAttemptRunId (s_goalRunId r) i) now existing = Inr (Some s')"
    and "jlt (jnat i) (b_maximumAttempts (s_bounds r))"
  shows "ownSession r s' \<and> refOf (Some s') (goalAttemptRunId (s_goalRunId r) i) \<noteq> None
    \<and> startUpdater blank r sid (goalAttemptRunId (s_goalRunId r) i) now' (Some s') = Inr None
    \<and> pred_option (\<lambda>s. ss_history s' = ss_history s \<and> ss_metadata s' = ss_metadata s
         \<and> (\<exists>ref. ss_runs s' = ss_runs s @ [ref])) existing
    \<and> (ownSession q s' \<longrightarrow> s_goalRunId q = s_goalRunId r \<and> s_principal q = s_principal r
         \<and> ob_agentName (s_objective q) = ob_agentName (s_objective r))"
proof -
  have own: "ownSession r s'" by (rule startUpdater_own [OF assms])
  obtain s where s: "s = withDefault (emptySession blank r sid) existing"
    "if list_ex (\<lambda>ref. rf_runId ref = goalAttemptRunId (s_goalRunId r) i) (ss_runs s) then s' = s \<and> existing = None
     else s' = s\<lparr>ss_runs := ss_runs s @ [startRef r (goalAttemptRunId (s_goalRunId r) i) now s]\<rparr>"
    by (rule startUpdater_cases [OF assms(1)])
  have "list_ex (\<lambda>ref. rf_runId ref = goalAttemptRunId (s_goalRunId r) i) (ss_runs s')"
    using s(2) by (auto simp: startRef_def split: if_splits)
  then have "refOf (Some s') (goalAttemptRunId (s_goalRunId r) i) \<noteq> None"
    by (auto simp: refOf_def list_ex_iff find_None_iff)
  moreover have "pred_option (\<lambda>s. ss_history s' = ss_history s \<and> ss_metadata s' = ss_metadata s
      \<and> (\<exists>ref. ss_runs s' = ss_runs s @ [ref])) existing"
    using s by (cases existing) (auto split: if_splits)
  moreover have "s_goalRunId q = s_goalRunId r \<and> s_principal q = s_principal r
      \<and> ob_agentName (s_objective q) = ob_agentName (s_objective r)" if "ownSession q s'"
    using that own by (auto simp: ownSession_iff optional_def split: option.splits)
  ultimately show ?thesis using own startUpdater_idempotent [OF assms(1) own] by blast
qed

end
