(* ===== verification/StartWitnesses.thy ===== *)
theory StartWitnesses
  imports HostWitnesses StartLaws ConversationLaws
begin

section \<open>The properties of the ports at concrete runs\<close>

text \<open>A start of the first attempt of the goal of \<open>Samples\<close>, and a validation of it.\<close>

lemmas port_defs = planAgent_def catalogResolve_def readRunRecord_def readWorkflow_def readRunResult_def
  verifySession_def seatAttempt_def executeValidation_def

definition firstAttempt :: start_request where
  "firstAttempt = \<lparr>sr_goalRunId = lit ''g'', sr_attemptIndex = 0, sr_attemptId = goalAttemptId (lit ''g'') 0,
     sr_runId = goalAttemptRunId (lit ''g'') 0, sr_feedback = None\<rparr>"

definition aliveReads :: "(control_operation, control_answer) trace" where
  "aliveReads =
     [(SignalAborted, FlagAnswer False), (StoreGet (lit ''g''), RecordAnswer (Some sample)), (ClockNow, InstantAnswer sampleNow)]"

definition firstStart :: "(control_operation, control_answer) trace" where
  "firstStart =
     [(StoreGet (lit ''g''), RecordAnswer (Some sample)), (HasEngine, FlagAnswer True),
      (SignalAborted, FlagAnswer False), (ClockNow, InstantAnswer sampleNow),
      (ReadRunRecord (sr_runId firstAttempt), RunRecordAnswer RunMissing),
      (ReadWorkflow (sr_runId firstAttempt), WorkflowStateAnswer None),
      (VerifySession sample 0, SessionAnswer None),
      (ReadWorkflow (sr_runId firstAttempt), WorkflowStateAnswer None),
      (PlanAgent (lit ''a''), PlanAnswer (Some True))]
     @ aliveReads @ [(SeatAttempt sample firstAttempt, SeatAnswer (Seated (goalSessionId (lit ''g'') 0)))]
     @ aliveReads @ [(StartRun (startFor sample firstAttempt), DoneAnswer),
      (StoreGet (lit ''g''), RecordAnswer (Some sample)), (ClockNow, InstantAnswer sampleNow),
      (SignalAborted, FlagAnswer False), (RecordStart sample firstAttempt, DoneAnswer),
      (WatchAttempt (lit ''g'') 0 (sr_runId firstAttempt), DoneAnswer)]"

lemma firstAttempt_fields [simp]: "sr_goalRunId firstAttempt = lit ''g''" "sr_attemptIndex firstAttempt = 0"
  by (simp_all add: firstAttempt_def)

lemma sample_in_time: "\<not> isDeadlineElapsed (toGoalWorkflowView sample) sampleNow"
  by (simp add: isDeadlineElapsed_def remainingMilliseconds_def toGoalWorkflowView_def sample_def)

lemma start_run_started:
  "runs (control_fits samplePlatform) (startAttempt firstAttempt) firstStart
     (Inr (PortStarted (goalSessionId (lit ''g'') 0)))"
proof -
  have agent: "ob_agentName (s_objective sample) = lit ''a''" by (simp add: sample_def)
  show ?thesis
    using sample_in_time
    by (simp add: startAttempt_def standDownIf_def overAtFirst_def hasEnded_def startOwned_def verifyRun_def
        verifyAttemptRun_def readings_def adopt_def adoptExisting_def startNew_def mustStandDown_def goalIsOver_def
        startSeated_def settleStart_def step_defs port_defs firstStart_def aliveReads_def agent Let_def)
      (auto simp: control_fits_def sample_valid)
qed


theorem start_answers_witness:
  "(\<exists>r. firstRead (lit ''g'') firstStart r \<and> answerTrue r firstAttempt firstStart (PortStarted (goalSessionId (lit ''g'') 0)))"
  using start_answers [OF start_run_started] by auto

definition firstValidation :: validator_request where
  "firstValidation = \<lparr>vq_goalRunId = lit ''g'', vq_attemptId = goalAttemptId (lit ''g'') 0, vq_attemptIndex = 0,
     vq_validator = sampleIdentity, vq_validatorTimeoutMs = None\<rparr>"

definition missingValidation :: "(control_operation, control_answer) trace" where
  "missingValidation =
     [(ClockNowIso, StampAnswer sampleTime),
      (ResolveValidator (enc_identity sampleIdentity), ValidatorAnswer ValidatorMissing),
      (ClockNowIso, StampAnswer sampleTime)]"


subsection \<open>A retry seated in its trunk\<close>

definition trunkRef :: run_ref where
  "trunkRef = \<lparr>rf_runId = goalAttemptRunId (lit ''g'') 0, rf_sequence = 0, rf_status = RefCompleted,
     rf_boundary = True, rf_startedAt = sampleTime, rf_agentName = lit ''a''\<rparr>"

definition sampleTrunk :: "jstr agent_session" where
  "sampleTrunk = (emptySession [] sample (goalSessionId (lit ''g'') 0))\<lparr>ss_runs := [trunkRef], ss_history := lit ''h''\<rparr>"

definition seatTrace :: "(jstr session_operation, jstr session_answer) trace" where
  "seatTrace =
     [(UpdateSession (goalSessionId (lit ''g'') 0)
         (startUpdater [] sample (goalSessionId (lit ''g'') 0) (goalAttemptRunId (lit ''g'') 0)), LoadedAnswer None),
      (LoadSession (goalSessionId (lit ''g'') 0), LoadedAnswer (Some sampleTrunk)),
      (LoadSession (goalSessionId (lit ''g'') 0), LoadedAnswer (Some sampleTrunk))]"

lemma sample_agent: "ob_agentName (s_objective sample) = lit ''a''" "ob_prompt (s_objective sample) = lit ''p''"
    "b_maximumAttempts (s_bounds sample) = Fin 3"
  by (simp_all add: sample_def)

lemma sampleTrunk_own: "foreignSessionReason sample sampleTrunk = None" "ownSession sample sampleTrunk"
proof -
  have "isAttemptRun sample (goalAttemptRunId (lit ''g'') 0)"
    using own_attempt_run [of 0 sample] by (simp add: sample_agent jnat_def)
  then show "ownSession sample sampleTrunk"
    using emptySession_own [of sample "[] :: jstr" "goalSessionId (lit ''g'') 0"]
    by (simp add: ownSession_iff sampleTrunk_def trunkRef_def sample_agent)
  then show "foreignSessionReason sample sampleTrunk = None" by (simp add: foreignSessionReason_None)
qed

lemma sampleTrunk_fields: "ss_runs sampleTrunk = [trunkRef]" "ss_history sampleTrunk = lit ''h''"
    "ss_id sampleTrunk = goalSessionId (lit ''g'') 0"
  by (simp_all add: sampleTrunk_def emptySession_def)


theorem recorded_start_witness:
  "\<exists>s' :: jstr agent_session.
     startUpdater [] sample (goalSessionId (lit ''g'') 0) (goalAttemptRunId (lit ''g'') 0) sampleTime None = Inr (Some s')
     \<and> ownSession sample s'
     \<and> startUpdater [] sample (goalSessionId (lit ''g'') 0) (goalAttemptRunId (lit ''g'') 0) sampleTime (Some s') = Inr None"
proof -
  have "jlt (jnat 0) (b_maximumAttempts (s_bounds sample))" by (simp add: sample_agent jnat_def)
  moreover obtain s' :: "jstr agent_session" where
    "startUpdater [] sample (goalSessionId (lit ''g'') 0) (goalAttemptRunId (s_goalRunId sample) 0) sampleTime None = Inr (Some s')"
    by (simp add: startUpdater_def Let_def emptySession_def)
  ultimately show ?thesis
    using recorded_start [of "[]" sample "goalSessionId (lit ''g'') 0" 0 sampleTime None s' sampleTime sample] by auto
qed

end
