(* ===== verification/GoalForwarder.thy ===== *)
theory GoalForwarder
  imports GoalHost
begin

section \<open>Telling the controller that an attempt ended\<close>

text \<open>
  \<open>packages/bureau/src/goal-forwarder.ts\<close>: \<open>forward\<close> reads a run, commits its transcript and signals the
  controller, as a program over operations; the watcher around it, with its retries and pauses, is a machine
  whose steps are the answers it waits for.
\<close>

subsection \<open>One try\<close>

record watch_target =
  at_goalRunId :: jstr
  at_attemptIndex :: nat
  at_runId :: jstr

text \<open>What \<open>readDurableRunResult\<close> answers, with the members of an ended run's result that the forwarder reads.\<close>

record ended_result =
  er_finishReason :: finish_reason
  er_steps :: nat
  er_tokens :: jnum
  er_totalCost :: "jnum option"

datatype ended_reading = RunMissingNow | RunNotTerminal | RunEnded ended_result

definition signalOf :: "ended_result \<Rightarrow> terminal_signal" where
  "signalOf x = \<lparr>ts_finishReason = er_finishReason x, ts_steps = jnat (er_steps x),
     ts_tokens = er_tokens x, ts_costUsd = er_totalCost x\<rparr>"

datatype forward_operation =
    FwClosing
  | FwEngine
  | FwGoal jstr
  | FwCost jstr
  | FwRead jstr
  | FwSettle goal_state nat jstr
  | FwSignal jstr jstr terminal_signal jstr

datatype forward_answer =
    FwFlag bool
  | FwRecord "goal_state option"
  | FwReading ended_reading
  | FwDone
  | FwRejection fault

definition forward_fits :: "platform \<Rightarrow> forward_operation \<Rightarrow> forward_answer \<Rightarrow> bool" where
  "forward_fits p op a \<longleftrightarrow>
     (case op of
        FwClosing \<Rightarrow> \<exists>x. a = FwFlag x
      | FwEngine \<Rightarrow> \<exists>x. a = FwFlag x
      | FwGoal g \<Rightarrow> (\<exists>x. a = FwRecord x \<and> pred_option (\<lambda>s. s_goalRunId s = g \<and> validState p s) x) \<or> (\<exists>e. a = FwRejection e)
      | FwCost run \<Rightarrow> a = FwDone \<or> (\<exists>e. a = FwRejection e)
      | FwRead run \<Rightarrow> (\<exists>x. a = FwReading x) \<or> (\<exists>e. a = FwRejection e)
      | FwSettle s i run \<Rightarrow> a = FwDone \<or> (\<exists>e. a = FwRejection e)
      | FwSignal w name payload signalId \<Rightarrow> a = FwDone \<or> (\<exists>e. a = FwRejection e))"

type_synonym 'a forward_program = "(forward_operation, forward_answer, fault, 'a) effect"

definition fwAsk :: "forward_operation \<Rightarrow> (forward_answer \<Rightarrow> 'a option) \<Rightarrow> 'a forward_program" where
  "fwAsk op read =
     Perform op (\<lambda>a. case a of
         FwRejection e \<Rightarrow> Raise e
       | _ \<Rightarrow> (case read a of None \<Rightarrow> Raise (Fault []) | Some x \<Rightarrow> Ret x))"

definition fwFlag :: "forward_operation \<Rightarrow> bool forward_program" where
  "fwFlag op = fwAsk op (\<lambda>a. case a of FwFlag x \<Rightarrow> Some x | _ \<Rightarrow> None)"

definition fwGoal :: "jstr \<Rightarrow> goal_state option forward_program" where
  "fwGoal g = fwAsk (FwGoal g) (\<lambda>a. case a of FwRecord x \<Rightarrow> Some x | _ \<Rightarrow> None)"

definition fwRead :: "jstr \<Rightarrow> ended_reading forward_program" where
  "fwRead run = fwAsk (FwRead run) (\<lambda>a. case a of FwReading x \<Rightarrow> Some x | _ \<Rightarrow> None)"

definition fwDo :: "forward_operation \<Rightarrow> unit forward_program" where
  "fwDo op = fwAsk op (\<lambda>a. case a of FwDone \<Rightarrow> Some () | _ \<Rightarrow> None)"

text \<open>A goal that is gone, ended or canceled has no controller waiting on an attempt.\<close>

definition nobodyWaits :: "goal_state option \<Rightarrow> bool" where
  "nobodyWaits found \<longleftrightarrow>
     (case found of None \<Rightarrow> True | Some r \<Rightarrow> isTerminalStatus (s_status r) \<or> s_cancellation r \<noteq> None)"

definition sendSignal :: "watch_target \<Rightarrow> terminal_signal \<Rightarrow> reconciliation forward_program" where
  "sendSignal target payload =
     catchE
       (bindE (fwDo (FwSignal (goalWorkflowId (at_goalRunId target))
            (goalAttemptTerminalSignalName (at_attemptIndex target)) payload
            (attemptSignalId (at_goalRunId target) (at_attemptIndex target))))
          (\<lambda>_. Ret ReSignalResent))
       (\<lambda>e. bindE (fwGoal (at_goalRunId target)) (\<lambda>found.
          if nobodyWaits found then Ret ReNotNeeded else Raise e))"

text \<open>The session is written on the authority of a read taken now, not of the one before the run was read.\<close>

definition commitAndSend :: "watch_target \<Rightarrow> terminal_signal \<Rightarrow> reconciliation forward_program" where
  "commitAndSend target payload =
     bindE (fwFlag FwClosing) (\<lambda>closing.
       if closing then Ret ReNotNeeded
       else bindE (fwGoal (at_goalRunId target)) (\<lambda>found.
         case found of
           None \<Rightarrow> Ret ReNotNeeded
         | Some r \<Rightarrow>
             if nobodyWaits found then Ret ReNotNeeded
             else bindE (fwDo (FwSettle r (at_attemptIndex target) (at_runId target))) (\<lambda>_.
               sendSignal target payload)))"

definition forward :: "watch_target \<Rightarrow> reconciliation forward_program" where
  "forward target =
     bindE (fwFlag FwClosing) (\<lambda>closing.
       if closing then Ret ReNotNeeded
       else bindE (fwFlag FwEngine) (\<lambda>engine.
         if \<not> engine then Raise (Fault [])
         else bindE (fwGoal (at_goalRunId target)) (\<lambda>found.
           if nobodyWaits found then Ret ReNotNeeded
           else bindE (fwDo (FwCost (at_runId target))) (\<lambda>_.
             bindE (fwRead (at_runId target)) (\<lambda>reading.
               case reading of
                 RunMissingNow \<Rightarrow> Ret ReMissing
               | RunNotTerminal \<Rightarrow> Ret ReWatching
               | RunEnded ending \<Rightarrow> commitAndSend target (signalOf ending))))))"

subsection \<open>The watcher\<close>

definition DEFAULT_FORWARD_RETRY_DELAYS_MS :: "nat list" where
  "DEFAULT_FORWARD_RETRY_DELAYS_MS = [100, 400, 1600, 6400]"

text \<open>The last delay repeats; with no delays there is none.\<close>

definition reattachDelay :: "nat list \<Rightarrow> nat \<Rightarrow> nat" where
  "reattachDelay delays n = (if delays = [] then 0 else delays ! min n (length delays - 1))"

text \<open>
  Where a watcher is: waiting for its run to end, trying to forward (with the retries of this try and
  whether it reported), paused between retries or before it reattaches, or ended. \<open>wt_tries\<close> keeps what its
  tries did; nothing is decided on it.
\<close>

datatype watch_end = Delivered reconciliation | ShutDown | NothingToRepeat

datatype watch_phase =
    AwaitingRun nat
  | Forwarding nat nat bool
  | PausedRetry nat nat bool nat
  | PausedRound nat nat
  | WatchEnded watch_end

record watcher =
  wt_phase :: watch_phase
  wt_closing :: bool
  wt_reports :: nat
  wt_tries :: "(forward_operation, forward_answer) trace list"

definition newWatcher :: watcher where
  "newWatcher = \<lparr>wt_phase = AwaitingRun 0, wt_closing = False, wt_reports = 0, wt_tries = []\<rparr>"

text \<open>\<open>pause\<close> arms no timer once the bureau is closing.\<close>

definition afterPause :: "bool \<Rightarrow> watch_phase \<Rightarrow> watch_phase" where
  "afterPause closing continue = (if closing then WatchEnded ShutDown else continue)"

definition pauseFor :: "bool \<Rightarrow> watch_phase \<Rightarrow> watch_phase" where
  "pauseFor closing paused = (if closing then WatchEnded ShutDown else paused)"

definition answeredForward :: "nat list \<Rightarrow> nat \<Rightarrow> reconciliation \<Rightarrow> watcher \<Rightarrow> watcher" where
  "answeredForward delays cycle outcome w =
     w\<lparr>wt_phase := (if outcome = ReWatching then pauseFor (wt_closing w) (PausedRound cycle (reattachDelay delays cycle))
       else WatchEnded (Delivered outcome))\<rparr>"

definition failedForward :: "nat list \<Rightarrow> nat \<Rightarrow> nat \<Rightarrow> bool \<Rightarrow> watcher \<Rightarrow> watcher" where
  "failedForward delays cycle retry reported w =
     (if wt_closing w then w\<lparr>wt_phase := WatchEnded ShutDown\<rparr>
      else
        (let reports = length delays \<le> retry \<and> \<not> reported
         in w\<lparr>wt_reports := (if reports then Suc (wt_reports w) else wt_reports w),
              wt_phase := (if delays = [] then WatchEnded NothingToRepeat
                else PausedRetry cycle retry (reported \<or> reports) (reattachDelay delays retry))\<rparr>))"

text \<open>
  The steps: the bureau begins to close; the run's handle settles, by ending or failing; a try, which is a
  run of \<open>forward\<close>, is answered or rejects; a pause ends, by its timer or released by \<open>drain\<close>.
\<close>

definition tried :: "(forward_operation, forward_answer) trace \<Rightarrow> watcher \<Rightarrow> watcher" where
  "tried t w = w\<lparr>wt_tries := wt_tries w @ [t]\<rparr>"

inductive watch_step :: "platform \<Rightarrow> nat list \<Rightarrow> watch_target \<Rightarrow> watcher \<Rightarrow> watcher \<Rightarrow> bool"
  for p delays target where
  closes: "\<not> wt_closing w \<Longrightarrow> watch_step p delays target w (w\<lparr>wt_closing := True\<rparr>)"
| runSettled: "wt_phase w = AwaitingRun cycle \<Longrightarrow>
    watch_step p delays target w (w\<lparr>wt_phase := afterPause (wt_closing w) (Forwarding cycle 0 False)\<rparr>)"
| forwarded: "wt_phase w = Forwarding cycle retry reported \<Longrightarrow>
    runs (forward_fits p) (forward target) t (Inr outcome) \<Longrightarrow>
    watch_step p delays target w (answeredForward delays cycle outcome (tried t w))"
| rejected: "wt_phase w = Forwarding cycle retry reported \<Longrightarrow>
    runs (forward_fits p) (forward target) t (Inl e) \<Longrightarrow>
    watch_step p delays target w (failedForward delays cycle retry reported (tried t w))"
| retried: "wt_phase w = PausedRetry cycle retry reported delay \<Longrightarrow>
    watch_step p delays target w (w\<lparr>wt_phase := afterPause (wt_closing w) (Forwarding cycle (Suc retry) reported)\<rparr>)"
| reattached: "wt_phase w = PausedRound cycle delay \<Longrightarrow>
    watch_step p delays target w (w\<lparr>wt_phase := afterPause (wt_closing w) (AwaitingRun (Suc cycle))\<rparr>)"

inductive_cases watch_stepE [elim!]: "watch_step p delays target w w'"

abbreviation watched :: "platform \<Rightarrow> nat list \<Rightarrow> watch_target \<Rightarrow> watcher \<Rightarrow> bool" where
  "watched p delays target \<equiv> rtranclp (watch_step p delays target) newWatcher"

text \<open>One watcher per run; \<open>reconcile\<close> attaches one to a run that is still going.\<close>

definition watch :: "jstr \<Rightarrow> (jstr \<rightharpoonup> watcher) \<Rightarrow> jstr \<rightharpoonup> watcher" where
  "watch runId watching = (if runId \<in> dom watching then watching else watching(runId \<mapsto> newWatcher))"

definition reconciled :: "jstr \<Rightarrow> reconciliation \<Rightarrow> (jstr \<rightharpoonup> watcher) \<Rightarrow> jstr \<rightharpoonup> watcher" where
  "reconciled runId outcome watching = (if outcome = ReWatching then watch runId watching else watching)"

end
