(* ===== verification/ForwarderLaws.thy ===== *)
theory ForwarderLaws
  imports GoalForwarder
begin

section \<open>What forwarding promises\<close>

text \<open>
  A controller is signalled once per try, only over a run that ended and a transcript that was committed to a
  goal still seen live; the answer of a try is what it last saw; a watch ends only with the ending delivered,
  a bureau that closes, or no retries configured, and is never lost before.
\<close>

subsection \<open>The operations as steps\<close>

named_theorems forward_steps

lemma fwAsk_steps:
  assumes "\<And>a. forward_fits p op a \<longleftrightarrow> (\<exists>x. a = C x \<and> P x) \<or> (E \<and> (\<exists>e. a = FwRejection e))"
    and "\<And>x. read (C x) = Some x" "\<And>x e. C x \<noteq> FwRejection e"
  shows "ensures (forward_fits p) (fwAsk op read) tr Q \<longleftrightarrow>
     (\<forall>x. P x \<longrightarrow> Q (tr @ [(op, C x)]) (Inr x)) \<and> (E \<longrightarrow> (\<forall>e. Q (tr @ [(op, FwRejection e)]) (Inl e)))"
proof -
  have c: "ensures (forward_fits p) (case C x of FwRejection e \<Rightarrow> Raise e
      | _ \<Rightarrow> (case read (C x) of None \<Rightarrow> Raise (Fault []) | Some y \<Rightarrow> Ret y)) t Q = Q t (Inr x)" for x t
  proof -
    have "\<forall>e. C x \<noteq> FwRejection e" using assms(3) by blast
    then show ?thesis using assms(2) [of x] by (cases "C x") simp_all
  qed
  show ?thesis unfolding fwAsk_def ensures.simps assms(1) by (auto simp: c)
qed

lemma ensures_fwFlag [forward_steps]:
  "ensures (forward_fits p) (fwFlag FwClosing) tr Q \<longleftrightarrow> (\<forall>x. Q (tr @ [(FwClosing, FwFlag x)]) (Inr x))"
  "ensures (forward_fits p) (fwFlag FwEngine) tr Q \<longleftrightarrow> (\<forall>x. Q (tr @ [(FwEngine, FwFlag x)]) (Inr x))"
  unfolding fwFlag_def
  by (subst fwAsk_steps [where C = FwFlag and P = "\<lambda>_. True" and E = False]; auto simp: forward_fits_def)+

definition ownLive :: "platform \<Rightarrow> jstr \<Rightarrow> goal_state option \<Rightarrow> bool" where
  "ownLive p g x \<longleftrightarrow> pred_option (\<lambda>s. s_goalRunId s = g \<and> validState p s) x"

lemma ensures_fwGoal [forward_steps]:
  "ensures (forward_fits p) (fwGoal g) tr Q \<longleftrightarrow>
     (\<forall>x. ownLive p g x \<longrightarrow> Q (tr @ [(FwGoal g, FwRecord x)]) (Inr x))
     \<and> (\<forall>e. Q (tr @ [(FwGoal g, FwRejection e)]) (Inl e))"
  unfolding fwGoal_def
  by (subst fwAsk_steps [where C = FwRecord and P = "ownLive p g" and E = True]) (auto simp: forward_fits_def ownLive_def)

lemma ensures_fwRead [forward_steps]:
  "ensures (forward_fits p) (fwRead run) tr Q \<longleftrightarrow>
     (\<forall>x. Q (tr @ [(FwRead run, FwReading x)]) (Inr x)) \<and> (\<forall>e. Q (tr @ [(FwRead run, FwRejection e)]) (Inl e))"
  unfolding fwRead_def
  by (subst fwAsk_steps [where C = FwReading and P = "\<lambda>_. True" and E = True]) (auto simp: forward_fits_def)

lemma ensures_fwDo [forward_steps]:
  assumes "\<And>a. forward_fits p op a \<longleftrightarrow> a = FwDone \<or> (\<exists>e. a = FwRejection e)"
  shows "ensures (forward_fits p) (fwDo op) tr Q \<longleftrightarrow>
     Q (tr @ [(op, FwDone)]) (Inr ()) \<and> (\<forall>e. Q (tr @ [(op, FwRejection e)]) (Inl e))"
  unfolding fwDo_def
  by (subst fwAsk_steps [where C = "\<lambda>_. FwDone" and P = "\<lambda>_. True" and E = True]) (auto simp: assms)

lemma forward_done [simp]:
  "forward_fits p (FwCost run) a \<longleftrightarrow> a = FwDone \<or> (\<exists>e. a = FwRejection e)"
  "forward_fits p (FwSettle s i run) a \<longleftrightarrow> a = FwDone \<or> (\<exists>e. a = FwRejection e)"
  "forward_fits p (FwSignal w name payload signalId) a \<longleftrightarrow> a = FwDone \<or> (\<exists>e. a = FwRejection e)"
  by (simp_all add: forward_fits_def)

text \<open>The interface of the forwarder: every operation has an answer.\<close>

interpretation forwarding: answered_operations "forward_fits p" for p
proof unfold_locales
  show "\<exists>a. forward_fits p op a" for op
    by (cases op) (auto simp: forward_fits_def)
qed

subsection \<open>One try\<close>

text \<open>The steps of a concrete continuation, one at a time.\<close>

lemma everyStep_Cons: "everyStep J (x # s) \<longleftrightarrow> J [] x \<and> everyStep (\<lambda>before. J (x # before)) s"
  by (cases x) (auto simp: everyStep_def Cons_eq_append_conv)

lemma everyStep_app: "everyStep J (t @ s) \<longleftrightarrow> everyStep J t \<and> everyStep (\<lambda>before. J (t @ before)) s"
  by (induction t arbitrary: J) (auto simp: everyStep_Cons)

lemmas every_step = everyStep_Cons everyStep_app

text \<open>What the steps before a commit have just read, and what justifies each effect.\<close>

definition endedAndLive :: "watch_target \<Rightarrow> ended_result \<Rightarrow> goal_state \<Rightarrow> (forward_operation, forward_answer) trace \<Rightarrow> bool" where
  "endedAndLive target ending r before \<longleftrightarrow>
     \<not> isTerminalStatus (s_status r) \<and> s_cancellation r = None
     \<and> (\<exists>earlier. before = earlier @
          [(FwRead (at_runId target), FwReading (RunEnded ending)), (FwClosing, FwFlag False),
           (FwGoal (at_goalRunId target), FwRecord (Some r))])"

definition committedBefore :: "watch_target \<Rightarrow> terminal_signal \<Rightarrow> (forward_operation, forward_answer) trace \<Rightarrow> bool" where
  "committedBefore target payload before \<longleftrightarrow>
     (\<exists>ending r earlier. before = earlier @ [(FwSettle r (at_attemptIndex target) (at_runId target), FwDone)]
        \<and> endedAndLive target ending r earlier \<and> payload = signalOf ending)"

fun forwardStep :: "watch_target \<Rightarrow> (forward_operation, forward_answer) trace \<Rightarrow> forward_operation \<times> forward_answer \<Rightarrow> bool" where
  "forwardStep target before (FwSettle r i run, a) \<longleftrightarrow>
     i = at_attemptIndex target \<and> run = at_runId target \<and> (\<exists>ending. endedAndLive target ending r before)"
| "forwardStep target before (FwSignal w name payload signalId, a) \<longleftrightarrow>
     w = goalWorkflowId (at_goalRunId target) \<and> name = goalAttemptTerminalSignalName (at_attemptIndex target)
     \<and> signalId = attemptSignalId (at_goalRunId target) (at_attemptIndex target)
     \<and> committedBefore target payload before"
| "forwardStep target before (FwCost run, a) \<longleftrightarrow> run = at_runId target"
| "forwardStep target before (FwRead run, a) \<longleftrightarrow> run = at_runId target"
| "forwardStep target before (FwGoal g, a) \<longleftrightarrow> g = at_goalRunId target"
| "forwardStep target before (op, a) \<longleftrightarrow> True"

definition answeredLast :: "watch_target \<Rightarrow> (forward_operation, forward_answer) trace \<Rightarrow> fault + reconciliation \<Rightarrow> bool" where
  "answeredLast target t result \<longleftrightarrow>
     (case result of
        Inr ReSignalResent \<Rightarrow> \<exists>w name payload signalId. last t = (FwSignal w name payload signalId, FwDone)
      | Inr ReMissing \<Rightarrow> last t = (FwRead (at_runId target), FwReading RunMissingNow)
      | Inr ReWatching \<Rightarrow> last t = (FwRead (at_runId target), FwReading RunNotTerminal)
      | Inr ReNotNeeded \<Rightarrow> last t = (FwClosing, FwFlag True)
          \<or> (\<exists>found. last t = (FwGoal (at_goalRunId target), FwRecord found) \<and> nobodyWaits found)
      | Inl e \<Rightarrow> last t = (FwEngine, FwFlag False)
          \<or> (\<exists>op. last t = (op, FwRejection e) \<and> (\<forall>w name payload signalId. op \<noteq> FwSignal w name payload signalId))
          \<or> (\<exists>w name payload signalId r. s_goalRunId r = at_goalRunId target \<and> \<not> nobodyWaits (Some r)
               \<and> (\<exists>earlier. t = earlier @ [(FwSignal w name payload signalId, FwRejection e),
                    (FwGoal (at_goalRunId target), FwRecord (Some r))])))"

text \<open>The signals a try sent that the engine took.\<close>

fun isSignal :: "forward_operation \<Rightarrow> bool" where
  "isSignal (FwSignal w name payload signalId) = True"
| "isSignal op = False"

definition taken :: "(forward_operation, forward_answer) trace \<Rightarrow> nat" where
  "taken t = length (filter (\<lambda>e. isSignal (fst e) \<and> snd e = FwDone) t)"

lemma taken_simps [simp]:
  "taken [] = 0" "taken (s @ t) = taken s + taken t"
  "taken ((op, a) # t) = (if isSignal op \<and> a = FwDone then Suc (taken t) else taken t)"
  by (simp_all add: taken_def)

definition forward_law :: "watch_target \<Rightarrow> (forward_operation, forward_answer) trace \<Rightarrow> fault + reconciliation \<Rightarrow> bool" where
  "forward_law target t result \<longleftrightarrow> everyStep (forwardStep target) t \<and> answeredLast target t result
     \<and> taken t = (if result = Inr ReSignalResent then 1 else 0)"

lemma somebody_waits: "\<not> nobodyWaits found \<Longrightarrow> ownLive p g found \<Longrightarrow> \<exists>r. s_goalRunId r = g \<and> \<not> nobodyWaits (Some r) \<and> found = Some r"
  by (cases found) (simp_all add: nobodyWaits_def ownLive_def)

lemma sendSignal_law:
  assumes "everyStep (forwardStep target) tr" "committedBefore target payload tr" "taken tr = 0"
  shows "ensures (forward_fits p) (sendSignal target payload) tr (forward_law target)"
  using assms
  by (auto simp: sendSignal_def forward_steps forward_law_def answeredLast_def every_step
      dest: somebody_waits)

lemma commitAndSend_law:
  assumes "everyStep (forwardStep target) tr" "taken tr = 0"
    and "\<exists>earlier. tr = earlier @ [(FwRead (at_runId target), FwReading (RunEnded ending))]"
  shows "ensures (forward_fits p) (commitAndSend target (signalOf ending)) tr (forward_law target)"
proof -
  have "endedAndLive target ending r
      ((tr @ [(FwClosing, FwFlag False)]) @ [(FwGoal (at_goalRunId target), FwRecord (Some r))])"
    if "\<not> nobodyWaits (Some r)" for r
    using assms(3) that by (auto simp: endedAndLive_def nobodyWaits_def)
  moreover from this have "committedBefore target (signalOf ending)
      ((tr @ [(FwClosing, FwFlag False), (FwGoal (at_goalRunId target), FwRecord (Some r))])
        @ [(FwSettle r (at_attemptIndex target) (at_runId target), FwDone)])"
    if "\<not> nobodyWaits (Some r)" for r
    unfolding committedBefore_def using that by auto
  ultimately show ?thesis
    using assms(1,2)
    by (auto simp: commitAndSend_def forward_steps forward_law_def answeredLast_def every_step nobodyWaits_def
        intro!: sendSignal_law split: option.split) blast+
qed

lemma forward_law_holds: "ensures (forward_fits p) (forward target) [] (forward_law target)"
proof -
  define finish where "finish = commitAndSend target"
  have finish: "ensures (forward_fits p) (finish (signalOf ending)) tr (forward_law target)"
    if "everyStep (forwardStep target) tr" "last tr = (FwRead (at_runId target), FwReading (RunEnded ending))" "tr \<noteq> []" "taken tr = 0" for tr ending
    unfolding finish_def
    by (rule commitAndSend_law [OF that(1,4)]) (use that(2,3) in \<open>metis append_butlast_last_id\<close>)
  show ?thesis
    unfolding forward_def finish_def [symmetric]
    by (auto simp: forward_steps forward_law_def answeredLast_def every_step
        intro!: finish split: ended_reading.split)
qed

text \<open>The signal is sent at most once on any path.\<close>

lemma fwAsk_signals: "performsAtMost isSignal (if isSignal op then 1 else 0) (fwAsk op read)"
  by (auto simp: fwAsk_def split: forward_answer.split option.split)

lemma no_signal:
  "performsAtMost isSignal 0 (fwFlag FwClosing)" "performsAtMost isSignal 0 (fwFlag FwEngine)"
  "performsAtMost isSignal 0 (fwGoal g)" "performsAtMost isSignal 0 (fwRead run)"
  "performsAtMost isSignal 0 (fwDo (FwCost run))" "performsAtMost isSignal 0 (fwDo (FwSettle r i run))"
  using fwAsk_signals [of FwClosing] fwAsk_signals [of FwEngine] fwAsk_signals [of "FwGoal g"] fwAsk_signals [of "FwRead run"]
    fwAsk_signals [of "FwCost run"] fwAsk_signals [of "FwSettle r i run"]
  by (simp_all add: fwFlag_def fwGoal_def fwRead_def fwDo_def)

lemma sendSignal_once: "performsAtMost isSignal (Suc 0) (sendSignal target payload)"
  unfolding sendSignal_def
  using fwAsk_signals [of "FwSignal w name payload signalId" for w name signalId]
  by (intro once_catch once_bind never_bind no_signal) (auto simp: fwDo_def nobodyWaits_def)

lemma forward_once: "performsAtMost isSignal (Suc 0) (forward target)"
  unfolding forward_def commitAndSend_def
  by (auto intro!: later_bind no_signal sendSignal_once split: option.split ended_reading.split)

subsection \<open>The watch\<close>

text \<open>Where a watcher can be: what it has reported, what its pauses are, and how it ended.\<close>

fun phaseOk :: "nat list \<Rightarrow> watcher \<Rightarrow> watch_phase \<Rightarrow> bool" where
  "phaseOk delays w (AwaitingRun cycle) \<longleftrightarrow> wt_reports w \<le> cycle"
| "phaseOk delays w (Forwarding cycle retry reported) \<longleftrightarrow>
     (reported \<longleftrightarrow> length delays < retry) \<and> wt_reports w \<le> cycle + (if reported then 1 else 0)
     \<and> (reported \<longrightarrow> wt_reports w > 0)"
| "phaseOk delays w (PausedRetry cycle retry reported delay) \<longleftrightarrow>
     (reported \<longleftrightarrow> length delays \<le> retry) \<and> wt_reports w \<le> cycle + (if reported then 1 else 0)
     \<and> (reported \<longrightarrow> wt_reports w > 0) \<and> delay \<in> set delays"
| "phaseOk delays w (PausedRound cycle delay) \<longleftrightarrow> wt_reports w \<le> Suc cycle \<and> delay \<in> insert 0 (set delays)"
| "phaseOk delays w (WatchEnded (Delivered outcome)) \<longleftrightarrow> outcome \<noteq> ReWatching"
| "phaseOk delays w (WatchEnded ShutDown) \<longleftrightarrow> wt_closing w"
| "phaseOk delays w (WatchEnded NothingToRepeat) \<longleftrightarrow> delays = [] \<and> wt_reports w > 0"

definition deliveries :: "watcher \<Rightarrow> nat" where
  "deliveries w = sum_list (map taken (wt_tries w))"

definition watchOk :: "watch_target \<Rightarrow> nat list \<Rightarrow> watcher \<Rightarrow> bool" where
  "watchOk target delays w \<longleftrightarrow>
     phaseOk delays w (wt_phase w) \<and> list_all (everyStep (forwardStep target)) (wt_tries w)
     \<and> deliveries w = (if wt_phase w = WatchEnded (Delivered ReSignalResent) then 1 else 0)
     \<and> (\<forall>outcome. wt_phase w = WatchEnded (Delivered outcome) \<longrightarrow>
          wt_tries w \<noteq> [] \<and> answeredLast target (last (wt_tries w)) (Inr outcome))"

lemma reattachDelay_in: "delays \<noteq> [] \<Longrightarrow> reattachDelay delays n \<in> set delays"
  unfolding reattachDelay_def by (simp del: One_nat_def) (rule nth_mem, cases delays, auto)

lemma phaseOk_closing: "phaseOk delays w phase \<Longrightarrow> phaseOk delays (w\<lparr>wt_closing := True\<rparr>) phase"
  by (induction delays w phase rule: phaseOk.induct) auto

lemma watchOk_step:
  assumes "watchOk target delays w" "watch_step p delays target w w'"
  shows "watchOk target delays w'"
proof -
  have law: "runs (forward_fits p) (forward target) t result \<Longrightarrow> forward_law target t result" for t result
    using ensuresD [OF forward_law_holds] .
  show ?thesis
    using assms(2)
  proof (cases rule: watch_step.cases)
    case (forwarded cycle retry reported t outcome)
    then show ?thesis using assms(1) law [OF forwarded(3)] reattachDelay_in [of delays cycle]
      by (cases outcome)
        (auto simp: watchOk_def answeredForward_def pauseFor_def tried_def deliveries_def forward_law_def reattachDelay_def)
  next
    case (rejected cycle retry reported t e)
    then show ?thesis using assms(1) law [OF rejected(3)] reattachDelay_in [of delays retry]
      by (auto simp: watchOk_def failedForward_def tried_def deliveries_def forward_law_def Let_def)
  next
    case closes
    then show ?thesis using assms(1) phaseOk_closing by (auto simp: watchOk_def deliveries_def)
  qed (use assms(1) in \<open>auto simp: watchOk_def afterPause_def deliveries_def\<close>)
qed

lemma watched_ok: "watched p delays target w \<Longrightarrow> watchOk target delays w"
  by (induction rule: rtranclp_induct) (auto simp: watchOk_step, simp add: watchOk_def newWatcher_def deliveries_def)

text \<open>A watch that has not ended goes on: the run, the engine or a pause always answers.\<close>

lemma watch_goes_on:
  assumes "\<And>e. wt_phase w \<noteq> WatchEnded e"
  shows "\<exists>w'. watch_step p delays target w w' \<and> wt_phase w' \<noteq> wt_phase w"
proof (cases "wt_phase w")
  case (AwaitingRun cycle)
  from runSettled [OF this] show ?thesis using AwaitingRun by (intro exI conjI) (auto simp: afterPause_def split: if_splits)
next
  case (Forwarding cycle retry reported)
  obtain t result where r: "runs (forward_fits p) (forward target) t result"
    using forwarding.runs_exist by blast
  show ?thesis
  proof (cases result)
    case (Inl e)
    from rejected [OF Forwarding r [unfolded Inl]] show ?thesis
      using Forwarding by (intro exI conjI) (auto simp: failedForward_def Let_def split: if_splits)
  next
    case (Inr outcome)
    from forwarded [OF Forwarding r [unfolded Inr]] show ?thesis
      using Forwarding by (intro exI conjI) (auto simp: answeredForward_def pauseFor_def split: if_splits)
  qed
next
  case (PausedRetry cycle retry reported delay)
  from retried [OF this] show ?thesis using PausedRetry by (intro exI conjI) (auto simp: afterPause_def split: if_splits)
next
  case (PausedRound cycle delay)
  from reattached [OF this] show ?thesis using PausedRound by (intro exI conjI) (auto simp: afterPause_def split: if_splits)
qed (use assms in blast)

text \<open>Once the bureau is closing, whatever a watcher waits for is the last thing it waits for.\<close>

lemma closing_ends:
  assumes "watch_step p delays target w w'" "wt_closing w"
  shows "\<exists>e. wt_phase w' = WatchEnded e"
  using assms(1)
proof (cases rule: watch_step.cases)
  case (forwarded cycle retry reported t outcome)
  then show ?thesis using assms(2) by (simp add: answeredForward_def pauseFor_def tried_def)
next
  case (rejected cycle retry reported t e)
  then show ?thesis using assms(2) by (simp add: failedForward_def tried_def)
qed (use assms(2) in \<open>auto simp: afterPause_def\<close>)

lemma ended_still: "watch_step p delays target w w' \<Longrightarrow> wt_phase w = WatchEnded e \<Longrightarrow> wt_phase w' = WatchEnded e \<and> \<not> wt_closing w"
  by auto

subsection \<open>The properties\<close>

text \<open>
  \<^bold>\<open>C13\<close> A try of the forwarder commits a transcript, and signals a controller, only for an attempt whose run it
  read as ended and, after that, with the bureau open and the goal read again as live; the signal goes out after
  the commit, to the goal's controller, under the attempt's own name and id, with the payload the run reported,
  at most once. Its answer is what it last saw: the signal taken, the run missing or still going, the bureau
  closing or nobody waiting; it rejects only with a fault a dependency gave it, or without an engine.
\<close>

theorem forward_justified:
  assumes "runs (forward_fits p) (forward target) t result"
  shows "everyStep (forwardStep target) t \<and> answeredLast target t result
    \<and> taken t = (if result = Inr ReSignalResent then 1 else 0)
    \<and> length (filter (isSignal \<circ> fst) t) \<le> 1"
  using ensuresD [OF forward_law_holds assms] performsAtMost_runs [OF forward_once assms]
  by (simp add: forward_law_def)


text \<open>
  \<^bold>\<open>C15\<close> A watch leaves nothing behind a shutdown: once the bureau is closing, the next thing the watcher hears,
  whether its run, a try or a pause, ends it, and an ended watcher takes no further step. A failing forward is
  reported at most as often as there were rounds, each time after the configured retries, and pauses only for a configured delay.
\<close>

theorem watch_shutdown:
  assumes "watched p delays target w"
  shows "(wt_closing w \<longrightarrow> (\<forall>w'. watch_step p delays target w w' \<longrightarrow>
        (\<exists>e. wt_phase w' = WatchEnded e) \<and> (\<nexists>w''. watch_step p delays target w' w'')))
    \<and> (case wt_phase w of
         PausedRetry cycle retry reported delay \<Rightarrow>
           delay \<in> set delays \<and> wt_reports w \<le> Suc cycle \<and> (reported \<longleftrightarrow> length delays \<le> retry)
       | PausedRound cycle delay \<Rightarrow> delay \<in> insert 0 (set delays) \<and> wt_reports w \<le> Suc cycle
       | Forwarding cycle retry reported \<Rightarrow> wt_reports w \<le> Suc cycle \<and> (reported \<longleftrightarrow> length delays < retry)
       | AwaitingRun cycle \<Rightarrow> wt_reports w \<le> cycle
       | WatchEnded e \<Rightarrow> True)"
proof -
  have closing: "wt_closing w'" if "watch_step p delays target w w'" "wt_closing w" for w'
    using that by (auto simp: answeredForward_def failedForward_def tried_def Let_def)
  have "\<nexists>w''. watch_step p delays target w' w''" if "watch_step p delays target w w'" "wt_closing w" for w'
    using closing_ends [OF that] closing [OF that] ended_still by metis
  moreover have "phaseOk delays w (wt_phase w)" using watched_ok [OF assms] by (simp add: watchOk_def)
  ultimately show ?thesis using closing_ends [of p delays target w] by (auto split: watch_phase.split if_splits)
qed

end
