(* ===== verification/ForwardWitnesses.thy ===== *)
theory ForwardWitnesses
  imports HostWitnesses ForwarderLaws
begin

section \<open>The properties of the forwarder at concrete runs\<close>

text \<open>The end of the first attempt of the goal of \<open>Samples\<close>, forwarded, and a watch that retries once.\<close>

definition sampleTarget :: watch_target where
  "sampleTarget = \<lparr>at_goalRunId = lit ''g'', at_attemptIndex = 0, at_runId = goalAttemptRunId (lit ''g'') 0\<rparr>"

definition sampleEnding :: ended_result where
  "sampleEnding = \<lparr>er_finishReason = StopCondition, er_steps = 2, er_tokens = Fin 10, er_totalCost = None\<rparr>"

definition sentTry :: "(forward_operation, forward_answer) trace" where
  "sentTry =
     [(FwClosing, FwFlag False), (FwEngine, FwFlag True), (FwGoal (lit ''g''), FwRecord (Some sample)),
      (FwCost (at_runId sampleTarget), FwDone), (FwRead (at_runId sampleTarget), FwReading (RunEnded sampleEnding)),
      (FwClosing, FwFlag False), (FwGoal (lit ''g''), FwRecord (Some sample)),
      (FwSettle sample 0 (at_runId sampleTarget), FwDone),
      (FwSignal (goalWorkflowId (lit ''g'')) (goalAttemptTerminalSignalName 0) (signalOf sampleEnding) (attemptSignalId (lit ''g'') 0), FwDone)]"

definition failedTry :: "(forward_operation, forward_answer) trace" where
  "failedTry = [(FwClosing, FwFlag False), (FwEngine, FwFlag False)]"

lemma sampleTarget_fields [simp]: "at_goalRunId sampleTarget = lit ''g''" "at_attemptIndex sampleTarget = 0"
  by (simp_all add: sampleTarget_def)

lemmas forward_defs = fwFlag_def fwGoal_def fwRead_def fwDo_def fwAsk_def

lemma sample_waits: "\<not> nobodyWaits (Some sample)"
  by (simp add: nobodyWaits_def sample_def)

lemma sent_runs: "runs (forward_fits samplePlatform) (forward sampleTarget) sentTry (Inr ReSignalResent)"
  using sample_waits
  by (simp add: forward_def commitAndSend_def sendSignal_def forward_defs sentTry_def)
    (simp add: forward_fits_def sample_valid ex_bool_eq)

lemma failed_runs: "runs (forward_fits samplePlatform) (forward sampleTarget) failedTry (Inl (Fault []))"
  by (simp add: forward_def forward_defs failedTry_def forward_fits_def ex_bool_eq)

theorem forward_justified_witness:
  "everyStep (forwardStep sampleTarget) sentTry \<and> answeredLast sampleTarget sentTry (Inr ReSignalResent) \<and> taken sentTry = 1"
  using forward_justified [OF sent_runs] by simp

definition retriedWatcher :: watcher where
  "retriedWatcher = \<lparr>wt_phase = Forwarding 0 1 False, wt_closing = False, wt_reports = 0, wt_tries = [failedTry]\<rparr>"

definition deliveredWatcher :: watcher where
  "deliveredWatcher = retriedWatcher\<lparr>wt_phase := WatchEnded (Delivered ReSignalResent), wt_tries := [failedTry, sentTry]\<rparr>"

lemma retried_watched: "watched samplePlatform [100] sampleTarget retriedWatcher"
proof -
  have a: "watch_step samplePlatform [100] sampleTarget newWatcher (newWatcher\<lparr>wt_phase := Forwarding 0 0 False\<rparr>)"
    using runSettled [of newWatcher 0 samplePlatform "[100]" sampleTarget] by (simp add: newWatcher_def afterPause_def)
  have b: "watch_step samplePlatform [100] sampleTarget (newWatcher\<lparr>wt_phase := Forwarding 0 0 False\<rparr>)
      (newWatcher\<lparr>wt_phase := PausedRetry 0 0 False 100, wt_tries := [failedTry]\<rparr>)"
    using rejected [of "newWatcher\<lparr>wt_phase := Forwarding 0 0 False\<rparr>" 0 0 False, OF _ failed_runs, of "[100]"]
    by (simp add: newWatcher_def failedForward_def tried_def reattachDelay_def Let_def)
  have c: "watch_step samplePlatform [100] sampleTarget (newWatcher\<lparr>wt_phase := PausedRetry 0 0 False 100, wt_tries := [failedTry]\<rparr>)
      retriedWatcher"
    using retried [of "newWatcher\<lparr>wt_phase := PausedRetry 0 0 False 100, wt_tries := [failedTry]\<rparr>" 0 0 False 100 samplePlatform "[100]" sampleTarget]
    by (simp add: newWatcher_def afterPause_def retriedWatcher_def)
  from a b c show ?thesis by (meson converse_rtranclp_into_rtranclp rtranclp.rtrancl_refl)
qed

lemma delivered_watched: "watched samplePlatform [100] sampleTarget deliveredWatcher"
proof -
  have "watch_step samplePlatform [100] sampleTarget retriedWatcher deliveredWatcher"
    using forwarded [of retriedWatcher 0 1 False, OF _ sent_runs, of "[100]"]
    by (simp add: retriedWatcher_def deliveredWatcher_def answeredForward_def tried_def)
  with retried_watched show ?thesis by (rule rtranclp.rtrancl_into_rtrancl)
qed


theorem watch_shutdown_witness:
  "(\<nexists>w''. watch_step samplePlatform [100] sampleTarget
      (retriedWatcher\<lparr>wt_closing := True, wt_phase := WatchEnded ShutDown, wt_tries := [failedTry, failedTry]\<rparr>) w'')"
proof -
  let ?w = "retriedWatcher\<lparr>wt_closing := True\<rparr>"
  have "watch_step samplePlatform [100] sampleTarget retriedWatcher ?w"
    using closes [of retriedWatcher] by (simp add: retriedWatcher_def)
  with retried_watched have "watched samplePlatform [100] sampleTarget ?w" by (rule rtranclp.rtrancl_into_rtrancl)
  moreover have "watch_step samplePlatform [100] sampleTarget ?w
      (?w\<lparr>wt_phase := WatchEnded ShutDown, wt_tries := [failedTry, failedTry]\<rparr>)"
    using rejected [of ?w 0 1 False, OF _ failed_runs, of "[100]"]
    by (simp add: retriedWatcher_def failedForward_def tried_def)
  moreover have "wt_closing ?w" by simp
  ultimately show ?thesis
    using watch_shutdown [of samplePlatform "[100]" sampleTarget ?w] by (simp add: retriedWatcher_def)
qed

end
