(* ===== verification/GoalRun.thy ===== *)
theory GoalRun
  imports ValidatorOutput GoalMachine
begin

section \<open>The in-memory goal controller\<close>

text \<open>
  \<open>startGoal\<close> of \<open>packages/operative/src/goal-run.ts\<close>. Its control flow is one loop that awaits a session, a
  run and a verdict in turn; while it waits, a timer, an abort of the goal or of an attempt may come. So a
  goal is a state with a phase (what the loop awaits), and one turn of the event loop is a function of what
  arrived. Events are dispatched synchronously: whoever listens, and the agent and the validator when they are
  called, may abort the goal or an attempt in the middle of a turn. \<open>gr_script\<close> says what they do at each such
  point, and nothing is assumed of it. All clock readings of a turn are one. The id of the goal, which every
  event and result carries, is left out of them, and so are the texts given to an abort.
\<close>

subsection \<open>State\<close>

record run_options =
  ro_goalRunId :: jstr
  ro_validator :: goal_identity
  ro_determinism :: "determinism option"
  ro_requireDeterministic :: "bool option"
  ro_budget :: goal_budget
  ro_retryOn :: "retryable_reason list"
  ro_policy :: goal_conversation_policy
  ro_prompt :: jstr
  ro_principal :: "jstr option"

record turn_time =
  tm_iso :: jstr
  tm_elapsed :: jnum

record 'd run_validation =
  rv_identity :: goal_identity
  rv_startedAt :: jstr
  rv_completedAt :: jstr
  rv_outcome :: "'d outcome"

record 'd run_attempt =
  ra_attemptId :: jstr
  ra_attemptIndex :: nat
  ra_runId :: "jstr option"
  ra_sessionId :: jstr
  ra_startedAt :: jstr
  ra_completedAt :: "jstr option"
  ra_finishReason :: "finish_reason option"
  ra_validation :: "'d run_validation option"
  ra_feedback :: "jstr option"
  ra_steps :: jnum
  ra_tokens :: jnum
  ra_costUsd :: "jnum option"
  ra_status :: attempt_status

datatype 'd run_event =
    GoalStartedEvent
  | AttemptStartedEvent jstr nat "jstr option"
  | AttemptValidatedEvent jstr goal_identity string
  | FeedbackRecordedEvent jstr jstr
  | RetryingEvent jstr jstr
  | CancellationRequestedEvent "jstr option"
  | SucceededEvent
  | ExhaustedEvent terminal_reason
  | FailedEvent terminal_reason "'d validator_error option"
  | CanceledEvent

text \<open>What the controller asks of the outside: the run of an attempt, its abort, its validation.\<close>

datatype run_call = CallRun nat jstr | AbortRun | CallValidator nat

datatype reaction = AbortGoal | AbortAttempt "jstr option"

text \<open>What the loop awaits, with the attempt's index and feedback, and the attempt a retry follows.\<close>

datatype run_phase =
    SessionPhase nat "jstr option" "jstr option"
  | RunPhase nat "jstr option"
  | VerdictPhase nat "jstr option"
  | StoppedPhase

record 'd run_result =
  rr_status :: goal_run_status
  rr_terminalReason :: terminal_reason
  rr_attempts :: "'d run_attempt list"
  rr_usage :: goal_usage
  rr_validatorError :: "'d validator_error option"
  rr_failureDetail :: "jstr option"

text \<open>
  \<open>gr_attemptSignal\<close> is whether the controller of the current attempt was aborted, if there is one;
  \<open>gr_pending\<close> the attempt whose start is not announced yet; \<open>gr_threw\<close> the message of an error that was thrown
  and not caught yet.
\<close>

record 'd goal_run =
  gr_status :: goal_run_status
  gr_terminalReason :: "terminal_reason option"
  gr_attempts :: "'d run_attempt list"
  gr_frozenDurationMs :: "jnum option"
  gr_totalSteps :: jnum
  gr_totalTokens :: jnum
  gr_totalCostUsd :: "jnum option"
  gr_aborted :: bool
  gr_attemptSignal :: "bool option"
  gr_operatorAborted :: "jstr list"
  gr_liveRun :: bool
  gr_durationTimer :: bool
  gr_pending :: "nat option"
  gr_log :: "'d run_event list"
  gr_ended :: bool
  gr_result :: "'d run_result option"
  gr_calls :: "run_call list"
  gr_phase :: run_phase
  gr_script :: "reaction list list"
  gr_threw :: "jstr option"

definition isOver :: "'d goal_run \<Rightarrow> bool" where
  "isOver s \<longleftrightarrow> isTerminalStatus (gr_status s)"

definition updateAttempt :: "nat \<Rightarrow> ('d run_attempt \<Rightarrow> 'd run_attempt) \<Rightarrow> 'd goal_run \<Rightarrow> 'd goal_run" where
  "updateAttempt i f s = s\<lparr>gr_attempts := (gr_attempts s)[i := f (gr_attempts s ! i)]\<rparr>"

subsection \<open>Events\<close>

text \<open>
  \<open>emit\<close>: an announcement of the attempt's start that is still pending goes first. Whatever is emitted is
  heard at once, and those who hear it do what the script says, by \<open>act\<close>.
\<close>

definition reacting :: "(reaction \<Rightarrow> 'd goal_run \<Rightarrow> 'd goal_run) \<Rightarrow> 'd goal_run \<Rightarrow> 'd goal_run" where
  "reacting act s =
     (case gr_script s of
        [] \<Rightarrow> s
      | reactions # rest \<Rightarrow> fold act reactions (s\<lparr>gr_script := rest\<rparr>))"

definition publish :: "(reaction \<Rightarrow> 'd goal_run \<Rightarrow> 'd goal_run) \<Rightarrow> 'd run_event \<Rightarrow> 'd goal_run \<Rightarrow> 'd goal_run" where
  "publish act event s = reacting act (s\<lparr>gr_log := gr_log s @ [event]\<rparr>)"

definition startedEventOf :: "'d goal_run \<Rightarrow> nat \<Rightarrow> 'd run_event" where
  "startedEventOf s i =
     (let attempt = gr_attempts s ! i in AttemptStartedEvent (ra_attemptId attempt) i (ra_runId attempt))"

definition flushAttemptStart :: "(reaction \<Rightarrow> 'd goal_run \<Rightarrow> 'd goal_run) \<Rightarrow> 'd goal_run \<Rightarrow> 'd goal_run" where
  "flushAttemptStart act s =
     (case gr_pending s of
        None \<Rightarrow> s
      | Some i \<Rightarrow> publish act (startedEventOf s i) (s\<lparr>gr_pending := None\<rparr>))"

definition emitEvent :: "(reaction \<Rightarrow> 'd goal_run \<Rightarrow> 'd goal_run) \<Rightarrow> 'd run_event \<Rightarrow> 'd goal_run \<Rightarrow> 'd goal_run" where
  "emitEvent act event s = publish act event (flushAttemptStart act s)"

definition callOut :: "(reaction \<Rightarrow> 'd goal_run \<Rightarrow> 'd goal_run) \<Rightarrow> run_call \<Rightarrow> 'd goal_run \<Rightarrow> 'd goal_run" where
  "callOut act call s = reacting act (s\<lparr>gr_calls := gr_calls s @ [call]\<rparr>)"

subsection \<open>The status, and ending\<close>

definition illegalTransition :: "run_options \<Rightarrow> goal_run_status \<Rightarrow> goal_run_status \<Rightarrow> jstr" where
  "illegalTransition opts old new =
     lit ''GoalRun '' @ ro_goalRunId opts @ lit '': illegal transition '' @ lit (statusText old)
       @ lit '' -> '' @ lit (statusText new) @ lit ''.''"

definition transition :: "run_options \<Rightarrow> goal_run_status \<Rightarrow> 'd goal_run \<Rightarrow> 'd goal_run" where
  "transition opts new s =
     (if canTransitionGoalRun (gr_status s) new then s\<lparr>gr_status := new\<rparr>
      else s\<lparr>gr_threw := Some (illegalTransition opts (gr_status s) new)\<rparr>)"

definition unlessThrown :: "('d goal_run \<Rightarrow> 'd goal_run) \<Rightarrow> 'd goal_run \<Rightarrow> 'd goal_run" where
  "unlessThrown f s = (if gr_threw s = None then f s else s)"

definition isOpenAttempt :: "'d run_attempt \<Rightarrow> bool" where
  "isOpenAttempt attempt \<longleftrightarrow> ra_status attempt = ARunning \<or> ra_status attempt = AEvaluating"

definition closedAsAborted :: "turn_time \<Rightarrow> 'd run_attempt \<Rightarrow> 'd run_attempt" where
  "closedAsAborted tm attempt =
     (if isOpenAttempt attempt then attempt\<lparr>ra_status := AAborted, ra_completedAt := Some (tm_iso tm)\<rparr> else attempt)"

definition closeCurrentAttemptAsAborted :: "turn_time \<Rightarrow> 'd goal_run \<Rightarrow> 'd goal_run" where
  "closeCurrentAttemptAsAborted tm s =
     (if gr_attempts s = [] then s else updateAttempt (length (gr_attempts s) - 1) (closedAsAborted tm) s)"

definition runUsage :: "turn_time \<Rightarrow> 'd goal_run \<Rightarrow> goal_usage" where
  "runUsage tm s =
     \<lparr>u_attempts = length (gr_attempts s), u_steps = gr_totalSteps s, u_tokens = gr_totalTokens s,
      u_costUsd = gr_totalCostUsd s, u_durationMs = withDefault (tm_elapsed tm) (gr_frozenDurationMs s)\<rparr>"

text \<open>\<open>None\<close>: a reason that does not belong to the status is an error.\<close>

definition terminalEventFor ::
  "goal_run_status \<Rightarrow> terminal_reason \<Rightarrow> 'd validator_error option \<Rightarrow> 'd run_event option" where
  "terminalEventFor new reason validatorError =
     (if new = Succeeded then Some SucceededEvent
      else if new = Canceled then Some CanceledEvent
      else if new = Exhausted
        then Some (ExhaustedEvent (if reason = AttemptLimitReached then reason else AggregateBudgetExceeded))
      else if \<not> isFailedReason reason then None
      else Some (FailedEvent reason (map_option stripValidatorErrorCause validatorError)))"

definition reasonMismatch :: "terminal_reason \<Rightarrow> jstr" where
  "reasonMismatch reason =
     (let q = [ch (CHR 0x27)]
      in lit ''Goal terminal reason '' @ q @ lit (reasonText reason) @ q @ lit '' does not belong to status ''
           @ q @ lit ''failed'' @ q @ lit ''.'')"

definition resultOf ::
  "turn_time \<Rightarrow> goal_run_status \<Rightarrow> terminal_reason \<Rightarrow> 'd validator_error option \<Rightarrow> jstr option \<Rightarrow> 'd goal_run \<Rightarrow> 'd run_result" where
  "resultOf tm new reason validatorError failureDetail s =
     \<lparr>rr_status = new, rr_terminalReason = reason, rr_attempts = gr_attempts s, rr_usage = runUsage tm s,
      rr_validatorError = validatorError, rr_failureDetail = failureDetail\<rparr>"

definition finishGoal ::
  "(reaction \<Rightarrow> 'd goal_run \<Rightarrow> 'd goal_run) \<Rightarrow> run_options \<Rightarrow> turn_time \<Rightarrow> goal_run_status \<Rightarrow> terminal_reason \<Rightarrow>
     'd validator_error option \<Rightarrow> jstr option \<Rightarrow> ('d goal_run \<Rightarrow> 'd goal_run) \<Rightarrow> 'd goal_run \<Rightarrow> 'd goal_run" where
  "finishGoal act opts tm new reason validatorError failureDetail beforeTerminalEvent s =
     unlessThrown (\<lambda>moved.
         let announced = beforeTerminalEvent (moved\<lparr>gr_terminalReason := Some reason,
               gr_frozenDurationMs := Some (tm_elapsed tm), gr_durationTimer := False\<rparr>)
         in case terminalEventFor new reason validatorError of
              None \<Rightarrow> announced\<lparr>gr_threw :=
                Some (reasonMismatch reason)\<rparr>
            | Some event \<Rightarrow>
                (let ended = emitEvent act event announced
                 in ended\<lparr>gr_ended := True,
                      gr_result := Some (resultOf tm new reason validatorError failureDetail ended)\<rparr>))
       (transition opts new s)"

subsection \<open>Controls\<close>

text \<open>\<open>abortAttempt\<close>: only the current attempt, while it is open, and once.\<close>

definition abortOneAttempt :: "jstr option \<Rightarrow> 'd goal_run \<Rightarrow> 'd goal_run" where
  "abortOneAttempt target s =
     (if gr_attempts s = [] \<or> isOver s then s
      else
        (let attempt = last (gr_attempts s)
         in if target \<noteq> None \<and> target \<noteq> Some (ra_attemptId attempt) then s
            else if \<not> isOpenAttempt attempt then s
            else if gr_attemptSignal s \<noteq> Some False then s
            else s\<lparr>gr_operatorAborted := ra_attemptId attempt # gr_operatorAborted s,
                   gr_attemptSignal := Some True,
                   gr_calls := gr_calls s @ (if gr_liveRun s then [AbortRun] else [])\<rparr>))"

text \<open>Once the goal was aborted, aborting it again does nothing.\<close>

fun quietly :: "reaction \<Rightarrow> 'd goal_run \<Rightarrow> 'd goal_run" where
  "quietly AbortGoal s = s"
| "quietly (AbortAttempt target) s = abortOneAttempt target s"

definition onGoalAbort :: "run_options \<Rightarrow> turn_time \<Rightarrow> 'd goal_run \<Rightarrow> 'd goal_run" where
  "onGoalAbort opts tm s =
     (if isOver s then s
      else
        (let requested = emitEvent quietly (CancellationRequestedEvent (ro_principal opts)) s;
             stopped = requested\<lparr>gr_attemptSignal := map_option (\<lambda>_. True) (gr_attemptSignal requested),
               gr_calls := gr_calls requested @ (if gr_liveRun requested then [AbortRun] else [])\<rparr>
         in finishGoal quietly opts tm Canceled GoalCanceled None None id (closeCurrentAttemptAsAborted tm stopped)))"

definition abortGoal :: "run_options \<Rightarrow> turn_time \<Rightarrow> 'd goal_run \<Rightarrow> 'd goal_run" where
  "abortGoal opts tm s = (if gr_aborted s then s else onGoalAbort opts tm (s\<lparr>gr_aborted := True\<rparr>))"

fun react :: "run_options \<Rightarrow> turn_time \<Rightarrow> reaction \<Rightarrow> 'd goal_run \<Rightarrow> 'd goal_run" where
  "react opts tm AbortGoal s = abortGoal opts tm s"
| "react opts tm (AbortAttempt target) s = abortOneAttempt target s"

subsection \<open>Decisions\<close>

definition contextOf :: "run_options \<Rightarrow> turn_time \<Rightarrow> 'd goal_run \<Rightarrow> goal_decision_context" where
  "contextOf opts tm s = \<lparr>dc_budget = ro_budget opts, dc_retryOn = ro_retryOn opts, dc_usage = runUsage tm s\<rparr>"

definition applyDecision ::
  "run_options \<Rightarrow> turn_time \<Rightarrow> 'd goal_decision \<Rightarrow> ('d goal_run \<Rightarrow> 'd goal_run) \<Rightarrow> 'd goal_run \<Rightarrow> 'd goal_run" where
  "applyDecision opts tm decision announce s =
     (case decision of
        Retry feedback \<Rightarrow> unlessThrown announce (transition opts Retrying s)
      | Succeed \<Rightarrow>
          finishGoal (react opts tm) opts tm (TERMINAL_STATUS_BY_REASON ValidatorPassed) ValidatorPassed None None announce s
      | Cancel \<Rightarrow>
          finishGoal (react opts tm) opts tm (TERMINAL_STATUS_BY_REASON GoalCanceled) GoalCanceled None None announce s
      | Exhaust reason detail \<Rightarrow> finishGoal (react opts tm) opts tm Exhausted reason None detail announce s
      | Fail reason validatorError detail \<Rightarrow>
          finishGoal (react opts tm) opts tm Failed reason validatorError detail announce s)"

text \<open>The loop goes on with another attempt only for a retry, and only while the goal is not over.\<close>

definition continuing :: "nat \<Rightarrow> jstr \<Rightarrow> 'd goal_decision \<Rightarrow> 'd goal_run \<Rightarrow> 'd goal_run" where
  "continuing i attemptId decision s =
     s\<lparr>gr_phase := (case decision of
          Retry feedback \<Rightarrow> if isOver s then StoppedPhase else SessionPhase (Suc i) feedback (Some attemptId)
        | _ \<Rightarrow> StoppedPhase)\<rparr>"

definition decideRun ::
  "run_options \<Rightarrow> turn_time \<Rightarrow> nat \<Rightarrow> 'd goal_decision \<Rightarrow> ('d goal_run \<Rightarrow> 'd goal_run) \<Rightarrow> 'd goal_run \<Rightarrow> 'd goal_run" where
  "decideRun opts tm i decision announce s =
     continuing i (ra_attemptId (gr_attempts s ! i)) decision (applyDecision opts tm decision announce s)"

definition stopRun :: "'d goal_run \<Rightarrow> 'd goal_run" where
  "stopRun s = s\<lparr>gr_phase := StoppedPhase\<rparr>"

definition settleAttempt :: "turn_time \<Rightarrow> nat \<Rightarrow> attempt_status \<Rightarrow> 'd goal_run \<Rightarrow> 'd goal_run" where
  "settleAttempt tm i status =
     updateAttempt i (\<lambda>attempt. attempt\<lparr>ra_status := status, ra_completedAt := Some (tm_iso tm)\<rparr>)"

definition failAttempt :: "run_options \<Rightarrow> turn_time \<Rightarrow> nat \<Rightarrow> jstr \<Rightarrow> 'd goal_run \<Rightarrow> 'd goal_run" where
  "failAttempt opts tm i detail s =
     decideRun opts tm i (decideAttemptRunFailure detail) id (settleAttempt tm i AFailed s)"

subsection \<open>One attempt\<close>

definition newAttempt :: "turn_time \<Rightarrow> nat \<Rightarrow> jstr \<Rightarrow> jstr \<Rightarrow> 'd run_attempt" where
  "newAttempt tm i attemptId sessionId =
     \<lparr>ra_attemptId = attemptId, ra_attemptIndex = i, ra_runId = None, ra_sessionId = sessionId,
      ra_startedAt = tm_iso tm, ra_completedAt = None, ra_finishReason = None, ra_validation = None,
      ra_feedback = None, ra_steps = Fin 0, ra_tokens = Fin 0, ra_costUsd = None, ra_status = ARunning\<rparr>"

text \<open>\<open>openAttempt\<close>: a retry is announced once the attempt it leads to is open.\<close>

definition openRunAttempt ::
  "run_options \<Rightarrow> turn_time \<Rightarrow> nat \<Rightarrow> jstr \<Rightarrow> jstr \<Rightarrow> jstr option \<Rightarrow> 'd goal_run \<Rightarrow> 'd goal_run" where
  "openRunAttempt opts tm i attemptId sessionId retryOf s =
     unlessThrown (\<lambda>opened.
         let announced = (case retryOf of
               None \<Rightarrow> opened
             | Some priorAttemptId \<Rightarrow> emitEvent (react opts tm) (RetryingEvent priorAttemptId attemptId) opened)
         in if retryOf \<noteq> None \<and> isOver announced then announced else announced\<lparr>gr_pending := Some i\<rparr>)
       (transition opts Running
         (s\<lparr>gr_attempts := gr_attempts s @ [newAttempt tm i attemptId sessionId],
            gr_attemptSignal := Some False, gr_liveRun := False\<rparr>))"

definition adoptRunId :: "run_options \<Rightarrow> turn_time \<Rightarrow> nat \<Rightarrow> jstr \<Rightarrow> 'd goal_run \<Rightarrow> 'd goal_run" where
  "adoptRunId opts tm i observedId s =
     (let attempt = gr_attempts s ! i
      in if ra_runId attempt \<noteq> None \<or> \<not> startsWith observedId (ra_sessionId attempt @ lit '':'') then s
         else flushAttemptStart (react opts tm) (updateAttempt i (\<lambda>a. a\<lparr>ra_runId := Some observedId\<rparr>) s))"

text \<open>What the loop reads of a run's result: \<open>en_cost\<close> is the total of its cost estimate, if it has one.\<close>

record run_end =
  en_finishReason :: finish_reason
  en_steps :: nat
  en_tokens :: jnum
  en_cost :: "jnum option"

definition accountUsage :: "nat \<Rightarrow> run_end \<Rightarrow> 'd goal_run \<Rightarrow> 'd goal_run" where
  "accountUsage i result s =
     (updateAttempt i (\<lambda>a. a\<lparr>ra_steps := jnat (en_steps result), ra_tokens := en_tokens result,
          ra_costUsd := en_cost result\<rparr>) s)
       \<lparr>gr_totalSteps := jadd (gr_totalSteps s) (jnat (en_steps result)),
        gr_totalTokens := jadd (gr_totalTokens s) (en_tokens result),
        gr_totalCostUsd := (case en_cost result of
            None \<Rightarrow> gr_totalCostUsd s
          | Some cost \<Rightarrow> Some (jadd (withDefault (Fin 0) (gr_totalCostUsd s)) cost))\<rparr>"

fun statusOfOutcome :: "'d outcome \<Rightarrow> attempt_status" where
  "statusOfOutcome (Pass _) = APassed"
| "statusOfOutcome CanceledOutcome = AAborted"
| "statusOfOutcome _ = AFailed"

fun feedbackOf :: "'d outcome \<Rightarrow> jstr option" where
  "feedbackOf (FailVerdict feedback _ _) = Some feedback"
| "feedbackOf _ = None"

definition announceVerdict ::
  "platform \<Rightarrow> run_options \<Rightarrow> turn_time \<Rightarrow> jstr \<Rightarrow> 'd outcome \<Rightarrow> 'd goal_run \<Rightarrow> 'd goal_run" where
  "announceVerdict p opts tm attemptId outcome s =
     (let validated = emitEvent (react opts tm)
            (AttemptValidatedEvent attemptId (ro_validator opts) (outcomeKind outcome)) s
      in case feedbackOf outcome of
           None \<Rightarrow> validated
         | Some feedback \<Rightarrow> emitEvent (react opts tm) (FeedbackRecordedEvent attemptId (sha256HexSync p feedback)) validated)"

text \<open>
  \<open>evaluate\<close> up to the wait: a validator is called only while neither the goal nor the attempt is aborted;
  otherwise its execution is canceled without it.
\<close>

definition beginEvaluation :: "run_options \<Rightarrow> turn_time \<Rightarrow> nat \<Rightarrow> jstr option \<Rightarrow> 'd goal_run \<Rightarrow> 'd goal_run" where
  "beginEvaluation opts tm i feedback s =
     unlessThrown (\<lambda>moved.
         let evaluating = updateAttempt i (\<lambda>a. a\<lparr>ra_status := AEvaluating\<rparr>) moved;
             called = (if gr_aborted evaluating \<or> gr_attemptSignal evaluating = Some True then evaluating
               else callOut (react opts tm) (CallValidator i) evaluating)
         in called\<lparr>gr_phase := VerdictPhase i feedback\<rparr>)
       (transition opts Evaluating s)"

subsection \<open>The turns of the loop\<close>

text \<open>\<open>executeAttempt\<close> once its session is there; \<open>starts\<close> is what \<open>session.run\<close> threw, if it threw.\<close>

definition sessionReady ::
  "run_options \<Rightarrow> turn_time \<Rightarrow> nat \<Rightarrow> jstr option \<Rightarrow> jstr option \<Rightarrow> jstr \<Rightarrow> jstr \<Rightarrow> jstr option \<Rightarrow> 'd goal_run \<Rightarrow> 'd goal_run" where
  "sessionReady opts tm i feedback retryOf sessionId attemptId starts s =
     (if isOver s then stopRun s
      else unlessThrown (\<lambda>opened.
          if isOver opened then stopRun opened
          else if attemptId \<in> set (gr_operatorAborted opened)
            then decideRun opts tm i
              (decideRetryOrExhaust (contextOf opts tm opened) feedback (Some OPERATOR_ABORT_DETAIL)) id
              (settleAttempt tm i AAborted opened)
          else
            (let called = callOut (react opts tm)
                   (CallRun i (goalAttemptInput (policyKind (ro_policy opts)) (ro_prompt opts) i feedback)) opened
             in case starts of
                  Some message \<Rightarrow> failAttempt opts tm i (runStartDetail message) called
                | None \<Rightarrow> called\<lparr>gr_liveRun := True, gr_phase := RunPhase i feedback\<rparr>))
        (openRunAttempt opts tm i attemptId sessionId retryOf s))"

definition runEnded ::
  "run_options \<Rightarrow> turn_time \<Rightarrow> nat \<Rightarrow> jstr option \<Rightarrow> run_end \<Rightarrow> jstr \<Rightarrow> 'd goal_run \<Rightarrow> 'd goal_run" where
  "runEnded opts tm i feedback result snapshotId s =
     (let adopted = adoptRunId opts tm i snapshotId s
      in if isOver adopted then stopRun adopted
         else
           (let accounted = accountUsage i result
                  (updateAttempt i (\<lambda>a. a\<lparr>ra_finishReason := Some (en_finishReason result)\<rparr>) adopted);
                operator = ra_attemptId (gr_attempts accounted ! i) \<in> set (gr_operatorAborted accounted)
            in case decideRunFinish (contextOf opts tm accounted) (en_finishReason result) operator
                     (en_cost result \<noteq> None) feedback of
                 run_finish_decision.Validate \<Rightarrow> beginEvaluation opts tm i feedback accounted
               | Decision decision status \<Rightarrow>
                   decideRun opts tm i decision id
                     (settleAttempt tm i (if status = AttemptFailed then AFailed else AAborted) accounted)))"

definition verdictReady ::
  "platform \<Rightarrow> run_options \<Rightarrow> turn_time \<Rightarrow> nat \<Rightarrow> jstr option \<Rightarrow> 'd outcome \<Rightarrow> jstr \<Rightarrow> jstr \<Rightarrow> 'd goal_run \<Rightarrow> 'd goal_run" where
  "verdictReady p opts tm i feedback settled startedAt completedAt s =
     (if gr_status s \<noteq> Evaluating then stopRun s
      else if isDurationBoundElapsed (ro_budget opts) (withDefault (tm_elapsed tm) (gr_frozenDurationMs s))
        then decideRun opts tm i decideDurationElapsed id (closeCurrentAttemptAsAborted tm s)
      else
        (let attemptId = ra_attemptId (gr_attempts s ! i);
             operator = attemptId \<in> set (gr_operatorAborted s);
             outcome = (if operator then CanceledOutcome else settled);
             recorded = updateAttempt i (\<lambda>a. a\<lparr>
               ra_validation := Some \<lparr>rv_identity = ro_validator opts, rv_startedAt = startedAt,
                 rv_completedAt = completedAt, rv_outcome = outcome\<rparr>,
               ra_feedback := feedbackOf outcome, ra_status := statusOfOutcome outcome,
               ra_completedAt := Some completedAt\<rparr>) s
         in decideRun opts tm i (decideOutcome (contextOf opts tm recorded) outcome feedback operator)
              (announceVerdict p opts tm attemptId outcome) recorded))"

text \<open>The \<open>catch\<close> of the loop.\<close>

definition caught :: "run_options \<Rightarrow> turn_time \<Rightarrow> 'd goal_run \<Rightarrow> 'd goal_run" where
  "caught opts tm s =
     (case gr_threw s of
        None \<Rightarrow> s
      | Some message \<Rightarrow>
          (let over = s\<lparr>gr_threw := None, gr_phase := StoppedPhase\<rparr>
           in if isOver over then over
              else applyDecision opts tm (decideAttemptRunFailure (controllerDetail message)) id over))"

definition durationElapsed :: "run_options \<Rightarrow> turn_time \<Rightarrow> 'd goal_run \<Rightarrow> 'd goal_run" where
  "durationElapsed opts tm s =
     (if isOver s then s
      else applyDecision opts tm decideDurationElapsed id
        (closeCurrentAttemptAsAborted tm
          (s\<lparr>gr_attemptSignal := map_option (\<lambda>_. True) (gr_attemptSignal s),
             gr_calls := gr_calls s @ (if gr_liveRun s then [AbortRun] else [])\<rparr>)))"

text \<open>What may arrive, and when: the loop hears only what it awaits, and a timer fires only while it is set.\<close>

datatype 'd turn_input =
    SessionReady jstr jstr "jstr option"
  | SessionRejected jstr
  | RunObserved jstr
  | RunSettled run_end jstr
  | RunRejected jstr
  | VerdictSettled "'d outcome" jstr jstr
  | GoalAborted
  | AttemptAborted "jstr option"
  | DurationElapsed

definition turn ::
  "platform \<Rightarrow> run_options \<Rightarrow> turn_time \<Rightarrow> 'd turn_input \<Rightarrow> 'd goal_run \<Rightarrow> 'd goal_run option" where
  "turn p opts tm input s =
     (case input of
        SessionReady sessionId attemptId starts \<Rightarrow>
          (case gr_phase s of
             SessionPhase i feedback retryOf \<Rightarrow>
               Some (caught opts tm (sessionReady opts tm i feedback retryOf sessionId attemptId starts s))
           | _ \<Rightarrow> None)
      | SessionRejected message \<Rightarrow>
          (case gr_phase s of
             SessionPhase i feedback retryOf \<Rightarrow>
               if i = 0 \<or> ro_policy opts = Continue then None
               else Some (caught opts tm (stopRun
                 (applyDecision opts tm (decideAttemptRunFailure (conversationPolicyDetail message)) id s)))
           | _ \<Rightarrow> None)
      | RunObserved observedId \<Rightarrow>
          (case gr_phase s of
             RunPhase i feedback \<Rightarrow> Some (adoptRunId opts tm i observedId s)
           | _ \<Rightarrow> None)
      | RunSettled result snapshotId \<Rightarrow>
          (case gr_phase s of
             RunPhase i feedback \<Rightarrow> Some (caught opts tm (runEnded opts tm i feedback result snapshotId s))
           | _ \<Rightarrow> None)
      | RunRejected message \<Rightarrow>
          (case gr_phase s of
             RunPhase i feedback \<Rightarrow>
               Some (caught opts tm
                 (if isOver s then stopRun s else failAttempt opts tm i (runRejectedDetail message) s))
           | _ \<Rightarrow> None)
      | VerdictSettled outcome startedAt completedAt \<Rightarrow>
          (case gr_phase s of
             VerdictPhase i feedback \<Rightarrow>
               Some (caught opts tm (verdictReady p opts tm i feedback outcome startedAt completedAt s))
           | _ \<Rightarrow> None)
      | GoalAborted \<Rightarrow> Some (abortGoal opts tm s)
      | AttemptAborted target \<Rightarrow> Some (abortOneAttempt target s)
      | DurationElapsed \<Rightarrow>
          if gr_durationTimer s then Some (durationElapsed opts tm (s\<lparr>gr_durationTimer := False\<rparr>)) else None)"

subsection \<open>Starting\<close>

definition freshRun :: "bool \<Rightarrow> reaction list list \<Rightarrow> 'd goal_run" where
  "freshRun aborted script =
     \<lparr>gr_status = Pending, gr_terminalReason = None, gr_attempts = [], gr_frozenDurationMs = None,
      gr_totalSteps = Fin 0, gr_totalTokens = Fin 0, gr_totalCostUsd = None, gr_aborted = aborted,
      gr_attemptSignal = None, gr_operatorAborted = [], gr_liveRun = False, gr_durationTimer = False,
      gr_pending = None, gr_log = [], gr_ended = False, gr_result = None, gr_calls = [],
      gr_phase = StoppedPhase, gr_script = script, gr_threw = None\<rparr>"

text \<open>Nothing listens for an abort yet while the start is announced.\<close>

fun heardEarly :: "reaction \<Rightarrow> 'd goal_run \<Rightarrow> 'd goal_run" where
  "heardEarly AbortGoal s = s\<lparr>gr_aborted := True\<rparr>"
| "heardEarly (AbortAttempt target) s = abortOneAttempt target s"

definition startGoal :: "run_options \<Rightarrow> turn_time \<Rightarrow> bool \<Rightarrow> reaction list list \<Rightarrow> 'd goal_run" where
  "startGoal opts tm aborted script =
     (let started = emitEvent heardEarly GoalStartedEvent (freshRun aborted script)
      in if gr_aborted started then onGoalAbort opts tm started
         else case decideDeterminismRequirement (ro_requireDeterministic opts) (ro_determinism opts) of
                Some unsupported \<Rightarrow> applyDecision opts tm unsupported id started
              | None \<Rightarrow> started\<lparr>gr_durationTimer := b_maximumTotalDurationMs (ro_budget opts) \<noteq> None,
                  gr_phase := SessionPhase 0 None None\<rparr>)"

text \<open>
  Every goal that can come about: its number counts the turns in which the loop heard what it awaited. In each
  turn those who are called or hear an event do what some script says, whatever it is.
\<close>

fun awaited :: "'d turn_input \<Rightarrow> bool" where
  "awaited (RunObserved observedId) = False"
| "awaited GoalAborted = False"
| "awaited (AttemptAborted target) = False"
| "awaited DurationElapsed = False"
| "awaited _ = True"

inductive goal_runs :: "platform \<Rightarrow> run_options \<Rightarrow> nat \<Rightarrow> 'd goal_run \<Rightarrow> bool" for p opts where
  started: "goal_runs p opts 0 (startGoal opts tm aborted script)"
| turned: "goal_runs p opts k s \<Longrightarrow> turn p opts tm input (s\<lparr>gr_script := script\<rparr>) = Some s' \<Longrightarrow>
    goal_runs p opts (if awaited input then Suc k else k) s'"

end
