(* ===== verification/RunLaws.thy ===== *)
theory RunLaws
  imports GoalRun
begin

section \<open>What the in-memory controller promises\<close>

text \<open>
  Whatever is done by those who hear its events and by the agent and validator it calls, a goal moves as
  \<open>goal_step\<close> does, is never stranded, ends within \<open>3 * m\<close> settlements and once, and does not move after.
  The proofs go through \<open>touched\<close>: all that a call out can have done when it returns is to have left the goal
  as it was but for what is heard, or to have canceled it.
\<close>

subsection \<open>What a call out can do\<close>

fun isEnding :: "'d run_event \<Rightarrow> bool" where
  "isEnding SucceededEvent = True"
| "isEnding (ExhaustedEvent reason) = True"
| "isEnding (FailedEvent reason validatorError) = True"
| "isEnding CanceledEvent = True"
| "isEnding _ = False"

abbreviation endings :: "'d goal_run \<Rightarrow> 'd run_event list" where
  "endings s \<equiv> filter isEnding (gr_log s)"

fun runIndex :: "run_call \<Rightarrow> nat option" where
  "runIndex (CallRun i input) = Some i"
| "runIndex _ = None"

fun validatorIndex :: "run_call \<Rightarrow> nat option" where
  "validatorIndex (CallValidator i) = Some i"
| "validatorIndex _ = None"

abbreviation runsCalled :: "'d goal_run \<Rightarrow> nat list" where
  "runsCalled s \<equiv> List.map_filter runIndex (gr_calls s)"

abbreviation validatorsCalled :: "'d goal_run \<Rightarrow> nat list" where
  "validatorsCalled s \<equiv> List.map_filter validatorIndex (gr_calls s)"

text \<open>What stays the same whatever is heard, and whether or not the goal is canceled meanwhile.\<close>

definition kept :: "'d goal_run \<Rightarrow> 'd goal_run \<Rightarrow> bool" where
  "kept s s' \<longleftrightarrow>
     gr_phase s' = gr_phase s \<and> gr_threw s' = gr_threw s
     \<and> gr_totalSteps s' = gr_totalSteps s \<and> gr_totalTokens s' = gr_totalTokens s
     \<and> gr_totalCostUsd s' = gr_totalCostUsd s
     \<and> runsCalled s' = runsCalled s \<and> validatorsCalled s' = validatorsCalled s
     \<and> (gr_pending s' = gr_pending s \<or> gr_pending s' = None)
     \<and> (\<exists>events. gr_log s' = gr_log s @ events)"

definition undisturbed :: "'d goal_run \<Rightarrow> 'd goal_run \<Rightarrow> bool" where
  "undisturbed s s' \<longleftrightarrow>
     kept s s' \<and> gr_status s' = gr_status s \<and> gr_terminalReason s' = gr_terminalReason s
     \<and> gr_attempts s' = gr_attempts s \<and> gr_frozenDurationMs s' = gr_frozenDurationMs s
     \<and> gr_ended s' = gr_ended s \<and> gr_result s' = gr_result s \<and> endings s' = endings s
     \<and> (gr_aborted s' = gr_aborted s \<or> isOver s)"

definition canceledBy :: "turn_time \<Rightarrow> 'd goal_run \<Rightarrow> 'd goal_run \<Rightarrow> bool" where
  "canceledBy tm s s' \<longleftrightarrow>
     kept s s' \<and> \<not> isOver s \<and> gr_status s' = Canceled \<and> gr_terminalReason s' = Some GoalCanceled
     \<and> gr_attempts s' = gr_attempts (closeCurrentAttemptAsAborted tm s)
     \<and> gr_frozenDurationMs s' = Some (tm_elapsed tm) \<and> gr_ended s'
     \<and> gr_result s' = Some (resultOf tm Canceled GoalCanceled None None s')
     \<and> endings s' = endings s @ [CanceledEvent] \<and> gr_pending s' = None"

definition touched :: "turn_time \<Rightarrow> 'd goal_run \<Rightarrow> 'd goal_run \<Rightarrow> bool" where
  "touched tm s s' \<longleftrightarrow> undisturbed s s' \<or> canceledBy tm s s'"

lemma kept_refl [simp]: "kept s s"
  by (simp add: kept_def)

lemma kept_trans: "kept s t \<Longrightarrow> kept t u \<Longrightarrow> kept s u"
  unfolding kept_def by auto

lemma undisturbed_refl [simp]: "undisturbed s s"
  by (simp add: undisturbed_def)

lemma undisturbed_over: "undisturbed s t \<Longrightarrow> isOver t = isOver s"
  by (simp add: undisturbed_def isOver_def)

lemma undisturbed_trans: "undisturbed s t \<Longrightarrow> undisturbed t u \<Longrightarrow> undisturbed s u"
  unfolding undisturbed_def by (auto intro: kept_trans simp: isOver_def)

lemma closeCurrent_attempts:
  "gr_attempts s = gr_attempts t \<Longrightarrow>
     gr_attempts (closeCurrentAttemptAsAborted tm s) = gr_attempts (closeCurrentAttemptAsAborted tm t)"
  by (simp add: closeCurrentAttemptAsAborted_def updateAttempt_def)

lemma resultOf_same:
  "gr_attempts s = gr_attempts t \<Longrightarrow> gr_totalSteps s = gr_totalSteps t \<Longrightarrow> gr_totalTokens s = gr_totalTokens t \<Longrightarrow>
   gr_totalCostUsd s = gr_totalCostUsd t \<Longrightarrow> gr_frozenDurationMs s = gr_frozenDurationMs t \<Longrightarrow>
     resultOf tm st reason e d s = resultOf tm st reason e d t"
  by (simp add: resultOf_def runUsage_def)

lemma touched_trans:
  assumes "touched tm s t" "touched tm t u"
  shows "touched tm s u"
proof -
  consider "undisturbed s t" "undisturbed t u" | "undisturbed s t" "canceledBy tm t u" | "canceledBy tm s t" "undisturbed t u"
    | "canceledBy tm s t" "canceledBy tm t u"
    using assms by (auto simp: touched_def)
  then show ?thesis
  proof cases
    case 1
    then show ?thesis using undisturbed_trans by (auto simp: touched_def)
  next
    case 2
    then have "canceledBy tm s u"
      using closeCurrent_attempts [of t s tm] undisturbed_over [of s t]
      unfolding canceledBy_def undisturbed_def by (auto intro: kept_trans)
    then show ?thesis by (simp add: touched_def)
  next
    case 3
    then have "resultOf tm Canceled GoalCanceled None None u = resultOf tm Canceled GoalCanceled None None t"
      by (intro resultOf_same) (simp_all add: undisturbed_def kept_def)
    with 3 have "canceledBy tm s u"
      unfolding canceledBy_def undisturbed_def by (auto intro: kept_trans simp: kept_def)
    then show ?thesis by (simp add: touched_def)
  next
    case 4
    then show ?thesis by (simp add: canceledBy_def isOver_def)
  qed
qed

lemma touched_refl [simp]: "touched tm s s"
  by (simp add: touched_def)

lemma touched_threw: "touched tm s t \<Longrightarrow> gr_threw t = gr_threw s"
  by (auto simp: touched_def undisturbed_def canceledBy_def kept_def)

lemma touched_over: "touched tm s t \<Longrightarrow> isOver s \<Longrightarrow> undisturbed s t"
  by (auto simp: touched_def canceledBy_def)

text \<open>What every reaction is, and so what hearing an event is.\<close>

lemma abortOneAttempt_undisturbed: "undisturbed s (abortOneAttempt target s)"
  by (auto simp: abortOneAttempt_def undisturbed_def kept_def Let_def List.map_filter_def)

lemma quietly_undisturbed: "undisturbed s (quietly r s)"
  by (cases r) (simp_all add: abortOneAttempt_undisturbed)

lemma reacting_undisturbed:
  assumes "\<And>r x. undisturbed x (act r x)"
  shows "undisturbed s (reacting act s)"
proof -
  have "undisturbed x (fold act rs x)" for rs x
    by (induction rs arbitrary: x) (auto intro: undisturbed_trans assms)
  moreover have "undisturbed s (s\<lparr>gr_script := rest\<rparr>)" for rest by (simp add: undisturbed_def kept_def)
  ultimately show ?thesis by (auto simp: reacting_def intro: undisturbed_trans split: list.split)
qed

lemma reacting_touched:
  assumes "\<And>r x. gr_threw x = None \<Longrightarrow> touched tm x (act r x)" "gr_threw s = None"
  shows "touched tm s (reacting act s)"
proof -
  have "touched tm x (fold act rs x)" if "gr_threw x = None" for rs x
    using that
  proof (induction rs arbitrary: x)
    case (Cons r rs)
    have t: "touched tm x (act r x)" by (rule assms(1) [OF Cons.prems])
    then have "gr_threw (act r x) = None" using touched_threw Cons.prems by metis
    from touched_trans [OF t Cons.IH [OF this]] show ?case by simp
  qed simp
  moreover have "touched tm s (s\<lparr>gr_script := rest\<rparr>)" for rest by (simp add: touched_def undisturbed_def kept_def)
  moreover have "gr_threw (s\<lparr>gr_script := rest\<rparr>) = None" for rest using assms(2) by simp
  ultimately have "touched tm s (fold act rs (s\<lparr>gr_script := rest\<rparr>))" for rs rest by (metis touched_trans)
  then show ?thesis by (simp add: reacting_def split: list.split)
qed

subsection \<open>Emitting\<close>

lemma emit_undisturbed:
  assumes act: "\<And>r x. undisturbed x (act r x)" and e: "\<not> isEnding event"
  shows "undisturbed s (emitEvent act event s)" "gr_pending (emitEvent act event s) = None"
proof -
  have publish: "undisturbed x (publish act ev x)" if "\<not> isEnding ev" for ev x
    unfolding publish_def
    by (rule undisturbed_trans [OF _ reacting_undisturbed [OF act]]) (use that in \<open>simp add: undisturbed_def kept_def\<close>)
  have keep: "gr_pending (publish act ev x) = None" if "gr_pending x = None" for ev x
    using reacting_undisturbed [OF act, of "x\<lparr>gr_log := gr_log x @ [ev]\<rparr>"] that
    by (auto simp: publish_def undisturbed_def kept_def)
  have "undisturbed s (flushAttemptStart act s) \<and> gr_pending (flushAttemptStart act s) = None"
  proof (cases "gr_pending s")
    case (Some i)
    have "undisturbed s (s\<lparr>gr_pending := None\<rparr>)" by (simp add: undisturbed_def kept_def)
    moreover have "\<not> isEnding (startedEventOf s i)" by (simp add: startedEventOf_def Let_def)
    ultimately show ?thesis
      using publish keep Some by (auto simp: flushAttemptStart_def intro: undisturbed_trans)
  qed (simp add: flushAttemptStart_def)
  then show "undisturbed s (emitEvent act event s)" "gr_pending (emitEvent act event s) = None"
    using publish [OF e] keep by (auto simp: emitEvent_def intro: undisturbed_trans)
qed

lemma publish_touched:
  assumes "\<And>r x. gr_threw x = None \<Longrightarrow> touched tm x (act r x)" "\<not> isEnding ev" "gr_threw x = None"
  shows "touched tm x (publish act ev x)"
  unfolding publish_def
  by (rule touched_trans [OF _ reacting_touched [OF assms(1)]])
    (use assms(2,3) in \<open>simp_all add: touched_def undisturbed_def kept_def\<close>)

lemma flush_touched:
  assumes act: "\<And>r x. gr_threw x = None \<Longrightarrow> touched tm x (act r x)" and t: "gr_threw s = None"
  shows "touched tm s (flushAttemptStart act s)" "gr_pending (flushAttemptStart act s) = None"
proof -
  have e: "\<not> isEnding (startedEventOf s i)" for i by (simp add: startedEventOf_def Let_def)
  have p: "touched tm (s\<lparr>gr_pending := None\<rparr>) (publish act (startedEventOf s i) (s\<lparr>gr_pending := None\<rparr>))" for i
    by (rule publish_touched [OF act e]) (use t in simp_all)
  have "touched tm s (s\<lparr>gr_pending := None\<rparr>)" by (simp add: touched_def undisturbed_def kept_def)
  with p show "touched tm s (flushAttemptStart act s)"
    by (auto simp: flushAttemptStart_def intro: touched_trans split: option.split)
  have "gr_pending (publish act (startedEventOf s i) (s\<lparr>gr_pending := None\<rparr>)) = None" for i
    using p [of i] by (auto simp: touched_def undisturbed_def canceledBy_def kept_def)
  then show "gr_pending (flushAttemptStart act s) = None" by (auto simp: flushAttemptStart_def split: option.split)
qed

lemma emit_touched:
  assumes act: "\<And>r x. gr_threw x = None \<Longrightarrow> touched tm x (act r x)" and e: "\<not> isEnding event" and t: "gr_threw s = None"
  shows "touched tm s (emitEvent act event s)" "gr_pending (emitEvent act event s) = None"
proof -
  note f = flush_touched [OF act t]
  have t': "gr_threw (flushAttemptStart act s) = None" using touched_threw [OF f(1)] t by simp
  have p: "touched tm (flushAttemptStart act s) (emitEvent act event s)"
    unfolding emitEvent_def by (rule publish_touched [OF act e t'])
  with f(1) show "touched tm s (emitEvent act event s)" by (rule touched_trans)
  from p f(2) show "gr_pending (emitEvent act event s) = None"
    by (auto simp: touched_def undisturbed_def canceledBy_def kept_def)
qed

subsection \<open>Ending\<close>

text \<open>What an ending leaves: everything but the status and what goes with it, and exactly one ending event more.\<close>

definition finishedAs ::
  "turn_time \<Rightarrow> goal_run_status \<Rightarrow> terminal_reason \<Rightarrow> 'd validator_error option \<Rightarrow> jstr option \<Rightarrow> 'd run_event \<Rightarrow>
     'd goal_run \<Rightarrow> 'd goal_run \<Rightarrow> bool" where
  "finishedAs tm new reason validatorError detail event s s' \<longleftrightarrow>
     kept s s' \<and> gr_status s' = new \<and> gr_terminalReason s' = Some reason \<and> gr_attempts s' = gr_attempts s
     \<and> gr_frozenDurationMs s' = Some (tm_elapsed tm) \<and> gr_ended s'
     \<and> gr_result s' = Some (resultOf tm new reason validatorError detail s')
     \<and> endings s' = endings s @ [event] \<and> gr_pending s' = None"

lemma terminalEventFor_ending:
  "terminalEventFor new reason e = Some event \<Longrightarrow> isEnding event"
  by (auto simp: terminalEventFor_def split: if_splits)

lemma emit_ending:
  assumes act: "\<And>r x. isOver x \<Longrightarrow> undisturbed x (act r x)" and "isEnding event" "isOver s"
  shows "kept s (emitEvent act event s) \<and> gr_status (emitEvent act event s) = gr_status s
     \<and> gr_terminalReason (emitEvent act event s) = gr_terminalReason s
     \<and> gr_attempts (emitEvent act event s) = gr_attempts s
     \<and> gr_frozenDurationMs (emitEvent act event s) = gr_frozenDurationMs s
     \<and> endings (emitEvent act event s) = endings s @ [event] \<and> gr_pending (emitEvent act event s) = None"
proof -
  have fold: "undisturbed x (fold act rs x)" if "isOver x" for rs x
    using that
  proof (induction rs arbitrary: x)
    case (Cons r rs)
    have "undisturbed x (act r x)" by (rule act [OF Cons.prems])
    with Cons.IH [of "act r x"] Cons.prems undisturbed_over show ?case by (fastforce intro: undisturbed_trans)
  qed simp
  have reacting: "undisturbed x (reacting act x)" if "isOver x" for x
  proof -
    have "undisturbed x (x\<lparr>gr_script := rest\<rparr>)" "isOver (x\<lparr>gr_script := rest\<rparr>)" for rest
      using that by (simp_all add: undisturbed_def kept_def isOver_def)
    then have "undisturbed x (fold act rs (x\<lparr>gr_script := rest\<rparr>))" for rs rest by (metis fold undisturbed_trans)
    then show ?thesis by (simp add: reacting_def split: list.split)
  qed
  define f where "f = flushAttemptStart act s"
  have f: "undisturbed s f" "gr_pending f = None"
  proof -
    have "undisturbed s f \<and> gr_pending f = None"
    proof (cases "gr_pending s")
      case (Some i)
      define x where "x = s\<lparr>gr_pending := None, gr_log := gr_log s @ [startedEventOf s i]\<rparr>"
      have "\<not> isEnding (startedEventOf s i)" by (simp add: startedEventOf_def Let_def)
      then have "undisturbed s x" by (simp add: x_def undisturbed_def kept_def)
      moreover have "isOver x" using assms(3) by (simp add: x_def isOver_def)
      moreover have "f = reacting act x" by (simp add: f_def flushAttemptStart_def Some publish_def x_def)
      moreover have "gr_pending x = None" by (simp add: x_def)
      ultimately show ?thesis using reacting [of x] undisturbed_trans [of s x f]
        by (simp add: undisturbed_def [of x] kept_def [of x])
    qed (simp add: f_def flushAttemptStart_def)
    then show "undisturbed s f" "gr_pending f = None" by simp_all
  qed
  define y where "y = f\<lparr>gr_log := gr_log f @ [event]\<rparr>"
  have over: "isOver f" using undisturbed_over [OF f(1)] assms(3) by simp
  have "undisturbed y (reacting act y)" by (rule reacting) (use over in \<open>simp add: y_def isOver_def\<close>)
  moreover have "emitEvent act event s = reacting act y" by (simp add: emitEvent_def publish_def y_def f_def)
  moreover have "kept s y" "gr_pending y = None" using f by (auto simp: y_def undisturbed_def kept_def)
  ultimately show ?thesis
    using f assms(2) kept_trans [of s y] by (auto simp: undisturbed_def y_def kept_def)
qed

lemma finishGoal_finished:
  assumes act: "\<And>r x. isOver x \<Longrightarrow> undisturbed x (act r x)"
    and announce: "\<And>x. isOver x \<Longrightarrow> gr_threw x = None \<Longrightarrow> undisturbed x (announce x)"
    and can: "canTransitionGoalRun (gr_status s) new" and terminal: "isTerminalStatus new"
    and event: "terminalEventFor new reason e = Some event" and t: "gr_threw s = None"
  shows "finishedAs tm new reason e d event s (finishGoal act opts tm new reason e d announce s)"
proof -
  define a where "a = s\<lparr>gr_status := new, gr_terminalReason := Some reason,
    gr_frozenDurationMs := Some (tm_elapsed tm), gr_durationTimer := False\<rparr>"
  have a: "isOver a" "gr_threw a = None" using terminal t by (simp_all add: a_def isOver_def)
  have b: "undisturbed a (announce a)" by (rule announce [OF a])
  define b where "b = announce a"
  have over: "isOver b" using undisturbed_over [OF b] a by (simp add: b_def)
  define c where "c = emitEvent act event b"
  note c = emit_ending [where act = act, OF act terminalEventFor_ending [OF event] over, folded c_def]
  define d' where "d' = c\<lparr>gr_ended := True, gr_result := Some (resultOf tm new reason e d c)\<rparr>"
  have "finishGoal act opts tm new reason e d announce s = d'"
    using can t by (simp add: finishGoal_def transition_def unlessThrown_def event a_def b_def c_def d'_def Let_def)
  moreover have "resultOf tm new reason e d c = resultOf tm new reason e d d'"
    by (rule resultOf_same) (simp_all add: d'_def)
  moreover have "kept s d'"
  proof (rule kept_trans [OF kept_trans [OF kept_trans]])
    show "kept s a" by (simp add: a_def kept_def)
    show "kept a b" using b unfolding undisturbed_def b_def by blast
    show "kept b c" using c by blast
    show "kept c d'" by (simp add: d'_def kept_def)
  qed
  moreover have "gr_status b = new" "gr_terminalReason b = Some reason" "gr_attempts b = gr_attempts s"
    "gr_frozenDurationMs b = Some (tm_elapsed tm)" "endings b = endings s"
    using b unfolding undisturbed_def b_def by (simp_all add: a_def)
  then have "gr_status d' = new" "gr_terminalReason d' = Some reason" "gr_attempts d' = gr_attempts s"
    "gr_frozenDurationMs d' = Some (tm_elapsed tm)" "endings d' = endings s @ [event]" "gr_pending d' = None"
    using c by (simp_all add: d'_def)
  ultimately show ?thesis unfolding finishedAs_def d'_def by simp
qed

lemma terminal_reachable:
  "\<not> isTerminalStatus st \<Longrightarrow> new \<in> {Exhausted, Failed, Canceled} \<Longrightarrow> canTransitionGoalRun st new"
  by (cases st) (auto simp: canTransitionGoalRun_def)

lemma onGoalAbort_canceled:
  assumes "\<not> isOver s" "gr_threw s = None"
  shows "canceledBy tm s (onGoalAbort opts tm s)"
proof -
  define requested where "requested = emitEvent quietly (CancellationRequestedEvent (ro_principal opts)) s"
  have r: "undisturbed s requested"
    unfolding requested_def by (rule emit_undisturbed) (simp_all add: quietly_undisturbed)
  define stopped where "stopped = requested\<lparr>gr_attemptSignal := map_option (\<lambda>_. True) (gr_attemptSignal requested),
    gr_calls := gr_calls requested @ (if gr_liveRun requested then [AbortRun] else [])\<rparr>"
  have st: "undisturbed requested stopped" by (simp add: stopped_def undisturbed_def kept_def List.map_filter_def)
  define closed where "closed = closeCurrentAttemptAsAborted tm stopped"
  have us: "undisturbed s stopped" using r st by (rule undisturbed_trans)
  have k: "kept s closed"
    using us by (auto simp: closed_def closeCurrentAttemptAsAborted_def updateAttempt_def undisturbed_def kept_def)
  have same: "gr_status closed = gr_status s" "endings closed = endings s" "gr_threw closed = None"
    using us assms(2)
    by (auto simp: closed_def closeCurrentAttemptAsAborted_def updateAttempt_def undisturbed_def kept_def)
  have "gr_attempts stopped = gr_attempts s" using us by (simp add: undisturbed_def)
  then have at: "gr_attempts closed = gr_attempts (closeCurrentAttemptAsAborted tm s)"
    unfolding closed_def by (rule closeCurrent_attempts)
  have "finishedAs tm Canceled GoalCanceled None None CanceledEvent closed (onGoalAbort opts tm s)"
  proof -
    have "finishedAs tm Canceled GoalCanceled None None CanceledEvent closed
        (finishGoal quietly opts tm Canceled GoalCanceled None None id closed)"
      by (rule finishGoal_finished)
        (use assms same in \<open>simp_all add: quietly_undisturbed terminal_reachable isOver_def terminalEventFor_def\<close>)
    moreover have "onGoalAbort opts tm s = finishGoal quietly opts tm Canceled GoalCanceled None None id closed"
      using assms(1) unfolding onGoalAbort_def Let_def closed_def stopped_def requested_def by simp
    ultimately show ?thesis by simp
  qed
  with k same at assms(1) show ?thesis
    unfolding finishedAs_def canceledBy_def using kept_trans by auto
qed

lemma canceledBy_aborted: "canceledBy tm (s\<lparr>gr_aborted := b\<rparr>) s' \<Longrightarrow> canceledBy tm s s'"
proof -
  have "gr_attempts (closeCurrentAttemptAsAborted tm (s\<lparr>gr_aborted := b\<rparr>)) = gr_attempts (closeCurrentAttemptAsAborted tm s)"
    by (rule closeCurrent_attempts) simp
  then show "canceledBy tm (s\<lparr>gr_aborted := b\<rparr>) s' \<Longrightarrow> canceledBy tm s s'"
    by (simp add: canceledBy_def kept_def isOver_def)
qed

lemma abortGoal_over: "isOver s \<Longrightarrow> undisturbed s (abortGoal opts tm s)"
  by (auto simp: abortGoal_def onGoalAbort_def undisturbed_def kept_def isOver_def)

lemma abortGoal_touched:
  assumes "gr_threw s = None"
  shows "touched tm s (abortGoal opts tm s)"
proof (cases "isOver s \<or> gr_aborted s")
  case True
  then consider "isOver s" | "gr_aborted s" by blast
  then show ?thesis
  proof cases
    case 1
    from abortGoal_over [OF this] show ?thesis by (simp add: touched_def)
  qed (simp add: abortGoal_def)
next
  case False
  then have "canceledBy tm (s\<lparr>gr_aborted := True\<rparr>) (onGoalAbort opts tm (s\<lparr>gr_aborted := True\<rparr>))"
    by (intro onGoalAbort_canceled) (use assms in \<open>simp_all add: isOver_def\<close>)
  then show ?thesis using False canceledBy_aborted by (auto simp: touched_def abortGoal_def)
qed

lemma react_touched: "gr_threw s = None \<Longrightarrow> touched tm s (react opts tm r s)"
  by (cases r) (simp add: abortGoal_touched, simp add: touched_def abortOneAttempt_undisturbed)

lemma react_over: "isOver s \<Longrightarrow> undisturbed s (react opts tm r s)"
  by (cases r) (simp_all add: abortGoal_over abortOneAttempt_undisturbed)

lemmas react_emit = emit_touched [where act = "react opts tm" for opts tm, OF react_touched]
lemmas react_flush = flush_touched [where act = "react opts tm" for opts tm, OF react_touched]
lemmas react_finish = finishGoal_finished [where act = "react opts tm" for opts tm, OF react_over]

lemma announceVerdict_touched:
  assumes "gr_threw s = None"
  shows "touched tm s (announceVerdict p opts tm attemptId outcome s)"
proof -
  define validated where "validated = emitEvent (react opts tm) (AttemptValidatedEvent attemptId (ro_validator opts) (outcomeKind outcome)) s"
  have v: "touched tm s validated" unfolding validated_def by (rule react_emit) (use assms in simp_all)
  then have "gr_threw validated = None" using touched_threw assms by metis
  then have "touched tm validated (emitEvent (react opts tm) (FeedbackRecordedEvent attemptId f) validated)" for f
    by (intro react_emit) simp_all
  with v show ?thesis
    unfolding announceVerdict_def validated_def [symmetric] Let_def
    by (auto split: option.split intro: touched_trans)
qed

subsection \<open>The invariant\<close>

declare goal_step_from [simp del]

text \<open>The attempts are numbered, and all but the last have ended; all have once the goal is over.\<close>

definition attemptsOk :: "bool \<Rightarrow> 'd run_attempt list \<Rightarrow> bool" where
  "attemptsOk over attempts \<longleftrightarrow>
     (\<forall>i<length attempts. ra_attemptIndex (attempts ! i) = i
        \<and> (over \<or> Suc i < length attempts \<longrightarrow> \<not> isOpenAttempt (attempts ! i)))"

definition endedWell :: "'d goal_run \<Rightarrow> bool" where
  "endedWell s \<longleftrightarrow> gr_ended s \<and> gr_pending s = None \<and>
     (\<exists>reason result event.
        gr_terminalReason s = Some reason \<and> TERMINAL_STATUS_BY_REASON reason = gr_status s
        \<and> gr_result s = Some result \<and> rr_status result = gr_status s \<and> rr_terminalReason result = reason
        \<and> length (rr_attempts result) = length (gr_attempts s) \<and> attemptsOk True (rr_attempts result)
        \<and> terminalEventFor (gr_status s) reason (rr_validatorError result) = Some event \<and> endings s = [event])"

definition notEnded :: "'d goal_run \<Rightarrow> bool" where
  "notEnded s \<longleftrightarrow> \<not> gr_ended s \<and> gr_terminalReason s = None \<and> gr_result s = None \<and> endings s = []"

definition core :: "nat \<Rightarrow> 'd goal_run \<Rightarrow> bool" where
  "core m s \<longleftrightarrow>
     (goal_step m)\<^sup>*\<^sup>* (Pending, 0) (gr_status s, length (gr_attempts s))
     \<and> attemptsOk (isOver s) (gr_attempts s)
     \<and> (if isOver s then endedWell s else notEnded s)
     \<and> (\<exists>rest. gr_log s = GoalStartedEvent # rest)
     \<and> gr_threw s = None \<and> pred_option (\<lambda>i. i < length (gr_attempts s)) (gr_pending s)"

lemma coreD:
  "core m s \<Longrightarrow> gr_threw s = None"
  "core m s \<Longrightarrow> \<not> isOver s \<Longrightarrow> notEnded s"
  "core m s \<Longrightarrow> isOver s \<Longrightarrow> endedWell s"
  by (simp_all add: core_def)

text \<open>What the invariant does not look at.\<close>

lemma isOver_irrelevant [simp]:
  "isOver (s\<lparr>gr_phase := a\<rparr>) = isOver s" "isOver (s\<lparr>gr_script := b\<rparr>) = isOver s"
  "isOver (s\<lparr>gr_calls := c\<rparr>) = isOver s" "isOver (s\<lparr>gr_liveRun := d\<rparr>) = isOver s"
  "isOver (s\<lparr>gr_durationTimer := d\<rparr>) = isOver s" "isOver (s\<lparr>gr_attemptSignal := e\<rparr>) = isOver s"
  "isOver (s\<lparr>gr_totalSteps := f\<rparr>) = isOver s" "isOver (s\<lparr>gr_totalTokens := f\<rparr>) = isOver s"
  "isOver (s\<lparr>gr_totalCostUsd := g\<rparr>) = isOver s" "isOver (s\<lparr>gr_pending := h\<rparr>) = isOver s"
  "isOver (s\<lparr>gr_attempts := k\<rparr>) = isOver s" "isOver (s\<lparr>gr_threw := t\<rparr>) = isOver s"
  by (simp_all add: isOver_def)

lemma core_irrelevant [simp]:
  "core m (s\<lparr>gr_phase := a\<rparr>) = core m s" "core m (s\<lparr>gr_script := b\<rparr>) = core m s"
  "core m (s\<lparr>gr_calls := c\<rparr>) = core m s" "core m (s\<lparr>gr_liveRun := d\<rparr>) = core m s"
  "core m (s\<lparr>gr_durationTimer := d\<rparr>) = core m s" "core m (s\<lparr>gr_attemptSignal := e\<rparr>) = core m s"
  "core m (s\<lparr>gr_totalSteps := f\<rparr>) = core m s" "core m (s\<lparr>gr_totalTokens := f\<rparr>) = core m s"
  "core m (s\<lparr>gr_totalCostUsd := g\<rparr>) = core m s"
  by (simp_all add: core_def endedWell_def notEnded_def)

lemma core_placed:
  assumes "core m s"
  shows "wellPlaced m (gr_status s, length (gr_attempts s))"
proof -
  obtain k where "(goal_step m ^^ k) (Pending, 0) (gr_status s, length (gr_attempts s))"
    using assms by (auto simp: core_def rtranclp_power)
  then show ?thesis using goal_steps_bounded by blast
qed

lemma attemptsOk_close:
  assumes "attemptsOk over (gr_attempts s)"
  shows "attemptsOk True (gr_attempts (closeCurrentAttemptAsAborted tm s))"
proof (cases "gr_attempts s = []")
  case False
  then show ?thesis
    using assms
    by (auto simp: attemptsOk_def closeCurrentAttemptAsAborted_def updateAttempt_def closedAsAborted_def isOpenAttempt_def
        nth_list_update)
qed (simp add: closeCurrentAttemptAsAborted_def attemptsOk_def)

lemma closeCurrent_length [simp]:
  "length (gr_attempts (closeCurrentAttemptAsAborted tm s)) = length (gr_attempts s)"
  by (simp add: closeCurrentAttemptAsAborted_def updateAttempt_def)

lemma goal_step_finish:
  "\<not> isTerminalStatus st \<Longrightarrow> new \<in> {Exhausted, Failed, Canceled} \<Longrightarrow> goal_step m (st, n) (new, n)"
  by (cases st) (auto intro: goal_step.finish)

lemma resultOf_fields [simp]:
  "rr_status (resultOf tm st reason e d s) = st" "rr_terminalReason (resultOf tm st reason e d s) = reason"
  "rr_attempts (resultOf tm st reason e d s) = gr_attempts s" "rr_validatorError (resultOf tm st reason e d s) = e"
  "rr_failureDetail (resultOf tm st reason e d s) = d"
  by (simp_all add: resultOf_def)

lemma pending_kept: "kept s s' \<Longrightarrow> pred_option P (gr_pending s) \<Longrightarrow> pred_option P (gr_pending s')"
  by (auto simp: kept_def)

lemma started_kept: "kept s s' \<Longrightarrow> \<exists>rest. gr_log s = GoalStartedEvent # rest \<Longrightarrow> \<exists>rest. gr_log s' = GoalStartedEvent # rest"
  by (auto simp: kept_def)

lemma undisturbed_core:
  assumes "core m s" "undisturbed s s'"
  shows "core m s'"
proof -
  have o: "isOver s' = isOver s" using assms(2) by (rule undisturbed_over)
  have k: "kept s s'" using assms(2) by (simp add: undisturbed_def)
  have "gr_pending s = None \<Longrightarrow> gr_pending s' = None" using k by (auto simp: kept_def)
  then have "if isOver s' then endedWell s' else notEnded s'"
    using assms unfolding o by (auto simp: core_def undisturbed_def endedWell_def notEnded_def split: if_splits)
  moreover have "gr_threw s' = None" using k assms(1) by (simp add: kept_def core_def)
  moreover have "\<exists>rest. gr_log s' = GoalStartedEvent # rest"
    using started_kept [OF k] assms(1) by (simp add: core_def)
  moreover have "gr_attempts s' = gr_attempts s" "gr_status s' = gr_status s" using assms(2) by (simp_all add: undisturbed_def)
  moreover have "pred_option (\<lambda>i. i < length (gr_attempts s')) (gr_pending s')"
    using pending_kept [OF k] assms(1) calculation(4) by (simp add: core_def)
  ultimately show ?thesis using assms(1) o by (simp add: core_def)
qed

lemma finished_core:
  assumes "core m s" "\<not> isOver s" and f: "finishedAs tm new reason e d event s s'"
    and "isTerminalStatus new" "goal_step m (gr_status s, length (gr_attempts s)) (new, length (gr_attempts s))"
    and "TERMINAL_STATUS_BY_REASON reason = new" "terminalEventFor new reason e = Some event"
    and "attemptsOk True (gr_attempts s)"
  shows "core m s' \<and> isOver s'"
proof -
  have over: "isOver s'" using f assms(4) by (simp add: isOver_def finishedAs_def)
  have "endings s = []" using coreD(2) [OF assms(1,2)] by (simp add: notEnded_def)
  then have "endedWell s'" using f assms(6-8) by (auto simp: endedWell_def finishedAs_def)
  moreover have "kept s s'" using f by (simp add: finishedAs_def)
  then have "\<exists>rest. gr_log s' = GoalStartedEvent # rest" "gr_threw s' = None"
    using started_kept [of s s'] assms(1) by (simp_all add: core_def kept_def)
  moreover have "(goal_step m)\<^sup>*\<^sup>* (Pending, 0) (gr_status s', length (gr_attempts s'))"
  proof -
    have "(goal_step m)\<^sup>*\<^sup>* (Pending, 0) (gr_status s, length (gr_attempts s))" using assms(1) by (simp add: core_def)
    moreover have "gr_status s' = new" "gr_attempts s' = gr_attempts s" using f by (simp_all add: finishedAs_def)
    ultimately show ?thesis using assms(5) by (metis rtranclp.rtrancl_into_rtrancl)
  qed
  moreover have "attemptsOk True (gr_attempts s')" "gr_pending s' = None" using f assms(8) by (simp_all add: finishedAs_def)
  ultimately show ?thesis using over by (simp add: core_def)
qed

lemma canceled_core:
  assumes "core m s" "canceledBy tm s s'"
  shows "core m s' \<and> isOver s'"
proof -
  define c where "c = closeCurrentAttemptAsAborted tm s"
  have c: "gr_attempts c = gr_attempts (closeCurrentAttemptAsAborted tm s)" "gr_status c = gr_status s"
    "gr_log c = gr_log s" "gr_threw c = gr_threw s" "gr_pending c = gr_pending s" "gr_terminalReason c = gr_terminalReason s"
    "gr_ended c = gr_ended s" "gr_result c = gr_result s"
    by (simp_all add: c_def closeCurrentAttemptAsAborted_def updateAttempt_def)
  have n: "\<not> isOver s" using assms(2) by (simp add: canceledBy_def)
  then have nc: "\<not> isOver c" by (simp add: c isOver_def)
  have ac: "attemptsOk True (gr_attempts c)"
    unfolding c using assms(1) attemptsOk_close by (auto simp: core_def)
  have "attemptsOk False (gr_attempts c)" using ac by (simp add: attemptsOk_def)
  then have "core m c"
    using assms(1) n nc by (simp add: core_def c notEnded_def)
  moreover have "finishedAs tm Canceled GoalCanceled None None CanceledEvent c s'"
    using assms(2) by (simp add: canceledBy_def finishedAs_def c kept_def c_def closeCurrentAttemptAsAborted_def updateAttempt_def)
  ultimately show ?thesis
    by (rule finished_core [OF _ nc])
      (use nc ac in \<open>simp_all add: terminalEventFor_def goal_step_finish isOver_def\<close>)
qed

lemma touched_core: "core m s \<Longrightarrow> touched tm s s' \<Longrightarrow> core m s'"
  using undisturbed_core canceled_core unfolding touched_def by blast

subsection \<open>Decisions keep it\<close>

text \<open>Every attempt is run at most once, and validated at most once, in order.\<close>

definition calledBelow :: "nat \<Rightarrow> nat \<Rightarrow> 'd goal_run \<Rightarrow> bool" where
  "calledBelow a b s \<longleftrightarrow>
     sorted_wrt (<) (runsCalled s) \<and> list_all (\<lambda>i. i < a) (runsCalled s)
     \<and> sorted_wrt (<) (validatorsCalled s) \<and> list_all (\<lambda>i. i < b) (validatorsCalled s)"

lemma calledBelow_mono: "calledBelow a b s \<Longrightarrow> a \<le> a' \<Longrightarrow> b \<le> b' \<Longrightarrow> calledBelow a' b' s"
  by (auto simp: calledBelow_def list_all_iff)

lemma calledBelow_kept: "kept s s' \<Longrightarrow> calledBelow a b s' = calledBelow a b s"
  by (simp add: calledBelow_def kept_def)

text \<open>The phase says where the goal is, as long as it is not over; a loop that stopped left a goal that is.\<close>

fun phaseFits :: "nat \<Rightarrow> 'd goal_run \<Rightarrow> run_phase \<Rightarrow> bool" where
  "phaseFits m s (SessionPhase i feedback retryOf) \<longleftrightarrow>
     length (gr_attempts s) = i \<and> i < m \<and> (retryOf \<noteq> None \<longleftrightarrow> i > 0) \<and> calledBelow i i s
     \<and> (\<not> isOver s \<longrightarrow> gr_status s = (if i = 0 then Pending else Retrying) \<and> attemptsOk True (gr_attempts s))"
| "phaseFits m s (RunPhase i feedback) \<longleftrightarrow>
     length (gr_attempts s) = Suc i \<and> i < m \<and> calledBelow (Suc i) i s
     \<and> (\<not> isOver s \<longrightarrow> gr_status s = Running \<and> ra_status (gr_attempts s ! i) = ARunning)"
| "phaseFits m s (VerdictPhase i feedback) \<longleftrightarrow>
     length (gr_attempts s) = Suc i \<and> i < m \<and> calledBelow (Suc i) (Suc i) s
     \<and> (\<not> isOver s \<longrightarrow> gr_status s = Evaluating \<and> ra_status (gr_attempts s ! i) = AEvaluating)"
| "phaseFits m s StoppedPhase \<longleftrightarrow>
     isOver s \<and> calledBelow (length (gr_attempts s)) (length (gr_attempts s)) s"

definition healthy :: "nat \<Rightarrow> 'd goal_run \<Rightarrow> bool" where
  "healthy m s \<longleftrightarrow> core m s \<and> phaseFits m s (gr_phase s)"

fun rank :: "nat \<Rightarrow> run_phase \<Rightarrow> nat" where
  "rank m (SessionPhase i feedback retryOf) = 3 * i"
| "rank m (RunPhase i feedback) = 3 * i + 1"
| "rank m (VerdictPhase i feedback) = 3 * i + 2"
| "rank m StoppedPhase = 3 * m"

lemma touched_length: "touched tm s s' \<Longrightarrow> length (gr_attempts s') = length (gr_attempts s)"
  by (auto simp: touched_def undisturbed_def canceledBy_def)

lemma touched_kept: "touched tm s s' \<Longrightarrow> kept s s'"
  by (auto simp: touched_def undisturbed_def canceledBy_def)

text \<open>A call out leaves the goal over, or as it was.\<close>

lemma touched_cases:
  assumes "touched tm s s'" "\<not> isOver s'"
  shows "undisturbed s s'"
  using assms by (auto simp: touched_def canceledBy_def isOver_def)

lemma touched_healthy:
  assumes "healthy m s" "touched tm s s'"
  shows "healthy m s'"
proof -
  have k: "kept s s'" "length (gr_attempts s') = length (gr_attempts s)"
    using assms(2) touched_kept touched_length by blast+
  have "undisturbed s s' \<or> isOver s'" using touched_cases [OF assms(2)] by blast
  then have "phaseFits m s' (gr_phase s)"
  proof
    assume u: "undisturbed s s'"
    then show ?thesis
      using assms(1) calledBelow_kept [OF k(1)] k(2) undisturbed_over [OF u]
      by (cases "gr_phase s") (auto simp: healthy_def undisturbed_def)
  next
    assume "isOver s'"
    then show ?thesis
      using assms(1) calledBelow_kept [OF k(1)] k(2) by (cases "gr_phase s") (auto simp: healthy_def)
  qed
  then show ?thesis
    using touched_core [OF _ assms(2)] assms(1) k(1) by (simp add: healthy_def kept_def)
qed

fun decisionFits :: "nat \<Rightarrow> 'd goal_run \<Rightarrow> 'd goal_decision \<Rightarrow> bool" where
  "decisionFits m s (Retry feedback) \<longleftrightarrow>
     (gr_status s = Running \<or> gr_status s = Evaluating) \<and> 0 < length (gr_attempts s) \<and> length (gr_attempts s) < m"
| "decisionFits m s Succeed \<longleftrightarrow> gr_status s = Evaluating \<and> 0 < length (gr_attempts s)"
| "decisionFits m s (Exhaust reason detail) \<longleftrightarrow> TERMINAL_STATUS_BY_REASON reason = Exhausted"
| "decisionFits m s (Fail reason e detail) \<longleftrightarrow> TERMINAL_STATUS_BY_REASON reason = Failed"
| "decisionFits m s Cancel \<longleftrightarrow> True"

lemma react_finish_core:
  assumes "core m s" "\<not> isOver s" "attemptsOk True (gr_attempts s)"
    and "canTransitionGoalRun (gr_status s) new" "isTerminalStatus new"
    and "goal_step m (gr_status s, length (gr_attempts s)) (new, length (gr_attempts s))"
    and "TERMINAL_STATUS_BY_REASON reason = new" "terminalEventFor new reason e = Some event"
    and announce: "\<And>x. gr_threw x = None \<Longrightarrow> touched tm x (announce x)"
    and s': "s' = finishGoal (react opts tm) opts tm new reason e d announce s"
  shows "core m s' \<and> isOver s' \<and> kept s s' \<and> gr_attempts s' = gr_attempts s"
proof -
  have "finishedAs tm new reason e d event s s'"
    unfolding s'
    by (rule react_finish) (use assms(4,5,8) coreD(1) [OF assms(1)] touched_over [OF announce] in auto)
  then show ?thesis
    using finished_core [OF assms(1,2) _ assms(5-8,3)] by (simp add: finishedAs_def)
qed

lemma applyDecision_core:
  assumes c: "core m s" and n: "\<not> isOver s" and a: "attemptsOk True (gr_attempts s)" and d: "decisionFits m s d"
    and announce: "\<And>x. gr_threw x = None \<Longrightarrow> touched tm x (announce x)"
    and s': "s' = applyDecision opts tm d announce s"
  shows "core m s' \<and> kept s s' \<and> length (gr_attempts s') = length (gr_attempts s)
    \<and> (case d of
        Retry feedback \<Rightarrow> isOver s' \<or> gr_status s' = Retrying \<and> attemptsOk True (gr_attempts s') \<and> length (gr_attempts s) < m
      | _ \<Rightarrow> isOver s')"
proof (cases d)
  case (Retry feedback)
  define moved where "moved = s\<lparr>gr_status := Retrying\<rparr>"
  have mv: "transition opts Retrying s = moved"
    using d Retry by (auto simp: transition_def moved_def canTransitionGoalRun_def)
  have "goal_step m (gr_status s, length (gr_attempts s)) (Retrying, length (gr_attempts s))"
    using d Retry by (auto intro: goal_step.abandon goal_step.retry)
  then have "(goal_step m)\<^sup>*\<^sup>* (Pending, 0) (Retrying, length (gr_attempts s))"
    using c unfolding core_def by (metis rtranclp.rtrancl_into_rtrancl)
  then have core: "core m moved"
    using c n a by (simp add: core_def moved_def isOver_def notEnded_def attemptsOk_def)
  have k: "kept s moved" by (simp add: moved_def kept_def)
  have t: "touched tm moved s'"
    unfolding s' using announce [of moved] coreD(1) [OF core] by (simp add: applyDecision_def Retry unlessThrown_def mv)
  have "isOver s' \<or> gr_status s' = Retrying \<and> attemptsOk True (gr_attempts s')"
    using touched_cases [OF t] a by (auto simp: undisturbed_def moved_def)
  then show ?thesis
    using touched_core [OF core t] kept_trans [OF k touched_kept [OF t]] touched_length [OF t] d Retry
    by (simp add: moved_def)
next
  case Succeed
  then have "core m s' \<and> isOver s' \<and> kept s s' \<and> gr_attempts s' = gr_attempts s"
    unfolding s' applyDecision_def Succeed goal_decision.case
    by (intro react_finish_core [OF c n a _ _ _ _ _ announce refl])
      (use d Succeed in \<open>auto simp: canTransitionGoalRun_def terminalEventFor_def intro: goal_step.succeed\<close>)
  then show ?thesis using Succeed by simp
next
  case (Exhaust reason detail)
  then have "core m s' \<and> isOver s' \<and> kept s s' \<and> gr_attempts s' = gr_attempts s"
    unfolding s' applyDecision_def Exhaust goal_decision.case
    by (intro react_finish_core [OF c n a _ _ _ _ _ announce refl])
      (use d Exhaust n in \<open>auto simp: terminalEventFor_def isOver_def intro: goal_step_finish terminal_reachable\<close>)
  then show ?thesis using Exhaust by simp
next
  case (Fail reason e detail)
  then have "core m s' \<and> isOver s' \<and> kept s s' \<and> gr_attempts s' = gr_attempts s"
    unfolding s' applyDecision_def Fail goal_decision.case
    by (intro react_finish_core [OF c n a _ _ _ _ _ announce refl])
      (use d Fail n in \<open>auto simp: terminalEventFor_def isFailedReason_def isOver_def intro: goal_step_finish terminal_reachable\<close>)
  then show ?thesis using Fail by simp
next
  case Cancel
  then have "core m s' \<and> isOver s' \<and> kept s s' \<and> gr_attempts s' = gr_attempts s"
    unfolding s' applyDecision_def Cancel goal_decision.case
    by (intro react_finish_core [OF c n a _ _ _ _ _ announce refl])
      (use n in \<open>auto simp: terminalEventFor_def isOver_def intro: goal_step_finish terminal_reachable\<close>)
  then show ?thesis using Cancel by simp
qed

text \<open>So a decision at the end of attempt \<open>i\<close> leaves a healthy goal, with the loop at the next attempt or stopped.\<close>

lemma decideRun_healthy:
  assumes c: "core m s" and n: "\<not> isOver s" and a: "attemptsOk True (gr_attempts s)" and d: "decisionFits m s d"
    and i: "length (gr_attempts s) = Suc i" "i < m" "calledBelow (Suc i) (Suc i) s"
    and announce: "\<And>x. gr_threw x = None \<Longrightarrow> touched tm x (announce x)"
  shows "healthy m (decideRun opts tm i d announce s) \<and> 3 * i + 2 < rank m (gr_phase (decideRun opts tm i d announce s))"
proof -
  define s' where "s' = applyDecision opts tm d announce s"
  note l = applyDecision_core [OF c n a d announce s'_def]
  define after where "after = decideRun opts tm i d announce s"
  have eq: "after = continuing i (ra_attemptId (gr_attempts s ! i)) d s'" by (simp add: after_def decideRun_def s'_def)
  have same: "gr_status after = gr_status s'" "gr_attempts after = gr_attempts s'" "isOver after = isOver s'"
    by (simp_all add: eq continuing_def isOver_def)
  have "core m after"
    using l by (simp add: eq continuing_def)
  moreover have "calledBelow (Suc i) (Suc i) after"
    using l i(3) calledBelow_kept [of s s'] by (simp add: eq continuing_def calledBelow_def)
  moreover have "phaseFits m after (gr_phase after) \<and> 3 * i + 2 < rank m (gr_phase after)"
  proof (cases "gr_phase after")
    case StoppedPhase
    then have "isOver after" using l by (cases d) (auto simp: eq continuing_def isOver_def split: if_splits)
    then show ?thesis using StoppedPhase calculation(2) l i by (simp add: same)
  next
    case (SessionPhase j feedback retryOf)
    then have "j = Suc i \<and> retryOf \<noteq> None \<and> (\<exists>f. d = Retry f) \<and> \<not> isOver s'"
      by (cases d) (auto simp: eq continuing_def split: if_splits)
    then show ?thesis using SessionPhase calculation(2) l i by (auto simp: same)
  qed (use l in \<open>cases d; auto simp: eq continuing_def split: if_splits\<close>)+
  ultimately show ?thesis unfolding healthy_def after_def [symmetric] by blast
qed

lemma attemptsOk_update:
  assumes "attemptsOk False attempts" "length attempts = Suc i" "\<And>x. ra_attemptIndex (f x) = ra_attemptIndex x"
    and "over \<Longrightarrow> \<not> isOpenAttempt (f (attempts ! i))"
  shows "attemptsOk over (attempts[i := f (attempts ! i)])"
  using assms by (auto simp: attemptsOk_def nth_list_update)

text \<open>Changing the last attempt of a goal that is not over keeps the core; ending it readies a decision.\<close>

lemma updateAttempt_core:
  assumes "core m s" "\<not> isOver s" "length (gr_attempts s) = Suc i" "\<And>x. ra_attemptIndex (f x) = ra_attemptIndex x"
  shows "core m (updateAttempt i f s)" "kept s (updateAttempt i f s)" "\<not> isOver (updateAttempt i f s)"
    "gr_status (updateAttempt i f s) = gr_status s" "length (gr_attempts (updateAttempt i f s)) = Suc i"
    "gr_attempts (updateAttempt i f s) ! i = f (gr_attempts s ! i)"
proof -
  have "attemptsOk False ((gr_attempts s)[i := f (gr_attempts s ! i)])"
    using assms by (intro attemptsOk_update) (auto simp: core_def)
  then show "core m (updateAttempt i f s)" using assms by (simp add: core_def updateAttempt_def isOver_def notEnded_def)
qed (use assms in \<open>simp_all add: updateAttempt_def kept_def isOver_def\<close>)

lemma updateAttempt_closed:
  assumes "core m s" "\<not> isOver s" "length (gr_attempts s) = Suc i" "\<And>x. ra_attemptIndex (f x) = ra_attemptIndex x"
    and "\<not> isOpenAttempt (f (gr_attempts s ! i))"
  shows "attemptsOk True (gr_attempts (updateAttempt i f s))"
  unfolding updateAttempt_def using assms attemptsOk_update [of "gr_attempts s" i f True] by (simp add: core_def)

lemma settleAttempt_ready:
  assumes "core m s" "\<not> isOver s" "length (gr_attempts s) = Suc i" "st \<notin> {ARunning, AEvaluating}"
  shows "core m (settleAttempt tm i st s)" "kept s (settleAttempt tm i st s)" "\<not> isOver (settleAttempt tm i st s)"
    "gr_status (settleAttempt tm i st s) = gr_status s" "length (gr_attempts (settleAttempt tm i st s)) = Suc i"
    "attemptsOk True (gr_attempts (settleAttempt tm i st s))"
  unfolding settleAttempt_def
  using updateAttempt_core [OF assms(1-3), of "\<lambda>attempt. attempt\<lparr>ra_status := st, ra_completedAt := Some (tm_iso tm)\<rparr>"]
    updateAttempt_closed [OF assms(1-3), of "\<lambda>attempt. attempt\<lparr>ra_status := st, ra_completedAt := Some (tm_iso tm)\<rparr>"] assms(4)
  by (simp_all add: isOpenAttempt_def)

lemma failAttempt_healthy:
  assumes "core m s" "\<not> isOver s" "length (gr_attempts s) = Suc i" "i < m" "calledBelow (Suc i) (Suc i) s"
  shows "healthy m (failAttempt opts tm i detail s) \<and> 3 * i + 2 < rank m (gr_phase (failAttempt opts tm i detail s))"
proof -
  note r = settleAttempt_ready [OF assms(1-3), of AFailed tm]
  show ?thesis
    unfolding failAttempt_def
    by (rule decideRun_healthy)
      (use r assms calledBelow_kept [OF r(2)] in \<open>simp_all add: decideAttemptRunFailure_def\<close>)
qed

subsection \<open>The turns keep it\<close>

lemma budget_headroom:
  "decideRetryOrExhaust context feedback detail = Retry f \<Longrightarrow> b_maximumAttempts (dc_budget context) = jnat m \<Longrightarrow>
     u_attempts (dc_usage context) < m"
  by (auto simp: decideRetryOrExhaust_def jnat_def split: if_splits)

lemma retryOrExhaust_fits:
  fixes s :: "'d goal_run"
  assumes "b_maximumAttempts (ro_budget opts) = jnat m" "gr_status s = Running \<or> gr_status s = Evaluating"
    and "0 < length (gr_attempts s)" "length (gr_attempts s) = u_attempts (runUsage tm t)"
  shows "decisionFits m s (decideRetryOrExhaust (contextOf opts tm t) feedback detail)"
proof (cases "decideRetryOrExhaust (contextOf opts tm t) feedback detail :: 'd goal_decision" rule: goal_decision.exhaust)
  case (Retry f)
  from budget_headroom [OF this, of m] show ?thesis unfolding Retry using assms by (simp add: contextOf_def)
qed (use assms in \<open>auto simp: decideRetryOrExhaust_def split: if_splits\<close>)

lemma usage_attempts [simp]: "u_attempts (runUsage tm s) = length (gr_attempts s)"
  by (simp add: runUsage_def)

lemma decideOutcome_fits:
  assumes "b_maximumAttempts (ro_budget opts) = jnat m" "gr_status s = Evaluating" "0 < length (gr_attempts s)"
  shows "decisionFits m s (decideOutcome (contextOf opts tm s) outcome feedback operator)"
  using retryOrExhaust_fits [OF assms(1) _ assms(3), of tm s] assms(2,3)
  by (cases outcome) (simp_all add: infrastructureFailure_def)

lemma decideRunFinish_fits:
  assumes "b_maximumAttempts (ro_budget opts) = jnat m" "gr_status s = Running" "0 < length (gr_attempts s)"
    and "decideRunFinish (contextOf opts tm s) reason operator reported feedback = Decision d st"
  shows "decisionFits m s d"
  using assms(4) retryOrExhaust_fits [OF assms(1) _ assms(3), of tm s] assms(2)
  by (auto simp: decideRunFinish_def decideAttemptRunFailure_def Let_def split: if_splits)

lemma caught_none [simp]: "gr_threw s = None \<Longrightarrow> caught opts tm s = s"
  by (simp add: caught_def)

lemma healthy_caught: "healthy m s \<Longrightarrow> caught opts tm s = s"
  by (rule caught_none) (simp add: healthy_def core_def)

text \<open>Opening an attempt.\<close>

lemma openRunAttempt_opened:
  fixes s :: "'d goal_run"
  assumes c: "core m s" and n: "\<not> isOver s" and fit: "phaseFits m s (SessionPhase i feedback retryOf)"
    and s': "s' = openRunAttempt opts tm i attemptId sessionId retryOf s"
  shows "core m s' \<and> length (gr_attempts s') = Suc i \<and> calledBelow i i s'
    \<and> (\<not> isOver s' \<longrightarrow> gr_status s' = Running \<and> gr_attempts s' ! i = newAttempt tm i attemptId sessionId)"
proof -
  define opened where "opened = s\<lparr>gr_attempts := gr_attempts s @ [newAttempt tm i attemptId sessionId],
    gr_attemptSignal := Some False, gr_liveRun := False, gr_status := Running\<rparr>"
  have f: "length (gr_attempts s) = i" "i < m" "calledBelow i i s" "gr_status s = (if i = 0 then Pending else Retrying)"
    "attemptsOk True (gr_attempts s)"
    using fit n by auto
  have mv: "transition opts Running (s\<lparr>gr_attempts := gr_attempts s @ [newAttempt tm i attemptId sessionId],
      gr_attemptSignal := Some False, gr_liveRun := False\<rparr>) = opened"
    using f(4) by (simp add: transition_def opened_def canTransitionGoalRun_def)
  have step: "goal_step m (gr_status s, length (gr_attempts s)) (Running, Suc i)"
    using f(1,2,4) by (cases i) (auto intro: goal_step.first [simplified] goal_step.again)
  have over: "\<not> isOver opened" by (simp add: opened_def isOver_def)
  have "attemptsOk False (gr_attempts opened)"
    using f(1,5) by (auto simp: opened_def attemptsOk_def nth_append newAttempt_def)
  moreover have "(goal_step m)\<^sup>*\<^sup>* (Pending, 0) (Running, Suc i)"
    using c step unfolding core_def by (metis rtranclp.rtrancl_into_rtrancl)
  moreover have "gr_pending opened = gr_pending s" by (simp add: opened_def)
  then have "pred_option (\<lambda>j. j < Suc i) (gr_pending opened)"
    using c f(1) unfolding core_def by (cases "gr_pending s") auto
  ultimately have core: "core m opened"
    using c n f(1) over unfolding core_def by (simp add: opened_def notEnded_def)
  define announced where "announced = (case retryOf of
      None \<Rightarrow> opened
    | Some priorAttemptId \<Rightarrow> emitEvent (react opts tm) (RetryingEvent priorAttemptId attemptId) opened)"
  have t: "touched tm opened announced"
    using coreD(1) [OF core] by (auto simp: announced_def intro: react_emit split: option.split)
  have s'': "s' = (if retryOf \<noteq> None \<and> isOver announced then announced else announced\<lparr>gr_pending := Some i\<rparr>)"
    using coreD(1) [OF core] unfolding s' openRunAttempt_def mv
    by (simp add: unlessThrown_def announced_def Let_def cong: if_cong option.case_cong)
  have len: "length (gr_attempts announced) = Suc i"
    using touched_length [OF t] f(1) by (simp add: opened_def)
  have ca: "core m announced" by (rule touched_core [OF core t])
  have out: "isOver announced \<Longrightarrow> retryOf \<noteq> None"
    using over by (auto simp: announced_def split: option.splits)
  have "core m s'"
    using ca len out by (auto simp: s'' core_def notEnded_def)
  moreover have "calledBelow i i s'"
    using calledBelow_kept [OF touched_kept [OF t], of i i] f(3) by (simp add: s'' calledBelow_def opened_def)
  moreover have "gr_status s' = Running \<and> gr_attempts s' ! i = newAttempt tm i attemptId sessionId" if "\<not> isOver s'"
  proof -
    have "\<not> isOver announced" using that by (auto simp: s'' split: if_splits)
    then have "undisturbed opened announced" using touched_cases [OF t] by blast
    then show ?thesis using f(1) by (simp add: s'' undisturbed_def opened_def nth_append)
  qed
  ultimately show ?thesis using len by (simp add: s'')
qed

subsection \<open>Every turn\<close>

text \<open>What the turns leave, each with the loop further on.\<close>

lemma stopRun_healthy:
  assumes "healthy m s" "isOver s"
  shows "healthy m (stopRun s)"
proof -
  have "calledBelow (length (gr_attempts s)) (length (gr_attempts s)) s"
    using assms by (cases "gr_phase s") (auto simp: healthy_def intro: calledBelow_mono)
  then show ?thesis using assms by (simp add: healthy_def stopRun_def calledBelow_def)
qed

lemma rank_stopped [simp]: "rank m (gr_phase (stopRun s)) = 3 * m"
  by (simp add: stopRun_def)

lemma healthy_rank: "healthy m s \<Longrightarrow> rank m (gr_phase s) \<le> 3 * m"
  by (cases "gr_phase s") (auto simp: healthy_def)

text \<open>A call of an agent or a validator: the goal is the same but for the call, and what it did meanwhile.\<close>

lemma callOut_touched:
  assumes "gr_threw s = None"
  shows "touched tm (s\<lparr>gr_calls := gr_calls s @ [call]\<rparr>) (callOut (react opts tm) call s)"
  unfolding callOut_def by (rule reacting_touched) (use assms react_touched in auto)

lemma calledBelow_run:
  "calledBelow i b s \<Longrightarrow> calledBelow (Suc i) b (s\<lparr>gr_calls := gr_calls s @ [CallRun i input]\<rparr>)"
  by (auto simp: calledBelow_def List.map_filter_def sorted_wrt_append list_all_iff)

lemma calledBelow_validator:
  "calledBelow a i s \<Longrightarrow> calledBelow a (Suc i) (s\<lparr>gr_calls := gr_calls s @ [CallValidator i]\<rparr>)"
  by (auto simp: calledBelow_def List.map_filter_def sorted_wrt_append list_all_iff)

lemma calledBelow_irrelevant [simp]:
  "calledBelow a b (s\<lparr>gr_phase := x\<rparr>) = calledBelow a b s" "calledBelow a b (s\<lparr>gr_liveRun := d\<rparr>) = calledBelow a b s"
  by (simp_all add: calledBelow_def)

text \<open>A failure found when the goal is over already changes nothing that is reported.\<close>

lemma late_failure:
  assumes "core m s" "isOver s" "calledBelow (length (gr_attempts s)) (length (gr_attempts s)) s"
  shows "caught opts tm (stopRun (applyDecision opts tm (Fail reason e d) announce s)) = stopRun s"
    "healthy m (stopRun s)"
proof -
  have "\<not> canTransitionGoalRun (gr_status s) Failed"
    using assms(2) by (cases "gr_status s") (simp_all add: isOver_def canTransitionGoalRun_def)
  then show "caught opts tm (stopRun (applyDecision opts tm (Fail reason e d) announce s)) = stopRun s"
    using assms(1,2) by (simp add: applyDecision_def finishGoal_def transition_def unlessThrown_def stopRun_def caught_def core_def)
  show "healthy m (stopRun s)" using assms by (simp add: healthy_def stopRun_def)
qed

lemma settle_over:
  assumes "core m s" "isOver s" "length (gr_attempts s) = Suc i"
  shows "core m (settleAttempt tm i AFailed s)" "isOver (settleAttempt tm i AFailed s)"
    "length (gr_attempts (settleAttempt tm i AFailed s)) = Suc i"
    "calledBelow a b (settleAttempt tm i AFailed s) = calledBelow a b s"
proof -
  have "attemptsOk True (gr_attempts (settleAttempt tm i AFailed s))"
    using assms by (auto simp: core_def settleAttempt_def updateAttempt_def attemptsOk_def isOpenAttempt_def nth_list_update)
  then show "core m (settleAttempt tm i AFailed s)"
    using assms by (simp add: core_def settleAttempt_def updateAttempt_def endedWell_def)
qed (use assms in \<open>simp_all add: settleAttempt_def updateAttempt_def calledBelow_def\<close>)

lemma failAttempt_over:
  assumes "core m s" "isOver s" "length (gr_attempts s) = Suc i" "calledBelow (Suc i) (Suc i) s"
  shows "healthy m (caught opts tm (failAttempt opts tm i detail s))
    \<and> gr_phase (caught opts tm (failAttempt opts tm i detail s)) = StoppedPhase"
proof -
  define settled where "settled = settleAttempt tm i AFailed s"
  note c = settle_over [OF assms(1-3), where tm = tm, folded settled_def]
  have "failAttempt opts tm i detail s = stopRun (applyDecision opts tm (decideAttemptRunFailure detail) id settled)"
    by (simp add: failAttempt_def decideRun_def continuing_def decideAttemptRunFailure_def settled_def stopRun_def)
  then have "caught opts tm (failAttempt opts tm i detail s) = stopRun settled" "healthy m (stopRun settled)"
    using late_failure [OF c(1,2)] c(3,4) assms(4) by (simp_all add: decideAttemptRunFailure_def)
  then show ?thesis by (simp add: stopRun_def)
qed

lemma callRun_healthy:
  fixes s :: "'d goal_run"
  assumes c: "core m s" and len: "length (gr_attempts s) = Suc i" "i < m" and below: "calledBelow i i s"
    and n: "gr_status s = Running" "ra_status (gr_attempts s ! i) = ARunning"
  shows "healthy m (case starts of
      Some message \<Rightarrow> caught opts tm (failAttempt opts tm i (runStartDetail message) (callOut (react opts tm) (CallRun i input) s))
    | None \<Rightarrow> (callOut (react opts tm) (CallRun i input) s)\<lparr>gr_liveRun := True, gr_phase := RunPhase i feedback\<rparr>)
    \<and> 3 * i < rank m (gr_phase (case starts of
      Some message \<Rightarrow> caught opts tm (failAttempt opts tm i (runStartDetail message) (callOut (react opts tm) (CallRun i input) s))
    | None \<Rightarrow> (callOut (react opts tm) (CallRun i input) s)\<lparr>gr_liveRun := True, gr_phase := RunPhase i feedback\<rparr>))"
proof -
  define called where "called = callOut (react opts tm) (CallRun i input) s"
  define marked where "marked = s\<lparr>gr_calls := gr_calls s @ [CallRun i input]\<rparr>"
  have tc: "touched tm marked called" unfolding marked_def called_def by (rule callOut_touched [OF coreD(1) [OF c]])
  have cc: "core m called" by (rule touched_core [OF _ tc]) (use c in \<open>simp add: marked_def\<close>)
  have ln: "length (gr_attempts called) = Suc i" using touched_length [OF tc] len by (simp add: marked_def)
  have cb: "calledBelow (Suc i) i called"
    using calledBelow_kept [OF touched_kept [OF tc]] calledBelow_run [OF below] by (simp add: marked_def)
  have "gr_status called = Running \<and> ra_status (gr_attempts called ! i) = ARunning" if "\<not> isOver called"
    using touched_cases [OF tc that] n by (simp add: undisturbed_def marked_def)
  then have fit: "phaseFits m called (RunPhase i feedback)" using ln len(2) cb by simp
  have "healthy m u \<and> 3 * i < rank m (gr_phase u)"
    if "starts = Some message" "u = caught opts tm (failAttempt opts tm i (runStartDetail message) called)" for message u
  proof (cases "isOver called")
    case True
    from failAttempt_over [OF cc this ln calledBelow_mono [OF cb]] show ?thesis using that len(2) by simp
  next
    case False
    from failAttempt_healthy [OF cc False ln len(2) calledBelow_mono [OF cb], of opts tm "runStartDetail message"]
    show ?thesis using that healthy_caught by fastforce
  qed
  then show ?thesis
    using cc fit by (cases starts) (simp_all add: healthy_def called_def)
qed

lemma sessionReady_healthy:
  assumes h: "healthy m s" and ph: "gr_phase s = SessionPhase i feedback retryOf"
    and m: "b_maximumAttempts (ro_budget opts) = jnat m"
    and s': "s' = caught opts tm (sessionReady opts tm i feedback retryOf sessionId attemptId starts s)"
  shows "healthy m s' \<and> rank m (gr_phase s) < rank m (gr_phase s')"
proof (cases "isOver s")
  case True
  then show ?thesis using stopRun_healthy [OF h] h ph by (simp add: s' sessionReady_def healthy_def core_def)
next
  case False
  define opened where "opened = openRunAttempt opts tm i attemptId sessionId retryOf s"
  have i: "i < m" using h ph by (simp add: healthy_def)
  have o: "core m opened \<and> length (gr_attempts opened) = Suc i \<and> calledBelow i i opened
      \<and> (\<not> isOver opened \<longrightarrow> gr_status opened = Running \<and> gr_attempts opened ! i = newAttempt tm i attemptId sessionId)"
    by (rule openRunAttempt_opened [OF _ False _ opened_def]) (use h ph in \<open>auto simp: healthy_def\<close>)
  have t: "gr_threw opened = None" using o by (simp add: core_def)
  show ?thesis
  proof (cases "isOver opened")
    case True
    then have "s' = caught opts tm (stopRun opened)" using False t by (simp add: s' sessionReady_def unlessThrown_def opened_def)
    then have "s' = stopRun opened" using t by (simp add: stopRun_def)
    moreover have "healthy m (stopRun opened)"
      using o True calledBelow_mono [of i i opened "Suc i" "Suc i"] by (simp add: healthy_def stopRun_def)
    ultimately show ?thesis using ph i by simp
  next
    case go: False
    define called where "called = callOut (react opts tm)
      (CallRun i (goalAttemptInput (policyKind (ro_policy opts)) (ro_prompt opts) i feedback)) opened"
    show ?thesis
    proof (cases "attemptId \<in> set (gr_operatorAborted opened)")
      case True
      define settled where "settled = settleAttempt tm i AAborted opened"
      have r: "core m settled" "kept opened settled" "\<not> isOver settled" "gr_status settled = gr_status opened"
        "length (gr_attempts settled) = Suc i" "attemptsOk True (gr_attempts settled)"
        unfolding settled_def using settleAttempt_ready [of m opened i AAborted tm] o go by simp_all
      have "s' = caught opts tm (decideRun opts tm i
          (decideRetryOrExhaust (contextOf opts tm opened) feedback (Some OPERATOR_ABORT_DETAIL)) id settled)"
        using False t go True by (simp add: s' sessionReady_def unlessThrown_def opened_def settled_def)
      moreover have "decisionFits m settled (decideRetryOrExhaust (contextOf opts tm opened) feedback (Some OPERATOR_ABORT_DETAIL))"
        by (rule retryOrExhaust_fits [OF m]) (use r o go in auto)
      then have "healthy m (decideRun opts tm i
          (decideRetryOrExhaust (contextOf opts tm opened) feedback (Some OPERATOR_ABORT_DETAIL)) id settled)
        \<and> 3 * i + 2 < rank m (gr_phase (decideRun opts tm i
          (decideRetryOrExhaust (contextOf opts tm opened) feedback (Some OPERATOR_ABORT_DETAIL)) id settled))"
        by (intro decideRun_healthy)
          (use r o i calledBelow_kept [OF r(2)] calledBelow_mono [of i i opened "Suc i" "Suc i"] in simp_all)
      ultimately show ?thesis using ph healthy_caught by fastforce
    next
      case quiet: False
      have st: "gr_status opened = Running" "ra_status (gr_attempts opened ! i) = ARunning"
        using o go by (simp_all add: newAttempt_def)
      note run = callRun_healthy [where s = opened and starts = starts and opts = opts and tm = tm and feedback = feedback
          and input = "goalAttemptInput (policyKind (ro_policy opts)) (ro_prompt opts) i feedback",
          OF o [THEN conjunct1] _ i _ st, folded called_def]
      have "s' = (case starts of
          Some message \<Rightarrow> caught opts tm (failAttempt opts tm i (runStartDetail message) called)
        | None \<Rightarrow> caught opts tm (called\<lparr>gr_liveRun := True, gr_phase := RunPhase i feedback\<rparr>))"
        using False t go quiet
        by (simp add: s' sessionReady_def unlessThrown_def opened_def called_def Let_def split: option.split)
      moreover have "caught opts tm (called\<lparr>gr_liveRun := True, gr_phase := RunPhase i feedback\<rparr>)
          = called\<lparr>gr_liveRun := True, gr_phase := RunPhase i feedback\<rparr>" if "starts = None"
        using run that o healthy_caught by fastforce
      ultimately show ?thesis using run o ph by (cases starts) simp_all
    qed
  qed
qed

lemma renamed_healthy:
  assumes "healthy m s" "gr_phase s = RunPhase i feedback"
  shows "healthy m (updateAttempt i (\<lambda>a. a\<lparr>ra_runId := r\<rparr>) s)"
proof -
  have "length (gr_attempts s) = Suc i" using assms by (simp add: healthy_def)
  then show ?thesis
    using assms
    by (auto simp: healthy_def core_def updateAttempt_def isOver_def endedWell_def notEnded_def attemptsOk_def
        isOpenAttempt_def nth_list_update calledBelow_def)
qed

lemma adoptRunId_healthy:
  assumes "healthy m s" "gr_phase s = RunPhase i feedback"
  shows "healthy m (adoptRunId opts tm i observedId s)" "gr_phase (adoptRunId opts tm i observedId s) = gr_phase s"
proof -
  define named where "named = updateAttempt i (\<lambda>a. a\<lparr>ra_runId := Some observedId\<rparr>) s"
  have h: "healthy m named" unfolding named_def by (rule renamed_healthy [OF assms])
  have "gr_threw named = None" using h coreD(1) unfolding healthy_def by blast
  with react_flush(1) have t: "touched tm named (flushAttemptStart (react opts tm) named)" by blast
  have p: "gr_phase named = gr_phase s" by (simp add: named_def updateAttempt_def)
  show "healthy m (adoptRunId opts tm i observedId s)" "gr_phase (adoptRunId opts tm i observedId s) = gr_phase s"
    using assms(1) touched_healthy [OF h t] touched_kept [OF t] p
    by (simp_all add: adoptRunId_def Let_def named_def [symmetric] kept_def)
qed

lemma accountUsage_core:
  assumes "core m s" "\<not> isOver s" "length (gr_attempts s) = Suc i"
  shows "core m (accountUsage i result s)" "\<not> isOver (accountUsage i result s)"
    "gr_status (accountUsage i result s) = gr_status s" "length (gr_attempts (accountUsage i result s)) = Suc i"
    "calledBelow a b (accountUsage i result s) = calledBelow a b s" "gr_phase (accountUsage i result s) = gr_phase s"
  using updateAttempt_core [OF assms, of "\<lambda>a. a\<lparr>ra_steps := jnat (en_steps result), ra_tokens := en_tokens result, ra_costUsd := en_cost result\<rparr>"]
  unfolding accountUsage_def by (simp_all add: calledBelow_def updateAttempt_def)

lemma beginEvaluation_healthy:
  assumes c: "core m s" and n: "gr_status s = Running" and len: "length (gr_attempts s) = Suc i" "i < m"
    and cb: "calledBelow (Suc i) i s"
  shows "healthy m (beginEvaluation opts tm i feedback s)
    \<and> gr_phase (beginEvaluation opts tm i feedback s) = VerdictPhase i feedback"
proof -
  define moved where "moved = s\<lparr>gr_status := Evaluating\<rparr>"
  have over: "\<not> isOver s" "\<not> isOver moved" using n by (simp_all add: isOver_def moved_def)
  have mv: "transition opts Evaluating s = moved"
    using n by (simp add: transition_def moved_def canTransitionGoalRun_def)
  have "goal_step m (gr_status s, length (gr_attempts s)) (Evaluating, length (gr_attempts s))"
    using n len by (auto intro: goal_step.evaluate)
  then have "(goal_step m)\<^sup>*\<^sup>* (Pending, 0) (Evaluating, length (gr_attempts s))"
    using c unfolding core_def by (metis rtranclp.rtrancl_into_rtrancl)
  then have cm: "core m moved"
    using c over by (simp add: core_def moved_def notEnded_def)
  define evaluating where "evaluating = updateAttempt i (\<lambda>a. a\<lparr>ra_status := AEvaluating\<rparr>) moved"
  have "length (gr_attempts moved) = Suc i" using len by (simp add: moved_def)
  note e = updateAttempt_core [OF cm over(2) this, of "\<lambda>a. a\<lparr>ra_status := AEvaluating\<rparr>", folded evaluating_def, simplified]
  have st: "gr_status evaluating = Evaluating" using e(4) by (simp add: moved_def)
  have cbe: "calledBelow (Suc i) i evaluating" using cb by (simp add: evaluating_def updateAttempt_def moved_def calledBelow_def)
  define called where "called = (if gr_aborted evaluating \<or> gr_attemptSignal evaluating = Some True then evaluating
    else callOut (react opts tm) (CallValidator i) evaluating)"
  define marked where "marked = (if gr_aborted evaluating \<or> gr_attemptSignal evaluating = Some True then evaluating
    else evaluating\<lparr>gr_calls := gr_calls evaluating @ [CallValidator i]\<rparr>)"
  have t: "touched tm marked called"
    using callOut_touched [OF coreD(1) [OF e(1)]] by (simp add: marked_def called_def)
  have m: "core m marked" "length (gr_attempts marked) = Suc i" "gr_status marked = Evaluating"
    "ra_status (gr_attempts marked ! i) = AEvaluating"
    using e st by (simp_all add: marked_def)
  have cbm: "calledBelow (Suc i) (Suc i) marked"
    using cbe calledBelow_validator [OF cbe] calledBelow_mono [OF cbe, of "Suc i" "Suc i"] by (simp add: marked_def)
  have "core m called" by (rule touched_core [OF m(1) t])
  moreover have "phaseFits m called (VerdictPhase i feedback)"
    using touched_length [OF t] m(2-4) len(2) calledBelow_kept [OF touched_kept [OF t]] cbm touched_cases [OF t]
    by (auto simp: undisturbed_def)
  moreover have "beginEvaluation opts tm i feedback s = called\<lparr>gr_phase := VerdictPhase i feedback\<rparr>"
    using coreD(1) [OF cm] unfolding beginEvaluation_def mv unlessThrown_def evaluating_def called_def Let_def by simp
  ultimately show ?thesis by (simp add: healthy_def)
qed

lemma runEnded_healthy:
  fixes s :: "'d goal_run"
  assumes h: "healthy m s" and ph: "gr_phase s = RunPhase i feedback"
    and mx: "b_maximumAttempts (ro_budget opts) = jnat m"
  shows "healthy m (runEnded opts tm i feedback result snapshotId s)
    \<and> 3 * i + 1 < rank m (gr_phase (runEnded opts tm i feedback result snapshotId s))"
proof -
  define adopted where "adopted = adoptRunId opts tm i snapshotId s"
  have a: "healthy m adopted" "gr_phase adopted = RunPhase i feedback"
    using adoptRunId_healthy [OF h ph] ph by (simp_all add: adopted_def)
  have i: "i < m" "length (gr_attempts adopted) = Suc i" "calledBelow (Suc i) i adopted" "core m adopted"
    using a by (simp_all add: healthy_def)
  show ?thesis
  proof (cases "isOver adopted")
    case True
    then show ?thesis
      using stopRun_healthy [OF a(1) True] i(1) by (simp add: runEnded_def adopted_def [symmetric])
  next
    case False
    define named where "named = updateAttempt i (\<lambda>a. a\<lparr>ra_finishReason := Some (en_finishReason result)\<rparr>) adopted"
    note n = updateAttempt_core [OF i(4) False i(2), of "\<lambda>a. a\<lparr>ra_finishReason := Some (en_finishReason result)\<rparr>", folded named_def, simplified]
    define accounted where "accounted = accountUsage i result named"
    note c = accountUsage_core [OF n(1,3,5), where result = result, folded accounted_def]
    have st: "gr_status accounted = Running" using c(3) n(4) a False by (simp add: healthy_def)
    have cb: "calledBelow (Suc i) i accounted" using c(5) i(3) calledBelow_kept [OF n(2)] by simp
    define operator where "operator = (ra_attemptId (gr_attempts accounted ! i) \<in> set (gr_operatorAborted accounted))"
    have eq: "runEnded opts tm i feedback result snapshotId s =
        (case decideRunFinish (contextOf opts tm accounted) (en_finishReason result) operator (en_cost result \<noteq> None) feedback of
           run_finish_decision.Validate \<Rightarrow> beginEvaluation opts tm i feedback accounted
         | Decision decision status \<Rightarrow> decideRun opts tm i decision id
             (settleAttempt tm i (if status = AttemptFailed then AFailed else AAborted) accounted))"
      using False unfolding runEnded_def adopted_def [symmetric] Let_def
      unfolding named_def [symmetric] accounted_def [symmetric] operator_def [symmetric] by simp
    show ?thesis
    proof (cases "decideRunFinish (contextOf opts tm accounted) (en_finishReason result) operator (en_cost result \<noteq> None) feedback
        :: 'd run_finish_decision")
      case Validate
      then show ?thesis
        using beginEvaluation_healthy [OF c(1) st c(4) i(1) cb, of opts tm feedback]
        unfolding eq Validate run_finish_decision.case by simp
    next
      case (Decision d status)
      define settled where "settled = settleAttempt tm i (if status = AttemptFailed then AFailed else AAborted) accounted"
      have r: "core m settled" "kept accounted settled" "\<not> isOver settled" "gr_status settled = gr_status accounted"
        "length (gr_attempts settled) = Suc i" "attemptsOk True (gr_attempts settled)"
        using settleAttempt_ready [OF c(1,2,4), of "if status = AttemptFailed then AFailed else AAborted" tm]
        by (simp_all add: settled_def)
      have "decisionFits m accounted d"
        by (rule decideRunFinish_fits [OF mx st _ Decision]) (use c(4) in simp)
      then have "decisionFits m settled d" using r(4,5) c(4) by (cases d) simp_all
      then have "healthy m (decideRun opts tm i d id settled) \<and> 3 * i + 2 < rank m (gr_phase (decideRun opts tm i d id settled))"
        by (intro decideRun_healthy [OF r(1,3,6) _ r(5) i(1)])
          (use calledBelow_kept [OF r(2)] calledBelow_mono [OF cb, of "Suc i" "Suc i"] in simp_all)
      then show ?thesis unfolding eq Decision run_finish_decision.case settled_def by simp
    qed
  qed
qed

lemma verdictReady_healthy:
  fixes s :: "'d goal_run"
  assumes h: "healthy m s" and ph: "gr_phase s = VerdictPhase i feedback"
    and mx: "b_maximumAttempts (ro_budget opts) = jnat m"
  shows "healthy m (verdictReady p opts tm i feedback settled startedAt completedAt s)
    \<and> 3 * i + 2 < rank m (gr_phase (verdictReady p opts tm i feedback settled startedAt completedAt s))"
proof -
  have i: "i < m" "length (gr_attempts s) = Suc i" "calledBelow (Suc i) (Suc i) s" "core m s"
    using h ph by (simp_all add: healthy_def)
  show ?thesis
  proof (cases "isOver s")
    case True
    then have "gr_status s \<noteq> Evaluating" by (auto simp: isOver_def)
    then show ?thesis using stopRun_healthy [OF h True] i(1) by (simp add: verdictReady_def)
  next
    case False
    then have ev: "gr_status s = Evaluating" using h ph by (simp add: healthy_def)
    show ?thesis
    proof (cases "isDurationBoundElapsed (ro_budget opts) (withDefault (tm_elapsed tm) (gr_frozenDurationMs s))")
      case True
      define closed where "closed = closeCurrentAttemptAsAborted tm s"
      have at: "attemptsOk True (gr_attempts closed)"
        unfolding closed_def by (rule attemptsOk_close) (use i(4) in \<open>auto simp: core_def\<close>)
      have "length (gr_attempts closed) = Suc i" unfolding closed_def using i(2) by simp
      moreover have "kept s closed" "gr_status closed = gr_status s"
        by (simp_all add: closed_def closeCurrentAttemptAsAborted_def updateAttempt_def kept_def)
      ultimately have k: "kept s closed" "gr_status closed = gr_status s" "length (gr_attempts closed) = Suc i" by simp_all
      have over: "\<not> isOver closed" using False k(2) by (simp add: isOver_def)
      have "core m closed"
        unfolding closed_def closeCurrentAttemptAsAborted_def
        using i(2,4) updateAttempt_core(1) [OF i(4) False i(2), of "closedAsAborted tm"]
        by (cases "gr_attempts s = []") (auto simp: closedAsAborted_def)
      then have "healthy m (decideRun opts tm i decideDurationElapsed id closed)
          \<and> 3 * i + 2 < rank m (gr_phase (decideRun opts tm i decideDurationElapsed id closed))"
        by (intro decideRun_healthy)
          (use over at k i calledBelow_kept [OF k(1)] in \<open>simp_all add: decideDurationElapsed_def\<close>)
      then show ?thesis using ev True by (simp add: verdictReady_def closed_def)
    next
      case False': False
      define operator where "operator = (ra_attemptId (gr_attempts s ! i) \<in> set (gr_operatorAborted s))"
      define outcome where "outcome = (if operator then CanceledOutcome else settled)"
      define noted where "noted = (\<lambda>a. a\<lparr>
               ra_validation := Some \<lparr>rv_identity = ro_validator opts, rv_startedAt = startedAt,
                 rv_completedAt = completedAt, rv_outcome = outcome\<rparr>,
               ra_feedback := feedbackOf outcome, ra_status := statusOfOutcome outcome,
               ra_completedAt := Some completedAt\<rparr> :: 'd run_attempt)"
      define recorded where "recorded = updateAttempt i noted s"
      have ix: "ra_attemptIndex (noted x) = ra_attemptIndex x" for x by (simp add: noted_def)
      have op: "\<not> isOpenAttempt (noted x)" for x by (cases outcome) (simp_all add: noted_def isOpenAttempt_def)
      note r = updateAttempt_core [OF i(4) False i(2), of noted, OF ix, folded recorded_def]
      have at: "attemptsOk True (gr_attempts recorded)"
        unfolding recorded_def by (rule updateAttempt_closed [OF i(4) False i(2) ix op])
      have eq: "verdictReady p opts tm i feedback settled startedAt completedAt s =
          decideRun opts tm i (decideOutcome (contextOf opts tm recorded) outcome feedback operator)
            (announceVerdict p opts tm (ra_attemptId (gr_attempts s ! i)) outcome) recorded"
        using ev False' unfolding verdictReady_def Let_def recorded_def noted_def outcome_def operator_def by simp
      show ?thesis
        unfolding eq
        by (rule decideRun_healthy [OF r(1,3) at _ r(5) i(1) _ announceVerdict_touched])
          (use decideOutcome_fits [OF mx, of recorded tm outcome feedback operator] r(4,5) ev i(3)
            calledBelow_kept [OF r(2)] in simp_all)
    qed
  qed
qed

lemma sessionRejected_healthy:
  assumes h: "healthy m s" and ph: "gr_phase s = SessionPhase i feedback retryOf"
    and s': "s' = caught opts tm (stopRun (applyDecision opts tm (decideAttemptRunFailure detail) id s))"
  shows "healthy m s' \<and> gr_phase s' = StoppedPhase \<and> i < m"
proof -
  have i: "i < m" "length (gr_attempts s) = i" "calledBelow i i s" "core m s"
    using h ph by (simp_all add: healthy_def)
  show ?thesis
  proof (cases "isOver s")
    case True
    then show ?thesis
      using late_failure(1) [OF i(4) True, where reason = AttemptRunFailed and e = None and d = "Some detail" and announce = id and opts = opts and tm = tm]
        late_failure(2) [OF i(4) True] i
      by (simp add: s' decideAttemptRunFailure_def stopRun_def)
  next
    case False
    define failed where "failed = applyDecision opts tm (decideAttemptRunFailure detail) id s"
    have l: "core m failed \<and> kept s failed \<and> length (gr_attempts failed) = length (gr_attempts s) \<and> isOver failed"
      using applyDecision_core [OF i(4) False _ _ _ failed_def] h ph False
      by (simp add: healthy_def decideAttemptRunFailure_def)
    then have "healthy m (stopRun failed)"
      using i calledBelow_kept [of s failed] by (simp add: healthy_def stopRun_def)
    then show ?thesis
      using i(1) healthy_caught [of m "stopRun failed" opts tm] by (simp add: s' failed_def [symmetric]) (simp add: stopRun_def)
  qed
qed

lemma durationElapsed_healthy:
  assumes h: "healthy m s"
  shows "healthy m (durationElapsed opts tm s) \<and> gr_phase (durationElapsed opts tm s) = gr_phase s"
proof (cases "isOver s")
  case False
  define stopped where "stopped = s\<lparr>gr_attemptSignal := map_option (\<lambda>_. True) (gr_attemptSignal s),
    gr_calls := gr_calls s @ (if gr_liveRun s then [AbortRun] else [])\<rparr>"
  define closed where "closed = closeCurrentAttemptAsAborted tm stopped"
  have c: "core m stopped" "\<not> isOver stopped" using h False by (simp_all add: stopped_def healthy_def)
  have ks: "kept s stopped" by (simp add: stopped_def kept_def List.map_filter_def)
  have at: "attemptsOk True (gr_attempts closed)"
    unfolding closed_def by (rule attemptsOk_close) (use c(1) in \<open>auto simp: core_def\<close>)
  have k: "kept stopped closed" "gr_status closed = gr_status stopped" "gr_phase closed = gr_phase stopped"
    by (simp_all add: closed_def closeCurrentAttemptAsAborted_def updateAttempt_def kept_def)
  have over: "\<not> isOver closed" using c(2) k(2) by (simp add: isOver_def)
  have cc: "core m closed"
  proof (cases "gr_attempts stopped = []")
    case True
    then show ?thesis using c(1) by (simp add: closed_def closeCurrentAttemptAsAborted_def)
  next
    case False
    then have "length (gr_attempts stopped) = Suc (length (gr_attempts stopped) - 1)" by simp
    from updateAttempt_core(1) [OF c this, of "closedAsAborted tm"] False show ?thesis
      by (simp add: closed_def closeCurrentAttemptAsAborted_def closedAsAborted_def)
  qed
  define s' where "s' = applyDecision opts tm decideDurationElapsed id closed"
  have l: "core m s' \<and> kept closed s' \<and> length (gr_attempts s') = length (gr_attempts closed) \<and> isOver s'"
    using applyDecision_core [OF cc over at _ _ s'_def] by (simp add: decideDurationElapsed_def)
  have eq: "durationElapsed opts tm s = s'"
    using False by (simp add: durationElapsed_def s'_def closed_def stopped_def)
  have ke: "kept s s'" using kept_trans [OF kept_trans [OF ks k(1)]] l by blast
  have len: "length (gr_attempts s') = length (gr_attempts s)" using l by (simp add: closed_def stopped_def)
  have ph: "gr_phase s' = gr_phase s" using ke by (simp add: kept_def)
  have "phaseFits m s' (gr_phase s)"
    using h l len calledBelow_kept [OF ke] by (cases "gr_phase s") (auto simp: healthy_def)
  then show ?thesis using l ph by (simp add: healthy_def eq)
qed (use h in \<open>simp add: durationElapsed_def\<close>)

text \<open>Together.\<close>

lemma healthy_script [simp]:
  "healthy m (s\<lparr>gr_script := x\<rparr>) = healthy m s" "healthy m (s\<lparr>gr_durationTimer := y\<rparr>) = healthy m s"
  by (cases "gr_phase s"; simp add: healthy_def calledBelow_def)+

lemma timerOff_healthy:
  assumes "healthy m s"
  shows "healthy m (s\<lparr>gr_durationTimer := False\<rparr>)"
proof -
  let ?t = "s\<lparr>gr_durationTimer := False\<rparr>"
  have e: "endings ?t = endings s" "runsCalled ?t = runsCalled s" "validatorsCalled ?t = validatorsCalled s" "isOver ?t = isOver s"
    by (simp_all add: isOver_def)
  have "endedWell ?t = endedWell s" "notEnded ?t = notEnded s" using e by (simp_all add: endedWell_def notEnded_def)
  then have c: "core m ?t = core m s" using e(4) by (simp only: core_def) simp
  have cb: "calledBelow a b ?t = calledBelow a b s" for a b using e by (simp add: calledBelow_def)
  show ?thesis using assms c cb e(4) by (cases "gr_phase s") (simp_all add: healthy_def)
qed

lemma turn_healthy:
  assumes h: "healthy m s" and mx: "b_maximumAttempts (ro_budget opts) = jnat m" and t: "turn p opts tm input s = Some s'"
  shows "healthy m s' \<and> (if awaited input then rank m (gr_phase s) < rank m (gr_phase s') else gr_phase s' = gr_phase s)"
proof -
  have none: "gr_threw s = None" using h by (simp add: healthy_def core_def)
  have tch: "healthy m u \<and> gr_phase u = gr_phase s" if "touched tm s u" for u
    using touched_healthy [OF h that] touched_kept [OF that] by (simp add: kept_def)
  show ?thesis
  proof (cases input)
    case (SessionReady sid aid starts)
    then obtain i fb r where ph: "gr_phase s = SessionPhase i fb r"
      using t by (auto simp: turn_def split: run_phase.splits)
    have s': "s' = caught opts tm (sessionReady opts tm i fb r sid aid starts s)"
      using t SessionReady ph by (simp add: turn_def)
    note sessionReady_healthy [OF h ph mx s']
    then show ?thesis using SessionReady by simp
  next
    case (SessionRejected message)
    then show ?thesis using t sessionRejected_healthy [OF h, where s' = s']
      by (auto simp: turn_def split: run_phase.splits if_splits)
  next
    case (RunObserved oid)
    then show ?thesis using t adoptRunId_healthy [OF h] by (auto simp: turn_def split: run_phase.splits)
  next
    case (RunSettled result snap)
    then obtain i fb where ph: "gr_phase s = RunPhase i fb"
      and s': "s' = caught opts tm (runEnded opts tm i fb result snap s)"
      using t by (auto simp: turn_def split: run_phase.splits)
    note r = runEnded_healthy [OF h ph mx, of tm result snap]
    show ?thesis using r RunSettled ph unfolding s' healthy_caught [OF r [THEN conjunct1]] by simp
  next
    case (RunRejected message)
    then obtain i fb where ph: "gr_phase s = RunPhase i fb" and s': "s' = caught opts tm
        (if isOver s then stopRun s else failAttempt opts tm i (runRejectedDetail message) s)"
      using t by (auto simp: turn_def split: run_phase.splits)
    have i: "i < m" "length (gr_attempts s) = Suc i" "calledBelow (Suc i) (Suc i) s" "core m s"
      using h ph by (auto simp: healthy_def intro: calledBelow_mono)
    define u where "u = (if isOver s then stopRun s else failAttempt opts tm i (runRejectedDetail message) s)"
    have r: "healthy m u \<and> 3 * i + 1 < rank m (gr_phase u)"
      using stopRun_healthy [OF h] failAttempt_healthy [OF i(4) _ i(2,1,3), of opts tm "runRejectedDetail message"] i(1)
      by (cases "isOver s") (simp_all add: u_def)
    show ?thesis
      using r RunRejected ph unfolding s' u_def [symmetric] healthy_caught [OF r [THEN conjunct1]] by simp
  next
    case (VerdictSettled outcome a b)
    then obtain i fb where ph: "gr_phase s = VerdictPhase i fb"
      and s': "s' = caught opts tm (verdictReady p opts tm i fb outcome a b s)"
      using t by (auto simp: turn_def split: run_phase.splits)
    note r = verdictReady_healthy [OF h ph mx, of p tm outcome a b]
    show ?thesis using r VerdictSettled ph unfolding s' healthy_caught [OF r [THEN conjunct1]] by simp
  next
    case GoalAborted
    then have "s' = abortGoal opts tm s" using t by (simp add: turn_def)
    then show ?thesis using tch [OF abortGoal_touched [OF none]] GoalAborted by simp
  next
    case (AttemptAborted target)
    then have s': "s' = abortOneAttempt target s" using t by (simp add: turn_def)
    have "touched tm s (abortOneAttempt target s)" by (simp add: touched_def abortOneAttempt_undisturbed)
    note tch [OF this, folded s']
    then show ?thesis using AttemptAborted by simp
  next
    case DurationElapsed
    then have s': "s' = durationElapsed opts tm (s\<lparr>gr_durationTimer := False\<rparr>)"
      using t by (simp add: turn_def split: if_splits)
    have "healthy m (s\<lparr>gr_durationTimer := False\<rparr>)" using h by (rule timerOff_healthy)
    note durationElapsed_healthy [OF this, of opts tm, folded s']
    then show ?thesis using DurationElapsed by simp
  qed
qed

lemma heardEarly_fold:
  fixes s :: "'d goal_run"
  assumes "gr_attempts s = []"
  shows "\<exists>b c. fold heardEarly reactions s = s\<lparr>gr_aborted := b, gr_script := c\<rparr>"
  using assms
proof (induction reactions arbitrary: s)
  case Nil
  have "s = s\<lparr>gr_aborted := gr_aborted s, gr_script := gr_script s\<rparr>" by simp
  then show ?case by (metis fold_Nil id_apply)
next
  case (Cons r rs)
  have "heardEarly r s = s \<or> heardEarly r s = s\<lparr>gr_aborted := True\<rparr>"
    using Cons.prems by (cases r) (simp_all add: abortOneAttempt_def)
  then show ?case using Cons.IH [of "heardEarly r s"] Cons.prems by auto
qed

lemma startAnnounced:
  fixes aborted script
  defines "fresh \<equiv> (freshRun aborted script :: 'd goal_run)"
  shows "\<exists>b c. emitEvent heardEarly GoalStartedEvent fresh = fresh\<lparr>gr_log := [GoalStartedEvent], gr_aborted := b, gr_script := c\<rparr>"
proof -
  define begun where "begun = fresh\<lparr>gr_log := [GoalStartedEvent]\<rparr>"
  have a: "gr_attempts begun = []" by (simp add: begun_def fresh_def freshRun_def)
  have e: "emitEvent heardEarly GoalStartedEvent fresh = reacting heardEarly begun"
    by (simp add: emitEvent_def flushAttemptStart_def publish_def begun_def fresh_def freshRun_def)
  have "\<exists>b c. reacting heardEarly begun = begun\<lparr>gr_aborted := b, gr_script := c\<rparr>"
  proof (cases "gr_script begun")
    case Nil
    have "begun = begun\<lparr>gr_aborted := gr_aborted begun, gr_script := gr_script begun\<rparr>" by simp
    then show ?thesis using Nil by (metis reacting_def list.case(1))
  next
    case (Cons rs rest)
    then show ?thesis using heardEarly_fold [of "begun\<lparr>gr_script := rest\<rparr>" rs] a by (auto simp: reacting_def)
  qed
  then show ?thesis by (simp add: e begun_def)
qed

lemma startGoal_healthy:
  fixes opts :: run_options
  assumes "0 < m"
  shows "healthy m (startGoal opts tm aborted script :: 'd goal_run)"
proof -
  define fresh where "fresh = (freshRun aborted script :: 'd goal_run)"
  define begun where "begun = fresh\<lparr>gr_log := [GoalStartedEvent]\<rparr>"
  define started where "started = emitEvent heardEarly GoalStartedEvent fresh"
  have "\<exists>b c. started = begun\<lparr>gr_aborted := b, gr_script := c\<rparr>"
    using startAnnounced [of aborted script] by (simp add: started_def begun_def fresh_def)
  then obtain b c where bc: "started = begun\<lparr>gr_aborted := b, gr_script := c\<rparr>" by blast
  have cb: "core m started" "\<not> isOver started" "gr_attempts started = []" "calledBelow 0 0 started" "gr_status started = Pending"
    by (simp_all add: bc begun_def fresh_def freshRun_def core_def isOver_def attemptsOk_def notEnded_def calledBelow_def
        List.map_filter_def)
  have ph: "gr_phase started = StoppedPhase" by (simp add: bc begun_def fresh_def freshRun_def)
  have over: "healthy m u" if "core m u" "isOver u" "kept started u" "length (gr_attempts u) = 0" for u
    using that calledBelow_kept [OF that(3)] cb(4) ph by (simp add: healthy_def kept_def)
  show ?thesis
  proof (cases "gr_aborted started")
    case True
    have "canceledBy tm started (onGoalAbort opts tm started)"
      by (rule onGoalAbort_canceled [OF cb(2)]) (use cb(1) in \<open>simp add: core_def\<close>)
    then have "healthy m (onGoalAbort opts tm started)"
      using over canceled_core [OF cb(1)] cb(3)
      by (auto simp: canceledBy_def closeCurrentAttemptAsAborted_def)
    then show ?thesis using True by (simp add: startGoal_def started_def fresh_def Let_def)
  next
    case False
    show ?thesis
    proof (cases "decideDeterminismRequirement (ro_requireDeterministic opts) (ro_determinism opts) :: 'd goal_decision option")
      case None
      then show ?thesis
        using False cb assms
        by (simp add: startGoal_def started_def [symmetric] fresh_def [symmetric] Let_def healthy_def calledBelow_def attemptsOk_def)
    next
      case (Some d)
      define u where "u = applyDecision opts tm d id started"
      have "d = Fail UnsupportedValidation None (Some UNSUPPORTED_VALIDATION_DETAIL)"
        using Some by (simp add: decideDeterminismRequirement_def split: if_splits)
      then have "healthy m u"
        using applyDecision_core [OF cb(1,2) _ _ _ u_def] cb(3) over by (simp add: attemptsOk_def)
      then show ?thesis
        using Some False by (simp add: startGoal_def started_def [symmetric] fresh_def [symmetric] Let_def u_def)
    qed
  qed
qed

lemma goal_runs_healthy:
  assumes "goal_runs p opts k s" "b_maximumAttempts (ro_budget opts) = jnat m" "0 < m"
  shows "healthy m s \<and> k \<le> rank m (gr_phase s)"
  using assms(1)
proof (induction rule: goal_runs.induct)
  case (started tm aborted script)
  then show ?case using startGoal_healthy [OF assms(3)] by simp
next
  case (turned k s tm input script s')
  have "healthy m (s\<lparr>gr_script := script\<rparr>)" using turned by simp
  from turn_healthy [OF this assms(2) turned(2)] turned(3) show ?case by (auto split: if_splits)
qed

subsection \<open>Once it is over\<close>

lemma over_frozen:
  assumes h: "healthy m s" and o: "isOver s" and t: "turn p opts tm input s = Some s'"
  shows "gr_status s' = gr_status s \<and> gr_terminalReason s' = gr_terminalReason s \<and> gr_result s' = gr_result s
    \<and> gr_log s' = gr_log s \<and> runsCalled s' = runsCalled s \<and> validatorsCalled s' = validatorsCalled s"
proof -
  have none: "gr_threw s = None" "gr_pending s = None" using h o by (simp_all add: healthy_def core_def endedWell_def)
  have ad: "adoptRunId opts tm i observed s = s \<or> adoptRunId opts tm i observed s = updateAttempt i (\<lambda>a. a\<lparr>ra_runId := Some observed\<rparr>) s"
    for i observed
    using none(2) by (simp add: adoptRunId_def flushAttemptStart_def updateAttempt_def Let_def)
  have ado: "isOver (adoptRunId opts tm i observed s)" for i observed
    by (rule disjE [OF ad [of i observed]]) (use o in \<open>simp_all add: updateAttempt_def isOver_def\<close>)
  have stop: "caught opts tm (stopRun s) = stopRun s" using none(1) by (simp add: stopRun_def)
  show ?thesis
  proof (cases input)
    case (SessionReady sid aid starts)
    then show ?thesis using t o stop by (auto simp: turn_def sessionReady_def split: run_phase.splits) (simp_all add: stopRun_def)
  next
    case (SessionRejected message)
    have cb: "calledBelow (length (gr_attempts s)) (length (gr_attempts s)) s"
      using h by (cases "gr_phase s") (auto simp: healthy_def intro: calledBelow_mono)
    have "s' = stopRun s"
      using SessionRejected t late_failure(1) [OF _ o cb, where m = m and announce = id] h
      by (auto simp: turn_def healthy_def decideAttemptRunFailure_def split: run_phase.splits if_splits)
    then show ?thesis by (simp add: stopRun_def)
  next
    case (RunObserved oid)
    then obtain i where "s' = adoptRunId opts tm i oid s" using t by (auto simp: turn_def split: run_phase.splits)
    then show ?thesis using ad [of i oid] by (auto simp: updateAttempt_def)
  next
    case (RunSettled result snap)
    then obtain i fb where "s' = caught opts tm (runEnded opts tm i fb result snap s)"
      using t by (auto simp: turn_def split: run_phase.splits)
    then have "s' = caught opts tm (stopRun (adoptRunId opts tm i snap s))" using ado by (simp add: runEnded_def)
    then show ?thesis using ad [of i snap] none(1) by (auto simp: stopRun_def updateAttempt_def)
  next
    case (RunRejected message)
    then show ?thesis using t o stop by (auto simp: turn_def split: run_phase.splits) (simp_all add: stopRun_def)
  next
    case (VerdictSettled outcome a b)
    have "gr_status s \<noteq> Evaluating" using o by (auto simp: isOver_def)
    then show ?thesis using VerdictSettled t stop
      by (auto simp: turn_def verdictReady_def split: run_phase.splits) (simp_all add: stopRun_def)
  next
    case GoalAborted
    then show ?thesis using t o by (auto simp: turn_def abortGoal_def onGoalAbort_def isOver_def)
  next
    case (AttemptAborted target)
    then show ?thesis using t o by (auto simp: turn_def abortOneAttempt_def)
  next
    case DurationElapsed
    then show ?thesis using t o by (auto simp: turn_def durationElapsed_def isOver_def split: if_splits)
  qed
qed

subsection \<open>The properties\<close>

text \<open>
  \<^bold>\<open>C18\<close> The in-memory controller implements the machine the durable one does: whatever arrives, in whatever
  order, and whatever its listeners, its agent and its validator do while they are called, its status and the
  number of its attempts have moved by steps of \<open>goal_step\<close>, with at most \<open>m\<close> attempts.
\<close>

theorem run_refines:
  assumes "goal_runs p opts k s" "b_maximumAttempts (ro_budget opts) = jnat m" "0 < m"
  shows "(goal_step m)\<^sup>*\<^sup>* (Pending, 0) (gr_status s, length (gr_attempts s)) \<and> length (gr_attempts s) \<le> m"
proof -
  have c: "core m s" using goal_runs_healthy [OF assms] by (simp add: healthy_def)
  have "length (gr_attempts s) \<le> m"
    using core_placed [OF c] by (cases "gr_status s") auto
  with c show ?thesis by (simp add: core_def)
qed


text \<open>
  \<^bold>\<open>C20\<close> A goal ends once, and fully: it is over exactly when it has a result, which agrees with its status and
  reason; then exactly one event of its stream is an ending, the one of that reason, no attempt is left open,
  nothing waits to be announced; before, none is. Attempts are numbered in order, none but the last is open, and
  each is run at most once and validated at most once, in order.
\<close>

theorem run_ends_once:
  assumes "goal_runs p opts k s" "b_maximumAttempts (ro_budget opts) = jnat m" "0 < m"
  shows "(if isOver s then endedWell s else notEnded s)
    \<and> attemptsOk (isOver s) (gr_attempts s) \<and> gr_threw s = None
    \<and> (\<exists>rest. gr_log s = GoalStartedEvent # rest)
    \<and> calledBelow (length (gr_attempts s)) (length (gr_attempts s)) s"
proof -
  have h: "healthy m s" using goal_runs_healthy [OF assms] by blast
  then have "calledBelow (length (gr_attempts s)) (length (gr_attempts s)) s"
    by (cases "gr_phase s") (auto simp: healthy_def intro: calledBelow_mono)
  with h show ?thesis by (simp add: healthy_def core_def)
qed

text \<open>
  \<^bold>\<open>C21\<close> A goal that is over stays as it ended: a run or a verdict that settles late, a timer, an abort of the
  goal or of an attempt changes neither its status, nor its reason, nor its result, nor its stream of events, and
  starts no run and no validation.
\<close>

theorem run_frozen:
  assumes "goal_runs p opts k s" "b_maximumAttempts (ro_budget opts) = jnat m" "0 < m" "isOver s"
    and "turn p opts tm input (s\<lparr>gr_script := script\<rparr>) = Some s'"
  shows "gr_status s' = gr_status s \<and> gr_terminalReason s' = gr_terminalReason s \<and> gr_result s' = gr_result s
    \<and> gr_log s' = gr_log s \<and> runsCalled s' = runsCalled s \<and> validatorsCalled s' = validatorsCalled s"
proof -
  have "healthy m (s\<lparr>gr_script := script\<rparr>)" using goal_runs_healthy [OF assms(1-3)] by simp
  from over_frozen [OF this _ assms(5)] assms(4) show ?thesis by simp
qed

end
