(* ===== verification/RunWitnesses.thy ===== *)
theory RunWitnesses
  imports HostWitnesses RunLaws
begin

section \<open>The in-memory controller at concrete runs\<close>

subsection \<open>A goal that retries once, and how it is canceled\<close>

definition runOptions :: run_options where
  "runOptions =
     \<lparr>ro_goalRunId = lit ''g'', ro_validator = \<lparr>id_name = lit ''v'', id_version = lit ''1''\<rparr>, ro_determinism = None,
      ro_requireDeterministic = None,
      ro_budget = \<lparr>b_maximumAttempts = Fin 2, b_maximumTotalDurationMs = Some (Fin 100), b_maximumTotalSteps = None,
        b_maximumTotalTokens = None, b_maximumTotalCostUsd = None\<rparr>,
      ro_retryOn = [RetryFail], ro_policy = Continue, ro_prompt = lit ''p'', ro_principal = None\<rparr>"

definition clockAt :: "nat \<Rightarrow> turn_time" where
  "clockAt n = \<lparr>tm_iso = lit ''t'', tm_elapsed = jnat n\<rparr>"

definition runResult :: run_end where
  "runResult = \<lparr>en_finishReason = StopCondition, en_steps = 2, en_tokens = Fin 10, en_cost = None\<rparr>"

definition openedAt :: "nat \<Rightarrow> string \<Rightarrow> unit run_attempt" where
  "openedAt i attemptId = newAttempt (clockAt 1) i (lit attemptId) (lit ''s'')"

definition ranAs :: "string \<Rightarrow> unit run_attempt \<Rightarrow> unit run_attempt" where
  "ranAs runId attempt = attempt\<lparr>ra_runId := Some (lit runId), ra_finishReason := Some StopCondition,
     ra_steps := Fin 2, ra_tokens := Fin 10, ra_status := AEvaluating\<rparr>"

definition judged :: "unit outcome \<Rightarrow> unit run_attempt \<Rightarrow> unit run_attempt" where
  "judged outcome attempt = attempt\<lparr>ra_validation := Some \<lparr>rv_identity = ro_validator runOptions,
     rv_startedAt = lit ''t1'', rv_completedAt = lit ''t2'', rv_outcome = outcome\<rparr>,
     ra_feedback := feedbackOf outcome, ra_status := statusOfOutcome outcome, ra_completedAt := Some (lit ''t2'')\<rparr>"

definition begun :: "unit goal_run" where
  "begun = (freshRun False [])\<lparr>gr_log := [GoalStartedEvent], gr_durationTimer := True,
     gr_phase := SessionPhase 0 None None\<rparr>"

definition running :: "unit goal_run" where
  "running = begun\<lparr>gr_status := Running, gr_attempts := [openedAt 0 ''a''], gr_attemptSignal := Some False,
     gr_liveRun := True, gr_pending := Some 0, gr_calls := [CallRun 0 (lit ''p'')], gr_phase := RunPhase 0 None\<rparr>"

definition evaluating :: "unit goal_run" where
  "evaluating = running\<lparr>gr_status := Evaluating, gr_attempts := [ranAs ''s:1'' (openedAt 0 ''a'')],
     gr_totalSteps := Fin 2, gr_totalTokens := Fin 10, gr_pending := None,
     gr_log := [GoalStartedEvent, AttemptStartedEvent (lit ''a'') 0 (Some (lit ''s:1''))],
     gr_calls := [CallRun 0 (lit ''p''), CallValidator 0], gr_phase := VerdictPhase 0 None\<rparr>"

definition recorded :: "unit goal_run" where
  "recorded = evaluating\<lparr>gr_attempts := [judged (FailVerdict (lit ''f'') [] True) (ranAs ''s:1'' (openedAt 0 ''a''))]\<rparr>"

definition heard :: "unit run_event list" where
  "heard = [GoalStartedEvent, AttemptStartedEvent (lit ''a'') 0 (Some (lit ''s:1'')),
     AttemptValidatedEvent (lit ''a'') (ro_validator runOptions) ''fail'']"

definition feedbackEvent :: "unit run_event" where
  "feedbackEvent = FeedbackRecordedEvent (lit ''a'') (sha256HexSync samplePlatform (lit ''f''))"

definition retried :: "unit goal_run" where
  "retried = recorded\<lparr>gr_status := Retrying, gr_log := heard @ [feedbackEvent],
     gr_phase := SessionPhase 1 (Some (lit ''f'')) (Some (lit ''a''))\<rparr>"

definition canceledEnd :: "unit run_attempt list \<Rightarrow> unit run_event list \<Rightarrow> unit goal_run" where
  "canceledEnd attempts events = evaluating\<lparr>gr_status := Canceled, gr_terminalReason := Some GoalCanceled,
     gr_attempts := attempts, gr_frozenDurationMs := Some (Fin 3), gr_aborted := True, gr_attemptSignal := Some True,
     gr_durationTimer := False, gr_log := events, gr_ended := True,
     gr_result := Some \<lparr>rr_status = Canceled, rr_terminalReason = GoalCanceled, rr_attempts = attempts,
       rr_usage = \<lparr>u_attempts = 1, u_steps = Fin 2, u_tokens = Fin 10, u_costUsd = None, u_durationMs = Fin 3\<rparr>,
       rr_validatorError = None, rr_failureDetail = None\<rparr>,
     gr_calls := [CallRun 0 (lit ''p''), CallValidator 0, AbortRun]\<rparr>"

text \<open>The goal is canceled while its validator runs, or by the one who hears its verdict.\<close>

definition canceled :: "unit goal_run" where
  "canceled = canceledEnd [closedAsAborted (clockAt 3) (ranAs ''s:1'' (openedAt 0 ''a''))]
     [GoalStartedEvent, AttemptStartedEvent (lit ''a'') 0 (Some (lit ''s:1'')), CancellationRequestedEvent None, CanceledEvent]"

definition overheard :: "unit goal_run" where
  "overheard = (canceledEnd (gr_attempts recorded) (heard @ [CancellationRequestedEvent None, CanceledEvent, feedbackEvent]))
     \<lparr>gr_phase := StoppedPhase\<rparr>"

lemmas run_defs = runOptions_def clockAt_def runResult_def openedAt_def ranAs_def judged_def begun_def running_def
  evaluating_def newAttempt_def

lemma run_facts:
  "startsWith (lit ''s:1'') (lit ''s'' @ lit '':'')" "jnat 2 = Fin 2" "jadd (Fin 0) (Fin 2) = Fin 2" "toDouble 10 = Fin 10"
  "toDouble 2 = Fin 2"
  using toDouble_int [of 10] toDouble_int [of 2] by (simp_all add: startsWith_def lit_def jnat_def)

lemma begun_start: "startGoal runOptions (clockAt 0) False [] = begun"
  by (simp add: startGoal_def emitEvent_def flushAttemptStart_def publish_def reacting_def freshRun_def run_defs
      decideDeterminismRequirement_def Let_def)

lemma running_turn:
  "turn samplePlatform runOptions (clockAt 1) (SessionReady (lit ''s'') (lit ''a'') None) begun = Some running"
  by (simp add: turn_def sessionReady_def openRunAttempt_def unlessThrown_def transition_def canTransitionGoalRun_def
      caught_def callOut_def reacting_def freshRun_def isOver_def goalAttemptInput_def run_defs Let_def)

lemma evaluating_turn:
  "turn samplePlatform runOptions (clockAt 2) (RunSettled runResult (lit ''s:1'')) running = Some evaluating"
proof -
  define adopted where "adopted = running\<lparr>gr_attempts := [(openedAt 0 ''a'')\<lparr>ra_runId := Some (lit ''s:1'')\<rparr>], gr_pending := None,
    gr_log := gr_log evaluating\<rparr>"
  define accounted where "accounted = evaluating\<lparr>gr_status := Running, gr_attempts := [(ranAs ''s:1'' (openedAt 0 ''a''))\<lparr>ra_status := ARunning\<rparr>],
    gr_calls := gr_calls running, gr_phase := RunPhase 0 None\<rparr>"
  have a: "adoptRunId runOptions (clockAt 2) 0 (lit ''s:1'') running = adopted"
    using run_facts(1)
    by (simp add: adoptRunId_def flushAttemptStart_def publish_def startedEventOf_def reacting_def updateAttempt_def
        adopted_def freshRun_def run_defs Let_def)
  have c: "accountUsage 0 runResult (updateAttempt 0 (\<lambda>a. a\<lparr>ra_finishReason := Some StopCondition\<rparr>) adopted) = accounted"
    using run_facts(2-) by (simp add: accountUsage_def updateAttempt_def adopted_def accounted_def freshRun_def run_defs)
  have d: "decideRunFinish (contextOf runOptions (clockAt 2) accounted) StopCondition operator False None
      = (run_finish_decision.Validate :: unit run_finish_decision)" for operator
    by (simp add: decideRunFinish_def contextOf_def runOptions_def)
  have e: "beginEvaluation runOptions (clockAt 2) 0 None accounted = evaluating"
    by (simp add: beginEvaluation_def unlessThrown_def transition_def canTransitionGoalRun_def updateAttempt_def callOut_def
        reacting_def accounted_def freshRun_def run_defs Let_def)
  have "\<not> isOver adopted" "gr_phase running = RunPhase 0 None" "gr_threw evaluating = None"
    "en_finishReason runResult = StopCondition" "en_cost runResult = None"
    by (simp_all add: adopted_def isOver_def freshRun_def run_defs)
  then show ?thesis by (simp add: turn_def runEnded_def a c d e caught_def Let_def)
qed

lemma verdict_decided:
  "decideOutcome (contextOf runOptions (clockAt 3) recorded) (FailVerdict (lit ''f'') [] True :: unit outcome) None False = Retry (Some (lit ''f''))"
  by (simp add: contextOf_def recorded_def runUsage_def freshRun_def run_defs decideRetryOrExhaust_def isBudgetExceeded_def
      boundReached_def jnat_def withDefault_def)

lemma verdict_applied:
  fixes script
  defines "answer \<equiv> VerdictSettled (FailVerdict (lit ''f'') [] True) (lit ''t1'') (lit ''t2'') :: unit turn_input"
  shows "turn samplePlatform runOptions (clockAt 3) answer (evaluating\<lparr>gr_script := script\<rparr>) =
    Some (caught runOptions (clockAt 3) (decideRun runOptions (clockAt 3) 0 (Retry (Some (lit ''f'')))
      (announceVerdict samplePlatform runOptions (clockAt 3) (lit ''a'') (FailVerdict (lit ''f'') [] True))
      (recorded\<lparr>gr_script := script\<rparr>)))"
proof -
  have fields: "gr_phase evaluating = VerdictPhase 0 None" "gr_status evaluating = Evaluating" "gr_operatorAborted evaluating = []"
    "gr_frozenDurationMs evaluating = None" "ra_attemptId (gr_attempts evaluating ! 0) = lit ''a''"
    by (simp_all add: run_defs freshRun_def)
  have early: "\<not> isDurationBoundElapsed (ro_budget runOptions) (withDefault (tm_elapsed (clockAt 3)) None)"
    by (simp add: isDurationBoundElapsed_def boundReached_def run_defs jnat_def withDefault_def)
  have r: "updateAttempt 0 (\<lambda>a. a\<lparr>ra_validation := Some \<lparr>rv_identity = ro_validator runOptions,
      rv_startedAt = lit ''t1'', rv_completedAt = lit ''t2'', rv_outcome = FailVerdict (lit ''f'') [] True\<rparr>,
      ra_feedback := Some (lit ''f''), ra_status := AFailed, ra_completedAt := Some (lit ''t2'')\<rparr>) (evaluating\<lparr>gr_script := script\<rparr>)
    = recorded\<lparr>gr_script := script\<rparr>"
    by (simp add: recorded_def updateAttempt_def run_defs)
  have "contextOf runOptions (clockAt 3) (recorded\<lparr>gr_script := script\<rparr>) = contextOf runOptions (clockAt 3) recorded"
    by (simp add: contextOf_def runUsage_def)
  then show ?thesis
    using fields early verdict_decided by (simp add: turn_def answer_def verdictReady_def r Let_def del: decideOutcome.simps)
qed

lemma retried_turn:
  "turn samplePlatform runOptions (clockAt 3) (VerdictSettled (FailVerdict (lit ''f'') [] True) (lit ''t1'') (lit ''t2'')) evaluating
     = Some retried"
  using verdict_applied [of "[]"]
  by (simp add: decideRun_def continuing_def applyDecision_def announceVerdict_def emitEvent_def flushAttemptStart_def publish_def
      reacting_def unlessThrown_def transition_def canTransitionGoalRun_def caught_def isOver_def freshRun_def
      recorded_def retried_def heard_def feedbackEvent_def run_defs Let_def)

lemma canceled_turn: "turn samplePlatform runOptions (clockAt 3) GoalAborted evaluating = Some canceled"
  by (simp add: turn_def abortGoal_def onGoalAbort_def emitEvent_def flushAttemptStart_def publish_def reacting_def
      closeCurrentAttemptAsAborted_def updateAttempt_def finishGoal_def unlessThrown_def transition_def canTransitionGoalRun_def
      terminalEventFor_def resultOf_def runUsage_def isOver_def freshRun_def canceled_def canceledEnd_def closedAsAborted_def
      isOpenAttempt_def withDefault_def jnat_def run_defs Let_def)

text \<open>
  What \<open>announce\<close> of \<open>applyOutcome\<close> does when the goal is canceled by the one who hears that the attempt was
  validated: the feedback is announced after the goal's last event.
\<close>

lemma feedback_after_end:
  "turn samplePlatform runOptions (clockAt 3) (VerdictSettled (FailVerdict (lit ''f'') [] True) (lit ''t1'') (lit ''t2''))
     (evaluating\<lparr>gr_script := [[AbortGoal]]\<rparr>) = Some overheard"
  using verdict_applied [of "[[AbortGoal]]"]
  by (simp add: decideRun_def continuing_def applyDecision_def announceVerdict_def emitEvent_def flushAttemptStart_def publish_def
      reacting_def abortGoal_def onGoalAbort_def closeCurrentAttemptAsAborted_def updateAttempt_def finishGoal_def
      unlessThrown_def transition_def canTransitionGoalRun_def terminalEventFor_def resultOf_def runUsage_def caught_def isOver_def
      freshRun_def recorded_def overheard_def canceledEnd_def heard_def feedbackEvent_def closedAsAborted_def
      isOpenAttempt_def withDefault_def jnat_def run_defs Let_def)

subsection \<open>The properties at these runs\<close>

lemma quiet_turn:
  assumes "goal_runs p opts k s" "gr_script s = []" "turn p opts tm input s = Some s'"
  shows "goal_runs p opts (if awaited input then Suc k else k) s'"
proof -
  have "s\<lparr>gr_script := []\<rparr> = s" using assms(2) by (cases s) simp
  with assms(3) have "turn p opts tm input (s\<lparr>gr_script := []\<rparr>) = Some s'" by simp
  from goal_runs.turned [OF assms(1) this] show ?thesis .
qed

lemma evaluating_runs: "goal_runs samplePlatform runOptions 2 evaluating"
proof -
  have "goal_runs samplePlatform runOptions 0 begun"
    unfolding begun_start [symmetric] by (rule goal_runs.started)
  from quiet_turn [OF this _ running_turn] have "goal_runs samplePlatform runOptions 1 running"
    by (simp add: begun_def freshRun_def)
  from quiet_turn [OF this _ evaluating_turn] show ?thesis by (simp add: running_def begun_def freshRun_def numeral_2_eq_2)
qed

lemma evaluating_quiet: "gr_script evaluating = []" by (simp add: evaluating_def running_def begun_def freshRun_def)

lemma retried_runs: "goal_runs samplePlatform runOptions 3 retried"
  using quiet_turn [OF evaluating_runs evaluating_quiet retried_turn] by simp

lemma canceled_runs: "goal_runs samplePlatform runOptions 2 canceled"
  using quiet_turn [OF evaluating_runs evaluating_quiet canceled_turn] by simp

lemma two_attempts: "b_maximumAttempts (ro_budget runOptions) = jnat 2" by (simp add: runOptions_def jnat_def)

lemma canceled_over: "isOver canceled" by (simp add: isOver_def canceled_def canceledEnd_def)

theorem run_refines_witness:
  "(goal_step 2)\<^sup>*\<^sup>* (Pending, 0) (gr_status retried, length (gr_attempts retried)) \<and> length (gr_attempts retried) \<le> 2"
  by (rule run_refines [OF retried_runs two_attempts]) simp


theorem run_ends_once_witness: "endedWell canceled \<and> attemptsOk True (gr_attempts canceled)"
  using run_ends_once [OF canceled_runs two_attempts] canceled_over by simp

theorem run_frozen_witness:
  "\<exists>s'. turn samplePlatform runOptions (clockAt 4) (VerdictSettled (Pass []) (lit ''t1'') (lit ''t2'')) canceled = Some s'
    \<and> gr_status s' = Canceled \<and> gr_log s' = gr_log canceled"
proof -
  have ph: "gr_phase canceled = VerdictPhase 0 None" "gr_status canceled = Canceled" "gr_threw canceled = None"
    "canceled\<lparr>gr_script := []\<rparr> = canceled"
    by (simp_all add: canceled_def canceledEnd_def run_defs freshRun_def)
  obtain s' where s': "turn samplePlatform runOptions (clockAt 4) (VerdictSettled (Pass []) (lit ''t1'') (lit ''t2'')) canceled = Some s'"
    using ph by (simp add: turn_def)
  have "turn samplePlatform runOptions (clockAt 4) (VerdictSettled (Pass []) (lit ''t1'') (lit ''t2'')) (canceled\<lparr>gr_script := []\<rparr>) = Some s'"
    using s' ph(4) by simp
  from run_frozen [OF canceled_runs two_attempts _ canceled_over this] s' ph(2) show ?thesis by auto
qed

end
